(* ===== verification/Netkit_Prelude.thy ===== *)
theory Netkit_Prelude
  imports Main "HOL-Library.Word"
begin

text \<open>
  What the component theories of this development share: the flag test the C code writes as
  \<open>x & m\<close>, its rewriting into single bits, the conversion to a C \<open>short\<close>, list facts about
  searching and updating by a key, and the collections of hints the components add to.
\<close>

unbundle bit_operations_syntax

named_theorems flag_bits \<open>a flag test as the test of one bit\<close>
named_theorems frame_simps \<open>the fields an operation leaves alone\<close>

type_synonym u8 = "8 word"
type_synonym u16 = "16 word"
type_synonym u32 = "32 word"

section \<open>Flag words\<close>

text \<open>The C condition \<open>x & m\<close>: some bit of the mask is set.\<close>

definition has :: "u32 \<Rightarrow> u32 \<Rightarrow> bool" where
  "has x m \<longleftrightarrow> x AND m \<noteq> 0"

lemma has_zero [simp]: "\<not> has 0 m" "\<not> has x 0"
  by (simp_all add: has_def)

lemma has_iff_bit: "has x m \<longleftrightarrow> (\<exists>n<32. bit x n \<and> bit m n)"
  unfolding has_def bit_eq_iff by (auto simp: bit_simps)

lemma has_or: "has (x OR y) m \<longleftrightarrow> has x m \<or> has y m"
  by (auto simp: has_iff_bit bit_simps)

lemma has_mask_or: "has x (m OR n) \<longleftrightarrow> has x m \<or> has x n"
  by (auto simp: has_iff_bit bit_simps)

lemma has_single_bit: "(\<And>k. bit m k \<longleftrightarrow> k = n) \<Longrightarrow> n < 32 \<Longrightarrow> has x m \<longleftrightarrow> bit x n"
  by (auto simp: has_iff_bit)

lemma has_two_power: "n < 32 \<Longrightarrow> has x (2 ^ n) \<longleftrightarrow> bit x n"
  by (rule has_single_bit) (auto simp: bit_simps)

lemma has_of_power: "m = 2 ^ n \<Longrightarrow> n < 32 \<Longrightarrow> has x m \<longleftrightarrow> bit x n"
  by (simp add: has_two_power)

text \<open>The value an \<open>int\<close> has after it went through a C \<open>short\<close>.\<close>

definition to_short :: "int \<Rightarrow> int" where
  "to_short i = sint (word_of_int i :: 16 word)"

lemma to_short_small: "- 32768 \<le> i \<Longrightarrow> i < 32768 \<Longrightarrow> to_short i = i"
  by (simp add: to_short_def signed_take_bit_int_eq_self sint_sbintrunc')

section \<open>Searching and updating lists by a key\<close>

lemma find_Some_set: "find P xs = Some x \<Longrightarrow> x \<in> set xs \<and> P x"
  by (induction xs) (auto split: if_splits)

lemma find_None_all: "find P xs = None \<longleftrightarrow> (\<forall>x\<in>set xs. \<not> P x)"
  by (induction xs) auto

lemma find_append: "find P (xs @ ys) = (case find P xs of None \<Rightarrow> find P ys | Some x \<Rightarrow> Some x)"
  by (induction xs) auto

lemma filter_key_absent: "k \<notin> f ` set xs \<Longrightarrow> filter (\<lambda>x. f x \<noteq> k) xs = xs"
  by (induction xs) auto

lemma map_if_absent: "k \<notin> f ` set xs \<Longrightarrow> map (\<lambda>x. if f x = k then g x else x) xs = xs"
  by (induction xs) auto

lemma map_if_key:
  "(\<And>x. f (g x) = f x) \<Longrightarrow> map f (map (\<lambda>x. if f x = k then g x else x) xs) = map f xs"
  by (induction xs) auto

lemma find_map: "find P (map g xs) = map_option g (find (\<lambda>x. P (g x)) xs)"
  by (induction xs) auto

lemma find_cong_set: "(\<And>x. x \<in> set xs \<Longrightarrow> P x = Q x) \<Longrightarrow> find P xs = find Q xs"
  by (induction xs) auto

lemma distinct_map_eq: "distinct (map f xs) \<Longrightarrow> x \<in> set xs \<Longrightarrow> y \<in> set xs \<Longrightarrow> f x = f y \<Longrightarrow> x = y"
  by (auto simp: distinct_map inj_on_def)

lemma if_both: "P x \<Longrightarrow> P y \<Longrightarrow> P (if b then x else y)"
  by simp

section \<open>Stores with keys\<close>

text \<open>
  The contract of a table that a component keeps under keys: what a lookup returns after a
  store, for the key stored and for every other. \<open>adm\<close> says when a store may be made.
\<close>

locale keyed_store =
  fixes get :: "'s \<Rightarrow> 'k \<Rightarrow> 'v option"
    and put :: "'k \<Rightarrow> 'v \<Rightarrow> 's \<Rightarrow> 's"
    and inv :: "'s \<Rightarrow> bool"
    and adm :: "'k \<Rightarrow> 'v \<Rightarrow> 's \<Rightarrow> bool"
  assumes get_put: "inv s \<Longrightarrow> adm k v s \<Longrightarrow> get (put k v s) = (get s)(k \<mapsto> v)"
    and inv_put: "inv s \<Longrightarrow> adm k v s \<Longrightarrow> inv (put k v s)"
    and adm_put: "inv s \<Longrightarrow> adm k v s \<Longrightarrow> adm k' v' s \<Longrightarrow> adm k v (put k' v' s)"
begin

lemma get_puts:
  "inv s \<Longrightarrow> \<forall>(k, v)\<in>set kvs. adm k v s \<Longrightarrow>
   get (fold (\<lambda>(k, v). put k v) kvs s) = get s ++ map_of (rev kvs)"
proof (induction kvs arbitrary: s)
  case (Cons kv kvs)
  obtain k v where kv: "kv = (k, v)" by (cases kv)
  with Cons.prems have adm: "adm k v s" by simp
  have "inv (put k v s)" using Cons.prems(1) adm by (rule inv_put)
  moreover have "\<forall>(k', v')\<in>set kvs. adm k' v' (put k v s)"
    using Cons.prems adm by (auto intro: adm_put)
  ultimately have "get (fold (\<lambda>(k, v). put k v) kvs (put k v s)) = get (put k v s) ++ map_of (rev kvs)"
    by (rule Cons.IH)
  with kv Cons.prems(1) adm show ?case
    by (simp add: get_put)
qed simp

lemma get_put_other: "inv s \<Longrightarrow> adm k v s \<Longrightarrow> k' \<noteq> k \<Longrightarrow> get (put k v s) k' = get s k'"
  by (simp add: get_put)

lemma get_put_same: "inv s \<Longrightarrow> adm k v s \<Longrightarrow> get (put k v s) k = Some v"
  by (simp add: get_put)

end

end
