(* ===== verification/Rip_Addr.thy ===== *)
theory Rip_Addr
  imports Netkit_Prelude
begin

text \<open>
  The address side of \<^verbatim>\<open>routed\<close>: the socket address and interface records, the classful
  address arithmetic of \<^verbatim>\<open>inet.c\<close>, the Internet entry of the address family switch
  (\<^verbatim>\<open>af.c\<close>) and the searches of the interface list (\<^verbatim>\<open>if.c\<close>).

  A \<open>struct sockaddr\<close> is read through \<open>struct sockaddr_in\<close>; its four fields are exactly the
  sixteen bytes of the structure, so record equality is the \<open>memcmp\<close> of the macro \<open>equal\<close>.
  Fields hold host order values: where the code applies \<open>ntohs\<close> or \<open>ntohl\<close>, the model reads
  the field. A pointer to an interface is the number \<open>int_id\<close> of its record.
\<close>

section \<open>Socket addresses and interfaces\<close>

record sockaddr =
  sa_family :: u16
  sin_port :: u16
  sin_addr :: u32
  sin_zero :: "64 word"

definition AF_UNSPEC :: u16 where "AF_UNSPEC = 0"
definition AF_INET :: u16 where "AF_INET = 2"

text \<open>The only entry of \<open>afswitch\<close> that is not \<open>NIL\<close> is the Internet one.\<close>

definition af_known :: "u16 \<Rightarrow> bool" where
  "af_known f \<longleftrightarrow> f = AF_INET"

definition IFF_UP :: u32 where "IFF_UP = 0x1"
definition IFF_BROADCAST :: u32 where "IFF_BROADCAST = 0x2"
definition IFF_LOOPBACK :: u32 where "IFF_LOOPBACK = 0x8"
definition IFF_POINTOPOINT :: u32 where "IFF_POINTOPOINT = 0x10"
definition IFF_SUBNET :: u32 where "IFF_SUBNET = 0x100000"
definition IFF_PASSIVE :: u32 where "IFF_PASSIVE = 0x200000"
definition IFF_INTERFACE :: u32 where "IFF_INTERFACE = 0x400000"
definition IFF_REMOTE :: u32 where "IFF_REMOTE = 0x800000"

text \<open>\<open>int_broadaddr\<close> and \<open>int_dstaddr\<close> are the two views of one union.\<close>

record interface =
  int_id :: nat
  int_addr :: sockaddr
  int_intu :: sockaddr
  int_metric :: int
  int_flags :: u32
  int_net :: u32
  int_netmask :: u32
  int_subnet :: u32
  int_subnetmask :: u32
  int_transitions :: u16

abbreviation int_broadaddr :: "interface \<Rightarrow> sockaddr" where
  "int_broadaddr \<equiv> int_intu"

abbreviation int_dstaddr :: "interface \<Rightarrow> sockaddr" where
  "int_dstaddr \<equiv> int_intu"

section \<open>Routes: flags and states\<close>

definition RTF_UP :: u32 where "RTF_UP = 0x1"
definition RTF_GATEWAY :: u32 where "RTF_GATEWAY = 0x2"
definition RTF_HOST :: u32 where "RTF_HOST = 0x4"
definition RTF_SUBNET :: u32 where "RTF_SUBNET = 0x80000"

definition RTS_CHANGED :: u32 where "RTS_CHANGED = 0x1"
definition RTS_EXTERNAL :: u32 where "RTS_EXTERNAL = 0x2"
definition RTS_INTERNAL :: u32 where "RTS_INTERNAL = 0x4"
definition RTS_PASSIVE :: u32 where "RTS_PASSIVE = IFF_PASSIVE"
definition RTS_INTERFACE :: u32 where "RTS_INTERFACE = IFF_INTERFACE"
definition RTS_REMOTE :: u32 where "RTS_REMOTE = IFF_REMOTE"
definition RTS_SUBNET :: u32 where "RTS_SUBNET = IFF_SUBNET"

lemmas flag_defs =
  IFF_UP_def IFF_BROADCAST_def IFF_LOOPBACK_def IFF_POINTOPOINT_def IFF_SUBNET_def
  IFF_PASSIVE_def IFF_INTERFACE_def IFF_REMOTE_def RTF_UP_def RTF_GATEWAY_def RTF_HOST_def
  RTF_SUBNET_def RTS_CHANGED_def RTS_EXTERNAL_def RTS_INTERNAL_def RTS_PASSIVE_def
  RTS_INTERFACE_def RTS_REMOTE_def RTS_SUBNET_def

lemma has_flag [flag_bits]:
  "has x IFF_UP \<longleftrightarrow> bit x 0" "has x IFF_BROADCAST \<longleftrightarrow> bit x 1" "has x IFF_LOOPBACK \<longleftrightarrow> bit x 3"
  "has x IFF_POINTOPOINT \<longleftrightarrow> bit x 4" "has x IFF_SUBNET \<longleftrightarrow> bit x 20"
  "has x IFF_PASSIVE \<longleftrightarrow> bit x 21" "has x IFF_INTERFACE \<longleftrightarrow> bit x 22"
  "has x IFF_REMOTE \<longleftrightarrow> bit x 23" "has x RTF_UP \<longleftrightarrow> bit x 0" "has x RTF_GATEWAY \<longleftrightarrow> bit x 1"
  "has x RTF_HOST \<longleftrightarrow> bit x 2" "has x RTF_SUBNET \<longleftrightarrow> bit x 19" "has x RTS_CHANGED \<longleftrightarrow> bit x 0"
  "has x RTS_EXTERNAL \<longleftrightarrow> bit x 1" "has x RTS_INTERNAL \<longleftrightarrow> bit x 2"
  "has x RTS_PASSIVE \<longleftrightarrow> bit x 21" "has x RTS_INTERFACE \<longleftrightarrow> bit x 22"
  "has x RTS_REMOTE \<longleftrightarrow> bit x 23" "has x RTS_SUBNET \<longleftrightarrow> bit x 20"
  by (rule has_of_power, simp add: flag_defs, simp)+

section \<open>Classful Internet addresses\<close>

definition IN_CLASSA :: "u32 \<Rightarrow> bool" where "IN_CLASSA i \<longleftrightarrow> i AND 0x80000000 = 0"
definition IN_CLASSB :: "u32 \<Rightarrow> bool" where "IN_CLASSB i \<longleftrightarrow> i AND 0xc0000000 = 0x80000000"
definition IN_EXPERIMENTAL :: "u32 \<Rightarrow> bool" where
  "IN_EXPERIMENTAL i \<longleftrightarrow> i AND 0xe0000000 = 0xe0000000"

definition IN_CLASSA_NET :: u32 where "IN_CLASSA_NET = 0xff000000"
definition IN_CLASSB_NET :: u32 where "IN_CLASSB_NET = 0xffff0000"
definition IN_CLASSC_NET :: u32 where "IN_CLASSC_NET = 0xffffff00"
definition IN_CLASSA_HOST :: u32 where "IN_CLASSA_HOST = 0x00ffffff"
definition IN_CLASSB_HOST :: u32 where "IN_CLASSB_HOST = 0x0000ffff"
definition IN_CLASSC_HOST :: u32 where "IN_CLASSC_HOST = 0x000000ff"

text \<open>\<open>inet_makeaddr\<close>, the version the source has for C libraries other than glibc 2.\<close>

definition inet_makeaddr :: "interface list \<Rightarrow> u32 \<Rightarrow> u32 \<Rightarrow> u32" where
  "inet_makeaddr ifnet net host =
     (let mask0 = (if IN_CLASSA net then IN_CLASSA_HOST
                   else if IN_CLASSB net then IN_CLASSB_HOST else IN_CLASSC_HOST);
          mask = (case find (\<lambda>ifp. int_netmask ifp AND net = int_net ifp) ifnet of
                    Some ifp \<Rightarrow> NOT (int_subnetmask ifp)
                  | None \<Rightarrow> mask0)
      in net OR (host AND mask))"

definition inet_netof_subnet :: "interface list \<Rightarrow> u32 \<Rightarrow> u32" where
  "inet_netof_subnet ifnet i =
     (let net = (if IN_CLASSA i then i AND IN_CLASSA_NET
                 else if IN_CLASSB i then i AND IN_CLASSB_NET
                 else i AND IN_CLASSC_NET)
      in case find (\<lambda>ifp. int_netmask ifp AND net = int_net ifp) ifnet of
           Some ifp \<Rightarrow> i AND int_subnetmask ifp
         | None \<Rightarrow> net)"

text \<open>The loop of \<open>inet_maskof\<close> has no \<open>break\<close>: the last matching interface wins.\<close>

definition inet_maskof :: "interface list \<Rightarrow> u32 \<Rightarrow> u32" where
  "inet_maskof ifnet i =
     (let mask = (if i = 0 then 0
                  else if IN_CLASSA i then IN_CLASSA_NET
                  else if IN_CLASSB i then IN_CLASSB_NET
                  else IN_CLASSC_NET)
      in fold (\<lambda>ifp mask. if int_netmask ifp AND i = int_net ifp then int_subnetmask ifp else mask)
           ifnet mask)"

definition inet_rtflags :: "interface list \<Rightarrow> sockaddr \<Rightarrow> u32" where
  "inet_rtflags ifnet sa =
     (let i = sin_addr sa;
          (net, host) =
            (if IN_CLASSA i then (i AND IN_CLASSA_NET, i AND IN_CLASSA_HOST)
             else if IN_CLASSB i then (i AND IN_CLASSB_NET, i AND IN_CLASSB_HOST)
             else (i AND IN_CLASSC_NET, i AND IN_CLASSC_HOST))
      in case find (\<lambda>ifp. net = int_net ifp) ifnet of
           Some ifp \<Rightarrow>
             (if host AND NOT (int_subnetmask ifp) \<noteq> 0 then RTF_HOST
              else if int_subnetmask ifp \<noteq> int_netmask ifp then RTF_SUBNET
              else 0)
         | None \<Rightarrow> (if host = 0 then 0 else RTF_HOST))"

text \<open>The three branches of \<open>inet_sendroute\<close> differ in the masks only.\<close>

definition sendroute_masked :: "u32 \<Rightarrow> u32 \<Rightarrow> u32 \<Rightarrow> u32 \<Rightarrow> u32 \<Rightarrow> bool" where
  "sendroute_masked netm hostm r d state =
     (if r AND netm = d AND netm then
        (if r AND hostm = 0 then \<not> has state RTS_INTERNAL else True)
      else if r AND hostm \<noteq> 0 then False
      else has state RTS_INTERNAL)"

definition inet_sendroute :: "u32 \<Rightarrow> u32 \<Rightarrow> sockaddr \<Rightarrow> bool" where
  "inet_sendroute state r sa =
     (let d = sin_addr sa in
      if IN_CLASSA r then sendroute_masked IN_CLASSA_NET IN_CLASSA_HOST r d state
      else if IN_CLASSB r then sendroute_masked IN_CLASSB_NET IN_CLASSB_HOST r d state
      else sendroute_masked IN_CLASSC_NET IN_CLASSC_HOST r d state)"

section \<open>The Internet entry of the address family switch\<close>

text \<open>
  The loop of \<open>inet_hash\<close> runs on a nonzero number only (the \<open>if (n)\<close> around it), and a
  nonzero number whose low octet is zero stays nonzero; the guard \<open>n \<noteq> 0\<close> is what makes the
  recursion total in HOL.
\<close>

function strip_low_octets :: "u32 \<Rightarrow> u32" where
  "strip_low_octets n =
     (if n \<noteq> 0 \<and> n AND 0xff = 0 then strip_low_octets (drop_bit 8 n) else n)"
  by pat_completeness auto
termination
proof (relation "measure unat", simp)
  fix n :: u32
  assume "n \<noteq> 0 \<and> n AND 0xff = 0"
  then have "unat n div 2 ^ 8 < unat n"
    by (simp add: unat_gt_0)
  then show "(drop_bit 8 n, n) \<in> measure unat"
    by (simp only: in_measure unat_drop_bit_eq) (simp only: drop_bit_eq_div)
qed

declare strip_low_octets.simps [simp del]

record afhash =
  afh_hosthash :: u32
  afh_nethash :: u32

definition inet_hash :: "interface list \<Rightarrow> sockaddr \<Rightarrow> afhash" where
  "inet_hash ifnet sa =
     (let n = inet_netof_subnet ifnet (sin_addr sa);
          n' = (if n \<noteq> 0 then strip_low_octets n else n)
      in \<lparr>afh_hosthash = sin_addr sa AND 0x7fffffff, afh_nethash = n'\<rparr>)"

definition inet_netmatch :: "interface list \<Rightarrow> sockaddr \<Rightarrow> sockaddr \<Rightarrow> bool" where
  "inet_netmatch ifnet sa1 sa2 \<longleftrightarrow>
     inet_netof_subnet ifnet (sin_addr sa1) = inet_netof_subnet ifnet (sin_addr sa2)"

definition inet_portmatch :: "u16 \<Rightarrow> sockaddr \<Rightarrow> bool" where
  "inet_portmatch rip_port sa \<longleftrightarrow> sin_port sa = rip_port"

definition IPPORT_RESERVED :: u16 where "IPPORT_RESERVED = 1024"

definition inet_portcheck :: "sockaddr \<Rightarrow> bool" where
  "inet_portcheck sa \<longleftrightarrow> sin_port sa \<le> IPPORT_RESERVED"

definition inet_checkhost :: "sockaddr \<Rightarrow> bool" where
  "inet_checkhost sa =
     (let i = sin_addr sa in
      if IN_EXPERIMENTAL i \<or> sin_port sa \<noteq> 0 then False
      else if i \<noteq> 0 \<and> i AND 0xff000000 = 0 then False
      else sin_zero sa = 0)"

definition inet_canon :: "sockaddr \<Rightarrow> sockaddr" where
  "inet_canon sa = sa\<lparr>sin_port := 0\<rparr>"

definition inet_default :: sockaddr where
  "inet_default = \<lparr>sa_family = AF_INET, sin_port = 0, sin_addr = 0, sin_zero = 0\<rparr>"

section \<open>Searching the interface list\<close>

text \<open>\<open>same\<close> compares the fourteen bytes \<open>sa_data\<close>: everything but the family.\<close>

definition same :: "sockaddr \<Rightarrow> sockaddr \<Rightarrow> bool" where
  "same a1 a2 \<longleftrightarrow>
     sin_port a1 = sin_port a2 \<and> sin_addr a1 = sin_addr a2 \<and> sin_zero a1 = sin_zero a2"

definition if_ifwithaddr :: "interface list \<Rightarrow> sockaddr \<Rightarrow> interface option" where
  "if_ifwithaddr ifnet addr =
     find (\<lambda>ifp. \<not> has (int_flags ifp) IFF_REMOTE
        \<and> sa_family (int_addr ifp) = sa_family addr
        \<and> (same (int_addr ifp) addr
           \<or> has (int_flags ifp) IFF_BROADCAST \<and> same (int_broadaddr ifp) addr)) ifnet"

definition if_ifwithdstaddr :: "interface list \<Rightarrow> sockaddr \<Rightarrow> interface option" where
  "if_ifwithdstaddr ifnet addr =
     find (\<lambda>ifp. has (int_flags ifp) IFF_POINTOPOINT \<and> same (int_dstaddr ifp) addr) ifnet"

definition if_ifwithnet :: "interface list \<Rightarrow> sockaddr \<Rightarrow> interface option" where
  "if_ifwithnet ifnet addr =
     (if \<not> af_known (sa_family addr) then None
      else find (\<lambda>ifp. \<not> has (int_flags ifp) IFF_REMOTE
             \<and> sa_family addr = sa_family (int_addr ifp)
             \<and> inet_netmatch ifnet addr (int_addr ifp)) ifnet)"

text \<open>
  \<open>if_iflookup\<close> walks the list once: an exact match ends the walk, and the first interface
  on the network of the address is kept in \<open>maybe\<close> for the case that none ends it.
\<close>

fun iflookup_loop ::
  "interface list \<Rightarrow> sockaddr \<Rightarrow> interface option \<Rightarrow> interface list \<Rightarrow> interface option" where
  "iflookup_loop ifnet addr maybe [] = maybe"
| "iflookup_loop ifnet addr maybe (ifp # ifps) =
     (if sa_family (int_addr ifp) \<noteq> sa_family addr then iflookup_loop ifnet addr maybe ifps
      else if same (int_addr ifp) addr then Some ifp
      else if has (int_flags ifp) IFF_BROADCAST \<and> same (int_broadaddr ifp) addr then Some ifp
      else if has (int_flags ifp) IFF_POINTOPOINT \<and> same (int_dstaddr ifp) addr then Some ifp
      else if maybe = None \<and> inet_netmatch ifnet addr (int_addr ifp)
           then iflookup_loop ifnet addr (Some ifp) ifps
      else iflookup_loop ifnet addr maybe ifps)"

definition if_iflookup :: "interface list \<Rightarrow> sockaddr \<Rightarrow> interface option" where
  "if_iflookup ifnet addr =
     (if \<not> af_known (sa_family addr) then None else iflookup_loop ifnet addr None ifnet)"

section \<open>Facts about addresses and searches\<close>

lemma strip_low_octets_nonzero: "n \<noteq> 0 \<Longrightarrow> strip_low_octets n \<noteq> 0 \<and> strip_low_octets n AND 0xff \<noteq> 0"
proof (induction n rule: strip_low_octets.induct)
  case (1 n)
  show ?case
  proof (cases "n AND 0xff = 0")
    case True
    have "(0xff :: u32) = mask 8" by (simp add: mask_eq_exp_minus_1)
    with True have "take_bit 8 n = 0" by (simp add: take_bit_eq_mask)
    with "1.prems" have "drop_bit 8 n \<noteq> 0"
      using bits_ident [of 8 n] by auto
    with "1.IH" "1.prems" True show ?thesis
      by (simp add: strip_low_octets.simps [of n])
  next
    case False
    with "1.prems" show ?thesis by (simp add: strip_low_octets.simps [of n])
  qed
qed

text \<open>Addresses on one network have one network hash: why \<open>rtfind\<close> may compare hashes first.\<close>

lemma netmatch_nethash:
  "inet_netmatch ifnet a b \<Longrightarrow> afh_nethash (inet_hash ifnet a) = afh_nethash (inet_hash ifnet b)"
  by (simp add: inet_netmatch_def inet_hash_def Let_def)

lemma inet_rtflags_cases:
  "inet_rtflags ifnet sa = 0 \<or> inet_rtflags ifnet sa = RTF_HOST \<or> inet_rtflags ifnet sa = RTF_SUBNET"
  by (auto simp: inet_rtflags_def Let_def split: option.splits prod.splits if_splits)

lemma iflookup_loop_mem:
  "iflookup_loop ifnet a maybe ifs = Some ifp \<Longrightarrow> ifp \<in> set ifs \<or> maybe = Some ifp"
  by (induction ifnet a maybe ifs rule: iflookup_loop.induct) (auto split: if_splits)

lemma if_lookups_mem:
  "if_ifwithaddr ifnet a = Some ifp \<Longrightarrow> ifp \<in> set ifnet"
  "if_ifwithdstaddr ifnet a = Some ifp \<Longrightarrow> ifp \<in> set ifnet"
  "if_iflookup ifnet a = Some ifp \<Longrightarrow> ifp \<in> set ifnet"
  by (auto simp: if_ifwithaddr_def if_ifwithdstaddr_def if_iflookup_def
        dest: find_Some_set iflookup_loop_mem split: if_splits)

end
