(* ===== verification/Rip_Table.thy ===== *)
theory Rip_Table
  imports Rip_Addr
begin

text \<open>
  The routing table of \<^verbatim>\<open>routed\<close> (\<^verbatim>\<open>tables.c\<close>, \<^verbatim>\<open>table.h\<close>): two arrays of 32 hash
  chains, one for hosts and one for networks, with lookup, insertion, change and deletion,
  and the requests each of them makes of the kernel.

  A pointer to an entry is the number \<open>rt_ptr\<close> the entry got when it was allocated; a chain is
  the list of its entries in the order \<open>rt_forw\<close> leads through them. \<open>insque\<close> puts an entry at
  the head of its chain. The kernel's answer to a request may depend on all requests before it:
  it is the parameter \<open>ioctl_errno\<close>, as the other facts of the environment are.
\<close>

section \<open>Data\<close>

record rt_entry =
  rt_ptr :: nat
  rt_hash :: u32
  rt_dst :: sockaddr
  rt_router :: sockaddr
  rt_flags :: u32
  rt_state :: u32
  rt_timer :: int
  rt_metric :: int
  rt_ifp :: "nat option"

datatype kaction = KADD | KDELETE

record kreq =
  k_action :: kaction
  k_flags :: u32
  k_metric :: int
  k_dst :: sockaddr
  k_gateway :: sockaddr
  k_genmask :: u32

datatype errno = EEXIST | ENETUNREACH | EOTHER

record rip_env =
  rip_port :: u16
  kernel_version :: int
  install :: bool
  ioctl_errno :: "kreq list \<Rightarrow> kreq \<Rightarrow> errno option"
  malloc_ok :: "nat \<Rightarrow> bool"

record timeval =
  tv_sec :: int
  tv_usec :: int

text \<open>A datagram handed to \<open>sendto\<close>: destination, flags and the \<open>struct rip\<close> it carries.\<close>

record netinfo =
  rip_dst :: sockaddr
  rip_metric :: u32

record rip =
  rip_cmd :: u8
  rip_vers :: u8
  rip_nets :: "netinfo list"
  rip_tail :: nat

record datagram =
  dg_dst :: sockaddr
  dg_dontroute :: bool
  dg_rip :: rip

text \<open>
  The globals of the daemon. \<open>ifnext\<close> points at the last \<open>int_next\<close> link or, as long as the scan
  has found no interface, at \<open>ifnet\<close> itself: \<open>ifnext_head\<close> says which.
\<close>

record routed =
  ifnet :: "interface list"
  ifnext_head :: bool
  hosthash :: "nat \<Rightarrow> rt_entry list"
  nethash :: "nat \<Rightarrow> rt_entry list"
  next_ptr :: nat
  kreqs :: "kreq list"
  sent :: "datagram list"
  supplier :: int
  foundloopback :: bool
  loopaddr :: sockaddr
  now :: timeval
  lastbcast :: timeval
  lastfullupdate :: timeval
  nextbcast :: timeval
  needupdate :: int
  faketime :: int
  lookforinterfaces :: bool
  externalinterfaces :: int
  tracing :: "bool list"

definition ROUTEHASHSIZ :: nat where "ROUTEHASHSIZ = 32"
definition ROUTEHASHMASK :: u32 where "ROUTEHASHMASK = 31"
definition HOPCNT_INFINITY :: int where "HOPCNT_INFINITY = 16"

definition bucket :: "u32 \<Rightarrow> nat" where
  "bucket hash = unat (hash AND ROUTEHASHMASK)"

text \<open>Every entry, in the order the loops over both tables visit them.\<close>

definition host_rts :: "routed \<Rightarrow> rt_entry list" where
  "host_rts s = concat (map (hosthash s) [0..<ROUTEHASHSIZ])"

definition net_rts :: "routed \<Rightarrow> rt_entry list" where
  "net_rts s = concat (map (nethash s) [0..<ROUTEHASHSIZ])"

definition all_rts :: "routed \<Rightarrow> rt_entry list" where
  "all_rts s = host_rts s @ net_rts s"

section \<open>Pointers and chains\<close>

definition rt_get :: "routed \<Rightarrow> nat \<Rightarrow> rt_entry option" where
  "rt_get s p = find (\<lambda>e. rt_ptr e = p) (all_rts s)"

definition at_ptr :: "nat \<Rightarrow> (rt_entry \<Rightarrow> rt_entry) \<Rightarrow> rt_entry \<Rightarrow> rt_entry" where
  "at_ptr p f e = (if rt_ptr e = p then f e else e)"

definition rt_update :: "nat \<Rightarrow> (rt_entry \<Rightarrow> rt_entry) \<Rightarrow> routed \<Rightarrow> routed" where
  "rt_update p f s = s\<lparr>hosthash := (\<lambda>b. map (at_ptr p f) (hosthash s b)),
                       nethash := (\<lambda>b. map (at_ptr p f) (nethash s b))\<rparr>"

definition insque :: "bool \<Rightarrow> nat \<Rightarrow> rt_entry \<Rightarrow> routed \<Rightarrow> routed" where
  "insque host b rt s =
     (if host then s\<lparr>hosthash := (hosthash s)(b := rt # hosthash s b)\<rparr>
      else s\<lparr>nethash := (nethash s)(b := rt # nethash s b)\<rparr>)"

definition remque :: "nat \<Rightarrow> routed \<Rightarrow> routed" where
  "remque p s = s\<lparr>hosthash := (\<lambda>b. filter (\<lambda>e. rt_ptr e \<noteq> p) (hosthash s b)),
                  nethash := (\<lambda>b. filter (\<lambda>e. rt_ptr e \<noteq> p) (nethash s b))\<rparr>"

section \<open>Lookup\<close>

definition host_match :: "u32 \<Rightarrow> sockaddr \<Rightarrow> rt_entry \<Rightarrow> bool" where
  "host_match hash dst rt \<longleftrightarrow> rt_hash rt = hash \<and> rt_dst rt = dst"

definition rtlookup :: "routed \<Rightarrow> sockaddr \<Rightarrow> rt_entry option" where
  "rtlookup s dst =
     (if \<not> af_known (sa_family dst) then None
      else let h = inet_hash (ifnet s) dst in
        case find (host_match (afh_hosthash h) dst) (hosthash s (bucket (afh_hosthash h))) of
          Some rt \<Rightarrow> Some rt
        | None \<Rightarrow> find (host_match (afh_nethash h) dst) (nethash s (bucket (afh_nethash h))))"

definition rtfind :: "routed \<Rightarrow> sockaddr \<Rightarrow> rt_entry option" where
  "rtfind s dst =
     (if \<not> af_known (sa_family dst) then None
      else let h = inet_hash (ifnet s) dst in
        case find (host_match (afh_hosthash h) dst) (hosthash s (bucket (afh_hosthash h))) of
          Some rt \<Rightarrow> Some rt
        | None \<Rightarrow>
            find (\<lambda>rt. rt_hash rt = afh_nethash h \<and> sa_family (rt_dst rt) = sa_family dst
                     \<and> inet_netmatch (ifnet s) (rt_dst rt) dst)
              (nethash s (bucket (afh_nethash h))))"

section \<open>The kernel\<close>

definition rtioctl :: "rip_env \<Rightarrow> kaction \<Rightarrow> rt_entry \<Rightarrow> routed \<Rightarrow> errno option \<times> routed" where
  "rtioctl E action ort s =
     (if \<not> install E then (None, s)
      else let flags = rt_flags ort AND (RTF_UP OR RTF_GATEWAY OR RTF_HOST);
               rq = \<lparr>k_action = action, k_flags = flags, k_metric = to_short (rt_metric ort),
                     k_dst = rt_dst ort, k_gateway = rt_router ort,
                     k_genmask = (if has flags RTF_HOST then 0xffffffff
                                  else inet_maskof (ifnet s) (sin_addr (rt_dst ort)))\<rparr>
           in (ioctl_errno E (kreqs s) rq, s\<lparr>kreqs := kreqs s @ [rq]\<rparr>))"

section \<open>Insertion, change and deletion\<close>

text \<open>\<open>rt_ifp\<close>: the point-to-point interface to an address, else the one on another's network.\<close>

definition route_ifp :: "interface list \<Rightarrow> sockaddr \<Rightarrow> sockaddr \<Rightarrow> nat option" where
  "route_ifp ifs p2p gate =
     (case if_ifwithdstaddr ifs p2p of
        Some ifp \<Rightarrow> Some (int_id ifp)
      | None \<Rightarrow> map_option int_id (if_ifwithnet ifs gate))"

text \<open>The entry \<open>rtadd\<close> fills in at pointer \<open>p\<close>, and whether it goes to the host table.\<close>

definition rtadd_entry ::
  "interface list \<Rightarrow> nat \<Rightarrow> sockaddr \<Rightarrow> sockaddr \<Rightarrow> int \<Rightarrow> u32 \<Rightarrow> bool \<times> rt_entry" where
  "rtadd_entry ifs p dst gate metric state =
     (let h = inet_hash ifs dst;
          flags0 = inet_rtflags ifs dst;
          subnet = has flags0 RTF_SUBNET;
          state1 = (if subnet then state OR RTS_SUBNET else state);
          flags = (if subnet then flags0 AND NOT RTF_SUBNET else flags0);
          host = has flags RTF_HOST;
          hash = (if host then afh_hosthash h else afh_nethash h);
          flags1 = RTF_UP OR flags
      in (host,
          \<lparr>rt_ptr = p, rt_hash = hash, rt_dst = dst, rt_router = gate,
           rt_flags = (if \<not> has state1 RTS_INTERFACE then flags1 OR RTF_GATEWAY else flags1),
           rt_state = state1 OR RTS_CHANGED, rt_timer = 0, rt_metric = metric,
           rt_ifp = route_ifp ifs dst gate\<rparr>))"

definition rtadd :: "rip_env \<Rightarrow> sockaddr \<Rightarrow> sockaddr \<Rightarrow> int \<Rightarrow> u32 \<Rightarrow> routed \<Rightarrow> routed" where
  "rtadd E dst gate metric state s =
     (if \<not> af_known (sa_family dst) then s
      else let p = next_ptr s;
               (host, rt) = rtadd_entry (ifnet s) p dst gate metric state
           in if \<not> malloc_ok E p then s
              else let s1 = insque host (bucket (rt_hash rt)) rt (s\<lparr>next_ptr := Suc p\<rparr>) in
                if has (rt_state rt) (RTS_INTERNAL OR RTS_EXTERNAL) then s1
                else case rtioctl E KADD rt s1 of
                       (None, s2) \<Rightarrow> s2
                     | (Some e, s2) \<Rightarrow> if e = ENETUNREACH then remque p s2 else s2)"

text \<open>What \<open>rtchange\<close> decides to ask of the kernel: \<open>(add, delete)\<close>.\<close>

definition rtchange_plan :: "rip_env \<Rightarrow> rt_entry \<Rightarrow> sockaddr \<Rightarrow> int \<Rightarrow> bool \<times> bool" where
  "rtchange_plan E rt gate metric =
     (let newgateway = (rt_router rt \<noteq> gate);
          internal = has (rt_state rt) RTS_INTERNAL;
          add = (\<not> internal \<and>
                 (if newgateway then True
                  else metric \<noteq> HOPCNT_INFINITY \<and> rt_metric rt = HOPCNT_INFINITY));
          delete = (\<not> internal \<and>
                    (if newgateway then rt_metric rt \<noteq> HOPCNT_INFINITY
                     else metric = HOPCNT_INFINITY));
          delete' = (if kernel_version E \<ge> 0x01030b
                     then (if add \<and> delete \<and> rt_metric rt = metric then False else delete)
                     else (if add \<and> delete then False else delete))
      in (add, delete'))"

definition rtchange_entry ::
  "interface list \<Rightarrow> bool \<Rightarrow> bool \<Rightarrow> sockaddr \<Rightarrow> int \<Rightarrow> rt_entry \<Rightarrow> rt_entry" where
  "rtchange_entry ifs add delete gate metric rt =
     (let rt1 = (if has (rt_state rt) RTS_INTERFACE \<and> delete
                 then rt\<lparr>rt_state := rt_state rt AND NOT RTS_INTERFACE,
                         rt_flags := rt_flags rt OR RTF_GATEWAY\<rparr>
                 else rt);
          rt2 = (if add
                 then rt1\<lparr>rt_router := gate, rt_ifp := route_ifp ifs gate gate\<rparr>
                 else rt1)
      in rt2\<lparr>rt_metric := metric, rt_state := rt_state rt2 OR RTS_CHANGED\<rparr>)"

definition rtchange :: "rip_env \<Rightarrow> nat \<Rightarrow> sockaddr \<Rightarrow> int \<Rightarrow> routed \<Rightarrow> routed" where
  "rtchange E p gate metric0 s =
     (case rt_get s p of
        None \<Rightarrow> s
      | Some rt \<Rightarrow>
          let metric = to_short metric0;
              (add, delete) = rtchange_plan E rt gate metric;
              change = rtchange_entry (ifnet s) add delete gate metric;
              rt' = change rt;
              s1 = rt_update p change s;
              s2 = (if add then snd (rtioctl E KADD rt' s1) else s1)
          in if delete then snd (rtioctl E KDELETE rt s2) else s2)"

definition rtdelete :: "rip_env \<Rightarrow> nat \<Rightarrow> routed \<Rightarrow> routed" where
  "rtdelete E p s =
     (case rt_get s p of
        None \<Rightarrow> s
      | Some rt \<Rightarrow>
          let s1 = (if rt_metric rt < HOPCNT_INFINITY
                       \<and> \<not> has (rt_state rt) (RTS_INTERNAL OR RTS_EXTERNAL)
                    then snd (rtioctl E KDELETE rt s) else s)
          in remque p s1)"

text \<open>\<open>rtdeleteall\<close> asks the kernel to forget every route that is no interface's, and exits.\<close>

definition rtdeleteall :: "rip_env \<Rightarrow> routed \<Rightarrow> routed" where
  "rtdeleteall E s =
     fold (\<lambda>rt s. if has (rt_state rt) RTS_INTERFACE \<or> rt_metric rt \<ge> HOPCNT_INFINITY then s
                  else if has (rt_state rt) (RTS_INTERNAL OR RTS_EXTERNAL) then s
                  else snd (rtioctl E KDELETE rt s))
       (all_rts s) s"

definition rtdefault :: "rip_env \<Rightarrow> routed \<Rightarrow> routed" where
  "rtdefault E s =
     rtadd E inet_default inet_default 1 (RTS_CHANGED OR RTS_PASSIVE OR RTS_INTERNAL) s"

definition rtinit :: "routed \<Rightarrow> routed" where
  "rtinit s = s\<lparr>nethash := (\<lambda>_. []), hosthash := (\<lambda>_. [])\<rparr>"

section \<open>The three changes of the chains, as list equations\<close>

lemma bucket_less: "bucket h < ROUTEHASHSIZ"
proof -
  have "unat (h AND 31) \<le> unat (31 :: u32)"
    by (rule word_and_le1 [THEN word_le_nat_alt [THEN iffD1]])
  then show ?thesis by (simp add: bucket_def ROUTEHASHMASK_def ROUTEHASHSIZ_def)
qed

lemma concat_map_push:
  "b < n \<Longrightarrow> concat (map (f(b := x # f b)) [0..<n])
     = concat (map f [0..<b]) @ x # concat (map f [b..<n])"
proof (induction n)
  case (Suc n)
  show ?case
  proof (cases "b = n")
    case True
    then have "concat (map (f(b := x # f b)) [0..<n]) = concat (map f [0..<n])"
      by (intro arg_cong [where f = concat] map_cong) auto
    with True show ?thesis by (simp del: fun_upd_apply add: fun_upd_same)
  next
    case False
    with Suc show ?thesis by (simp add: less_Suc_eq)
  qed
qed simp

lemma concat_map_split: "b \<le> n \<Longrightarrow> concat (map f [0..<n]) = concat (map f [0..<b]) @ concat (map f [b..<n])"
  by (metis concat_append le_add_diff_inverse map_append upt_add_eq_append zero_le)

lemma all_rts_insque:
  "b < ROUTEHASHSIZ \<Longrightarrow>
   \<exists>xs ys. all_rts s = xs @ ys \<and> all_rts (insque host b rt s) = xs @ rt # ys"
proof -
  assume b: "b < ROUTEHASHSIZ"
  show ?thesis
  proof (cases host)
    case True
    let ?xs = "concat (map (hosthash s) [0..<b])"
    let ?ys = "concat (map (hosthash s) [b..<ROUTEHASHSIZ]) @ net_rts s"
    have "all_rts s = ?xs @ ?ys"
      using b concat_map_split [of b ROUTEHASHSIZ "hosthash s"] by (simp add: all_rts_def host_rts_def)
    moreover have "all_rts (insque host b rt s) = ?xs @ rt # ?ys"
      using b True by (simp add: all_rts_def host_rts_def net_rts_def insque_def concat_map_push)
    ultimately show ?thesis by blast
  next
    case False
    let ?xs = "host_rts s @ concat (map (nethash s) [0..<b])"
    let ?ys = "concat (map (nethash s) [b..<ROUTEHASHSIZ])"
    have "all_rts s = ?xs @ ?ys"
      using b concat_map_split [of b ROUTEHASHSIZ "nethash s"] by (simp add: all_rts_def net_rts_def)
    moreover have "all_rts (insque host b rt s) = ?xs @ rt # ?ys"
      using b False by (simp add: all_rts_def host_rts_def net_rts_def insque_def concat_map_push)
    ultimately show ?thesis by blast
  qed
qed

lemma set_all_rts_insque:
  "b < ROUTEHASHSIZ \<Longrightarrow> set (all_rts (insque host b rt s)) = insert rt (set (all_rts s))"
  using all_rts_insque [of b s host rt] by auto

lemma all_rts_remque: "all_rts (remque p s) = filter (\<lambda>e. rt_ptr e \<noteq> p) (all_rts s)"
  by (simp add: all_rts_def host_rts_def net_rts_def remque_def filter_concat comp_def)

lemma all_rts_update: "all_rts (rt_update p f s) = map (at_ptr p f) (all_rts s)"
  by (simp add: all_rts_def host_rts_def net_rts_def rt_update_def map_concat comp_def)

section \<open>What the operations leave alone\<close>

lemma rtioctl_frame [frame_simps]:
  "ifnet (snd (rtioctl E a r s)) = ifnet s"
  "hosthash (snd (rtioctl E a r s)) = hosthash s"
  "nethash (snd (rtioctl E a r s)) = nethash s"
  "next_ptr (snd (rtioctl E a r s)) = next_ptr s"
  "sent (snd (rtioctl E a r s)) = sent s"
  "supplier (snd (rtioctl E a r s)) = supplier s"
  by (simp_all add: rtioctl_def Let_def)

lemma chain_ops_frame [frame_simps]:
  "ifnet (rt_update p f s) = ifnet s" "next_ptr (rt_update p f s) = next_ptr s"
  "supplier (rt_update p f s) = supplier s" "sent (rt_update p f s) = sent s"
  "ifnet (remque p s) = ifnet s" "next_ptr (remque p s) = next_ptr s"
  "supplier (remque p s) = supplier s" "sent (remque p s) = sent s"
  "ifnet (insque host b rt s) = ifnet s" "next_ptr (insque host b rt s) = next_ptr s"
  "supplier (insque host b rt s) = supplier s" "sent (insque host b rt s) = sent s"
  by (simp_all add: rt_update_def remque_def insque_def)

lemma rtioctl_rts [frame_simps]: "all_rts (snd (rtioctl E a r s)) = all_rts s"
  by (simp add: all_rts_def host_rts_def net_rts_def frame_simps)

lemma rtioctl_lookup [frame_simps]:
  "rtlookup (snd (rtioctl E a r s)) d = rtlookup s d"
  "rtfind (snd (rtioctl E a r s)) d = rtfind s d"
  "rt_get (snd (rtioctl E a r s)) p = rt_get s p"
  by (simp_all add: rtlookup_def rtfind_def rt_get_def frame_simps Let_def cong: option.case_cong)

lemma at_ptr_simps [simp]:
  "(\<And>e. rt_ptr (f e) = rt_ptr e) \<Longrightarrow> rt_ptr (at_ptr p f e) = rt_ptr e"
  "(\<And>e. rt_dst (f e) = rt_dst e) \<Longrightarrow> rt_dst (at_ptr p f e) = rt_dst e"
  "(\<And>e. rt_hash (f e) = rt_hash e) \<Longrightarrow> rt_hash (at_ptr p f e) = rt_hash e"
  by (simp_all add: at_ptr_def)

lemma rtchange_entry_frame [simp]:
  "rt_ptr (rtchange_entry ifs a d g m e) = rt_ptr e"
  "rt_hash (rtchange_entry ifs a d g m e) = rt_hash e"
  "rt_dst (rtchange_entry ifs a d g m e) = rt_dst e"
  "rt_timer (rtchange_entry ifs a d g m e) = rt_timer e"
  "rt_metric (rtchange_entry ifs a d g m e) = m"
  "rt_router (rtchange_entry ifs a d g m e) = (if a then g else rt_router e)"
  by (simp_all add: rtchange_entry_def Let_def)

lemma rtchange_entry_host [simp]:
  "has (rt_flags (rtchange_entry ifs a d g m e)) RTF_HOST = has (rt_flags e) RTF_HOST"
  by (simp add: rtchange_entry_def Let_def has_or) (simp add: flag_bits RTF_GATEWAY_def)

end
