(* ===== verification/Rip_Output.thy ===== *)
theory Rip_Output
  imports Rip_Table
begin

text \<open>
  What \<^verbatim>\<open>routed\<close> sends (\<^verbatim>\<open>output.c\<close>, \<open>inet_output\<close> of \<^verbatim>\<open>af.c\<close>): the routing table cut into
  packets for one destination, and the same for every interface that is not passive. The sizes
  are those of \<^verbatim>\<open>protocols/routed.h\<close>: a header of 4 bytes, entries of 20, packets of 512.
\<close>

definition RIPCMD_REQUEST :: u8 where "RIPCMD_REQUEST = 1"
definition RIPCMD_RESPONSE :: u8 where "RIPCMD_RESPONSE = 2"
definition RIPCMD_TRACEON :: u8 where "RIPCMD_TRACEON = 3"
definition RIPCMD_TRACEOFF :: u8 where "RIPCMD_TRACEOFF = 4"
definition RIPVERSION :: u8 where "RIPVERSION = 1"
definition MAXPACKETSIZE :: nat where "MAXPACKETSIZE = 512"
definition RIP_HEADER :: nat where "RIP_HEADER = 4"
definition NETINFO_SIZE :: nat where "NETINFO_SIZE = 20"

text \<open>The size in bytes of a packet.\<close>

definition rip_size :: "rip \<Rightarrow> nat" where
  "rip_size r = RIP_HEADER + NETINFO_SIZE * length (rip_nets r) + rip_tail r"

definition response_packet :: "netinfo list \<Rightarrow> rip" where
  "response_packet ns = \<lparr>rip_cmd = RIPCMD_RESPONSE, rip_vers = RIPVERSION, rip_nets = ns, rip_tail = 0\<rparr>"

text \<open>A failing \<open>sendto\<close> is reported and otherwise ignored.\<close>

definition inet_output :: "rip_env \<Rightarrow> bool \<Rightarrow> sockaddr \<Rightarrow> rip \<Rightarrow> routed \<Rightarrow> routed" where
  "inet_output E dontroute sa r s =
     (let dst = (if sin_port sa = 0 then sa\<lparr>sin_port := rip_port E\<rparr> else sa)
      in s\<lparr>sent := sent s @ [\<lparr>dg_dst = dst, dg_dontroute = dontroute, dg_rip = r\<rparr>]\<rparr>)"

definition toall ::
  "(sockaddr \<Rightarrow> bool \<Rightarrow> interface option \<Rightarrow> u32 \<Rightarrow> routed \<Rightarrow> routed) \<Rightarrow> u32 \<Rightarrow> nat option \<Rightarrow> routed \<Rightarrow> routed"
where
  "toall f rtstate skipif s =
     fold (\<lambda>ifp s.
         if has (int_flags ifp) IFF_PASSIVE \<or> skipif = Some (int_id ifp) then s
         else let dst = (if has (int_flags ifp) IFF_BROADCAST then int_broadaddr ifp
                         else if has (int_flags ifp) IFF_POINTOPOINT then int_dstaddr ifp
                         else int_addr ifp)
              in f dst (has (int_flags ifp) IFF_INTERFACE) (Some ifp) rtstate s)
       (ifnet s) s"

text \<open>A preformed packet; its length on the wire is the size of a \<open>struct rip\<close> with one entry.\<close>

definition sndmsg ::
  "rip_env \<Rightarrow> rip \<Rightarrow> sockaddr \<Rightarrow> bool \<Rightarrow> interface option \<Rightarrow> u32 \<Rightarrow> routed \<Rightarrow> routed" where
  "sndmsg E msg dst dontroute ifp rtstate s = inet_output E dontroute dst msg s"

text \<open>The \<open>continue\<close>s of the loop of \<open>supply\<close>.\<close>

definition supply_skip ::
  "sockaddr \<Rightarrow> interface option \<Rightarrow> u32 \<Rightarrow> bool \<Rightarrow> rt_entry \<Rightarrow> bool" where
  "supply_skip dst ifp rtstate doinghost rt =
     (if (case ifp of None \<Rightarrow> False | Some i \<Rightarrow> rt_ifp rt = Some (int_id i))
         \<and> \<not> has (rt_state rt) RTS_INTERFACE then True
      else if has (rt_state rt) RTS_EXTERNAL then True
      else if rtstate \<noteq> 0 \<and> \<not> has (rt_state rt) rtstate then True
      else if \<not> doinghost \<and> has (rt_state rt) RTS_SUBNET
              \<and> (sa_family (rt_dst rt) \<noteq> sa_family dst
                 \<or> \<not> inet_sendroute (rt_state rt) (sin_addr (rt_dst rt)) dst) then True
      else False)"

definition supply_entry :: "rt_entry \<Rightarrow> netinfo" where
  "supply_entry rt = \<lparr>rip_dst = rt_dst rt, rip_metric = word_of_int (rt_metric rt)\<rparr>"

text \<open>
  The loop over one table: entries gathered for the next packet, packets already sent, and the
  state; the first component says whether the loop left the function.
\<close>

fun supply_loop ::
  "rip_env \<Rightarrow> sockaddr \<Rightarrow> bool \<Rightarrow> interface option \<Rightarrow> u32 \<Rightarrow> bool \<Rightarrow> rt_entry list
    \<Rightarrow> netinfo list \<Rightarrow> nat \<Rightarrow> routed \<Rightarrow> bool \<times> netinfo list \<times> nat \<times> routed" where
  "supply_loop E dst dr ifp rtstate host [] n npackets s = (False, n, npackets, s)"
| "supply_loop E dst dr ifp rtstate host (rt # rts) n npackets s =
     (if supply_skip dst ifp rtstate host rt
      then supply_loop E dst dr ifp rtstate host rts n npackets s
      else if RIP_HEADER + NETINFO_SIZE * length n > MAXPACKETSIZE - NETINFO_SIZE
      then let s' = inet_output E dr dst (response_packet n) s in
           if (case ifp of None \<Rightarrow> False
               | Some i \<Rightarrow> \<not> has (int_flags i) (IFF_BROADCAST OR IFF_POINTOPOINT OR IFF_REMOTE))
           then (True, n, npackets, s')
           else supply_loop E dst dr ifp rtstate host rts [supply_entry rt] (Suc npackets) s'
      else supply_loop E dst dr ifp rtstate host rts (n @ [supply_entry rt]) npackets s)"

definition supply_routes ::
  "rip_env \<Rightarrow> sockaddr \<Rightarrow> bool \<Rightarrow> interface option \<Rightarrow> u32 \<Rightarrow> routed \<Rightarrow> routed" where
  "supply_routes E dst dr ifp rtstate s =
     (case supply_loop E dst dr ifp rtstate True (host_rts s) [] 0 s of
        (True, _, _, s1) \<Rightarrow> s1
      | (False, n1, np1, s1) \<Rightarrow>
          (case supply_loop E dst dr ifp rtstate False (net_rts s) n1 np1 s1 of
             (True, _, _, s2) \<Rightarrow> s2
           | (False, n2, np2, s2) \<Rightarrow>
               if n2 \<noteq> [] \<or> np2 = 0 \<and> rtstate = 0
               then inet_output E dr dst (response_packet n2) s2
               else s2))"

end
