(* ===== verification/Rip_Startup.thy ===== *)
theory Rip_Startup
  imports Rip_Table
begin

text \<open>
  Interfaces and their routes (\<^verbatim>\<open>startup.c\<close>): the scan of the kernel's interface list, the
  route each interface gets, the local end of a point-to-point link and the entries of
  \<^verbatim>\<open>/etc/gateways\<close> once a line of it is read and its names are resolved.
\<close>

section \<open>Routes for interfaces\<close>

definition net_sockaddr :: "u32 \<Rightarrow> sockaddr" where
  "net_sockaddr a = \<lparr>sa_family = AF_INET, sin_port = 0, sin_addr = a, sin_zero = 0\<rparr>"

definition add_ptopt_localrt :: "rip_env \<Rightarrow> interface \<Rightarrow> routed \<Rightarrow> routed" where
  "add_ptopt_localrt E ifp s =
     (let state0 = RTS_INTERFACE OR RTS_PASSIVE;
          net = net_sockaddr (inet_makeaddr (ifnet s) (int_net ifp) 0);
          state = (case rtfind s net of
                     Some rt \<Rightarrow> if has (rt_state rt) RTS_INTERNAL then state0 OR RTS_SUBNET else state0
                   | None \<Rightarrow> state0);
          dst = int_addr ifp
      in case rtfind s dst of
           Some rt \<Rightarrow>
             (if has (rt_state rt) RTS_INTERFACE then s
              else rtadd E dst (loopaddr s) 1 state (rtdelete E (rt_ptr rt) s))
         | None \<Rightarrow> rtadd E dst (loopaddr s) 1 state s)"

definition bump_transitions :: "nat \<Rightarrow> routed \<Rightarrow> routed" where
  "bump_transitions i s =
     s\<lparr>ifnet := map (\<lambda>ifp. if int_id ifp = i then ifp\<lparr>int_transitions := int_transitions ifp + 1\<rparr>
                           else ifp) (ifnet s)\<rparr>"

text \<open>The route to the whole network, for an interface on a subnet of it.\<close>

definition add_network_route :: "rip_env \<Rightarrow> interface \<Rightarrow> routed \<Rightarrow> routed" where
  "add_network_route E ifp s =
     (if (int_flags ifp AND (IFF_SUBNET OR IFF_POINTOPOINT)) = IFF_SUBNET
      then let dst = net_sockaddr (inet_makeaddr (ifnet s) (int_net ifp) 0) in
        case rtfind s dst of
          None \<Rightarrow> rtadd E dst (int_addr ifp) (int_metric ifp)
                    ((int_flags ifp AND (IFF_INTERFACE OR IFF_REMOTE))
                     OR RTS_PASSIVE OR RTS_INTERNAL OR RTS_SUBNET) s
        | Some rt \<Rightarrow>
            if (rt_state rt AND (RTS_INTERNAL OR RTS_SUBNET)) = (RTS_INTERNAL OR RTS_SUBNET)
               \<and> int_metric ifp < rt_metric rt
            then rtchange E (rt_ptr rt) (rt_router rt) (int_metric ifp) s
            else s
      else s)"

definition addrouteforif :: "rip_env \<Rightarrow> interface \<Rightarrow> routed \<Rightarrow> routed" where
  "addrouteforif E ifp s =
     (let p2p = has (int_flags ifp) IFF_POINTOPOINT;
          dst = (if p2p then int_dstaddr ifp
                 else net_sockaddr (inet_makeaddr (ifnet s) (int_subnet ifp) 0));
          found = rtfind s dst
      in if (case found of None \<Rightarrow> False
             | Some rt \<Rightarrow> (rt_state rt AND (RTS_INTERFACE OR RTS_INTERNAL)) = RTS_INTERFACE)
         then s
         else let s1 = (case found of None \<Rightarrow> s | Some rt \<Rightarrow> rtdelete E (rt_ptr rt) s);
                  s2 = add_network_route E ifp s1;
                  s3 = bump_transitions (int_id ifp) s2;
                  state0 = int_flags ifp AND
                             (IFF_INTERFACE OR IFF_PASSIVE OR IFF_REMOTE OR IFF_SUBNET);
                  state1 = (if p2p \<and> sin_addr (int_dstaddr ifp) AND int_netmask ifp \<noteq> int_net ifp
                            then state0 AND NOT RTS_SUBNET else state0);
                  state2 = (if has (int_flags ifp) IFF_LOOPBACK then state1 OR RTS_EXTERNAL
                            else state1);
                  s4 = rtadd E dst (int_addr ifp) (int_metric ifp) state2 s3
              in if p2p \<and> foundloopback s4 then add_ptopt_localrt E ifp s4 else s4)"

section \<open>The scan of the kernel's interfaces\<close>

text \<open>
  One entry of \<open>SIOCGIFCONF\<close> with the answers to the further \<open>ioctl\<close>s about it; \<open>None\<close> is an
  \<open>ioctl\<close> that failed.
\<close>

record ifreq =
  ifr_addr :: sockaddr
  ifr_flags :: "u32 option"
  ifr_dstaddr :: "sockaddr option"
  ifr_broadaddr :: "sockaddr option"
  ifr_metric :: "int option"
  ifr_netmask :: "u32 option"

definition classful_mask :: "u32 \<Rightarrow> u32" where
  "classful_mask i = (if IN_CLASSA i then IN_CLASSA_NET
                      else if IN_CLASSB i then IN_CLASSB_NET else IN_CLASSC_NET)"

text \<open>The end of the loop body: the interface is new and all its data is known.\<close>

definition ifinit_install ::
  "rip_env \<Rightarrow> nat \<Rightarrow> ifreq \<Rightarrow> u32 \<Rightarrow> sockaddr \<Rightarrow> u32 \<Rightarrow> routed \<Rightarrow> routed" where
  "ifinit_install E new_id r flags intu subnetmask s =
     (let i = sin_addr (ifr_addr r);
          netmask = classful_mask i;
          flags' = (if subnetmask \<noteq> netmask then flags OR IFF_SUBNET else flags);
          ifp = \<lparr>int_id = new_id, int_addr = ifr_addr r, int_intu = intu,
                 int_metric = (case ifr_metric r of None \<Rightarrow> 0 | Some m \<Rightarrow> m) + 1,
                 int_flags = flags', int_net = i AND netmask, int_netmask = netmask,
                 int_subnet = i AND subnetmask, int_subnetmask = subnetmask,
                 int_transitions = 0\<rparr>;
          s1 = (if \<not> has flags' IFF_LOOPBACK
                   \<and> (\<not> has flags' IFF_POINTOPOINT \<or> if_ifwithaddr (ifnet s) intu = None)
                then s\<lparr>externalinterfaces := externalinterfaces s + 1\<rparr> else s);
          s2 = (if has flags' IFF_POINTOPOINT \<and> supplier s1 < 0
                then s1\<lparr>supplier := 1\<rparr> else s1)
      in addrouteforif E ifp
           (s2\<lparr>ifnet := (if ifnext_head s2 then [ifp] else ifnet s2 @ [ifp]), ifnext_head := False\<rparr>))"

definition ifinit_one :: "rip_env \<Rightarrow> nat \<Rightarrow> ifreq \<Rightarrow> routed \<Rightarrow> routed" where
  "ifinit_one E new_id r s =
     (case ifr_flags r of None \<Rightarrow> s
      | Some f \<Rightarrow>
        let flags = f OR IFF_INTERFACE in
        if \<not> has flags IFF_UP \<or> sa_family (ifr_addr r) = AF_UNSPEC
        then s\<lparr>lookforinterfaces := True\<rparr>
        else if sa_family (ifr_addr r) \<noteq> AF_INET then s
        else if has flags IFF_POINTOPOINT \<and> ifr_dstaddr r = None then s
        else let intu = (if has flags IFF_POINTOPOINT then the (ifr_dstaddr r)
                         else \<lparr>sa_family = 0, sin_port = 0, sin_addr = 0, sin_zero = 0\<rparr>) in
        if (if has flags IFF_POINTOPOINT then if_ifwithdstaddr (ifnet s) intu \<noteq> None
            else if_ifwithaddr (ifnet s) (ifr_addr r) \<noteq> None) then s
        else let flags1 = (if has flags IFF_LOOPBACK then flags OR IFF_PASSIVE else flags);
                 s1 = (if has flags IFF_LOOPBACK
                       then fold (\<lambda>ifp s. if has (int_flags ifp) IFF_POINTOPOINT
                                          then add_ptopt_localrt E ifp s else s)
                              (ifnet s) (s\<lparr>foundloopback := True, loopaddr := ifr_addr r\<rparr>)
                       else s)
             in if has flags1 IFF_BROADCAST \<and> ifr_broadaddr r = None then s1
                else let intu1 = (if has flags1 IFF_BROADCAST then the (ifr_broadaddr r) else intu)
                     in case ifr_netmask r of None \<Rightarrow> s1
                        | Some m \<Rightarrow> ifinit_install E new_id r flags1 intu1 m s1)"

text \<open>New interfaces are numbered past all known ones.\<close>

definition fresh_if_id :: "interface list \<Rightarrow> nat" where
  "fresh_if_id ifs = Suc (fold max (map int_id ifs) 0)"

definition ifinit :: "rip_env \<Rightarrow> ifreq list \<Rightarrow> routed \<Rightarrow> routed" where
  "ifinit E ifc s =
     (let s1 = fold (\<lambda>r s. ifinit_one E (fresh_if_id (ifnet s)) r s) ifc
                 (s\<lparr>lookforinterfaces := False\<rparr>)
      in if externalinterfaces s1 > 1 \<and> supplier s1 < 0 then s1\<lparr>supplier := 1\<rparr> else s1)"

section \<open>Distant gateways\<close>

datatype gw_qualifier = Passive | External | Active

record gw_line =
  gw_host :: bool
  gw_dst :: sockaddr
  gw_gate :: sockaddr
  gw_metric :: int
  gw_qual :: gw_qualifier

definition gwkludge_line :: "rip_env \<Rightarrow> gw_line \<Rightarrow> routed \<Rightarrow> routed" where
  "gwkludge_line E g s =
     (let metric = (if gw_metric g = 0 then 1 else gw_metric g) in
      case gw_qual g of
        Passive \<Rightarrow>
          let flags = (if gw_host g then RTF_UP OR RTF_HOST else RTF_UP);
              route = \<lparr>rt_ptr = 0, rt_hash = 0, rt_dst = gw_dst g, rt_router = gw_gate g,
                       rt_flags = (if metric \<noteq> 0 then flags OR RTF_GATEWAY else flags),
                       rt_state = 0, rt_timer = 0, rt_metric = 0, rt_ifp = None\<rparr>
          in snd (rtioctl E KADD route s)
      | External \<Rightarrow> rtadd E (gw_dst g) (gw_gate g) metric (RTS_EXTERNAL OR RTS_PASSIVE) s
      | Active \<Rightarrow>
          let ifp = \<lparr>int_id = fresh_if_id (ifnet s), int_addr = gw_gate g,
                     int_intu = (if gw_host g then gw_dst g
                                 else \<lparr>sa_family = 0, sin_port = 0, sin_addr = 0, sin_zero = 0\<rparr>),
                     int_metric = metric,
                     int_flags = (if gw_host g then IFF_REMOTE OR IFF_POINTOPOINT else IFF_REMOTE),
                     int_net = inet_netof_subnet (ifnet s) (sin_addr (gw_dst g)),
                     int_netmask = 0, int_subnet = 0, int_subnetmask = 0, int_transitions = 0\<rparr>
          in addrouteforif E ifp
               (s\<lparr>externalinterfaces := externalinterfaces s + 1, ifnet := ifp # ifnet s\<rparr>))"

definition gwkludge :: "rip_env \<Rightarrow> gw_line list \<Rightarrow> routed \<Rightarrow> routed" where
  "gwkludge E gws s = fold (gwkludge_line E) gws s"

end
