(* ===== verification/Rip_Input.thy ===== *)
theory Rip_Input
  imports Rip_Output Rip_Startup
begin

text \<open>
  What \<^verbatim>\<open>routed\<close> does with a packet (\<^verbatim>\<open>input.c\<close>): answer a request, obey a trace command,
  or learn from a response, and then send or delay a dynamic update. A packet is given by its
  header, its complete entries and the number of bytes after the last complete entry. Log
  messages are left out, and so are the two addresses the code keeps to log less.
\<close>

section \<open>Requests\<close>

text \<open>
  The loop over the entries of a request. \<open>None\<close>: the entry that asks for all routes was met
  (\<open>count == 0\<close>: nothing follows it).
\<close>

fun request_loop :: "routed \<Rightarrow> nat \<Rightarrow> netinfo list \<Rightarrow> netinfo list \<Rightarrow> netinfo list option" where
  "request_loop s tail done [] = Some done"
| "request_loop s tail done (n # ns) =
     (if sa_family (rip_dst n) = AF_UNSPEC \<and> rip_metric n = word_of_int HOPCNT_INFINITY
         \<and> NETINFO_SIZE * length ns + tail = 0
      then None
      else let rt = (if af_known (sa_family (rip_dst n)) then rtlookup s (rip_dst n) else None);
               m = (case rt of None \<Rightarrow> HOPCNT_INFINITY
                    | Some rt \<Rightarrow> if rt_metric rt + 1 < HOPCNT_INFINITY then rt_metric rt + 1
                                 else HOPCNT_INFINITY)
           in request_loop s tail (done @ [n\<lparr>rip_metric := word_of_int m\<rparr>]) ns)"

definition rip_request :: "rip_env \<Rightarrow> sockaddr \<Rightarrow> rip \<Rightarrow> routed \<Rightarrow> routed" where
  "rip_request E from rip s =
     (if rip_nets rip = [] then s
      else case request_loop s (rip_tail rip) [] (rip_nets rip) of
             None \<Rightarrow>
               (if supplier s \<noteq> 0 \<or> \<not> inet_portmatch (rip_port E) from
                then supply_routes E from False None 0 s else s)
           | Some ns \<Rightarrow>
               inet_output E False from (rip\<lparr>rip_cmd := RIPCMD_RESPONSE, rip_nets := ns\<rparr>) s)"

section \<open>Trace commands\<close>

definition rip_trace :: "sockaddr \<Rightarrow> rip \<Rightarrow> routed \<Rightarrow> routed" where
  "rip_trace from rip s =
     (if \<not> inet_portcheck from then s
      else case if_iflookup (ifnet s) from of
             None \<Rightarrow> s
           | Some ifp \<Rightarrow>
               if \<not> has (int_flags ifp) (IFF_BROADCAST OR IFF_POINTOPOINT OR IFF_REMOTE) then s
               else if has (int_flags ifp) IFF_PASSIVE then s
               else s\<lparr>tracing := tracing s @ [rip_cmd rip = RIPCMD_TRACEON]\<rparr>)"

section \<open>Responses\<close>

definition EXPIRE_TIME :: int where "EXPIRE_TIME = 180"
definition GARBAGE_TIME :: int where "GARBAGE_TIME = 240"

definition set_timer :: "nat \<Rightarrow> int \<Rightarrow> routed \<Rightarrow> routed" where
  "set_timer p t s = rt_update p (\<lambda>e. e\<lparr>rt_timer := t\<rparr>) s"

text \<open>
  The metric of an entry after the incoming interface's is added, as the comparisons on
  \<open>(unsigned) n->rip_metric\<close> leave it.
\<close>

definition adjust_metric :: "int \<Rightarrow> u32 \<Rightarrow> int" where
  "adjust_metric cost m =
     (let m1 = (if uint m < HOPCNT_INFINITY then word_of_int (uint m + cost) else m)
      in if uint m1 > HOPCNT_INFINITY then HOPCNT_INFINITY else uint m1)"

text \<open>The guards of the loop: entries that are logged and skipped.\<close>

definition entry_acceptable :: "netinfo \<Rightarrow> bool" where
  "entry_acceptable n \<longleftrightarrow>
     af_known (sa_family (rip_dst n)) \<and> inet_checkhost (rip_dst n)
     \<and> \<not> (rip_metric n = 0 \<or> uint (rip_metric n) > HOPCNT_INFINITY)"

text \<open>The body of the loop for an acceptable entry whose adjusted metric is \<open>m\<close>.\<close>

definition learn_route ::
  "rip_env \<Rightarrow> sockaddr \<Rightarrow> sockaddr \<Rightarrow> int \<Rightarrow> routed \<Rightarrow> bool \<times> routed" where
  "learn_route E from dst m s =
     (let new = (case rtlookup s dst of
                   None \<Rightarrow> True
                 | Some rt \<Rightarrow> (rt_state rt AND (RTS_INTERNAL OR RTS_INTERFACE))
                               = (RTS_INTERNAL OR RTS_INTERFACE))
      in if new then
           (if (case rtlookup s dst of None \<Rightarrow> False
                | Some rt \<Rightarrow> has (rt_state rt) RTS_SUBNET
                    \<and> inet_sendroute (rt_state rt) (sin_addr (rt_dst rt)) from)
            then (False, s)
            else if m < HOPCNT_INFINITY then
              (if (case rtfind s dst of None \<Rightarrow> False | Some rt \<Rightarrow> from = rt_router rt)
               then (False, s)
               else (True, rtadd E dst from m 0 s))
            else (False, s))
         else case rtlookup s dst of
                None \<Rightarrow> (False, s)
              | Some rt \<Rightarrow>
                  if from = rt_router rt then
                    (if m \<noteq> rt_metric rt
                     then let s1 = set_timer (rt_ptr rt) 0 (rtchange E (rt_ptr rt) from m s)
                          in (True, if to_short m \<ge> HOPCNT_INFINITY
                                    then set_timer (rt_ptr rt) (GARBAGE_TIME - EXPIRE_TIME) s1
                                    else s1)
                     else if rt_metric rt < HOPCNT_INFINITY
                     then (False, set_timer (rt_ptr rt) 0 s)
                     else (False, s))
                  else if uint (word_of_int m :: u32) < uint (word_of_int (rt_metric rt) :: u32)
                          \<or> rt_metric rt = m \<and> rt_timer rt > EXPIRE_TIME div 2
                             \<and> uint (word_of_int m :: u32) < HOPCNT_INFINITY
                  then (True, set_timer (rt_ptr rt) 0 (rtchange E (rt_ptr rt) from m s))
                  else (False, s))"

definition response_entry ::
  "rip_env \<Rightarrow> sockaddr \<Rightarrow> int \<Rightarrow> netinfo \<Rightarrow> bool \<times> routed \<Rightarrow> bool \<times> routed" where
  "response_entry E from cost n = (\<lambda>(changes, s).
     if entry_acceptable n
     then (let (c, s') = learn_route E from (rip_dst n) (adjust_metric cost (rip_metric n)) s
           in (changes \<or> c, s'))
     else (changes, s))"

text \<open>A packet from one of this host's own interfaces.\<close>

definition own_response :: "rip_env \<Rightarrow> sockaddr \<Rightarrow> interface \<Rightarrow> routed \<Rightarrow> routed" where
  "own_response E from ifp s =
     (if has (int_flags ifp) IFF_PASSIVE then s
      else case rtfind s from of
             None \<Rightarrow> addrouteforif E ifp s
           | Some rt \<Rightarrow>
               if \<not> has (rt_state rt) RTS_INTERFACE \<and> rt_metric rt \<ge> int_metric ifp
               then addrouteforif E ifp s
               else set_timer (rt_ptr rt) 0 s)"

text \<open>The sender is alive: its interface's route is renewed, or added again.\<close>

definition refresh_sender :: "rip_env \<Rightarrow> sockaddr \<Rightarrow> routed \<Rightarrow> routed" where
  "refresh_sender E from s =
     (let rt = rtfind s from in
      case rt of
        Some r \<Rightarrow>
          if has (rt_state r) (RTS_INTERFACE OR RTS_REMOTE) then set_timer (rt_ptr r) 0 s
          else (case if_ifwithdstaddr (ifnet s) from of
                  Some ifp \<Rightarrow> if rt_metric r \<ge> int_metric ifp then addrouteforif E ifp s else s
                | None \<Rightarrow> s)
      | None \<Rightarrow>
          (case if_ifwithdstaddr (ifnet s) from of
             Some ifp \<Rightarrow> addrouteforif E ifp s
           | None \<Rightarrow> s))"

definition known_router :: "interface option \<Rightarrow> bool" where
  "known_router ifp =
     (case ifp of
        None \<Rightarrow> False
      | Some i \<Rightarrow> has (int_flags i) (IFF_BROADCAST OR IFF_POINTOPOINT OR IFF_REMOTE)
                  \<and> \<not> has (int_flags i) IFF_PASSIVE)"

text \<open>
  The result: whether routes changed, the interface the packet came in on, and the state;
  \<open>None\<close> in the place of the flag is a \<open>return\<close> before the common end of \<open>rip_input\<close>.
\<close>

definition rip_response ::
  "rip_env \<Rightarrow> sockaddr \<Rightarrow> rip \<Rightarrow> routed \<Rightarrow> (bool \<times> nat option) option \<times> routed" where
  "rip_response E from0 rip s =
     (if \<not> inet_portmatch (rip_port E) from0 then (None, s)
      else let from = inet_canon from0 in
        case if_ifwithaddr (ifnet s) from of
          Some ifp \<Rightarrow> (None, own_response E from ifp s)
        | None \<Rightarrow>
            let s1 = refresh_sender E from s;
                ifp = if_iflookup (ifnet s1) from
            in case ifp of
                 None \<Rightarrow> (None, s1)
               | Some i \<Rightarrow>
                   if \<not> known_router (Some i) then (None, s1)
                   else let (changes, s2) =
                              fold (response_entry E from (int_metric i)) (rip_nets rip) (False, s1)
                        in (Some (changes, Some (int_id i)), s2))"

section \<open>Dynamic updates\<close>

definition SUPPLY_INTERVAL :: int where "SUPPLY_INTERVAL = 30"
definition MIN_WAITTIME :: int where "MIN_WAITTIME = 2"
definition MAX_WAITTIME :: int where "MAX_WAITTIME = 5"

definition timercmp_less :: "timeval \<Rightarrow> timeval \<Rightarrow> bool" where
  "timercmp_less a b =
     (if tv_sec a = tv_sec b then tv_usec a < tv_usec b else tv_sec a < tv_sec b)"

definition timevaladd :: "timeval \<Rightarrow> timeval \<Rightarrow> timeval" where
  "timevaladd t1 t2 =
     (let sec = tv_sec t1 + tv_sec t2; usec = tv_usec t1 + tv_usec t2
      in if usec > 1000000 then \<lparr>tv_sec = sec + 1, tv_usec = usec - 1000000\<rparr>
         else \<lparr>tv_sec = sec, tv_usec = usec\<rparr>)"

definition timevalsub :: "timeval \<Rightarrow> timeval \<Rightarrow> timeval" where
  "timevalsub t1 t2 =
     (let sec = tv_sec t1 - tv_sec t2; usec = tv_usec t1 - tv_usec t2
      in if usec < 0 then \<lparr>tv_sec = sec - 1, tv_usec = usec + 1000000\<rparr>
         else \<lparr>tv_sec = sec, tv_usec = usec\<rparr>)"

text \<open>\<open>RANDOMDELAY()\<close>, from the value \<open>random()\<close> returned.\<close>

definition random_delay :: "nat \<Rightarrow> int" where
  "random_delay r = MIN_WAITTIME * 1000000 + int r mod ((MAX_WAITTIME - MIN_WAITTIME) * 1000000)"

definition dynamic_update :: "rip_env \<Rightarrow> nat \<Rightarrow> bool \<Rightarrow> nat option \<Rightarrow> routed \<Rightarrow> routed" where
  "dynamic_update E r changes ifp s =
     (if changes \<and> supplier s \<noteq> 0
         \<and> tv_sec (now s) - tv_sec (lastfullupdate s) < SUPPLY_INTERVAL - MAX_WAITTIME
      then
        let s1 = (if tv_sec (now s) - tv_sec (lastbcast s) \<ge> MIN_WAITTIME
                     \<and> timercmp_less (nextbcast s) (now s)
                  then (toall (supply_routes E) RTS_CHANGED ifp s)
                         \<lparr>lastbcast := now s, needupdate := 0,
                          nextbcast := (nextbcast s)\<lparr>tv_sec := 0\<rparr>\<rparr>
                  else s\<lparr>needupdate := needupdate s + 1\<rparr>)
        in if tv_sec (nextbcast s1) = 0
           then let delay = random_delay r;
                    nb = timevaladd \<lparr>tv_sec = delay div 1000000, tv_usec = delay mod 1000000\<rparr> (now s1)
                in s1\<lparr>nextbcast :=
                        (if tv_sec nb > tv_sec (lastfullupdate s1) + SUPPLY_INTERVAL - MIN_WAITTIME
                         then nb\<lparr>tv_sec := tv_sec (lastfullupdate s1) + SUPPLY_INTERVAL + 1\<rparr>
                         else nb)\<rparr>
           else s1
      else s)"

section \<open>The whole input routine\<close>

definition rip_input :: "rip_env \<Rightarrow> nat \<Rightarrow> sockaddr \<Rightarrow> rip \<Rightarrow> routed \<Rightarrow> routed" where
  "rip_input E r from rip s =
     (if \<not> af_known (sa_family from) then s
      else if rip_vers rip = 0 then s
      else if rip_cmd rip = RIPCMD_REQUEST then rip_request E from rip s
      else if rip_cmd rip = RIPCMD_TRACEON \<or> rip_cmd rip = RIPCMD_TRACEOFF
      then rip_trace from rip s
      else if rip_cmd rip = RIPCMD_RESPONSE
      then (case rip_response E from rip s of
              (None, s1) \<Rightarrow> s1
            | (Some (changes, ifp), s1) \<Rightarrow> dynamic_update E r changes ifp s1)
      else s)"

end
