(* ===== verification/Rip_Timer.thy ===== *)
theory Rip_Timer
  imports Rip_Input
begin

text \<open>
  The clock of \<^verbatim>\<open>routed\<close> (\<^verbatim>\<open>timer.c\<close>) and the turns of its main loop (\<^verbatim>\<open>main.c\<close>): every 30
  seconds the entries age, expire and are deleted, and a supplier broadcasts the table; a
  \<open>select\<close> that times out sends an update that was held back.
\<close>

definition TIMER_RATE :: int where "TIMER_RATE = 30"
definition CHECK_INTERVAL :: int where "CHECK_INTERVAL = 60"

text \<open>
  The loop body for the entry at \<open>p\<close>. Deletion of the entry resumes the walk at the next one, so
  the walk visits each entry that was in the chain exactly once.
\<close>

definition timer_entry :: "rip_env \<Rightarrow> nat \<Rightarrow> routed \<Rightarrow> routed" where
  "timer_entry E p s =
     (case rt_get s p of
        None \<Rightarrow> s
      | Some rt \<Rightarrow>
          let t = (if \<not> has (rt_state rt) RTS_PASSIVE
                      \<and> (supplier s \<noteq> 0 \<or> \<not> has (rt_state rt) RTS_INTERFACE)
                   then rt_timer rt + TIMER_RATE else rt_timer rt);
              s1 = set_timer p t s
          in if t \<ge> GARBAGE_TIME then rtdelete E p s1
             else let s2 = (if t \<ge> EXPIRE_TIME \<and> rt_metric rt < HOPCNT_INFINITY
                            then rtchange E p (rt_router rt) HOPCNT_INFINITY s1 else s1)
                  in rt_update p (\<lambda>e. e\<lparr>rt_state := rt_state e AND NOT RTS_CHANGED\<rparr>) s2)"

definition timer :: "rip_env \<Rightarrow> timeval \<Rightarrow> ifreq list \<Rightarrow> routed \<Rightarrow> routed" where
  "timer E t ifc s =
     (let s0 = s\<lparr>now := t, faketime := faketime s + TIMER_RATE\<rparr>;
          s1 = (if lookforinterfaces s0 \<and> faketime s0 mod CHECK_INTERVAL = 0
                then ifinit E ifc s0 else s0);
          timetobroadcast = (supplier s1 \<noteq> 0 \<and> faketime s1 mod SUPPLY_INTERVAL = 0);
          s2 = fold (timer_entry E) (map rt_ptr (all_rts s1)) s1
      in if timetobroadcast
         then (toall (supply_routes E) 0 None s2)
                \<lparr>lastbcast := now s2, lastfullupdate := now s2, needupdate := 0,
                 nextbcast := (nextbcast s2)\<lparr>tv_sec := 0\<rparr>\<rparr>
         else s2)"

text \<open>On hangup a supplier tells everyone that all its routes are gone, and exits.\<close>

definition hup :: "rip_env \<Rightarrow> routed \<Rightarrow> routed" where
  "hup E s =
     (if supplier s \<noteq> 0
      then toall (supply_routes E) 0 None
             (s\<lparr>hosthash := (\<lambda>b. map (\<lambda>e. e\<lparr>rt_metric := HOPCNT_INFINITY\<rparr>) (hosthash s b)),
                nethash := (\<lambda>b. map (\<lambda>e. e\<lparr>rt_metric := HOPCNT_INFINITY\<rparr>) (nethash s b))\<rparr>)
      else s)"

text \<open>How long \<open>select\<close> may wait: \<open>None\<close> is for ever.\<close>

definition select_timeout :: "routed \<Rightarrow> timeval option" where
  "select_timeout s =
     (if needupdate s \<noteq> 0
      then let w = timevalsub (nextbcast s) (now s)
           in Some (if tv_sec w < 0 then \<lparr>tv_sec = 0, tv_usec = 0\<rparr> else w)
      else None)"

definition delayed_update :: "rip_env \<Rightarrow> timeval \<Rightarrow> routed \<Rightarrow> routed" where
  "delayed_update E t s =
     (if needupdate s \<noteq> 0
      then let s1 = toall (supply_routes E) RTS_CHANGED None (s\<lparr>now := t\<rparr>)
           in s1\<lparr>lastbcast := now s1, needupdate := 0, nextbcast := (nextbcast s1)\<lparr>tv_sec := 0\<rparr>\<rparr>
      else s)"

text \<open>What the main loop reacts to: a timeout of \<open>select\<close>, datagrams, the alarm.\<close>

datatype event =
    Select_timeout timeval
  | Datagram timeval nat sockaddr rip
  | Alarm timeval "ifreq list"

fun step :: "rip_env \<Rightarrow> event \<Rightarrow> routed \<Rightarrow> routed" where
  "step E (Select_timeout t) s = delayed_update E t s"
| "step E (Datagram t r from rip) s = rip_input E r from rip (s\<lparr>now := t\<rparr>)"
| "step E (Alarm t ifc) s = timer E t ifc s"

text \<open>The start of \<open>main\<close>: tables, interfaces, gateways, and a request on every interface.\<close>

definition startup :: "rip_env \<Rightarrow> ifreq list \<Rightarrow> gw_line list \<Rightarrow> bool \<Rightarrow> routed \<Rightarrow> routed" where
  "startup E ifc gws gateway s =
     (let s1 = gwkludge E gws (ifinit E ifc (rtinit s));
          s2 = (if gateway then rtdefault E s1 else s1);
          s3 = (if supplier s2 < 0 then s2\<lparr>supplier := 0\<rparr> else s2);
          query = \<lparr>rip_cmd = RIPCMD_REQUEST, rip_vers = RIPVERSION,
                   rip_nets = [\<lparr>rip_dst = \<lparr>sa_family = AF_UNSPEC, sin_port = 0, sin_addr = 0,
                                           sin_zero = 0\<rparr>,
                               rip_metric = word_of_int HOPCNT_INFINITY\<rparr>], rip_tail = 0\<rparr>
      in toall (sndmsg E query) 0 None s3)"

end
