(* ===== verification/Rip_Invariant.thy ===== *)
theory Rip_Invariant
  imports Rip_Timer
begin

text \<open>
  The invariant of the routing table and that every operation of \<^verbatim>\<open>routed\<close> keeps it, up to the
  events of the main loop: pointers identify entries, an entry sits in the chain its hash selects,
  in the table its host flag selects, and every metric is a hop count between 1 and 16.
\<close>

named_theorems ok_intro \<open>operations that keep the invariant\<close>

section \<open>The invariant\<close>

definition in_chain :: "bool \<Rightarrow> nat \<Rightarrow> rt_entry \<Rightarrow> bool" where
  "in_chain host b e \<longleftrightarrow>
     has (rt_flags e) RTF_HOST = host \<and> bucket (rt_hash e) = b
     \<and> (host \<longrightarrow> rt_hash e = sin_addr (rt_dst e) AND 0x7fffffff)"

definition entry_ok :: "nat \<Rightarrow> rt_entry \<Rightarrow> bool" where
  "entry_ok n e \<longleftrightarrow>
     rt_ptr e < n \<and> af_known (sa_family (rt_dst e)) \<and> 1 \<le> rt_metric e \<and> rt_metric e \<le> HOPCNT_INFINITY"

definition metric_ok :: "int \<Rightarrow> bool" where
  "metric_ok m \<longleftrightarrow> 1 \<le> m \<and> m \<le> HOPCNT_INFINITY"

definition routed_ok :: "routed \<Rightarrow> bool" where
  "routed_ok s \<longleftrightarrow>
     distinct (map rt_ptr (all_rts s))
     \<and> (\<forall>e\<in>set (all_rts s). entry_ok (next_ptr s) e)
     \<and> (\<forall>b<ROUTEHASHSIZ. \<forall>e\<in>set (hosthash s b). in_chain True b e)
     \<and> (\<forall>b<ROUTEHASHSIZ. \<forall>e\<in>set (nethash s b). in_chain False b e)
     \<and> (\<forall>i\<in>set (ifnet s). metric_ok (int_metric i))"

lemma routed_okD:
  assumes "routed_ok s"
  shows "distinct (map rt_ptr (all_rts s))"
    and "e \<in> set (all_rts s) \<Longrightarrow> entry_ok (next_ptr s) e"
    and "b < ROUTEHASHSIZ \<Longrightarrow> e \<in> set (hosthash s b) \<Longrightarrow> in_chain True b e"
    and "b < ROUTEHASHSIZ \<Longrightarrow> e \<in> set (nethash s b) \<Longrightarrow> in_chain False b e"
    and "i \<in> set (ifnet s) \<Longrightarrow> metric_ok (int_metric i)"
  using assms by (auto simp: routed_ok_def)

text \<open>The invariant reads the chains, the pointer counter and the interfaces only.\<close>

lemma routed_ok_cong:
  "hosthash t = hosthash s \<Longrightarrow> nethash t = nethash s \<Longrightarrow> next_ptr t = next_ptr s \<Longrightarrow>
   ifnet t = ifnet s \<Longrightarrow> routed_ok t = routed_ok s"
  by (simp add: routed_ok_def all_rts_def host_rts_def net_rts_def)

lemma routed_ok_rtioctl [ok_intro]: "routed_ok s \<Longrightarrow> routed_ok (snd (rtioctl E a r s))"
  by (subst routed_ok_cong [of _ s]) (simp_all add: frame_simps)

lemma routed_ok_remque [ok_intro]: "routed_ok s \<Longrightarrow> routed_ok (remque p s)"
  by (auto simp: routed_ok_def all_rts_remque frame_simps distinct_map_filter)
    (auto simp: remque_def)

lemma routed_ok_update [ok_intro]:
  assumes ok: "routed_ok s"
    and f: "\<And>e. rt_ptr (f e) = rt_ptr e" "\<And>e. rt_dst (f e) = rt_dst e" "\<And>e. rt_hash (f e) = rt_hash e"
      "\<And>e. has (rt_flags (f e)) RTF_HOST = has (rt_flags e) RTF_HOST"
    and m: "\<And>e. metric_ok (rt_metric e) \<Longrightarrow> metric_ok (rt_metric (f e))"
  shows "routed_ok (rt_update p f s)"
proof -
  have ptrs: "map rt_ptr (all_rts (rt_update p f s)) = map rt_ptr (all_rts s)"
    using f by (simp add: all_rts_update)
  have entry: "entry_ok n e \<Longrightarrow> entry_ok n (at_ptr p f e)" for n e
    using f m [of e] by (auto simp: at_ptr_def entry_ok_def metric_ok_def)
  have chain: "in_chain host b e \<Longrightarrow> in_chain host b (at_ptr p f e)" for host b e
    using f by (auto simp: at_ptr_def in_chain_def)
  from ok show ?thesis unfolding routed_ok_def ptrs
    by (auto simp: all_rts_update frame_simps intro!: entry) (auto simp: rt_update_def intro!: chain)
qed

lemma routed_ok_insque [ok_intro]:
  assumes ok: "routed_ok s" and b: "in_chain host b rt"
    and rt: "rt_ptr rt = next_ptr s" "entry_ok (Suc (next_ptr s)) rt"
  shows "routed_ok (insque host b rt (s\<lparr>next_ptr := Suc (next_ptr s)\<rparr>))"
proof -
  let ?t = "s\<lparr>next_ptr := Suc (next_ptr s)\<rparr>"
  have bl: "b < ROUTEHASHSIZ" using b bucket_less by (auto simp: in_chain_def)
  obtain xs ys where xy: "all_rts ?t = xs @ ys" "all_rts (insque host b rt ?t) = xs @ rt # ys"
    using all_rts_insque [OF bl] by blast
  have t: "all_rts ?t = all_rts s" by (simp add: all_rts_def host_rts_def net_rts_def)
  have less: "rt_ptr e < next_ptr s" if "e \<in> set xs \<union> set ys" for e
    using ok that xy(1) t by (auto simp: routed_ok_def entry_ok_def)
  have mono: "entry_ok n e \<Longrightarrow> entry_ok (Suc n) e" for n e by (simp add: entry_ok_def)
  have "distinct (map rt_ptr (xs @ rt # ys))"
    using ok less rt(1) unfolding routed_ok_def t [symmetric] xy(1) by fastforce
  moreover have "\<forall>e\<in>set (xs @ rt # ys). entry_ok (Suc (next_ptr s)) e"
    using ok rt(2) mono unfolding routed_ok_def t [symmetric] xy(1) by auto
  ultimately show ?thesis
    using ok b unfolding routed_ok_def xy(2) by (auto simp: insque_def)
qed

lemma host_hash_of: "afh_hosthash (inet_hash ifs d) = sin_addr d AND 0x7fffffff"
  by (simp add: inet_hash_def Let_def)

lemma has_UP_OR_HOST [simp]:
  "has (RTF_UP OR f) RTF_HOST = has f RTF_HOST"
  "has (x OR RTF_GATEWAY) RTF_HOST = has x RTF_HOST"
  by (simp_all add: has_or) (simp_all add: flag_bits RTF_UP_def RTF_GATEWAY_def)

lemma routed_ok_ioctl_pair: "rtioctl E a r s = (x, t) \<Longrightarrow> routed_ok s \<Longrightarrow> routed_ok t"
  using routed_ok_rtioctl [of s E a r] by simp

lemma rtadd_entry_frame:
  assumes "rtadd_entry ifs p dst gate metric state = (host, rt)"
  shows "rt_ptr rt = p" "rt_dst rt = dst" "rt_router rt = gate" "rt_metric rt = metric"
    and "rt_timer rt = 0" "has (rt_flags rt) RTF_HOST = host"
    and "rt_hash rt = (if host then afh_hosthash (inet_hash ifs dst) else afh_nethash (inet_hash ifs dst))"
  using assms by (auto simp: rtadd_entry_def Let_def split: if_splits)

lemma routed_ok_rtadd [ok_intro]:
  assumes ok: "routed_ok s" and m: "metric_ok metric"
  shows "routed_ok (rtadd E dst gate metric state s)"
proof (cases "af_known (sa_family dst) \<and> malloc_ok E (next_ptr s)")
  case True
  obtain host rt where rt: "rtadd_entry (ifnet s) (next_ptr s) dst gate metric state = (host, rt)"
    by fastforce
  let ?s1 = "insque host (bucket (rt_hash rt)) rt (s\<lparr>next_ptr := Suc (next_ptr s)\<rparr>)"
  have "routed_ok ?s1"
    using rtadd_entry_frame [OF rt] True m
    by (intro routed_ok_insque ok) (auto simp: in_chain_def entry_ok_def metric_ok_def host_hash_of)
  with True rt show ?thesis
    by (auto simp: rtadd_def Let_def intro!: routed_ok_remque elim!: routed_ok_ioctl_pair
          split: option.split prod.split)
qed (use ok in \<open>auto simp: rtadd_def Let_def split: prod.split\<close>)

lemma to_short_metric [simp]: "metric_ok m \<Longrightarrow> to_short m = m"
  by (simp add: metric_ok_def HOPCNT_INFINITY_def to_short_small)

lemma routed_ok_rtchange [ok_intro]:
  "routed_ok s \<Longrightarrow> metric_ok m \<Longrightarrow> routed_ok (rtchange E p gate m s)"
  by (auto simp: rtchange_def Let_def intro!: ok_intro split: option.split prod.split)

lemma routed_ok_rtdelete [ok_intro]: "routed_ok s \<Longrightarrow> routed_ok (rtdelete E p s)"
  by (auto simp: rtdelete_def Let_def intro!: ok_intro split: option.split)

lemma routed_ok_set_timer [ok_intro]: "routed_ok s \<Longrightarrow> routed_ok (set_timer p t s)"
  by (auto simp: set_timer_def intro!: ok_intro)

section \<open>Control structure\<close>

text \<open>
  Rules that walk through the code of an operation: a bound state has the invariant and is
  otherwise forgotten, other bound values are kept.
\<close>

lemma ok_if [ok_intro]:
  "(c \<Longrightarrow> routed_ok a) \<Longrightarrow> (\<not> c \<Longrightarrow> routed_ok b) \<Longrightarrow> routed_ok (if c then a else b)"
  by simp

lemma ok_option [ok_intro]:
  "(x = None \<Longrightarrow> routed_ok a) \<Longrightarrow> (\<And>y. x = Some y \<Longrightarrow> routed_ok (f y)) \<Longrightarrow>
   routed_ok (case x of None \<Rightarrow> a | Some y \<Rightarrow> f y)"
  by (simp split: option.split)

lemma ok_let_state: "routed_ok x \<Longrightarrow> (\<And>y. routed_ok y \<Longrightarrow> routed_ok (f y)) \<Longrightarrow> routed_ok (Let x f)"
  by simp

lemma ok_let: "(\<And>y. y = x \<Longrightarrow> routed_ok (f y)) \<Longrightarrow> routed_ok (Let x f)"
  by simp

lemma ok_fold:
  "(\<And>x s. x \<in> set xs \<Longrightarrow> routed_ok s \<Longrightarrow> routed_ok (f x s)) \<Longrightarrow> routed_ok s \<Longrightarrow> routed_ok (fold f xs s)"
  by (induction xs arbitrary: s) auto

lemmas ok_control = ok_let_state ok_let ok_fold

section \<open>Interfaces and gateways\<close>

lemma routed_ok_bump [ok_intro]: "routed_ok s \<Longrightarrow> routed_ok (bump_transitions i s)"
  by (auto simp: routed_ok_def bump_transitions_def all_rts_def host_rts_def net_rts_def)

lemma routed_ok_localrt [ok_intro]: "routed_ok s \<Longrightarrow> routed_ok (add_ptopt_localrt E ifp s)"
  unfolding add_ptopt_localrt_def
  by (intro ok_control ok_intro) (simp_all add: metric_ok_def HOPCNT_INFINITY_def)

lemma routed_ok_network [ok_intro]:
  "routed_ok s \<Longrightarrow> metric_ok (int_metric ifp) \<Longrightarrow> routed_ok (add_network_route E ifp s)"
  unfolding add_network_route_def by (intro ok_control ok_intro)

lemma routed_ok_addroute [ok_intro]:
  "routed_ok s \<Longrightarrow> metric_ok (int_metric ifp) \<Longrightarrow> routed_ok (addrouteforif E ifp s)"
  unfolding addrouteforif_def by (intro ok_control ok_intro)

text \<open>The metrics the kernel reports for interfaces, before one is added to them.\<close>

definition ifreq_ok :: "ifreq \<Rightarrow> bool" where
  "ifreq_ok r \<longleftrightarrow> (case ifr_metric r of None \<Rightarrow> True | Some m \<Rightarrow> 0 \<le> m \<and> m < HOPCNT_INFINITY)"

lemma routed_ok_add_if:
  "routed_ok s \<Longrightarrow> \<forall>i\<in>set ifs. metric_ok (int_metric i) \<Longrightarrow>
   routed_ok (s\<lparr>ifnet := ifs, ifnext_head := h\<rparr>)"
  by (auto simp: routed_ok_def all_rts_def host_rts_def net_rts_def)

lemma routed_ok_misc [ok_intro]:
  "routed_ok s \<Longrightarrow> routed_ok (s\<lparr>externalinterfaces := x\<rparr>)"
  "routed_ok s \<Longrightarrow> routed_ok (s\<lparr>supplier := y\<rparr>)"
  "routed_ok s \<Longrightarrow> routed_ok (s\<lparr>lookforinterfaces := z\<rparr>)"
  "routed_ok s \<Longrightarrow> routed_ok (s\<lparr>foundloopback := z, loopaddr := l\<rparr>)"
  "routed_ok s \<Longrightarrow> routed_ok (s\<lparr>now := t\<rparr>)"
  "routed_ok s \<Longrightarrow> routed_ok (s\<lparr>tracing := tr\<rparr>)"
  "routed_ok s \<Longrightarrow> routed_ok (s\<lparr>needupdate := i\<rparr>)"
  "routed_ok s \<Longrightarrow> routed_ok (s\<lparr>nextbcast := t\<rparr>)"
  "routed_ok s \<Longrightarrow> routed_ok (s\<lparr>lastbcast := t1, needupdate := i, nextbcast := t\<rparr>)"
  "routed_ok s \<Longrightarrow>
     routed_ok (s\<lparr>lastbcast := t1, lastfullupdate := t2, needupdate := i, nextbcast := t\<rparr>)"
  "routed_ok s \<Longrightarrow> routed_ok (s\<lparr>now := t, faketime := i\<rparr>)"
  by (simp_all add: routed_ok_def all_rts_def host_rts_def net_rts_def)

lemma routed_ok_install [ok_intro]:
  "routed_ok s \<Longrightarrow> ifreq_ok r \<Longrightarrow> routed_ok (ifinit_install E i r f u m s)"
  unfolding ifinit_install_def
  by (intro ok_control routed_ok_add_if ok_intro)
    (auto dest: routed_okD(5) simp: ifreq_ok_def metric_ok_def HOPCNT_INFINITY_def split: option.splits)

lemma routed_ok_ifinit_one [ok_intro]:
  "routed_ok s \<Longrightarrow> ifreq_ok r \<Longrightarrow> routed_ok (ifinit_one E i r s)"
  unfolding ifinit_one_def by (intro ok_control ok_intro)

lemma routed_ok_ifinit [ok_intro]:
  "routed_ok s \<Longrightarrow> \<forall>r\<in>set ifc. ifreq_ok r \<Longrightarrow> routed_ok (ifinit E ifc s)"
  unfolding ifinit_def by (intro ok_control ok_intro) auto

definition gw_ok :: "gw_line \<Rightarrow> bool" where
  "gw_ok g \<longleftrightarrow> 0 \<le> gw_metric g \<and> gw_metric g \<le> HOPCNT_INFINITY"

lemma routed_ok_gwkludge_line [ok_intro]:
  assumes ok: "routed_ok s" and g: "gw_ok g"
  shows "routed_ok (gwkludge_line E g s)"
proof -
  let ?m = "if gw_metric g = 0 then 1 else gw_metric g"
  have m: "metric_ok ?m" using g by (auto simp: metric_ok_def gw_ok_def HOPCNT_INFINITY_def)
  have add: "routed_ok (s\<lparr>externalinterfaces := x, ifnet := ifp # ifnet s\<rparr>)"
    if "metric_ok (int_metric ifp)" for x ifp
    using ok that by (auto simp: routed_ok_def all_rts_def host_rts_def net_rts_def)
  show ?thesis
  proof (cases "gw_qual g")
    case Passive
    with ok show ?thesis by (simp add: gwkludge_line_def Let_def routed_ok_rtioctl)
  next
    case External
    with ok m show ?thesis by (simp add: gwkludge_line_def Let_def routed_ok_rtadd)
  next
    case Active
    with m show ?thesis
      unfolding gwkludge_line_def Let_def gw_qualifier.case
      by (simp only: gw_qualifier.case) (intro routed_ok_addroute add; simp)
  qed
qed

lemma routed_ok_gwkludge [ok_intro]:
  "routed_ok s \<Longrightarrow> \<forall>g\<in>set gws. gw_ok g \<Longrightarrow> routed_ok (gwkludge E gws s)"
  unfolding gwkludge_def by (intro ok_control ok_intro) auto

section \<open>Sending\<close>

text \<open>Sending appends datagrams and changes nothing else.\<close>

definition only_sends :: "routed \<Rightarrow> routed \<Rightarrow> bool" where
  "only_sends s t \<longleftrightarrow> (\<exists>ds. t = s\<lparr>sent := sent s @ ds\<rparr>)"

lemma only_sends_refl [simp]: "only_sends s s"
  unfolding only_sends_def by (rule exI [of _ "[]"]) simp

lemma only_sends_trans: "only_sends s t \<Longrightarrow> only_sends t u \<Longrightarrow> only_sends s u"
  by (auto simp: only_sends_def)

lemma only_sends_output: "only_sends s (inet_output E dr d r s)"
  by (auto simp: only_sends_def inet_output_def Let_def)

lemma only_sends_loop:
  "supply_loop E d dr ifp st host rts n np s = (q, n', np', t) \<Longrightarrow> only_sends s t"
  by (induction E d dr ifp st host rts n np s rule: supply_loop.induct)
    (auto simp: Let_def split: if_splits intro: only_sends_output only_sends_trans [OF only_sends_output])

lemma only_sends_supply: "only_sends s (supply_routes E d dr ifp st s)"
  by (auto simp: supply_routes_def split: prod.split bool.split
      dest!: only_sends_loop intro: only_sends_trans only_sends_output)

lemma only_sends_fold: "(\<And>x s. only_sends s (f x s)) \<Longrightarrow> only_sends s (fold f xs s)"
  by (induction xs arbitrary: s) (auto intro: only_sends_trans)

lemma only_sends_toall:
  "(\<And>d dr i st s. only_sends s (f d dr i st s)) \<Longrightarrow> only_sends s (toall f st skip s)"
  unfolding toall_def by (rule only_sends_fold) (simp add: Let_def)

lemma routed_ok_sends: "only_sends s t \<Longrightarrow> routed_ok s \<Longrightarrow> routed_ok t"
  using routed_ok_cong [of t s] by (auto simp: only_sends_def)

lemma routed_ok_send [ok_intro]:
  "routed_ok s \<Longrightarrow> routed_ok (inet_output E dr d r s)"
  "routed_ok s \<Longrightarrow> routed_ok (supply_routes E d dr ifp st s)"
  "routed_ok s \<Longrightarrow> routed_ok (toall (supply_routes E) st skip s)"
  "routed_ok s \<Longrightarrow> routed_ok (toall (sndmsg E m) st skip s)"
  by (rule routed_ok_sends; simp add: sndmsg_def only_sends_output only_sends_supply only_sends_toall)+

section \<open>Packets, the clock and the main loop\<close>

lemma adjust_metric_ok:
  assumes "metric_ok cost" and "m \<noteq> 0" and "uint m \<le> HOPCNT_INFINITY"
  shows "metric_ok (adjust_metric cost m)"
proof -
  have pos: "0 < uint m" using assms(2) by (metis order_le_less uint_0_iff uint_ge_0)
  have small: "uint (word_of_int k :: u32) = k" if "0 \<le> k" "k \<le> 32" for k
    using that by (simp add: uint_word_of_int)
  have "uint (word_of_int (uint m + cost) :: u32) = uint m + cost"
    using assms pos by (intro small) (simp_all add: metric_ok_def HOPCNT_INFINITY_def)
  with assms pos show ?thesis
    by (auto simp: adjust_metric_def Let_def metric_ok_def HOPCNT_INFINITY_def)
qed

lemma routed_ok_learn: "routed_ok s \<Longrightarrow> metric_ok m \<Longrightarrow> routed_ok (snd (learn_route E sender d m s))"
  by (auto simp: learn_route_def Let_def intro!: ok_intro split: option.split)

lemma routed_ok_entry:
  "routed_ok s \<Longrightarrow> metric_ok cost \<Longrightarrow> routed_ok (snd (response_entry E sender cost n (c, s)))"
  using routed_ok_learn [of s "adjust_metric cost (rip_metric n)" E sender "rip_dst n"]
    adjust_metric_ok [of cost "rip_metric n"]
  by (auto simp: response_entry_def Let_def entry_acceptable_def split: prod.split)

lemma routed_ok_entries:
  "routed_ok (snd cs) \<Longrightarrow> metric_ok cost \<Longrightarrow> routed_ok (snd (fold (response_entry E sender cost) ns cs))"
proof (induction ns arbitrary: cs)
  case (Cons n ns)
  then show ?case using routed_ok_entry [of "snd cs" cost E sender n "fst cs"] by simp
qed simp

lemma routed_ok_own [ok_intro]:
  "routed_ok s \<Longrightarrow> metric_ok (int_metric ifp) \<Longrightarrow> routed_ok (own_response E sender ifp s)"
  unfolding own_response_def by (intro ok_control ok_intro)

lemma routed_ok_refresh [ok_intro]: "routed_ok s \<Longrightarrow> routed_ok (refresh_sender E sender s)"
  unfolding refresh_sender_def
  by (intro ok_control ok_intro) (auto dest: if_lookups_mem routed_okD(5))

lemma routed_ok_response:
  assumes ok: "routed_ok s"
  shows "routed_ok (snd (rip_response E sender r s))"
proof -
  let ?from = "inet_canon sender"
  let ?t = "refresh_sender E ?from s"
  have own: "if_ifwithaddr (ifnet s) ?from = Some ifp \<Longrightarrow> routed_ok (own_response E ?from ifp s)" for ifp
    using ok by (auto intro!: routed_ok_own dest: if_lookups_mem(1) routed_okD(5))
  have t: "routed_ok ?t" using ok by (rule routed_ok_refresh)
  have "if_iflookup (ifnet ?t) ?from = Some i \<Longrightarrow>
      routed_ok (snd (fold (response_entry E ?from (int_metric i)) (rip_nets r) (False, ?t)))" for i
    using t by (intro routed_ok_entries) (auto dest: if_lookups_mem(3) routed_okD(5))
  with own t ok show ?thesis
    by (auto simp: rip_response_def Let_def split: option.split prod.split)
qed

lemma routed_ok_dynamic [ok_intro]: "routed_ok s \<Longrightarrow> routed_ok (dynamic_update E r c ifp s)"
  unfolding dynamic_update_def by (intro ok_control ok_intro)

lemma routed_ok_request [ok_intro]: "routed_ok s \<Longrightarrow> routed_ok (rip_request E sender r s)"
  unfolding rip_request_def by (intro ok_control ok_intro)

lemma routed_ok_trace [ok_intro]: "routed_ok s \<Longrightarrow> routed_ok (rip_trace sender r s)"
  unfolding rip_trace_def by (intro ok_control ok_intro)

lemma routed_ok_input [ok_intro]: "routed_ok s \<Longrightarrow> routed_ok (rip_input E rnd sender r s)"
  using routed_ok_response [of s E sender r]
  by (auto simp: rip_input_def intro!: ok_intro split: prod.split option.split)

lemma routed_ok_timer_entry [ok_intro]: "routed_ok s \<Longrightarrow> routed_ok (timer_entry E p s)"
  unfolding timer_entry_def
  by (intro ok_control ok_intro)
    (auto simp: metric_ok_def HOPCNT_INFINITY_def)

lemma routed_ok_timer [ok_intro]:
  "routed_ok s \<Longrightarrow> \<forall>r\<in>set ifc. ifreq_ok r \<Longrightarrow> routed_ok (timer E t ifc s)"
  unfolding timer_def by (intro ok_control ok_intro)

lemma routed_ok_delayed [ok_intro]: "routed_ok s \<Longrightarrow> routed_ok (delayed_update E t s)"
  unfolding delayed_update_def by (intro ok_control ok_intro)

definition event_ok :: "event \<Rightarrow> bool" where
  "event_ok ev \<longleftrightarrow> (case ev of Alarm t ifc \<Rightarrow> \<forall>r\<in>set ifc. ifreq_ok r | _ \<Rightarrow> True)"

lemma routed_ok_step: "routed_ok s \<Longrightarrow> event_ok ev \<Longrightarrow> routed_ok (step E ev s)"
  by (cases ev) (auto simp: event_ok_def intro!: ok_intro)

lemma concat_map_nil: "concat (map (\<lambda>_. []) xs) = []"
  by (induction xs) auto

lemma routed_ok_startup:
  assumes "ifnet s = []" and "\<forall>r\<in>set ifc. ifreq_ok r" and "\<forall>g\<in>set gws. gw_ok g"
  shows "routed_ok (startup E ifc gws gateway s)"
proof -
  have "routed_ok (rtinit s)"
    using assms(1) by (simp add: routed_ok_def rtinit_def all_rts_def host_rts_def net_rts_def concat_map_nil)
  with assms(2,3) show ?thesis
    unfolding startup_def rtdefault_def
    by (intro ok_control ok_intro) (simp_all add: metric_ok_def HOPCNT_INFINITY_def)
qed

text \<open>The states the daemon can be in: after its start, after any events of the main loop.\<close>

inductive reachable :: "rip_env \<Rightarrow> routed \<Rightarrow> bool" for E where
  reachable_start: "ifnet s = [] \<Longrightarrow> \<forall>r\<in>set ifc. ifreq_ok r \<Longrightarrow> \<forall>g\<in>set gws. gw_ok g \<Longrightarrow>
    reachable E (startup E ifc gws gateway s)"
| reachable_step: "reachable E s \<Longrightarrow> event_ok ev \<Longrightarrow> reachable E (step E ev s)"

theorem reachable_ok: "reachable E s \<Longrightarrow> routed_ok s"
  by (induction rule: reachable.induct) (auto intro: routed_ok_startup routed_ok_step)

end
