(* ===== verification/Rip_Vector.thy ===== *)
theory Rip_Vector
  imports Rip_Invariant
begin

text \<open>
  The routing table seen as a distance vector: a map from destinations to the gateway, the metric
  and the age of the route. The hash table's lookup is shown to be a search by destination, its
  operations to be updates of the map, and what the daemon learns from a response entry to be the
  distance vector step on it.
\<close>

section \<open>Lookup is a search by destination\<close>

lemma rtlookup_Some:
  "rtlookup s d = Some e \<Longrightarrow> e \<in> set (all_rts s) \<and> rt_dst e = d \<and> af_known (sa_family d)"
  using bucket_less [of "afh_hosthash (inet_hash (ifnet s) d)"]
    bucket_less [of "afh_nethash (inet_hash (ifnet s) d)"]
  by (fastforce simp: rtlookup_def Let_def host_match_def all_rts_def host_rts_def net_rts_def
      split: if_splits option.splits dest: find_Some_set)

lemma rtlookup_update:
  assumes "\<And>e. rt_ptr (f e) = rt_ptr e" "\<And>e. rt_dst (f e) = rt_dst e" "\<And>e. rt_hash (f e) = rt_hash e"
  shows "rtlookup (rt_update p f s) d = map_option (at_ptr p f) (rtlookup s d)"
proof -
  have "(\<lambda>x. host_match h d (at_ptr p f x)) = host_match h d" for h
    using assms by (simp add: fun_eq_iff host_match_def)
  then show ?thesis
    by (auto simp: rtlookup_def Let_def rt_update_def find_map split: option.split)
qed

lemma rtlookup_insque:
  assumes known: "af_known (sa_family (rt_dst rt))"
    and hash: "rt_hash rt = (if host then afh_hosthash (inet_hash (ifnet s) (rt_dst rt))
                             else afh_nethash (inet_hash (ifnet s) (rt_dst rt)))"
    and new: "rtlookup s (rt_dst rt) = None"
  shows "rtlookup (insque host (bucket (rt_hash rt)) rt s) d
    = (if d = rt_dst rt then Some rt else rtlookup s d)"
  using assms
  by (auto simp: rtlookup_def Let_def insque_def host_match_def split: if_splits option.splits)

text \<open>
  A network entry whose hash is that of its address under the current interfaces; host entries
  always have it.
\<close>

definition hash_current :: "routed \<Rightarrow> rt_entry \<Rightarrow> bool" where
  "hash_current s e \<longleftrightarrow>
     has (rt_flags e) RTF_HOST \<or> rt_hash e = afh_nethash (inet_hash (ifnet s) (rt_dst e))"

lemma find_chain_None:
  "find P (f b) = None \<Longrightarrow> b < n \<Longrightarrow> e \<in> set (f b) \<Longrightarrow> \<not> P e"
  by (simp add: find_None_all)

lemma rtlookup_complete:
  assumes ok: "routed_ok s" and e: "e \<in> set (all_rts s)" "hash_current s e"
  shows "rtlookup s (rt_dst e) \<noteq> None"
proof -
  let ?h = "inet_hash (ifnet s) (rt_dst e)"
  have known: "af_known (sa_family (rt_dst e))"
    using routed_okD(2) [OF ok e(1)] by (simp add: entry_ok_def)
  from e(1) consider (host) b where "b < ROUTEHASHSIZ" "e \<in> set (hosthash s b)"
    | (net) b where "b < ROUTEHASHSIZ" "e \<in> set (nethash s b)"
    by (auto simp: all_rts_def host_rts_def net_rts_def)
  then show ?thesis
  proof cases
    case host
    then have "in_chain True b e" by (rule routed_okD(3) [OF ok])
    then have "b = bucket (afh_hosthash ?h)" "rt_hash e = afh_hosthash ?h"
      by (auto simp: in_chain_def host_hash_of)
    with host(2) have "e \<in> set (hosthash s (bucket (afh_hosthash ?h)))" "rt_hash e = afh_hosthash ?h"
      by simp_all
    then have "find (host_match (afh_hosthash ?h) (rt_dst e)) (hosthash s (bucket (afh_hosthash ?h))) \<noteq> None"
      by (auto simp: find_None_all host_match_def)
    with known show ?thesis by (auto simp: rtlookup_def Let_def)
  next
    case net
    then have "in_chain False b e" by (rule routed_okD(4) [OF ok])
    then have "b = bucket (afh_nethash ?h)" "rt_hash e = afh_nethash ?h"
      using e(2) by (auto simp: in_chain_def hash_current_def)
    with net(2) have "e \<in> set (nethash s (bucket (afh_nethash ?h)))" "rt_hash e = afh_nethash ?h"
      by simp_all
    then have "find (host_match (afh_nethash ?h) (rt_dst e)) (nethash s (bucket (afh_nethash ?h))) \<noteq> None"
      by (auto simp: find_None_all host_match_def)
    with known show ?thesis by (auto simp: rtlookup_def Let_def split: option.split)
  qed
qed

section \<open>The distance vector\<close>

definition route_view :: "rt_entry \<Rightarrow> sockaddr \<times> int \<times> int" where
  "route_view e = (rt_router e, rt_metric e, rt_timer e)"

definition vector :: "routed \<Rightarrow> sockaddr \<Rightarrow> (sockaddr \<times> int \<times> int) option" where
  "vector s d = map_option route_view (rtlookup s d)"

lemma vector_ioctl [frame_simps]: "vector (snd (rtioctl E a r s)) = vector s"
  by (simp add: vector_def fun_eq_iff frame_simps)

lemma rt_get_unique:
  assumes ok: "routed_ok s" and e: "e \<in> set (all_rts s)"
  shows "rt_get s (rt_ptr e) = Some e"
proof (cases "rt_get s (rt_ptr e)")
  case None
  with e show ?thesis by (auto simp: rt_get_def find_None_all)
next
  case (Some x)
  then have "x \<in> set (all_rts s)" "rt_ptr x = rt_ptr e"
    by (auto simp: rt_get_def dest: find_Some_set)
  with Some e show ?thesis using distinct_map_eq [OF routed_okD(1) [OF ok]] by metis
qed

text \<open>Updating the entry a lookup finds changes the map at its destination only.\<close>

lemma vector_update:
  assumes ok: "routed_ok s" and e: "rtlookup s d = Some e"
    and f: "\<And>e. rt_ptr (f e) = rt_ptr e" "\<And>e. rt_dst (f e) = rt_dst e" "\<And>e. rt_hash (f e) = rt_hash e"
  shows "vector (rt_update (rt_ptr e) f s) = (vector s)(d \<mapsto> route_view (f e))"
proof
  fix d'
  have "rt_ptr e' \<noteq> rt_ptr e" if "rtlookup s d' = Some e'" "d' \<noteq> d" for e'
    using that(2) rtlookup_Some [OF that(1)] rtlookup_Some [OF e]
      distinct_map_eq [OF routed_okD(1) [OF ok], of e' e] by auto
  with e show "vector (rt_update (rt_ptr e) f s) d' = ((vector s)(d \<mapsto> route_view (f e))) d'"
    by (cases "rtlookup s d'") (auto simp: vector_def rtlookup_update [OF f] at_ptr_def)
qed

lemma vector_set_timer:
  "routed_ok s \<Longrightarrow> rtlookup s d = Some e \<Longrightarrow>
   vector (set_timer (rt_ptr e) t s) = (vector s)(d \<mapsto> (rt_router e, rt_metric e, t))"
  using vector_update [of s d e "\<lambda>e. e\<lparr>rt_timer := t\<rparr>"] by (simp add: set_timer_def route_view_def)

text \<open>Which routes the daemon may rewrite: not the internal ones it made up itself.\<close>

lemma rtchange_lookup:
  assumes ok: "routed_ok s" and e: "rtlookup s d = Some e" and m: "metric_ok m"
    and ext: "\<not> has (rt_state e) RTS_INTERNAL"
  obtains e' where "rtlookup (rtchange E (rt_ptr e) g m s) d = Some e'" "rt_ptr e' = rt_ptr e"
    "route_view e' = (g, m, rt_timer e)"
    and "vector (rtchange E (rt_ptr e) g m s) = (vector s)(d \<mapsto> (g, m, rt_timer e))"
proof -
  obtain a dl where plan: "rtchange_plan E e g m = (a, dl)" by fastforce
  let ?f = "rtchange_entry (ifnet s) a dl g m"
  have get: "rt_get s (rt_ptr e) = Some e"
    using rt_get_unique [OF ok] rtlookup_Some [OF e] by blast
  have router: "route_view (?f e) = (g, m, rt_timer e)"
    using plan ext by (auto simp: route_view_def rtchange_plan_def Let_def split: if_splits)
  have look: "rtlookup (rtchange E (rt_ptr e) g m s) d = Some (?f e)"
    using get plan m e by (simp add: rtchange_def Let_def frame_simps rtlookup_update at_ptr_def)
  have vec: "vector (rtchange E (rt_ptr e) g m s) = (vector s)(d \<mapsto> (g, m, rt_timer e))"
    using get plan m vector_update [OF ok e, of ?f] router
    by (cases a; cases dl) (simp_all add: rtchange_def Let_def frame_simps)
  show thesis by (rule that [OF look _ router vec]) simp
qed

text \<open>An environment in which insertion succeeds.\<close>

definition accepting :: "rip_env \<Rightarrow> bool" where
  "accepting E \<longleftrightarrow> (\<forall>p. malloc_ok E p) \<and> (\<forall>h r. ioctl_errno E h r \<noteq> Some ENETUNREACH)"

lemma rtioctl_accepting: "accepting E \<Longrightarrow> fst (rtioctl E a r s) \<noteq> Some ENETUNREACH"
  by (simp add: accepting_def rtioctl_def Let_def)

lemma rtadd_lookup:
  assumes acc: "accepting E" and known: "af_known (sa_family d)" and new: "rtlookup s d = None"
  obtains rt where "rtadd_entry (ifnet s) (next_ptr s) d g m st = (has (rt_flags rt) RTF_HOST, rt)"
    "rtlookup (rtadd E d g m st s) = (rtlookup s)(d \<mapsto> rt)" "route_view rt = (g, m, 0)"
proof -
  obtain host rt where rt: "rtadd_entry (ifnet s) (next_ptr s) d g m st = (host, rt)" by fastforce
  note fr = rtadd_entry_frame [OF rt]
  let ?s0 = "s\<lparr>next_ptr := Suc (next_ptr s)\<rparr>"
  let ?s1 = "insque host (bucket (rt_hash rt)) rt ?s0"
  have s0: "rtlookup ?s0 = rtlookup s" by (simp add: rtlookup_def fun_eq_iff Let_def cong: option.case_cong)
  have look: "rtlookup ?s1 = (rtlookup s)(d \<mapsto> rt)"
  proof
    fix d'
    show "rtlookup ?s1 d' = ((rtlookup s)(d \<mapsto> rt)) d'"
      by (subst rtlookup_insque) (use known new fr s0 in \<open>auto simp: fun_eq_iff\<close>)
  qed
  have "rtlookup (rtadd E d g m st s) = rtlookup ?s1"
    using acc known rt rtioctl_accepting [OF acc, of KADD rt ?s1]
      rtioctl_lookup(1) [of E KADD rt ?s1]
    by (auto simp: rtadd_def Let_def accepting_def fun_eq_iff split: option.split prod.split)
  with look rt fr show thesis by (intro that [of rt]) (auto simp: route_view_def)
qed

lemma vector_rtadd:
  "accepting E \<Longrightarrow> af_known (sa_family d) \<Longrightarrow> rtlookup s d = None \<Longrightarrow>
   vector (rtadd E d g m st s) = (vector s)(d \<mapsto> (g, m, 0))"
  by (rule rtadd_lookup [where E = E and d = d and s = s and g = g and m = m and st = st])
    (auto simp: vector_def fun_eq_iff)

section \<open>Learning a route\<close>

text \<open>
  The specification of what an entry of a response does to the vector: \<open>g\<close> is the sender, \<open>m\<close>
  the metric with the cost of the incoming interface, \<open>covered\<close> says that an equivalent route
  through the sender already includes the destination.
\<close>

definition dv_step ::
  "sockaddr \<Rightarrow> int \<Rightarrow> bool \<Rightarrow> (sockaddr \<times> int \<times> int) option \<Rightarrow> (sockaddr \<times> int \<times> int) option" where
  "dv_step g m covered old =
     (case old of
        None \<Rightarrow> if m < HOPCNT_INFINITY \<and> \<not> covered then Some (g, m, 0) else None
      | Some (r, c, t) \<Rightarrow>
          if r = g then
            (if m \<noteq> c then Some (g, m, if m = HOPCNT_INFINITY then GARBAGE_TIME - EXPIRE_TIME else 0)
             else if m < HOPCNT_INFINITY then Some (g, m, 0) else old)
          else if m < c \<or> m = c \<and> EXPIRE_TIME div 2 < t \<and> m < HOPCNT_INFINITY
          then Some (g, m, 0) else old)"

definition covered_by :: "routed \<Rightarrow> sockaddr \<Rightarrow> sockaddr \<Rightarrow> bool" where
  "covered_by s g d \<longleftrightarrow> (case rtfind s d of None \<Rightarrow> False | Some rt \<Rightarrow> rt_router rt = g)"

lemma metric_word [simp]: "metric_ok m \<Longrightarrow> uint (word_of_int m :: u32) = m"
  by (simp add: metric_ok_def HOPCNT_INFINITY_def uint_word_of_int)

lemma not_internal_mask:
  "\<not> has st RTS_INTERNAL \<Longrightarrow> (st AND (RTS_INTERNAL OR RTS_INTERFACE)) \<noteq> (RTS_INTERNAL OR RTS_INTERFACE)"
proof
  assume st: "\<not> has st RTS_INTERNAL" and eq: "st AND (RTS_INTERNAL OR RTS_INTERFACE) = RTS_INTERNAL OR RTS_INTERFACE"
  have "bit (RTS_INTERNAL OR RTS_INTERFACE) 2" by (simp add: flag_defs)
  then have "bit st 2" using eq by (metis bit_and_iff)
  with st show False by (simp add: flag_bits)
qed

definition gateway_metric :: "(sockaddr \<times> int \<times> int) option \<Rightarrow> (sockaddr \<times> int) option" where
  "gateway_metric = map_option (\<lambda>(g, m, t). (g, m))"

lemma learn_new:
  assumes acc: "accepting E" and known: "af_known (sa_family d)" and new: "rtlookup s d = None"
  shows "vector (snd (learn_route E g d m s)) = (vector s)(d := dv_step g m (covered_by s g d) (vector s d))"
    and "fst (learn_route E g d m s) \<longleftrightarrow> m < HOPCNT_INFINITY \<and> \<not> covered_by s g d"
proof -
  have none: "vector s d = None" using new by (simp add: vector_def)
  then have same: "(vector s)(d := None) = vector s" by auto
  have cov: "(case rtfind s d of None \<Rightarrow> False | Some rt \<Rightarrow> g = rt_router rt) = covered_by s g d"
    by (auto simp: covered_by_def split: option.split)
  have learn: "learn_route E g d m s =
      (if m < HOPCNT_INFINITY \<and> \<not> covered_by s g d then (True, rtadd E d g m 0 s) else (False, s))"
    using new cov by (simp add: learn_route_def Let_def)
  show "vector (snd (learn_route E g d m s)) = (vector s)(d := dv_step g m (covered_by s g d) (vector s d))"
    using vector_rtadd [OF acc known new, of g m 0] none same
    by (simp add: learn dv_step_def)
  show "fst (learn_route E g d m s) \<longleftrightarrow> m < HOPCNT_INFINITY \<and> \<not> covered_by s g d"
    by (simp add: learn)
qed

lemma learn_known:
  assumes ok: "routed_ok s" and m: "metric_ok m" and e: "rtlookup s d = Some e"
    and ext: "\<not> has (rt_state e) RTS_INTERNAL"
  shows "vector (snd (learn_route E g d m s)) = (vector s)(d := dv_step g m c (vector s d))"
    and "fst (learn_route E g d m s) \<longleftrightarrow>
      gateway_metric (dv_step g m c (vector s d)) \<noteq> gateway_metric (vector s d)"
proof -
  let ?s1 = "rtchange E (rt_ptr e) g m s"
  have old: "vector s d = Some (rt_router e, rt_metric e, rt_timer e)"
    using e by (simp add: vector_def route_view_def)
  have em: "metric_ok (rt_metric e)"
    using routed_okD(2) [OF ok] rtlookup_Some [OF e] by (simp add: entry_ok_def metric_ok_def)
  obtain e' where e': "rtlookup ?s1 d = Some e'" "rt_ptr e' = rt_ptr e" "route_view e' = (g, m, rt_timer e)"
    and vec: "vector ?s1 = (vector s)(d \<mapsto> (g, m, rt_timer e))"
    by (rule rtchange_lookup [OF ok e m ext, of E g]) blast
  have ok1: "routed_ok ?s1" using ok m by (rule routed_ok_rtchange)
  have set1: "vector (set_timer (rt_ptr e) t ?s1) = (vector s)(d \<mapsto> (g, m, t))" for t
    using vector_set_timer [OF ok1 e'(1), of t] e'(2,3) vec by (simp add: route_view_def)
  have look2: "rtlookup (set_timer (rt_ptr e) 0 ?s1) d = Some (e'\<lparr>rt_timer := 0\<rparr>)"
    using e' by (simp add: set_timer_def rtlookup_update at_ptr_def)
  have set2: "vector (set_timer (rt_ptr e) t (set_timer (rt_ptr e) 0 ?s1)) = (vector s)(d \<mapsto> (g, m, t))" for t
    using vector_set_timer [OF routed_ok_set_timer [OF ok1] look2, of t] e'(2,3) set1
    by (simp add: route_view_def)
  have set0: "vector (set_timer (rt_ptr e) 0 s) = (vector s)(d \<mapsto> (rt_router e, rt_metric e, 0))"
    using vector_set_timer [OF ok e] .
  have same: "(vector s)(d \<mapsto> (rt_router e, rt_metric e, rt_timer e)) = vector s"
    using old by auto
  note red = learn_route_def Let_def e option.case not_internal_mask [OF ext] if_False
  show "vector (snd (learn_route E g d m s)) = (vector s)(d := dv_step g m c (vector s d))"
    using em m old same set0 set1 set2
    by (auto simp: red dv_step_def metric_ok_def HOPCNT_INFINITY_def)
  show "fst (learn_route E g d m s) \<longleftrightarrow>
      gateway_metric (dv_step g m c (vector s d)) \<noteq> gateway_metric (vector s d)"
    using em m old by (auto simp: red dv_step_def gateway_metric_def)
qed

text \<open>The routes the daemon may overwrite on hearsay.\<close>

definition learnable :: "routed \<Rightarrow> sockaddr \<Rightarrow> bool" where
  "learnable s d \<longleftrightarrow> af_known (sa_family d) \<and>
     (case rtlookup s d of None \<Rightarrow> True | Some e \<Rightarrow> \<not> has (rt_state e) RTS_INTERNAL)"

section \<open>The table as a store of routes\<close>

text \<open>Taking a route: what \<open>learn_route\<close> calls when it decides for the sender.\<close>

definition take_route :: "rip_env \<Rightarrow> sockaddr \<Rightarrow> sockaddr \<times> int \<Rightarrow> routed \<Rightarrow> routed" where
  "take_route E d v s =
     (case rtlookup s d of
        None \<Rightarrow> rtadd E d (fst v) (snd v) 0 s
      | Some e \<Rightarrow> rtchange E (rt_ptr e) (fst v) (snd v) s)"

definition routes :: "routed \<Rightarrow> sockaddr \<Rightarrow> (sockaddr \<times> int) option" where
  "routes s d = gateway_metric (vector s d)"

definition takable :: "rip_env \<Rightarrow> sockaddr \<Rightarrow> sockaddr \<times> int \<Rightarrow> routed \<Rightarrow> bool" where
  "takable E d v s \<longleftrightarrow> accepting E \<and> metric_ok (snd v) \<and> learnable s d"

lemma rtchange_entry_internal:
  "has (rt_state (rtchange_entry ifs a dl g m e)) RTS_INTERNAL = has (rt_state e) RTS_INTERNAL"
  by (simp add: rtchange_entry_def Let_def has_or)
    (simp add: flag_bits RTS_CHANGED_def RTS_INTERFACE_def IFF_INTERFACE_def bit_simps)

lemma rtadd_entry_external:
  assumes "rtadd_entry ifs p d g m 0 = (host, rt)"
  shows "\<not> has (rt_state rt) RTS_INTERNAL"
proof -
  have "\<not> has RTS_SUBNET RTS_INTERNAL" "\<not> has RTS_CHANGED RTS_INTERNAL"
    by (simp_all add: flag_bits RTS_SUBNET_def IFF_SUBNET_def RTS_CHANGED_def)
  with assms show ?thesis by (auto simp: rtadd_entry_def Let_def has_or split: if_splits)
qed

lemma rtlookup_rtchange:
  "\<exists>f. (\<forall>e. has (rt_state (f e)) RTS_INTERNAL = has (rt_state e) RTS_INTERNAL)
     \<and> rtlookup (rtchange E p g m s) = map_option f \<circ> rtlookup s"
proof (cases "rt_get s p")
  case None
  then show ?thesis
    by (intro exI [of _ "\<lambda>e. e"]) (simp add: rtchange_def fun_eq_iff option.map_ident)
next
  case (Some e)
  obtain a dl where plan: "rtchange_plan E e g (to_short m) = (a, dl)" by fastforce
  let ?f = "at_ptr p (rtchange_entry (ifnet s) a dl g (to_short m))"
  have "rtlookup (rtchange E p g m s) d = map_option ?f (rtlookup s d)" for d
    using Some plan by (cases a; cases dl) (simp_all add: rtchange_def Let_def frame_simps rtlookup_update)
  moreover have "has (rt_state (?f e)) RTS_INTERNAL = has (rt_state e) RTS_INTERNAL" for e
    by (simp add: at_ptr_def rtchange_entry_internal)
  ultimately show ?thesis by (intro exI [of _ ?f]) (simp add: fun_eq_iff)
qed

lemma learnable_take:
  assumes d: "learnable s d" and v: "takable E d' v s"
  shows "learnable (take_route E d' v s) d"
proof (cases "rtlookup s d'")
  case None
  obtain rt where rt: "rtadd_entry (ifnet s) (next_ptr s) d' (fst v) (snd v) 0 = (has (rt_flags rt) RTF_HOST, rt)"
    and look: "rtlookup (rtadd E d' (fst v) (snd v) 0 s) = (rtlookup s)(d' \<mapsto> rt)"
    by (rule rtadd_lookup [of E d' s "fst v" "snd v" 0])
      (use v None in \<open>auto simp: takable_def learnable_def\<close>)
  show ?thesis
    using d None look rtadd_entry_external [OF rt] by (simp add: learnable_def take_route_def)
next
  case (Some e)
  obtain f where "\<forall>e. has (rt_state (f e)) RTS_INTERNAL = has (rt_state e) RTS_INTERNAL"
    and "rtlookup (rtchange E (rt_ptr e) (fst v) (snd v) s) = map_option f \<circ> rtlookup s"
    using rtlookup_rtchange by blast
  with d Some show ?thesis
    by (auto simp: learnable_def take_route_def split: option.splits)
qed

lemma routes_take:
  assumes ok: "routed_ok s" and v: "takable E d v s"
  shows "routes (take_route E d v s) = (routes s)(d \<mapsto> v)"
proof (cases "rtlookup s d")
  case None
  with v have "vector (rtadd E d (fst v) (snd v) 0 s) = (vector s)(d \<mapsto> (fst v, snd v, 0))"
    by (intro vector_rtadd) (auto simp: takable_def learnable_def)
  with None show ?thesis by (simp add: routes_def fun_eq_iff take_route_def gateway_metric_def)
next
  case (Some e)
  with v have "\<not> has (rt_state e) RTS_INTERNAL" "metric_ok (snd v)"
    by (auto simp: takable_def learnable_def)
  then have "vector (rtchange E (rt_ptr e) (fst v) (snd v) s) = (vector s)(d \<mapsto> (fst v, snd v, rt_timer e))"
    using rtchange_lookup [OF ok Some] by metis
  with Some show ?thesis by (simp add: routes_def fun_eq_iff take_route_def gateway_metric_def)
qed

lemma routed_ok_take: "routed_ok s \<Longrightarrow> takable E d v s \<Longrightarrow> routed_ok (take_route E d v s)"
  unfolding take_route_def takable_def by (intro ok_option) (auto intro: ok_intro)

interpretation rt: keyed_store routes "take_route E" routed_ok "takable E" for E
proof unfold_locales
  show "\<And>s k v. routed_ok s \<Longrightarrow> takable E k v s \<Longrightarrow> routes (take_route E k v s) = (routes s)(k \<mapsto> v)"
    by (rule routes_take)
  show "\<And>s k v. routed_ok s \<Longrightarrow> takable E k v s \<Longrightarrow> routed_ok (take_route E k v s)"
    by (rule routed_ok_take)
  show "\<And>s k v k' v'. routed_ok s \<Longrightarrow> takable E k v s \<Longrightarrow> takable E k' v' s \<Longrightarrow>
      takable E k v (take_route E k' v' s)"
    using learnable_take by (auto simp: takable_def)
qed

end
