(* ===== verification/Rip_Properties.thy ===== *)
theory Rip_Properties
  imports Rip_Vector
begin

text \<open>
  The properties of \<^verbatim>\<open>routed\<close>: what learning, sending, ageing and rejecting packets do to the
  distance vector, and the shape every reachable table has. A small network of one Ethernet
  interface serves as the concrete instance in the witnesses.
\<close>

section \<open>Sending the table\<close>

definition sent_nets :: "datagram list \<Rightarrow> netinfo list" where
  "sent_nets ds = concat (map (\<lambda>d. rip_nets (dg_rip d)) ds)"

definition offered :: "sockaddr \<Rightarrow> interface option \<Rightarrow> u32 \<Rightarrow> bool \<Rightarrow> rt_entry list \<Rightarrow> netinfo list" where
  "offered dst ifp rtstate host rts = map supply_entry (filter (\<lambda>rt. \<not> supply_skip dst ifp rtstate host rt) rts)"

text \<open>The interface through which the daemon only hears itself: one packet is enough there.\<close>

definition only_ourselves :: "interface option \<Rightarrow> bool" where
  "only_ourselves ifp =
     (case ifp of None \<Rightarrow> False
      | Some i \<Rightarrow> \<not> has (int_flags i) (IFF_BROADCAST OR IFF_POINTOPOINT OR IFF_REMOTE))"

definition fits :: "datagram \<Rightarrow> bool" where
  "fits d \<longleftrightarrow> rip_size (dg_rip d) \<le> MAXPACKETSIZE"

lemma supply_loop_sent:
  assumes "supply_loop E dst dr ifp st host rts n np s = (q, n', np', t)" and "length n \<le> 25"
  shows "\<exists>ds. t = s\<lparr>sent := sent s @ ds\<rparr> \<and> length n' \<le> 25 \<and> (\<forall>d\<in>set ds. fits d)
     \<and> (\<not> only_ourselves ifp \<longrightarrow>
         \<not> q \<and> sent_nets ds @ n' = n @ offered dst ifp st host rts \<and> (np' = 0 \<longrightarrow> ds = [] \<and> np = 0))"
  using assms
proof (induction E dst dr ifp st host rts n np s rule: supply_loop.induct)
  case (1 E dst dr ifp st host n np s)
  then show ?case by (auto simp: sent_nets_def offered_def intro!: exI [of _ "[]"])
next
  case (2 E dst dr ifp st host rt rts n np s)
  let ?full = "RIP_HEADER + NETINFO_SIZE * length n > MAXPACKETSIZE - NETINFO_SIZE"
  show ?case
  proof (cases "supply_skip dst ifp st host rt")
    case True
    with 2 show ?thesis by (simp add: offered_def)
  next
    case skip: False
    show ?thesis
    proof (cases ?full)
      case False
      then have "length (n @ [supply_entry rt]) \<le> 25"
        by (simp add: RIP_HEADER_def NETINFO_SIZE_def MAXPACKETSIZE_def)
      with skip False 2 show ?thesis by (simp add: offered_def)
    next
      case True
      obtain d where out: "inet_output E dr dst (response_packet n) s = s\<lparr>sent := sent s @ [d]\<rparr>"
        and d: "dg_rip d = response_packet n"
        by (simp add: inet_output_def Let_def)
      have fit: "fits d" using d "2.prems"(2)
        by (simp add: fits_def rip_size_def response_packet_def RIP_HEADER_def NETINFO_SIZE_def
            MAXPACKETSIZE_def)
      have nets: "rip_nets (dg_rip d) = n" using d by (simp add: response_packet_def)
      show ?thesis
      proof (cases "only_ourselves ifp")
        case our: True
        with skip True 2(4) out have "t = s\<lparr>sent := sent s @ [d]\<rparr>" "n' = n"
          by (auto simp: only_ourselves_def Let_def split: option.splits)
        with fit our "2.prems"(2) show ?thesis by (intro exI [of _ "[d]"]) simp
      next
        case our: False
        with skip True "2.prems" out
        have rest: "supply_loop E dst dr ifp st host rts [supply_entry rt] (Suc np) (s\<lparr>sent := sent s @ [d]\<rparr>)
            = (q, n', np', t)"
          by (auto simp: only_ourselves_def Let_def split: option.splits)
        have "\<exists>ds. t = s\<lparr>sent := sent s @ [d]\<rparr>\<lparr>sent := (sent s @ [d]) @ ds\<rparr> \<and> length n' \<le> 25
            \<and> (\<forall>d\<in>set ds. fits d)
            \<and> (\<not> only_ourselves ifp \<longrightarrow> \<not> q
               \<and> sent_nets ds @ n' = [supply_entry rt] @ offered dst ifp st host rts
               \<and> (np' = 0 \<longrightarrow> ds = [] \<and> Suc np = 0))"
          using "2.IH"(2) [OF skip True, of "s\<lparr>sent := sent s @ [d]\<rparr>"] rest out our
          by (auto simp: only_ourselves_def split: option.splits)
        then obtain ds where ds: "t = s\<lparr>sent := sent s @ d # ds\<rparr>" "length n' \<le> 25"
            "\<forall>d\<in>set ds. fits d" "\<not> q" "sent_nets ds @ n' = supply_entry rt # offered dst ifp st host rts"
            "np' = 0 \<longrightarrow> ds = [] \<and> Suc np = 0"
          using our by auto
        with skip fit nets show ?thesis
          by (intro exI [of _ "d # ds"]) (auto simp: sent_nets_def offered_def)
      qed
    qed
  qed
qed

lemma output_final:
  assumes "length n \<le> 25"
  obtains d where "inet_output E dr dst (response_packet n) s = s\<lparr>sent := sent s @ [d]\<rparr>"
    and "fits d" and "rip_nets (dg_rip d) = n"
  using assms
  by (auto simp: inet_output_def Let_def fits_def rip_size_def response_packet_def RIP_HEADER_def
      NETINFO_SIZE_def MAXPACKETSIZE_def)

lemma supply_routes_sent:
  "\<exists>ds. supply_routes E dst dr ifp st s = s\<lparr>sent := sent s @ ds\<rparr> \<and> (\<forall>d\<in>set ds. fits d)
     \<and> (\<not> only_ourselves ifp \<longrightarrow>
         sent_nets ds = offered dst ifp st True (host_rts s) @ offered dst ifp st False (net_rts s))"
proof -
  obtain q1 n1 np1 s1 where l1: "supply_loop E dst dr ifp st True (host_rts s) [] 0 s = (q1, n1, np1, s1)"
    by (rule prod_cases4)
  obtain ds1 where a: "s1 = s\<lparr>sent := sent s @ ds1\<rparr>" "length n1 \<le> 25" "\<forall>d\<in>set ds1. fits d"
    "\<not> only_ourselves ifp \<longrightarrow> \<not> q1 \<and> sent_nets ds1 @ n1 = offered dst ifp st True (host_rts s)"
    using supply_loop_sent [OF l1] by auto
  obtain q2 n2 np2 s2 where l2: "supply_loop E dst dr ifp st False (net_rts s) n1 np1 s1 = (q2, n2, np2, s2)"
    by (rule prod_cases4)
  obtain ds2 where b: "s2 = s1\<lparr>sent := sent s1 @ ds2\<rparr>" "length n2 \<le> 25" "\<forall>d\<in>set ds2. fits d"
    "\<not> only_ourselves ifp \<longrightarrow> \<not> q2 \<and> sent_nets ds2 @ n2 = n1 @ offered dst ifp st False (net_rts s)"
    using supply_loop_sent [OF l2 a(2)] by auto
  obtain d where d: "inet_output E dr dst (response_packet n2) s2 = s2\<lparr>sent := sent s2 @ [d]\<rparr>"
    "fits d" "rip_nets (dg_rip d) = n2"
    using output_final [OF b(2)] .
  define final where "final = (if n2 \<noteq> [] \<or> np2 = 0 \<and> st = 0 then [d] else [])"
  define ds where "ds = (if q1 then ds1 else if q2 then ds1 @ ds2 else ds1 @ ds2 @ final)"
  have run: "supply_routes E dst dr ifp st s = s\<lparr>sent := sent s @ ds\<rparr>"
    using d(1) by (cases q1; cases q2) (simp_all add: supply_routes_def l1 l2 [unfolded a(1)] a(1) ds_def final_def b(1))
  have small: "\<forall>d\<in>set ds. fits d"
    using a(3) b(3) d(2) by (auto simp: ds_def final_def)
  have last: "sent_nets final = n2" using d(3) by (auto simp: sent_nets_def final_def)
  have app: "sent_nets (xs @ ys) = sent_nets xs @ sent_nets ys" for xs ys
    by (simp add: sent_nets_def)
  have "\<not> only_ourselves ifp \<Longrightarrow> sent_nets ds1 @ sent_nets ds2 @ n2
      = offered dst ifp st True (host_rts s) @ offered dst ifp st False (net_rts s)"
    using a(4) b(4) by (metis append.assoc)
  then have nets: "\<not> only_ourselves ifp \<longrightarrow> sent_nets ds
      = offered dst ifp st True (host_rts s) @ offered dst ifp st False (net_rts s)"
    using a(4) b(4) by (simp add: ds_def app last)
  show ?thesis using run small nets by blast
qed

section \<open>The clock\<close>

definition ages :: "int \<Rightarrow> rt_entry \<Rightarrow> bool" where
  "ages sp e \<longleftrightarrow> \<not> has (rt_state e) RTS_PASSIVE \<and> (sp \<noteq> 0 \<or> \<not> has (rt_state e) RTS_INTERFACE)"

text \<open>What one tick makes of an entry: \<open>None\<close> is its deletion.\<close>

definition age_entry :: "rip_env \<Rightarrow> interface list \<Rightarrow> int \<Rightarrow> rt_entry \<Rightarrow> rt_entry option" where
  "age_entry E ifs sp e =
     (let t = (if ages sp e then rt_timer e + TIMER_RATE else rt_timer e);
          e1 = e\<lparr>rt_timer := t\<rparr>
      in if t \<ge> GARBAGE_TIME then None
         else let e2 = (if t \<ge> EXPIRE_TIME \<and> rt_metric e < HOPCNT_INFINITY
                        then rtchange_entry ifs False (\<not> has (rt_state e) RTS_INTERNAL)
                               (rt_router e) HOPCNT_INFINITY e1
                        else e1)
              in Some (e2\<lparr>rt_state := rt_state e2 AND NOT RTS_CHANGED\<rparr>))"

definition list_of :: "'a option \<Rightarrow> 'a list" where
  "list_of x = (case x of None \<Rightarrow> [] | Some y \<Rightarrow> [y])"

definition replace_at :: "nat \<Rightarrow> rt_entry option \<Rightarrow> rt_entry list \<Rightarrow> rt_entry list" where
  "replace_at p x es = concat (map (\<lambda>e. if rt_ptr e = p then list_of x else [e]) es)"

lemma replace_none: "replace_at p None es = filter (\<lambda>e. rt_ptr e \<noteq> p) es"
  by (induction es) (auto simp: replace_at_def list_of_def)

lemma replace_some: "replace_at p (Some y) es = map (\<lambda>e. if rt_ptr e = p then y else e) es"
  by (induction es) (auto simp: replace_at_def list_of_def)

lemma map_at_ptr_const:
  assumes "distinct (map rt_ptr es)" and "e \<in> set es"
  shows "map (at_ptr (rt_ptr e) f) es = map (\<lambda>x. if rt_ptr x = rt_ptr e then f e else x) es"
  using distinct_map_eq [OF assms(1) _ assms(2)] by (auto simp: at_ptr_def)

lemma filter_at_ptr:
  assumes "\<And>e. rt_ptr (h e) = rt_ptr e"
  shows "filter (\<lambda>e. rt_ptr e \<noteq> p) (map (at_ptr p h) es) = filter (\<lambda>e. rt_ptr e \<noteq> p) es"
  using assms by (induction es) (auto simp: at_ptr_def)

lemma all_rts_rtdelete: "all_rts (rtdelete E p s) = filter (\<lambda>e. rt_ptr e \<noteq> p) (all_rts s)"
proof (cases "rt_get s p")
  case None
  then have "filter (\<lambda>e. rt_ptr e \<noteq> p) (all_rts s) = all_rts s"
    by (auto simp: rt_get_def find_None_all intro: filter_True)
  with None show ?thesis by (simp add: rtdelete_def)
qed (simp add: rtdelete_def Let_def all_rts_remque frame_simps)

lemma all_rts_rtchange:
  "rt_get s p = Some e \<Longrightarrow> rtchange_plan E e g (to_short m) = (a, d) \<Longrightarrow>
   all_rts (rtchange E p g m s)
     = map (at_ptr p (rtchange_entry (ifnet s) a d g (to_short m))) (all_rts s)"
  by (simp add: rtchange_def Let_def frame_simps all_rts_update)

lemma timer_entry_rts:
  assumes ok: "routed_ok s" and e: "e \<in> set (all_rts s)"
  shows "all_rts (timer_entry E (rt_ptr e) s)
    = replace_at (rt_ptr e) (age_entry E (ifnet s) (supplier s) e) (all_rts s)"
proof -
  let ?p = "rt_ptr e"
  define t where "t = (if ages (supplier s) e then rt_timer e + TIMER_RATE else rt_timer e)"
  define s1 where "s1 = set_timer ?p t s"
  let ?e1 = "e\<lparr>rt_timer := t\<rparr>"
  let ?c = "\<lambda>e. e\<lparr>rt_state := rt_state e AND NOT RTS_CHANGED\<rparr>"
  let ?g = "rtchange_entry (ifnet s) False (\<not> has (rt_state e) RTS_INTERNAL) (rt_router e) HOPCNT_INFINITY"
  note dist = routed_okD(1) [OF ok]
  have rts1: "all_rts s1 = map (at_ptr ?p (\<lambda>e. e\<lparr>rt_timer := t\<rparr>)) (all_rts s)"
    by (simp add: s1_def set_timer_def all_rts_update)
  have if1: "ifnet s1 = ifnet s" by (simp add: s1_def set_timer_def frame_simps)
  have ok1: "routed_ok s1" using routed_ok_set_timer [OF ok] by (simp add: s1_def)
  have "?e1 \<in> set (all_rts s1)" using e by (force simp: rts1 at_ptr_def)
  then have get1: "rt_get s1 ?p = Some ?e1" using rt_get_unique [OF ok1] by fastforce
  have body: "timer_entry E ?p s =
      (if t \<ge> GARBAGE_TIME then rtdelete E ?p s1
       else rt_update ?p ?c
              (if t \<ge> EXPIRE_TIME \<and> rt_metric e < HOPCNT_INFINITY
               then rtchange E ?p (rt_router e) HOPCNT_INFINITY s1 else s1))"
    using rt_get_unique [OF ok e] by (simp add: timer_entry_def Let_def ages_def t_def s1_def)
  have del: "all_rts (rtdelete E ?p s1) = filter (\<lambda>e. rt_ptr e \<noteq> ?p) (all_rts s)"
    unfolding all_rts_rtdelete rts1 by (rule filter_at_ptr) simp
  have inf: "to_short HOPCNT_INFINITY = HOPCNT_INFINITY" by (simp add: HOPCNT_INFINITY_def to_short_small)
  have plan: "rtchange_plan E ?e1 (rt_router e) HOPCNT_INFINITY = (False, \<not> has (rt_state e) RTS_INTERNAL)"
    by (simp add: rtchange_plan_def Let_def)
  have change: "all_rts (rtchange E ?p (rt_router e) HOPCNT_INFINITY s1) = map (at_ptr ?p ?g) (all_rts s1)"
    by (rule all_rts_rtchange [OF get1, of E "rt_router e" HOPCNT_INFINITY, unfolded inf if1, OF plan])
  have aged: "age_entry E (ifnet s) (supplier s) e =
      (if t \<ge> GARBAGE_TIME then None
       else Some (?c (if t \<ge> EXPIRE_TIME \<and> rt_metric e < HOPCNT_INFINITY then ?g ?e1 else ?e1)))"
    by (simp add: age_entry_def Let_def t_def)
  have const: "map (at_ptr ?p h) (all_rts s) = replace_at ?p (Some (h e)) (all_rts s)" for h
    unfolding replace_some by (rule map_at_ptr_const [OF dist e])
  show ?thesis
  proof (cases "t \<ge> GARBAGE_TIME")
    case True
    then show ?thesis by (simp add: body del aged replace_none)
  next
    case False
    let ?set = "\<lambda>e. e\<lparr>rt_timer := t\<rparr>"
    show ?thesis
    proof (cases "t \<ge> EXPIRE_TIME \<and> rt_metric e < HOPCNT_INFINITY")
      case True
      with False have "all_rts (timer_entry E ?p s)
          = map (at_ptr ?p ?c) (map (at_ptr ?p ?g) (map (at_ptr ?p ?set) (all_rts s)))"
        by (simp only: body all_rts_update change rts1 if_False if_True simp_thms)
      also have "\<dots> = map (at_ptr ?p (\<lambda>e. ?c (?g (?set e)))) (all_rts s)"
        by (simp add: at_ptr_def)
      finally show ?thesis using True False by (simp only: const aged if_False if_True simp_thms)
    next
      case no: False
      with False have "all_rts (timer_entry E ?p s)
          = map (at_ptr ?p ?c) (map (at_ptr ?p ?set) (all_rts s))"
        by (simp only: body all_rts_update rts1 if_False)
      also have "\<dots> = map (at_ptr ?p (\<lambda>e. ?c (?set e))) (all_rts s)"
        by (simp add: at_ptr_def)
      finally show ?thesis using no False by (simp only: const aged if_False)
    qed
  qed
qed

lemma replace_at_split:
  "distinct (map rt_ptr (xs @ e # ys)) \<Longrightarrow> replace_at (rt_ptr e) x (xs @ e # ys) = xs @ list_of x @ ys"
proof -
  assume d: "distinct (map rt_ptr (xs @ e # ys))"
  have no: "replace_at p x zs = zs" if "p \<notin> rt_ptr ` set zs" for p zs
    using that by (induction zs) (auto simp: replace_at_def)
  have "replace_at p x (us @ vs) = replace_at p x us @ replace_at p x vs" for p us vs
    by (simp add: replace_at_def)
  moreover have "replace_at p x (e # zs) = (if rt_ptr e = p then list_of x else [e]) @ replace_at p x zs" for p zs
    by (simp add: replace_at_def)
  ultimately show ?thesis using d no [of "rt_ptr e" xs] no [of "rt_ptr e" ys] by auto
qed

lemma timer_entry_frame [frame_simps]:
  "ifnet (timer_entry E p s) = ifnet s" "supplier (timer_entry E p s) = supplier s"
  by (simp_all add: timer_entry_def Let_def frame_simps set_timer_def rtdelete_def rtchange_def
      split: option.split prod.split)

lemma age_entry_ptr: "age_entry E ifs sp e = Some e' \<Longrightarrow> rt_ptr e' = rt_ptr e"
  by (auto simp: age_entry_def Let_def split: if_splits)

lemma timer_fold:
  assumes "routed_ok s" and "all_rts s = done @ es"
  shows "all_rts (fold (timer_entry E) (map rt_ptr es) s)
    = done @ concat (map (\<lambda>e. list_of (age_entry E (ifnet s) (supplier s) e)) es)"
  using assms
proof (induction es arbitrary: s "done")
  case (Cons e es)
  have ok: "routed_ok (timer_entry E (rt_ptr e) s)" using Cons.prems(1) by (rule routed_ok_timer_entry)
  have dist: "distinct (map rt_ptr (done @ e # es))"
    using routed_okD(1) [OF Cons.prems(1)] by (simp add: Cons.prems(2))
  have "all_rts (timer_entry E (rt_ptr e) s)
      = (done @ list_of (age_entry E (ifnet s) (supplier s) e)) @ es"
    using timer_entry_rts [OF Cons.prems(1), of e E] replace_at_split [OF dist]
    by (simp add: Cons.prems(2))
  from Cons.IH [OF ok this] show ?case by (simp add: frame_simps)
qed simp

lemma timer_fold_rts:
  "routed_ok s \<Longrightarrow> all_rts (fold (timer_entry E) (map rt_ptr (all_rts s)) s)
    = concat (map (\<lambda>e. list_of (age_entry E (ifnet s) (supplier s) e)) (all_rts s))"
  using timer_fold [of s "[]" "all_rts s" E] by simp

lemma timer_rts:
  assumes ok: "routed_ok s" and no: "\<not> (lookforinterfaces s \<and> (faketime s + TIMER_RATE) mod CHECK_INTERVAL = 0)"
  shows "all_rts (timer E t ifc s)
    = concat (map (\<lambda>e. list_of (age_entry E (ifnet s) (supplier s) e)) (all_rts s))"
proof -
  let ?s1 = "s\<lparr>now := t, faketime := faketime s + TIMER_RATE\<rparr>"
  have same: "all_rts ?s1 = all_rts s" by (simp add: all_rts_def host_rts_def net_rts_def)
  have upd: "all_rts (u\<lparr>lastbcast := a, lastfullupdate := b, needupdate := c, nextbcast := d\<rparr>) = all_rts u"
    for u a b c d by (simp add: all_rts_def host_rts_def net_rts_def)
  have snd: "all_rts (toall (supply_routes E) 0 None u) = all_rts u" for u
    using only_sends_toall [of "supply_routes E" u 0 None] only_sends_supply
    by (auto simp: only_sends_def all_rts_def host_rts_def net_rts_def)
  have ok1: "routed_ok ?s1" using ok by (intro ok_intro)
  from timer_fold_rts [OF ok1, of E] show ?thesis
    using no by (auto simp: timer_def Let_def same upd snd)
qed

section \<open>A network to try things on\<close>

text \<open>
  One Ethernet, 192.168.1.1/24, on a host with a recent kernel; the daemon has just started.
\<close>

definition ip4 :: "u32 \<Rightarrow> sockaddr" where
  "ip4 a = \<lparr>sa_family = AF_INET, sin_port = 0, sin_addr = a, sin_zero = 0\<rparr>"

definition demo_env :: rip_env where
  "demo_env = \<lparr>rip_port = 520, kernel_version = 0x020200, install = True,
     ioctl_errno = (\<lambda>_ _. None), malloc_ok = (\<lambda>_. True)\<rparr>"

definition eth0 :: ifreq where
  "eth0 = \<lparr>ifr_addr = ip4 0xC0A80101, ifr_flags = Some (IFF_UP OR IFF_BROADCAST), ifr_dstaddr = None,
     ifr_broadaddr = Some (ip4 0xC0A801FF), ifr_metric = None, ifr_netmask = Some 0xFFFFFF00\<rparr>"

definition blank :: routed where
  "blank = \<lparr>ifnet = [], ifnext_head = True, hosthash = (\<lambda>_. []), nethash = (\<lambda>_. []), next_ptr = 0,
     kreqs = [], sent = [], supplier = -1, foundloopback = False, loopaddr = ip4 0,
     now = \<lparr>tv_sec = 100, tv_usec = 0\<rparr>, lastbcast = \<lparr>tv_sec = 0, tv_usec = 0\<rparr>,
     lastfullupdate = \<lparr>tv_sec = 0, tv_usec = 0\<rparr>, nextbcast = \<lparr>tv_sec = 0, tv_usec = 0\<rparr>,
     needupdate = 0, faketime = 0, lookforinterfaces = True, externalinterfaces = 0, tracing = []\<rparr>"

definition demo :: routed where
  "demo = startup demo_env [eth0] [] False blank"

text \<open>The same host after its neighbour 192.168.1.2 announced network 10 at distance 3.\<close>

definition demo2 :: routed where
  "demo2 = snd (learn_route demo_env (ip4 0xC0A80102) (ip4 0x0A000000) 3 demo)"

lemma demo_reachable: "reachable demo_env demo"
  unfolding demo_def
  by (rule reachable_start) (simp_all add: blank_def eth0_def ifreq_ok_def)

lemma demo_ok: "routed_ok demo" "routed_ok demo2"
  using reachable_ok [OF demo_reachable]
  by (auto simp: demo2_def metric_ok_def HOPCNT_INFINITY_def intro!: routed_ok_learn)

lemma demo_accepting: "accepting demo_env"
  by (simp add: accepting_def demo_env_def)

section \<open>Properties\<close>



text \<open>The hashed lookup is a search by destination: what it returns is an entry of the table for
  exactly that destination, and it finds one whenever the table has an entry for the destination
  whose hash is the one the present interfaces give its address.\<close>

theorem rtlookup_correct:
  assumes "reachable E s"
  shows "(\<forall>d e. rtlookup s d = Some e \<longrightarrow> e \<in> set (all_rts s) \<and> rt_dst e = d)
    \<and> (\<forall>e\<in>set (all_rts s). hash_current s e \<longrightarrow> rtlookup s (rt_dst e) \<noteq> None)"
  using rtlookup_complete [OF reachable_ok [OF assms]] rtlookup_Some by blast

theorem rtlookup_correct_witness:
  "rtlookup demo (ip4 0xC0A80100) \<noteq> None"
proof -
  let ?e = "hd (all_rts demo)"
  have "all_rts demo \<noteq> [] \<and> hash_current demo ?e \<and> rt_dst ?e = ip4 0xC0A80100" by code_simp
  then show ?thesis using rtlookup_correct [OF demo_reachable] hd_in_set by metis
qed

text \<open>C2: what the daemon does with one acceptable entry of a response is the distance vector step
  on the map from destinations to (gateway, metric, age): it takes a new destination unless a
  covering route goes through the same gateway, follows its present gateway up and down, and
  changes to another gateway for a smaller metric, or for an equal one if the route has aged
  half way to expiry. It reports a change exactly if gateway or metric of the route changed.\<close>

theorem learn_route_refines:
  assumes "routed_ok s" and "accepting E" and "metric_ok m" and "learnable s d"
  shows "vector (snd (learn_route E g d m s))
      = (vector s)(d := dv_step g m (covered_by s g d) (vector s d))
    \<and> (fst (learn_route E g d m s) \<longleftrightarrow>
        gateway_metric (dv_step g m (covered_by s g d) (vector s d)) \<noteq> gateway_metric (vector s d))"
proof (cases "rtlookup s d")
  case None
  then have "vector s d = None" by (simp add: vector_def)
  with learn_new [OF assms(2) _ None, of g m] assms(4) show ?thesis
    by (simp add: learnable_def dv_step_def gateway_metric_def)
next
  case (Some e)
  with assms(4) have "\<not> has (rt_state e) RTS_INTERNAL" by (simp add: learnable_def)
  from learn_known [OF assms(1,3) Some this] show ?thesis by blast
qed

theorem learn_route_refines_witness:
  "vector demo2 (ip4 0x0A000000) = Some (ip4 0xC0A80102, 3, 0)"
proof -
  have "learnable demo (ip4 0x0A000000)" by code_simp
  moreover have "metric_ok 3" by (simp add: metric_ok_def HOPCNT_INFINITY_def)
  ultimately have "vector demo2 (ip4 0x0A000000)
      = dv_step (ip4 0xC0A80102) 3 (covered_by demo (ip4 0xC0A80102) (ip4 0x0A000000))
          (vector demo (ip4 0x0A000000))"
    using learn_route_refines [OF demo_ok(1) demo_accepting] by (simp add: demo2_def)
  also have "\<dots> = Some (ip4 0xC0A80102, 3, 0)" by code_simp
  finally show ?thesis .
qed

text \<open>Taking routes one after the other leaves exactly the last route taken for every destination,
  and the routes to all other destinations as they were.\<close>

theorem routes_taken:
  assumes "routed_ok s" and "\<forall>(d, v)\<in>set dvs. takable E d v s"
  shows "routes (fold (\<lambda>(d, v). take_route E d v) dvs s) = routes s ++ map_of (rev dvs)"
  using assms by (rule rt.get_puts)

theorem routes_taken_witness:
  "routes (fold (\<lambda>(d, v). take_route demo_env d v)
       [(ip4 0x0A000000, (ip4 0xC0A80102, 3)), (ip4 0x0A000000, (ip4 0xC0A80103, 2))] demo) (ip4 0x0A000000)
     = Some (ip4 0xC0A80103, 2)"
proof -
  have "learnable demo (ip4 0x0A000000)" by code_simp
  then have "\<forall>(d, v)\<in>set [(ip4 0x0A000000, (ip4 0xC0A80102, 3)), (ip4 0x0A000000, (ip4 0xC0A80103, 2))].
      takable demo_env d v demo"
    by (simp add: takable_def demo_accepting metric_ok_def HOPCNT_INFINITY_def)
  from routes_taken [OF demo_ok(1) this] show ?thesis by simp
qed

text \<open>C15: sending the table changes nothing but the datagrams sent; each of them has at most 512 bytes,
  and together they hold exactly the entries that pass the filters of \<open>supply\<close>, hosts before
  networks and in table order, if the interface is one on which others listen.\<close>

theorem supply_sends:
  "\<exists>ds. supply_routes E dst dr ifp st s = s\<lparr>sent := sent s @ ds\<rparr>
     \<and> (\<forall>d\<in>set ds. rip_size (dg_rip d) \<le> 512)
     \<and> (\<not> only_ourselves ifp \<longrightarrow>
         sent_nets ds = offered dst ifp st True (host_rts s) @ offered dst ifp st False (net_rts s))"
  using supply_routes_sent [of E dst dr ifp st s] by (simp add: fits_def MAXPACKETSIZE_def)

theorem supply_sends_witness:
  "\<exists>ds. supply_routes demo_env (ip4 0xC0A80102) False None 0 demo2 = demo2\<lparr>sent := sent demo2 @ ds\<rparr>
     \<and> length (sent_nets ds) = 2"
proof -
  have "length (offered (ip4 0xC0A80102) None 0 True (host_rts demo2)
      @ offered (ip4 0xC0A80102) None 0 False (net_rts demo2)) = 2" by code_simp
  moreover have "\<not> only_ourselves None" by (simp add: only_ourselves_def)
  ultimately show ?thesis
    using supply_sends [of demo_env "ip4 0xC0A80102" False None 0 demo2] by metis
qed



text \<open>C14: one tick of the 30 second clock ages every entry of the table exactly once, however many
  entries it deletes on its way (unless the tick is one that looks for interfaces): entries that
  reach 240 seconds go, those that reach 180 get metric 16, the order of the rest stays.\<close>

theorem timer_ages_once:
  assumes "routed_ok s"
    and "\<not> (lookforinterfaces s \<and> (faketime s + TIMER_RATE) mod CHECK_INTERVAL = 0)"
  shows "all_rts (timer E t ifc s)
    = concat (map (\<lambda>e. list_of (age_entry E (ifnet s) (supplier s) e)) (all_rts s))"
  using assms by (rule timer_rts)

theorem timer_ages_once_witness:
  "map rt_timer (all_rts (timer demo_env \<lparr>tv_sec = 130, tv_usec = 0\<rparr> [] demo2)) \<in> {[30, 0], [0, 30]}"
proof -
  have no: "\<not> (lookforinterfaces demo2 \<and> (faketime demo2 + TIMER_RATE) mod CHECK_INTERVAL = 0)"
    by code_simp
  have "map rt_timer (concat (map (\<lambda>e. list_of (age_entry demo_env (ifnet demo2) (supplier demo2) e))
      (all_rts demo2))) \<in> {[30, 0], [0, 30]}" by code_simp
  with timer_ages_once [OF demo_ok(2) no] show ?thesis by metis
qed

section \<open>Routes that nobody refreshes\<close>

lemma timer_entry_frame2 [frame_simps]:
  "lookforinterfaces (timer_entry E p s) = lookforinterfaces s"
  by (simp add: timer_entry_def Let_def frame_simps set_timer_def rtdelete_def rtchange_def
      rt_update_def remque_def rtioctl_def split: option.split prod.split)

lemma timer_fold_frame:
  "ifnet (fold (timer_entry E) ps s) = ifnet s" "supplier (fold (timer_entry E) ps s) = supplier s"
  "lookforinterfaces (fold (timer_entry E) ps s) = lookforinterfaces s"
  by (induction ps arbitrary: s) (simp_all add: frame_simps)

lemma timer_frame:
  assumes "\<not> lookforinterfaces s"
  shows "supplier (timer E t ifc s) = supplier s \<and> lookforinterfaces (timer E t ifc s) = lookforinterfaces s"
proof -
  have "only_sends u (toall (supply_routes E) 0 None u)" for u
    by (simp add: only_sends_toall only_sends_supply)
  then have "supplier (toall (supply_routes E) 0 None u) = supplier u
      \<and> lookforinterfaces (toall (supply_routes E) 0 None u) = lookforinterfaces u" for u
    unfolding only_sends_def by (metis routed.select_convs(8,17) routed.surjective routed.update_convs(7))
  with assms show ?thesis by (simp add: timer_def Let_def timer_fold_frame)
qed

text \<open>An ageing entry after a tick: older by 30 seconds, younger than 240, and still ageing.\<close>

lemma age_entry_older:
  assumes "age_entry E ifs sp e = Some e'" and "ages sp e"
  shows "rt_timer e' = rt_timer e + TIMER_RATE \<and> rt_timer e' < GARBAGE_TIME \<and> ages sp e'"
proof -
  have clear: "has (w AND NOT v) m \<Longrightarrow> has w m" for w v m
    by (auto simp: has_iff_bit bit_simps)
  have no: "\<not> has RTS_CHANGED RTS_PASSIVE" "\<not> has RTS_CHANGED RTS_INTERFACE"
    by (simp_all add: flag_bits RTS_CHANGED_def)
  have keep: "has (rt_state (rtchange_entry ifs False d g m x)) RTS_PASSIVE \<Longrightarrow> has (rt_state x) RTS_PASSIVE"
    "has (rt_state (rtchange_entry ifs False d g m x)) RTS_INTERFACE \<Longrightarrow> has (rt_state x) RTS_INTERFACE"
    for d g m x
    by (auto simp: rtchange_entry_def Let_def has_or no dest: clear split: if_splits)
  from assms show ?thesis
    by (auto simp: age_entry_def Let_def ages_def split: if_splits dest!: clear keep)
qed

lemma alarms_ptrs:
  "routed_ok s \<Longrightarrow> \<not> lookforinterfaces s \<Longrightarrow>
   rt_ptr ` set (all_rts (fold (\<lambda>t. timer E t []) ts s)) \<subseteq> rt_ptr ` set (all_rts s)"
proof (induction ts arbitrary: s)
  case (Cons t ts)
  have "routed_ok (timer E t [] s)" using Cons.prems(1) by (rule routed_ok_timer) simp
  moreover have "\<not> lookforinterfaces (timer E t [] s)"
    using timer_frame [OF Cons.prems(2)] Cons.prems(2) by simp
  ultimately have "rt_ptr ` set (all_rts (fold (\<lambda>t. timer E t []) (t # ts) s))
      \<subseteq> rt_ptr ` set (all_rts (timer E t [] s))" using Cons.IH by simp
  moreover have rts: "all_rts (timer E t [] s)
      = concat (map (\<lambda>e. list_of (age_entry E (ifnet s) (supplier s) e)) (all_rts s))"
    using Cons.prems by (intro timer_rts) simp_all
  have "rt_ptr ` set (all_rts (timer E t [] s)) \<subseteq> rt_ptr ` set (all_rts s)"
    unfolding rts by (auto simp: list_of_def dest!: age_entry_ptr [OF sym] split: option.splits)
  ultimately show ?case by (rule subset_trans)
qed simp

lemma alarms_older:
  assumes "routed_ok s" "\<not> lookforinterfaces s" "e \<in> set (all_rts s)" "ages (supplier s) e"
    and "e' \<in> set (all_rts (fold (\<lambda>t. timer E t []) ts s))" "rt_ptr e' = rt_ptr e" "ts \<noteq> []"
  shows "rt_timer e' = rt_timer e + TIMER_RATE * int (length ts) \<and> rt_timer e' < GARBAGE_TIME"
  using assms
proof (induction ts arbitrary: s e)
  case (Cons t ts)
  let ?s = "timer E t [] s"
  have ok: "routed_ok ?s" using Cons.prems(1) by (rule routed_ok_timer) simp
  note fr = timer_frame [OF Cons.prems(2), of E t "[]"]
  have rts: "all_rts ?s = concat (map (\<lambda>e. list_of (age_entry E (ifnet s) (supplier s) e)) (all_rts s))"
    using Cons.prems(1,2) by (intro timer_rts) simp_all
  have from_old: "\<exists>x\<in>set (all_rts s). age_entry E (ifnet s) (supplier s) x = Some y" if "y \<in> set (all_rts ?s)" for y
    using that unfolding rts by (auto simp: list_of_def split: option.splits)
  have mine: "x = e" if "age_entry E (ifnet s) (supplier s) x = Some y" "x \<in> set (all_rts s)" "rt_ptr y = rt_ptr e" for x y
    using that age_entry_ptr [OF that(1)] Cons.prems(3)
      distinct_map_eq [OF routed_okD(1) [OF Cons.prems(1)]] by metis
  show ?case
  proof (cases "ts = []")
    case True
    with Cons.prems(5) have "e' \<in> set (all_rts ?s)" by simp
    then have "age_entry E (ifnet s) (supplier s) e = Some e'"
      using from_old mine Cons.prems(6) by metis
    from True age_entry_older [OF this Cons.prems(4)] show ?thesis by simp
  next
    case False
    have "rt_ptr e \<in> rt_ptr ` set (all_rts (fold (\<lambda>t. timer E t []) ts ?s))"
      using Cons.prems(5,6) by (simp add: rev_image_eqI)
    with alarms_ptrs [OF ok] fr Cons.prems(2) have "\<exists>y\<in>set (all_rts ?s). rt_ptr y = rt_ptr e"
      by fastforce
    then obtain y where y: "y \<in> set (all_rts ?s)" "rt_ptr y = rt_ptr e" by blast
    then have "age_entry E (ifnet s) (supplier s) e = Some y" using from_old mine by metis
    from age_entry_older [OF this Cons.prems(4)]
    have "rt_timer y = rt_timer e + TIMER_RATE" "ages (supplier ?s) y" using fr by auto
    moreover have "rt_timer e' = rt_timer y + TIMER_RATE * int (length ts) \<and> rt_timer e' < GARBAGE_TIME"
      using Cons.IH [OF ok _ y(1) calculation(2)] Cons.prems(2,5,6) fr y(2) False by simp
    ultimately show ?thesis by (simp add: algebra_simps)
  qed
qed simp

text \<open>C19: a route that ages and is never refreshed is gone from the table after eight ticks of the
  clock at the latest, whatever else the table holds.\<close>

theorem unrefreshed_route_dies:
  assumes "routed_ok s" and "\<not> lookforinterfaces s"
    and "e \<in> set (all_rts s)" and "ages (supplier s) e" and "0 \<le> rt_timer e" and "length ts = 8"
  shows "\<forall>e'\<in>set (all_rts (fold (\<lambda>t. timer E t []) ts s)). rt_ptr e' \<noteq> rt_ptr e"
proof (intro ballI notI)
  fix e' assume "e' \<in> set (all_rts (fold (\<lambda>t. timer E t []) ts s))" "rt_ptr e' = rt_ptr e"
  moreover have "ts \<noteq> []" using assms(6) by auto
  ultimately show False using alarms_older [OF assms(1-4), of e' E ts] assms(5,6)
    by (auto simp: TIMER_RATE_def GARBAGE_TIME_def)
qed

theorem unrefreshed_route_dies_witness:
  "1 \<notin> rt_ptr ` set (all_rts (fold (\<lambda>t. timer demo_env t []) (replicate 8 (now demo2)) demo2))"
proof -
  let ?e = "hd (filter (\<lambda>e. rt_ptr e = 1) (all_rts demo2))"
  have "\<not> lookforinterfaces demo2 \<and> ?e \<in> set (all_rts demo2) \<and> rt_ptr ?e = 1 \<and> 0 \<le> rt_timer ?e" by code_simp
  moreover have "ages (supplier demo2) ?e" by code_simp
  ultimately show ?thesis
    using unrefreshed_route_dies [OF demo_ok(2), of ?e "replicate 8 (now demo2)" demo_env] by auto
qed

section \<open>Packets from strangers\<close>

lemma gateway_metric_timer:
  "routed_ok s \<Longrightarrow> routes (set_timer p t s) = routes s"
proof
  fix d
  have "rtlookup (set_timer p t s) d = map_option (at_ptr p (\<lambda>e. e\<lparr>rt_timer := t\<rparr>)) (rtlookup s d)"
    unfolding set_timer_def by (rule rtlookup_update) simp_all
  then show "routes (set_timer p t s) d = routes s d"
    by (cases "rtlookup s d") (simp_all add: routes_def vector_def gateway_metric_def route_view_def at_ptr_def)
qed

lemma set_timer_frame [frame_simps]:
  "sent (set_timer p t s) = sent s" "kreqs (set_timer p t s) = kreqs s" "ifnet (set_timer p t s) = ifnet s"
  by (simp_all add: set_timer_def rt_update_def)

lemma iflookup_loop_keeps: "iflookup_loop ifs0 a (Some x) ifs \<noteq> None"
  by (induction ifs0 a "Some x" ifs rule: iflookup_loop.induct) auto

lemma iflookup_loop_None:
  "iflookup_loop ifs0 a maybe ifs = None \<Longrightarrow> i \<in> set ifs \<Longrightarrow> sa_family (int_addr i) = sa_family a \<Longrightarrow>
   \<not> (has (int_flags i) IFF_POINTOPOINT \<and> same (int_dstaddr i) a)"
  by (induction ifs0 a maybe ifs rule: iflookup_loop.induct)
    (auto simp: iflookup_loop_keeps split: if_splits)

text \<open>A response from a router that is on no network of this host, or that did not come from the
  routing port, is not believed: no route changes its gateway or metric, the kernel is asked for
  nothing, nothing is sent.\<close>

theorem stranger_ignored:
  assumes "routed_ok s" and "rip_cmd r = RIPCMD_RESPONSE"
    and "\<forall>i\<in>set (ifnet s). sa_family (int_addr i) = AF_INET"
    and "\<not> inet_portmatch (rip_port E) sender
         \<or> if_ifwithaddr (ifnet s) (inet_canon sender) = None \<and> if_iflookup (ifnet s) (inet_canon sender) = None"
  shows "routes (rip_input E rnd sender r s) = routes s \<and> kreqs (rip_input E rnd sender r s) = kreqs s
    \<and> sent (rip_input E rnd sender r s) = sent s"
proof (cases "af_known (sa_family sender) \<and> inet_portmatch (rip_port E) sender")
  case False
  then show ?thesis using assms(2)
    by (auto simp: rip_input_def rip_response_def RIPCMD_RESPONSE_def RIPCMD_REQUEST_def
        RIPCMD_TRACEON_def RIPCMD_TRACEOFF_def)
next
  case True
  let ?from = "inet_canon sender"
  have fam: "sa_family ?from = AF_INET" using True by (simp add: inet_canon_def af_known_def)
  have none: "if_ifwithaddr (ifnet s) ?from = None" "if_iflookup (ifnet s) ?from = None"
    using assms(4) True by auto
  have dst: "if_ifwithdstaddr (ifnet s) ?from = None"
    using none(2) fam iflookup_loop_None [of "ifnet s" ?from None "ifnet s"] assms(3)
    by (auto simp: if_ifwithdstaddr_def find_None_iff if_iflookup_def af_known_def)
  have resp: "rip_response E sender r s = (None, refresh_sender E ?from s)"
    and "refresh_sender E ?from s = s \<or> (\<exists>p. refresh_sender E ?from s = set_timer p 0 s)"
    using True none dst
    by (auto simp: rip_response_def Let_def refresh_sender_def frame_simps split: option.split)
  then show ?thesis using assms(2) True gateway_metric_timer [OF assms(1)]
    by (auto simp: rip_input_def frame_simps RIPCMD_RESPONSE_def RIPCMD_REQUEST_def
        RIPCMD_TRACEON_def RIPCMD_TRACEOFF_def)
qed

theorem stranger_ignored_witness:
  "routes (rip_input demo_env 0 ((ip4 0x0B000001)\<lparr>sin_port := 520\<rparr>)
      \<lparr>rip_cmd = 2, rip_vers = 1, rip_nets = [\<lparr>rip_dst = ip4 0x0C000000, rip_metric = 1\<rparr>], rip_tail = 0\<rparr> demo)
    = routes demo"
proof -
  let ?a = "(ip4 0x0B000001)\<lparr>sin_port := 520\<rparr>"
  let ?r = "\<lparr>rip_cmd = 2, rip_vers = 1, rip_nets = [\<lparr>rip_dst = ip4 0x0C000000, rip_metric = 1\<rparr>], rip_tail = 0\<rparr>"
  have "rip_cmd ?r = RIPCMD_RESPONSE" by (simp add: RIPCMD_RESPONSE_def)
  moreover have "\<forall>i\<in>set (ifnet demo). sa_family (int_addr i) = AF_INET" by code_simp
  moreover have "if_ifwithaddr (ifnet demo) (inet_canon ?a) = None
      \<and> if_iflookup (ifnet demo) (inet_canon ?a) = None" by code_simp
  ultimately show ?thesis using stranger_ignored [OF demo_ok(1), of ?r demo_env ?a 0] by blast
qed

section \<open>Two corners\<close>

text \<open>A sum of microseconds of exactly one second is not carried.\<close>

lemma timevaladd_million:
  "timevaladd \<lparr>tv_sec = 2, tv_usec = 400000\<rparr> \<lparr>tv_sec = 7, tv_usec = 600000\<rparr>
     = \<lparr>tv_sec = 9, tv_usec = 1000000\<rparr>"
  by (simp add: timevaladd_def)

text \<open>Port 1024 counts as a privileged one.\<close>

lemma portcheck_1024: "inet_portcheck ((ip4 0xC0A80102)\<lparr>sin_port := 1024\<rparr>)"
  by (simp add: inet_portcheck_def IPPORT_RESERVED_def)

end
