(* ===== verification/Tftp_Buffers.thy ===== *)
theory Tftp_Buffers
  imports Netkit_Prelude
begin

text \<open>
  The double buffering that the TFTP client and server share (\<^verbatim>\<open>tftpsubs.c\<close>): a file is read one
  packet ahead of the network, or written one packet behind it, with the conversion from and to
  netascii on the way.

  Index 0 of \<open>bfs\<close> is \<open>False\<close>, index 1 is \<open>True\<close>, so \<open>!current\<close> is negation. A pointer to a
  packet is the index of its buffer: the code's \<open>dp\<close> is always the one of \<open>current\<close>. A buffer has
  the header as the code reads it, in host order, and its data bytes. \<open>prevchar\<close> is \<open>None\<close> for -1.
\<close>

section \<open>Buffers\<close>

definition SEGSIZE :: nat where "SEGSIZE = 512"

definition BF_ALLOC :: int where "BF_ALLOC = -3"
definition BF_FREE :: int where "BF_FREE = -2"

definition LF :: u8 where "LF = 10"
definition CR :: u8 where "CR = 13"

record bf =
  counter :: int
  th_opcode :: u16
  th_block :: u16
  th_data :: "u8 list"

record rw =
  bfs :: "bool \<Rightarrow> bf"
  nextone :: bool
  current :: bool
  newline :: bool
  prevchar :: "u8 option"

definition set_counter :: "bool \<Rightarrow> int \<Rightarrow> rw \<Rightarrow> rw" where
  "set_counter i n s = s\<lparr>bfs := (bfs s)(i := (bfs s i)\<lparr>counter := n\<rparr>)\<rparr>"

text \<open>Before the first call the buffers hold zeros.\<close>

definition bfs_zero :: "bool \<Rightarrow> bf" where
  "bfs_zero = (\<lambda>_. \<lparr>counter = 0, th_opcode = 0, th_block = 0, th_data = []\<rparr>)"

definition rw_init :: "(bool \<Rightarrow> bf) \<Rightarrow> bool \<Rightarrow> rw" where
  "rw_init b x =
     \<lparr>bfs = b(False := (b False)\<lparr>counter := BF_ALLOC\<rparr>, True := (b True)\<lparr>counter := BF_FREE\<rparr>),
      nextone = x, current = False, newline = False, prevchar = None\<rparr>"

definition w_init :: "(bool \<Rightarrow> bf) \<Rightarrow> rw" where "w_init b = rw_init b False"
definition r_init :: "(bool \<Rightarrow> bf) \<Rightarrow> rw" where "r_init b = rw_init b True"

section \<open>Reading ahead\<close>

text \<open>
  A file that is read: the bytes left, and whether reading it fails. \<open>getc\<close> returns \<open>EOF\<close> at the
  end of the file and on an error alike.
\<close>

record rfile =
  rf_rest :: "u8 list"
  rf_fail :: bool

text \<open>The conversion loop, for at most \<open>n\<close> more bytes of the buffer.\<close>

fun fill_ascii ::
  "nat \<Rightarrow> bool \<Rightarrow> u8 option \<Rightarrow> u8 list \<Rightarrow> u8 list \<times> bool \<times> u8 option \<times> u8 list" where
  "fill_ascii 0 nl pc rest = ([], nl, pc, rest)"
| "fill_ascii (Suc n) nl pc rest =
     (if nl then
        (let (d, r) = fill_ascii n False pc rest
         in ((if pc = Some LF then LF else 0) # d, r))
      else case rest of
             [] \<Rightarrow> ([], nl, pc, rest)
           | c # cs \<Rightarrow>
               if c = LF \<or> c = CR
               then (let (d, r) = fill_ascii n True (Some c) cs in (CR # d, r))
               else (let (d, r) = fill_ascii n False pc cs in (c # d, r)))"

definition read_ahead :: "bool \<Rightarrow> rfile \<times> rw \<Rightarrow> rfile \<times> rw" where
  "read_ahead convert = (\<lambda>(f, s).
     if counter (bfs s (nextone s)) \<noteq> BF_FREE then (f, s)
     else let i = nextone s; s1 = s\<lparr>nextone := \<not> nextone s\<rparr> in
       if \<not> convert then
         (if rf_fail f then (f, set_counter i (-1) s1)
          else (f\<lparr>rf_rest := drop SEGSIZE (rf_rest f)\<rparr>,
                s1\<lparr>bfs := (bfs s1)(i := (bfs s1 i)\<lparr>counter := int (min SEGSIZE (length (rf_rest f))),
                                                th_data := take SEGSIZE (rf_rest f)\<rparr>)\<rparr>))
       else let (d, nl, pc, rest) =
                  fill_ascii SEGSIZE (newline s) (prevchar s) (if rf_fail f then [] else rf_rest f)
            in (if rf_fail f then f else f\<lparr>rf_rest := rest\<rparr>,
                s1\<lparr>bfs := (bfs s1)(i := (bfs s1 i)\<lparr>counter := int (length d), th_data := d\<rparr>),
                   newline := nl, prevchar := pc\<rparr>))"

text \<open>The result is the counter of the new current buffer.\<close>

definition readit :: "bool \<Rightarrow> rfile \<times> rw \<Rightarrow> int \<times> rfile \<times> rw" where
  "readit convert = (\<lambda>(f, s).
     let s1 = (set_counter (current s) BF_FREE s)\<lparr>current := \<not> current s\<rparr>;
         (f2, s2) = (if counter (bfs s1 (current s1)) = BF_FREE
                     then read_ahead convert (f, s1) else (f, s1))
     in (counter (bfs s2 (current s2)), f2, s2))"

section \<open>Writing behind\<close>

text \<open>
  One turn of the loop over a netascii buffer: the byte before and the file so far. Going back one
  byte and writing over it replaces the last byte of the file.
\<close>

definition put_ascii :: "u8 \<Rightarrow> u8 option \<times> u8 list \<Rightarrow> u8 option \<times> u8 list" where
  "put_ascii c = (\<lambda>(pc, out).
     (Some c,
      if pc = Some CR then
        (if c = LF then butlast out @ [c] else if c = 0 then out else out @ [c])
      else out @ [c]))"

text \<open>A file that is written: its bytes so far, and how many more the disk takes.\<close>

record wfile =
  wf_data :: "u8 list"
  wf_room :: nat

definition write_behind :: "bool \<Rightarrow> wfile \<times> rw \<Rightarrow> int \<times> wfile \<times> rw" where
  "write_behind convert = (\<lambda>(f, s).
     let i = nextone s; b = bfs s i; count = counter b in
     if count < -1 then (0, f, s)
     else let s1 = (set_counter i BF_FREE s)\<lparr>nextone := \<not> nextone s\<rparr> in
       if count \<le> 0 then (-1, f, s1)
       else let bytes = take (nat count) (th_data b) in
         if \<not> convert then
           (int (min (length bytes) (wf_room f)),
            f\<lparr>wf_data := wf_data f @ take (wf_room f) bytes, wf_room := wf_room f - length bytes\<rparr>, s1)
         else let (pc, out) = fold put_ascii bytes (prevchar s, wf_data f);
                  room = wf_room f + length (wf_data f)
              in (count, f\<lparr>wf_data := take room out, wf_room := room - length out\<rparr>,
                  s1\<lparr>prevchar := pc\<rparr>))"

definition writeit :: "bool \<Rightarrow> int \<Rightarrow> wfile \<times> rw \<Rightarrow> int \<times> wfile \<times> rw" where
  "writeit convert ct = (\<lambda>(f, s).
     let s1 = (set_counter (current s) ct s)\<lparr>current := \<not> current s\<rparr>;
         (f2, s2) = (if counter (bfs s1 (current s1)) \<noteq> BF_FREE
                     then snd (write_behind convert (f, s1)) else (f, s1))
     in (ct, f2, set_counter (current s2) BF_ALLOC s2))"

text \<open>A packet received into the buffer that \<open>dp\<close> points to.\<close>

definition recv_into :: "u16 \<Rightarrow> u16 \<Rightarrow> u8 list \<Rightarrow> rw \<Rightarrow> rw" where
  "recv_into op blk data s =
     s\<lparr>bfs := (bfs s)(current s := (bfs s (current s))
                \<lparr>th_opcode := op, th_block := blk, th_data := data\<rparr>)\<rparr>"

section \<open>Netascii\<close>

fun netascii :: "u8 list \<Rightarrow> u8 list" where
  "netascii [] = []"
| "netascii (c # cs) =
     (if c = LF then CR # LF # netascii cs
      else if c = CR then CR # 0 # netascii cs
      else c # netascii cs)"

definition from_netascii :: "u8 list \<Rightarrow> u8 list" where
  "from_netascii bs = snd (fold put_ascii bs (None, []))"

lemma put_ascii_step:
  "put_ascii c (pc, out) =
     (Some c,
      if pc = Some CR then
        (if c = LF then butlast out @ [c] else if c = 0 then out else out @ [c])
      else out @ [c])"
  by (simp add: put_ascii_def)

lemma put_netascii:
  "pc \<noteq> Some CR \<Longrightarrow> \<exists>pc'. pc' \<noteq> Some CR \<and> fold put_ascii (netascii xs) (pc, out) = (pc', out @ xs)"
proof (induction xs arbitrary: pc out)
  case (Cons c cs)
  have cr: "CR \<noteq> LF" "CR \<noteq> 0" "(0::u8) \<noteq> LF" by (simp_all add: CR_def LF_def)
  define p where "p = (if c = LF then LF else if c = CR then 0 else c)"
  have "Some p \<noteq> Some CR" using cr by (simp add: p_def)
  then obtain pc' where "pc' \<noteq> Some CR"
    "fold put_ascii (netascii cs) (Some p, out @ [c]) = (pc', (out @ [c]) @ cs)"
    using Cons.IH by blast
  then show ?case using Cons.prems cr
    by (intro exI [of _ pc']) (auto simp: put_ascii_step p_def split: if_splits)
qed auto

lemma from_netascii_inverse: "from_netascii (netascii xs) = xs"
  using put_netascii [of None xs "[]"] by (auto simp: from_netascii_def)

text \<open>What a reader of the file still has to produce.\<close>

definition unfilled :: "bool \<Rightarrow> bool \<Rightarrow> u8 option \<Rightarrow> u8 list \<Rightarrow> u8 list" where
  "unfilled convert nl pc rest =
     (if convert then (if nl then [if pc = Some LF then LF else 0] else []) @ netascii rest else rest)"

lemma fill_ascii_stream:
  "fill_ascii n nl pc rest = (d, nl', pc', rest') \<Longrightarrow>
   d = take n (unfilled True nl pc rest) \<and> unfilled True nl' pc' rest' = drop n (unfilled True nl pc rest)"
proof (induction n nl pc rest arbitrary: d rule: fill_ascii.induct)
  case (2 n nl pc rest)
  show ?case
  proof (cases nl)
    case True
    with "2.prems" obtain d1 where "fill_ascii n False pc rest = (d1, nl', pc', rest')"
      "d = (if pc = Some LF then LF else 0) # d1"
      by (auto split: prod.splits)
    with "2.IH"(1) [OF True] True show ?thesis by (simp add: unfilled_def)
  next
    case False
    show ?thesis
    proof (cases rest)
      case Nil
      with "2.prems" False show ?thesis by (auto simp: unfilled_def)
    next
      case (Cons c cs)
      show ?thesis
      proof (cases "c = LF \<or> c = CR")
        case True
        with "2.prems" False Cons obtain d1 where "fill_ascii n True (Some c) cs = (d1, nl', pc', rest')"
          "d = CR # d1"
          by (auto split: prod.splits)
        with "2.IH"(2) [OF False Cons True] False Cons True show ?thesis
          by (auto simp: unfilled_def CR_def LF_def)
      next
        case no: False
        with "2.prems" False Cons obtain d1 where "fill_ascii n False pc cs = (d1, nl', pc', rest')"
          "d = c # d1"
          by (auto split: prod.splits)
        with "2.IH"(3) [OF False Cons no] False Cons no show ?thesis
          by (auto simp: unfilled_def)
      qed
    qed
  qed
qed auto


section \<open>A source of segments\<close>

text \<open>
  The contract of a routine that hands out a stream in segments: each fetch returns the next 512
  bytes of what is left and leaves the rest; running ahead changes nothing of what is left.
\<close>

definition segment :: "nat \<Rightarrow> u8 list \<Rightarrow> u8 list" where
  "segment k xs = take SEGSIZE (drop (k * SEGSIZE) xs)"

locale segment_source =
  fixes fetch :: "'s \<Rightarrow> u8 list \<times> 's"
    and ahead :: "'s \<Rightarrow> 's"
    and left :: "'s \<Rightarrow> u8 list"
    and ok :: "'s \<Rightarrow> bool"
  assumes fetch_next: "ok s \<Longrightarrow> fst (fetch s) = take SEGSIZE (left s)"
    and fetch_left: "ok s \<Longrightarrow> left (snd (fetch s)) = drop SEGSIZE (left s)"
    and fetch_ok: "ok s \<Longrightarrow> ok (snd (fetch s))"
    and ahead_left: "ok s \<Longrightarrow> left (ahead s) = left s"
    and ahead_ok: "ok s \<Longrightarrow> ok (ahead s)"
begin

text \<open>However often it runs ahead in between, the fetches return the segments in order.\<close>

lemma aheads: "ok s \<Longrightarrow> left ((ahead ^^ n) s) = left s \<and> ok ((ahead ^^ n) s)"
  by (induction n) (simp_all add: ahead_left ahead_ok)

fun fetches :: "nat list \<Rightarrow> 's \<Rightarrow> u8 list list" where
  "fetches [] s = []"
| "fetches (n # ns) s = (let (d, s') = fetch ((ahead ^^ n) s) in d # fetches ns s')"

lemma fetches_segments:
  "ok s \<Longrightarrow> fetches ns s = map (\<lambda>k. segment k (left s)) [0..<length ns]"
proof (induction ns arbitrary: s)
  case (Cons n ns)
  let ?s = "(ahead ^^ n) s"
  have a: "left ?s = left s" "ok ?s" using aheads [OF Cons.prems] by simp_all
  have "fetches ns (snd (fetch ?s)) = map (\<lambda>k. segment k (drop SEGSIZE (left s))) [0..<length ns]"
    using Cons.IH [OF fetch_ok [OF a(2)]] fetch_left [OF a(2)] a(1) by simp
  moreover have "segment k (drop SEGSIZE xs) = segment (Suc k) xs" for k xs
    by (simp add: segment_def add.commute)
  moreover have "[0..<length (n # ns)] = 0 # map Suc [0..<length ns]"
    by (simp only: length_Cons upt_conv_Cons [OF zero_less_Suc] map_Suc_upt)
  ultimately show ?case
    using fetch_next [OF a(2)] a(1) by (simp add: split_def segment_def [of 0] comp_def)
qed simp

end

section \<open>The reader as a source\<close>

text \<open>
  While a file is read, the buffer not in use is empty and the next to be filled, or it is filled
  already, with a whole segment unless the file has ended, and the one in use will be the next.
\<close>

definition reading :: "bool \<Rightarrow> rfile \<times> rw \<Rightarrow> bool" where
  "reading convert = (\<lambda>(f, s). \<not> rf_fail f \<and> counter (bfs s (current s)) \<noteq> BF_FREE \<and>
     (let b = bfs s (\<not> current s) in
      counter b = BF_FREE \<and> nextone s = (\<not> current s)
      \<or> counter b = int (length (th_data b)) \<and> length (th_data b) \<le> SEGSIZE
         \<and> (length (th_data b) < SEGSIZE \<longrightarrow> unfilled convert (newline s) (prevchar s) (rf_rest f) = [])
         \<and> nextone s = current s))"

definition unread :: "bool \<Rightarrow> rfile \<times> rw \<Rightarrow> u8 list" where
  "unread convert = (\<lambda>(f, s).
     (if counter (bfs s (\<not> current s)) = BF_FREE then [] else th_data (bfs s (\<not> current s)))
     @ unfilled convert (newline s) (prevchar s) (rf_rest f))"

definition fetch :: "bool \<Rightarrow> rfile \<times> rw \<Rightarrow> u8 list \<times> rfile \<times> rw" where
  "fetch convert st =
     (let (n, f, s) = readit convert st in (th_data (bfs s (current s)), f, s))"

text \<open>Filling the next buffer, if it is free.\<close>

lemma read_ahead_fills:
  assumes "counter (bfs s i) = BF_FREE" and "nextone s = i" and "\<not> rf_fail f"
    and r: "read_ahead convert (f, s) = (f', s')"
  shows "th_data (bfs s' i) = take SEGSIZE (unfilled convert (newline s) (prevchar s) (rf_rest f))"
    and "counter (bfs s' i) = int (length (th_data (bfs s' i)))"
    and "unfilled convert (newline s') (prevchar s') (rf_rest f')
      = drop SEGSIZE (unfilled convert (newline s) (prevchar s) (rf_rest f))"
    and "bfs s' (\<not> i) = bfs s (\<not> i)" "current s' = current s" "nextone s' = (\<not> i)" "\<not> rf_fail f'"
proof -
  obtain d nl pc rest where fill: "fill_ascii SEGSIZE (newline s) (prevchar s) (rf_rest f) = (d, nl, pc, rest)"
    by (metis prod_cases4)
  note st = fill_ascii_stream [OF fill]
  have ascii: "read_ahead True (f, s) =
      (f\<lparr>rf_rest := rest\<rparr>,
       s\<lparr>nextone := \<not> i, newline := nl, prevchar := pc,
         bfs := (bfs s)(i := (bfs s i)\<lparr>counter := int (length d), th_data := d\<rparr>)\<rparr>)"
    using assms(1,3) fill by (simp add: read_ahead_def Let_def assms(2))
  have octet: "read_ahead False (f, s) =
      (f\<lparr>rf_rest := drop SEGSIZE (rf_rest f)\<rparr>,
       s\<lparr>nextone := \<not> i,
         bfs := (bfs s)(i := (bfs s i)\<lparr>counter := int (min SEGSIZE (length (rf_rest f))),
                                      th_data := take SEGSIZE (rf_rest f)\<rparr>)\<rparr>)"
    using assms(1,3) by (simp add: read_ahead_def Let_def assms(2))
  have "th_data (bfs s' i) = take SEGSIZE (unfilled convert (newline s) (prevchar s) (rf_rest f))
      \<and> counter (bfs s' i) = int (length (th_data (bfs s' i)))
      \<and> unfilled convert (newline s') (prevchar s') (rf_rest f')
        = drop SEGSIZE (unfilled convert (newline s) (prevchar s) (rf_rest f))
      \<and> bfs s' (\<not> i) = bfs s (\<not> i) \<and> current s' = current s \<and> nextone s' = (\<not> i) \<and> \<not> rf_fail f'"
  proof (cases convert)
    case True
    then have "f' = fst (read_ahead True (f, s))" "s' = snd (read_ahead True (f, s))" using r by simp_all
    with True st assms(3) show ?thesis by (simp add: ascii)
  next
    case False
    then have "f' = fst (read_ahead False (f, s))" "s' = snd (read_ahead False (f, s))" using r by simp_all
    with False assms(3) show ?thesis by (simp add: octet unfilled_def min.commute)
  qed
  then show "th_data (bfs s' i) = take SEGSIZE (unfilled convert (newline s) (prevchar s) (rf_rest f))"
    "counter (bfs s' i) = int (length (th_data (bfs s' i)))"
    "unfilled convert (newline s') (prevchar s') (rf_rest f')
      = drop SEGSIZE (unfilled convert (newline s) (prevchar s) (rf_rest f))"
    "bfs s' (\<not> i) = bfs s (\<not> i)" "current s' = current s" "nextone s' = (\<not> i)" "\<not> rf_fail f'"
    by blast+
qed

lemma reading_ahead:
  assumes "reading convert st"
  shows "reading convert (read_ahead convert st) \<and> unread convert (read_ahead convert st) = unread convert st"
proof -
  obtain f s where st: "st = (f, s)" by fastforce
  obtain f' s' where r: "read_ahead convert (f, s) = (f', s')" by fastforce
  show ?thesis
  proof (cases "counter (bfs s (\<not> current s)) = BF_FREE")
    case True
    with assms st have "nextone s = (\<not> current s)" "\<not> rf_fail f" "counter (bfs s (current s)) \<noteq> BF_FREE"
      by (auto simp: reading_def Let_def BF_FREE_def)
    from read_ahead_fills [OF True this(1,2) r] this(3) True st r show ?thesis
      by (auto simp: reading_def unread_def Let_def BF_FREE_def)
  next
    case False
    with assms st have "counter (bfs s (nextone s)) \<noteq> BF_FREE" by (auto simp: reading_def Let_def)
    then have "read_ahead convert st = st" by (simp add: st read_ahead_def)
    with assms show ?thesis by simp
  qed
qed

lemma readit_reads:
  assumes "reading convert st" and "readit convert st = (n, f', s')"
  shows "th_data (bfs s' (current s')) = take SEGSIZE (unread convert st)"
    and "n = int (length (th_data (bfs s' (current s'))))"
    and "unread convert (f', s') = drop SEGSIZE (unread convert st)"
    and "reading convert (f', s')"
proof -
  obtain f s where st: "st = (f, s)" by fastforce
  let ?c = "\<not> current s"
  let ?s1 = "(set_counter (current s) BF_FREE s)\<lparr>current := ?c\<rparr>"
  show "th_data (bfs s' (current s')) = take SEGSIZE (unread convert st)"
    and "n = int (length (th_data (bfs s' (current s'))))"
    and "unread convert (f', s') = drop SEGSIZE (unread convert st)"
    and "reading convert (f', s')"
  proof -
    have "th_data (bfs s' (current s')) = take SEGSIZE (unread convert st)
      \<and> n = int (length (th_data (bfs s' (current s'))))
      \<and> unread convert (f', s') = drop SEGSIZE (unread convert st) \<and> reading convert (f', s')"
    proof (cases "counter (bfs s ?c) = BF_FREE")
    case True
    obtain f2 s2 where r: "read_ahead convert (f, ?s1) = (f2, s2)" by fastforce
    have free: "counter (bfs ?s1 ?c) = BF_FREE" "nextone ?s1 = ?c" "\<not> rf_fail f"
      using True assms(1) st by (auto simp: reading_def Let_def set_counter_def BF_FREE_def)
    note fills = read_ahead_fills [OF free r]
    have res: "n = counter (bfs s2 (current s2))" "f' = f2" "s' = s2"
      using assms(2) st r free(1) by (auto simp: readit_def Let_def)
    show "th_data (bfs s' (current s')) = take SEGSIZE (unread convert st)
      \<and> n = int (length (th_data (bfs s' (current s'))))
      \<and> unread convert (f', s') = drop SEGSIZE (unread convert st) \<and> reading convert (f', s')"
      using fills True st res
      by (simp add: unread_def reading_def Let_def set_counter_def BF_FREE_def)
  next
    case False
    then have res: "n = counter (bfs s ?c)" "f' = f" "s' = ?s1"
      using assms(2) st by (auto simp: readit_def Let_def set_counter_def)
    with False assms(1) st
    show "th_data (bfs s' (current s')) = take SEGSIZE (unread convert st)
      \<and> n = int (length (th_data (bfs s' (current s'))))
      \<and> unread convert (f', s') = drop SEGSIZE (unread convert st) \<and> reading convert (f', s')"
      by (cases "length (th_data (bfs s ?c)) < SEGSIZE")
        (auto simp: unread_def reading_def Let_def set_counter_def BF_FREE_def)
    qed
    then show "th_data (bfs s' (current s')) = take SEGSIZE (unread convert st)"
      and "n = int (length (th_data (bfs s' (current s'))))"
      and "unread convert (f', s') = drop SEGSIZE (unread convert st)"
      and "reading convert (f', s')" by blast+
  qed
qed

interpretation rd: segment_source "fetch c" "read_ahead c" "unread c" "reading c" for c
proof unfold_locales
  fix st :: "rfile \<times> rw" assume ok: "reading c st"
  obtain n f s where r: "readit c st = (n, f, s)" by (metis prod_cases3)
  show "fst (fetch c st) = take SEGSIZE (unread c st)" "unread c (snd (fetch c st)) = drop SEGSIZE (unread c st)"
    "reading c (snd (fetch c st))"
    using readit_reads [OF ok r] r by (simp_all add: fetch_def)
  show "unread c (read_ahead c st) = unread c st" "reading c (read_ahead c st)"
    using reading_ahead [OF ok] by simp_all
qed

text \<open>A fresh reader has the whole file before it, converted.\<close>

lemma reading_init:
  "\<not> rf_fail f \<Longrightarrow> reading c (f, r_init b) \<and> unread c (f, r_init b) = (if c then netascii (rf_rest f) else rf_rest f)"
  by (simp add: reading_def unread_def r_init_def rw_init_def Let_def BF_FREE_def BF_ALLOC_def unfilled_def)


section \<open>A sink of segments\<close>

text \<open>
  The contract of a routine that takes segments: \<open>holds s bs\<close> says that \<open>bs\<close> is what it was given
  so far; writing behind at any time changes nothing of that, and at the end leaves in the file
  what the bytes decode to.
\<close>

locale segment_sink =
  fixes store :: "'h \<Rightarrow> u8 list \<Rightarrow> 's \<Rightarrow> 's"
    and behind :: "'s \<Rightarrow> 's"
    and holds :: "'s \<Rightarrow> u8 list \<Rightarrow> bool"
    and room :: "'s \<Rightarrow> nat"
    and contents :: "'s \<Rightarrow> u8 list"
    and decode :: "u8 list \<Rightarrow> u8 list"
  assumes store_holds: "holds s bs \<Longrightarrow> length d \<le> room s \<Longrightarrow> holds (store h d s) (bs @ d)"
    and store_room: "holds s bs \<Longrightarrow> length d \<le> room s \<Longrightarrow> room s - length d \<le> room (store h d s)"
    and behind_holds: "holds s bs \<Longrightarrow> holds (behind s) bs"
    and behind_room: "holds s bs \<Longrightarrow> room s \<le> room (behind s)"
    and behind_contents: "holds s bs \<Longrightarrow> contents (behind s) = decode bs"
begin

lemma behinds: "holds s bs \<Longrightarrow> holds ((behind ^^ n) s) bs \<and> room s \<le> room ((behind ^^ n) s)"
proof (induction n)
  case (Suc n)
  then show ?case using behind_holds behind_room by (metis funpow.simps(2) comp_apply order_trans)
qed simp

text \<open>
  Each segment comes with its header, after any number of calls that write behind.
\<close>

fun stores :: "(nat \<times> 'h \<times> u8 list) list \<Rightarrow> 's \<Rightarrow> 's" where
  "stores [] s = s"
| "stores ((n, h, d) # ds) s = stores ds (store h d ((behind ^^ n) s))"

abbreviation segments :: "(nat \<times> 'h \<times> u8 list) list \<Rightarrow> u8 list" where
  "segments ds \<equiv> concat (map (snd \<circ> snd) ds)"

lemma stores_contents:
  "holds s bs \<Longrightarrow> length (segments ds) \<le> room s \<Longrightarrow>
   contents (behind (stores ds s)) = decode (bs @ segments ds)"
proof (induction ds arbitrary: s bs)
  case Nil
  then show ?case by (simp add: behind_contents)
next
  case (Cons nd ds)
  obtain n h d where nd: "nd = (n, h, d)" by (cases nd)
  let ?s = "(behind ^^ n) s"
  have b: "holds ?s bs" "room s \<le> room ?s" using behinds [OF Cons.prems(1)] by simp_all
  have fit: "length d \<le> room ?s" using b(2) Cons.prems(2) nd by simp
  have "length (segments ds) \<le> room (store h d ?s)"
    using store_room [OF b(1) fit, of h] b(2) Cons.prems(2) nd by (simp add: comp_def)
  from Cons.IH [OF store_holds [OF b(1) fit] this] nd show ?case by simp
qed

end

section \<open>The writer as a sink\<close>

definition writing :: "bool \<Rightarrow> wfile \<times> rw \<Rightarrow> u8 list \<Rightarrow> bool" where
  "writing convert = (\<lambda>(f, s) bs. \<exists>ds pend. bs = ds @ pend \<and> length pend \<le> wf_room f \<and>
     counter (bfs s (current s)) = BF_ALLOC \<and>
     (let b = bfs s (\<not> current s) in
      counter b = BF_FREE \<and> nextone s = current s \<and> pend = []
      \<or> counter b = int (length pend) \<and> th_data b = pend \<and> nextone s = (\<not> current s)) \<and>
     (if convert then fold put_ascii ds (None, []) = (prevchar s, wf_data f) else wf_data f = ds))"

lemma writingI:
  assumes "bs = ds @ pend" and "length pend \<le> wf_room f" and "counter (bfs s (current s)) = BF_ALLOC"
    and "counter (bfs s (\<not> current s)) = BF_FREE \<and> nextone s = current s \<and> pend = []
      \<or> counter (bfs s (\<not> current s)) = int (length pend) \<and> th_data (bfs s (\<not> current s)) = pend
         \<and> nextone s = (\<not> current s)"
    and "if convert then fold put_ascii ds (None, []) = (prevchar s, wf_data f) else wf_data f = ds"
  shows "writing convert (f, s) bs"
  unfolding writing_def Let_def split using assms by blast

definition roomy :: "wfile \<times> rw \<Rightarrow> nat" where
  "roomy = (\<lambda>(f, s). wf_room f -
     (if counter (bfs s (\<not> current s)) = BF_FREE then 0 else length (th_data (bfs s (\<not> current s)))))"

definition flush :: "bool \<Rightarrow> wfile \<times> rw \<Rightarrow> wfile \<times> rw" where
  "flush convert st = snd (write_behind convert st)"

definition store :: "bool \<Rightarrow> u16 \<times> u16 \<Rightarrow> u8 list \<Rightarrow> wfile \<times> rw \<Rightarrow> wfile \<times> rw" where
  "store convert h d = (\<lambda>(f, s).
     snd (writeit convert (int (length d)) (f, recv_into (fst h) (snd h) d s)))"

lemma put_ascii_length:
  "fold put_ascii bs (pc, out) = (pc', out') \<Longrightarrow> length out' \<le> length out + length bs"
proof (induction bs arbitrary: pc out)
  case (Cons b bs)
  obtain pc1 out1 where p: "put_ascii b (pc, out) = (pc1, out1)" by fastforce
  then have "length out1 \<le> length out + 1" by (auto simp: put_ascii_step split: if_splits)
  moreover have "length out' \<le> length out1 + length bs" using Cons p by simp
  ultimately show ?case by simp
qed simp

text \<open>Writing out a buffer that holds \<open>pend\<close>.\<close>

lemma write_behind_flushes:
  assumes "counter (bfs s i) = int (length pend)" "th_data (bfs s i) = pend" "nextone s = i"
    and room: "length pend \<le> wf_room f"
    and w: "write_behind convert (f, s) = (r, f', s')"
  shows "bfs s' = (bfs s)(i := (bfs s i)\<lparr>counter := BF_FREE\<rparr>) \<and> current s' = current s \<and> nextone s' = (\<not> i)
    \<and> wf_room f - length pend \<le> wf_room f'
    \<and> (if convert then fold put_ascii pend (prevchar s, wf_data f) = (prevchar s', wf_data f')
       else wf_data f' = wf_data f @ pend)"
proof (cases "pend = []")
  case True
  have "write_behind convert (f, s) = (-1, f, (set_counter i BF_FREE s)\<lparr>nextone := \<not> i\<rparr>)"
    using True assms(1) by (simp add: write_behind_def Let_def assms(3))
  with w have "f' = f" "s' = (set_counter i BF_FREE s)\<lparr>nextone := \<not> i\<rparr>" by simp_all
  with True show ?thesis by (simp add: set_counter_def)
next
  case ne: False
  then have pos: "0 < length pend" by simp
  let ?s1 = "(set_counter i BF_FREE s)\<lparr>nextone := \<not> i\<rparr>"
  show ?thesis
  proof (cases convert)
    case False
    have "write_behind False (f, s) = (int (length pend),
        f\<lparr>wf_data := wf_data f @ pend, wf_room := wf_room f - length pend\<rparr>, ?s1)"
      using ne room assms(1,2) by (simp add: write_behind_def Let_def assms(3) min_absorb1)
    with w False have "f' = f\<lparr>wf_data := wf_data f @ pend, wf_room := wf_room f - length pend\<rparr>" "s' = ?s1"
      by simp_all
    with False show ?thesis by (simp add: set_counter_def)
  next
    case True
    obtain pc out where p: "fold put_ascii pend (prevchar s, wf_data f) = (pc, out)" by fastforce
    have len: "length out \<le> length (wf_data f) + length pend" using put_ascii_length [OF p] .
    let ?room = "wf_room f + length (wf_data f)"
    have "write_behind True (f, s) = (int (length pend),
        f\<lparr>wf_data := take ?room out, wf_room := ?room - length out\<rparr>, ?s1\<lparr>prevchar := pc\<rparr>)"
      using ne assms(1,2) p by (simp add: write_behind_def Let_def assms(3))
    with w True have "f' = f\<lparr>wf_data := take ?room out, wf_room := ?room - length out\<rparr>"
      "s' = ?s1\<lparr>prevchar := pc\<rparr>" by simp_all
    with True p len room show ?thesis by (simp add: set_counter_def)
  qed
qed


lemma writing_flush:
  assumes "writing convert st bs"
  shows "writing convert (flush convert st) bs \<and> roomy st \<le> roomy (flush convert st)
    \<and> wf_data (fst (flush convert st)) = (if convert then from_netascii bs else bs)"
proof -
  obtain f s where st: "st = (f, s)" by fastforce
  from assms obtain ds pend where bs: "bs = ds @ pend" "length pend \<le> wf_room f"
    and cur: "counter (bfs s (current s)) = BF_ALLOC"
    and buf: "counter (bfs s (\<not> current s)) = BF_FREE \<and> nextone s = current s \<and> pend = []
      \<or> counter (bfs s (\<not> current s)) = int (length pend) \<and> th_data (bfs s (\<not> current s)) = pend
         \<and> nextone s = (\<not> current s)"
    and out: "if convert then fold put_ascii ds (None, []) = (prevchar s, wf_data f) else wf_data f = ds"
    unfolding st writing_def Let_def by auto
  show ?thesis
  proof (cases "counter (bfs s (\<not> current s)) = BF_FREE")
    case True
    with buf have p: "pend = []" "nextone s = current s" by (auto simp: BF_FREE_def)
    with cur have "write_behind convert (f, s) = (0, f, s)"
      by (simp add: write_behind_def Let_def BF_ALLOC_def)
    then have "flush convert st = st" by (simp add: flush_def st)
    with assms p out bs st show ?thesis by (cases convert) (simp_all add: from_netascii_def)
  next
    case False
    with buf have p: "counter (bfs s (\<not> current s)) = int (length pend)"
      "th_data (bfs s (\<not> current s)) = pend" "nextone s = (\<not> current s)" by auto
    obtain r f' s' where w: "write_behind convert (f, s) = (r, f', s')" by (metis prod_cases3)
    note fl = write_behind_flushes [OF p bs(2) w]
    have new: "if convert then fold put_ascii bs (None, []) = (prevchar s', wf_data f') else wf_data f' = bs"
      using fl out bs(1) by (cases convert) simp_all
    have "writing convert (f', s') bs"
      by (rule writingI [of _ bs "[]"]) (use fl cur new in simp_all)
    moreover have "roomy (f, s) \<le> roomy (f', s')"
      using fl p by (simp add: roomy_def BF_FREE_def)
    ultimately show ?thesis
      using w new st by (cases convert) (simp_all add: flush_def from_netascii_def)
  qed
qed

lemma writing_store:
  assumes "writing convert st bs" and fit: "length d \<le> roomy st"
  shows "writing convert (store convert h d st) (bs @ d) \<and> roomy st - length d \<le> roomy (store convert h d st)"
proof -
  obtain f s where st: "st = (f, s)" by fastforce
  from assms(1) obtain ds pend where bs: "bs = ds @ pend" "length pend \<le> wf_room f"
    and cur: "counter (bfs s (current s)) = BF_ALLOC"
    and buf: "counter (bfs s (\<not> current s)) = BF_FREE \<and> nextone s = current s \<and> pend = []
      \<or> counter (bfs s (\<not> current s)) = int (length pend) \<and> th_data (bfs s (\<not> current s)) = pend
         \<and> nextone s = (\<not> current s)"
    and out: "if convert then fold put_ascii ds (None, []) = (prevchar s, wf_data f) else wf_data f = ds"
    unfolding st writing_def Let_def by auto
  let ?c = "\<not> current s"
  let ?s0 = "recv_into (fst h) (snd h) d s"
  let ?s1 = "(set_counter (current s) (int (length d)) ?s0)\<lparr>current := ?c\<rparr>"
  have s1: "bfs ?s1 ?c = bfs s ?c" "nextone ?s1 = nextone s" "prevchar ?s1 = prevchar s"
    "counter (bfs ?s1 (current s)) = int (length d)" "th_data (bfs ?s1 (current s)) = d" "current ?s1 = ?c"
    by (simp_all add: recv_into_def set_counter_def)
  have res: "store convert h d st = (let (f2, s2) = (if counter (bfs s ?c) \<noteq> BF_FREE
                     then snd (write_behind convert (f, ?s1)) else (f, ?s1))
     in (f2, set_counter (current s2) BF_ALLOC s2))"
    using s1 by (simp add: store_def writeit_def st Let_def recv_into_def split_def)
  show ?thesis
  proof (cases "counter (bfs s ?c) = BF_FREE")
    case True
    with buf have p: "pend = []" "nextone s = current s" by (auto simp: BF_FREE_def)
    have "store convert h d st = (f, set_counter ?c BF_ALLOC ?s1)" using res True s1 by simp
    moreover have "writing convert (f, set_counter ?c BF_ALLOC ?s1) (bs @ d)"
      by (rule writingI [of _ bs d])
        (use s1 p out bs fit True st in \<open>simp_all add: set_counter_def roomy_def\<close>)
    ultimately show ?thesis using s1 True st by (simp add: roomy_def set_counter_def BF_FREE_def)
  next
    case False
    with buf have p: "counter (bfs s ?c) = int (length pend)" "th_data (bfs s ?c) = pend"
      "nextone s = ?c" by auto
    then have p1: "counter (bfs ?s1 ?c) = int (length pend)" "th_data (bfs ?s1 ?c) = pend"
      "nextone ?s1 = ?c" using s1 by simp_all
    obtain r f' s' where w: "write_behind convert (f, ?s1) = (r, f', s')" by (metis prod_cases3)
    note fl = write_behind_flushes [OF p1 bs(2) w]
    have new: "if convert then fold put_ascii bs (None, []) = (prevchar s', wf_data f') else wf_data f' = bs"
      using fl out bs(1) s1(3) by (cases convert) simp_all
    have room: "length d \<le> wf_room f'" "wf_room f - length pend \<le> wf_room f'"
      using fit fl p st False by (simp_all add: roomy_def)
    have "store convert h d st = (f', set_counter ?c BF_ALLOC s')" using res False w fl s1 by simp
    moreover have "writing convert (f', set_counter ?c BF_ALLOC s') (bs @ d)"
      by (rule writingI [of _ bs d]) (use s1 fl new room bs(1) out in \<open>simp_all add: set_counter_def split: if_splits\<close>)
    ultimately show ?thesis using s1 False st fl room p by (simp add: roomy_def set_counter_def BF_FREE_def)
  qed
qed

interpretation wr: segment_sink "store c" "flush c" "writing c" roomy "\<lambda>st. wf_data (fst st)"
    "\<lambda>bs. if c then from_netascii bs else bs" for c
  by unfold_locales (use writing_flush writing_store in \<open>blast+\<close>)

lemma writing_init: "writing c (\<lparr>wf_data = [], wf_room = n\<rparr>, w_init b) []"
  by (simp add: writing_def w_init_def rw_init_def BF_FREE_def BF_ALLOC_def)

lemma roomy_init: "roomy (\<lparr>wf_data = [], wf_room = n\<rparr>, w_init b) = n"
  by (simp add: roomy_def w_init_def rw_init_def)

end
