(* ===== verification/Tftp_Server.thy ===== *)
theory Tftp_Server
  imports Tftp_Buffers "HOL-Library.Sublist"
begin

text \<open>
  The TFTP server (\<^verbatim>\<open>tftpd.c\<close>): parsing and checking a request, and the two protocol machines that
  send and receive a file. A machine is a function on events: a datagram with its length, the
  opcode and block the code then reads in the packet, and the bytes after the header; an error of
  \<open>recv\<close>; the alarm. What it hands to the network is kept as a list. Whether the n-th \<open>send\<close>
  succeeds, the texts of \<open>strerror\<close> and the value of \<open>errno\<close> are parameters.
\<close>

section \<open>Packets and events\<close>

definition RRQ :: u16 where "RRQ = 1"
definition WRQ :: u16 where "WRQ = 2"
definition DATA :: u16 where "DATA = 3"
definition ACK :: u16 where "ACK = 4"
definition ERROR :: u16 where "ERROR = 5"

definition EUNDEF :: int where "EUNDEF = 0"
definition ENOTFOUND :: int where "ENOTFOUND = 1"
definition EACCESS :: int where "EACCESS = 2"
definition ENOSPACE :: int where "ENOSPACE = 3"
definition EBADOP :: int where "EBADOP = 4"

datatype packet =
    Data u16 "u8 list"
  | Ack u16
  | Request u16 string string
  | Error u16 string
  | Synchnet

datatype input =
    Packet int u16 u16 "u8 list"
  | Recv_error
  | Alarm_clock

record tftp_env =
  send_ok :: "nat \<Rightarrow> bool"
  strerror :: "int \<Rightarrow> string"
  io_errno :: int
  rexmtval :: int
  maxtimeout :: int

datatype phase = Waiting | Dallying | Finished | Aborted | Timed_out

section \<open>Errors\<close>

definition errmsgs :: "(int \<times> string) list" where
  "errmsgs =
     [(0, ''Undefined error code''), (1, ''File not found''), (2, ''Access violation''),
      (3, ''Disk full or allocation exceeded''), (4, ''Illegal TFTP operation''),
      (5, ''Unknown transfer ID''), (6, ''File already exists''), (7, ''No such user'')]"

definition nak :: "tftp_env \<Rightarrow> int \<Rightarrow> packet" where
  "nak E err =
     (case map_of errmsgs err of
        Some msg \<Rightarrow> Error (word_of_int err) msg
      | None \<Rightarrow> Error (word_of_int EUNDEF) (strerror E (err - 100)))"

section \<open>Requests\<close>

text \<open>
  The request is parsed in the static buffer: \<open>mem\<close> is the buffer, with whatever lies behind the
  \<open>sz\<close> bytes received, and indices are offsets into it; the strings start at offset 2.
\<close>

definition NUL :: char where "NUL = CHR 0x00"

function scan_nul :: "(nat \<Rightarrow> char) \<Rightarrow> nat \<Rightarrow> nat \<Rightarrow> nat" where
  "scan_nul mem sz cp =
     (if cp < sz then (if mem cp = NUL then cp else scan_nul mem sz (Suc cp)) else cp)"
  by pat_completeness auto
termination by (relation "measure (\<lambda>(mem, sz, cp). sz - cp)") auto

declare scan_nul.simps [simp del]

definition to_lower :: "char \<Rightarrow> char" where
  "to_lower c = (if of_char c \<in> {65..90 :: nat} then char_of (of_char c + 32 :: nat) else c)"

text \<open>\<open>formats\<close>: the modes and whether they convert.\<close>

definition formats :: "(string \<times> bool) list" where
  "formats = [(''netascii'', True), (''octet'', False)]"

definition substring :: "(nat \<Rightarrow> char) \<Rightarrow> nat \<Rightarrow> nat \<Rightarrow> string" where
  "substring mem i j = map mem [i..<j]"

definition tftp_parse :: "(nat \<Rightarrow> char) \<Rightarrow> nat \<Rightarrow> int + (string \<times> bool)" where
  "tftp_parse mem sz =
     (let cp = scan_nul mem sz 2 in
      if mem cp \<noteq> NUL then Inl EBADOP
      else let mode = Suc cp; cp2 = scan_nul mem sz mode in
        if mem cp2 \<noteq> NUL then Inl EBADOP
        else case map_of formats (map to_lower (substring mem mode cp2)) of
               None \<Rightarrow> Inl EBADOP
             | Some convert \<Rightarrow> Inr (substring mem 2 cp, convert))"

section \<open>Access\<close>

text \<open>The file system as the checks see it, a path being a name in a working directory.\<close>

record fs_env =
  fs_stat :: "string \<Rightarrow> string \<Rightarrow> int + u32"
  fs_open :: "string \<Rightarrow> string \<Rightarrow> bool \<Rightarrow> int option"
  fs_chdir :: "string \<Rightarrow> bool"

definition ENOENT :: int where "ENOENT = 2"
definition S_IROTH :: u32 where "S_IROTH = 4"
definition S_IWOTH :: u32 where "S_IWOTH = 2"

record opened =
  op_dir :: string
  op_name :: string
  op_write :: bool

fun dotdot_inside :: "string \<Rightarrow> bool" where
  "dotdot_inside [] = False"
| "dotdot_inside (c # cs) = (prefix ''/../'' (c # cs) \<or> dotdot_inside cs)"

text \<open>
  \<open>cwd\<close> is where the server runs; a failing \<open>chdir\<close> goes unnoticed. The list of directories is
  not empty, as \<open>main\<close> sets it up.
\<close>

definition validate_access ::
  "fs_env \<Rightarrow> string list \<Rightarrow> string \<Rightarrow> string \<Rightarrow> u16 \<Rightarrow> int + opened" where
  "validate_access F dirs cwd filename mode =
     (let relative = (filename = [] \<or> hd filename \<noteq> CHR ''/'');
          dir = (if relative \<and> fs_chdir F (hd dirs) then hd dirs else cwd)
      in if \<not> relative \<and> dirs \<noteq> [] \<and> \<not> (\<exists>d\<in>set dirs. prefix d filename) then Inl EACCESS
         else if prefix ''../'' filename then Inl EACCESS
         else if dotdot_inside filename then Inl EACCESS
         else case fs_stat F dir filename of
                Inl e \<Rightarrow> Inl (if e = ENOENT then ENOTFOUND else EACCESS)
              | Inr st_mode \<Rightarrow>
                  if mode = RRQ \<and> \<not> has st_mode S_IROTH then Inl EACCESS
                  else if mode \<noteq> RRQ \<and> \<not> has st_mode S_IWOTH then Inl EACCESS
                  else case fs_open F dir filename (mode \<noteq> RRQ) of
                         Some e \<Rightarrow> Inl (e + 100)
                       | None \<Rightarrow> Inr \<lparr>op_dir = dir, op_name = filename, op_write = (mode \<noteq> RRQ)\<rparr>)"

text \<open>\<open>tftp\<close>: what the server answers a request with, or the file it opens and the conversion.\<close>

definition tftp ::
  "tftp_env \<Rightarrow> fs_env \<Rightarrow> string list \<Rightarrow> string \<Rightarrow> u16 \<Rightarrow> (nat \<Rightarrow> char) \<Rightarrow> nat \<Rightarrow> packet + (opened \<times> bool)" where
  "tftp E F dirs cwd opcode mem sz =
     (case tftp_parse mem sz of
        Inl e \<Rightarrow> Inl (nak E e)
      | Inr (filename, convert) \<Rightarrow>
          (case validate_access F dirs cwd filename opcode of
             Inl e \<Rightarrow> Inl (nak E e)
           | Inr file \<Rightarrow> Inr (file, convert)))"

section \<open>Sending a file\<close>

record sender =
  s_file :: rfile
  s_rw :: rw
  s_block :: u16
  s_size :: int
  s_timeout :: int
  s_out :: "packet list"
  s_phase :: phase

definition s_emit :: "packet \<Rightarrow> sender \<Rightarrow> sender" where
  "s_emit p s = s\<lparr>s_out := s_out s @ [p]\<rparr>"

text \<open>From \<open>send_data:\<close> to the wait for an acknowledgement.\<close>

definition send_data :: "tftp_env \<Rightarrow> bool \<Rightarrow> sender \<Rightarrow> sender" where
  "send_data E convert s =
     (let p = Data (s_block s) (th_data (bfs (s_rw s) (current (s_rw s))));
          s1 = s_emit p s
      in if \<not> send_ok E (length (s_out s)) then s1\<lparr>s_phase := Aborted\<rparr>
         else let (f, r) = read_ahead convert (s_file s1, s_rw s1)
              in s1\<lparr>s_file := f, s_rw := r, s_phase := Waiting\<rparr>)"

definition send_next :: "tftp_env \<Rightarrow> bool \<Rightarrow> sender \<Rightarrow> sender" where
  "send_next E convert s =
     (let (n, f, r) = readit convert (s_file s, s_rw s);
          s1 = s\<lparr>s_file := f, s_rw := r, s_size := n\<rparr>
      in if n < 0 then (s_emit (nak E (io_errno E + 100)) s1)\<lparr>s_phase := Aborted\<rparr>
         else send_data E convert (s1\<lparr>s_timeout := 0\<rparr>))"

definition sendfile_start :: "tftp_env \<Rightarrow> bool \<Rightarrow> rfile \<Rightarrow> sender" where
  "sendfile_start E convert f =
     send_next E convert
       \<lparr>s_file = f, s_rw = r_init bfs_zero, s_block = 1, s_size = 0, s_timeout = 0, s_out = [],
        s_phase = Waiting\<rparr>"

fun sendfile_step :: "tftp_env \<Rightarrow> bool \<Rightarrow> input \<Rightarrow> sender \<Rightarrow> sender" where
  "sendfile_step E convert ev s =
     (if s_phase s \<noteq> Waiting then s
      else case ev of
        Recv_error \<Rightarrow> s\<lparr>s_phase := Aborted\<rparr>
      | Alarm_clock \<Rightarrow>
          (let t = s_timeout s + rexmtval E in
           if t \<ge> maxtimeout E then s\<lparr>s_timeout := t, s_phase := Timed_out\<rparr>
           else send_data E convert (s\<lparr>s_timeout := t\<rparr>))
      | Packet n op blk data \<Rightarrow>
          if op = ERROR then s\<lparr>s_phase := Aborted\<rparr>
          else if op = ACK then
            (if blk = s_block s then
               (let s1 = s\<lparr>s_block := s_block s + 1\<rparr>
                in if s_size s = int SEGSIZE then send_next E convert s1 else s1\<lparr>s_phase := Finished\<rparr>)
             else let s1 = s_emit Synchnet s in
               if uint blk = uint (s_block s) - 1 then send_data E convert s1 else s1)
          else s)"

definition sendfile :: "tftp_env \<Rightarrow> bool \<Rightarrow> rfile \<Rightarrow> input list \<Rightarrow> sender" where
  "sendfile E convert f evs = fold (sendfile_step E convert) evs (sendfile_start E convert f)"

section \<open>Receiving a file\<close>

record receiver =
  r_file :: wfile
  r_rw :: rw
  r_block :: u16
  r_pkt :: packet
  r_size :: int
  r_timeout :: int
  r_out :: "packet list"
  r_phase :: phase

definition r_emit :: "packet \<Rightarrow> receiver \<Rightarrow> receiver" where
  "r_emit p s = s\<lparr>r_out := r_out s @ [p]\<rparr>"

definition r_behind :: "bool \<Rightarrow> receiver \<Rightarrow> receiver" where
  "r_behind convert s =
     (let (n, f, w) = write_behind convert (r_file s, r_rw s) in s\<lparr>r_file := f, r_rw := w\<rparr>)"

text \<open>From \<open>send_ack:\<close> to the wait for data; \<open>r_pkt\<close> is what \<open>ackbuf\<close> holds.\<close>

definition send_ack :: "tftp_env \<Rightarrow> bool \<Rightarrow> receiver \<Rightarrow> receiver" where
  "send_ack E convert s =
     (let s1 = r_emit (r_pkt s) s in
      if \<not> send_ok E (length (r_out s)) then s1\<lparr>r_phase := Aborted\<rparr>
      else (r_behind convert s1)\<lparr>r_phase := Waiting\<rparr>)"

definition recv_next :: "tftp_env \<Rightarrow> bool \<Rightarrow> receiver \<Rightarrow> receiver" where
  "recv_next E convert s =
     send_ack E convert (s\<lparr>r_timeout := 0, r_pkt := Ack (r_block s), r_block := r_block s + 1\<rparr>)"

definition recvfile_start :: "tftp_env \<Rightarrow> bool \<Rightarrow> wfile \<Rightarrow> receiver" where
  "recvfile_start E convert f =
     recv_next E convert
       \<lparr>r_file = f, r_rw = w_init bfs_zero, r_block = 0, r_pkt = Ack 0, r_size = 0, r_timeout = 0,
        r_out = [], r_phase = Waiting\<rparr>"

text \<open>The end of the transfer: the last buffer, the final acknowledgement, and the wait after it.\<close>

definition recv_last :: "bool \<Rightarrow> receiver \<Rightarrow> receiver" where
  "recv_last convert s =
     (let s1 = r_behind convert s
      in (r_emit (Ack (r_block s)) (s1\<lparr>r_pkt := Ack (r_block s)\<rparr>))\<lparr>r_phase := Dallying\<rparr>)"

definition recv_accept :: "tftp_env \<Rightarrow> bool \<Rightarrow> int \<Rightarrow> receiver \<Rightarrow> receiver" where
  "recv_accept E convert n s =
     (let (size, f, w) = writeit convert (n - 4) (r_file s, r_rw s);
          s1 = s\<lparr>r_file := f, r_rw := w, r_size := size\<rparr>
      in if size \<noteq> n - 4 then
           (r_emit (nak E (if size < 0 then io_errno E + 100 else ENOSPACE)) s1)\<lparr>r_phase := Aborted\<rparr>
         else if size = int SEGSIZE then recv_next E convert s1
         else recv_last convert s1)"

text \<open>
  In the last wait the datagram goes to \<open>buf\<close>, but the test reads the header through \<open>dp\<close>, which
  points to the buffer that is current.
\<close>

fun recvfile_step :: "tftp_env \<Rightarrow> bool \<Rightarrow> input \<Rightarrow> receiver \<Rightarrow> receiver" where
  "recvfile_step E convert ev s =
     (if r_phase s = Waiting then
        (case ev of
           Recv_error \<Rightarrow> s\<lparr>r_phase := Aborted\<rparr>
         | Alarm_clock \<Rightarrow>
             (let t = r_timeout s + rexmtval E in
              if t \<ge> maxtimeout E then s\<lparr>r_timeout := t, r_phase := Timed_out\<rparr>
              else send_ack E convert (s\<lparr>r_timeout := t\<rparr>))
         | Packet n op blk data \<Rightarrow>
             let s1 = s\<lparr>r_rw := recv_into op blk data (r_rw s)\<rparr> in
             if op = ERROR then s1\<lparr>r_phase := Aborted\<rparr>
             else if op = DATA then
               (if blk = r_block s then recv_accept E convert n s1
                else let s2 = r_emit Synchnet s1 in
                  if uint blk = uint (r_block s) - 1 then send_ack E convert s2 else s2)
             else s1)
      else if r_phase s = Dallying then
        (case ev of
           Packet n op blk data \<Rightarrow>
             let dp = bfs (r_rw s) (current (r_rw s)) in
             (if n \<ge> 4 \<and> th_opcode dp = DATA \<and> r_block s = th_block dp
              then r_emit (r_pkt s) s else s)\<lparr>r_phase := Finished\<rparr>
         | _ \<Rightarrow> s\<lparr>r_phase := Finished\<rparr>)
      else s)"

definition recvfile :: "tftp_env \<Rightarrow> bool \<Rightarrow> wfile \<Rightarrow> input list \<Rightarrow> receiver" where
  "recvfile E convert f evs = fold (recvfile_step E convert) evs (recvfile_start E convert f)"

end
