(* ===== verification/Tftp_Client.thy ===== *)
theory Tftp_Client
  imports Tftp_Server
begin

text \<open>
  The TFTP client's protocol machines (\<^verbatim>\<open>tftp.c\<close>): making a request, sending and receiving a file.
  They differ from the server's in the first trip, which sends the request, in ignoring errors of
  \<open>recvfrom\<close> (the \<open>do ... while (n <= 0)\<close> around it), and in how they end. Statistics and traces
  are left out; the port the peer answers from is not part of the model.
\<close>

section \<open>Requests\<close>

text \<open>The bytes after the opcode of a request.\<close>

definition request_stuff :: "string \<Rightarrow> string \<Rightarrow> string" where
  "request_stuff name mode = name @ NUL # mode @ [NUL]"

text \<open>\<open>makerequest\<close> returns the packet and its length.\<close>

definition makerequest :: "u16 \<Rightarrow> string \<Rightarrow> string \<Rightarrow> packet \<times> int" where
  "makerequest request name mode =
     (Request request name mode, 2 + int (length (request_stuff name mode)))"

section \<open>Sending a file\<close>

record put =
  p_file :: rfile
  p_rw :: rw
  p_block :: u16
  p_pkt :: packet
  p_size :: int
  p_timeout :: int
  p_first :: bool
  p_amount :: int
  p_out :: "packet list"
  p_phase :: phase

definition p_emit :: "packet \<Rightarrow> put \<Rightarrow> put" where
  "p_emit p s = s\<lparr>p_out := p_out s @ [p]\<rparr>"

text \<open>From \<open>send_data:\<close> to the wait; \<open>p_pkt\<close> is the packet \<open>dp\<close> points to.\<close>

definition put_send :: "tftp_env \<Rightarrow> bool \<Rightarrow> put \<Rightarrow> put" where
  "put_send E convert s =
     (let s1 = p_emit (p_pkt s) s in
      if \<not> send_ok E (length (p_out s)) then s1\<lparr>p_phase := Aborted\<rparr>
      else let (f, r) = read_ahead convert (p_file s1, p_rw s1)
           in s1\<lparr>p_file := f, p_rw := r, p_phase := Waiting\<rparr>)"

definition put_next :: "tftp_env \<Rightarrow> bool \<Rightarrow> put \<Rightarrow> put" where
  "put_next E convert s =
     (let (n, f, r) = readit convert (p_file s, p_rw s);
          s1 = s\<lparr>p_file := f, p_rw := r, p_size := n\<rparr>
      in if n < 0 then (p_emit (nak E (io_errno E + 100)) s1)\<lparr>p_phase := Finished\<rparr>
         else put_send E convert
                (s1\<lparr>p_pkt := Data (p_block s) (th_data (bfs r (current r))), p_timeout := 0\<rparr>))"

definition put_start :: "tftp_env \<Rightarrow> string \<Rightarrow> string \<Rightarrow> rfile \<Rightarrow> put" where
  "put_start E name mode f =
     (let (p, len) = makerequest WRQ name mode
      in put_send E (mode = ''netascii'')
           \<lparr>p_file = f, p_rw = r_init bfs_zero, p_block = 0, p_pkt = p, p_size = len - 4,
            p_timeout = 0, p_first = True, p_amount = 0, p_out = [], p_phase = Waiting\<rparr>)"

fun put_step :: "tftp_env \<Rightarrow> bool \<Rightarrow> input \<Rightarrow> put \<Rightarrow> put" where
  "put_step E convert ev s =
     (if p_phase s \<noteq> Waiting then s
      else case ev of
        Recv_error \<Rightarrow> s
      | Alarm_clock \<Rightarrow>
          (let t = p_timeout s + rexmtval E in
           if t \<ge> maxtimeout E then s\<lparr>p_timeout := t, p_phase := Timed_out\<rparr>
           else put_send E convert (s\<lparr>p_timeout := t\<rparr>))
      | Packet n op blk data \<Rightarrow>
          if n \<le> 0 then s
          else if op = ERROR then s\<lparr>p_phase := Aborted\<rparr>
          else if op = ACK then
            (if blk = p_block s then
               (let s1 = (if p_first s then s\<lparr>p_first := False\<rparr>
                          else s\<lparr>p_amount := p_amount s + p_size s\<rparr>);
                    s2 = s1\<lparr>p_block := p_block s + 1\<rparr>
                in if p_size s = int SEGSIZE then put_next E convert s2 else s2\<lparr>p_phase := Finished\<rparr>)
             else let s1 = p_emit Synchnet s in
               if uint blk = uint (p_block s) - 1 then put_send E convert s1 else s1)
          else s)"

definition put_file :: "tftp_env \<Rightarrow> string \<Rightarrow> string \<Rightarrow> rfile \<Rightarrow> input list \<Rightarrow> put" where
  "put_file E name mode f evs = fold (put_step E (mode = ''netascii'')) evs (put_start E name mode f)"

section \<open>Receiving a file\<close>

record get =
  g_file :: wfile
  g_rw :: rw
  g_block :: u16
  g_pkt :: packet
  g_timeout :: int
  g_amount :: int
  g_out :: "packet list"
  g_phase :: phase

definition g_emit :: "packet \<Rightarrow> get \<Rightarrow> get" where
  "g_emit p s = s\<lparr>g_out := g_out s @ [p]\<rparr>"

definition g_behind :: "bool \<Rightarrow> get \<Rightarrow> get" where
  "g_behind convert s =
     (let (n, f, w) = write_behind convert (g_file s, g_rw s) in s\<lparr>g_file := f, g_rw := w\<rparr>)"

text \<open>From \<open>abort:\<close> to the end: every exit but the timeout acknowledges the present block.\<close>

definition get_end :: "bool \<Rightarrow> phase \<Rightarrow> get \<Rightarrow> get" where
  "get_end convert ph s =
     (g_behind convert (g_emit (Ack (g_block s)) (s\<lparr>g_pkt := Ack (g_block s)\<rparr>)))\<lparr>g_phase := ph\<rparr>"

definition get_send :: "tftp_env \<Rightarrow> bool \<Rightarrow> get \<Rightarrow> get" where
  "get_send E convert s =
     (let s1 = g_emit (g_pkt s) s in
      if \<not> send_ok E (length (g_out s)) then get_end convert Aborted s1
      else (g_behind convert s1)\<lparr>g_phase := Waiting\<rparr>)"

definition get_start :: "tftp_env \<Rightarrow> string \<Rightarrow> string \<Rightarrow> wfile \<Rightarrow> get" where
  "get_start E name mode f =
     get_send E (mode = ''netascii'')
       \<lparr>g_file = f, g_rw = w_init bfs_zero, g_block = 1, g_pkt = fst (makerequest RRQ name mode),
        g_timeout = 0, g_amount = 0, g_out = [], g_phase = Waiting\<rparr>"

definition get_accept :: "tftp_env \<Rightarrow> bool \<Rightarrow> int \<Rightarrow> get \<Rightarrow> get" where
  "get_accept E convert n s =
     (let (size, f, w) = writeit convert (n - 4) (g_file s, g_rw s);
          s1 = s\<lparr>g_file := f, g_rw := w\<rparr>
      in if size < 0 then get_end convert Aborted (g_emit (nak E (io_errno E + 100)) s1)
         else let s2 = s1\<lparr>g_amount := g_amount s + size\<rparr> in
           if size = int SEGSIZE
           then get_send E convert
                  (s2\<lparr>g_pkt := Ack (g_block s), g_block := g_block s + 1, g_timeout := 0\<rparr>)
           else get_end convert Finished s2)"

fun get_step :: "tftp_env \<Rightarrow> bool \<Rightarrow> input \<Rightarrow> get \<Rightarrow> get" where
  "get_step E convert ev s =
     (if g_phase s \<noteq> Waiting then s
      else case ev of
        Recv_error \<Rightarrow> s
      | Alarm_clock \<Rightarrow>
          (let t = g_timeout s + rexmtval E in
           if t \<ge> maxtimeout E then s\<lparr>g_timeout := t, g_phase := Timed_out\<rparr>
           else get_send E convert (s\<lparr>g_timeout := t\<rparr>))
      | Packet n op blk data \<Rightarrow>
          if n \<le> 0 then s
          else let s1 = s\<lparr>g_rw := recv_into op blk data (g_rw s)\<rparr> in
            if op = ERROR then get_end convert Aborted s1
            else if op = DATA then
              (if blk = g_block s then get_accept E convert n s1
               else let s2 = g_emit Synchnet s1 in
                 if uint blk = uint (g_block s) - 1 then get_send E convert s2 else s2)
            else s1)"

definition get_file :: "tftp_env \<Rightarrow> string \<Rightarrow> string \<Rightarrow> wfile \<Rightarrow> input list \<Rightarrow> get" where
  "get_file E name mode f evs = fold (get_step E (mode = ''netascii'')) evs (get_start E name mode f)"

end
