(* ===== verification/Tftp_Transfer.thy ===== *)
theory Tftp_Transfer
  imports Tftp_Client
begin

text \<open>
  Whole TFTP transfers: whatever the network loses, repeats, delays or reorders, the sender's
  packets are the segments of the converted file under their numbers, and a receiver that is given
  such packets has a prefix of the file, and all of it when it finishes. The files have fewer than
  65535 full segments: block numbers do not wrap.
\<close>

section \<open>The packets of a file\<close>

text \<open>The bytes on the wire for a file.\<close>

definition wire :: "bool \<Rightarrow> u8 list \<Rightarrow> u8 list" where
  "wire convert bs = (if convert then netascii bs else bs)"

definition unwire :: "bool \<Rightarrow> u8 list \<Rightarrow> u8 list" where
  "unwire convert bs = (if convert then from_netascii bs else bs)"

lemma unwire_wire [simp]: "unwire c (wire c bs) = bs"
  by (simp add: unwire_def wire_def from_netascii_inverse)

definition blocks :: "u8 list \<Rightarrow> nat" where
  "blocks xs = Suc (length xs div SEGSIZE)"

definition is_block :: "u8 list \<Rightarrow> u16 \<Rightarrow> u8 list \<Rightarrow> bool" where
  "is_block xs k d \<longleftrightarrow> 1 \<le> unat k \<and> unat k \<le> blocks xs \<and> d = segment (unat k - 1) xs"

lemma segment_length: "length (segment k xs) = min SEGSIZE (length xs - k * SEGSIZE)"
  by (simp add: segment_def min.commute)

text \<open>Only the last block is short.\<close>

lemma full_segment: "length (segment k xs) = SEGSIZE \<longleftrightarrow> Suc k < blocks xs"
proof -
  have "SEGSIZE \<le> length xs - k * SEGSIZE \<longleftrightarrow> Suc k \<le> length xs div SEGSIZE"
    by (simp add: less_eq_div_iff_mult_less_eq SEGSIZE_def) linarith
  then show ?thesis by (auto simp: segment_length blocks_def SEGSIZE_def min_def)
qed

lemma take_segment: "take (k * SEGSIZE) xs @ segment k xs = take (Suc k * SEGSIZE) xs"
  using take_add [of "k * SEGSIZE" SEGSIZE xs] by (simp add: segment_def add.commute)

lemma short_segment_last:
  "length (segment k xs) \<noteq> SEGSIZE \<Longrightarrow> take (k * SEGSIZE) xs @ segment k xs = xs"
  unfolding take_segment by (simp add: segment_length min_def split: if_splits)

lemma unat_plus_one: "unat (b :: u16) < 65535 \<Longrightarrow> unat (b + 1) = Suc (unat b)"
  by (simp add: unat_plus_simple [THEN iffD1] word_le_nat_alt unat_word_ariths)

section \<open>What the server sends\<close>

definition sends_blocks :: "u8 list \<Rightarrow> packet list \<Rightarrow> bool" where
  "sends_blocks xs out \<longleftrightarrow> (\<forall>k d. Data k d \<in> set out \<longrightarrow> is_block xs k d)"

text \<open>While the sender waits, its current buffer is the segment of its block.\<close>

definition sending :: "bool \<Rightarrow> u8 list \<Rightarrow> sender \<Rightarrow> bool" where
  "sending c xs s \<longleftrightarrow> sends_blocks xs (s_out s) \<and>
     (s_phase s = Waiting \<longrightarrow>
        reading c (s_file s, s_rw s) \<and> unread c (s_file s, s_rw s) = drop (unat (s_block s) * SEGSIZE) xs
        \<and> is_block xs (s_block s) (th_data (bfs (s_rw s) (current (s_rw s))))
        \<and> s_size s = int (length (th_data (bfs (s_rw s) (current (s_rw s))))))"

lemma sends_blocks_simps [simp]:
  "sends_blocks xs []"
  "sends_blocks xs (out @ [p]) \<longleftrightarrow> sends_blocks xs out \<and> (\<forall>k d. p = Data k d \<longrightarrow> is_block xs k d)"
  by (auto simp: sends_blocks_def)

lemma read_ahead_current:
  "reading c (f, s) \<Longrightarrow> read_ahead c (f, s) = (f', s') \<Longrightarrow>
   current s' = current s \<and> bfs s' (current s) = bfs s (current s)"
proof (cases "counter (bfs s (nextone s)) = BF_FREE")
  case True
  assume ok: "reading c (f, s)" and r: "read_ahead c (f, s) = (f', s')"
  from ok True have n: "nextone s = (\<not> current s)" "\<not> rf_fail f" by (auto simp: reading_def Let_def)
  with True read_ahead_fills [OF _ n r] show ?thesis by simp
qed (simp add: read_ahead_def)

lemma send_data_sending:
  assumes "sending c xs s" and "s_phase s = Waiting"
  shows "sending c xs (send_data E c s)"
proof -
  obtain f r where ra: "read_ahead c (s_file s, s_rw s) = (f, r)" by fastforce
  from assms have inv: "reading c (s_file s, s_rw s)"
      "unread c (s_file s, s_rw s) = drop (unat (s_block s) * SEGSIZE) xs"
      "is_block xs (s_block s) (th_data (bfs (s_rw s) (current (s_rw s))))"
    by (simp_all add: sending_def)
  have "reading c (f, r) \<and> unread c (f, r) = unread c (s_file s, s_rw s)"
    using reading_ahead [OF inv(1)] ra by simp
  with read_ahead_current [OF inv(1) ra] inv assms show ?thesis
    by (auto simp: sending_def send_data_def s_emit_def Let_def ra)
qed

lemma nak_not_data: "nak E e \<noteq> Data k d"
  by (simp add: nak_def split: option.split)

lemma send_next_sending:
  assumes out: "sends_blocks xs (s_out s)" and rd: "reading c (s_file s, s_rw s)"
    and un: "unread c (s_file s, s_rw s) = drop ((unat (s_block s) - 1) * SEGSIZE) xs"
    and b: "1 \<le> unat (s_block s)" "unat (s_block s) \<le> blocks xs"
  shows "sending c xs (send_next E c s)"
proof -
  obtain n f r where ri: "readit c (s_file s, s_rw s) = (n, f, r)" by (metis prod_cases3)
  note reads = readit_reads [OF rd ri]
  let ?s1 = "s\<lparr>s_file := f, s_rw := r, s_size := n, s_timeout := 0, s_phase := Waiting\<rparr>"
  have "SEGSIZE + (unat (s_block s) - 1) * SEGSIZE = unat (s_block s) * SEGSIZE"
    using b(1) by (cases "unat (s_block s)") simp_all
  then have "sending c xs ?s1"
    using reads out un b by (simp add: sending_def is_block_def segment_def)
  then have "sending c xs (send_data E c ?s1)" by (rule send_data_sending) simp
  moreover have "send_data E c ?s1 = send_data E c (s\<lparr>s_file := f, s_rw := r, s_size := n, s_timeout := 0\<rparr>)"
    by (simp add: send_data_def s_emit_def Let_def split_def)
  ultimately show ?thesis using ri reads(2) by (simp add: send_next_def Let_def)
qed

lemma sendfile_start_sending:
  "\<not> rf_fail f \<Longrightarrow> sending c (wire c (rf_rest f)) (sendfile_start E c f)"
  unfolding sendfile_start_def
  by (rule send_next_sending) (simp_all add: reading_init wire_def blocks_def)

lemma sendfile_step_sending:
  assumes inv: "sending c xs s" and small: "blocks xs < 65536"
  shows "sending c xs (sendfile_step E c ev s)"
proof (cases "s_phase s = Waiting")
  case wait: True
  show ?thesis
  proof (cases ev)
    case Recv_error
    with inv wait show ?thesis by (simp add: sending_def)
  next
    case Alarm_clock
    let ?t = "s_timeout s + rexmtval E"
    have "sending c xs (s\<lparr>s_timeout := ?t\<rparr>)" using inv by (simp add: sending_def)
    then have "sending c xs (send_data E c (s\<lparr>s_timeout := ?t\<rparr>))"
      by (rule send_data_sending) (simp add: wait)
    with Alarm_clock inv wait show ?thesis by (simp add: Let_def sending_def)
  next
    case (Packet n op blk data)
    have sync: "sending c xs (s_emit Synchnet s)" using inv by (simp add: sending_def s_emit_def)
    then have again: "sending c xs (send_data E c (s_emit Synchnet s))"
      by (rule send_data_sending) (simp add: s_emit_def wait)
    have fin: "sending c xs (s\<lparr>s_block := b, s_phase := Finished\<rparr>)" for b
      using inv by (simp add: sending_def)
    have err: "sending c xs (s\<lparr>s_phase := Aborted\<rparr>)" using inv by (simp add: sending_def)
    have blk: "is_block xs (s_block s) (th_data (bfs (s_rw s) (current (s_rw s))))"
      and size: "s_size s = int (length (th_data (bfs (s_rw s) (current (s_rw s)))))"
      using inv wait by (simp_all add: sending_def)
    have "sending c xs (send_next E c (s\<lparr>s_block := s_block s + 1\<rparr>))" if full: "s_size s = int SEGSIZE"
    proof -
      have "unat (s_block s) < blocks xs"
        using full size blk full_segment [of "unat (s_block s) - 1" xs] by (simp add: is_block_def)
      then have "unat (s_block s + 1) = Suc (unat (s_block s))" "Suc (unat (s_block s)) \<le> blocks xs"
        using small by (simp_all add: unat_plus_one)
      then show ?thesis
        using inv wait by (intro send_next_sending) (simp_all add: sending_def)
    qed
    with Packet wait sync again fin err inv show ?thesis by (simp add: Let_def)
  qed
qed (simp add: inv)

lemma sendfile_sending:
  assumes "\<not> rf_fail f" and "blocks (wire c (rf_rest f)) < 65536"
  shows "sending c (wire c (rf_rest f)) (sendfile E c f evs)"
proof -
  have "sending c (wire c (rf_rest f)) (fold (sendfile_step E c) evs s)"
    if "sending c (wire c (rf_rest f)) s" for s
    using that
  proof (induction evs arbitrary: s)
    case (Cons ev evs)
    from Cons.IH [OF sendfile_step_sending [OF Cons.prems assms(2)]] show ?case by simp
  qed simp
  from this [OF sendfile_start_sending [OF assms(1)]] show ?thesis by (simp add: sendfile_def)
qed


section \<open>What a receiver makes of good packets\<close>

text \<open>A datagram that, if it is data, is a block of \<open>xs\<close>.\<close>

definition good_input :: "u8 list \<Rightarrow> input \<Rightarrow> bool" where
  "good_input xs ev \<longleftrightarrow>
     (case ev of
        Packet n op blk data \<Rightarrow> op = DATA \<longrightarrow> is_block xs blk data \<and> n = 4 + int (length data)
      | _ \<Rightarrow> True)"

text \<open>A file that has everything before block \<open>b\<close>, and room for the rest.\<close>

definition filled_to :: "bool \<Rightarrow> u8 list \<Rightarrow> nat \<Rightarrow> wfile \<times> rw \<Rightarrow> bool" where
  "filled_to c xs b st \<longleftrightarrow>
     1 \<le> b \<and> b \<le> blocks xs \<and> writing c st (take ((b - 1) * SEGSIZE) xs)
     \<and> length xs \<le> roomy st + (b - 1) * SEGSIZE"

lemma writing_recv_into:
  "writing c (f, recv_into op blk d s) bs = writing c (f, s) bs"
  "roomy (f, recv_into op blk d s) = roomy (f, s)"
  by (simp_all add: writing_def roomy_def recv_into_def Let_def)

lemma filled_to_recv_into: "filled_to c xs b (f, recv_into op blk d s) = filled_to c xs b (f, s)"
  by (simp add: filled_to_def writing_recv_into)

lemma filled_to_flush: "filled_to c xs b st \<Longrightarrow> filled_to c xs b (flush c st)"
  using writing_flush by (fastforce simp: filled_to_def)

lemma filled_to_init:
  "length xs \<le> m \<Longrightarrow> filled_to c xs (Suc 0) (\<lparr>wf_data = [], wf_room = m\<rparr>, w_init b)"
  by (simp add: filled_to_def blocks_def writing_init roomy_init)

text \<open>Taking block \<open>b\<close>: the file is filled to the next, or complete.\<close>

lemma store_block:
  assumes fill: "filled_to c xs b st" and blk: "is_block xs k d" "unat k = b"
  shows "length d = SEGSIZE \<Longrightarrow> filled_to c xs (Suc b) (store c h d st)"
    and "length d \<noteq> SEGSIZE \<Longrightarrow> wf_data (fst (flush c (store c h d st))) = unwire c xs"
proof -
  let ?done = "take ((b - 1) * SEGSIZE) xs"
  have w: "writing c st ?done" "1 \<le> b" "length xs \<le> roomy st + (b - 1) * SEGSIZE"
    using fill by (simp_all add: filled_to_def)
  have d: "d = segment (b - 1) xs" using blk by (simp add: is_block_def)
  have "length d \<le> roomy st" using w(3) by (simp add: d segment_length)
  from writing_store [OF w(1) this, of h]
  have st: "writing c (store c h d st) (?done @ d)" "roomy st - length d \<le> roomy (store c h d st)" by simp_all
  show "filled_to c xs (Suc b) (store c h d st)" if full: "length d = SEGSIZE"
  proof -
    have "?done @ d = take (b * SEGSIZE) xs" using take_segment [of "b - 1" xs] w(2) by (simp add: d)
    moreover have "b < blocks xs" using full full_segment [of "b - 1" xs] w(2) by (simp add: d)
    moreover have "b * SEGSIZE = (b - 1) * SEGSIZE + SEGSIZE" using w(2) by (cases b) simp_all
    ultimately show ?thesis using st w(3) full by (simp add: filled_to_def)
  qed
  show "wf_data (fst (flush c (store c h d st))) = unwire c xs" if short: "length d \<noteq> SEGSIZE"
  proof -
    have "?done @ d = xs" using short_segment_last [of "b - 1" xs] short by (simp add: d)
    with writing_flush [OF st(1)] show ?thesis by (simp add: unwire_def)
  qed
qed

lemma writeit_store:
  "writeit c (int (length d)) (f, recv_into op blk d s) = (int (length d), store c (op, blk) d (f, s))"
  by (simp add: writeit_def store_def Let_def split_def)

subsection \<open>The client\<close>

definition getting :: "bool \<Rightarrow> u8 list \<Rightarrow> get \<Rightarrow> bool" where
  "getting c xs s \<longleftrightarrow>
     (g_phase s = Waiting \<longrightarrow> filled_to c xs (unat (g_block s)) (g_file s, g_rw s))
     \<and> (g_phase s = Finished \<longrightarrow> wf_data (g_file s) = unwire c xs) \<and> g_phase s \<noteq> Dallying"

lemma g_behind_flush: "g_behind c s = s\<lparr>g_file := fst (flush c (g_file s, g_rw s)), g_rw := snd (flush c (g_file s, g_rw s))\<rparr>"
  by (simp add: g_behind_def flush_def split_def Let_def)

lemma get_end_aborted [simp]: "getting c xs (get_end c Aborted s)"
  by (simp add: getting_def get_end_def)

lemma get_send_getting:
  "filled_to c xs (unat (g_block s)) (g_file s, g_rw s) \<Longrightarrow> getting c xs (get_send E c s)"
  using filled_to_flush [of c xs "unat (g_block s)" "(g_file s, g_rw s)"]
  by (simp add: get_send_def Let_def) (simp add: getting_def g_behind_flush g_emit_def)

lemma get_accept_getting:
  assumes fill: "filled_to c xs (unat (g_block s)) (g_file s, g_rw s)"
    and blk: "is_block xs (g_block s) d" and small: "blocks xs < 65536"
  shows "getting c xs (get_accept E c (4 + int (length d)) (s\<lparr>g_rw := recv_into op blk d (g_rw s)\<rparr>))"
proof -
  obtain f w where st: "store c (op, blk) d (g_file s, g_rw s) = (f, w)" by fastforce
  let ?s = "s\<lparr>g_file := f, g_rw := w, g_amount := g_amount s + int (length d)\<rparr>"
  have acc: "get_accept E c (4 + int (length d)) (s\<lparr>g_rw := recv_into op blk d (g_rw s)\<rparr>)
      = (if length d = SEGSIZE
         then get_send E c (?s\<lparr>g_pkt := Ack (g_block s), g_block := g_block s + 1, g_timeout := 0\<rparr>)
         else get_end c Finished ?s)"
    by (simp add: get_accept_def writeit_store st Let_def)
  show ?thesis
  proof (cases "length d = SEGSIZE")
    case True
    have nxt: "filled_to c xs (Suc (unat (g_block s))) (f, w)"
      using store_block(1) [OF fill blk refl True, of "(op, blk)"] st by simp
    then have "unat (g_block s + 1) = Suc (unat (g_block s))"
      using small by (simp add: unat_plus_one filled_to_def)
    with nxt True show ?thesis unfolding acc by (simp add: get_send_getting)
  next
    case False
    have "wf_data (fst (flush c (f, w))) = unwire c xs"
      using store_block(2) [OF fill blk refl False, of "(op, blk)"] st by simp
    with False show ?thesis unfolding acc by (simp add: getting_def get_end_def g_behind_flush g_emit_def)
  qed
qed

lemma get_step_getting:
  assumes inv: "getting c xs s" and good: "good_input xs ev" and small: "blocks xs < 65536"
  shows "getting c xs (get_step E c ev s)"
proof (cases "g_phase s = Waiting")
  case wait: True
  have fill: "filled_to c xs (unat (g_block s)) (g_file s, g_rw s)" using inv wait by (simp add: getting_def)
  show ?thesis
  proof (cases ev)
    case Recv_error
    with inv wait show ?thesis by simp
  next
    case Alarm_clock
    with inv wait fill show ?thesis
      by (auto simp: Let_def intro!: get_send_getting) (simp add: getting_def)
  next
    case (Packet n op blk data)
    let ?s1 = "s\<lparr>g_rw := recv_into op blk data (g_rw s)\<rparr>"
    have s1: "getting c xs ?s1" using inv wait by (simp add: getting_def filled_to_recv_into)
    then have sync: "getting c xs (g_emit Synchnet ?s1)" by (simp add: getting_def g_emit_def)
    have again: "getting c xs (get_send E c (g_emit Synchnet ?s1))"
      using fill by (intro get_send_getting) (simp add: g_emit_def filled_to_recv_into)
    have "getting c xs (get_accept E c n ?s1)" if "op = DATA" "blk = g_block s"
      using that good Packet get_accept_getting [OF fill _ small, of data E op blk]
      by (simp add: good_input_def)
    with Packet wait inv s1 sync again show ?thesis by (auto simp: Let_def)
  qed
qed (simp add: inv)

lemma get_file_getting:
  assumes "length xs \<le> m" and "blocks xs < 65536" and "\<forall>ev\<in>set evs. good_input xs ev"
  shows "getting (mode = ''netascii'') xs (get_file E name mode \<lparr>wf_data = [], wf_room = m\<rparr> evs)"
proof -
  have "getting c xs (fold (get_step E c) evs s)" if "getting c xs s" for c s
    using that assms(3)
  proof (induction evs arbitrary: s)
    case (Cons ev evs)
    from Cons.IH [OF get_step_getting [OF Cons.prems(1) _ assms(2)]] Cons.prems(2) show ?case by simp
  qed simp
  moreover have "getting c xs (get_start E name mode \<lparr>wf_data = [], wf_room = m\<rparr>)"
    if "c = (mode = ''netascii'')" for c
    unfolding get_start_def that by (intro get_send_getting) (simp add: filled_to_init [OF assms(1)])
  ultimately show ?thesis by (simp add: get_file_def)
qed

subsection \<open>The server\<close>

definition receiving :: "bool \<Rightarrow> u8 list \<Rightarrow> receiver \<Rightarrow> bool" where
  "receiving c xs s \<longleftrightarrow>
     (r_phase s = Waiting \<longrightarrow> filled_to c xs (unat (r_block s)) (r_file s, r_rw s))
     \<and> (r_phase s = Dallying \<or> r_phase s = Finished \<longrightarrow> wf_data (r_file s) = unwire c xs)"

lemma r_behind_flush: "r_behind c s = s\<lparr>r_file := fst (flush c (r_file s, r_rw s)), r_rw := snd (flush c (r_file s, r_rw s))\<rparr>"
  by (simp add: r_behind_def flush_def split_def Let_def)

lemma send_ack_receiving:
  "filled_to c xs (unat (r_block s)) (r_file s, r_rw s) \<Longrightarrow> receiving c xs (send_ack E c s)"
  using filled_to_flush [of c xs "unat (r_block s)" "(r_file s, r_rw s)"]
  by (simp add: send_ack_def Let_def) (simp add: receiving_def r_behind_flush r_emit_def)

lemma recv_accept_receiving:
  assumes fill: "filled_to c xs (unat (r_block s)) (r_file s, r_rw s)"
    and blk: "is_block xs (r_block s) d" and small: "blocks xs < 65536"
  shows "receiving c xs (recv_accept E c (4 + int (length d)) (s\<lparr>r_rw := recv_into op blk d (r_rw s)\<rparr>))"
proof -
  obtain f w where st: "store c (op, blk) d (r_file s, r_rw s) = (f, w)" by fastforce
  let ?s = "s\<lparr>r_file := f, r_rw := w, r_size := int (length d)\<rparr>"
  have acc: "recv_accept E c (4 + int (length d)) (s\<lparr>r_rw := recv_into op blk d (r_rw s)\<rparr>)
      = (if length d = SEGSIZE then recv_next E c ?s else recv_last c ?s)"
    by (simp add: recv_accept_def writeit_store st Let_def)
  show ?thesis
  proof (cases "length d = SEGSIZE")
    case True
    have nxt: "filled_to c xs (Suc (unat (r_block s))) (f, w)"
      using store_block(1) [OF fill blk refl True, of "(op, blk)"] st by simp
    then have "unat (r_block s + 1) = Suc (unat (r_block s))"
      using small by (simp add: unat_plus_one filled_to_def)
    with nxt True show ?thesis unfolding acc by (simp add: send_ack_receiving recv_next_def)
  next
    case False
    have "wf_data (fst (flush c (f, w))) = unwire c xs"
      using store_block(2) [OF fill blk refl False, of "(op, blk)"] st by simp
    with False show ?thesis unfolding acc
      by (simp add: receiving_def recv_last_def r_behind_flush r_emit_def Let_def)
  qed
qed

lemma recvfile_step_receiving:
  assumes inv: "receiving c xs s" and good: "good_input xs ev" and small: "blocks xs < 65536"
  shows "receiving c xs (recvfile_step E c ev s)"
proof (cases "r_phase s = Waiting")
  case wait: True
  have fill: "filled_to c xs (unat (r_block s)) (r_file s, r_rw s)" using inv wait by (simp add: receiving_def)
  show ?thesis
  proof (cases ev)
    case Recv_error
    with wait show ?thesis by (simp add: receiving_def)
  next
    case Alarm_clock
    with inv wait fill show ?thesis
      by (auto simp: Let_def intro!: send_ack_receiving) (simp add: receiving_def)
  next
    case (Packet n op blk data)
    let ?s1 = "s\<lparr>r_rw := recv_into op blk data (r_rw s)\<rparr>"
    have s1: "receiving c xs ?s1" using inv wait by (simp add: receiving_def filled_to_recv_into)
    then have sync: "receiving c xs (r_emit Synchnet ?s1)" by (simp add: receiving_def r_emit_def)
    have again: "receiving c xs (send_ack E c (r_emit Synchnet ?s1))"
      using fill by (intro send_ack_receiving) (simp add: r_emit_def filled_to_recv_into)
    have "receiving c xs (recv_accept E c n ?s1)" if "op = DATA" "blk = r_block s"
      using that good Packet recv_accept_receiving [OF fill _ small, of data E op blk]
      by (simp add: good_input_def)
    moreover have "receiving c xs (?s1\<lparr>r_phase := Aborted\<rparr>)" by (simp add: receiving_def)
    ultimately show ?thesis using Packet wait inv s1 sync again by (auto simp: Let_def)
  qed
next
  case False
  with inv show ?thesis
    by (cases ev) (auto simp: receiving_def Let_def r_emit_def)
qed

lemma recvfile_receiving:
  assumes "length xs \<le> m" and "blocks xs < 65536" and "\<forall>ev\<in>set evs. good_input xs ev"
  shows "receiving c xs (recvfile E c \<lparr>wf_data = [], wf_room = m\<rparr> evs)"
proof -
  have "receiving c xs (fold (recvfile_step E c) evs s)" if "receiving c xs s" for s
    using that assms(3)
  proof (induction evs arbitrary: s)
    case (Cons ev evs)
    from Cons.IH [OF recvfile_step_receiving [OF Cons.prems(1) _ assms(2)]] Cons.prems(2) show ?case by simp
  qed simp
  moreover have "receiving c xs (recvfile_start E c \<lparr>wf_data = [], wf_room = m\<rparr>)"
    unfolding recvfile_start_def recv_next_def
    by (intro send_ack_receiving) (simp add: filled_to_init [OF assms(1)])
  ultimately show ?thesis by (simp add: recvfile_def)
qed

end
