(* ===== verification/Tftp_Properties.thy ===== *)
theory Tftp_Properties
  imports Tftp_Transfer
begin

text \<open>
  The properties of the TFTP programs: access checks, requests, complete transfers, and what the
  machines do when nobody answers or the last acknowledgement is lost.
\<close>

section \<open>Paths\<close>

fun components :: "string \<Rightarrow> string list" where
  "components [] = [[]]"
| "components (c # cs) =
     (if c = CHR ''/'' then [] # components cs
      else (c # hd (components cs)) # tl (components cs))"

lemma components_ne [simp]: "components s \<noteq> []"
  by (cases s) auto

lemma components_first:
  "hd (components s) = x \<Longrightarrow> tl (components s) \<noteq> [] \<Longrightarrow> prefix (x @ ''/'') s"
  by (induction s arbitrary: x) (auto split: if_splits)

lemma components_inner:
  "''..'' \<in> set (butlast (tl (components s))) \<Longrightarrow> dotdot_inside s"
proof (induction s)
  case (Cons c cs)
  show ?case
  proof (cases "c = CHR ''/''")
    case True
    with Cons.prems have mem: "''..'' \<in> set (butlast (components cs))" by simp
    then have "hd (components cs) = ''..'' \<and> tl (components cs) \<noteq> [] \<or> ''..'' \<in> set (butlast (tl (components cs)))"
      by (cases "components cs") (auto split: if_splits)
    with Cons.IH True components_first [of cs "''..''"] show ?thesis by auto
  next
    case False
    with Cons show ?thesis by simp
  qed
qed simp

lemma no_dotdot_component:
  assumes "\<not> prefix ''../'' s" and "\<not> dotdot_inside s"
  shows "''..'' \<notin> set (butlast (components s))"
proof
  assume "''..'' \<in> set (butlast (components s))"
  then have "hd (components s) = ''..'' \<and> tl (components s) \<noteq> [] \<or> ''..'' \<in> set (butlast (tl (components s)))"
    by (cases "components s") (auto split: if_splits)
  with assms components_inner components_first [of s "''..''"] show False by auto
qed

text \<open>A file system in which everything exists and may be read and written.\<close>

definition open_fs :: fs_env where
  "open_fs = \<lparr>fs_stat = (\<lambda>_ _. Inr 0x1B6), fs_open = (\<lambda>_ _ _. None), fs_chdir = (\<lambda>_. True)\<rparr>"

text \<open>C17: a file that the server opens for a request was asked for by a name no component of which
  is \<open>..\<close> except perhaps the last, and that begins with one of the permitted directories if it is
  absolute; the file exists and is readable, or writable, for everyone.\<close>

theorem access_checked:
  assumes "validate_access F dirs cwd name mode = Inr fl"
  shows "op_name fl = name \<and> ''..'' \<notin> set (butlast (components name))
    \<and> (name \<noteq> [] \<and> hd name = CHR ''/'' \<longrightarrow> dirs = [] \<or> (\<exists>d\<in>set dirs. prefix d name))
    \<and> (\<exists>m. fs_stat F (op_dir fl) name = Inr m \<and> has m (if mode = RRQ then S_IROTH else S_IWOTH))
    \<and> op_write fl = (mode \<noteq> RRQ)"
  using assms no_dotdot_component [of name]
  by (auto simp: validate_access_def Let_def split: if_splits sum.splits option.splits)

theorem access_checked_witness:
  "''..'' \<notin> set (butlast (components ''/tftpboot/vmlinux''))"
proof -
  have "\<not> isl (validate_access open_fs [''/tftpboot''] ''/'' ''/tftpboot/vmlinux'' RRQ)"
    by code_simp
  then obtain fl where "validate_access open_fs [''/tftpboot''] ''/'' ''/tftpboot/vmlinux'' RRQ = Inr fl"
    by (metis isl_def sum.exhaust)
  from access_checked [OF this] show ?thesis by blast
qed

text \<open>The permitted directory is a prefix of the name, not of the path.\<close>

lemma access_no_boundary:
  "\<not> isl (validate_access open_fs [''/tftpboot''] ''/'' ''/tftpboot.old/secret'' RRQ)"
  by code_simp

lemma access_last_dotdot:
  "\<not> isl (validate_access open_fs [''/tftpboot''] ''/'' ''/tftpboot/..'' RRQ)"
  by code_simp

section \<open>Requests\<close>

lemma scan_nul_at:
  "cp \<le> j \<Longrightarrow> \<forall>i. cp \<le> i \<and> i < j \<longrightarrow> mem i \<noteq> NUL \<Longrightarrow> j < n \<Longrightarrow> mem j = NUL \<Longrightarrow> scan_nul mem n cp = j"
proof (induction "j - cp" arbitrary: cp)
  case 0
  then show ?case by (simp add: scan_nul.simps [of mem n cp])
next
  case (Suc k)
  then have "cp < j" by simp
  with Suc.prems have "mem cp \<noteq> NUL" by simp
  moreover have "scan_nul mem n (Suc cp) = j" using Suc \<open>cp < j\<close> by simp
  ultimately show ?case using \<open>cp < j\<close> Suc.prems(3) by (simp add: scan_nul.simps [of mem n cp])
qed

lemma substring_eq: "j = i + length xs \<Longrightarrow> \<forall>k<length xs. mem (i + k) = xs ! k \<Longrightarrow> substring mem i j = xs"
  by (rule nth_equalityI) (simp_all add: substring_def nth_map_upt)

text \<open>The bytes of a request in the server's buffer.\<close>

definition received :: "string \<Rightarrow> (nat \<Rightarrow> char) \<Rightarrow> bool" where
  "received stuff mem \<longleftrightarrow> (\<forall>i<length stuff. mem (2 + i) = stuff ! i)"

text \<open>The server reads the file name and the conversion out of a request as the client's
  \<open>makerequest\<close> builds it, whatever the case of the letters in the mode.\<close>

theorem request_roundtrip:
  assumes "NUL \<notin> set name" and "NUL \<notin> set mode"
    and "map_of formats (map to_lower mode) = Some c"
    and "received (request_stuff name mode) mem"
  shows "tftp_parse mem (nat (snd (makerequest op name mode))) = Inr (name, c)"
proof -
  let ?stuff = "request_stuff name mode"
  let ?n = "nat (snd (makerequest op name mode))"
  have n: "?n = 2 + length name + 1 + length mode + 1" by (simp add: makerequest_def request_stuff_def)
  have at: "mem (2 + i) = ?stuff ! i" if "i < length ?stuff" for i
    using assms(4) that by (simp add: received_def)
  have len: "length ?stuff = length name + 1 + length mode + 1" by (simp add: request_stuff_def)
  have name: "mem (2 + i) = name ! i" if "i < length name" for i
    using at [of i] that len by (simp add: request_stuff_def nth_append)
  have nul1: "mem (2 + length name) = NUL"
    using at [of "length name"] len by (simp add: request_stuff_def)
  have md: "mem (3 + length name + i) = mode ! i" if "i < length mode" for i
  proof -
    have "mem (2 + (length name + 1 + i)) = mode ! i"
      using at [of "length name + 1 + i"] that len by (simp add: request_stuff_def nth_append)
    moreover have "2 + (length name + 1 + i) = 3 + length name + i" by simp
    ultimately show ?thesis by metis
  qed
  have nul2: "mem (3 + length name + length mode) = NUL"
  proof -
    have "mem (2 + (length name + 1 + length mode)) = NUL"
      using at [of "length name + 1 + length mode"] len by (simp add: request_stuff_def nth_append)
    moreover have "2 + (length name + 1 + length mode) = 3 + length name + length mode" by simp
    ultimately show ?thesis by metis
  qed
  have s1: "scan_nul mem ?n 2 = 2 + length name"
  proof (rule scan_nul_at)
    show "\<forall>i. 2 \<le> i \<and> i < 2 + length name \<longrightarrow> mem i \<noteq> NUL"
    proof (intro allI impI)
      fix i assume i: "2 \<le> i \<and> i < 2 + length name"
      then obtain k where "i = 2 + k" "k < length name" by (metis le_Suc_ex nat_add_left_cancel_less)
      with name assms(1) show "mem i \<noteq> NUL" by (metis nth_mem)
    qed
  qed (use n nul1 in simp_all)
  have s2: "scan_nul mem ?n (3 + length name) = 3 + length name + length mode"
  proof (rule scan_nul_at)
    show "\<forall>i. 3 + length name \<le> i \<and> i < 3 + length name + length mode \<longrightarrow> mem i \<noteq> NUL"
    proof (intro allI impI)
      fix i assume i: "3 + length name \<le> i \<and> i < 3 + length name + length mode"
      then obtain k where "i = 3 + length name + k" "k < length mode"
        by (metis le_Suc_ex nat_add_left_cancel_less)
      with md assms(2) show "mem i \<noteq> NUL" by (metis nth_mem)
    qed
  qed (use n nul2 in simp_all)
  have "substring mem (3 + length name) (3 + length name + length mode) = mode"
    by (rule substring_eq) (use md in auto)
  moreover have "substring mem 2 (2 + length name) = name"
    by (rule substring_eq) (use name in auto)
  ultimately show ?thesis
    using s1 s2 nul1 nul2 assms(3) by (simp add: tftp_parse_def Let_def numeral_3_eq_3 numeral_2_eq_2)
qed

definition demo_mem :: "nat \<Rightarrow> char" where
  "demo_mem i = (if i < 2 then NUL else (request_stuff ''boot'' ''Octet'' @ replicate 600 NUL) ! (i - 2))"

theorem request_roundtrip_witness:
  "tftp_parse demo_mem (nat (snd (makerequest RRQ ''boot'' ''Octet''))) = Inr (''boot'', False)"
proof (rule request_roundtrip)
  show "NUL \<notin> set ''boot''" "NUL \<notin> set ''Octet''" by (simp_all add: NUL_def)
  show "map_of formats (map to_lower ''Octet'') = Some False" by code_simp
  show "received (request_stuff ''boot'' ''Octet'') demo_mem"
    by (simp add: received_def demo_mem_def nth_append)
qed

text \<open>A mode without its terminating zero is taken if the byte behind the datagram is zero.\<close>

lemma request_unterminated:
  "tftp_parse (\<lambda>i. if i < 2 then NUL else (''boot'' @ [NUL] @ ''octet'' @ replicate 600 NUL) ! (i - 2)) 12
     = Inr (''boot'', False)"
  by code_simp

section \<open>Whole transfers\<close>

text \<open>C13: whatever the network does to the acknowledgements, every data packet the server ever sends
  for a file is the segment of the converted file under its block number, counted from 1.\<close>

theorem server_sends_blocks:
  assumes "\<not> rf_fail f" and "blocks (wire c (rf_rest f)) < 65536"
    and "Data k d \<in> set (s_out (sendfile E c f evs))"
  shows "1 \<le> unat k \<and> d = segment (unat k - 1) (wire c (rf_rest f))"
  using sendfile_sending [OF assms(1,2), of E evs] assms(3)
  by (simp add: sending_def sends_blocks_def is_block_def)

definition quiet_env :: tftp_env where
  "quiet_env = \<lparr>send_ok = (\<lambda>_. True), strerror = (\<lambda>_. ''''), io_errno = 0, rexmtval = 5, maxtimeout = 25\<rparr>"

definition demo_file :: rfile where
  "demo_file = \<lparr>rf_rest = [72, 105, 10], rf_fail = False\<rparr>"

theorem server_sends_blocks_witness:
  "segment 0 (wire True (rf_rest demo_file)) = [72, 105, 13, 10]"
proof -
  have ok: "\<not> rf_fail demo_file" "blocks (wire True (rf_rest demo_file)) < 65536"
    by (simp_all add: demo_file_def blocks_def wire_def SEGSIZE_def LF_def CR_def)
  have "Data 1 [72, 105, 13, 10] \<in> set (s_out (sendfile quiet_env True demo_file []))" by code_simp
  from server_sends_blocks [OF ok this] show ?thesis by simp
qed

text \<open>C12: a client that is given data packets only as the server sent them, in any order and as often
  as the network likes, and that finishes, has exactly the server's file, in either mode.\<close>

theorem get_delivers:
  assumes "\<not> rf_fail f" and "blocks (wire c (rf_rest f)) < 65536" and "length (wire c (rf_rest f)) \<le> m"
    and c: "c = (mode = ''netascii'')"
    and evs: "\<forall>n k d. Packet n DATA k d \<in> set evs \<longrightarrow>
      n = 4 + int (length d) \<and> (\<exists>sevs. Data k d \<in> set (s_out (sendfile E' c f sevs)))"
    and fin: "g_phase (get_file E name mode \<lparr>wf_data = [], wf_room = m\<rparr> evs) = Finished"
  shows "wf_data (g_file (get_file E name mode \<lparr>wf_data = [], wf_room = m\<rparr> evs)) = rf_rest f"
proof -
  have "good_input (wire c (rf_rest f)) ev" if "ev \<in> set evs" for ev
    using that evs sendfile_sending [OF assms(1,2)]
    by (fastforce simp: good_input_def sending_def sends_blocks_def split: input.split)
  with get_file_getting [OF assms(3,2)] fin c show ?thesis by (simp add: getting_def)
qed

definition demo_evs :: "input list" where
  "demo_evs = [Alarm_clock, Packet 8 DATA 1 [72, 105, 13, 10]]"

theorem get_delivers_witness:
  "wf_data (g_file (get_file quiet_env ''hi'' ''netascii'' \<lparr>wf_data = [], wf_room = 100\<rparr> demo_evs)) = [72, 105, 10]"
proof -
  have ok: "\<not> rf_fail demo_file" "blocks (wire True (rf_rest demo_file)) < 65536"
    "length (wire True (rf_rest demo_file)) \<le> 100"
    by (simp_all add: demo_file_def blocks_def wire_def SEGSIZE_def LF_def CR_def)
  have sent: "Data 1 [72, 105, 13, 10] \<in> set (s_out (sendfile quiet_env True demo_file []))" by code_simp
  have fin: "g_phase (get_file quiet_env ''hi'' ''netascii'' \<lparr>wf_data = [], wf_room = 100\<rparr> demo_evs) = Finished"
    by code_simp
  show ?thesis
    using get_delivers [OF ok, of "''netascii''" demo_evs quiet_env quiet_env "''hi''"] sent fin
    by (auto simp: demo_evs_def demo_file_def)
qed

text \<open>A server that receives a file and gets data packets only as they belong to it has written
  exactly that file when it sends its final acknowledgement.\<close>

theorem recvfile_delivers:
  assumes "length (wire c file) \<le> m" and "blocks (wire c file) < 65536"
    and "\<forall>ev\<in>set evs. good_input (wire c file) ev"
    and "r_phase (recvfile E c \<lparr>wf_data = [], wf_room = m\<rparr> evs) \<in> {Dallying, Finished}"
  shows "wf_data (r_file (recvfile E c \<lparr>wf_data = [], wf_room = m\<rparr> evs)) = file"
  using recvfile_receiving [OF assms(1-3), of c E] assms(4) by (auto simp: receiving_def)

theorem recvfile_delivers_witness:
  "wf_data (r_file (recvfile quiet_env True \<lparr>wf_data = [], wf_room = 100\<rparr> demo_evs)) = [72, 105, 10]"
proof (rule recvfile_delivers)
  show "length (wire True [72, 105, 10]) \<le> 100" "blocks (wire True [72, 105, 10]) < 65536"
    by (simp_all add: blocks_def wire_def SEGSIZE_def LF_def CR_def)
  show "\<forall>ev\<in>set demo_evs. good_input (wire True [72, 105, 10]) ev" by code_simp
  show "r_phase (recvfile quiet_env True \<lparr>wf_data = [], wf_room = 100\<rparr> demo_evs) \<in> {Dallying, Finished}"
    by code_simp
qed

text \<open>The data packets of a file in order, and the acknowledgements for them.\<close>

definition data_in_order :: "u8 list \<Rightarrow> nat list \<Rightarrow> input list" where
  "data_in_order xs ks =
     map (\<lambda>k. Packet (4 + int (length (segment (k - 1) xs))) DATA (of_nat k) (segment (k - 1) xs)) ks"

lemma u16_of_nat: "k < 65536 \<Longrightarrow> unat (of_nat k :: u16) = k"
  by (simp add: unat_of_nat take_bit_nat_eq_self)

lemma g_send_waits:
  "\<forall>n. send_ok E n \<Longrightarrow> g_phase (get_send E c s) = Waiting \<and> g_block (get_send E c s) = g_block s"
  by (simp add: get_send_def Let_def g_behind_flush g_emit_def)

lemma get_step_data:
  assumes send: "\<forall>n. send_ok E n" and wait: "g_phase s = Waiting" and blk: "g_block s = of_nat k"
    and k: "1 \<le> k" "k \<le> blocks xs"
  shows "(k < blocks xs \<longrightarrow> g_phase (get_step E c (hd (data_in_order xs [k])) s) = Waiting
        \<and> g_block (get_step E c (hd (data_in_order xs [k])) s) = of_nat (Suc k))
    \<and> (k = blocks xs \<longrightarrow> g_phase (get_step E c (hd (data_in_order xs [k])) s) = Finished)"
proof -
  let ?d = "segment (k - 1) xs"
  have full: "length ?d = SEGSIZE \<longleftrightarrow> k < blocks xs"
    using full_segment [of "k - 1" xs] k(1) by simp
  obtain f w where st: "store c (DATA, of_nat k) ?d (g_file s, g_rw s) = (f, w)" by fastforce
  have st1: "get_step E c (hd (data_in_order xs [k])) s
      = get_accept E c (4 + int (length ?d)) (s\<lparr>g_rw := recv_into DATA (of_nat k) ?d (g_rw s)\<rparr>)"
    using wait blk by (simp add: data_in_order_def DATA_def ERROR_def)
  have acc: "get_accept E c (4 + int (length ?d)) (s\<lparr>g_rw := recv_into DATA (of_nat k) ?d (g_rw s)\<rparr>)
      = (if k < blocks xs
         then get_send E c (s\<lparr>g_file := f, g_rw := w, g_amount := g_amount s + int (length ?d),
                g_pkt := Ack (g_block s), g_block := g_block s + 1, g_timeout := 0\<rparr>)
         else get_end c Finished (s\<lparr>g_file := f, g_rw := w, g_amount := g_amount s + int (length ?d)\<rparr>))"
    using full st by (simp add: get_accept_def writeit_store Let_def)
  show ?thesis unfolding st1 acc
    using g_send_waits [OF send] blk by (simp add: get_end_def)
qed

lemma get_in_order:
  "\<forall>n. send_ok E n \<Longrightarrow> g_phase s = Waiting \<Longrightarrow> g_block s = of_nat k \<Longrightarrow> 1 \<le> k \<Longrightarrow> k \<le> blocks xs \<Longrightarrow>
   g_phase (fold (get_step E c) (data_in_order xs [k..<Suc (blocks xs)]) s) = Finished"
proof (induction "blocks xs - k" arbitrary: k s)
  case 0
  then have "[k..<Suc (blocks xs)] = [k]" by simp
  with get_step_data [OF "0.prems", of c] "0.hyps" "0.prems" show ?case
    by (simp add: data_in_order_def del: get_step.simps)
next
  case (Suc n)
  then have k: "k < blocks xs" by simp
  then have "[k..<Suc (blocks xs)] = k # [Suc k..<Suc (blocks xs)]" by (simp add: upt_conv_Cons)
  moreover have "g_phase (fold (get_step E c) (data_in_order xs [Suc k..<Suc (blocks xs)])
      (get_step E c (hd (data_in_order xs [k])) s)) = Finished"
    using get_step_data [OF Suc.prems, of c] k Suc.hyps(2) Suc.prems(1)
    by (intro Suc.hyps(1)) (auto simp del: get_step.simps)
  ultimately show ?case by (simp add: data_in_order_def del: get_step.simps)
qed

text \<open>C18: over a network that delivers the packets of a file in order the client finishes, with the
  whole file.\<close>

theorem get_completes:
  assumes "\<forall>n. send_ok E n" and "blocks (wire c file) < 65536" and "length (wire c file) \<le> m"
    and "c = (mode = ''netascii'')"
  shows "g_phase (get_file E name mode \<lparr>wf_data = [], wf_room = m\<rparr>
        (data_in_order (wire c file) [1..<Suc (blocks (wire c file))])) = Finished
    \<and> wf_data (g_file (get_file E name mode \<lparr>wf_data = [], wf_room = m\<rparr>
        (data_in_order (wire c file) [1..<Suc (blocks (wire c file))]))) = file"
proof -
  let ?evs = "data_in_order (wire c file) [1..<Suc (blocks (wire c file))]"
  have "\<forall>ev\<in>set ?evs. good_input (wire c file) ev"
    using assms(2) by (auto simp: data_in_order_def good_input_def is_block_def u16_of_nat)
  from get_file_getting [OF assms(3,2) this, of mode E name]
  have "g_phase (get_file E name mode \<lparr>wf_data = [], wf_room = m\<rparr> ?evs) = Finished \<Longrightarrow>
      wf_data (g_file (get_file E name mode \<lparr>wf_data = [], wf_room = m\<rparr> ?evs)) = file"
    using assms(4) by (simp add: getting_def)
  moreover have "g_phase (get_file E name mode \<lparr>wf_data = [], wf_room = m\<rparr> ?evs) = Finished"
    unfolding get_file_def using g_send_waits [OF assms(1)]
    by (intro get_in_order assms(1)) (simp_all add: get_start_def blocks_def)
  ultimately show ?thesis by blast
qed

theorem get_completes_witness:
  "wf_data (g_file (get_file quiet_env ''hi'' ''octet'' \<lparr>wf_data = [], wf_room = 3\<rparr>
     (data_in_order (wire False [1, 13, 2]) [1..<Suc (blocks (wire False [1, 13, 2]))]))) = [1, 13, 2]"
  using get_completes [of quiet_env False "[1, 13, 2]" 3 "''octet''" "''hi''"]
  by (simp add: quiet_env_def blocks_def wire_def SEGSIZE_def)

section \<open>Putting a file\<close>

text \<open>The client is still before its first acknowledgement, or done: it has sent requests only.\<close>

definition put_idle :: "string \<Rightarrow> string \<Rightarrow> put \<Rightarrow> bool" where
  "put_idle name mode s \<longleftrightarrow> (\<forall>k d. Data k d \<notin> set (p_out s)) \<and> p_amount s = 0
     \<and> (p_phase s = Waiting \<longrightarrow> p_first s \<and> p_size s = snd (makerequest WRQ name mode) - 4
          \<and> p_pkt s = Request WRQ name mode)"

lemma put_send_idle:
  "put_idle name mode s \<Longrightarrow> p_first s \<Longrightarrow> p_size s = snd (makerequest WRQ name mode) - 4 \<Longrightarrow>
   p_pkt s = Request WRQ name mode \<Longrightarrow> put_idle name mode (put_send E c s)"
  by (auto simp: put_idle_def put_send_def p_emit_def Let_def split: prod.split)

text \<open>A client that is asked to put a file sends no data, whatever the server answers, unless the
  request happens to be exactly 516 bytes long: the loop that should go on after the first
  acknowledgement is left, for the length of the request is not that of a full segment.\<close>

theorem put_sends_nothing:
  assumes "snd (makerequest WRQ name mode) \<noteq> 516"
  shows "(\<forall>k d. Data k d \<notin> set (p_out (put_file E name mode f evs))) \<and> p_amount (put_file E name mode f evs) = 0"
proof -
  have "put_idle name mode (put_step E c ev s)" if "put_idle name mode s" for c ev s
  proof (cases "p_phase s = Waiting")
    case True
    with that have w: "p_first s" "p_size s = snd (makerequest WRQ name mode) - 4" "p_pkt s = Request WRQ name mode"
      by (simp_all add: put_idle_def)
    have t: "put_idle name mode (put_send E c (s\<lparr>p_timeout := t\<rparr>))" for t
      using that w by (intro put_send_idle) (simp_all add: put_idle_def)
    have y: "put_idle name mode (put_send E c (p_emit Synchnet s))"
      using that w by (intro put_send_idle) (simp_all add: put_idle_def p_emit_def)
    show ?thesis using that w t y assms True
      by (cases ev) (auto simp: Let_def put_idle_def p_emit_def SEGSIZE_def)
  qed (use that in simp)
  then have "put_idle name mode (fold (put_step E c) evs s)" if "put_idle name mode s" for c s
    using that by (induction evs arbitrary: s) simp_all
  moreover have "put_idle name mode (put_start E name mode f)"
    unfolding put_start_def Let_def makerequest_def split
    by (rule put_send_idle) (simp_all add: put_idle_def makerequest_def)
  ultimately show ?thesis by (simp add: put_file_def put_idle_def)
qed

theorem put_sends_nothing_witness:
  "p_phase (put_file quiet_env ''hi'' ''octet'' demo_file [Packet 4 ACK 0 []]) = Finished
   \<and> (\<forall>k d. Data k d \<notin> set (p_out (put_file quiet_env ''hi'' ''octet'' demo_file [Packet 4 ACK 0 []])))"
proof -
  have "p_phase (put_file quiet_env ''hi'' ''octet'' demo_file [Packet 4 ACK 0 []]) = Finished" by code_simp
  moreover have "snd (makerequest WRQ ''hi'' ''octet'') \<noteq> 516" by code_simp
  ultimately show ?thesis using put_sends_nothing by blast
qed

section \<open>Silence\<close>

lemma send_data_phase:
  "s_phase (send_data E c s) \<in> {Waiting, Aborted} \<and> s_timeout (send_data E c s) = s_timeout s"
  by (simp add: send_data_def s_emit_def Let_def split: prod.split)

lemma alarm_step:
  "s_phase (sendfile_step E c Alarm_clock s) = Waiting \<Longrightarrow>
   s_phase s = Waiting \<and> s_timeout (sendfile_step E c Alarm_clock s) = s_timeout s + rexmtval E
   \<and> s_timeout s + rexmtval E < maxtimeout E"
  using send_data_phase [of E c "s\<lparr>s_timeout := s_timeout s + rexmtval E\<rparr>"]
  by (auto simp: Let_def split: if_splits)

lemma alarms_waiting:
  "s_phase (fold (sendfile_step E c) (replicate n Alarm_clock) s) = Waiting \<Longrightarrow> 0 < n \<Longrightarrow>
   s_timeout s + int n * rexmtval E < maxtimeout E"
proof (induction n arbitrary: s)
  case (Suc n)
  let ?s = "sendfile_step E c Alarm_clock s"
  have stuck: "s_phase (fold (sendfile_step E c) evs u) = s_phase u" if "s_phase u \<noteq> Waiting" for evs u
    using that by (induction evs) simp_all
  have "s_phase (fold (sendfile_step E c) (replicate n Alarm_clock) ?s) = Waiting"
    using Suc.prems(1) by (simp del: sendfile_step.simps fold_replicate)
  then have w: "s_phase ?s = Waiting" using stuck by metis
  note a = alarm_step [OF w]
  show ?case
  proof (cases "n = 0")
    case True
    with a show ?thesis by simp
  next
    case False
    with Suc.IH [of ?s] Suc.prems(1) a show ?thesis by (simp add: algebra_simps del: sendfile_step.simps fold_replicate)
  qed
qed simp

text \<open>A server that hears nothing does not wait for ever: with the times it has (5 and 25 seconds)
  it has stopped after five alarms, wherever in the transfer it was.\<close>

theorem server_gives_up:
  assumes "rexmtval E = 5" and "maxtimeout E = 25" and "0 \<le> s_timeout s"
  shows "s_phase (fold (sendfile_step E c) (replicate 5 Alarm_clock) s) \<noteq> Waiting"
  using alarms_waiting [of E c 5 s] assms by auto

theorem server_gives_up_witness:
  "s_phase (fold (sendfile_step quiet_env True) (replicate 5 Alarm_clock) (sendfile_start quiet_env True demo_file))
     \<noteq> Waiting"
proof (rule server_gives_up)
  show "rexmtval quiet_env = 5" "maxtimeout quiet_env = 25" by (simp_all add: quiet_env_def)
  show "0 \<le> s_timeout (sendfile_start quiet_env True demo_file)" by code_simp
qed

section \<open>The last acknowledgement\<close>

text \<open>The headers in the two buffers: what was received last into each.\<close>

definition header :: "rw \<Rightarrow> bool \<Rightarrow> u16 \<times> u16" where
  "header r i = (th_opcode (bfs r i), th_block (bfs r i))"

lemma write_behind_header:
  "write_behind c (f, r) = (n, f', r') \<Longrightarrow> header r' = header r \<and> current r' = current r"
  by (auto simp: write_behind_def Let_def header_def set_counter_def fun_eq_iff split: if_splits prod.splits)

lemma r_behind_header:
  "header (r_rw (r_behind c s)) = header (r_rw s) \<and> current (r_rw (r_behind c s)) = current (r_rw s)
   \<and> r_block (r_behind c s) = r_block s \<and> r_phase (r_behind c s) = r_phase s"
  using write_behind_header by (auto simp: r_behind_def split: prod.split)

lemma writeit_header:
  assumes "writeit c n (f, r) = (k, f', r')"
  shows "header r' = header r \<and> current r' = (\<not> current r) \<and> k = n"
proof -
  let ?r = "(set_counter (current r) n r)\<lparr>current := \<not> current r\<rparr>"
  have h: "header ?r = header r" by (auto simp: header_def set_counter_def fun_eq_iff)
  have s: "header (set_counter i m u) = header u \<and> current (set_counter i m u) = current u" for i m u
    by (auto simp: header_def set_counter_def fun_eq_iff)
  obtain j f2 r2 where wb: "write_behind c (f, ?r) = (j, f2, r2)" by (metis prod_cases3)
  define free where "free = (counter (bfs ?r (current ?r)) = BF_FREE)"
  have res: "k = n" "r' = (if free then set_counter (current ?r) BF_ALLOC ?r else set_counter (current r2) BF_ALLOC r2)"
    using assms wb by (cases free; simp add: writeit_def Let_def free_def)+
  then show ?thesis using h write_behind_header [OF wb] by (cases free) (simp_all add: s)
qed

text \<open>
  The buffer not in use holds the packet before the one awaited, or nothing yet; in the last wait it
  is the one in use.
\<close>

definition old_header :: "u16 \<times> u16 \<Rightarrow> u16 \<Rightarrow> bool" where
  "old_header h b \<longleftrightarrow> fst h \<noteq> DATA \<or> snd h = b - 1"

definition dp_stale :: "receiver \<Rightarrow> bool" where
  "dp_stale s \<longleftrightarrow>
     (r_phase s = Waiting \<longrightarrow> old_header (header (r_rw s) (\<not> current (r_rw s))) (r_block s))
     \<and> (r_phase s = Dallying \<longrightarrow> old_header (header (r_rw s) (current (r_rw s))) (r_block s))"

lemma send_ack_stale:
  "old_header (header (r_rw s) (\<not> current (r_rw s))) (r_block s) \<Longrightarrow> dp_stale (send_ack E c s)"
  using r_behind_header [of c "r_emit (r_pkt s) s"]
  by (simp add: send_ack_def Let_def) (simp add: dp_stale_def r_emit_def)

lemma recvfile_step_stale:
  assumes inv: "dp_stale s"
  shows "dp_stale (recvfile_step E c ev s)"
proof (cases "r_phase s = Waiting")
  case wait: True
  have old: "old_header (header (r_rw s) (\<not> current (r_rw s))) (r_block s)"
    using inv wait by (simp add: dp_stale_def)
  show ?thesis
  proof (cases ev)
    case Recv_error
    with wait show ?thesis by (simp add: dp_stale_def)
  next
    case Alarm_clock
    with wait old send_ack_stale [of "s\<lparr>r_timeout := r_timeout s + rexmtval E\<rparr>" E c] show ?thesis
      by (simp add: Let_def) (simp add: dp_stale_def)
  next
    case (Packet n op blk data)
    let ?r = "recv_into op blk data (r_rw s)"
    let ?s1 = "s\<lparr>r_rw := ?r\<rparr>"
    have hd: "header ?r (\<not> current ?r) = header (r_rw s) (\<not> current (r_rw s))"
      "header ?r (current ?r) = (op, blk)" "current ?r = current (r_rw s)"
      by (simp_all add: header_def recv_into_def)
    have s1: "dp_stale ?s1" "dp_stale (r_emit Synchnet ?s1)" "dp_stale (?s1\<lparr>r_phase := Aborted\<rparr>)"
      using old hd wait by (simp_all add: dp_stale_def r_emit_def)
    have again: "dp_stale (send_ack E c (r_emit Synchnet ?s1))"
      using old hd by (intro send_ack_stale) (simp add: r_emit_def)
    have "dp_stale (recv_accept E c n ?s1)" if blk: "blk = r_block s"
    proof -
      obtain k f w where wr: "writeit c (n - 4) (r_file s, ?r) = (k, f, w)" by (metis prod_cases3)
      note wh = writeit_header [OF wr]
      let ?s2 = "s\<lparr>r_file := f, r_rw := w, r_size := n - 4\<rparr>"
      have acc: "recv_accept E c n ?s1
          = (if n - 4 = int SEGSIZE then recv_next E c ?s2 else recv_last c ?s2)"
        using wr wh by (simp add: recv_accept_def Let_def)
      have "dp_stale (recv_next E c ?s2)"
        unfolding recv_next_def using wh hd blk
        by (intro send_ack_stale) (simp add: old_header_def)
      moreover have "dp_stale (recv_last c ?s2)"
        using wh hd old r_behind_header [of c ?s2]
        by (simp add: recv_last_def Let_def dp_stale_def r_emit_def)
      ultimately show ?thesis unfolding acc by (rule if_both)
    qed
    with Packet wait s1 again show ?thesis by (auto simp: Let_def)
  qed
next
  case False
  with inv show ?thesis
    by (cases "r_phase s = Dallying"; cases ev) (simp_all add: dp_stale_def Let_def r_emit_def)
qed

lemma recvfile_stale: "dp_stale (recvfile E c f evs)"
proof -
  have "dp_stale (fold (recvfile_step E c) evs s)" if "dp_stale s" for s
    using that
  proof (induction evs arbitrary: s)
    case (Cons ev evs)
    from Cons.IH [OF recvfile_step_stale [OF Cons.prems]] show ?case by simp
  qed simp
  moreover have "dp_stale (recvfile_start E c f)"
    unfolding recvfile_start_def recv_next_def
    by (intro send_ack_stale) (simp add: old_header_def header_def w_init_def rw_init_def bfs_zero_def DATA_def)
  ultimately show ?thesis by (simp add: recvfile_def)
qed

text \<open>A server that has received a file never repeats its final acknowledgement: the test that
  should recognise a repeated last packet reads the header of the buffer before it, so whatever
  arrives in the last wait, nothing more is sent.\<close>

theorem final_ack_not_repeated:
  assumes "r_phase (recvfile E c f evs) = Dallying"
  shows "r_out (recvfile_step E c ev (recvfile E c f evs)) = r_out (recvfile E c f evs)"
proof -
  let ?s = "recvfile E c f evs"
  have "old_header (header (r_rw ?s) (current (r_rw ?s))) (r_block ?s)"
    using recvfile_stale [of E c f evs] assms by (simp add: dp_stale_def)
  moreover have "r_block ?s \<noteq> r_block ?s - 1" by simp
  ultimately show ?thesis using assms
    by (cases ev) (auto simp: Let_def old_header_def header_def r_emit_def)
qed

theorem final_ack_not_repeated_witness:
  "r_out (recvfile_step quiet_env True (Packet 8 DATA 1 [72, 105, 13, 10])
      (recvfile quiet_env True \<lparr>wf_data = [], wf_room = 100\<rparr> demo_evs))
   = r_out (recvfile quiet_env True \<lparr>wf_data = [], wf_room = 100\<rparr> demo_evs)"
proof (rule final_ack_not_repeated)
  show "r_phase (recvfile quiet_env True \<lparr>wf_data = [], wf_room = 100\<rparr> demo_evs) = Dallying" by code_simp
qed

section \<open>The buffers alone\<close>

text \<open>The double buffers are transparent: a file read in segments, running ahead any number of times
  before each, and written in the same segments, writing behind any number of times before each,
  is copied unchanged, in octet mode and through netascii.\<close>

theorem buffers_copy:
  assumes "\<not> rf_fail f" and "length ahead = blocks (wire c (rf_rest f))"
    and "length behind = length ahead" and "length hs = length ahead"
    and "length (wire c (rf_rest f)) \<le> m"
  shows "wf_data (fst (flush c (wr.stores c
      (zip behind (zip hs (rd.fetches c ahead (f, r_init b)))) (\<lparr>wf_data = [], wf_room = m\<rparr>, w_init b')))) = rf_rest f"
proof -
  let ?xs = "wire c (rf_rest f)"
  have rd: "reading c (f, r_init b)" "unread c (f, r_init b) = ?xs"
    using reading_init [OF assms(1)] by (simp_all add: wire_def)
  have segs: "rd.fetches c ahead (f, r_init b) = map (\<lambda>k. segment k ?xs) [0..<blocks ?xs]"
    using rd.fetches_segments [OF rd(1), of ahead] rd(2) assms(2) by simp
  have upto: "concat (map (\<lambda>k. segment k ?xs) [0..<n]) = take (n * SEGSIZE) ?xs" for n
    by (induction n) (simp_all add: take_segment del: mult_Suc)
  have "length ?xs \<le> blocks ?xs * SEGSIZE"
    by (simp add: blocks_def SEGSIZE_def)
  then have all: "concat (map (\<lambda>k. segment k ?xs) [0..<blocks ?xs]) = ?xs" by (simp add: upto)
  let ?ds = "zip behind (zip hs (rd.fetches c ahead (f, r_init b)))"
  have "map (snd \<circ> snd) ?ds = map (\<lambda>k. segment k ?xs) [0..<blocks ?xs]"
    using assms(2-4) by (simp add: segs map_zip_map map_map [symmetric] del: map_map)
  then have "concat (map (snd \<circ> snd) ?ds) = ?xs" using all by simp
  with wr.stores_contents [OF writing_init, of ?ds m b' c] assms(5) roomy_init [of m b']
  show ?thesis by (simp add: wire_def from_netascii_inverse split: if_splits)
qed

theorem buffers_copy_witness:
  "wf_data (fst (flush True (wr.stores True
      (zip [2] (zip [(DATA, 1)] (rd.fetches True [3] (demo_file, r_init bfs_zero))))
      (\<lparr>wf_data = [], wf_room = 10\<rparr>, w_init bfs_zero)))) = [72, 105, 10]"
  using buffers_copy [of demo_file "[3]" True "[2]" "[(DATA, 1)]" 10 bfs_zero bfs_zero]
  by (simp add: demo_file_def blocks_def wire_def SEGSIZE_def LF_def CR_def)

end
