(* ===== verification/Telnet_State.thy ===== *)
theory Telnet_State
  imports Netkit_Prelude
begin

text \<open>
  The TELNET server's protocol state (\<^verbatim>\<open>state.c\<close> of \<^verbatim>\<open>telnetd\<close>, with the flags of \<^verbatim>\<open>defs.h\<close>), as the
  makefile configures it: without \<open>LINEMODE\<close>, \<open>ENCRYPT\<close> and \<open>AUTHENTICATE\<close>, and with diagnostics
  switched off. What the server does to the terminal is recorded as a list of actions; bytes for
  the network are appended to \<open>net_out\<close> as if its buffer had no end (its bound is the subject of
  the last section), bytes for the process go through \<open>ptyobuf\<close>, which has one.
\<close>

section \<open>Codes\<close>

definition IAC :: u8 where "IAC = 255"
definition DONT :: u8 where "DONT = 254"
definition DO :: u8 where "DO = 253"
definition WONT :: u8 where "WONT = 252"
definition WILL :: u8 where "WILL = 251"
definition SB :: u8 where "SB = 250"
definition EL :: u8 where "EL = 248"
definition EC :: u8 where "EC = 247"
definition AYT :: u8 where "AYT = 246"
definition AO :: u8 where "AO = 245"
definition IP :: u8 where "IP = 244"
definition BREAK :: u8 where "BREAK = 243"
definition DM :: u8 where "DM = 242"
definition SE :: u8 where "SE = 240"
definition EOR :: u8 where "EOR = 239"
definition ABORT :: u8 where "ABORT = 238"
definition SUSP :: u8 where "SUSP = 237"
definition xEOF :: u8 where "xEOF = 236"

definition TELOPT_BINARY :: u8 where "TELOPT_BINARY = 0"
definition TELOPT_ECHO :: u8 where "TELOPT_ECHO = 1"
definition TELOPT_SGA :: u8 where "TELOPT_SGA = 3"
definition TELOPT_STATUS :: u8 where "TELOPT_STATUS = 5"
definition TELOPT_TM :: u8 where "TELOPT_TM = 6"
definition TELOPT_LOGOUT :: u8 where "TELOPT_LOGOUT = 18"
definition TELOPT_TTYPE :: u8 where "TELOPT_TTYPE = 24"
definition TELOPT_EOR :: u8 where "TELOPT_EOR = 25"
definition TELOPT_NAWS :: u8 where "TELOPT_NAWS = 31"
definition TELOPT_TSPEED :: u8 where "TELOPT_TSPEED = 32"
definition TELOPT_LFLOW :: u8 where "TELOPT_LFLOW = 33"
definition TELOPT_XDISPLOC :: u8 where "TELOPT_XDISPLOC = 35"
definition TELOPT_ENVIRON :: u8 where "TELOPT_ENVIRON = 39"
definition NTELOPTS :: nat where "NTELOPTS = 40"

definition TELQUAL_IS :: u8 where "TELQUAL_IS = 0"
definition TELQUAL_SEND :: u8 where "TELQUAL_SEND = 1"
definition TELQUAL_INFO :: u8 where "TELQUAL_INFO = 2"
definition ENV_VAR :: u8 where "ENV_VAR = 0"
definition ENV_VALUE :: u8 where "ENV_VALUE = 1"
definition ENV_ESC :: u8 where "ENV_ESC = 2"

lemmas telnet_codes = IAC_def DONT_def DO_def WONT_def WILL_def SB_def EL_def EC_def AYT_def AO_def
  IP_def BREAK_def DM_def SE_def EOR_def ABORT_def SUSP_def xEOF_def

lemmas telnet_opts = TELOPT_BINARY_def TELOPT_ECHO_def TELOPT_SGA_def TELOPT_STATUS_def TELOPT_TM_def
  TELOPT_LOGOUT_def TELOPT_TTYPE_def TELOPT_EOR_def TELOPT_NAWS_def TELOPT_TSPEED_def
  TELOPT_LFLOW_def TELOPT_XDISPLOC_def TELOPT_ENVIRON_def

section \<open>State\<close>

datatype slc_fun =
    SLC_AO | SLC_EC | SLC_EL | SLC_IP | SLC_ABORT | SLC_SUSP | SLC_EOF | SLC_XON | SLC_XOFF

datatype clock = TtypeSubopt | TspeedSubopt | XdisplocSubopt | EnvironSubopt | GotDM

datatype action =
    Init_termbuf
  | Set_termbuf
  | Tty_binaryin bool
  | Tty_binaryout bool
  | Tty_setecho bool
  | Tty_rspeed int
  | Tty_tspeed int
  | Set_winsize int int
  | Netflush
  | Netclear
  | Urgent_mark
  | Cleanup

datatype ts = TS_DATA | TS_IAC | TS_CR | TS_SB | TS_SE | TS_WILL | TS_WONT | TS_DO | TS_DONT

text \<open>
  The environment: the characters the special functions stand for (none: no \<open>sptr\<close>), the size of
  \<open>ptyobuf\<close>, how many bytes the process takes at a time, whether there is urgent data, the name of
  the host and the flow control mode.
\<close>

record tel_env =
  slc_char :: "slc_fun \<Rightarrow> u8 option"
  pty_size :: nat
  pty_takes :: nat
  oob :: bool
  host_name :: "u8 list"
  flowmode :: u8

record telnetd =
  options :: "u8 \<Rightarrow> u8"
  do_dont_resp :: "u8 \<Rightarrow> u8"
  will_wont_resp :: "u8 \<Rightarrow> u8"
  net_out :: "u8 list"
  pbackp :: nat
  ptyobuf :: "u8 list"
  pty_in :: "u8 list"
  ts_state :: ts
  subbuffer :: "nat \<Rightarrow> u8"
  subpointer :: nat
  subend :: nat
  clocks :: "clock \<Rightarrow> nat"
  system_clock :: nat
  not42 :: bool
  turn_on_sga :: bool
  synching :: bool
  slc_flag :: "slc_fun \<Rightarrow> u8"
  terminaltype :: "u8 list"
  def_size :: "int \<times> int"
  def_speed :: "int \<times> int"
  environ :: "u8 list \<Rightarrow> u8 list option"
  actions :: "action list"
  exited :: bool

definition act :: "action \<Rightarrow> telnetd \<Rightarrow> telnetd" where
  "act a s = s\<lparr>actions := actions s @ [a]\<rparr>"

definition settimer :: "clock \<Rightarrow> telnetd \<Rightarrow> telnetd" where
  "settimer c s =
     (let n = Suc (system_clock s) in s\<lparr>system_clock := n, clocks := (clocks s)(c := n)\<rparr>)"

definition netoprintf :: "u8 list \<Rightarrow> telnetd \<Rightarrow> telnetd" where
  "netoprintf bs s = s\<lparr>net_out := net_out s @ bs\<rparr>"

text \<open>
  \<open>ptyobuf\<close> holds \<open>pbackp\<close> bytes already written and then those listed; \<open>ptyflush\<close> writes as many
  as the process takes, and the buffer starts afresh when it is empty.
\<close>

definition pty_put :: "u8 \<Rightarrow> telnetd \<Rightarrow> telnetd" where
  "pty_put c s = s\<lparr>ptyobuf := ptyobuf s @ [c]\<rparr>"

definition ptyflush :: "tel_env \<Rightarrow> telnetd \<Rightarrow> telnetd" where
  "ptyflush E s =
     (let n = min (length (ptyobuf s)) (pty_takes E); rest = drop n (ptyobuf s)
      in s\<lparr>pty_in := pty_in s @ take n (ptyobuf s), ptyobuf := rest,
           pbackp := (if rest = [] then 0 else pbackp s + n)\<rparr>)"

section \<open>Option flags\<close>

definition MY_STATE_WILL :: u8 where "MY_STATE_WILL = 1"
definition MY_WANT_STATE_WILL :: u8 where "MY_WANT_STATE_WILL = 2"
definition MY_STATE_DO :: u8 where "MY_STATE_DO = 4"
definition MY_WANT_STATE_DO :: u8 where "MY_WANT_STATE_DO = 8"

definition opt_is :: "u8 \<Rightarrow> u8 \<Rightarrow> telnetd \<Rightarrow> bool" where
  "opt_is flag opt s \<longleftrightarrow> options s opt AND flag \<noteq> 0"

definition set_opt :: "u8 \<Rightarrow> bool \<Rightarrow> u8 \<Rightarrow> telnetd \<Rightarrow> telnetd" where
  "set_opt flag on opt s =
     s\<lparr>options := (options s)(opt := (if on then options s opt OR flag else options s opt AND NOT flag))\<rparr>"

abbreviation "my_state_is_will \<equiv> opt_is MY_STATE_WILL"
abbreviation "my_want_state_is_will \<equiv> opt_is MY_WANT_STATE_WILL"
abbreviation "his_state_is_will \<equiv> opt_is MY_STATE_DO"
abbreviation "his_want_state_is_will \<equiv> opt_is MY_WANT_STATE_DO"
abbreviation "set_my_state \<equiv> set_opt MY_STATE_WILL"
abbreviation "set_my_want_state \<equiv> set_opt MY_WANT_STATE_WILL"
abbreviation "set_his_state \<equiv> set_opt MY_STATE_DO"
abbreviation "set_his_want_state \<equiv> set_opt MY_WANT_STATE_DO"

text \<open>
  The tricky macros: adding the lower bit sets the upper one exactly if the two differ.
\<close>

definition my_will_wont_is_changing :: "u8 \<Rightarrow> telnetd \<Rightarrow> bool" where
  "my_will_wont_is_changing opt s \<longleftrightarrow> (options s opt + MY_STATE_WILL) AND MY_WANT_STATE_WILL \<noteq> 0"

definition my_do_dont_is_changing :: "u8 \<Rightarrow> telnetd \<Rightarrow> bool" where
  "my_do_dont_is_changing opt s \<longleftrightarrow> (options s opt + MY_STATE_DO) AND MY_WANT_STATE_DO \<noteq> 0"

section \<open>Requests and replies\<close>

definition inc_do_dont :: "u8 \<Rightarrow> telnetd \<Rightarrow> telnetd" where
  "inc_do_dont opt s = s\<lparr>do_dont_resp := (do_dont_resp s)(opt := do_dont_resp s opt + 1)\<rparr>"

definition inc_will_wont :: "u8 \<Rightarrow> telnetd \<Rightarrow> telnetd" where
  "inc_will_wont opt s = s\<lparr>will_wont_resp := (will_wont_resp s)(opt := will_wont_resp s opt + 1)\<rparr>"

definition send_do :: "u8 \<Rightarrow> bool \<Rightarrow> telnetd \<Rightarrow> telnetd" where
  "send_do opt init s =
     (if init \<and> (do_dont_resp s opt = 0 \<and> his_state_is_will opt s \<or> his_want_state_is_will opt s)
      then s
      else let s1 = (if init then inc_do_dont opt (set_his_want_state (opt \<noteq> TELOPT_TM) opt s) else s)
           in netoprintf [IAC, DO, opt] s1)"

definition send_dont :: "u8 \<Rightarrow> bool \<Rightarrow> telnetd \<Rightarrow> telnetd" where
  "send_dont opt init s =
     (if init \<and> (do_dont_resp s opt = 0 \<and> \<not> his_state_is_will opt s \<or> \<not> his_want_state_is_will opt s)
      then s
      else let s1 = (if init then inc_do_dont opt (set_his_want_state False opt s) else s)
           in netoprintf [IAC, DONT, opt] s1)"

definition send_will :: "u8 \<Rightarrow> bool \<Rightarrow> telnetd \<Rightarrow> telnetd" where
  "send_will opt init s =
     (if init \<and> (will_wont_resp s opt = 0 \<and> my_state_is_will opt s \<or> my_want_state_is_will opt s)
      then s
      else let s1 = (if init then inc_will_wont opt (set_my_want_state True opt s) else s)
           in netoprintf [IAC, WILL, opt] s1)"

definition send_wont :: "u8 \<Rightarrow> bool \<Rightarrow> telnetd \<Rightarrow> telnetd" where
  "send_wont opt init s =
     (if init \<and> (will_wont_resp s opt = 0 \<and> \<not> my_state_is_will opt s \<or> \<not> my_want_state_is_will opt s)
      then s
      else let s1 = (if init then inc_will_wont opt (set_my_want_state False opt s) else s)
           in netoprintf [IAC, WONT, opt] s1)"

text \<open>
  An answer came in: one request fewer is open, and one fewer still if the answer says what was the
  case already.
\<close>

definition answered :: "bool \<Rightarrow> u8 \<Rightarrow> u8" where
  "answered same r =
     (if r \<noteq> 0 then (let r1 = r - 1 in if r1 \<noteq> 0 \<and> same then r1 - 1 else r1) else 0)"

definition his_answer :: "bool \<Rightarrow> u8 \<Rightarrow> telnetd \<Rightarrow> telnetd" where
  "his_answer on opt s =
     s\<lparr>do_dont_resp := (do_dont_resp s)(opt :=
         answered (his_state_is_will opt s = on) (do_dont_resp s opt))\<rparr>"

definition my_answer :: "bool \<Rightarrow> u8 \<Rightarrow> telnetd \<Rightarrow> telnetd" where
  "my_answer on opt s =
     s\<lparr>will_wont_resp := (will_wont_resp s)(opt :=
         answered (my_state_is_will opt s = on) (will_wont_resp s opt))\<rparr>"

definition SLC_LEVELBITS :: u8 where "SLC_LEVELBITS = 3"
definition SLC_DEFAULT :: u8 where "SLC_DEFAULT = 3"
definition SLC_CANTCHANGE :: u8 where "SLC_CANTCHANGE = 1"

definition set_flow_level :: "u8 \<Rightarrow> telnetd \<Rightarrow> telnetd" where
  "set_flow_level lv s =
     s\<lparr>slc_flag := (slc_flag s)
         (SLC_XON := (slc_flag s SLC_XON AND NOT SLC_LEVELBITS) OR lv,
          SLC_XOFF := (slc_flag s SLC_XOFF AND NOT SLC_LEVELBITS) OR lv)\<rparr>"

text \<open>The \<open>switch\<close> for a WILL that was not asked for: whether to agree, and what is done.\<close>

definition will_switch :: "u8 \<Rightarrow> telnetd \<Rightarrow> bool \<times> telnetd" where
  "will_switch opt s =
     (if opt = TELOPT_BINARY
      then (True, act Set_termbuf (act (Tty_binaryin True) (act Init_termbuf s)))
      else if opt = TELOPT_ECHO then (False, s\<lparr>not42 := False\<rparr>)
      else if opt = TELOPT_LFLOW then (True, set_flow_level SLC_DEFAULT s)
      else if opt \<in> {TELOPT_TTYPE, TELOPT_SGA, TELOPT_NAWS, TELOPT_TSPEED, TELOPT_XDISPLOC, TELOPT_ENVIRON}
      then (True, s)
      else (False, s))"

definition willoption :: "u8 \<Rightarrow> telnetd \<Rightarrow> telnetd" where
  "willoption opt s0 =
     (let s = his_answer True opt s0 in
      if do_dont_resp s opt = 0 then
        (if \<not> his_want_state_is_will opt s then
           (if opt = TELOPT_TM then s
            else let (changeok, s1) = will_switch opt s;
                     s2 = (if changeok then send_do opt False (set_his_want_state True opt s1)
                           else send_dont opt False (inc_do_dont opt s1))
                 in set_his_state True opt s2)
         else let s1 = (if opt = TELOPT_ECHO then send_dont opt True (s\<lparr>not42 := False\<rparr>) else s)
              in set_his_state True opt s1)
      else set_his_state True opt s)"

definition wont_switch :: "u8 \<Rightarrow> telnetd \<Rightarrow> telnetd" where
  "wont_switch opt s =
     (if opt = TELOPT_ECHO then s\<lparr>not42 := True\<rparr>
      else if opt = TELOPT_BINARY then act Set_termbuf (act (Tty_binaryin False) (act Init_termbuf s))
      else if opt = TELOPT_LFLOW then set_flow_level SLC_CANTCHANGE s
      else if opt = TELOPT_TTYPE then settimer TtypeSubopt s
      else if opt = TELOPT_TSPEED then settimer TspeedSubopt s
      else if opt = TELOPT_XDISPLOC then settimer XdisplocSubopt s
      else if opt = TELOPT_ENVIRON then settimer EnvironSubopt s
      else s)"

definition wontoption :: "u8 \<Rightarrow> telnetd \<Rightarrow> telnetd" where
  "wontoption opt s0 =
     (let s = his_answer False opt s0 in
      if do_dont_resp s opt = 0 \<and> his_want_state_is_will opt s then
        (if opt = TELOPT_TM then set_his_want_state False opt s
         else let s2 = set_his_want_state False opt (wont_switch opt s)
              in if his_state_is_will opt s2 then send_dont opt False s2 else s2)
      else s)"

text \<open>The \<open>switch\<close> for a DO that was not asked for, its two special cases apart.\<close>

definition do_switch :: "u8 \<Rightarrow> telnetd \<Rightarrow> bool \<times> telnetd" where
  "do_switch opt s =
     (if opt = TELOPT_ECHO
      then (True, act Set_termbuf (act (Tty_setecho True) (act Init_termbuf s)))
      else if opt = TELOPT_BINARY
      then (True, act Set_termbuf (act (Tty_binaryout True) (act Init_termbuf s)))
      else if opt = TELOPT_SGA then (True, s\<lparr>turn_on_sga := False\<rparr>)
      else if opt = TELOPT_STATUS then (True, s)
      else (False, s))"

definition dooption :: "u8 \<Rightarrow> telnetd \<Rightarrow> telnetd" where
  "dooption opt s0 =
     (let s = my_answer True opt s0 in
      if will_wont_resp s opt = 0 \<and> \<not> my_want_state_is_will opt s then
        (if opt = TELOPT_TM
         then set_my_state False opt (set_my_want_state False opt (send_will opt False s))
         else if opt = TELOPT_LOGOUT
         then (act Cleanup (act Netflush
                 (set_my_state True opt (send_will opt False (set_my_want_state True opt s)))))
              \<lparr>exited := True\<rparr>
         else let (changeok, s1) = do_switch opt s;
                  s2 = (if changeok then send_will opt False (set_my_want_state True opt s1)
                        else send_wont opt False (inc_will_wont opt s1))
              in set_my_state True opt s2)
      else set_my_state True opt s)"

definition dont_switch :: "u8 \<Rightarrow> telnetd \<Rightarrow> telnetd" where
  "dont_switch opt s =
     (if opt = TELOPT_BINARY then act Set_termbuf (act (Tty_binaryout False) (act Init_termbuf s))
      else if opt = TELOPT_ECHO then act Set_termbuf (act (Tty_setecho False) (act Init_termbuf s))
      else s)"

definition dontoption :: "u8 \<Rightarrow> telnetd \<Rightarrow> telnetd" where
  "dontoption opt s0 =
     (let s = my_answer False opt s0 in
      if will_wont_resp s opt = 0 \<and> my_want_state_is_will opt s then
        (if opt = TELOPT_SGA then
           (let s1 = set_my_want_state False opt s;
                s2 = (if my_state_is_will opt s1 then send_wont opt False s1 else s1);
                s3 = set_my_state False opt s2;
                s4 = s3\<lparr>turn_on_sga := \<not> turn_on_sga s3\<rparr>
            in if turn_on_sga s4 then send_will opt True s4 else s4)
         else let s1 = set_my_want_state False opt (dont_switch opt s);
                  s2 = (if my_state_is_will opt s1 then send_wont opt False s1 else s1)
              in set_my_state False opt s2)
      else set_my_state False opt s)"

section \<open>The network buffer's cursors\<close>

text \<open>
  Where \<open>netoprintf\<close> writes in \<open>netobuf\<close>: the C library returns the length of the whole text, and
  the code flushes and tries again only if that is exactly the room there is. \<open>fl\<close> is what
  \<open>netflush\<close> does to the cursors; if it never makes room the loop does not end.
\<close>

definition NETOBUFSIZE :: nat where "NETOBUFSIZE = 8192 + 64"

record net_cursors =
  nbackp :: nat
  nfrontp :: nat

partial_function (option) netoprintf_cursors ::
  "(net_cursors \<Rightarrow> net_cursors) \<Rightarrow> nat \<Rightarrow> net_cursors \<Rightarrow> net_cursors option" where
  "netoprintf_cursors fl len c =
     (if len = NETOBUFSIZE - nfrontp c then netoprintf_cursors fl len (fl c)
      else Some (c\<lparr>nfrontp := nfrontp c + len\<rparr>))"

definition writenet_cursors :: "(net_cursors \<Rightarrow> net_cursors) \<Rightarrow> nat \<Rightarrow> net_cursors \<Rightarrow> net_cursors" where
  "writenet_cursors fl len c =
     (let c1 = (if 8192 - int (nfrontp c) < int len then fl c else c) in c1\<lparr>nfrontp := nfrontp c1 + len\<rparr>)"

text \<open>A text longer than the room takes the cursor past the end of the buffer.\<close>

lemma netoprintf_overruns:
  "nfrontp c \<le> NETOBUFSIZE \<Longrightarrow> NETOBUFSIZE - nfrontp c < len \<Longrightarrow>
   netoprintf_cursors fl len c = Some (c\<lparr>nfrontp := nfrontp c + len\<rparr>) \<and> NETOBUFSIZE < nfrontp c + len"
  by (subst netoprintf_cursors.simps) auto

end
