(* ===== verification/Telnet_Receive.thy ===== *)
theory Telnet_Receive
  imports Telnet_State
begin

text \<open>
  The TELNET server's input side: suboptions (\<^verbatim>\<open>suboption\<close>, \<^verbatim>\<open>send_status\<close>, \<^verbatim>\<open>envvarok\<close> of
  \<^verbatim>\<open>state.c\<close>, \<^verbatim>\<open>clientstat\<close> of \<^verbatim>\<open>termstat.c\<close>), the commands that put a character into the
  terminal's input (\<^verbatim>\<open>interrupt\<close> to \<^verbatim>\<open>doeof\<close> of \<^verbatim>\<open>telnetd.c\<close>, on a system without \<open>TCSIG\<close>) and
  the state machine \<^verbatim>\<open>telrcv\<close> that takes the client's bytes one at a time.
\<close>

section \<open>The suboption buffer\<close>

definition SUBBUFSIZE :: nat where "SUBBUFSIZE = 512"

definition sb_clear :: "telnetd \<Rightarrow> telnetd" where
  "sb_clear s = s\<lparr>subpointer := 0\<rparr>"

definition sb_term :: "telnetd \<Rightarrow> telnetd" where
  "sb_term s = sb_clear (s\<lparr>subend := subpointer s\<rparr>)"

definition sb_accum :: "u8 \<Rightarrow> telnetd \<Rightarrow> telnetd" where
  "sb_accum c s =
     (if subpointer s < SUBBUFSIZE - 1
      then s\<lparr>subbuffer := (subbuffer s)(subpointer s := c), subpointer := subpointer s + 1\<rparr> else s)"

definition sb_get :: "telnetd \<Rightarrow> u8 \<times> telnetd" where
  "sb_get s = (subbuffer s (subpointer s), s\<lparr>subpointer := subpointer s + 1\<rparr>)"

definition sb_eof :: "telnetd \<Rightarrow> bool" where
  "sb_eof s \<longleftrightarrow> subend s \<le> subpointer s"

definition sb_set :: "nat \<Rightarrow> u8 \<Rightarrow> telnetd \<Rightarrow> telnetd" where
  "sb_set p c s = s\<lparr>subbuffer := (subbuffer s)(p := c)\<rparr>"

text \<open>The C string that starts at a place of the buffer.\<close>

definition c_string :: "(nat \<Rightarrow> u8) \<Rightarrow> nat \<Rightarrow> u8 list" where
  "c_string b p = takeWhile (\<lambda>c. c \<noteq> 0) (map b [p..<SUBBUFSIZE])"

section \<open>The client's terminal\<close>

definition clientstat_naws :: "int \<Rightarrow> int \<Rightarrow> telnetd \<Rightarrow> telnetd" where
  "clientstat_naws col row s =
     act Netflush (act (Set_winsize col row) ((act Init_termbuf s)\<lparr>def_size := (col, row)\<rparr>))"

definition clientstat_tspeed :: "int \<Rightarrow> int \<Rightarrow> telnetd \<Rightarrow> telnetd" where
  "clientstat_tspeed tspeed rspeed s =
     act Netflush (act Set_termbuf (act (Tty_tspeed tspeed) (act (Tty_rspeed rspeed)
       ((act Init_termbuf s)\<lparr>def_speed := (tspeed, rspeed)\<rparr>))))"

text \<open>
  \<open>atoi\<close> as the C library of the system has it: white space, a sign, digits; the value saturates
  at a \<open>long\<close> and is then cut to an \<open>int\<close>.
\<close>

fun digits_value :: "int \<Rightarrow> u8 list \<Rightarrow> int" where
  "digits_value n [] = n"
| "digits_value n (c # cs) =
     (if 48 \<le> c \<and> c \<le> 57 then digits_value (10 * n + uint (c - 48)) cs else n)"

definition atoi :: "u8 list \<Rightarrow> int" where
  "atoi cs0 =
     (let cs = dropWhile (\<lambda>c. c = 32 \<or> 9 \<le> c \<and> c \<le> 13) cs0;
          neg = (case cs of c # _ \<Rightarrow> c = 45 | [] \<Rightarrow> False);
          ds = (case cs of c # r \<Rightarrow> if c = 45 \<or> c = 43 then r else cs | [] \<Rightarrow> []);
          v = (if neg then - digits_value 0 ds else digits_value 0 ds);
          l = min (max v (- (2 ^ 63))) (2 ^ 63 - 1)
      in sint (word_of_int l :: 32 word))"

section \<open>Environment variables\<close>

definition bytes :: "string \<Rightarrow> u8 list" where
  "bytes = map of_char"

definition envvarok :: "u8 list \<Rightarrow> bool" where
  "envvarok v \<longleftrightarrow>
     v = bytes ''TERM'' \<or> v = bytes ''DISPLAY'' \<or> v = bytes ''USER'' \<or> v = bytes ''LOGNAME''
     \<or> v = bytes ''POSIXLY_CORRECT''"

definition setenv :: "u8 list \<Rightarrow> u8 list \<Rightarrow> telnetd \<Rightarrow> telnetd" where
  "setenv n v s = s\<lparr>environ := (environ s)(n := Some v)\<rparr>"

definition unsetenv :: "u8 list \<Rightarrow> telnetd \<Rightarrow> telnetd" where
  "unsetenv n s = s\<lparr>environ := (environ s)(n := None)\<rparr>"

definition env_store :: "nat \<Rightarrow> nat option \<Rightarrow> telnetd \<Rightarrow> telnetd" where
  "env_store varp valp s =
     (if envvarok (c_string (subbuffer s) varp)
      then (case valp of
              Some p \<Rightarrow> setenv (c_string (subbuffer s) varp) (c_string (subbuffer s) p) s
            | None \<Rightarrow> unsetenv (c_string (subbuffer s) varp) s)
      else s)"

function skip_to_var :: "telnetd \<Rightarrow> telnetd" where
  "skip_to_var s =
     (if sb_eof s then s
      else let (c, s1) = sb_get s in if c \<noteq> ENV_VAR then skip_to_var s1 else s1)"
  by pat_completeness auto
termination
  by (relation "measure (\<lambda>s. subend s - subpointer s)") (auto simp: sb_eof_def sb_get_def)

text \<open>
  The values are copied down over the bytes that were read: \<open>cp\<close> is where the next one goes,
  \<open>varp\<close> and \<open>valp\<close> are where the name and the value began.
\<close>

definition env_byte :: "u8 \<Rightarrow> nat \<Rightarrow> telnetd \<Rightarrow> nat \<times> telnetd" where
  "env_byte c cp s = (if cp < SUBBUFSIZE - 1 then (cp + 1, sb_set cp c s) else (cp, s))"

function environ_loop :: "nat \<Rightarrow> nat \<Rightarrow> nat option \<Rightarrow> telnetd \<Rightarrow> nat \<times> nat \<times> nat option \<times> telnetd" where
  "environ_loop cp varp valp s =
     (if sb_eof s then (cp, varp, valp, s)
      else let (c, s1) = sb_get s in
        if c = ENV_VALUE
        then (let s2 = sb_set cp 0 s1 in environ_loop (subpointer s2) varp (Some (subpointer s2)) s2)
        else if c = ENV_VAR
        then (let s2 = env_store varp valp (sb_set cp 0 s1)
              in environ_loop (subpointer s2) (subpointer s2) None s2)
        else if c = ENV_ESC \<and> sb_eof s1 then environ_loop cp varp valp s1
        else let (c', s2) = (if c = ENV_ESC then sb_get s1 else (c, s1));
                 (cp', s3) = env_byte c' cp s2
             in environ_loop cp' varp valp s3)"
  by pat_completeness auto
termination
  by (relation "measure (\<lambda>(cp, varp, valp, s). subend s - subpointer s)")
    (auto simp: sb_eof_def sb_get_def sb_set_def env_store_def setenv_def unsetenv_def env_byte_def
      split: if_splits option.splits)

declare skip_to_var.simps [simp del] environ_loop.simps [simp del]

section \<open>Suboptions\<close>

function skip_to_comma :: "telnetd \<Rightarrow> telnetd" where
  "skip_to_comma s =
     (let (c, s1) = sb_get s in if c \<noteq> 44 \<and> \<not> sb_eof s1 then skip_to_comma s1 else s1)"
  by pat_completeness auto
termination
  by (relation "measure (\<lambda>s. subend s - subpointer s)") (auto simp: sb_eof_def sb_get_def)

declare skip_to_comma.simps [simp del]

definition sub_tspeed :: "telnetd \<Rightarrow> telnetd" where
  "sub_tspeed s0 =
     (if \<not> his_state_is_will TELOPT_TSPEED s0 then s0
      else let s = settimer TspeedSubopt s0 in
        if sb_eof s then s
        else let (q, s1) = sb_get s in
          if q \<noteq> TELQUAL_IS then s1
          else let xspeed = atoi (c_string (subbuffer s1) (subpointer s1)); s2 = skip_to_comma s1 in
            if sb_eof s2 then s2
            else clientstat_tspeed xspeed (atoi (c_string (subbuffer s2) (subpointer s2))) s2)"

definition lower_case :: "u8 \<Rightarrow> u8" where
  "lower_case c = (if 65 \<le> c \<and> c \<le> 90 then c + 32 else c)"

fun ttype_loop :: "nat \<Rightarrow> telnetd \<Rightarrow> u8 list \<times> telnetd" where
  "ttype_loop 0 s = ([], s)"
| "ttype_loop (Suc room) s =
     (if sb_eof s then ([], s)
      else let (c, s1) = sb_get s; (cs, s2) = ttype_loop room s1 in (lower_case c # cs, s2))"

definition sub_ttype :: "telnetd \<Rightarrow> telnetd" where
  "sub_ttype s0 =
     (if \<not> his_state_is_will TELOPT_TTYPE s0 then s0
      else let s = settimer TtypeSubopt s0 in
        if sb_eof s then s
        else let (q, s1) = sb_get s in
          if q \<noteq> TELQUAL_IS then s1
          else let (name, s2) = ttype_loop 40 s1 in s2\<lparr>terminaltype := name\<rparr>)"

definition sub_naws :: "telnetd \<Rightarrow> telnetd" where
  "sub_naws s =
     (if \<not> his_state_is_will TELOPT_NAWS s \<or> sb_eof s then s
      else let (a, s1) = sb_get s in
        if sb_eof s1 then s1 else let (b, s2) = sb_get s1 in
        if sb_eof s2 then s2 else let (c, s3) = sb_get s2 in
        if sb_eof s3 then s3 else let (d, s4) = sb_get s3 in
        clientstat_naws (or (push_bit 8 (uint a)) (uint b)) (or (push_bit 8 (uint c)) (uint d)) s4)"

text \<open>\<open>ADD_DATA\<close> doubles an \<open>SE\<close>, and the code after it an \<open>IAC\<close>.\<close>

definition add_data :: "u8 \<Rightarrow> u8 list" where
  "add_data c = (if c = SE then [c, c] else [c]) @ (if c = IAC then [IAC] else [])"

definition status_opt :: "telnetd \<Rightarrow> u8 \<Rightarrow> u8 list" where
  "status_opt s i =
     (if my_want_state_is_will i s then WILL # add_data i else [])
     @ (if his_want_state_is_will i s then DO # add_data i else [])"

definition status_bytes :: "tel_env \<Rightarrow> telnetd \<Rightarrow> u8 list" where
  "status_bytes E s =
     [IAC, SB, TELOPT_STATUS, TELQUAL_IS]
     @ concat (map (\<lambda>i. status_opt s (of_nat i)) [0..<NTELOPTS])
     @ (if his_want_state_is_will TELOPT_LFLOW s then [SB, TELOPT_LFLOW, flowmode E, SE] else [])
     @ [IAC, SE]"

definition send_status :: "tel_env \<Rightarrow> telnetd \<Rightarrow> telnetd" where
  "send_status E s = act Netflush (netoprintf (status_bytes E s) (act Netflush s))"

definition sub_status :: "tel_env \<Rightarrow> telnetd \<Rightarrow> telnetd" where
  "sub_status E s =
     (if sb_eof s then s
      else let (mode, s1) = sb_get s in
        if mode = TELQUAL_SEND \<and> my_state_is_will TELOPT_STATUS s1 then send_status E s1 else s1)"

definition sub_xdisploc :: "telnetd \<Rightarrow> telnetd" where
  "sub_xdisploc s =
     (if sb_eof s then s
      else let (q, s1) = sb_get s in
        if q \<noteq> TELQUAL_IS then s1
        else let s2 = settimer XdisplocSubopt s1;
                 s3 = sb_set (subpointer s2 + (subend s2 - subpointer s2)) 0 s2
             in setenv (bytes ''DISPLAY'') (c_string (subbuffer s3) (subpointer s3)) s3)"

definition sub_environ :: "telnetd \<Rightarrow> telnetd" where
  "sub_environ s =
     (if sb_eof s then s
      else let (c, s1) = sb_get s in
        if c \<noteq> TELQUAL_IS \<and> c \<noteq> TELQUAL_INFO then s1
        else let s2 = skip_to_var (if c = TELQUAL_IS then settimer EnvironSubopt s1 else s1) in
          if sb_eof s2 then s2
          else let (cp, varp, valp, s3) = environ_loop (subpointer s2) (subpointer s2) None s2
               in env_store varp valp (sb_set cp 0 s3))"

definition suboption :: "tel_env \<Rightarrow> telnetd \<Rightarrow> telnetd" where
  "suboption E s0 =
     (let (subchar, s) = sb_get s0 in
      if subchar = TELOPT_TSPEED then sub_tspeed s
      else if subchar = TELOPT_TTYPE then sub_ttype s
      else if subchar = TELOPT_NAWS then sub_naws s
      else if subchar = TELOPT_STATUS then sub_status E s
      else if subchar = TELOPT_XDISPLOC then sub_xdisploc s
      else if subchar = TELOPT_ENVIRON then sub_environ s
      else s)"

section \<open>Characters for the process\<close>

definition put_slc :: "tel_env \<Rightarrow> slc_fun \<Rightarrow> u8 \<Rightarrow> telnetd \<Rightarrow> telnetd" where
  "put_slc E f d s = pty_put (case slc_char E f of Some c \<Rightarrow> c | None \<Rightarrow> d) s"

definition interrupt :: "tel_env \<Rightarrow> telnetd \<Rightarrow> telnetd" where
  "interrupt E s = put_slc E SLC_IP 127 (act Init_termbuf (ptyflush E s))"

definition sendbrk :: "tel_env \<Rightarrow> telnetd \<Rightarrow> telnetd" where
  "sendbrk E s = put_slc E SLC_ABORT 28 (act Init_termbuf (ptyflush E s))"

definition sendsusp :: "tel_env \<Rightarrow> telnetd \<Rightarrow> telnetd" where
  "sendsusp E s = put_slc E SLC_SUSP 26 (ptyflush E s)"

definition recv_ayt :: "tel_env \<Rightarrow> telnetd \<Rightarrow> telnetd" where
  "recv_ayt E s = netoprintf ([13, 10, 91] @ host_name E @ bytes '' : yes]'' @ [13, 10]) s"

definition doeof :: "tel_env \<Rightarrow> telnetd \<Rightarrow> telnetd" where
  "doeof E s = put_slc E SLC_EOF 4 (act Init_termbuf s)"

definition POSIX_VDISABLE :: u8 where "POSIX_VDISABLE = 0"

definition abort_output :: "tel_env \<Rightarrow> telnetd \<Rightarrow> telnetd" where
  "abort_output E s =
     (let s1 = act Init_termbuf (ptyflush E s);
          s2 = (case slc_char E SLC_AO of
                  Some c \<Rightarrow> if c \<noteq> POSIX_VDISABLE then pty_put c s1 else s1
                | None \<Rightarrow> s1)
      in act Urgent_mark (netoprintf [IAC, DM] (act Netclear s2)))"

text \<open>The pointer to the erase characters is not tested: without it the process faults.\<close>

definition erase :: "tel_env \<Rightarrow> u8 \<Rightarrow> telnetd \<Rightarrow> telnetd" where
  "erase E c s =
     (let s1 = act Init_termbuf (ptyflush E s) in
      case slc_char E (if c = EC then SLC_EC else SLC_EL) of
        Some ch \<Rightarrow> if ch \<noteq> POSIX_VDISABLE then pty_put ch s1 else s1
      | None \<Rightarrow> s1\<lparr>exited := True\<rparr>)"

section \<open>The receiver\<close>

definition iac_action :: "tel_env \<Rightarrow> u8 \<Rightarrow> telnetd \<Rightarrow> telnetd" where
  "iac_action E c s =
     (if c = IP then interrupt E s
      else if c = BREAK then sendbrk E s
      else if c = AYT then recv_ayt E s
      else if c = AO then abort_output E s
      else if c = EC \<or> c = EL then erase E c s
      else if c = DM then settimer GotDM (s\<lparr>synching := oob E\<rparr>)
      else if c = EOR then (if his_state_is_will TELOPT_EOR s then doeof E s else s)
      else if c = xEOF then doeof E s
      else if c = SUSP then sendsusp E s
      else if c = ABORT then sendbrk E s
      else if c = IAC then pty_put c s
      else s)"

definition rcv_iac :: "tel_env \<Rightarrow> u8 \<Rightarrow> telnetd \<Rightarrow> telnetd" where
  "rcv_iac E c s =
     (if c = SB then sb_clear (s\<lparr>ts_state := TS_SB\<rparr>)
      else if c = WILL then s\<lparr>ts_state := TS_WILL\<rparr>
      else if c = WONT then s\<lparr>ts_state := TS_WONT\<rparr>
      else if c = DO then s\<lparr>ts_state := TS_DO\<rparr>
      else if c = DONT then s\<lparr>ts_state := TS_DONT\<rparr>
      else (iac_action E c s)\<lparr>ts_state := TS_DATA\<rparr>)"

definition rcv_data :: "u8 \<Rightarrow> telnetd \<Rightarrow> telnetd" where
  "rcv_data c s =
     (if c = IAC then s\<lparr>ts_state := TS_IAC\<rparr>
      else pty_put c (if c = 13 \<and> \<not> his_state_is_will TELOPT_BINARY s
                      then s\<lparr>ts_state := TS_CR\<rparr> else s))"

text \<open>The end of a suboption: two bytes more for the diagnostics, and the pointer put back.\<close>

definition sub_end :: "tel_env \<Rightarrow> u8 \<Rightarrow> telnetd \<Rightarrow> telnetd" where
  "sub_end E c s =
     (let s1 = sb_accum c (sb_accum IAC s)
      in suboption E (sb_term (s1\<lparr>subpointer := subpointer s1 - 2\<rparr>)))"

definition rcv_byte :: "tel_env \<Rightarrow> u8 \<Rightarrow> telnetd \<Rightarrow> telnetd" where
  "rcv_byte E c s =
     (case ts_state s of
        TS_CR \<Rightarrow> (let s1 = s\<lparr>ts_state := TS_DATA\<rparr> in if c = 0 \<or> c = 10 then s1 else rcv_data c s1)
      | TS_DATA \<Rightarrow> rcv_data c s
      | TS_IAC \<Rightarrow> rcv_iac E c s
      | TS_SB \<Rightarrow> if c = IAC then s\<lparr>ts_state := TS_SE\<rparr> else sb_accum c s
      | TS_SE \<Rightarrow>
          if c \<noteq> SE
          then (if c \<noteq> IAC then rcv_iac E c ((sub_end E c s)\<lparr>ts_state := TS_IAC\<rparr>)
                else (sb_accum c s)\<lparr>ts_state := TS_SB\<rparr>)
          else (sub_end E SE s)\<lparr>ts_state := TS_DATA\<rparr>
      | TS_WILL \<Rightarrow> (willoption c s)\<lparr>ts_state := TS_DATA\<rparr>
      | TS_WONT \<Rightarrow> (wontoption c s)\<lparr>ts_state := TS_DATA\<rparr>
      | TS_DO \<Rightarrow> (dooption c s)\<lparr>ts_state := TS_DATA\<rparr>
      | TS_DONT \<Rightarrow> (dontoption c s)\<lparr>ts_state := TS_DATA\<rparr>)"

definition pty_room :: "tel_env \<Rightarrow> telnetd \<Rightarrow> nat" where
  "pty_room E s = pty_size E - (pbackp s + length (ptyobuf s))"

text \<open>What is left of the input, and the state: it stops when the buffer for the process is full.\<close>

fun telrcv :: "tel_env \<Rightarrow> u8 list \<Rightarrow> telnetd \<Rightarrow> u8 list \<times> telnetd" where
  "telrcv E [] s = ([], s)"
| "telrcv E (c # cs) s =
     (if exited s \<or> pty_room E s < 2 then (c # cs, s) else telrcv E cs (rcv_byte E c s))"

end
