(* ===== verification/Telnet_Options.thy ===== *)
theory Telnet_Options
  imports Telnet_Receive
begin

text \<open>
  The option flags as four independent bits, what each operation on options leaves alone, and
  Dave Borman's negotiation machine, which the four receiving functions implement.
\<close>

section \<open>The flag bits\<close>

lemma flag_powers:
  "MY_STATE_WILL = 2 ^ 0" "MY_WANT_STATE_WILL = 2 ^ 1" "MY_STATE_DO = 2 ^ 2" "MY_WANT_STATE_DO = 2 ^ 3"
  by (simp_all add: MY_STATE_WILL_def MY_WANT_STATE_WILL_def MY_STATE_DO_def MY_WANT_STATE_DO_def)

lemma and_power_iff: "(w AND 2 ^ n :: 'a::len word) \<noteq> 0 \<longleftrightarrow> bit w n"
  by (simp add: and_exp_eq_0_iff_not_bit)

lemma opt_is_bit:
  "opt_is MY_STATE_WILL opt s \<longleftrightarrow> bit (options s opt) 0"
  "opt_is MY_WANT_STATE_WILL opt s \<longleftrightarrow> bit (options s opt) 1"
  "opt_is MY_STATE_DO opt s \<longleftrightarrow> bit (options s opt) 2"
  "opt_is MY_WANT_STATE_DO opt s \<longleftrightarrow> bit (options s opt) 3"
  unfolding opt_is_def flag_powers and_power_iff by simp_all

definition flag :: "u8 \<Rightarrow> bool" where
  "flag f \<longleftrightarrow> f \<in> {MY_STATE_WILL, MY_WANT_STATE_WILL, MY_STATE_DO, MY_WANT_STATE_DO}"

lemma flags [simp]: "flag MY_STATE_WILL" "flag MY_WANT_STATE_WILL" "flag MY_STATE_DO" "flag MY_WANT_STATE_DO"
  by (simp_all add: flag_def)

lemma flags_differ [simp]:
  "MY_STATE_WILL \<noteq> MY_WANT_STATE_WILL" "MY_STATE_WILL \<noteq> MY_STATE_DO" "MY_STATE_WILL \<noteq> MY_WANT_STATE_DO"
  "MY_WANT_STATE_WILL \<noteq> MY_STATE_WILL" "MY_WANT_STATE_WILL \<noteq> MY_STATE_DO"
  "MY_WANT_STATE_WILL \<noteq> MY_WANT_STATE_DO" "MY_STATE_DO \<noteq> MY_STATE_WILL"
  "MY_STATE_DO \<noteq> MY_WANT_STATE_WILL" "MY_STATE_DO \<noteq> MY_WANT_STATE_DO"
  "MY_WANT_STATE_DO \<noteq> MY_STATE_WILL" "MY_WANT_STATE_DO \<noteq> MY_WANT_STATE_WILL"
  "MY_WANT_STATE_DO \<noteq> MY_STATE_DO"
  by (simp_all add: MY_STATE_WILL_def MY_WANT_STATE_WILL_def MY_STATE_DO_def MY_WANT_STATE_DO_def)

lemma opt_is_power: "opt_is (2 ^ k) opt s \<longleftrightarrow> bit (options s opt) k"
  by (simp add: opt_is_def and_power_iff)

lemma opt_is_set_power:
  "k < 8 \<Longrightarrow> j < 8 \<Longrightarrow> opt_is (2 ^ k) opt (set_opt (2 ^ j) on opt' s)
   \<longleftrightarrow> (if opt = opt' \<and> k = j then on else opt_is (2 ^ k) opt s)"
  by (auto simp: opt_is_power set_opt_def bit_simps)

lemma flag_power: "flag f \<Longrightarrow> \<exists>k<8. f = 2 ^ k"
  unfolding flag_def flag_powers
  by (elim insertE emptyE; hypsubst) (rule exI, rule conjI[rotated], rule refl, simp)+

lemma power_inj: "k < 8 \<Longrightarrow> j < 8 \<Longrightarrow> (2 :: u8) ^ k = 2 ^ j \<longleftrightarrow> k = j"
  by (auto dest: arg_cong[where f="\<lambda>w. bit w k"] simp: bit_simps)

lemma opt_is_set_opt [simp]:
  assumes "flag f" "flag g"
  shows "opt_is f opt (set_opt g on opt' s)
         \<longleftrightarrow> (if opt = opt' \<and> f = g then on else opt_is f opt s)"
  using flag_power[OF assms(1)] flag_power[OF assms(2)]
  by (elim exE conjE; hypsubst) (simp add: opt_is_set_power power_inj)

text \<open>The four bits of an option, changed or asked about, are all an operation can see of it.\<close>

lemma opt_is_cong: "options s opt = options t opt \<Longrightarrow> opt_is f opt s = opt_is f opt t"
  by (simp add: opt_is_def)

lemma opt_is_frame [simp]:
  "opt_is f opt (act a s) = opt_is f opt s"
  "opt_is f opt (settimer c s) = opt_is f opt s"
  "opt_is f opt (netoprintf bs s) = opt_is f opt s"
  "opt_is f opt (inc_do_dont o' s) = opt_is f opt s"
  "opt_is f opt (inc_will_wont o' s) = opt_is f opt s"
  "opt_is f opt (his_answer on o' s) = opt_is f opt s"
  "opt_is f opt (my_answer on o' s) = opt_is f opt s"
  "opt_is f opt (set_flow_level lv s) = opt_is f opt s"
  "opt_is f opt (s\<lparr>not42 := n\<rparr>) = opt_is f opt s"
  "opt_is f opt (s\<lparr>turn_on_sga := g\<rparr>) = opt_is f opt s"
  "opt_is f opt (s\<lparr>exited := x\<rparr>) = opt_is f opt s"
  "opt_is f opt (s\<lparr>ts_state := ts\<rparr>) = opt_is f opt s"
  by (rule opt_is_cong,
      simp add: act_def settimer_def Let_def netoprintf_def inc_do_dont_def inc_will_wont_def
        his_answer_def my_answer_def set_flow_level_def)+

text \<open>The tricky macros of \<^verbatim>\<open>defs.h\<close>.\<close>

lemma bit_uint: "bit (w :: u8) n \<longleftrightarrow> odd (uint w div 2 ^ n)"
proof -
  have "bit w n \<longleftrightarrow> bit (uint w) n"
    using bit_imp_le_length[of w n] by (auto simp: bit_uint_iff)
  then show ?thesis unfolding bit_iff_odd[of "uint w" n] .
qed

lemma bit_plus:
  fixes w :: u8
  shows "n < 8 \<Longrightarrow> bit (w + word_of_int k) n \<longleftrightarrow> odd ((uint w + k) div 2 ^ n)"
proof -
  assume "n < 8"
  moreover have "w + word_of_int k = word_of_int (uint w + k)" by simp
  ultimately show ?thesis
    unfolding bit_iff_odd[of "uint w + k" n, symmetric] by (simp only: bit_word_of_int_iff) simp
qed

lemma odd_carry: "odd ((x + 1) div 2) \<longleftrightarrow> odd x \<noteq> odd (x div 2)" for x :: int
  by presburger

lemma bit_plus_low:
  fixes w :: u8
  shows "(w + 1) AND 2 \<noteq> 0 \<longleftrightarrow> bit w 0 \<noteq> bit w 1"
    and "(w + 4) AND 8 \<noteq> 0 \<longleftrightarrow> bit w 2 \<noteq> bit w 3"
proof -
  have "bit (w + 1) 1 \<longleftrightarrow> bit w 0 \<noteq> bit w 1"
    using bit_plus[of 1 w 1] odd_carry[of "uint w"] by (simp add: bit_uint)
  then show "(w + 1) AND 2 \<noteq> 0 \<longleftrightarrow> bit w 0 \<noteq> bit w 1"
    using and_power_iff[of "w + 1" 1] by simp
  have "(uint w + 4) div 8 = (uint w div 4 + 1) div 2" "uint w div 8 = uint w div 4 div 2"
    by (simp_all flip: zdiv_zmult2_eq)
  then have "bit (w + 4) 3 \<longleftrightarrow> bit w 2 \<noteq> bit w 3"
    using bit_plus[of 3 w 4] odd_carry[of "uint w div 4"] by (simp add: bit_uint)
  then show "(w + 4) AND 8 \<noteq> 0 \<longleftrightarrow> bit w 2 \<noteq> bit w 3"
    using and_power_iff[of "w + 4" 3] by simp
qed

lemma my_changing_iff:
  "my_will_wont_is_changing opt s \<longleftrightarrow> my_state_is_will opt s \<noteq> my_want_state_is_will opt s"
  unfolding my_will_wont_is_changing_def opt_is_bit
  by (simp add: MY_STATE_WILL_def MY_WANT_STATE_WILL_def bit_plus_low)

lemma his_changing_iff:
  "my_do_dont_is_changing opt s \<longleftrightarrow> his_state_is_will opt s \<noteq> his_want_state_is_will opt s"
  unfolding my_do_dont_is_changing_def opt_is_bit
  by (simp add: MY_STATE_DO_def MY_WANT_STATE_DO_def bit_plus_low)

section \<open>What the operations leave alone\<close>

lemma resp_frame [simp]:
  "do_dont_resp (act a s) = do_dont_resp s" "will_wont_resp (act a s) = will_wont_resp s"
  "do_dont_resp (settimer c s) = do_dont_resp s" "will_wont_resp (settimer c s) = will_wont_resp s"
  "do_dont_resp (netoprintf bs s) = do_dont_resp s" "will_wont_resp (netoprintf bs s) = will_wont_resp s"
  "do_dont_resp (set_opt f on opt s) = do_dont_resp s"
  "will_wont_resp (set_opt f on opt s) = will_wont_resp s"
  "do_dont_resp (inc_will_wont opt s) = do_dont_resp s"
  "will_wont_resp (inc_do_dont opt s) = will_wont_resp s"
  "do_dont_resp (my_answer on opt s) = do_dont_resp s"
  "will_wont_resp (his_answer on opt s) = will_wont_resp s"
  "do_dont_resp (set_flow_level lv s) = do_dont_resp s"
  "will_wont_resp (set_flow_level lv s) = will_wont_resp s"
  by (simp_all add: act_def settimer_def Let_def netoprintf_def set_opt_def inc_do_dont_def
      inc_will_wont_def my_answer_def his_answer_def set_flow_level_def)

lemma resp_change [simp]:
  "do_dont_resp (inc_do_dont opt s) = (do_dont_resp s)(opt := do_dont_resp s opt + 1)"
  "will_wont_resp (inc_will_wont opt s) = (will_wont_resp s)(opt := will_wont_resp s opt + 1)"
  "do_dont_resp (his_answer on opt s) =
     (do_dont_resp s)(opt := answered (his_state_is_will opt s = on) (do_dont_resp s opt))"
  "will_wont_resp (my_answer on opt s) =
     (will_wont_resp s)(opt := answered (my_state_is_will opt s = on) (will_wont_resp s opt))"
  by (simp_all add: inc_do_dont_def inc_will_wont_def his_answer_def my_answer_def)

lemma out_frame [simp]:
  "net_out (act a s) = net_out s" "net_out (settimer c s) = net_out s"
  "net_out (netoprintf bs s) = net_out s @ bs" "net_out (set_opt f on opt s) = net_out s"
  "net_out (inc_do_dont opt s) = net_out s" "net_out (inc_will_wont opt s) = net_out s"
  "net_out (his_answer on opt s) = net_out s" "net_out (my_answer on opt s) = net_out s"
  "net_out (set_flow_level lv s) = net_out s"
  by (simp_all add: act_def settimer_def Let_def netoprintf_def set_opt_def inc_do_dont_def
      inc_will_wont_def my_answer_def his_answer_def set_flow_level_def)

section \<open>Borman's machine\<close>

text \<open>
  One option on one side: the last negotiated state, the state wanted, and the number of requests
  without an answer. Receiving a new state as the comment before \<^verbatim>\<open>send_do\<close> has it, with one
  refinement the code makes: a negative state that is received is acknowledged only if the
  option was in its positive state.
\<close>

record nego =
  st :: bool
  want :: bool
  resp :: u8

definition nego_receive :: "bool \<Rightarrow> bool \<Rightarrow> nego \<Rightarrow> nego \<times> bool list" where
  "nego_receive ok new n =
     (let r = answered (st n = new) (resp n); n1 = n\<lparr>resp := r, st := new\<rparr> in
      if r = 0 \<and> new \<noteq> want n
      then (if new then (if ok then (n1\<lparr>want := True\<rparr>, [True]) else (n1\<lparr>resp := r + 1\<rparr>, [False]))
            else (n1\<lparr>want := False\<rparr>, if st n then [False] else []))
      else (n1, []))"

fun nego_run :: "bool \<Rightarrow> bool list \<Rightarrow> nego \<Rightarrow> nego \<times> bool list" where
  "nego_run ok [] n = (n, [])"
| "nego_run ok (c # cs) n =
     (let (n1, r1) = nego_receive ok c n; (n2, r2) = nego_run ok cs n1 in (n2, r1 @ r2))"

lemma dec_le: "r \<noteq> 0 \<Longrightarrow> r - 1 \<le> (r :: u8)"
  by (simp add: word_le_nat_alt unat_minus_one)

lemma answered_le: "answered same r \<le> r"
proof (cases "r = 0")
  case False
  then show ?thesis
    using dec_le[of r] dec_le[of "r - 1"] by (auto simp: answered_def Let_def intro: order_trans)
qed (simp add: answered_def)

lemma nego_replies: "length (snd (nego_receive ok new n)) \<le> 1"
  by (simp add: nego_receive_def Let_def)

lemma nego_confirmed: "new = want n \<Longrightarrow> snd (nego_receive ok new n) = []"
  by (simp add: nego_receive_def Let_def)

lemma nego_settled: "st n = new \<Longrightarrow> want n = new \<Longrightarrow> resp n = 0 \<Longrightarrow> nego_receive ok new n = (n, [])"
  by (simp add: nego_receive_def Let_def answered_def)

lemma nego_st: "st (fst (nego_receive ok new n)) = new"
  by (simp add: nego_receive_def Let_def)

lemma nego_want: "want (fst (nego_receive ok new n)) \<Longrightarrow> want n \<or> ok \<and> new"
  by (auto simp: nego_receive_def Let_def split: if_splits)

lemma nego_resp: "resp (fst (nego_receive ok new n)) \<le> max 1 (resp n)"
  using answered_le[of "st n = new" "resp n"]
  by (auto simp: nego_receive_def Let_def max_def split: if_splits)

lemma nego_run_replies: "length (snd (nego_run ok cs n)) \<le> length cs"
proof (induction cs arbitrary: n)
  case (Cons c cs)
  show ?case
    using Cons[of "fst (nego_receive ok c n)"] nego_replies[of ok c n]
    by (simp add: Let_def split_beta)
qed simp

lemma nego_run_want: "want (fst (nego_run ok cs n)) \<Longrightarrow> want n \<or> ok"
proof (induction cs arbitrary: n)
  case (Cons c cs)
  then show ?case
    using nego_want[of ok c n] by (auto simp: Let_def split_beta)
qed simp

lemma nego_run_resp: "resp (fst (nego_run ok cs n)) \<le> max 1 (resp n)"
proof (induction cs arbitrary: n)
  case (Cons c cs)
  show ?case
    using Cons[of "fst (nego_receive ok c n)"] nego_resp[of ok c n]
    by (auto simp: Let_def split_beta max_def split: if_splits)
qed simp

section \<open>The server's options as such machines\<close>

text \<open>
  The contract of one side of an option: what receiving a positive state does, and, for a side that
  can be turned off, a negative one. \<open>plain\<close> says that the option is not one of the special cases.
\<close>

locale answering =
  fixes view :: "'s \<Rightarrow> nego"
    and out :: "'s \<Rightarrow> u8 list"
    and say :: "bool \<Rightarrow> u8 list"
    and ok :: bool
    and plain :: bool
    and yes :: "'s \<Rightarrow> 's"
  assumes yes_view: "plain \<Longrightarrow> view (yes s) = fst (nego_receive ok True (view s))"
    and yes_out: "plain \<Longrightarrow> out (yes s) = out s @ concat (map say (snd (nego_receive ok True (view s))))"
begin

lemma confirmed_silent: "plain \<Longrightarrow> want (view s) \<Longrightarrow> out (yes s) = out s"
  by (simp add: yes_out nego_confirmed)

lemma refused_stays: "plain \<Longrightarrow> \<not> ok \<Longrightarrow> \<not> want (view s) \<Longrightarrow> \<not> want (view (yes s))"
  using nego_want[of ok True "view s"] by (auto simp: yes_view)

lemma seen: "plain \<Longrightarrow> st (view (yes s))"
  by (simp add: yes_view nego_st)

lemma open_requests: "plain \<Longrightarrow> resp (view (yes s)) \<le> max 1 (resp (view s))"
  using nego_resp[of ok True "view s"] by (simp add: yes_view)

end

locale negotiating = answering view out say ok plain yes
  for view :: "'s \<Rightarrow> nego" and out say ok plain and yes :: "'s \<Rightarrow> 's" +
  fixes no :: "'s \<Rightarrow> 's"
  assumes no_view: "plain \<Longrightarrow> view (no s) = fst (nego_receive ok False (view s))"
    and no_out: "plain \<Longrightarrow> out (no s) = out s @ concat (map say (snd (nego_receive ok False (view s))))"
begin

lemma run:
  "plain \<Longrightarrow>
   view (fold (\<lambda>c. if c then yes else no) cs s) = fst (nego_run ok cs (view s)) \<and>
   out (fold (\<lambda>c. if c then yes else no) cs s) = out s @ concat (map say (snd (nego_run ok cs (view s))))"
proof (induction cs arbitrary: s)
  case (Cons c cs)
  have step: "view (if c then yes s else no s) = fst (nego_receive ok c (view s))"
    "out (if c then yes s else no s) = out s @ concat (map say (snd (nego_receive ok c (view s))))"
    using Cons.prems by (cases c; simp add: yes_view yes_out no_view no_out)+
  show ?case
    using Cons.IH[OF Cons.prems, of "if c then yes s else no s"] step
    by (cases c) (simp_all add: Let_def split_beta)
qed simp

end

definition my_view :: "u8 \<Rightarrow> telnetd \<Rightarrow> nego" where
  "my_view opt s =
     \<lparr>st = my_state_is_will opt s, want = my_want_state_is_will opt s, resp = will_wont_resp s opt\<rparr>"

definition his_view :: "u8 \<Rightarrow> telnetd \<Rightarrow> nego" where
  "his_view opt s =
     \<lparr>st = his_state_is_will opt s, want = his_want_state_is_will opt s, resp = do_dont_resp s opt\<rparr>"

text \<open>The options the server agrees to perform itself, and to let the client perform.\<close>

definition performs :: "u8 set" where
  "performs = {TELOPT_ECHO, TELOPT_BINARY, TELOPT_SGA, TELOPT_STATUS}"

definition accepts :: "u8 set" where
  "accepts = {TELOPT_BINARY, TELOPT_LFLOW, TELOPT_TTYPE, TELOPT_SGA, TELOPT_NAWS, TELOPT_TSPEED,
              TELOPT_XDISPLOC, TELOPT_ENVIRON}"

lemma do_switch_frame [simp]:
  "opt_is f o' (snd (do_switch opt s)) = opt_is f o' s"
  "will_wont_resp (snd (do_switch opt s)) = will_wont_resp s"
  "do_dont_resp (snd (do_switch opt s)) = do_dont_resp s"
  "net_out (snd (do_switch opt s)) = net_out s"
  "fst (do_switch opt s) \<longleftrightarrow> opt \<in> performs"
  by (simp_all add: do_switch_def performs_def)

lemma dont_switch_frame [simp]:
  "opt_is f o' (dont_switch opt s) = opt_is f o' s"
  "will_wont_resp (dont_switch opt s) = will_wont_resp s"
  "do_dont_resp (dont_switch opt s) = do_dont_resp s"
  "net_out (dont_switch opt s) = net_out s"
  by (simp_all add: dont_switch_def)

lemma will_switch_frame [simp]:
  "opt_is f o' (snd (will_switch opt s)) = opt_is f o' s"
  "will_wont_resp (snd (will_switch opt s)) = will_wont_resp s"
  "do_dont_resp (snd (will_switch opt s)) = do_dont_resp s"
  "net_out (snd (will_switch opt s)) = net_out s"
  "fst (will_switch opt s) \<longleftrightarrow> opt \<in> accepts"
  by (simp_all add: will_switch_def accepts_def telnet_opts)

lemma wont_switch_frame [simp]:
  "opt_is f o' (wont_switch opt s) = opt_is f o' s"
  "will_wont_resp (wont_switch opt s) = will_wont_resp s"
  "do_dont_resp (wont_switch opt s) = do_dont_resp s"
  "net_out (wont_switch opt s) = net_out s"
  by (simp_all add: wont_switch_def)

definition say_my :: "u8 \<Rightarrow> bool \<Rightarrow> u8 list" where
  "say_my opt on = [IAC, if on then WILL else WONT, opt]"

definition say_his :: "u8 \<Rightarrow> bool \<Rightarrow> u8 list" where
  "say_his opt on = [IAC, if on then DO else DONT, opt]"

interpretation my_side: negotiating "my_view opt" net_out "say_my opt" "opt \<in> performs"
    "opt \<notin> {TELOPT_TM, TELOPT_LOGOUT, TELOPT_SGA}" "dooption opt" "dontoption opt" for opt
  by unfold_locales
    (auto simp: my_view_def dooption_def dontoption_def nego_receive_def say_my_def Let_def
      send_will_def send_wont_def split_beta)

interpretation his_side: answering "his_view opt" net_out "say_his opt" "opt \<in> accepts"
    "opt \<notin> {TELOPT_TM, TELOPT_ECHO}" "willoption opt" for opt
  by unfold_locales
    (auto simp: his_view_def willoption_def nego_receive_def say_his_def Let_def
      send_do_def send_dont_def split_beta)

end
