(* ===== verification/Telnet_Invariant.thy ===== *)
theory Telnet_Invariant
  imports Telnet_Options
begin

text \<open>
  What the receiver keeps of the state whatever the client sends: the places it writes in its two
  buffers, the environment variables it may change, the options it may turn on.
\<close>

section \<open>The suboption buffer's cursors\<close>

lemma sb_simps [simp]:
  "fst (sb_get s) = subbuffer s (subpointer s)"
  "snd (sb_get s) = s\<lparr>subpointer := subpointer s + 1\<rparr>"
  "subbuffer (sb_set p c s) = (subbuffer s)(p := c)"
  "subpointer (sb_set p c s) = subpointer s" "subend (sb_set p c s) = subend s"
  by (simp_all add: sb_get_def sb_set_def)

lemma sub_unchanged [simp]:
  "subbuffer (settimer c s) = subbuffer s" "subpointer (settimer c s) = subpointer s"
  "subend (settimer c s) = subend s"
  "subbuffer (act a s) = subbuffer s" "subpointer (act a s) = subpointer s"
  "subend (act a s) = subend s"
  "subbuffer (netoprintf bs s) = subbuffer s" "subpointer (netoprintf bs s) = subpointer s"
  "subend (netoprintf bs s) = subend s"
  "subbuffer (setenv n v s) = subbuffer s" "subpointer (setenv n v s) = subpointer s"
  "subend (setenv n v s) = subend s"
  "subbuffer (unsetenv n s) = subbuffer s" "subpointer (unsetenv n s) = subpointer s"
  "subend (unsetenv n s) = subend s"
  "subbuffer (env_store p q s) = subbuffer s" "subpointer (env_store p q s) = subpointer s"
  "subend (env_store p q s) = subend s"
  by (simp_all add: settimer_def Let_def act_def netoprintf_def setenv_def unsetenv_def env_store_def
      split: option.splits)

text \<open>
  Everything a suboption leaves alone: all of the state but the cursors, the buffer, the clocks, the
  terminal's parameters, the environment, the bytes for the network and the actions.
\<close>

definition same_core :: "telnetd \<Rightarrow> telnetd \<Rightarrow> bool" where
  "same_core s t \<longleftrightarrow>
     options t = options s \<and> do_dont_resp t = do_dont_resp s \<and> will_wont_resp t = will_wont_resp s \<and>
     pbackp t = pbackp s \<and> ptyobuf t = ptyobuf s \<and> pty_in t = pty_in s \<and> ts_state t = ts_state s \<and>
     exited t = exited s"

lemma same_core_refl [simp]: "same_core s s"
  by (simp add: same_core_def)

lemma same_core_trans: "same_core s t \<Longrightarrow> same_core t u \<Longrightarrow> same_core s u"
  by (simp add: same_core_def)

lemma same_core_step [simp]:
  "same_core s (act a t) \<longleftrightarrow> same_core s t" "same_core s (settimer c t) \<longleftrightarrow> same_core s t"
  "same_core s (netoprintf bs t) \<longleftrightarrow> same_core s t" "same_core s (setenv n v t) \<longleftrightarrow> same_core s t"
  "same_core s (unsetenv n t) \<longleftrightarrow> same_core s t" "same_core s (sb_set p x t) \<longleftrightarrow> same_core s t"
  "same_core s (env_store p q t) \<longleftrightarrow> same_core s t"
  "same_core s (t\<lparr>subpointer := k\<rparr>) \<longleftrightarrow> same_core s t"
  "same_core s (t\<lparr>subend := k\<rparr>) \<longleftrightarrow> same_core s t"
  "same_core s (t\<lparr>subbuffer := buf\<rparr>) \<longleftrightarrow> same_core s t"
  "same_core s (t\<lparr>def_size := d\<rparr>) \<longleftrightarrow> same_core s t"
  "same_core s (t\<lparr>def_speed := d\<rparr>) \<longleftrightarrow> same_core s t"
  "same_core s (t\<lparr>terminaltype := name\<rparr>) \<longleftrightarrow> same_core s t"
  by (simp_all add: same_core_def act_def settimer_def Let_def netoprintf_def setenv_def unsetenv_def
      sb_set_def env_store_def split: option.splits)

text \<open>
  What a suboption may do to the rest: its writes stay below the buffer's last byte, its cursors
  within the buffer, and only the variables that are allowed change.
\<close>

definition sub_ok :: "telnetd \<Rightarrow> bool" where
  "sub_ok s \<longleftrightarrow> subpointer s \<le> SUBBUFSIZE \<and> subend s < SUBBUFSIZE \<and> subbuffer s (SUBBUFSIZE - 1) = 0"

definition sub_kept :: "telnetd \<Rightarrow> telnetd \<Rightarrow> bool" where
  "sub_kept s t \<longleftrightarrow>
     same_core s t \<and> subend t = subend s \<and> subpointer t \<le> max (subpointer s) (subend s + 1) \<and>
     subbuffer t (SUBBUFSIZE - 1) = 0 \<and> (\<forall>i\<ge>SUBBUFSIZE. subbuffer t i = subbuffer s i) \<and>
     (\<forall>v. \<not> envvarok v \<longrightarrow> environ t v = environ s v)"

lemma sub_keptI:
  "same_core s t \<Longrightarrow> subend t = subend s \<Longrightarrow> subpointer t \<le> max (subpointer s) (subend s + 1) \<Longrightarrow>
   subbuffer t (SUBBUFSIZE - 1) = 0 \<Longrightarrow> (\<And>i. i \<ge> SUBBUFSIZE \<Longrightarrow> subbuffer t i = subbuffer s i) \<Longrightarrow>
   (\<And>v. \<not> envvarok v \<Longrightarrow> environ t v = environ s v) \<Longrightarrow> sub_kept s t"
  by (simp add: sub_kept_def)

lemma environ_unchanged [simp]:
  "environ (act a s) = environ s" "environ (settimer c s) = environ s"
  "environ (netoprintf bs s) = environ s" "environ (sb_set p x s) = environ s"
  by (simp_all add: act_def settimer_def Let_def netoprintf_def sb_set_def)

lemma env_store_other: "\<not> envvarok v \<Longrightarrow> environ (env_store p q s) v = environ s v"
  by (auto simp: env_store_def setenv_def unsetenv_def split: option.splits)

lemma sub_kept_trans:
  assumes "sub_kept s t" "sub_kept t u"
  shows "sub_kept s u"
proof (rule sub_keptI)
  show "same_core s u" using assms same_core_trans unfolding sub_kept_def by blast
qed (use assms in \<open>auto simp: sub_kept_def max_def split: if_splits\<close>)

text \<open>The loops: they stop at the end of the suboption, or one byte after it.\<close>

lemma skip_to_var_kept: "subbuffer s (SUBBUFSIZE - 1) = 0 \<Longrightarrow> sub_kept s (skip_to_var s)"
proof (induction s rule: skip_to_var.induct)
  case (1 s)
  show ?case
  proof (cases "sb_eof s")
    case True
    then show ?thesis using 1(2)
      by (subst skip_to_var.simps) (auto intro!: sub_keptI)
  next
    case False
    let ?t = "s\<lparr>subpointer := subpointer s + 1\<rparr>"
    have step: "sub_kept s ?t" using False 1(2) by (auto intro!: sub_keptI simp: sb_eof_def)
    have "sub_kept ?t (skip_to_var ?t)" if "subbuffer s (subpointer s) \<noteq> ENV_VAR"
      using 1(1)[OF False, of "sb_get s" "subbuffer s (subpointer s)" ?t] that 1(2)
      by (simp add: sb_get_def)
    then show ?thesis
      using False step sub_kept_trans[OF step]
      by (subst skip_to_var.simps) (simp add: sb_get_def)
  qed
qed

lemma skip_to_comma_kept:
  "subbuffer s (SUBBUFSIZE - 1) = 0 \<Longrightarrow> subpointer s \<le> subend s \<Longrightarrow> sub_kept s (skip_to_comma s)"
proof (induction s rule: skip_to_comma.induct)
  case (1 s)
  let ?t = "s\<lparr>subpointer := subpointer s + 1\<rparr>"
  have step: "sub_kept s ?t" using 1(2,3) by (auto intro!: sub_keptI)
  have "sub_kept ?t (skip_to_comma ?t)" if "subbuffer s (subpointer s) \<noteq> 44" "\<not> sb_eof ?t"
    using 1(1)[of "sb_get s" "subbuffer s (subpointer s)" ?t] that 1(2)
    by (simp add: sb_get_def sb_eof_def)
  then show ?case
    using step sub_kept_trans[OF step]
    by (subst skip_to_comma.simps) (simp add: sb_get_def)
qed

lemma ttype_loop_kept: "subbuffer s (SUBBUFSIZE - 1) = 0 \<Longrightarrow> sub_kept s (snd (ttype_loop n s))"
proof (induction n arbitrary: s)
  case (Suc n)
  let ?t = "s\<lparr>subpointer := subpointer s + 1\<rparr>"
  show ?case
  proof (cases "sb_eof s")
    case False
    then have step: "sub_kept s ?t" using Suc.prems by (auto intro!: sub_keptI simp: sb_eof_def)
    have "sub_kept ?t (snd (ttype_loop n ?t))" using Suc by simp
    then show ?thesis
      using False sub_kept_trans[OF step] by (simp add: sb_get_def split_beta Let_def)
  qed (use Suc.prems in \<open>auto intro!: sub_keptI\<close>)
qed (auto intro!: sub_keptI)

lemma ttype_loop_length: "length (fst (ttype_loop n s)) \<le> n"
  by (induction n arbitrary: s) (auto simp: split_beta Let_def)

lemma sb_set_kept: "subbuffer s (SUBBUFSIZE - 1) = 0 \<Longrightarrow> p < SUBBUFSIZE - 1 \<or> p = SUBBUFSIZE - 1 \<and> x = 0
  \<Longrightarrow> sub_kept s (sb_set p x s)"
  by (auto intro!: sub_keptI simp: SUBBUFSIZE_def)

lemma env_store_kept: "subbuffer s (SUBBUFSIZE - 1) = 0 \<Longrightarrow> sub_kept s (env_store p q s)"
  by (intro sub_keptI) (auto simp: env_store_other)

lemma sb_get_kept:
  "subbuffer s (SUBBUFSIZE - 1) = 0 \<Longrightarrow> subpointer s \<le> subend s \<Longrightarrow>
   sub_kept s (s\<lparr>subpointer := subpointer s + 1\<rparr>)"
  by (auto intro!: sub_keptI)

definition env_inv :: "nat \<Rightarrow> telnetd \<Rightarrow> bool" where
  "env_inv cp s \<longleftrightarrow>
     cp \<le> subpointer s \<and> subpointer s \<le> subend s \<and> subend s < SUBBUFSIZE \<and> subbuffer s (SUBBUFSIZE - 1) = 0"

definition env_next :: "nat \<Rightarrow> nat \<Rightarrow> nat option \<Rightarrow> telnetd \<Rightarrow> nat \<times> nat \<times> nat option \<times> telnetd" where
  "env_next cp varp valp s =
     (let (c, s1) = sb_get s in
        if c = ENV_VALUE
        then (let s2 = sb_set cp 0 s1 in (subpointer s2, varp, Some (subpointer s2), s2))
        else if c = ENV_VAR
        then (let s2 = env_store varp valp (sb_set cp 0 s1) in (subpointer s2, subpointer s2, None, s2))
        else if c = ENV_ESC \<and> sb_eof s1 then (cp, varp, valp, s1)
        else let (c', s2) = (if c = ENV_ESC then sb_get s1 else (c, s1));
                 (cp', s3) = env_byte c' cp s2
             in (cp', varp, valp, s3))"

lemma environ_loop_step:
  "environ_loop cp varp valp s =
     (if sb_eof s then (cp, varp, valp, s)
      else let (cp', varp', valp', s') = env_next cp varp valp s in environ_loop cp' varp' valp' s')"
  by (subst environ_loop.simps) (auto simp: env_next_def Let_def split_beta)

lemma env_next_progress:
  "\<not> sb_eof s \<Longrightarrow> env_next cp varp valp s = (cp', varp', valp', s') \<Longrightarrow>
   subend s' - subpointer s' < subend s - subpointer s"
  by (auto simp: env_next_def sb_eof_def sb_get_def sb_set_def env_store_def setenv_def unsetenv_def
      env_byte_def Let_def split: if_splits option.splits prod.splits)

lemma environ_loop_induct:
  assumes "\<And>cp varp valp s. (\<And>cp' varp' valp' s'. \<not> sb_eof s \<Longrightarrow>
      env_next cp varp valp s = (cp', varp', valp', s') \<Longrightarrow> P cp' varp' valp' s') \<Longrightarrow> P cp varp valp s"
  shows "P cp varp valp s"
proof (induction "subend s - subpointer s" arbitrary: cp varp valp s rule: less_induct)
  case less
  show ?case
    by (rule assms, rule less) (rule env_next_progress)
qed

lemma env_next_kept:
  assumes inv: "env_inv cp s" and more: "\<not> sb_eof s"
    and step: "env_next cp varp valp s = (cp', varp', valp', s')"
  shows "sub_kept s s' \<and> env_inv cp' s'"
proof -
  define c where "c = subbuffer s (subpointer s)"
  define t where "t = s\<lparr>subpointer := subpointer s + 1\<rparr>"
  have get: "sb_get s = (c, t)" by (simp add: sb_get_def c_def t_def)
  have t1: "sub_kept s t"
    using inv more unfolding t_def by (intro sb_get_kept) (auto simp: env_inv_def)
  have t: "env_inv cp t" "cp < subpointer t" "subbuffer t (SUBBUFSIZE - 1) = 0"
    "subpointer t \<le> subend t" "subend t < SUBBUFSIZE" "cp < SUBBUFSIZE - 1"
    using inv more by (auto simp: env_inv_def sb_eof_def t_def SUBBUFSIZE_def)
  define z where "z = sb_set cp 0 t"
  have z: "sub_kept t z" "subbuffer z (SUBBUFSIZE - 1) = 0" "subpointer z = subpointer t" "subend z = subend t"
    using t sb_set_kept[of t cp 0] by (auto simp: z_def)
  have byte: "sub_kept u (snd (env_byte b cp u)) \<and> env_inv (fst (env_byte b cp u)) (snd (env_byte b cp u))"
    if "env_inv cp u" "cp < subpointer u" for u b
    using that sb_set_kept[of u cp b] by (auto simp: env_byte_def env_inv_def sub_kept_def)
  consider (val) "c = ENV_VALUE" | (var) "c = ENV_VAR" "c \<noteq> ENV_VALUE"
    | (stop) "c = ENV_ESC" "sb_eof t" | (esc) "c = ENV_ESC" "\<not> sb_eof t"
    | (plain) "c \<noteq> ENV_VALUE" "c \<noteq> ENV_VAR" "c \<noteq> ENV_ESC" by blast
  then show ?thesis
  proof cases
    case val
    then have "cp' = subpointer z" "s' = z"
      using step by (auto simp: env_next_def get z_def Let_def)
    then show ?thesis using t z sub_kept_trans[OF t1 z(1)] by (auto simp: env_inv_def)
  next
    case var
    then have "cp' = subpointer z" "s' = env_store varp valp z"
      using step by (auto simp: env_next_def get z_def Let_def)
    then show ?thesis
      using t z sub_kept_trans[OF t1 z(1)] env_store_kept[OF z(2), of varp valp]
      by (auto simp: env_inv_def intro: sub_kept_trans)
  next
    case stop
    then have "cp' = cp" "s' = t"
      using step by (auto simp: env_next_def get Let_def ENV_ESC_def ENV_VALUE_def ENV_VAR_def)
    then show ?thesis using t t1 by simp
  next
    case esc
    define u where "u = t\<lparr>subpointer := subpointer t + 1\<rparr>"
    have u: "sub_kept t u"
      using t unfolding u_def by (intro sb_get_kept)
    have u': "env_inv cp u" "cp < subpointer u"
      using t esc by (auto simp: u_def env_inv_def sb_eof_def)
    have "(cp', s') = env_byte (subbuffer t (subpointer t)) cp u"
      using step esc sb_get_def[of t, folded u_def]
      by (auto simp: env_next_def get Let_def ENV_ESC_def ENV_VALUE_def ENV_VAR_def
          split: prod.splits)
    then have s': "s' = snd (env_byte (subbuffer t (subpointer t)) cp u)"
      and cp': "cp' = fst (env_byte (subbuffer t (subpointer t)) cp u)"
      by (metis snd_conv, metis fst_conv)
    show ?thesis
      unfolding s' cp' using byte[OF u'] sub_kept_trans[OF t1] sub_kept_trans[OF u] by blast
  next
    case plain
    then have "(cp', s') = env_byte c cp t"
      using step by (auto simp: env_next_def get Let_def split: prod.splits)
    then have s': "s' = snd (env_byte c cp t)" and cp': "cp' = fst (env_byte c cp t)"
      by (metis snd_conv, metis fst_conv)
    show ?thesis
      unfolding s' cp' using byte[OF t(1,2)] sub_kept_trans[OF t1] by blast
  qed
qed

lemma sub_kept_refl: "subbuffer s (SUBBUFSIZE - 1) = 0 \<Longrightarrow> sub_kept s s"
  by (auto intro!: sub_keptI)

lemma environ_loop_kept:
  "env_inv cp s \<Longrightarrow> environ_loop cp varp valp s = (cp', varp', valp', t) \<Longrightarrow> sub_kept s t \<and> env_inv cp' t"
proof (induction cp varp valp s rule: environ_loop_induct)
  case (1 cp varp valp s)
  show ?case
  proof (cases "sb_eof s")
    case True
    then show ?thesis
      using 1(2,3) by (auto simp: environ_loop_step env_inv_def intro!: sub_kept_refl)
  next
    case False
    obtain cp1 varp1 valp1 s1 where n: "env_next cp varp valp s = (cp1, varp1, valp1, s1)"
      by (cases "env_next cp varp valp s")
    have k: "sub_kept s s1" "env_inv cp1 s1" using env_next_kept[OF 1(2) False n] by simp_all
    have "environ_loop cp1 varp1 valp1 s1 = (cp', varp', valp', t)"
      using 1(3) False n by (simp add: environ_loop_step[of cp varp valp s])
    then have "sub_kept s1 t \<and> env_inv cp' t"
      using 1(1)[OF False n k(2)] by simp
    then show ?thesis using sub_kept_trans[OF k(1)] by blast
  qed
qed

section \<open>Suboptions\<close>

definition sub_pre :: "telnetd \<Rightarrow> bool" where
  "sub_pre s \<longleftrightarrow> subend s < SUBBUFSIZE \<and> subbuffer s (SUBBUFSIZE - 1) = 0"

lemma sub_kept_pre: "sub_pre s \<Longrightarrow> sub_kept s t \<Longrightarrow> sub_pre t"
  by (simp add: sub_pre_def sub_kept_def)

lemma kept_id: "sub_pre s \<Longrightarrow> sub_kept s s"
  by (simp add: sub_pre_def sub_kept_refl)

lemma sub_pre_step [simp]:
  "sub_pre (s\<lparr>subpointer := k\<rparr>) = sub_pre s" "sub_pre (settimer c s) = sub_pre s"
  by (simp_all add: sub_pre_def)

lemma kept_silent:
  "sub_pre s \<Longrightarrow> sub_kept s (settimer c s)" "sub_pre s \<Longrightarrow> sub_kept s (act a s)"
  "sub_pre s \<Longrightarrow> sub_kept s (netoprintf bs s)"
  "sub_pre s \<Longrightarrow> sub_kept s (clientstat_naws x y s)" "sub_pre s \<Longrightarrow> sub_kept s (clientstat_tspeed x y s)"
  "sub_pre s \<Longrightarrow> sub_kept s (s\<lparr>terminaltype := n\<rparr>)" "sub_pre s \<Longrightarrow> sub_kept s (send_status E s)"
  by (auto simp: sub_pre_def clientstat_naws_def clientstat_tspeed_def send_status_def intro!: sub_keptI)

lemma kept_get: "sub_pre s \<Longrightarrow> subpointer s \<le> subend s \<Longrightarrow> sub_kept s (s\<lparr>subpointer := Suc (subpointer s)\<rparr>)"
  using sb_get_kept[of s] by (simp add: sub_pre_def)

lemma kept_after: "sub_kept s t \<Longrightarrow> (sub_pre t \<Longrightarrow> sub_kept t u) \<Longrightarrow> sub_pre s \<Longrightarrow> sub_kept s u"
  using sub_kept_pre sub_kept_trans by blast

lemma not_eof: "\<not> sb_eof s \<Longrightarrow> subpointer s < subend s"
  by (simp add: sb_eof_def)

lemma sub_pre_zero: "sub_pre s \<Longrightarrow> subbuffer s (SUBBUFSIZE - 1) = 0"
  by (simp add: sub_pre_def)

lemma sub_tspeed_kept:
  assumes "sub_pre s"
  shows "sub_kept s (sub_tspeed s)"
proof -
  define s0 where "s0 = settimer TspeedSubopt s"
  define s1 where "s1 = s0\<lparr>subpointer := Suc (subpointer s0)\<rparr>"
  have k0: "sub_kept s s0" and p0: "sub_pre s0" using assms by (simp_all add: s0_def kept_silent)
  show ?thesis
  proof (cases "\<not> his_state_is_will TELOPT_TSPEED s \<or> sb_eof s0")
    case True
    then show ?thesis
      using assms k0 by (auto simp: sub_tspeed_def Let_def s0_def[symmetric] intro!: kept_id)
  next
    case False
    then have k1: "sub_kept s s1" and p1: "sub_pre s1" and le: "subpointer s1 \<le> subend s1"
      using kept_get[OF p0] not_eof[of s0] sub_kept_trans[OF k0] p0 by (auto simp: s1_def)
    have k2: "sub_kept s (skip_to_comma s1)" and p2: "sub_pre (skip_to_comma s1)"
      using skip_to_comma_kept[OF sub_pre_zero[OF p1] le] sub_kept_trans[OF k1] sub_kept_pre[OF p1] by simp_all
    have k3: "sub_kept s (clientstat_tspeed x y (skip_to_comma s1))" for x y
      using sub_kept_trans[OF k2 kept_silent(5)[OF p2]] .
    show ?thesis
      using False k1 k2 k3
      by (auto simp: sub_tspeed_def Let_def s0_def[symmetric] s1_def[symmetric] split_beta)
  qed
qed

lemma sub_ttype_kept:
  assumes "sub_pre s"
  shows "sub_kept s (sub_ttype s)"
proof -
  define s0 where "s0 = settimer TtypeSubopt s"
  define s1 where "s1 = s0\<lparr>subpointer := Suc (subpointer s0)\<rparr>"
  have k0: "sub_kept s s0" and p0: "sub_pre s0" using assms by (simp_all add: s0_def kept_silent)
  show ?thesis
  proof (cases "\<not> his_state_is_will TELOPT_TTYPE s \<or> sb_eof s0")
    case True
    then show ?thesis
      using assms k0 by (auto simp: sub_ttype_def Let_def s0_def[symmetric] intro!: kept_id)
  next
    case False
    then have k1: "sub_kept s s1" and p1: "sub_pre s1"
      using kept_get[OF p0] not_eof[of s0] sub_kept_trans[OF k0] p0 by (auto simp: s1_def)
    have k2: "sub_kept s (snd (ttype_loop 40 s1))"
      using ttype_loop_kept[OF sub_pre_zero[OF p1]] sub_kept_trans[OF k1] by simp
    have k3: "sub_kept s ((snd (ttype_loop 40 s1))\<lparr>terminaltype := n\<rparr>)" for n
      using sub_kept_trans[OF k2 kept_silent(6)] sub_kept_pre[OF assms k2] by blast
    show ?thesis
      using False k1 k3
      by (auto simp: sub_ttype_def Let_def s0_def[symmetric] s1_def[symmetric] split_beta)
  qed
qed

lemma sub_naws_kept:
  assumes "sub_pre s"
  shows "sub_kept s (sub_naws s)"
proof -
  have k: "sub_kept s (s\<lparr>subpointer := subpointer s + n\<rparr>)" if "subpointer s + n \<le> Suc (subend s) \<or> n = 0" for n
    using assms that by (auto intro!: sub_keptI simp: sub_pre_def)
  have k4: "sub_kept s (clientstat_naws x y (s\<lparr>subpointer := subpointer s + 4\<rparr>))"
    if "subpointer s + 4 \<le> Suc (subend s)" for x y
    using sub_kept_trans[OF k kept_silent(4)] that assms by simp
  show ?thesis
    using k[of 0] k[of 1] k[of 2] k[of 3] k4
    by (auto simp: sub_naws_def Let_def split_beta sb_eof_def eval_nat_numeral)
qed

lemma sub_status_kept:
  assumes "sub_pre s"
  shows "sub_kept s (sub_status E s)"
  using assms kept_get[of s] kept_after[OF kept_get[of s] kept_silent(7)[of _ E]] kept_id[of s]
  by (auto simp: sub_status_def Let_def split_beta dest!: not_eof)

lemma setenv_kept: "sub_pre s \<Longrightarrow> envvarok n \<Longrightarrow> sub_kept s (setenv n v s)"
  by (auto intro!: sub_keptI simp: sub_pre_def, auto simp: setenv_def)

lemma sb_set_zero_kept: "sub_pre s \<Longrightarrow> p < SUBBUFSIZE \<Longrightarrow> sub_kept s (sb_set p 0 s)"
  by (intro sb_set_kept) (auto simp: sub_pre_def SUBBUFSIZE_def)

lemma sub_xdisploc_kept:
  assumes "sub_pre s"
  shows "sub_kept s (sub_xdisploc s)"
proof (cases "sb_eof s")
  case False
  define s1 where "s1 = s\<lparr>subpointer := Suc (subpointer s)\<rparr>"
  define s2 where "s2 = settimer XdisplocSubopt s1"
  define s3 where "s3 = sb_set (subend s) 0 s2"
  have k1: "sub_kept s s1" and p1: "sub_pre s1"
    using False assms by (auto simp: s1_def dest!: not_eof intro!: kept_get)
  have k2: "sub_kept s s2" and p2: "sub_pre s2"
    using sub_kept_trans[OF k1 kept_silent(1)[OF p1]] p1 by (simp_all add: s2_def)
  have k3: "sub_kept s s3" and p3: "sub_pre s3"
    using sub_kept_trans[OF k2] sb_set_zero_kept[OF p2, of "subend s"] p2 sub_kept_pre[OF assms]
    by (auto simp: s3_def sub_pre_def s2_def s1_def)
  have k4: "sub_kept s (setenv (bytes ''DISPLAY'') v s3)" for v
    using sub_kept_trans[OF k3 setenv_kept[OF p3]] by (simp add: envvarok_def)
  have "subpointer s2 + (subend s2 - subpointer s2) = subend s"
    using False by (auto simp: s2_def s1_def dest!: not_eof)
  then show ?thesis
    using False k1 k4
    by (auto simp: sub_xdisploc_def Let_def split_beta s1_def[symmetric] s2_def[symmetric]
        s3_def[symmetric])
qed (use assms in \<open>simp add: sub_xdisploc_def kept_id\<close>)

lemma sub_environ_kept:
  assumes "sub_pre s"
  shows "sub_kept s (sub_environ s)"
proof (cases "sb_eof s")
  case False
  define s1 where "s1 = s\<lparr>subpointer := Suc (subpointer s)\<rparr>"
  define s1' where "s1' = (if subbuffer s (subpointer s) = TELQUAL_IS then settimer EnvironSubopt s1 else s1)"
  define s2 where "s2 = skip_to_var s1'"
  have k1: "sub_kept s s1" and p1: "sub_pre s1"
    using False assms by (auto simp: s1_def dest!: not_eof intro!: kept_get)
  have k1': "sub_kept s s1'" and p1': "sub_pre s1'"
    using k1 p1 sub_kept_trans[OF k1 kept_silent(1)[OF p1]] by (auto simp: s1'_def)
  have k2: "sub_kept s s2" and p2: "sub_pre s2"
    using skip_to_var_kept[OF sub_pre_zero[OF p1']] sub_kept_trans[OF k1'] sub_kept_pre[OF p1']
    by (simp_all add: s2_def)
  have loop: "sub_kept s (env_store varp valp (sb_set cp 0 s3))"
    if "environ_loop (subpointer s2) (subpointer s2) None s2 = (cp, varp, valp, s3)" "\<not> sb_eof s2"
    for cp varp valp s3
  proof -
    have "env_inv (subpointer s2) s2"
      using p2 that(2) by (auto simp: env_inv_def sub_pre_def sb_eof_def)
    from environ_loop_kept[OF this that(1)] have k: "sub_kept s2 s3" "env_inv cp s3" by simp_all
    then have p3: "sub_pre s3" "cp < SUBBUFSIZE" by (auto simp: env_inv_def sub_pre_def)
    then have k4: "sub_kept s3 (sb_set cp 0 s3)" by (simp add: sb_set_zero_kept)
    show ?thesis
      using sub_kept_trans[OF k2 sub_kept_trans[OF k(1) sub_kept_trans[OF k4 env_store_kept]]]
        sub_pre_zero[OF sub_kept_pre[OF p3(1) k4]] by simp
  qed
  have "sub_environ s =
     (if subbuffer s (subpointer s) \<noteq> TELQUAL_IS \<and> subbuffer s (subpointer s) \<noteq> TELQUAL_INFO then s1
      else if sb_eof s2 then s2
      else let (cp, varp, valp, s3) = environ_loop (subpointer s2) (subpointer s2) None s2
           in env_store varp valp (sb_set cp 0 s3))"
    using False by (simp add: sub_environ_def sb_get_def s2_def s1'_def s1_def Let_def)
  then show ?thesis
    using k1 k2 loop by (auto split: prod.splits)
qed (use assms in \<open>simp add: sub_environ_def kept_id\<close>)

lemma suboption_kept:
  assumes "sub_pre s" "subpointer s \<le> subend s"
  shows "sub_kept s (suboption E s)"
proof -
  define t where "t = s\<lparr>subpointer := Suc (subpointer s)\<rparr>"
  have k: "sub_kept s t" and p: "sub_pre t"
    using kept_get[OF assms] assms by (simp_all add: t_def)
  have "suboption E s \<in> {sub_tspeed t, sub_ttype t, sub_naws t, sub_status E t, sub_xdisploc t, sub_environ t, t}"
    by (simp add: suboption_def sb_get_def t_def)
  then show ?thesis
    using k sub_kept_trans[OF k] sub_tspeed_kept[OF p] sub_ttype_kept[OF p] sub_naws_kept[OF p]
      sub_status_kept[OF p] sub_xdisploc_kept[OF p] sub_environ_kept[OF p]
    by auto
qed

section \<open>The receiver\<close>

definition pty_fill :: "telnetd \<Rightarrow> nat" where
  "pty_fill s = pbackp s + length (ptyobuf s)"

definition same_mem :: "telnetd \<Rightarrow> telnetd \<Rightarrow> bool" where
  "same_mem s t \<longleftrightarrow>
     subbuffer t = subbuffer s \<and> subpointer t = subpointer s \<and> subend t = subend s \<and>
     environ t = environ s"

lemma same_mem_refl [simp]: "same_mem s s"
  by (simp add: same_mem_def)

lemma same_mem_step [simp]:
  "same_mem s (act a t) \<longleftrightarrow> same_mem s t" "same_mem s (settimer c t) \<longleftrightarrow> same_mem s t"
  "same_mem s (netoprintf bs t) \<longleftrightarrow> same_mem s t" "same_mem s (set_opt f on opt t) \<longleftrightarrow> same_mem s t"
  "same_mem s (inc_do_dont opt t) \<longleftrightarrow> same_mem s t" "same_mem s (inc_will_wont opt t) \<longleftrightarrow> same_mem s t"
  "same_mem s (his_answer on opt t) \<longleftrightarrow> same_mem s t" "same_mem s (my_answer on opt t) \<longleftrightarrow> same_mem s t"
  "same_mem s (set_flow_level lv t) \<longleftrightarrow> same_mem s t" "same_mem s (pty_put x t) \<longleftrightarrow> same_mem s t"
  "same_mem s (ptyflush E t) \<longleftrightarrow> same_mem s t"
  "same_mem s (t\<lparr>not42 := b\<rparr>) \<longleftrightarrow> same_mem s t" "same_mem s (t\<lparr>turn_on_sga := b\<rparr>) \<longleftrightarrow> same_mem s t"
  "same_mem s (t\<lparr>exited := b\<rparr>) \<longleftrightarrow> same_mem s t" "same_mem s (t\<lparr>synching := b\<rparr>) \<longleftrightarrow> same_mem s t"
  "same_mem s (t\<lparr>ts_state := ts\<rparr>) \<longleftrightarrow> same_mem s t"
  by (simp_all add: same_mem_def act_def settimer_def Let_def netoprintf_def set_opt_def inc_do_dont_def
      inc_will_wont_def his_answer_def my_answer_def set_flow_level_def pty_put_def ptyflush_def)

lemma fill_step [simp]:
  "pty_fill (act a t) = pty_fill t" "pty_fill (settimer c t) = pty_fill t"
  "pty_fill (netoprintf bs t) = pty_fill t" "pty_fill (set_opt f on opt t) = pty_fill t"
  "pty_fill (inc_do_dont opt t) = pty_fill t" "pty_fill (inc_will_wont opt t) = pty_fill t"
  "pty_fill (his_answer on opt t) = pty_fill t" "pty_fill (my_answer on opt t) = pty_fill t"
  "pty_fill (set_flow_level lv t) = pty_fill t" "pty_fill (pty_put x t) = Suc (pty_fill t)"
  "pty_fill (t\<lparr>not42 := b\<rparr>) = pty_fill t" "pty_fill (t\<lparr>turn_on_sga := b\<rparr>) = pty_fill t"
  "pty_fill (t\<lparr>exited := b\<rparr>) = pty_fill t" "pty_fill (t\<lparr>synching := b\<rparr>) = pty_fill t"
  "pty_fill (t\<lparr>ts_state := ts\<rparr>) = pty_fill t" "pty_fill (t\<lparr>subpointer := k\<rparr>) = pty_fill t"
  "pty_fill (t\<lparr>subend := k\<rparr>) = pty_fill t"
  by (simp_all add: pty_fill_def act_def settimer_def Let_def netoprintf_def set_opt_def inc_do_dont_def
      inc_will_wont_def his_answer_def my_answer_def set_flow_level_def pty_put_def)

lemma fill_flush: "pty_fill (ptyflush E t) \<le> pty_fill t"
  by (auto simp: pty_fill_def ptyflush_def Let_def)

lemma sends_mem [simp]:
  "same_mem s (send_do opt i t) \<longleftrightarrow> same_mem s t" "same_mem s (send_dont opt i t) \<longleftrightarrow> same_mem s t"
  "same_mem s (send_will opt i t) \<longleftrightarrow> same_mem s t" "same_mem s (send_wont opt i t) \<longleftrightarrow> same_mem s t"
  "pty_fill (send_do opt i t) = pty_fill t" "pty_fill (send_dont opt i t) = pty_fill t"
  "pty_fill (send_will opt i t) = pty_fill t" "pty_fill (send_wont opt i t) = pty_fill t"
  by (simp_all add: send_do_def send_dont_def send_will_def send_wont_def Let_def)

lemma switches_mem [simp]:
  "same_mem s (snd (will_switch opt t)) \<longleftrightarrow> same_mem s t" "pty_fill (snd (will_switch opt t)) = pty_fill t"
  "same_mem s (wont_switch opt t) \<longleftrightarrow> same_mem s t" "pty_fill (wont_switch opt t) = pty_fill t"
  "same_mem s (snd (do_switch opt t)) \<longleftrightarrow> same_mem s t" "pty_fill (snd (do_switch opt t)) = pty_fill t"
  "same_mem s (dont_switch opt t) \<longleftrightarrow> same_mem s t" "pty_fill (dont_switch opt t) = pty_fill t"
  by (simp_all add: will_switch_def wont_switch_def do_switch_def dont_switch_def)

lemma willoption_mem [simp]: "same_mem s (willoption opt s)" "pty_fill (willoption opt s) = pty_fill s"
  by (simp_all add: willoption_def Let_def split_beta)

lemma wontoption_mem [simp]: "same_mem s (wontoption opt s)" "pty_fill (wontoption opt s) = pty_fill s"
  by (simp_all add: wontoption_def Let_def split_beta)

lemma dooption_mem [simp]: "same_mem s (dooption opt s)" "pty_fill (dooption opt s) = pty_fill s"
  by (simp_all add: dooption_def Let_def split_beta)

lemma dontoption_mem [simp]: "same_mem s (dontoption opt s)" "pty_fill (dontoption opt s) = pty_fill s"
  by (simp_all add: dontoption_def Let_def split_beta)

lemma put_slc_mem [simp]:
  "same_mem s (put_slc E f d t) \<longleftrightarrow> same_mem s t" "pty_fill (put_slc E f d t) = Suc (pty_fill t)"
  by (simp_all add: put_slc_def)

lemma iac_action_mem: "same_mem s (iac_action E c s)"
  by (simp add: iac_action_def interrupt_def sendbrk_def sendsusp_def recv_ayt_def doeof_def
      abort_output_def erase_def Let_def split: option.split)

lemma iac_action_fill: "pty_fill (iac_action E c s) \<le> Suc (pty_fill s)"
  using fill_flush[of E s]
  by (auto simp: iac_action_def interrupt_def sendbrk_def sendsusp_def recv_ayt_def doeof_def
      abort_output_def erase_def Let_def split: option.split)

text \<open>
  The receiver's well-formed states: the cursors of the suboption buffer inside it, its last byte 0
  (so that every string read from it ends inside), and the buffer for the process not overrun.
\<close>

definition collecting :: "ts \<Rightarrow> bool" where
  "collecting ts \<longleftrightarrow> ts = TS_SB \<or> ts = TS_SE"

definition tel_ok :: "tel_env \<Rightarrow> telnetd \<Rightarrow> bool" where
  "tel_ok E s \<longleftrightarrow>
     sub_pre s \<and> subpointer s \<le> SUBBUFSIZE \<and>
     (collecting (ts_state s) \<longrightarrow> subpointer s < SUBBUFSIZE) \<and> pty_fill s \<le> pty_size E"

definition mem_kept :: "telnetd \<Rightarrow> telnetd \<Rightarrow> bool" where
  "mem_kept s t \<longleftrightarrow>
     (\<forall>i\<ge>SUBBUFSIZE. subbuffer t i = subbuffer s i) \<and> (\<forall>v. \<not> envvarok v \<longrightarrow> environ t v = environ s v)"

lemma mem_kept_trans: "mem_kept s t \<Longrightarrow> mem_kept t u \<Longrightarrow> mem_kept s u"
  by (simp add: mem_kept_def)

lemma mem_kept_simps [simp]:
  "mem_kept s (t\<lparr>ts_state := ts\<rparr>) \<longleftrightarrow> mem_kept s t" "mem_kept s (t\<lparr>subpointer := k\<rparr>) \<longleftrightarrow> mem_kept s t"
  "mem_kept s (t\<lparr>subend := k\<rparr>) \<longleftrightarrow> mem_kept s t" "mem_kept s s"
  by (simp_all add: mem_kept_def)

lemma same_mem_kept: "same_mem s t \<Longrightarrow> mem_kept s t"
  by (simp add: same_mem_def mem_kept_def)

lemma sub_kept_mem: "sub_kept s t \<Longrightarrow> mem_kept s t"
  by (simp add: sub_kept_def mem_kept_def)

lemma same_mem_ok:
  "tel_ok E s \<Longrightarrow> same_mem s t \<Longrightarrow> pty_fill t \<le> pty_size E \<Longrightarrow> \<not> collecting ts \<Longrightarrow>
   tel_ok E (t\<lparr>ts_state := ts\<rparr>) \<and> mem_kept s (t\<lparr>ts_state := ts\<rparr>)"
  by (auto simp: tel_ok_def same_mem_def sub_pre_def mem_kept_def)

lemma collecting_simps [simp]:
  "collecting TS_SB" "collecting TS_SE" "\<not> collecting TS_DATA" "\<not> collecting TS_IAC" "\<not> collecting TS_CR"
  "\<not> collecting TS_WILL" "\<not> collecting TS_WONT" "\<not> collecting TS_DO" "\<not> collecting TS_DONT"
  by (simp_all add: collecting_def)

lemma rcv_iac_ok:
  assumes "tel_ok E s" "pty_fill s < pty_size E"
  shows "tel_ok E (rcv_iac E c s) \<and> mem_kept s (rcv_iac E c s)"
proof (cases "c \<in> {SB, WILL, WONT, DO, DONT}")
  case True
  then show ?thesis
    using assms by (auto simp: rcv_iac_def tel_ok_def sb_clear_def sub_pre_def SUBBUFSIZE_def)
next
  case False
  then have "rcv_iac E c s = (iac_action E c s)\<lparr>ts_state := TS_DATA\<rparr>" by (simp add: rcv_iac_def)
  then show ?thesis
    using same_mem_ok[OF assms(1) iac_action_mem[of s E c], of TS_DATA] iac_action_fill[of E c s] assms(2)
    by simp
qed

lemma rcv_data_ok:
  assumes "tel_ok E s" "pty_fill s < pty_size E" "\<not> collecting (ts_state s)"
  shows "tel_ok E (rcv_data c s) \<and> mem_kept s (rcv_data c s)"
proof -
  have "pty_put c (s\<lparr>ts_state := ts\<rparr>) = (pty_put c s)\<lparr>ts_state := ts\<rparr>" for ts
    by (simp add: pty_put_def)
  moreover have "pty_put c s = (pty_put c s)\<lparr>ts_state := ts_state s\<rparr>" by (simp add: pty_put_def)
  ultimately show ?thesis
    using same_mem_ok[OF assms(1), of s TS_IAC] same_mem_ok[OF assms(1), of "pty_put c s" TS_CR]
      same_mem_ok[OF assms(1), of "pty_put c s" "ts_state s"] assms(2,3)
    by (auto simp: rcv_data_def)
qed

lemma sb_accum_ok:
  assumes "sub_pre s" "subpointer s < SUBBUFSIZE"
  shows "sub_pre (sb_accum c s) \<and> subpointer (sb_accum c s) < SUBBUFSIZE \<and>
    mem_kept s (sb_accum c s) \<and> pty_fill (sb_accum c s) = pty_fill s \<and> ts_state (sb_accum c s) = ts_state s"
  using assms by (auto simp: sb_accum_def sub_pre_def mem_kept_def pty_fill_def SUBBUFSIZE_def)

lemma same_core_fill: "same_core s t \<Longrightarrow> pty_fill t = pty_fill s"
  by (simp add: same_core_def pty_fill_def)

lemma sub_end_ok:
  assumes "tel_ok E s" "subpointer s < SUBBUFSIZE" "\<not> collecting ts"
  shows "tel_ok E ((sub_end E c s)\<lparr>ts_state := ts\<rparr>) \<and> mem_kept s (sub_end E c s) \<and>
    pty_fill (sub_end E c s) = pty_fill s"
proof -
  define u where "u = sb_accum c (sb_accum IAC s)"
  define t where "t = sb_term (u\<lparr>subpointer := subpointer u - 2\<rparr>)"
  have u: "sub_pre u" "subpointer u < SUBBUFSIZE" "mem_kept s u" "pty_fill u = pty_fill s"
    using sb_accum_ok[of s IAC] sb_accum_ok[of "sb_accum IAC s" c] assms(1,2) mem_kept_trans
    unfolding u_def tel_ok_def by (auto intro: mem_kept_trans)
  then have t: "sub_pre t" "subpointer t \<le> subend t" "mem_kept s t" "pty_fill t = pty_fill s"
    by (auto simp: t_def sb_term_def sb_clear_def sub_pre_def)
  have k: "sub_kept t (suboption E t)" using t(1,2) by (rule suboption_kept)
  moreover have "subpointer t = 0" by (simp add: t_def sb_term_def sb_clear_def)
  ultimately have "tel_ok E ((suboption E t)\<lparr>ts_state := ts\<rparr>)"
    using assms(1,3) t same_core_fill[of t "suboption E t"] sub_kept_pre[OF t(1) k]
    by (auto simp: tel_ok_def sub_kept_def sub_pre_def)
  moreover have "pty_fill (suboption E t) = pty_fill s"
    using k t same_core_fill[of t "suboption E t"] by (simp add: sub_kept_def)
  moreover have "sub_end E c s = suboption E t"
    by (simp add: sub_end_def u_def t_def Let_def)
  ultimately show ?thesis
    using mem_kept_trans[OF t(3) sub_kept_mem[OF k]] by simp
qed

lemma rcv_byte_ok:
  assumes ok: "tel_ok E s" and room: "pty_fill s + 2 \<le> pty_size E"
  shows "tel_ok E (rcv_byte E c s) \<and> mem_kept s (rcv_byte E c s)"
proof -
  have nego: "tel_ok E (f\<lparr>ts_state := TS_DATA\<rparr>) \<and> mem_kept s (f\<lparr>ts_state := TS_DATA\<rparr>)"
    if "same_mem s f" "pty_fill f = pty_fill s" for f
    using same_mem_ok[OF ok that(1), of TS_DATA] that(2) room by simp
  have data: "tel_ok E (s\<lparr>ts_state := TS_DATA\<rparr>)" using nego[of s] by simp
  show ?thesis
  proof (cases "ts_state s")
    case TS_DATA
    then show ?thesis using rcv_data_ok[OF ok, of c] room by (simp add: rcv_byte_def)
  next
    case TS_IAC
    then show ?thesis using rcv_iac_ok[OF ok, of c] room by (simp add: rcv_byte_def)
  next
    case TS_CR
    then show ?thesis
      using rcv_data_ok[OF data, of c] room data
      by (auto simp: rcv_byte_def Let_def intro: mem_kept_trans[of s "s\<lparr>ts_state := TS_DATA\<rparr>"])
  next
    case TS_SB
    then show ?thesis
      using ok sb_accum_ok[of s c] by (auto simp: rcv_byte_def tel_ok_def sub_pre_def)
  next
    case TS_SE
    then have lt: "subpointer s < SUBBUFSIZE" using ok by (simp add: tel_ok_def)
    show ?thesis
    proof (cases "c = SE \<or> c = IAC")
      case True
      then show ?thesis
        using TS_SE sub_end_ok[OF ok lt, of TS_DATA SE] ok lt sb_accum_ok[of s c]
        by (auto simp: rcv_byte_def tel_ok_def sub_pre_def)
    next
      case False
      let ?t = "(sub_end E c s)\<lparr>ts_state := TS_IAC\<rparr>"
      have "tel_ok E ?t" "mem_kept s ?t" "pty_fill ?t < pty_size E"
        using sub_end_ok[OF ok lt, of TS_IAC c] room by auto
      then show ?thesis
        using TS_SE False rcv_iac_ok[of E ?t c] mem_kept_trans[of s ?t "rcv_iac E c ?t"]
        by (simp add: rcv_byte_def)
    qed
  qed (simp_all add: rcv_byte_def nego same_mem_kept)
qed

lemma telrcv_ok: "tel_ok E s \<Longrightarrow> tel_ok E (snd (telrcv E inp s)) \<and> mem_kept s (snd (telrcv E inp s))"
proof (induction inp arbitrary: s)
  case (Cons c cs)
  show ?case
  proof (cases "exited s \<or> pty_room E s < 2")
    case False
    then have "pty_fill s + 2 \<le> pty_size E" by (simp add: pty_room_def pty_fill_def) linarith
    then have "tel_ok E (rcv_byte E c s) \<and> mem_kept s (rcv_byte E c s)"
      by (rule rcv_byte_ok[OF Cons.prems])
    then show ?thesis
      using False Cons.IH[of "rcv_byte E c s"] by (auto intro: mem_kept_trans)
  qed (use Cons.prems in auto)
qed simp

section \<open>Options that can be turned on\<close>

text \<open>
  What an input may do to the options: those wanted are wanted before or are among those the server
  supports, and no more than one request is open that was not open before.
\<close>

definition nego_kept :: "telnetd \<Rightarrow> telnetd \<Rightarrow> bool" where
  "nego_kept s t \<longleftrightarrow>
     (\<forall>opt. (my_want_state_is_will opt t \<longrightarrow>
              my_want_state_is_will opt s \<or> opt \<in> performs \<or> opt = TELOPT_LOGOUT) \<and>
            (his_want_state_is_will opt t \<longrightarrow> his_want_state_is_will opt s \<or> opt \<in> accepts) \<and>
            will_wont_resp t opt \<le> max 1 (will_wont_resp s opt) \<and>
            do_dont_resp t opt \<le> max 1 (do_dont_resp s opt))"

lemma nego_kept_trans: "nego_kept s t \<Longrightarrow> nego_kept t u \<Longrightarrow> nego_kept s u"
  unfolding nego_kept_def by (smt (verit) max.bounded_iff max.coboundedI1 max_def order_trans)

lemma nego_kept_same:
  "options t = options s \<Longrightarrow> will_wont_resp t = will_wont_resp s \<Longrightarrow> do_dont_resp t = do_dont_resp s \<Longrightarrow>
   nego_kept s t"
  by (simp add: nego_kept_def opt_is_def)

lemma answered_max [simp]: "answered b r \<le> max 1 r" "r \<le> max 1 r" for r :: u8
  by (simp_all add: max.coboundedI2 answered_le)

lemma performs_SGA: "TELOPT_SGA \<in> performs"
  by (simp add: performs_def)

lemma dooption_nego: "nego_kept s (dooption opt s)"
  by (auto simp: nego_kept_def dooption_def Let_def split_beta send_will_def send_wont_def)

lemma dontoption_nego: "nego_kept s (dontoption opt s)"
  by (auto simp: nego_kept_def dontoption_def Let_def send_will_def send_wont_def performs_SGA)

lemma willoption_nego: "nego_kept s (willoption opt s)"
  by (auto simp: nego_kept_def willoption_def Let_def split_beta send_do_def send_dont_def)

lemma wontoption_nego: "nego_kept s (wontoption opt s)"
  by (auto simp: nego_kept_def wontoption_def Let_def send_dont_def)

definition same_opts :: "telnetd \<Rightarrow> telnetd \<Rightarrow> bool" where
  "same_opts s t \<longleftrightarrow>
     options t = options s \<and> will_wont_resp t = will_wont_resp s \<and> do_dont_resp t = do_dont_resp s"

lemma same_opts_refl [simp]: "same_opts s s"
  by (simp add: same_opts_def)

lemma same_opts_trans: "same_opts s t \<Longrightarrow> same_opts t u \<Longrightarrow> same_opts s u"
  by (simp add: same_opts_def)

lemma same_opts_step [simp]:
  "same_opts s (act a t) \<longleftrightarrow> same_opts s t" "same_opts s (settimer c t) \<longleftrightarrow> same_opts s t"
  "same_opts s (netoprintf bs t) \<longleftrightarrow> same_opts s t" "same_opts s (pty_put x t) \<longleftrightarrow> same_opts s t"
  "same_opts s (ptyflush E t) \<longleftrightarrow> same_opts s t" "same_opts s (put_slc E f d t) \<longleftrightarrow> same_opts s t"
  "same_opts s (t\<lparr>exited := b\<rparr>) \<longleftrightarrow> same_opts s t" "same_opts s (t\<lparr>synching := b\<rparr>) \<longleftrightarrow> same_opts s t"
  "same_opts s (t\<lparr>ts_state := ts\<rparr>) \<longleftrightarrow> same_opts s t"
  "same_opts s (t\<lparr>subpointer := k\<rparr>) \<longleftrightarrow> same_opts s t" "same_opts s (t\<lparr>subend := k\<rparr>) \<longleftrightarrow> same_opts s t"
  "same_opts s (sb_accum x t) \<longleftrightarrow> same_opts s t" "same_opts s (sb_clear t) \<longleftrightarrow> same_opts s t"
  "same_opts s (sb_term t) \<longleftrightarrow> same_opts s t"
  by (simp_all add: same_opts_def act_def settimer_def Let_def netoprintf_def pty_put_def ptyflush_def
      put_slc_def sb_accum_def sb_clear_def sb_term_def)

lemma rcv_iac_opts: "same_opts s (rcv_iac E c s)"
  by (simp add: rcv_iac_def iac_action_def interrupt_def sendbrk_def sendsusp_def recv_ayt_def doeof_def
      abort_output_def erase_def Let_def split: option.split)

lemma rcv_data_opts: "same_opts s (rcv_data c s)"
  by (simp add: rcv_data_def)

lemma sub_end_opts:
  assumes "tel_ok E s" "subpointer s < SUBBUFSIZE"
  shows "same_opts s (sub_end E c s)"
proof -
  define u where "u = sb_accum c (sb_accum IAC s)"
  define t where "t = sb_term (u\<lparr>subpointer := subpointer u - 2\<rparr>)"
  have "sub_pre u" "subpointer u < SUBBUFSIZE"
    using sb_accum_ok[of s IAC] sb_accum_ok[of "sb_accum IAC s" c] assms
    unfolding u_def tel_ok_def by auto
  then have "sub_pre t" "subpointer t \<le> subend t"
    by (auto simp: t_def sb_term_def sb_clear_def sub_pre_def)
  then have "same_opts t (suboption E t)"
    using suboption_kept[of t E] by (simp add: sub_kept_def same_core_def same_opts_def)
  moreover have "same_opts s t" by (simp add: t_def u_def)
  ultimately have "same_opts s (suboption E t)" by (blast intro: same_opts_trans)
  then show ?thesis by (simp add: sub_end_def u_def t_def Let_def)
qed

lemma same_opts_nego: "same_opts s t \<Longrightarrow> nego_kept s t"
  by (simp add: same_opts_def nego_kept_same)

lemma nego_kept_ts [simp]: "nego_kept s (t\<lparr>ts_state := ts\<rparr>) \<longleftrightarrow> nego_kept s t"
  by (simp add: nego_kept_def)

lemma rcv_byte_nego:
  assumes ok: "tel_ok E s"
  shows "nego_kept s (rcv_byte E c s)"
proof (cases "ts_state s")
  case TS_SE
  then have lt: "subpointer s < SUBBUFSIZE" using ok by (simp add: tel_ok_def)
  have "same_opts s (rcv_iac E c ((sub_end E c s)\<lparr>ts_state := TS_IAC\<rparr>))"
    using same_opts_trans[OF _ rcv_iac_opts, of s] sub_end_opts[OF ok lt, of c] by simp
  then show ?thesis
    using TS_SE sub_end_opts[OF ok lt, of SE] by (simp add: rcv_byte_def same_opts_nego)
next
  case TS_CR
  have "same_opts s (rcv_data c (s\<lparr>ts_state := TS_DATA\<rparr>))"
    using same_opts_trans[OF _ rcv_data_opts, of s] by simp
  with TS_CR show ?thesis by (simp add: rcv_byte_def same_opts_nego Let_def)
qed (simp_all add: rcv_byte_def same_opts_nego rcv_iac_opts rcv_data_opts dooption_nego dontoption_nego
      willoption_nego wontoption_nego)

lemma telrcv_nego: "tel_ok E s \<Longrightarrow> nego_kept s (snd (telrcv E inp s))"
proof (induction inp arbitrary: s)
  case (Cons c cs)
  show ?case
  proof (cases "exited s \<or> pty_room E s < 2")
    case False
    then have "pty_fill s + 2 \<le> pty_size E" by (simp add: pty_room_def pty_fill_def) linarith
    then have "tel_ok E (rcv_byte E c s)" using rcv_byte_ok[OF Cons.prems] by simp
    then show ?thesis
      using False Cons.IH[of "rcv_byte E c s"] nego_kept_trans[OF rcv_byte_nego[OF Cons.prems, of c]] by simp
  qed (simp add: nego_kept_same)
qed (simp add: nego_kept_same)

end
