(* ===== verification/Telnet_Decode.thy ===== *)
theory Telnet_Decode
  imports Telnet_Invariant
begin

text \<open>
  What the receiver makes of well-formed input: user data, suboptions with their payload, the
  environment a client sends, and what a reader makes of the status the server sends.
\<close>

section \<open>Input in pieces\<close>

lemma telrcv_append:
  "telrcv E (xs @ ys) s =
     (case telrcv E xs s of (r, t) \<Rightarrow> if r = [] then telrcv E ys t else (r @ ys, t))"
  by (induction xs arbitrary: s) auto

lemma telrcv_rest: "telrcv E inp s = (r, t) \<Longrightarrow> \<exists>used. inp = used @ r \<and> telrcv E used s = ([], t)"
proof (induction inp arbitrary: s)
  case (Cons c cs)
  show ?case
  proof (cases "exited s \<or> pty_room E s < 2")
    case False
    with Cons.prems have "telrcv E cs (rcv_byte E c s) = (r, t)" by simp
    then obtain used where "cs = used @ r" "telrcv E used (rcv_byte E c s) = ([], t)"
      using Cons.IH by blast
    then have "c # cs = (c # used) @ r" "telrcv E (c # used) s = ([], t)" using False by simp_all
    then show ?thesis by blast
  qed (use Cons.prems in auto)
qed simp

section \<open>User data\<close>

text \<open>
  The client's side: an \<open>IAC\<close> is doubled, a carriage return is followed by a null or a line feed.
\<close>

definition nvt :: "bool \<Rightarrow> u8 \<Rightarrow> u8 list" where
  "nvt lf c = (if c = IAC then [IAC, IAC] else if c = 13 then [13, if lf then 10 else 0] else [c])"

definition ready :: "tel_env \<Rightarrow> nat \<Rightarrow> telnetd \<Rightarrow> bool" where
  "ready E n s \<longleftrightarrow> ts_state s = TS_DATA \<and> \<not> exited s \<and> pty_fill s + n + 2 \<le> pty_size E"

lemma room_iff: "\<not> pty_room E s < 2 \<longleftrightarrow> pty_fill s + 2 \<le> pty_size E"
  by (auto simp: pty_room_def pty_fill_def)

lemma pty_room_simps [simp]:
  "pty_room E (s\<lparr>ts_state := ts\<rparr>) = pty_room E s" "pty_room E (s\<lparr>subpointer := k\<rparr>) = pty_room E s"
  "pty_room E (s\<lparr>subbuffer := buf\<rparr>) = pty_room E s"
  by (simp_all add: pty_room_def)

lemma pty_put_simps [simp]:
  "ts_state (pty_put c s) = ts_state s" "exited (pty_put c s) = exited s"
  "opt_is f opt (pty_put c s) = opt_is f opt s" "(pty_put c s)\<lparr>ts_state := ts\<rparr> = pty_put c (s\<lparr>ts_state := ts\<rparr>)"
  by (simp_all add: pty_put_def opt_is_def)

lemma telrcv_nvt:
  assumes "ready E 1 s" "\<not> his_state_is_will TELOPT_BINARY s"
  shows "telrcv E (nvt lf c) s = ([], pty_put c s)"
proof -
  have st: "ts_state s = TS_DATA" "\<not> exited s" "pty_fill s + 2 \<le> pty_size E" "Suc (pty_fill s) + 2 \<le> pty_size E"
    using assms by (auto simp: ready_def)
  then have s: "s\<lparr>ts_state := TS_DATA\<rparr> = s" by simp
  consider "c = IAC" | "c = 13" | "c \<noteq> IAC" "c \<noteq> 13" by blast
  then show ?thesis
  proof cases
    case 1
    then show ?thesis
      using st by (simp add: s nvt_def room_iff rcv_byte_def rcv_data_def rcv_iac_def iac_action_def telnet_codes)
  next
    case 2
    then show ?thesis
      using st assms(2) by (simp add: s nvt_def room_iff rcv_byte_def rcv_data_def Let_def IAC_def)
  next
    case 3
    then show ?thesis
      using st s by (simp add: nvt_def room_iff rcv_byte_def rcv_data_def)
  qed
qed

lemma telrcv_data:
  assumes "ready E (length ds) s" "\<not> his_state_is_will TELOPT_BINARY s"
  shows "telrcv E (concat (map (\<lambda>(lf, c). nvt lf c) ds)) s = ([], s\<lparr>ptyobuf := ptyobuf s @ map snd ds\<rparr>)"
  using assms
proof (induction ds arbitrary: s)
  case (Cons d ds)
  obtain lf c where d: "d = (lf, c)" by (cases d)
  have r: "ready E 1 s" "ready E (length ds) (pty_put c s)"
    using Cons.prems(1) by (auto simp: ready_def)
  show ?case
    using Cons.IH[OF r(2)] telrcv_nvt[OF r(1)] Cons.prems(2)
    by (simp add: d telrcv_append pty_put_def[of c s] opt_is_def)
qed simp

section \<open>Suboptions\<close>

definition sb_encode :: "u8 list \<Rightarrow> u8 list" where
  "sb_encode bs = concat (map (\<lambda>c. if c = IAC then [IAC, IAC] else [c]) bs)"

text \<open>Bytes stored from a place on.\<close>

fun store_at :: "nat \<Rightarrow> u8 list \<Rightarrow> (nat \<Rightarrow> u8) \<Rightarrow> (nat \<Rightarrow> u8)" where
  "store_at k [] b = b"
| "store_at k (c # cs) b = store_at (Suc k) cs (b(k := c))"

lemma store_at_append: "store_at k (xs @ ys) b = store_at (k + length xs) ys (store_at k xs b)"
  by (induction xs arbitrary: k b) auto

lemma store_at_nth: "store_at k cs b i = (if k \<le> i \<and> i < k + length cs then cs ! (i - k) else b i)"
  by (induction cs arbitrary: k b) (auto simp: nth_Cons' le_Suc_eq not_less_eq_eq)

definition loaded :: "u8 list \<Rightarrow> telnetd \<Rightarrow> telnetd" where
  "loaded bs s =
     s\<lparr>ts_state := TS_SE, subbuffer := store_at 0 (bs @ [IAC, SE]) (subbuffer s), subend := length bs,
       subpointer := 0\<rparr>"

lemma telrcv_accum:
  assumes "ts_state s = TS_SB" "\<not> exited s" "pty_fill s + 2 \<le> pty_size E"
    "subpointer s + length bs \<le> SUBBUFSIZE - 1"
  shows "telrcv E (sb_encode bs) s =
    ([], s\<lparr>subbuffer := store_at (subpointer s) bs (subbuffer s), subpointer := subpointer s + length bs\<rparr>)"
  using assms
proof (induction bs arbitrary: s)
  case (Cons c bs)
  let ?t = "s\<lparr>subbuffer := (subbuffer s)(subpointer s := c), subpointer := Suc (subpointer s)\<rparr>"
  have one: "telrcv E (if c = IAC then [IAC, IAC] else [c]) s = ([], ?t)"
    using Cons.prems room_iff[of E s]
    by (auto simp: rcv_byte_def telnet_codes sb_accum_def)
  have "telrcv E (sb_encode bs) ?t =
    ([], ?t\<lparr>subbuffer := store_at (subpointer ?t) bs (subbuffer ?t), subpointer := subpointer ?t + length bs\<rparr>)"
    by (rule Cons.IH) (use Cons.prems in \<open>auto simp: pty_fill_def\<close>)
  then show ?case
    using one by (simp add: sb_encode_def telrcv_append)
qed (simp add: sb_encode_def)

lemma telrcv_suboption:
  assumes "ready E 0 s" "length bs + 2 \<le> SUBBUFSIZE - 1"
  shows "telrcv E ([IAC, SB] @ sb_encode bs @ [IAC, SE]) s = ([], (suboption E (loaded bs s))\<lparr>ts_state := TS_DATA\<rparr>)"
proof -
  have st: "ts_state s = TS_DATA" "\<not> exited s" "pty_fill s + 2 \<le> pty_size E"
    using assms by (auto simp: ready_def)
  define a where "a = s\<lparr>ts_state := TS_SB, subpointer := 0\<rparr>"
  have start: "telrcv E [IAC, SB] s = ([], a)"
    using st by (simp add: room_iff rcv_byte_def rcv_data_def rcv_iac_def sb_clear_def a_def telnet_codes)
  define b where "b = a\<lparr>subbuffer := store_at 0 bs (subbuffer s), subpointer := length bs\<rparr>"
  have mid: "telrcv E (sb_encode bs) a = ([], b)"
    using telrcv_accum[of a E bs] st assms(2) by (simp add: a_def b_def pty_fill_def)
  have e: "sub_end E SE (b\<lparr>ts_state := TS_SE\<rparr>) = suboption E (loaded bs s)"
    using assms(2)
    by (simp add: sub_end_def sb_accum_def sb_term_def sb_clear_def Let_def b_def a_def loaded_def
        store_at_append)
  have "telrcv E [IAC, SE] b = ([], (suboption E (loaded bs s))\<lparr>ts_state := TS_DATA\<rparr>)"
    using st e by (simp add: room_iff rcv_byte_def b_def a_def pty_fill_def)
  then show ?thesis
    by (simp only: telrcv_append[of E "[IAC, SB]"] telrcv_append[of E "sb_encode bs"] start mid
        prod.case if_True simp_thms)
qed

section \<open>The window size\<close>

lemma or_bytes:
  fixes a b :: u8
  shows "or (push_bit 8 (uint a)) (uint b) = 256 * uint a + uint b"
proof -
  have "and (push_bit 8 (uint a)) (uint b) = 0"
    by (rule bit_eqI) (auto simp: bit_simps not_le dest: bit_imp_le_length)
  then show ?thesis
    by (simp add: push_bit_eq_mult flip: disjunctive_add_eq_or)
qed

lemma suboption_naws:
  assumes "his_state_is_will TELOPT_NAWS s"
  shows "suboption E (loaded [TELOPT_NAWS, a, b, c, d] s) =
    clientstat_naws (256 * uint a + uint b) (256 * uint c + uint d)
      ((loaded [TELOPT_NAWS, a, b, c, d] s)\<lparr>subpointer := 5\<rparr>)"
  using assms
  by (simp add: suboption_def sub_naws_def loaded_def sb_get_def sb_eof_def Let_def or_bytes
      telnet_opts opt_is_def) (simp only: eval_nat_numeral BitM.simps)

section \<open>The status report\<close>

fun read_status :: "u8 list \<Rightarrow> (bool \<times> u8) list" where
  "read_status (c # i # r) =
     (if c = WILL then (True, i) # read_status r else if c = DO then (False, i) # read_status r else [])"
| "read_status _ = []"

definition status_facts :: "telnetd \<Rightarrow> u8 \<Rightarrow> (bool \<times> u8) list" where
  "status_facts s i =
     (if my_want_state_is_will i s then [(True, i)] else []) @
     (if his_want_state_is_will i s then [(False, i)] else [])"

lemma add_data_small: "n < 40 \<Longrightarrow> add_data (of_nat n) = [of_nat n]"
proof -
  assume "n < 40"
  then have "unat (of_nat n :: u8) = n" by (simp add: unat_of_nat)
  with \<open>n < 40\<close> show ?thesis
    by (auto simp: add_data_def SE_def IAC_def)
qed

lemma read_status_opts:
  "\<forall>n\<in>set ns. n < 40 \<Longrightarrow>
   read_status (concat (map (\<lambda>i. status_opt s (of_nat i)) ns) @ r) =
   concat (map (\<lambda>i. status_facts s (of_nat i)) ns) @ read_status r"
  by (induction ns) (auto simp: status_opt_def status_facts_def add_data_small WILL_def DO_def)

lemma read_status_bytes:
  "read_status (drop 4 (status_bytes E s)) = concat (map (\<lambda>i. status_facts s (of_nat i)) [0..<NTELOPTS])"
  using read_status_opts[of "[0..<40]" s]
  by (simp add: status_bytes_def NTELOPTS_def telnet_codes)

lemma status_opt_length: "n < 40 \<Longrightarrow> length (status_opt s (of_nat n)) \<le> 4"
  by (simp add: status_opt_def add_data_small)

lemma concat_length_le: "(\<And>x. x \<in> set xs \<Longrightarrow> length (f x) \<le> k) \<Longrightarrow> length (concat (map f xs)) \<le> k * length xs"
  by (induction xs) (auto simp: add_mono)

lemma status_length: "length (status_bytes E s) \<le> 170"
proof -
  have "length (concat (map (\<lambda>i. status_opt s (of_nat i)) [0..<40])) \<le> 4 * length [0::nat..<40]"
    by (rule concat_length_le) (simp add: status_opt_length)
  then show ?thesis
    by (simp add: status_bytes_def NTELOPTS_def del: upt_conv_Cons upt_rec_numeral)
qed

section \<open>The environment\<close>

text \<open>
  What the bytes of an environment suboption mean: a list of names, each with a value or none, of
  which the server sees the part before a null byte.
\<close>

type_synonym env_var = "u8 list \<times> u8 list option"

definition env_add :: "u8 \<Rightarrow> env_var \<Rightarrow> env_var" where
  "env_add c nv = (case nv of (n, None) \<Rightarrow> (n @ [c], None) | (n, Some v) \<Rightarrow> (n, Some (v @ [c])))"

fun env_parse :: "u8 list \<Rightarrow> env_var \<Rightarrow> env_var list" where
  "env_parse [] nv = [nv]"
| "env_parse (c # cs) nv =
     (if c = ENV_VALUE then env_parse cs (fst nv, Some [])
      else if c = ENV_VAR then nv # env_parse cs ([], None)
      else if c = ENV_ESC then (case cs of [] \<Rightarrow> [nv] | d # ds \<Rightarrow> env_parse ds (env_add d nv))
      else env_parse cs (env_add c nv))"

definition upto_nul :: "u8 list \<Rightarrow> u8 list" where
  "upto_nul = takeWhile (\<lambda>c. c \<noteq> 0)"

definition env_assign :: "env_var \<Rightarrow> (u8 list \<Rightarrow> u8 list option) \<Rightarrow> (u8 list \<Rightarrow> u8 list option)" where
  "env_assign nv e =
     (if envvarok (upto_nul (fst nv)) then e(upto_nul (fst nv) := map_option upto_nul (snd nv)) else e)"

definition holds :: "(nat \<Rightarrow> u8) \<Rightarrow> nat \<Rightarrow> u8 list \<Rightarrow> bool" where
  "holds b p xs \<longleftrightarrow> (\<forall>i<length xs. b (p + i) = xs ! i)"

lemma holds_Nil [simp]: "holds b p []"
  by (simp add: holds_def)

lemma holds_upd: "q < p \<or> p + length xs \<le> q \<Longrightarrow> holds b p xs \<Longrightarrow> holds (b(q := c)) p xs"
  by (auto simp: holds_def)

lemma holds_snoc: "holds b p xs \<Longrightarrow> holds (b(p + length xs := c)) p (xs @ [c])"
  by (auto simp: holds_def nth_append less_Suc_eq)

lemma c_string_holds:
  assumes "holds b p (xs @ [0])" "p + length xs < SUBBUFSIZE"
  shows "c_string b p = upto_nul xs"
proof -
  let ?q = "p + length xs"
  have "[p..<SUBBUFSIZE] = [p..<?q] @ ?q # [Suc ?q..<SUBBUFSIZE]"
    using assms(2) upt_add_eq_append[of p ?q "SUBBUFSIZE - ?q"] by (simp add: upt_conv_Cons)
  moreover have "map b [p..<?q] = xs" "b ?q = 0"
    using assms(1) by (auto simp: holds_def nth_append intro!: nth_equalityI split: if_splits dest: spec[of _ "length xs"])
  ultimately have "map b [p..<SUBBUFSIZE] = xs @ 0 # map b [Suc ?q..<SUBBUFSIZE]" by simp
  then show ?thesis by (simp add: c_string_def upto_nul_def takeWhile_tail)
qed

text \<open>The copies in the buffer of the name and the value read so far.\<close>

definition env_rep :: "nat \<Rightarrow> nat \<Rightarrow> nat option \<Rightarrow> telnetd \<Rightarrow> env_var \<Rightarrow> bool" where
  "env_rep cp varp valp s nv \<longleftrightarrow>
     (case (snd nv, valp) of
        (None, None) \<Rightarrow> cp = varp + length (fst nv) \<and> holds (subbuffer s) varp (fst nv)
      | (Some v, Some p) \<Rightarrow> cp = p + length v \<and> holds (subbuffer s) p v \<and>
          holds (subbuffer s) varp (fst nv @ [0]) \<and> varp + length (fst nv) < p
      | _ \<Rightarrow> False)"

lemma env_rep_end:
  assumes "env_rep cp varp valp s nv"
  shows "holds ((subbuffer s)(cp := 0)) varp (fst nv @ [0]) \<and> varp + length (fst nv) \<le> cp"
proof (cases "snd nv")
  case None
  then show ?thesis using assms by (auto simp: env_rep_def holds_snoc split: option.splits)
next
  case (Some v)
  then show ?thesis using assms
    by (auto simp: env_rep_def intro!: holds_upd split: option.splits)
qed

lemma env_store_rep:
  assumes "env_rep cp varp valp s nv" "cp < SUBBUFSIZE"
  shows "environ (env_store varp valp (sb_set cp 0 s)) = env_assign nv (environ s)"
proof -
  let ?b = "(subbuffer s)(cp := 0)"
  have name: "c_string ?b varp = upto_nul (fst nv)"
    using env_rep_end[OF assms(1)] assms(2) by (intro c_string_holds) auto
  have val: "map_option (c_string ?b) valp = map_option upto_nul (snd nv)"
  proof (cases "snd nv")
    case None
    then show ?thesis using assms(1) by (auto simp: env_rep_def split: option.splits)
  next
    case (Some v)
    then obtain p where p: "valp = Some p" "cp = p + length v" "holds (subbuffer s) p v"
      using assms(1) by (auto simp: env_rep_def split: option.splits)
    then have "c_string ?b p = upto_nul v"
      using assms(2) holds_snoc[OF p(3), of 0] by (intro c_string_holds) auto
    then show ?thesis using Some p by simp
  qed
  show ?thesis
    using name val
    by (cases valp; cases "snd nv") (auto simp: env_store_def env_assign_def setenv_def unsetenv_def sb_set_def)
qed

definition sb_rest :: "telnetd \<Rightarrow> u8 list" where
  "sb_rest s = map (subbuffer s) [subpointer s..<subend s]"

lemma sb_rest_get:
  "\<not> sb_eof s \<Longrightarrow> sb_rest s = subbuffer s (subpointer s) # sb_rest (s\<lparr>subpointer := subpointer s + 1\<rparr>)"
  by (simp add: sb_rest_def sb_eof_def upt_conv_Cons)

lemma sb_rest_eof: "sb_eof s \<Longrightarrow> sb_rest s = []"
  by (simp add: sb_rest_def sb_eof_def)

lemma sb_rest_set [simp]: "p < subpointer s \<Longrightarrow> sb_rest (sb_set p x s) = sb_rest s"
  by (auto simp: sb_rest_def)

lemma sb_rest_store [simp]: "sb_rest (env_store p q s) = sb_rest s"
  by (simp add: sb_rest_def)

lemma env_rep_byte:
  assumes "env_rep cp varp valp s nv"
  shows "env_rep (Suc cp) varp valp (sb_set cp b s) (env_add b nv)"
proof (cases "snd nv")
  case None
  then show ?thesis
    using assms holds_snoc[of "subbuffer s" varp "fst nv" b]
    by (cases nv) (auto simp: env_rep_def env_add_def split: option.splits)
next
  case (Some v)
  then obtain p where p: "valp = Some p" "cp = p + length v" "holds (subbuffer s) p v"
    "holds (subbuffer s) varp (fst nv @ [0])" "varp + length (fst nv) < p"
    using assms by (auto simp: env_rep_def split: option.splits)
  then show ?thesis
    using Some holds_snoc[OF p(3), of b] holds_upd[of cp varp "fst nv @ [0]" "subbuffer s" b]
    by (cases nv) (simp add: env_rep_def env_add_def)
qed

lemma env_rep_pointer [simp]:
  "env_rep cp varp valp (s\<lparr>subpointer := k\<rparr>) nv = env_rep cp varp valp s nv"
  by (simp add: env_rep_def split: option.splits)

text \<open>One turn of the loop against one step of the parser.\<close>

lemma env_next_parse:
  assumes inv: "env_inv cp s" and more: "\<not> sb_eof s" and rep: "env_rep cp varp valp s nv"
    and step: "env_next cp varp valp s = (cp', varp', valp', s')"
  shows "\<exists>nv' dn. env_rep cp' varp' valp' s' nv' \<and>
    env_parse (sb_rest s) nv = dn @ env_parse (sb_rest s') nv' \<and> environ s' = fold env_assign dn (environ s)"
proof -
  define c where "c = subbuffer s (subpointer s)"
  define t where "t = s\<lparr>subpointer := subpointer s + 1\<rparr>"
  have get: "sb_get s = (c, t)" by (simp add: sb_get_def c_def t_def)
  have rest: "sb_rest s = c # sb_rest t" using sb_rest_get[OF more] by (simp add: c_def t_def)
  have t: "cp < subpointer t" "cp < SUBBUFSIZE - 1" "subpointer t \<le> subend t" "environ t = environ s"
    "env_rep cp varp valp t nv" "cp < SUBBUFSIZE"
    using inv more rep by (auto simp: env_inv_def sb_eof_def t_def SUBBUFSIZE_def)
  have ends: "holds ((subbuffer t)(cp := 0)) varp (fst nv @ [0]) \<and> varp + length (fst nv) \<le> cp"
    using env_rep_end[OF t(5)] .
  have byte: "env_byte b cp u = (Suc cp, sb_set cp b u)" for b u
    using t(2) by (simp add: env_byte_def)
  consider (val) "c = ENV_VALUE" | (var) "c = ENV_VAR" "c \<noteq> ENV_VALUE"
    | (stop) "c = ENV_ESC" "sb_eof t" | (esc) "c = ENV_ESC" "\<not> sb_eof t"
    | (plain) "c \<noteq> ENV_VALUE" "c \<noteq> ENV_VAR" "c \<noteq> ENV_ESC" by blast
  then show ?thesis
  proof cases
    case val
    then have "cp' = subpointer t" "varp' = varp" "valp' = Some (subpointer t)" "s' = sb_set cp 0 t"
      using step by (auto simp: env_next_def get Let_def)
    then have "env_rep cp' varp' valp' s' (fst nv, Some [])"
      "env_parse (sb_rest s) nv = [] @ env_parse (sb_rest s') (fst nv, Some [])"
      "environ s' = fold env_assign [] (environ s)"
      using ends t val rest by (auto simp: env_rep_def)
    then show ?thesis by blast
  next
    case var
    then have s': "cp' = subpointer t" "varp' = subpointer t" "valp' = None"
      "s' = env_store varp valp (sb_set cp 0 t)"
      using step by (auto simp: env_next_def get Let_def)
    then have "env_rep cp' varp' valp' s' ([], None)"
      "env_parse (sb_rest s) nv = [nv] @ env_parse (sb_rest s') ([], None)"
      "environ s' = fold env_assign [nv] (environ s)"
      using t var rest env_store_rep[OF t(5,6)] by (auto simp: env_rep_def)
    then show ?thesis by blast
  next
    case stop
    then have s': "cp' = cp" "varp' = varp" "valp' = valp" "s' = t"
      using step by (auto simp: env_next_def get Let_def ENV_ESC_def ENV_VALUE_def ENV_VAR_def)
    then have "env_rep cp' varp' valp' s' nv" "env_parse (sb_rest s) nv = [] @ env_parse (sb_rest s') nv"
      "environ s' = fold env_assign [] (environ s)"
      using t stop rest sb_rest_eof[OF stop(2)] by (auto simp: ENV_ESC_def ENV_VALUE_def ENV_VAR_def)
    then show ?thesis by blast
  next
    case esc
    define d where "d = subbuffer t (subpointer t)"
    define u where "u = t\<lparr>subpointer := subpointer t + 1\<rparr>"
    have "sb_get t = (d, u)" by (simp add: sb_get_def d_def u_def)
    then have s': "cp' = Suc cp" "varp' = varp" "valp' = valp" "s' = sb_set cp d u"
      using step esc
      by (auto simp: env_next_def get Let_def byte ENV_ESC_def ENV_VALUE_def ENV_VAR_def)
    have "sb_rest t = d # sb_rest u" using sb_rest_get[OF esc(2)] by (simp add: d_def u_def)
    then have "env_parse (sb_rest s) nv = [] @ env_parse (sb_rest s') (env_add d nv)"
      using rest esc t s' by (simp add: u_def ENV_ESC_def ENV_VALUE_def ENV_VAR_def)
    moreover have "env_rep cp' varp' valp' s' (env_add d nv)"
      using s' env_rep_byte[of cp varp valp u nv d] t by (simp add: u_def)
    moreover have "environ s' = fold env_assign [] (environ s)"
      using s' t by (simp add: u_def)
    ultimately show ?thesis by blast
  next
    case plain
    then have s': "cp' = Suc cp" "varp' = varp" "valp' = valp" "s' = sb_set cp c t"
      using step by (auto simp: env_next_def get Let_def byte)
    then have "env_rep cp' varp' valp' s' (env_add c nv)"
      "env_parse (sb_rest s) nv = [] @ env_parse (sb_rest s') (env_add c nv)"
      "environ s' = fold env_assign [] (environ s)"
      using t plain rest env_rep_byte[OF t(5), of c] by auto
    then show ?thesis by blast
  qed
qed

lemma environ_loop_parse:
  assumes "env_inv cp s" "env_rep cp varp valp s nv"
    "environ_loop cp varp valp s = (cp', varp', valp', t)"
  shows "environ (env_store varp' valp' (sb_set cp' 0 t)) =
    fold env_assign (env_parse (sb_rest s) nv) (environ s)"
  using assms
proof (induction cp varp valp s arbitrary: nv rule: environ_loop_induct)
  case (1 cp varp valp s)
  show ?case
  proof (cases "sb_eof s")
    case True
    then have "cp' = cp" "varp' = varp" "valp' = valp" "t = s"
      using 1(4) by (auto simp: environ_loop_step)
    moreover have "cp < SUBBUFSIZE" using 1(2) by (simp add: env_inv_def)
    ultimately show ?thesis
      using env_store_rep[OF 1(3)] sb_rest_eof[OF True] by simp
  next
    case False
    obtain cp1 varp1 valp1 s1 where n: "env_next cp varp valp s = (cp1, varp1, valp1, s1)"
      by (cases "env_next cp varp valp s")
    have k: "env_inv cp1 s1" using env_next_kept[OF 1(2) False n] by simp
    obtain nv1 dn where p: "env_rep cp1 varp1 valp1 s1 nv1"
      "env_parse (sb_rest s) nv = dn @ env_parse (sb_rest s1) nv1"
      "environ s1 = fold env_assign dn (environ s)"
      using env_next_parse[OF 1(2) False 1(3) n] by blast
    have "environ_loop cp1 varp1 valp1 s1 = (cp', varp', valp', t)"
      using 1(4) False n by (simp add: environ_loop_step[of cp varp valp s])
    from 1(1)[OF False n k p(1) this] p(2,3) show ?thesis by simp
  qed
qed

lemma sb_rest_loaded:
  "k \<le> length bs \<Longrightarrow> sb_rest ((loaded bs s)\<lparr>subpointer := k\<rparr>) = drop k bs"
  by (rule nth_equalityI) (auto simp: sb_rest_def loaded_def store_at_nth nth_append)

lemma loaded_byte: "k < length bs \<Longrightarrow> subbuffer (loaded bs s) k = bs ! k"
  by (simp add: loaded_def store_at_nth nth_append)

lemma settimer_simps [simp]:
  "sb_rest (settimer c s) = sb_rest s" "env_rep cp varp valp (settimer c s) nv = env_rep cp varp valp s nv"
  "env_inv cp (settimer c s) = env_inv cp s" "sb_eof (settimer c s) = sb_eof s"
  by (simp_all add: sb_rest_def env_inv_def sb_eof_def env_rep_def split: option.split)

lemma suboption_environ:
  assumes ok: "tel_ok E s" and len: "length bs + 5 \<le> SUBBUFSIZE - 1"
  shows "environ (suboption E (loaded ([TELOPT_ENVIRON, TELQUAL_IS, ENV_VAR] @ bs) s)) =
    fold env_assign (env_parse bs ([], None)) (environ s)"
proof -
  define l where "l = loaded ([TELOPT_ENVIRON, TELQUAL_IS, ENV_VAR] @ bs) s"
  have b: "subbuffer l 0 = TELOPT_ENVIRON" "subbuffer l 1 = TELQUAL_IS" "subbuffer l 2 = ENV_VAR"
    "subend l = length bs + 3" "subpointer l = 0" "environ l = environ s"
    using loaded_byte[of _ "[TELOPT_ENVIRON, TELQUAL_IS, ENV_VAR] @ bs" s]
    by (simp_all add: l_def) (simp_all add: loaded_def)
  have last: "subbuffer l (SUBBUFSIZE - 1) = 0"
    using ok len by (simp add: l_def loaded_def store_at_nth tel_ok_def sub_pre_def SUBBUFSIZE_def)
  define l2 where "l2 = settimer EnvironSubopt (l\<lparr>subpointer := Suc (Suc 0)\<rparr>)"
  define l3 where "l3 = l2\<lparr>subpointer := 3\<rparr>"
  have skip: "skip_to_var l2 = l3"
    using b by (subst skip_to_var.simps)
      (simp add: sb_eof_def sb_get_def l2_def l3_def eval_nat_numeral)
  have l3: "l3 = settimer EnvironSubopt (l\<lparr>subpointer := 3\<rparr>)"
    by (simp add: l3_def l2_def settimer_def Let_def)
  have rest: "sb_rest l3 = bs"
    unfolding l3 using sb_rest_loaded[of 3 "[TELOPT_ENVIRON, TELQUAL_IS, ENV_VAR] @ bs" s]
    by (simp add: l_def)
  have e3: "environ l3 = environ s" using b(6) by (simp add: l3)
  have sub: "suboption E l =
    (if sb_eof l3 then l3
     else let (cp, varp, valp, s3) = environ_loop (subpointer l3) (subpointer l3) None l3
          in env_store varp valp (sb_set cp 0 s3))"
    using b skip
    by (simp add: suboption_def sub_environ_def sb_get_def sb_eof_def telnet_opts l2_def Let_def)
  show ?thesis
  proof (cases "sb_eof l3")
    case True
    then have "bs = []" using rest sb_rest_eof by metis
    then show ?thesis
      unfolding l_def[symmetric] using True sub e3
      by (simp add: env_assign_def upto_nul_def envvarok_def bytes_def)
  next
    case False
    obtain cp varp valp t where loop:
      "environ_loop (subpointer l3) (subpointer l3) None l3 = (cp, varp, valp, t)"
      by (cases "environ_loop (subpointer l3) (subpointer l3) None l3")
    have "env_inv (subpointer l3) l3"
      using last b len False by (auto simp: env_inv_def l3 SUBBUFSIZE_def)
    moreover have "env_rep (subpointer l3) (subpointer l3) None l3 ([], None)"
      by (simp add: env_rep_def)
    ultimately show ?thesis
      unfolding l_def[symmetric] using environ_loop_parse[OF _ _ loop] False sub rest e3 loop by simp
  qed
qed

text \<open>The client's side: the three special bytes are escaped.\<close>

definition env_esc :: "u8 list \<Rightarrow> u8 list" where
  "env_esc xs = concat (map (\<lambda>c. if c \<in> {ENV_VAR, ENV_VALUE, ENV_ESC} then [ENV_ESC, c] else [c]) xs)"

fun env_encode :: "env_var list \<Rightarrow> u8 list" where
  "env_encode [] = []"
| "env_encode ((n, v) # nvs) =
     ENV_VAR # env_esc n @ (case v of None \<Rightarrow> [] | Some w \<Rightarrow> ENV_VALUE # env_esc w) @ env_encode nvs"

lemma env_parse_esc:
  "env_parse (env_esc xs @ r) (n, None) = env_parse r (n @ xs, None)"
  "env_parse (env_esc xs @ r) (n, Some v) = env_parse r (n, Some (v @ xs))"
  by (induction xs arbitrary: n v)
    (auto simp: env_esc_def env_add_def ENV_VAR_def ENV_VALUE_def ENV_ESC_def)

lemma env_parse_next: "env_parse (env_encode nvs) nv = nv # (if nvs = [] then [] else env_parse (tl (env_encode nvs)) ([], None))"
  by (cases nvs) (auto simp: ENV_VAR_def ENV_VALUE_def split: prod.splits)

lemma env_parse_encode: "nvs \<noteq> [] \<Longrightarrow> env_parse (tl (env_encode nvs)) ([], None) = nvs"
proof (induction nvs)
  case (Cons nv nvs)
  obtain n v where nv: "nv = (n, v)" by (cases nv)
  have "env_parse (env_encode nvs) (n, v) = (n, v) # nvs"
    using Cons.IH by (simp add: env_parse_next)
  then show ?case
    by (cases v) (simp_all add: nv env_parse_esc env_parse_esc(1)[where n="[]", simplified]
        ENV_VAR_def ENV_VALUE_def env_parse_esc(2)[where v="[]", simplified])
qed simp

end
