(* ===== verification/Telnet_Properties.thy ===== *)
theory Telnet_Properties
  imports Telnet_Decode
begin

text \<open>
  The properties of the TELNET server's receiver. A server just started, with a terminal buffer of
  8192 bytes and a process that reads whatever is there, is the concrete instance in the witnesses.
\<close>

definition env0 :: tel_env where
  "env0 = \<lparr>slc_char = (\<lambda>_. Some 3), pty_size = 8192, pty_takes = 8192, oob = False,
           host_name = bytes ''a'', flowmode = 0\<rparr>"

definition tel0 :: telnetd where
  "tel0 = \<lparr>options = (\<lambda>_. 0), do_dont_resp = (\<lambda>_. 0), will_wont_resp = (\<lambda>_. 0), net_out = [],
           pbackp = 0, ptyobuf = [], pty_in = [], ts_state = TS_DATA, subbuffer = (\<lambda>_. 0),
           subpointer = 0, subend = 0, clocks = (\<lambda>_. 0), system_clock = 0, not42 = True,
           turn_on_sga = False, synching = False, slc_flag = (\<lambda>_. 0), terminaltype = [],
           def_size = (0, 0), def_speed = (0, 0), environ = (\<lambda>_. None), actions = [],
           exited = False\<rparr>"

lemma tel0_ok: "tel_ok env0 tel0" "ready env0 100 tel0"
  by (simp_all add: tel_ok_def sub_pre_def tel0_def env0_def pty_fill_def ready_def SUBBUFSIZE_def)

lemma telrcv_pair: "telrcv E inp s = (fst (telrcv E inp s), snd (telrcv E inp s))"
  by simp

section \<open>Whatever the client sends\<close>

text \<open>C20: Whatever the client sends, the receiver writes only inside its two buffers: the cursors of
  the 512 byte suboption buffer stay in it, nothing beyond it changes, its last byte stays 0, and the
  buffer for the process is never overrun.\<close>

theorem receiver_bounds:
  assumes "tel_ok E s" "telrcv E inp s = (rest, t)"
  shows "subpointer t \<le> SUBBUFSIZE \<and> subend t < SUBBUFSIZE \<and> subbuffer t (SUBBUFSIZE - 1) = 0 \<and>
    (\<forall>i\<ge>SUBBUFSIZE. subbuffer t i = subbuffer s i) \<and> pbackp t + length (ptyobuf t) \<le> pty_size E"
  using telrcv_ok[OF assms(1), of inp] assms(2)
  by (simp add: tel_ok_def sub_pre_def mem_kept_def pty_fill_def)

theorem receiver_bounds_witness:
  "subpointer (snd (telrcv env0 [255, 250, 35, 0, 65, 255, 240] tel0)) \<le> 512"
  using receiver_bounds[OF tel0_ok(1) telrcv_pair, of "[255, 250, 35, 0, 65, 255, 240]"]
  by (simp add: SUBBUFSIZE_def)

text \<open>C21: Whatever the client sends, the server's environment changes only in the five variables that
  are safe to pass on: TERM, DISPLAY, USER, LOGNAME and POSIXLY_CORRECT.\<close>

theorem environment_safe:
  assumes "tel_ok E s" "telrcv E inp s = (rest, t)"
    and "v \<notin> {bytes ''TERM'', bytes ''DISPLAY'', bytes ''USER'', bytes ''LOGNAME'', bytes ''POSIXLY_CORRECT''}"
  shows "environ t v = environ s v"
  using telrcv_ok[OF assms(1), of inp] assms(2,3)
  by (simp add: mem_kept_def envvarok_def)

theorem environment_safe_witness:
  "environ (snd (telrcv env0 ([255, 250, 39, 0, 0] @ bytes ''LD_PRELOAD'' @ [1, 65, 255, 240]) tel0))
     (bytes ''LD_PRELOAD'') = None"
  using environment_safe[OF tel0_ok(1) telrcv_pair,
      of "bytes ''LD_PRELOAD''" "[255, 250, 39, 0, 0] @ bytes ''LD_PRELOAD'' @ [1, 65, 255, 240]"]
  by (simp add: bytes_def tel0_def)

text \<open>Whatever the client sends, it turns on no option the server does not support: the server
  comes to want an option of its own only if it is ECHO, BINARY, SGA, STATUS or LOGOUT, and one of
  the client only if it is among the eight it makes use of; and no more than one request is open
  for an option that was not open before.\<close>

theorem supported_options:
  assumes "tel_ok E s" "telrcv E inp s = (rest, t)"
  shows "(my_want_state_is_will opt t \<longrightarrow> my_want_state_is_will opt s \<or> opt \<in> performs \<or> opt = TELOPT_LOGOUT) \<and>
    (his_want_state_is_will opt t \<longrightarrow> his_want_state_is_will opt s \<or> opt \<in> accepts) \<and>
    will_wont_resp t opt \<le> max 1 (will_wont_resp s opt) \<and>
    do_dont_resp t opt \<le> max 1 (do_dont_resp s opt)"
  using telrcv_nego[OF assms(1), of inp] assms(2) by (simp add: nego_kept_def)

theorem supported_options_witness:
  "\<not> his_want_state_is_will 99 (snd (telrcv env0 [255, 251, 99, 255, 253, 99] tel0)) \<and>
   \<not> my_want_state_is_will 99 (snd (telrcv env0 [255, 251, 99, 255, 253, 99] tel0))"
  using supported_options[OF tel0_ok(1) telrcv_pair, of 99 "[255, 251, 99, 255, 253, 99]"]
  by (simp add: performs_def accepts_def telnet_opts tel0_def opt_is_def)

text \<open>The receiver is indifferent to how the network cuts the client's bytes into pieces: a run on
  two pieces is the run on the first and then, if all of it was taken, on the second.\<close>

theorem receiver_pieces:
  "telrcv E (xs @ ys) s =
     (case telrcv E xs s of (r, t) \<Rightarrow> if r = [] then telrcv E ys t else (r @ ys, t))"
  by (rule telrcv_append)

section \<open>Negotiation\<close>



text \<open>A client that announces an option is answered as by Borman's machine: a confirmation of what
  the server asked for gets no reply, an option the server uses is agreed to, and any other refused
  with one request more left open.\<close>

theorem his_options_negotiate:
  assumes "opt \<notin> {TELOPT_TM, TELOPT_ECHO}"
  shows "his_view opt (willoption opt s) = fst (nego_receive (opt \<in> accepts) True (his_view opt s)) \<and>
    net_out (willoption opt s) =
      net_out s @ concat (map (say_his opt) (snd (nego_receive (opt \<in> accepts) True (his_view opt s)))) \<and>
    (his_want_state_is_will opt s \<longrightarrow> net_out (willoption opt s) = net_out s)"
  using his_side.yes_view[OF assms] his_side.yes_out[OF assms] his_side.confirmed_silent[OF assms, of s]
  by (simp add: his_view_def)

theorem his_options_negotiate_witness:
  "net_out (willoption TELOPT_NAWS tel0) = [IAC, DO, 31] \<and> net_out (willoption 99 tel0) = [IAC, DONT, 99]"
  using his_options_negotiate[of TELOPT_NAWS tel0] his_options_negotiate[of 99 tel0]
  by (simp add: nego_receive_def his_view_def tel0_def opt_is_def accepts_def answered_def say_his_def
      telnet_opts Let_def)

text \<open>The macros that add the lower bit of a pair to see whether the two differ are right for both
  pairs, whatever the other bits are.\<close>

theorem changing_macros:
  "(my_will_wont_is_changing opt s \<longleftrightarrow> my_state_is_will opt s \<noteq> my_want_state_is_will opt s) \<and>
   (my_do_dont_is_changing opt s \<longleftrightarrow> his_state_is_will opt s \<noteq> his_want_state_is_will opt s)"
  by (simp add: my_changing_iff his_changing_iff)

lemma wontoption_pty: "ptyobuf (wontoption opt s) = ptyobuf s \<and> exited (wontoption opt s) = exited s"
proof -
  have sw: "ptyobuf (wont_switch opt u) = ptyobuf u \<and> exited (wont_switch opt u) = exited u" for u
    by (simp add: wont_switch_def act_def settimer_def set_flow_level_def Let_def)
  have prim: "ptyobuf (his_answer on o' u) = ptyobuf u" "exited (his_answer on o' u) = exited u"
    "ptyobuf (set_opt f on o' u) = ptyobuf u" "exited (set_opt f on o' u) = exited u"
    "ptyobuf (send_dont o' False u) = ptyobuf u" "exited (send_dont o' False u) = exited u" for u on f o'
    by (simp_all add: his_answer_def set_opt_def send_dont_def netoprintf_def)
  show ?thesis by (simp add: wontoption_def Let_def prim sw)
qed

lemma wontoption_state: "his_state_is_will opt (wontoption opt' s) = his_state_is_will opt s"
  by (simp add: wontoption_def Let_def send_dont_def)

text \<open>A WONT never clears the client's state of the option: after WILL BINARY and WONT BINARY the
  server still takes the client's bytes as binary, so the null after a carriage return reaches the
  process.\<close>

theorem wont_not_recorded:
  assumes "his_state_is_will TELOPT_BINARY s" "ready E 2 s"
  shows "his_state_is_will TELOPT_BINARY (wontoption TELOPT_BINARY s) \<and>
    ptyobuf (snd (telrcv E [IAC, WONT, TELOPT_BINARY, 13, 0] s)) = ptyobuf s @ [13, 0]"
proof -
  have st: "ts_state s = TS_DATA" "\<not> exited s" "pty_fill s + 4 \<le> pty_size E"
    using assms(2) by (auto simp: ready_def)
  define t where "t = (wontoption TELOPT_BINARY (s\<lparr>ts_state := TS_WONT\<rparr>))\<lparr>ts_state := TS_DATA\<rparr>"
  have first: "telrcv E [IAC, WONT, TELOPT_BINARY] s = ([], t)"
    using st by (simp add: room_iff rcv_byte_def rcv_data_def rcv_iac_def t_def telnet_codes)
  have t: "his_state_is_will TELOPT_BINARY t" "ts_state t = TS_DATA" "\<not> exited t" "ptyobuf t = ptyobuf s"
    "pty_fill t = pty_fill s"
    using st assms(1) wontoption_pty[of TELOPT_BINARY "s\<lparr>ts_state := TS_WONT\<rparr>"]
    by (simp_all add: t_def wontoption_state)
  then have "telrcv E [13, 0] t = ([], pty_put 0 (pty_put 13 t))"
    using st by (simp add: room_iff rcv_byte_def rcv_data_def IAC_def)
  then have "telrcv E ([IAC, WONT, TELOPT_BINARY] @ [13, 0]) s = ([], pty_put 0 (pty_put 13 t))"
    by (simp only: telrcv_append first prod.case if_True simp_thms)
  then show ?thesis
    using assms(1) t(4) by (simp add: wontoption_state pty_put_def del: telrcv.simps)
qed

text \<open>A server whose client has agreed to send binary data and is asked nothing more.\<close>

definition tel_binary :: telnetd where
  "tel_binary = snd (telrcv env0 [255, 251, 0] tel0)"

lemma tel_binary_facts: "his_state_is_will TELOPT_BINARY tel_binary" "ready env0 2 tel_binary"
  "ptyobuf tel_binary = []"
  by (simp_all add: tel_binary_def pty_room_def tel0_def env0_def rcv_byte_def rcv_data_def rcv_iac_def
      telnet_codes telnet_opts willoption_def his_answer_def answered_def will_switch_def Let_def
      send_do_def set_opt_def opt_is_def act_def netoprintf_def ready_def pty_fill_def
      MY_STATE_DO_def MY_WANT_STATE_DO_def)

theorem wont_not_recorded_witness:
  "ptyobuf (snd (telrcv env0 [IAC, WONT, TELOPT_BINARY, 13, 0] tel_binary)) = [13, 0]"
  using wont_not_recorded[OF tel_binary_facts(1,2)] tel_binary_facts(3) by simp

section \<open>Well-formed input\<close>

text \<open>User data reaches the process as the user typed it: each doubled IAC is one, each carriage
  return loses the null or line feed that follows it, and every other byte is passed on.\<close>

theorem data_transparent:
  assumes "ready E (length ds) s" "\<not> his_state_is_will TELOPT_BINARY s"
  shows "telrcv E (concat (map (\<lambda>(lf, c). nvt lf c) ds)) s = ([], s\<lparr>ptyobuf := ptyobuf s @ map snd ds\<rparr>)"
  using assms by (rule telrcv_data)

theorem data_transparent_witness:
  "ptyobuf (snd (telrcv env0 [108, 255, 255, 13, 10, 13, 0] tel0)) = [108, 255, 13, 13]"
  using data_transparent[of env0 "[(False, 108), (False, 255), (True, 13), (False, 13)]" tel0] tel0_ok
  by (simp add: ready_def nvt_def IAC_def tel0_def opt_is_def del: telrcv.simps)

text \<open>A client whose window size option is on and that sends its size, with IAC bytes doubled, has
  the two 16 bit numbers it sent set as the terminal's size.\<close>

theorem window_size_set:
  assumes "ready E 0 s" "his_state_is_will TELOPT_NAWS s"
    and "telrcv E ([IAC, SB] @ sb_encode [TELOPT_NAWS, a, b, c, d] @ [IAC, SE]) s = (rest, t)"
  shows "rest = [] \<and> def_size t = (256 * uint a + uint b, 256 * uint c + uint d) \<and>
    actions t = actions s @
      [Init_termbuf, Set_winsize (256 * uint a + uint b) (256 * uint c + uint d), Netflush]"
proof -
  define l where "l = (loaded [TELOPT_NAWS, a, b, c, d] s)\<lparr>subpointer := 5\<rparr>"
  have "rest = []" "t = (clientstat_naws (256 * uint a + uint b) (256 * uint c + uint d) l)\<lparr>ts_state := TS_DATA\<rparr>"
    using telrcv_suboption[OF assms(1), of "[TELOPT_NAWS, a, b, c, d]"] assms(3)
    by (simp_all add: suboption_naws[OF assms(2)] l_def SUBBUFSIZE_def del: telrcv.simps append.simps)
  moreover have "actions l = actions s" by (simp add: l_def loaded_def)
  ultimately show ?thesis by (simp add: clientstat_naws_def act_def)
qed

definition tel_naws :: telnetd where
  "tel_naws = tel0\<lparr>options := (\<lambda>_. 12)\<rparr>"

theorem window_size_set_witness:
  "def_size (snd (telrcv env0 ([IAC, SB] @ sb_encode [TELOPT_NAWS, 0, 80, 1, 255] @ [IAC, SE]) tel_naws)) = (80, 511)"
  using window_size_set[OF _ _ telrcv_pair, of env0 tel_naws 0 80 1 255] tel0_ok(2)
  by (simp add: ready_def tel_naws_def tel0_def opt_is_def pty_fill_def MY_STATE_DO_def
      del: telrcv.simps append.simps)

text \<open>The environment a client sends, its special bytes escaped, arrives: of the variables it names,
  in their order, those that are safe are set to the value given or removed if there is none.\<close>

theorem environment_arrives:
  assumes "ready E 0 s" "tel_ok E s" "nvs \<noteq> []"
    and "length (env_encode nvs) + 4 \<le> SUBBUFSIZE - 1"
    and "telrcv E ([IAC, SB] @ sb_encode ([TELOPT_ENVIRON, TELQUAL_IS] @ env_encode nvs) @ [IAC, SE]) s = (rest, t)"
  shows "environ t = fold env_assign nvs (environ s)"
proof -
  obtain n v nvs' where nvs: "nvs = (n, v) # nvs'" using assms(3) by (cases nvs) auto
  then have e: "env_encode nvs = ENV_VAR # tl (env_encode nvs)" by simp
  then have len: "length (tl (env_encode nvs)) + 5 \<le> SUBBUFSIZE - 1"
  proof -
    have "length (env_encode nvs) = Suc (length (tl (env_encode nvs)))"
      by (subst e) simp
    then show ?thesis using assms(4) by linarith
  qed
  have "t = (suboption E (loaded ([TELOPT_ENVIRON, TELQUAL_IS, ENV_VAR] @ tl (env_encode nvs)) s))\<lparr>ts_state := TS_DATA\<rparr>"
    using telrcv_suboption[OF assms(1), of "[TELOPT_ENVIRON, TELQUAL_IS] @ env_encode nvs"] assms(4,5) e
    by simp
  then show ?thesis
    using suboption_environ[OF assms(2) len] env_parse_encode[OF assms(3)] by simp
qed

theorem environment_arrives_witness:
  "environ (snd (telrcv env0 ([IAC, SB] @ sb_encode ([TELOPT_ENVIRON, TELQUAL_IS] @
       env_encode [(bytes ''USER'', Some [2, 65]), (bytes ''PATH'', Some [65])]) @ [IAC, SE]) tel0))
     (bytes ''USER'') = Some [2, 65]"
  using environment_arrives[OF _ tel0_ok(1) _ _ telrcv_pair,
      of "[(bytes ''USER'', Some [2, 65]), (bytes ''PATH'', Some [65])]"] tel0_ok(2)
  by (simp add: ready_def SUBBUFSIZE_def env_esc_def bytes_def env_assign_def envvarok_def upto_nul_def
      ENV_VAR_def ENV_VALUE_def ENV_ESC_def del: telrcv.simps append.simps)

text \<open>The status the server reports fits its buffer of 256 bytes, and a reader learns from it, for
  each of the first 40 options, exactly what the server wants on either side.\<close>

theorem status_report:
  "length (status_bytes E s) \<le> 256 \<and>
   set (read_status (drop 4 (status_bytes E s))) =
     {(mine, i). i < 40 \<and> (if mine then my_want_state_is_will i s else his_want_state_is_will i s)}"
proof -
  have "(\<exists>n<40. (mine, i) \<in> set (status_facts s (of_nat n))) \<longleftrightarrow>
      i < 40 \<and> (if mine then my_want_state_is_will i s else his_want_state_is_will i s)" for mine i
  proof -
    have "(of_nat n :: u8) < 40" if "n < 40" for n
      using that by (simp add: word_less_nat_alt unat_of_nat)
    moreover have "i = of_nat (unat i) \<and> unat i < 40" if "i < 40"
      using that by (simp add: word_less_nat_alt)
    ultimately show ?thesis
      by (cases mine) (auto simp: status_facts_def split: if_splits intro!: exI[of _ "unat i"])
  qed
  then have "set (read_status (drop 4 (status_bytes E s))) =
     {(mine, i). i < 40 \<and> (if mine then my_want_state_is_will i s else his_want_state_is_will i s)}"
    unfolding read_status_bytes NTELOPTS_def set_eq_iff
    by (simp only: set_concat set_map set_upt image_image UN_iff atLeastLessThan_iff le0 simp_thms
        Bex_def mem_Collect_eq split_paired_All prod.case)
  then show ?thesis using status_length[of E s] by simp
qed

section \<open>Further observations\<close>

text \<open>
  The answer to the client's agreement to ECHO is dropped: with the request answered and the option
  not yet recorded, \<open>send_dont\<close> finds nothing to do.
\<close>

lemma will_echo_unanswered:
  "do_dont_resp s TELOPT_ECHO = 1 \<Longrightarrow> \<not> his_state_is_will TELOPT_ECHO s \<Longrightarrow>
   his_want_state_is_will TELOPT_ECHO s \<Longrightarrow>
   net_out (willoption TELOPT_ECHO s) = net_out s \<and> his_want_state_is_will TELOPT_ECHO (willoption TELOPT_ECHO s)"
  by (simp add: willoption_def Let_def send_dont_def answered_def)

text \<open>A suboption that fills the buffer loses its last two bytes.\<close>

lemma full_suboption_cut:
  assumes "tel_ok E s" "subpointer s = SUBBUFSIZE - 1"
  shows "subend (sub_end E SE s) = SUBBUFSIZE - 3"
proof -
  define t where "t = sb_term (s\<lparr>subpointer := subpointer s - 2\<rparr>)"
  have "sub_end E SE s = suboption E t"
    using assms(2) by (simp add: sub_end_def sb_accum_def Let_def t_def)
  moreover have "sub_kept t (suboption E t)"
    using assms by (intro suboption_kept)
      (auto simp: t_def sb_term_def sb_clear_def sub_pre_def tel_ok_def SUBBUFSIZE_def)
  ultimately show ?thesis
    using assms(2) by (simp add: sub_kept_def t_def sb_term_def sb_clear_def)
qed

text \<open>A display is taken from a client whether it turned the option on or not.\<close>

lemma xdisploc_unchecked:
  assumes "length name + 4 \<le> SUBBUFSIZE - 1"
  shows "environ (suboption E (loaded ([TELOPT_XDISPLOC, TELQUAL_IS] @ name) s)) =
    (environ s)(bytes ''DISPLAY'' \<mapsto> upto_nul name)"
proof -
  define l where "l = loaded ([TELOPT_XDISPLOC, TELQUAL_IS] @ name) s"
  define b where "b = (subbuffer l)(Suc (Suc (length name)) := 0)"
  have l: "subbuffer l 0 = TELOPT_XDISPLOC" "subbuffer l 1 = TELQUAL_IS" "subend l = length name + 2"
    "subpointer l = 0" "environ l = environ s"
    using loaded_byte[of _ "[TELOPT_XDISPLOC, TELQUAL_IS] @ name" s]
    by (simp_all add: l_def) (simp_all add: loaded_def)
  have "holds (subbuffer l) 2 name"
    using loaded_byte[of _ "[TELOPT_XDISPLOC, TELQUAL_IS] @ name" s]
    by (simp add: holds_def l_def)
  then have "holds b 2 (name @ [0])"
    using holds_snoc[of "subbuffer l" 2 name 0] by (simp add: b_def add.commute)
  then have "c_string b 2 = upto_nul name"
    using assms by (intro c_string_holds) auto
  then have "c_string b (Suc (Suc 0)) = upto_nul name" by (simp add: numeral_2_eq_2)
  then show ?thesis
    using l unfolding l_def[symmetric]
    by (simp add: suboption_def sub_xdisploc_def sb_get_def sb_eof_def sb_set_def setenv_def
        settimer_def Let_def telnet_opts b_def)
qed

end
