(* ===== verification/Talk_Table.thy ===== *)
theory Talk_Table
  imports Netkit_Prelude
begin

text \<open>
  The talk daemon's messages (\<^verbatim>\<open>prot_talkd.h\<close>), its byte order helpers (\<^verbatim>\<open>repairs.c\<close>) and its
  table of requests (\<^verbatim>\<open>table.c\<close>). The doubly linked list is a list of entries, the head first; a
  pointer into it is a position. The character arrays of a message are lists of bytes, read as C
  strings up to their first null.
\<close>

section \<open>Messages\<close>

definition NAME_SIZE :: nat where "NAME_SIZE = 12"
definition TTY_SIZE :: nat where "TTY_SIZE = 16"

record talk_addr =
  ta_family :: u16
  ta_port :: u16
  ta_addr :: u32
  ta_junk1 :: u32
  ta_junk2 :: u32

record ctl_msg =
  m_vers :: u8
  m_type :: u8
  m_answer :: u8
  m_pad :: u8
  m_id :: u32
  m_addr :: talk_addr
  m_ctl_addr :: talk_addr
  m_pid :: u32
  m_l_name :: "u8 list"
  m_r_name :: "u8 list"
  m_r_tty :: "u8 list"

record ctl_response =
  rp_vers :: u8
  rp_type :: u8
  rp_answer :: u8
  rp_pad :: u8
  rp_id :: u32
  rp_addr :: talk_addr

definition TALK_VERSION :: u8 where "TALK_VERSION = 1"

definition LEAVE_INVITE :: u8 where "LEAVE_INVITE = 0"
definition LOOK_UP :: u8 where "LOOK_UP = 1"
definition DELETE :: u8 where "DELETE = 2"
definition ANNOUNCE :: u8 where "ANNOUNCE = 3"

definition SUCCESS :: u8 where "SUCCESS = 0"
definition NOT_HERE :: u8 where "NOT_HERE = 1"
definition FAILED :: u8 where "FAILED = 2"
definition MACHINE_UNKNOWN :: u8 where "MACHINE_UNKNOWN = 3"
definition PERMISSION_DENIED :: u8 where "PERMISSION_DENIED = 4"
definition UNKNOWN_REQUEST :: u8 where "UNKNOWN_REQUEST = 5"
definition BADVERSION :: u8 where "BADVERSION = 6"
definition BADADDR :: u8 where "BADADDR = 7"

definition MAX_LIFE :: int where "MAX_LIFE = 60"

lemmas talk_types = LEAVE_INVITE_def LOOK_UP_def DELETE_def ANNOUNCE_def

lemmas talk_answers = SUCCESS_def NOT_HERE_def FAILED_def MACHINE_UNKNOWN_def PERMISSION_DENIED_def
  UNKNOWN_REQUEST_def BADVERSION_def BADADDR_def

definition c_str :: "u8 list \<Rightarrow> u8 list" where
  "c_str = takeWhile (\<lambda>c. c \<noteq> 0)"

section \<open>Byte order\<close>

definition byte_swap32 :: "u32 \<Rightarrow> u32" where
  "byte_swap32 k =
     push_bit 24 k OR push_bit 8 (k AND 0xff00) OR (drop_bit 8 k AND 0xff00) OR drop_bit 24 k"

definition byte_swap16 :: "u16 \<Rightarrow> u16" where
  "byte_swap16 k = push_bit 8 k OR drop_bit 8 k"

text \<open>The network's byte order, on a machine with the low byte first.\<close>

abbreviation "htonl \<equiv> byte_swap32"
abbreviation "ntohl \<equiv> byte_swap32"
abbreviation "htons \<equiv> byte_swap16"


section \<open>The table\<close>

record table_entry =
  te_request :: ctl_msg
  te_time :: int

record talkd =
  table :: "table_entry list"
  current_id :: int
  freed_reads :: nat
  written :: "(u8 list \<times> u8 list) list"
  replies :: "(u32 \<times> u16 \<times> u8 list) list"
  lastmsgtime :: int

definition MAX_ID :: int where "MAX_ID = 16000"

definition new_id :: "talkd \<Rightarrow> int \<times> talkd" where
  "new_id s =
     (let i = (current_id s + 1) mod MAX_ID; j = (if i = 0 then 1 else i)
      in (j, s\<lparr>current_id := j\<rparr>))"

definition deleteit :: "nat \<Rightarrow> table_entry list \<Rightarrow> table_entry list" where
  "deleteit i t = take i t @ drop (Suc i) t"

text \<open>
  The walk that throws out old entries takes the next pointer of an entry from its memory after that
  was freed. The model goes on with the pointer stored before and counts these reads.
\<close>

fun expire_from :: "int \<Rightarrow> table_entry list \<Rightarrow> table_entry list \<times> nat" where
  "expire_from now [] = ([], 0)"
| "expire_from now (e # es) =
     (let (es', n) = expire_from now es in
      if now - te_time e > MAX_LIFE then (es', Suc n) else (e # es', n))"

definition expire :: "int \<Rightarrow> talkd \<Rightarrow> talkd" where
  "expire now s =
     (let (t, n) = expire_from now (table s) in s\<lparr>table := t, freed_reads := freed_reads s + n\<rparr>)"

fun position :: "('a \<Rightarrow> bool) \<Rightarrow> 'a list \<Rightarrow> nat option" where
  "position P [] = None"
| "position P (x # xs) = (if P x then Some 0 else map_option Suc (position P xs))"

definition matches :: "ctl_msg \<Rightarrow> table_entry \<Rightarrow> bool" where
  "matches m e \<longleftrightarrow>
     c_str (m_l_name m) = c_str (m_r_name (te_request e)) \<and>
     c_str (m_r_name m) = c_str (m_l_name (te_request e)) \<and> m_type (te_request e) = LEAVE_INVITE"

definition find_match :: "int \<Rightarrow> ctl_msg \<Rightarrow> talkd \<Rightarrow> ctl_msg option \<times> talkd" where
  "find_match now m s0 =
     (let s = expire now s0 in (map_option te_request (find (matches m) (table s)), s))"

definition repeats :: "ctl_msg \<Rightarrow> table_entry \<Rightarrow> bool" where
  "repeats m e \<longleftrightarrow>
     c_str (m_r_name m) = c_str (m_r_name (te_request e)) \<and>
     c_str (m_l_name m) = c_str (m_l_name (te_request e)) \<and>
     m_type m = m_type (te_request e) \<and> m_pid m = m_pid (te_request e)"

text \<open>The position of the request found, its time brought up to date.\<close>

definition find_request :: "int \<Rightarrow> ctl_msg \<Rightarrow> talkd \<Rightarrow> nat option \<times> talkd" where
  "find_request now m s0 =
     (let s = expire now s0 in
      case position (repeats m) (table s) of
        None \<Rightarrow> (None, s)
      | Some i \<Rightarrow> (Some i, s\<lparr>table := (table s)[i := (table s ! i)\<lparr>te_time := now\<rparr>]\<rparr>))"

definition insert_table :: "int \<Rightarrow> ctl_msg \<Rightarrow> ctl_response \<Rightarrow> talkd \<Rightarrow> ctl_msg \<times> ctl_response \<times> talkd" where
  "insert_table now m rp s0 =
     (let (i, s) = new_id s0; m1 = m\<lparr>m_id := word_of_int i\<rparr>
      in (m1, rp\<lparr>rp_id := htonl (m_id m1)\<rparr>,
          s\<lparr>table := \<lparr>te_request = m1, te_time = now\<rparr> # table s\<rparr>))"

definition delete_invite :: "u32 \<Rightarrow> talkd \<Rightarrow> u8 \<times> talkd" where
  "delete_invite i s =
     (case position (\<lambda>e. m_id (te_request e) = i) (table s) of
        Some k \<Rightarrow> (SUCCESS, s\<lparr>table := deleteit k (table s)\<rparr>)
      | None \<Rightarrow> (NOT_HERE, s))"

section \<open>Laws\<close>

lemma bit_ff00: "bit (0xff00 :: u32) n \<longleftrightarrow> 8 \<le> n \<and> n < 16"
proof -
  have "(0xff00 :: u32) = push_bit 8 (mask 8)" by (simp add: mask_eq_exp_minus_1)
  moreover have "bit (push_bit 8 (mask 8) :: u32) n \<longleftrightarrow> 8 \<le> n \<and> n < 16"
    by (simp only: bit_push_bit_iff bit_mask_iff) auto
  ultimately show ?thesis by simp
qed

lemma bit_byte_swap32:
  assumes "n < 32"
  shows "bit (byte_swap32 k) n \<longleftrightarrow>
     (if 24 \<le> n then bit k (n - 24) else if 16 \<le> n then bit k (n - 8)
      else if 8 \<le> n then bit k (n + 8) else bit k (n + 24))"
proof -
  have raw: "bit (byte_swap32 k) n \<longleftrightarrow>
    24 \<le> n \<and> bit k (n - 24) \<or> 8 \<le> n \<and> bit k (n - 8) \<and> 8 \<le> n - 8 \<and> n - 8 < 16 \<or>
    bit k (8 + n) \<and> 8 \<le> n \<and> n < 16 \<or> bit k (24 + n)"
    using assms
    by (simp only: byte_swap32_def bit_or_iff bit_and_iff bit_push_bit_iff bit_drop_bit_eq o_apply bit_ff00)
      (simp add: conj_ac disj_ac)
  have high: "\<not> bit k (24 + n)" if "8 \<le> n"
    using that bit_imp_le_length[of k "24 + n"] by auto
  consider "24 \<le> n" | "16 \<le> n" "n < 24" | "8 \<le> n" "n < 16" | "n < 8" by linarith
  then show ?thesis
    by cases (use assms raw high in \<open>auto simp: add.commute\<close>)
qed

lemma byte_swap32_swap [simp]: "byte_swap32 (byte_swap32 k) = k"
proof (rule bit_word_eqI)
  fix n assume "n < LENGTH(32)"
  then consider m where "n = 24 + m" "m < 8" | m where "n = 16 + m" "m < 8"
    | m where "n = 8 + m" "m < 8" | "n < 8"
    using le_Suc_ex[of 24 n] le_Suc_ex[of 16 n] le_Suc_ex[of 8 n] by fastforce
  then show "bit (byte_swap32 (byte_swap32 k)) n \<longleftrightarrow> bit k n"
    by cases (simp_all add: bit_byte_swap32 add.commute)
qed

lemma bit_byte_swap16:
  "m < 16 \<Longrightarrow> bit (byte_swap16 k) m \<longleftrightarrow> (if 8 \<le> m then bit k (m - 8) else bit k (m + 8))"
  using bit_imp_le_length[of k "8 + m"]
  by (auto simp: byte_swap16_def bit_or_iff bit_push_bit_iff bit_drop_bit_eq add.commute)

lemma byte_swap16_swap [simp]: "byte_swap16 (byte_swap16 k) = k"
proof (rule bit_word_eqI)
  fix n assume "n < LENGTH(16)"
  then consider m where "n = 8 + m" "m < 8" | "n < 8"
    using le_Suc_ex[of 8 n] by fastforce
  then show "bit (byte_swap16 (byte_swap16 k)) n \<longleftrightarrow> bit k n"
    by cases (simp_all add: bit_byte_swap16 add.commute)
qed

end
