(* ===== verification/Talk_Server.thy ===== *)
theory Talk_Server
  imports Talk_Table
begin

text \<open>
  The talk daemon's handling of one packet: the checks and repairs (\<^verbatim>\<open>repairs.c\<close>, \<^verbatim>\<open>talkd.c\<close>),
  the four requests (\<^verbatim>\<open>process.c\<close>) and the message on the callee's terminal (\<^verbatim>\<open>announce.c\<close>).
  The system around it - terminals, logins, names, the clock - is a record of what it answers.
\<close>

section \<open>The system\<close>

record tty_file =
  t_mode :: u32
  t_atime :: int
  t_opens :: bool
  t_fstat :: bool

record utmp =
  ut_user :: bool
  ut_name :: "u8 list"
  ut_line :: "u8 list"

text \<open>What becomes of the child that writes: it may not start, not be waited for, or be killed.\<close>

datatype child = No_child | Lost_child | Killed_child bool | Exited_child

record talk_env =
  files :: "u8 list \<Rightarrow> tty_file option"
  utmps :: "utmp list"
  child_fate :: child
  hour :: nat
  minute :: nat
  ourhostname :: "u8 list"
  bindable :: "u32 \<Rightarrow> bool"
  addr_name :: "u32 \<Rightarrow> u8 list option"
  name_addrs :: "u8 list \<Rightarrow> u32 list option"
  sendto_ok :: "nat \<Rightarrow> bool"
  now :: int

definition ascii :: "string \<Rightarrow> u8 list" where
  "ascii = map of_char"

section \<open>The message on the terminal\<close>

definition N_CHARS :: nat where "N_CHARS = 120"

text \<open>A character is signed: those above 127 are below 32.\<close>

definition safechar :: "u8 \<Rightarrow> u8" where
  "safechar c = (let ch = sint c in if ch > 127 \<or> ch < 32 then 63 else c)"

fun decimal :: "nat \<Rightarrow> u8 list" where
  "decimal n = (if n < 10 then [of_nat (48 + n)] else decimal (n div 10) @ [of_nat (48 + n mod 10)])"

declare decimal.simps [simp del]

definition two_digits :: "nat \<Rightarrow> u8 list" where
  "two_digits n = (if n < 10 then [48] else []) @ decimal n"

definition snprint :: "nat \<Rightarrow> u8 list \<Rightarrow> u8 list" where
  "snprint sz cs = take (sz - 1) cs"

definition mesg_lines :: "talk_env \<Rightarrow> ctl_msg \<Rightarrow> u8 list \<Rightarrow> u8 list list" where
  "mesg_lines E request remote =
     map (\<lambda>l. c_str (snprint N_CHARS l))
       [ascii '' '',
        ascii ''Message from Talk_Daemon@'' @ c_str (ourhostname E) @ ascii '' at '' @ decimal (hour E) @
          ascii '':'' @ two_digits (minute E) @ ascii '' ...'',
        ascii ''talk: connection requested by '' @ c_str (m_l_name request) @ ascii ''@'' @ remote @ ascii ''.'',
        ascii ''talk: respond with:  talk '' @ c_str (m_l_name request) @ ascii ''@'' @ remote,
        ascii '' '']"

definition mesg_line :: "nat \<Rightarrow> u8 list \<Rightarrow> u8 list" where
  "mesg_line max_size l = map safechar l @ replicate (max_size + 2 - length l) 32 @ [13, 10]"

definition print_mesg :: "talk_env \<Rightarrow> ctl_msg \<Rightarrow> u8 list \<Rightarrow> u8 list" where
  "print_mesg E request remote =
     (let ls = mesg_lines E request remote; max_size = foldl max 0 (map length ls)
      in [7, 13, 10] @ concat (map (mesg_line max_size) ls))"

definition announce_proc :: "talk_env \<Rightarrow> ctl_msg \<Rightarrow> u8 list \<Rightarrow> u8 \<times> (u8 list \<times> u8 list) list" where
  "announce_proc E request remote =
     (let full_tty = snprint 32 (ascii ''/dev/'' @ c_str (m_r_tty request)) in
      case files E full_tty of
        None \<Rightarrow> (FAILED, [])
      | Some f \<Rightarrow>
          if \<not> t_opens f then (PERMISSION_DENIED, [])
          else if \<not> t_fstat f then (PERMISSION_DENIED, [])
          else if \<not> has (t_mode f) 0x10 then (PERMISSION_DENIED, [])
          else (SUCCESS, [(full_tty, print_mesg E request remote)]))"

definition announce :: "talk_env \<Rightarrow> ctl_msg \<Rightarrow> u8 list \<Rightarrow> talkd \<Rightarrow> u8 \<times> talkd" where
  "announce E request remote s =
     (let (status, w) = announce_proc E request remote; done = s\<lparr>written := written s @ w\<rparr> in
      case child_fate E of
        No_child \<Rightarrow> (FAILED, s)
      | Lost_child \<Rightarrow> (FAILED, done)
      | Killed_child wrote \<Rightarrow> (FAILED, if wrote then done else s)
      | Exited_child \<Rightarrow> (status, done))"

section \<open>The callee's terminal\<close>

definition UT_NAMESIZE :: nat where "UT_NAMESIZE = 32"

definition check_one_utmp :: "utmp \<Rightarrow> u8 list \<Rightarrow> bool" where
  "check_one_utmp ut name \<longleftrightarrow> c_str (take NAME_SIZE name) = c_str (take UT_NAMESIZE (ut_name ut))"

definition dev_path :: "u8 list \<Rightarrow> u8 list" where
  "dev_path tty = (case tty of c # _ \<Rightarrow> if c = 47 then tty else ascii ''/dev/'' @ tty | [] \<Rightarrow> ascii ''/dev/'')"

text \<open>The answer, and the time of the last access if it is a success.\<close>

definition check_tty_perms :: "talk_env \<Rightarrow> u8 list \<Rightarrow> u8 \<times> int" where
  "check_tty_perms E tty =
     (case files E (dev_path tty) of
        None \<Rightarrow> (FAILED, 0)
      | Some f \<Rightarrow> if \<not> has (t_mode f) 0x10 then (PERMISSION_DENIED, 0) else (SUCCESS, t_atime f))"

text \<open>Over the rest of \<open>utmp\<close>: the answer and the terminal.\<close>

fun find_user_from ::
  "talk_env \<Rightarrow> u8 list \<Rightarrow> u8 list \<Rightarrow> bool \<Rightarrow> bool \<Rightarrow> int \<Rightarrow> u8 list \<Rightarrow> utmp list \<Rightarrow> u8 \<times> u8 list" where
  "find_user_from E name tty found ok best_time besttty [] =
     (if \<not> found then NOT_HERE else if \<not> ok then PERMISSION_DENIED else SUCCESS, besttty)"
| "find_user_from E name tty found ok best_time besttty (u # us) =
     (if \<not> ut_user u \<or> \<not> check_one_utmp u name
      then find_user_from E name tty found ok best_time besttty us
      else if c_str tty \<noteq> [] \<and> c_str tty = c_str (ut_line u) then (SUCCESS, tty)
      else let (ret, this_time) = check_tty_perms E (c_str (ut_line u)) in
        if ret \<noteq> SUCCESS then find_user_from E name tty True ok best_time besttty us
        else if this_time > best_time
             then find_user_from E name tty True True this_time (c_str (ut_line u)) us
             else find_user_from E name tty True True best_time besttty us)"

definition find_user :: "talk_env \<Rightarrow> u8 list \<Rightarrow> u8 list \<Rightarrow> u8 \<times> u8 list" where
  "find_user E name tty = find_user_from E name tty False False 0 [] (utmps E)"

section \<open>Requests\<close>

definition do_announce :: "talk_env \<Rightarrow> ctl_msg \<Rightarrow> ctl_response \<Rightarrow> u8 list \<Rightarrow> talkd \<Rightarrow> ctl_response \<times> talkd" where
  "do_announce E mp rp fromhost s =
     (let (result, tty) = find_user E (m_r_name mp) (m_r_tty mp); m = mp\<lparr>m_r_tty := tty\<rparr> in
      if result \<noteq> SUCCESS then (rp\<lparr>rp_answer := result\<rparr>, s)
      else case find_request (now E) m s of
        (None, s1) \<Rightarrow>
          let (m1, rp1, s2) = insert_table (now E) m rp s1; (a, s3) = announce E m1 fromhost s2
          in (rp1\<lparr>rp_answer := a\<rparr>, s3)
      | (Some i, s1) \<Rightarrow>
          let old = m_id (te_request (table s1 ! i)); temp = byte_swap32 (byte_swap32 (m_id m) - 1) in
          if m_id m > old \<or> temp = old
          then let (j, s2) = new_id s1; e = table s2 ! i; k = word_of_int j;
                   s3 = s2\<lparr>table := (table s2)[i := e\<lparr>te_request := (te_request e)\<lparr>m_id := k\<rparr>\<rparr>]\<rparr>;
                   (a, s4) = announce E m fromhost s3
               in (rp\<lparr>rp_id := htonl k, rp_answer := a\<rparr>, s4)
          else (rp\<lparr>rp_id := htonl old, rp_answer := SUCCESS\<rparr>, s1))"

definition terminate :: "nat \<Rightarrow> u8 list \<Rightarrow> u8 list" where
  "terminate sz a = a[sz - 1 := 0]"

text \<open>The response is the caller's local variable: its fields hold anything until they are set.\<close>

definition process_request :: "talk_env \<Rightarrow> ctl_msg \<Rightarrow> ctl_response \<Rightarrow> u8 list \<Rightarrow> talkd \<Rightarrow> ctl_response \<times> talkd" where
  "process_request E mp0 rp0 fromhost s =
     (let mp1 = mp0\<lparr>m_l_name := terminate NAME_SIZE (m_l_name mp0),
                    m_r_name := terminate NAME_SIZE (m_r_name mp0),
                    m_r_tty := terminate TTY_SIZE (m_r_tty mp0)\<rparr>;
          rp = rp0\<lparr>rp_vers := TALK_VERSION, rp_type := m_type mp1, rp_id := htonl 0\<rparr> in
      if m_vers mp1 \<noteq> TALK_VERSION then (rp\<lparr>rp_answer := BADVERSION\<rparr>, s)
      else let mp = mp1\<lparr>m_id := ntohl (m_id mp1), m_pid := ntohl (m_pid mp1)\<rparr> in
        if m_type mp = ANNOUNCE then do_announce E mp rp fromhost s
        else if m_type mp = LEAVE_INVITE then
          (case find_request (now E) mp s of
             (Some i, s1) \<Rightarrow> (rp\<lparr>rp_id := htonl (m_id (te_request (table s1 ! i))), rp_answer := SUCCESS\<rparr>, s1)
           | (None, s1) \<Rightarrow> let (m1, rp1, s2) = insert_table (now E) mp rp s1 in (rp1, s2))
        else if m_type mp = LOOK_UP then
          (case find_match (now E) mp s of
             (Some r, s1) \<Rightarrow>
               (rp\<lparr>rp_id := htonl (m_id r),
                   rp_addr := (m_addr r)\<lparr>ta_family := htons (ta_family (m_addr r))\<rparr>, rp_answer := SUCCESS\<rparr>, s1)
           | (None, s1) \<Rightarrow> (rp\<lparr>rp_answer := NOT_HERE\<rparr>, s1))
        else if m_type mp = DELETE then
          (let (a, s1) = delete_invite (m_id mp) s in (rp\<lparr>rp_answer := a\<rparr>, s1))
        else (rp\<lparr>rp_answer := UNKNOWN_REQUEST\<rparr>, s))"

section \<open>Structures as bytes\<close>

fun le_word :: "u8 list \<Rightarrow> 'a::len word" where
  "le_word [] = 0"
| "le_word (b # bs) = ucast b + 256 * le_word bs"

definition field :: "nat \<Rightarrow> nat \<Rightarrow> u8 list \<Rightarrow> u8 list" where
  "field off n b = take n (drop off b)"

definition addr_at :: "nat \<Rightarrow> u8 list \<Rightarrow> talk_addr" where
  "addr_at off b =
     \<lparr>ta_family = le_word (field off 2 b), ta_port = le_word (field (off + 2) 2 b),
      ta_addr = le_word (field (off + 4) 4 b), ta_junk1 = le_word (field (off + 8) 4 b),
      ta_junk2 = le_word (field (off + 12) 4 b)\<rparr>"

definition ctl_msg_at :: "u8 list \<Rightarrow> ctl_msg" where
  "ctl_msg_at b =
     \<lparr>m_vers = b ! 0, m_type = b ! 1, m_answer = b ! 2, m_pad = b ! 3, m_id = le_word (field 4 4 b),
      m_addr = addr_at 8 b, m_ctl_addr = addr_at 24 b, m_pid = le_word (field 40 4 b),
      m_l_name = field 44 12 b, m_r_name = field 56 12 b, m_r_tty = field 68 16 b\<rparr>"

definition CTL_MSG_SIZE :: nat where "CTL_MSG_SIZE = 84"
definition OTALK_PACKET_SIZE :: nat where "OTALK_PACKET_SIZE = 76"

definition bytes16 :: "u16 \<Rightarrow> u8 list" where
  "bytes16 w = [ucast w, ucast (drop_bit 8 w)]"

definition bytes32 :: "u32 \<Rightarrow> u8 list" where
  "bytes32 w = [ucast w, ucast (drop_bit 8 w), ucast (drop_bit 16 w), ucast (drop_bit 24 w)]"

definition addr_bytes :: "talk_addr \<Rightarrow> u8 list" where
  "addr_bytes a = bytes16 (ta_family a) @ bytes16 (ta_port a) @ bytes32 (ta_addr a) @
     bytes32 (ta_junk1 a) @ bytes32 (ta_junk2 a)"

definition response_bytes :: "ctl_response \<Rightarrow> u8 list" where
  "response_bytes r =
     [rp_vers r, rp_type r, rp_answer r, rp_pad r] @ bytes32 (rp_id r) @ addr_bytes (rp_addr r)"

section \<open>Repairs\<close>

text \<open>Where a packet came from, the fields as they are in memory.\<close>

record peer =
  pe_family :: u16
  pe_port :: u16
  pe_addr :: u32

fun probe_string :: "u8 list \<Rightarrow> bool" where
  "probe_string [] = False"
| "probe_string (c # cs) =
     (if c = 0 then True
      else if c AND 127 < 32 \<or> c AND 127 = 127 then False
      else probe_string cs)"

definition probe_addr :: "talk_addr \<Rightarrow> peer \<Rightarrow> bool" where
  "probe_addr ta sn \<longleftrightarrow>
     (ta_family ta = pe_family sn \<or> ta_family ta = byte_swap16 (pe_family sn)) \<and>
     (ta_port ta = pe_port sn \<or> ta_port ta = byte_swap16 (pe_port sn)) \<and>
     (ta_addr ta = pe_addr sn \<or> ta_addr ta = byte_swap32 (pe_addr sn))"

definition otalk_type :: "u8 \<Rightarrow> u8 option" where
  "otalk_type t =
     (if t = LEAVE_INVITE \<or> t = LOOK_UP \<or> t = DELETE \<or> t = ANNOUNCE then Some t
      else if t = 4 then Some DELETE
      else if t = 5 then Some LOOK_UP
      else if t = 6 then Some DELETE
      else None)"

text \<open>
  An old packet as a new message. The bytes of the longer name fields behind the old ones are left
  unset by the code; they are behind the terminating null and never read.
\<close>

definition probe_otalk_packet :: "u8 list \<Rightarrow> nat \<Rightarrow> peer \<Rightarrow> ctl_msg option" where
  "probe_otalk_packet b len sn =
     (if len \<noteq> OTALK_PACKET_SIZE then None
      else if \<not> probe_string (field 1 9 b) then None
      else if \<not> probe_string (field 10 9 b) then None
      else if \<not> probe_string (field 28 16 b) then None
      else if \<not> probe_addr (addr_at 60 b) sn then None
      else map_option (\<lambda>t.
        \<lparr>m_vers = TALK_VERSION, m_type = t, m_answer = 0, m_pad = 0, m_id = le_word (field 20 4 b),
         m_addr = addr_at 44 b, m_ctl_addr = addr_at 60 b, m_pid = le_word (field 24 4 b),
         m_l_name = field 1 8 b @ replicate 4 0, m_r_name = field 10 8 b @ replicate 4 0,
         m_r_tty = field 28 15 b @ [0]\<rparr>) (otalk_type (b ! 0)))"

datatype quirk = QUIRK_NONE | QUIRK_OTALK

definition rationalize_packet :: "u8 list \<Rightarrow> nat \<Rightarrow> peer \<Rightarrow> (quirk \<times> ctl_msg) option" where
  "rationalize_packet b len sn =
     (if len = CTL_MSG_SIZE then Some (QUIRK_NONE, ctl_msg_at b)
      else map_option (Pair QUIRK_OTALK) (probe_otalk_packet b len sn))"

definition do_otalk_reply :: "ctl_response \<Rightarrow> u8 list" where
  "do_otalk_reply r = [rp_type r, rp_answer r, 0, 0] @ bytes32 (rp_id r) @ addr_bytes (rp_addr r)"

definition irrationalize_reply :: "quirk \<Rightarrow> ctl_response \<Rightarrow> u8 list" where
  "irrationalize_reply q r = (case q of QUIRK_NONE \<Rightarrow> response_bytes r | QUIRK_OTALK \<Rightarrow> do_otalk_reply r)"

section \<open>One packet\<close>

definition INADDR_LOOPBACK :: u32 where "INADDR_LOOPBACK = 0x7f000001"
definition AF_INET_host :: u16 where "AF_INET_host = 2"
definition MAXHOSTNAMELEN :: nat where "MAXHOSTNAMELEN = 64"
definition MAXIDLE :: int where "MAXIDLE = 120"

definition is_local_address :: "talk_env \<Rightarrow> u32 \<Rightarrow> bool" where
  "is_local_address E a \<longleftrightarrow> a = htonl INADDR_LOOPBACK \<or> bindable E a"

text \<open>A second attempt is made if the first one fails.\<close>

definition send_packet :: "talk_env \<Rightarrow> ctl_response \<Rightarrow> peer \<Rightarrow> quirk \<Rightarrow> talkd \<Rightarrow> talkd" where
  "send_packet E r sn q s =
     (if sendto_ok E 0 \<or> sendto_ok E 1
      then s\<lparr>replies := replies s @ [(pe_addr sn, pe_port sn, irrationalize_reply q r)]\<rparr> else s)"

definition zero_addr :: talk_addr where
  "zero_addr = \<lparr>ta_family = 0, ta_port = 0, ta_addr = 0, ta_junk1 = 0, ta_junk2 = 0\<rparr>"

definition send_reject_packet :: "talk_env \<Rightarrow> u8 \<Rightarrow> peer \<Rightarrow> u8 \<Rightarrow> quirk \<Rightarrow> talkd \<Rightarrow> talkd" where
  "send_reject_packet E typ sn code q s =
     send_packet E \<lparr>rp_vers = TALK_VERSION, rp_type = typ, rp_answer = code, rp_pad = 0, rp_id = 0,
       rp_addr = zero_addr\<rparr> sn q s"

text \<open>What \<open>recvfrom\<close> delivers: the buffer, how much of it is the packet, and the sender.\<close>

record talk_packet =
  pk_buf :: "u8 list"
  pk_len :: nat
  pk_from :: peer
  pk_addr_ok :: bool

definition their_host :: "talk_env \<Rightarrow> peer \<Rightarrow> u8 list option" where
  "their_host E sn =
     (case addr_name E (pe_addr sn) of
        None \<Rightarrow> None
      | Some n \<Rightarrow>
          let h = c_str (take (MAXHOSTNAMELEN - 1) n) in
          case name_addrs E h of
            None \<Rightarrow> None
          | Some as \<Rightarrow> if pe_addr sn \<in> set as then Some h else None)"

definition do_one_packet :: "talk_env \<Rightarrow> talk_packet option \<Rightarrow> ctl_response \<Rightarrow> talkd \<Rightarrow> talkd" where
  "do_one_packet E p rp0 s0 =
     (case p of
        None \<Rightarrow> s0
      | Some p \<Rightarrow>
          let s = s0\<lparr>lastmsgtime := now E\<rparr>; sn = pk_from p; typ = pk_buf p ! 1 in
          if \<not> pk_addr_ok p \<or> pe_family sn \<noteq> AF_INET_host then s
          else case their_host E sn of
            None \<Rightarrow> send_reject_packet E typ sn MACHINE_UNKNOWN QUIRK_NONE s
          | Some theirhost \<Rightarrow>
              (case rationalize_packet (pk_buf p) (pk_len p) sn of
                 None \<Rightarrow> send_reject_packet E typ sn UNKNOWN_REQUEST QUIRK_NONE s
               | Some (q, m) \<Rightarrow>
                   if m_vers m \<noteq> TALK_VERSION then send_reject_packet E (m_type m) sn BADVERSION QUIRK_NONE s
                   else if m_type m = LEAVE_INVITE \<and> \<not> is_local_address E (pe_addr sn)
                   then send_reject_packet E (m_type m) sn MACHINE_UNKNOWN q s
                   else
                     let m1 = m\<lparr>m_ctl_addr := (m_ctl_addr m)
                                  \<lparr>ta_family := AF_INET_host, ta_port := pe_port sn, ta_addr := pe_addr sn\<rparr>\<rparr>;
                         m2 = (if m_type m = LEAVE_INVITE
                               then m1\<lparr>m_addr := (m_addr m1)\<lparr>ta_family := AF_INET_host\<rparr>\<rparr>
                               else m1\<lparr>m_addr := zero_addr\<rparr>)
                     in if m_type m = LEAVE_INVITE \<and> \<not> is_local_address E (ta_addr (m_addr m2))
                        then send_reject_packet E (m_type m) sn BADADDR q s
                        else let (rp, s1) = process_request E m2 rp0 theirhost s
                             in send_packet E rp sn q s1))"

text \<open>The alarm every 30 seconds: whether the daemon goes away.\<close>

definition timeout :: "talk_env \<Rightarrow> talkd \<Rightarrow> bool" where
  "timeout E s \<longleftrightarrow> now E - lastmsgtime s \<ge> MAXIDLE"

text \<open>A run of the daemon: packets as they come, each in the system as it then is.\<close>

definition serve :: "(talk_env \<times> talk_packet option \<times> ctl_response) list \<Rightarrow> talkd \<Rightarrow> talkd" where
  "serve ins s = fold (\<lambda>(E, p, rp). do_one_packet E p rp) ins s"

definition talkd_start :: talkd where
  "talkd_start = \<lparr>table = [], current_id = 0, freed_reads = 0, written = [], replies = [], lastmsgtime = 0\<rparr>"

end
