(* ===== verification/Talk_Invariant.thy ===== *)
theory Talk_Invariant
  imports Talk_Server
begin

text \<open>
  What the operations on the table do to a search in it, the contract of the table as a store under
  keys, the identifiers it gives out, and what every packet keeps of the daemon's state.
\<close>

section \<open>Searching a table that is pruned\<close>

lemma expire_from_filter:
  "expire_from t es = (filter (\<lambda>e. t - te_time e \<le> MAX_LIFE) es, length (filter (\<lambda>e. t - te_time e > MAX_LIFE) es))"
  by (induction es) (auto simp: split_beta)

lemma table_expire [simp]: "table (expire t s) = filter (\<lambda>e. t - te_time e \<le> MAX_LIFE) (table s)"
  by (simp add: expire_def expire_from_filter split_beta)

lemma expire_frame [simp]:
  "current_id (expire t s) = current_id s" "written (expire t s) = written s"
  "replies (expire t s) = replies s" "lastmsgtime (expire t s) = lastmsgtime s"
  by (simp_all add: expire_def split_beta)

lemma find_filter: "find P es = Some e \<Longrightarrow> Q e \<Longrightarrow> find P (filter Q es) = Some e"
  by (induction es) (auto split: if_splits)

lemma position_Some:
  "position P xs = Some i \<Longrightarrow> i < length xs \<and> P (xs ! i) \<and> (\<forall>j<i. \<not> P (xs ! j))"
  by (induction xs arbitrary: i) (auto simp: less_Suc_eq_0_disj split: if_splits)

lemma position_None: "position P xs = None \<longleftrightarrow> (\<forall>x\<in>set xs. \<not> P x)"
  by (induction xs) auto

lemma set_deleteit: "set (deleteit i t) \<subseteq> set t"
  by (auto simp: deleteit_def dest: in_set_takeD in_set_dropD)

lemma distinct_deleteit: "distinct (map f t) \<Longrightarrow> distinct (map f (deleteit i t))"
proof (induction t arbitrary: i)
  case (Cons x t)
  show ?case
  proof (cases i)
    case (Suc k)
    have "deleteit i (x # t) = x # deleteit k t" using Suc by (simp add: deleteit_def)
    then show ?thesis using Cons set_deleteit[of k t] by auto
  qed (use Cons.prems in \<open>simp add: deleteit_def\<close>)
qed (simp add: deleteit_def)

lemma find_deleteit: "find P es = Some e \<Longrightarrow> i < length es \<Longrightarrow> es ! i \<noteq> e \<Longrightarrow> find P (deleteit i es) = Some e"
proof (induction es arbitrary: i)
  case (Cons x es)
  then show ?case
    by (cases i) (auto simp: deleteit_def split: if_splits)
qed simp

lemma find_update:
  "find P es = Some e \<Longrightarrow> i < length es \<Longrightarrow> P x = P (es ! i) \<Longrightarrow>
   find P (es[i := x]) = Some e \<or> find P (es[i := x]) = Some x \<and> es ! i = e"
proof (induction es arbitrary: i)
  case (Cons y es)
  then show ?case
    by (cases i) (auto split: if_splits)
qed simp

section \<open>The table as a store\<close>

text \<open>A request is repeated by one with the same names, type and process.\<close>

definition entry_key :: "table_entry \<Rightarrow> u8 list \<times> u8 list \<times> u8 \<times> u32" where
  "entry_key e = (c_str (m_r_name (te_request e)), c_str (m_l_name (te_request e)),
     m_type (te_request e), m_pid (te_request e))"

definition msg_key :: "ctl_msg \<Rightarrow> u8 list \<times> u8 list \<times> u8 \<times> u32" where
  "msg_key m = (c_str (m_r_name m), c_str (m_l_name m), m_type m, m_pid m)"

lemma repeats_key: "repeats m e \<longleftrightarrow> entry_key e = msg_key m"
  by (auto simp: repeats_def entry_key_def msg_key_def)

definition entry_of :: "table_entry list \<Rightarrow> u8 list \<times> u8 list \<times> u8 \<times> u32 \<Rightarrow> table_entry option" where
  "entry_of t k = find (\<lambda>e. entry_key e = k) t"

definition add_entry :: "u8 list \<times> u8 list \<times> u8 \<times> u32 \<Rightarrow> table_entry \<Rightarrow> table_entry list \<Rightarrow> table_entry list" where
  "add_entry k e t = e # t"

interpretation requests: keyed_store entry_of add_entry "\<lambda>_. True" "\<lambda>k e t. entry_key e = k"
  by unfold_locales (auto simp: entry_of_def add_entry_def)

section \<open>Identifiers\<close>

definition id_ok :: "int \<Rightarrow> bool" where
  "id_ok i \<longleftrightarrow> 0 \<le> i \<and> i < MAX_ID"

lemma new_id_range: "id_ok (current_id s) \<Longrightarrow> 1 \<le> fst (new_id s) \<and> fst (new_id s) < MAX_ID"
  by (auto simp: new_id_def id_ok_def MAX_ID_def Let_def)

lemma new_id_simps [simp]:
  "current_id (snd (new_id s)) = fst (new_id s)" "table (snd (new_id s)) = table s"
  "written (snd (new_id s)) = written s" "freed_reads (snd (new_id s)) = freed_reads s"
  by (simp_all add: new_id_def Let_def)

text \<open>The identifier after \<open>n\<close> more.\<close>

fun ids_after :: "nat \<Rightarrow> talkd \<Rightarrow> int list" where
  "ids_after 0 s = []"
| "ids_after (Suc n) s = (let (i, t) = new_id s in i # ids_after n t)"

lemma new_id_next:
  "0 \<le> current_id s \<Longrightarrow> current_id s < MAX_ID \<Longrightarrow> fst (new_id s) = current_id s mod (MAX_ID - 1) + 1"
  by (cases "current_id s = MAX_ID - 1") (simp_all add: new_id_def MAX_ID_def Let_def)

lemma ids_after_nth:
  "0 \<le> current_id s \<Longrightarrow> current_id s < MAX_ID \<Longrightarrow> k < n \<Longrightarrow>
   ids_after n s ! k = (current_id s + int k) mod (MAX_ID - 1) + 1"
proof (induction n arbitrary: s k)
  case (Suc n)
  let ?t = "snd (new_id s)"
  have t: "current_id ?t = current_id s mod (MAX_ID - 1) + 1"
    using new_id_next[OF Suc.prems(1,2)] by simp
  have t': "0 \<le> current_id ?t" "current_id ?t < MAX_ID"
    unfolding t using pos_mod_bound[of "MAX_ID - 1" "current_id s"] pos_mod_sign[of "MAX_ID - 1" "current_id s"]
    by (simp_all add: MAX_ID_def)
  show ?case
  proof (cases k)
    case 0
    then show ?thesis using new_id_next[OF Suc.prems(1,2)] by (simp add: split_beta)
  next
    case (Suc j)
    have "ids_after n ?t ! j = (current_id ?t + int j) mod (MAX_ID - 1) + 1"
      using Suc.IH[OF t'] Suc.prems(3) Suc by simp
    also have "\<dots> = (current_id s + int k) mod (MAX_ID - 1) + 1"
      unfolding t Suc by (simp only: add.assoc mod_add_left_eq) (simp add: add.commute)
    finally show ?thesis using Suc by (simp add: split_beta)
  qed
qed simp

section \<open>An invitation stays\<close>

definition invited :: "ctl_msg \<Rightarrow> talk_addr \<Rightarrow> u32 \<Rightarrow> int \<Rightarrow> table_entry list \<Rightarrow> bool" where
  "invited look a i t0 t \<longleftrightarrow>
     (\<exists>e. find (matches look) t = Some e \<and> m_addr (te_request e) = a \<and> m_id (te_request e) = i \<and>
          t0 \<le> te_time e)"

lemma invited_filter: "invited look a i t0 t \<Longrightarrow> u - t0 \<le> MAX_LIFE \<Longrightarrow>
  invited look a i t0 (filter (\<lambda>e. u - te_time e \<le> MAX_LIFE) t)"
  unfolding invited_def by (elim exE conjE) (rule exI, intro conjI find_filter, assumption, auto)

lemma invited_Cons: "\<not> matches look e \<Longrightarrow> invited look a i t0 (e # t) = invited look a i t0 t"
  by (simp add: invited_def)

lemma matches_touch [simp]: "matches look (e\<lparr>te_time := u\<rparr>) = matches look e"
  by (simp add: matches_def)

lemma invited_touch:
  "invited look a i t0 t \<Longrightarrow> k < length t \<Longrightarrow> t0 \<le> u \<Longrightarrow>
   invited look a i t0 (t[k := (t ! k)\<lparr>te_time := u\<rparr>])"
  unfolding invited_def using find_update[of "matches look" t _ k "(t ! k)\<lparr>te_time := u\<rparr>"] by fastforce

lemma invited_renumber:
  assumes "invited look a i t0 t" "k < length t" "\<not> matches look (t ! k)"
  shows "invited look a i t0 (t[k := (t ! k)\<lparr>te_request := (te_request (t ! k))\<lparr>m_id := j\<rparr>\<rparr>])"
proof -
  obtain e where e: "find (matches look) t = Some e" "m_addr (te_request e) = a"
    "m_id (te_request e) = i" "t0 \<le> te_time e"
    using assms(1) by (auto simp: invited_def)
  moreover have "t ! k \<noteq> e" using e(1) assms(3) find_Some_set by fastforce
  moreover have "matches look ((t ! k)\<lparr>te_request := (te_request (t ! k))\<lparr>m_id := j\<rparr>\<rparr>) = matches look (t ! k)"
    by (simp add: matches_def)
  ultimately show ?thesis
    using find_update[OF e(1) assms(2), of "(t ! k)\<lparr>te_request := (te_request (t ! k))\<lparr>m_id := j\<rparr>\<rparr>"]
    by (auto simp: invited_def)
qed

lemma invited_deleteit:
  "invited look a i t0 t \<Longrightarrow> k < length t \<Longrightarrow> m_id (te_request (t ! k)) \<noteq> i \<Longrightarrow>
   invited look a i t0 (deleteit k t)"
  unfolding invited_def using find_deleteit[of "matches look" t] by fastforce

lemma announce_frame [simp]:
  "table (snd (announce E m h s)) = table s" "current_id (snd (announce E m h s)) = current_id s"
  "freed_reads (snd (announce E m h s)) = freed_reads s"
  by (simp_all add: announce_def Let_def split_beta split: child.split)

lemma find_request_cases:
  assumes "find_request u m s = (r, s1)"
  obtains "r = None" "s1 = expire u s" "\<forall>e\<in>set (table s1). \<not> repeats m e"
  | k where "r = Some k" "k < length (table (expire u s))" "repeats m (table (expire u s) ! k)"
    "s1 = (expire u s)\<lparr>table := (table (expire u s))
            [k := (table (expire u s) ! k)\<lparr>te_time := u\<rparr>]\<rparr>"
proof (cases "position (repeats m) (table (expire u s))")
  case None
  then have "r = None" "s1 = expire u s"
    using assms by (simp_all add: find_request_def Let_def)
  moreover have "\<forall>e\<in>set (table s1). \<not> repeats m e"
    using None position_None[of "repeats m" "table (expire u s)"] \<open>s1 = _\<close> by simp
  ultimately show ?thesis by (rule that(1))
next
  case (Some k)
  then have "r = Some k" "s1 = (expire u s)\<lparr>table := (table (expire u s))
      [k := (table (expire u s) ! k)\<lparr>te_time := u\<rparr>]\<rparr>"
    using assms by (simp_all add: find_request_def Let_def)
  then show ?thesis using position_Some[OF Some] by (intro that(2)) auto
qed

lemma find_request_invited:
  assumes "find_request u m s = (r, s1)" "invited look a i t0 (table s)" "u - t0 \<le> MAX_LIFE" "t0 \<le> u"
  shows "invited look a i t0 (table s1)"
  using assms(1)
proof (cases rule: find_request_cases)
  case 1
  then show ?thesis using invited_filter[OF assms(2,3)] by simp
next
  case (2 k)
  then show ?thesis using invited_touch[OF invited_filter[OF assms(2,3)] _ assms(4)] by simp
qed

text \<open>The names of a request are those the daemon makes of its two arrays.\<close>

definition callee :: "ctl_msg \<Rightarrow> u8 list" where
  "callee m = c_str (terminate NAME_SIZE (m_r_name m))"

definition caller :: "ctl_msg \<Rightarrow> u8 list" where
  "caller m = c_str (terminate NAME_SIZE (m_l_name m))"

definition answers_to :: "ctl_msg \<Rightarrow> ctl_msg \<Rightarrow> bool" where
  "answers_to look m \<longleftrightarrow> caller look = callee m \<and> callee look = caller m"

text \<open>The request as the handlers of the single types see it.\<close>

definition as_received :: "ctl_msg \<Rightarrow> ctl_msg" where
  "as_received m = m\<lparr>m_l_name := terminate NAME_SIZE (m_l_name m), m_r_name := terminate NAME_SIZE (m_r_name m),
     m_r_tty := terminate TTY_SIZE (m_r_tty m), m_id := ntohl (m_id m), m_pid := ntohl (m_pid m)\<rparr>"

definition prepared :: "ctl_msg \<Rightarrow> ctl_response \<Rightarrow> ctl_response" where
  "prepared m rp = rp\<lparr>rp_vers := TALK_VERSION, rp_type := m_type m, rp_id := htonl 0\<rparr>"

lemma matches_as_received:
  "matches (as_received look) \<lparr>te_request = (as_received m)\<lparr>m_id := j\<rparr>, te_time = t\<rparr> \<longleftrightarrow>
   answers_to look m \<and> m_type m = LEAVE_INVITE"
  by (auto simp: matches_def as_received_def answers_to_def callee_def caller_def)

lemma process_request_split:
  "process_request E m rp h s =
     (if m_vers m \<noteq> TALK_VERSION then ((prepared m rp)\<lparr>rp_answer := BADVERSION\<rparr>, s)
      else if m_type m = ANNOUNCE then do_announce E (as_received m) (prepared m rp) h s
      else if m_type m = LEAVE_INVITE then
        (case find_request (now E) (as_received m) s of
           (Some i, s1) \<Rightarrow> ((prepared m rp)\<lparr>rp_id := htonl (m_id (te_request (table s1 ! i))),
                              rp_answer := SUCCESS\<rparr>, s1)
         | (None, s1) \<Rightarrow> snd (insert_table (now E) (as_received m) (prepared m rp) s1))
      else if m_type m = LOOK_UP then
        (case find_match (now E) (as_received m) s of
           (Some r, s1) \<Rightarrow> ((prepared m rp)\<lparr>rp_id := htonl (m_id r),
               rp_addr := (m_addr r)\<lparr>ta_family := htons (ta_family (m_addr r))\<rparr>, rp_answer := SUCCESS\<rparr>, s1)
         | (None, s1) \<Rightarrow> ((prepared m rp)\<lparr>rp_answer := NOT_HERE\<rparr>, s1))
      else if m_type m = DELETE then
        (let (a, s1) = delete_invite (ntohl (m_id m)) s in ((prepared m rp)\<lparr>rp_answer := a\<rparr>, s1))
      else ((prepared m rp)\<lparr>rp_answer := UNKNOWN_REQUEST\<rparr>, s))"
  unfolding process_request_def as_received_def prepared_def Let_def
  by (auto split: option.splits prod.splits)

lemma table_insert:
  "insert_table u m rp s = (m1, rp1, t) \<Longrightarrow>
   m1 = m\<lparr>m_id := word_of_int (fst (new_id s))\<rparr> \<and> rp1 = rp\<lparr>rp_id := htonl (m_id m1)\<rparr> \<and>
   table t = \<lparr>te_request = m1, te_time = u\<rparr> # table s \<and> current_id t = fst (new_id s) \<and>
   written t = written s"
  by (auto simp: insert_table_def Let_def split_beta)

text \<open>What \<open>do_announce\<close> makes of the table, whichever way it goes.\<close>

lemma do_announce_table:
  assumes "do_announce E m rp h s = (rp', t)"
  obtains "t = s"
  | tty u where "find_request (now E) (m\<lparr>m_r_tty := tty\<rparr>) s = (None, u)"
      "table t = \<lparr>te_request = m\<lparr>m_r_tty := tty, m_id := word_of_int (fst (new_id u))\<rparr>, te_time = now E\<rparr> # table u"
      "current_id t = fst (new_id u)"
  | tty k u where "find_request (now E) (m\<lparr>m_r_tty := tty\<rparr>) s = (Some k, u)"
      "table t = (table u)[k := (table u ! k)\<lparr>te_request :=
         (te_request (table u ! k))\<lparr>m_id := word_of_int (fst (new_id u))\<rparr>\<rparr>]"
      "current_id t = fst (new_id u)"
  | tty k where "find_request (now E) (m\<lparr>m_r_tty := tty\<rparr>) s = (Some k, t)"
proof -
  obtain result tty where f: "find_user E (m_r_name m) (m_r_tty m) = (result, tty)" by fastforce
  obtain q u where r: "find_request (now E) (m\<lparr>m_r_tty := tty\<rparr>) s = (q, u)" by fastforce
  show ?thesis
  proof (cases "result = SUCCESS")
    case False
    then show ?thesis using assms f that(1) by (simp add: do_announce_def)
  next
    case True
    show ?thesis
    proof (cases q)
      case None
      obtain m1 rp1 s2 where i: "insert_table (now E) (m\<lparr>m_r_tty := tty\<rparr>) rp u = (m1, rp1, s2)"
        by (metis prod_cases3)
      have "t = snd (announce E m1 h s2)"
        using assms f r i True None by (auto simp: do_announce_def Let_def split_beta)
      then show ?thesis using that(2) r None table_insert[OF i] by simp
    next
      case (Some k)
      let ?old = "m_id (te_request (table u ! k))"
      show ?thesis
      proof (cases "m_id m > ?old \<or> byte_swap32 (byte_swap32 (m_id m) - 1) = ?old")
        case re: True
        then show ?thesis
          using that(3)[of tty k u] assms f r True Some
          by (auto simp: do_announce_def Let_def split_beta)
      next
        case False
        then show ?thesis
          using that(4)[of tty k] assms f r True Some by (auto simp: do_announce_def Let_def)
      qed
    qed
  qed
qed

lemma process_request_invited:
  assumes inv: "invited (as_received look) a i t0 (table s)"
    and time: "now E - t0 \<le> MAX_LIFE" "t0 \<le> now E"
    and other: "m_type m = DELETE \<Longrightarrow> ntohl (m_id m) \<noteq> i" "m_type m = LEAVE_INVITE \<Longrightarrow> \<not> answers_to look m"
    and run: "process_request E m rp h s = (rp', t)"
  shows "invited (as_received look) a i t0 (table t)"
proof -
  have types [simp]: "ANNOUNCE \<noteq> LEAVE_INVITE" "LEAVE_INVITE \<noteq> ANNOUNCE" by (simp_all add: talk_types)
  consider "t = s" | (ann) "m_type m = ANNOUNCE" "do_announce E (as_received m) (prepared m rp) h s = (rp', t)"
    | (leave) "m_type m = LEAVE_INVITE" "(case find_request (now E) (as_received m) s of
           (Some i, s1) \<Rightarrow> ((prepared m rp)\<lparr>rp_id := htonl (m_id (te_request (table s1 ! i))),
                              rp_answer := SUCCESS\<rparr>, s1)
         | (None, s1) \<Rightarrow> snd (insert_table (now E) (as_received m) (prepared m rp) s1)) = (rp', t)"
    | (look) "t = expire (now E) s"
    | (del) "m_type m = DELETE" "delete_invite (ntohl (m_id m)) s = (rp_answer rp', t)"
    using run unfolding process_request_split
    by (auto simp: find_match_def Let_def split: if_splits option.splits prod.splits)
  then show ?thesis
  proof cases
    case ann
    from ann(2) show ?thesis
    proof (cases rule: do_announce_table)
      case 1
      then show ?thesis using inv by simp
    next
      case (2 tty u)
      have "\<not> matches (as_received look) \<lparr>te_request = (as_received m)\<lparr>m_r_tty := tty, m_id := w\<rparr>, te_time = now E\<rparr>" for w
        using ann(1) by (simp add: matches_def as_received_def)
      then show ?thesis
        using 2 find_request_invited[OF 2(1) inv time] by (simp add: invited_Cons)
    next
      case (3 tty k u)
      from 3(1) show ?thesis
      proof (cases rule: find_request_cases)
        case (2 k')
        then have "k < length (table u)" "\<not> matches (as_received look) (table u ! k)"
          using ann(1) by (auto simp: matches_def repeats_def as_received_def)
        then show ?thesis
          using 3 invited_renumber[OF find_request_invited[OF 3(1) inv time]] by simp
      qed simp
    next
      case (4 tty k)
      then show ?thesis using find_request_invited[OF 4 inv time] by simp
    qed
  next
    case leave
    obtain q u where r: "find_request (now E) (as_received m) s = (q, u)" by fastforce
    have u: "invited (as_received look) a i t0 (table u)" using find_request_invited[OF r inv time] .
    show ?thesis
    proof (cases q)
      case None
      obtain m1 rp1 s2 where ins: "insert_table (now E) (as_received m) (prepared m rp) u = (m1, rp1, s2)"
        by (metis prod_cases3)
      have "\<not> matches (as_received look) \<lparr>te_request = m1, te_time = now E\<rparr>"
        using table_insert[OF ins] matches_as_received[of look _ m] other(2)[OF leave(1)] by simp
      then show ?thesis
        using leave(2) r None ins table_insert[OF ins] u by (simp add: invited_Cons)
    next
      case (Some k)
      then show ?thesis using leave(2) r u by simp
    qed
  next
    case look
    then show ?thesis using invited_filter[OF inv time(1)] by simp
  next
    case del
    show ?thesis
    proof (cases "position (\<lambda>e. m_id (te_request e) = ntohl (m_id m)) (table s)")
      case None
      then show ?thesis using del inv by (simp add: delete_invite_def)
    next
      case (Some k)
      then have "k < length (table s)" "m_id (te_request (table s ! k)) \<noteq> i"
        using position_Some[OF Some] other(1)[OF del(1)] by auto
      then show ?thesis using del Some invited_deleteit[OF inv] by (auto simp: delete_invite_def)
    qed
  qed (use inv in simp)
qed

section \<open>What every packet keeps\<close>

definition talk_entry_ok :: "(u32 \<Rightarrow> bool) \<Rightarrow> table_entry \<Rightarrow> bool" where
  "talk_entry_ok L e \<longleftrightarrow>
     (\<exists>i. 1 \<le> i \<and> i < MAX_ID \<and> m_id (te_request e) = word_of_int i) \<and>
     (m_type (te_request e) = ANNOUNCE \<or>
      m_type (te_request e) = LEAVE_INVITE \<and> L (ta_addr (m_addr (te_request e))))"

definition talk_ok :: "(u32 \<Rightarrow> bool) \<Rightarrow> talkd \<Rightarrow> bool" where
  "talk_ok L s \<longleftrightarrow>
     id_ok (current_id s) \<and> (\<forall>e\<in>set (table s). talk_entry_ok L e) \<and> distinct (map entry_key (table s))"

lemma talk_okI:
  "id_ok (current_id s) \<Longrightarrow> (\<And>e. e \<in> set (table s) \<Longrightarrow> talk_entry_ok L e) \<Longrightarrow>
   distinct (map entry_key (table s)) \<Longrightarrow> talk_ok L s"
  by (simp add: talk_ok_def)

lemma talk_ok_expire: "talk_ok L s \<Longrightarrow> talk_ok L (expire u s)"
  by (auto simp: talk_ok_def distinct_map_filter)

lemma entry_key_simps [simp]:
  "entry_key (e\<lparr>te_time := u\<rparr>) = entry_key e"
  "entry_key (e\<lparr>te_request := (te_request e)\<lparr>m_id := j\<rparr>\<rparr>) = entry_key e"
  by (simp_all add: entry_key_def)

lemma talk_entry_ok_simps [simp]:
  "talk_entry_ok L (e\<lparr>te_time := u\<rparr>) = talk_entry_ok L e"
  by (simp add: talk_entry_ok_def)

lemma talk_entry_ok_renumber:
  "talk_entry_ok L e \<Longrightarrow> 1 \<le> i \<Longrightarrow> i < MAX_ID \<Longrightarrow>
   talk_entry_ok L (e\<lparr>te_request := (te_request e)\<lparr>m_id := word_of_int i\<rparr>\<rparr>)"
  by (auto simp: talk_entry_ok_def)

lemma keys_update: "k < length t \<Longrightarrow> entry_key x = entry_key (t ! k) \<Longrightarrow> map entry_key (t[k := x]) = map entry_key t"
  by (rule nth_equalityI) (auto simp: nth_list_update)

lemma talk_ok_update:
  "talk_ok L s \<Longrightarrow> k < length (table s) \<Longrightarrow> entry_key x = entry_key (table s ! k) \<Longrightarrow> talk_entry_ok L x \<Longrightarrow>
   table t = (table s)[k := x] \<Longrightarrow> id_ok (current_id t) \<Longrightarrow> talk_ok L t"
  by (auto simp: talk_ok_def keys_update dest: set_update_subset_insert[THEN subsetD])

lemma talk_ok_nth: "talk_ok L s \<Longrightarrow> k < length (table s) \<Longrightarrow> talk_entry_ok L (table s ! k)"
  by (simp add: talk_ok_def)

lemma find_request_ok:
  assumes "find_request u m s = (r, s1)" "talk_ok L s"
  shows "talk_ok L s1 \<and> (r = None \<longrightarrow> msg_key m \<notin> entry_key ` set (table s1))
    \<and> (\<forall>k. r = Some k \<longrightarrow> k < length (table s1))"
  using assms(1)
proof (cases rule: find_request_cases)
  case 1
  then show ?thesis using talk_ok_expire[OF assms(2)] by (auto simp: repeats_key)
next
  case (2 k)
  have ok: "talk_ok L (expire u s)" using talk_ok_expire[OF assms(2)] .
  have "talk_entry_ok L (table (expire u s) ! k)" using talk_ok_nth[OF ok 2(2)] .
  then have "talk_ok L s1"
    using 2 ok talk_ok_update[OF ok 2(2), of "(table (expire u s) ! k)\<lparr>te_time := u\<rparr>" s1]
    by (simp add: talk_ok_def)
  then show ?thesis using 2 by simp
qed

lemma id_ok_new: "id_ok (current_id s) \<Longrightarrow> id_ok (fst (new_id s))"
  using new_id_range[of s] by (simp add: id_ok_def)

lemma talk_ok_insert:
  assumes ok: "talk_ok L s" and new: "msg_key m \<notin> entry_key ` set (table s)"
    and kind: "m_type m = ANNOUNCE \<or> m_type m = LEAVE_INVITE \<and> L (ta_addr (m_addr m))"
    and t: "table t = \<lparr>te_request = m\<lparr>m_id := word_of_int (fst (new_id s))\<rparr>, te_time = u\<rparr> # table s"
      "current_id t = fst (new_id s)"
  shows "talk_ok L t"
proof (rule talk_okI)
  have ids: "1 \<le> fst (new_id s)" "fst (new_id s) < MAX_ID"
    using ok new_id_range[of s] by (auto simp: talk_ok_def)
  then show "talk_entry_ok L e" if "e \<in> set (table t)" for e
    using that ok kind t(1) by (auto simp: talk_entry_ok_def talk_ok_def)
  show "id_ok (current_id t)" using ids t(2) by (simp add: id_ok_def)
  show "distinct (map entry_key (table t))"
    using ok new t(1) by (simp add: talk_ok_def entry_key_def msg_key_def)
qed

lemma process_request_ok:
  assumes ok: "talk_ok L s" and run: "process_request E m rp h s = (rp', t)"
    and loc: "m_type m = LEAVE_INVITE \<Longrightarrow> L (ta_addr (m_addr m))"
  shows "talk_ok L t"
proof -
  consider "t = s" | (ann) "m_type m = ANNOUNCE" "do_announce E (as_received m) (prepared m rp) h s = (rp', t)"
    | (leave) k where "find_request (now E) (as_received m) s = (Some k, t)"
    | (new) u where "m_type m = LEAVE_INVITE" "find_request (now E) (as_received m) s = (None, u)"
        "snd (insert_table (now E) (as_received m) (prepared m rp) u) = (rp', t)"
    | (look) "t = expire (now E) s"
    | (del) "delete_invite (ntohl (m_id m)) s = (rp_answer rp', t)"
    using run unfolding process_request_split
    by (auto simp: find_match_def Let_def split: if_splits option.splits prod.splits)
  then show ?thesis
  proof cases
    case ann
    from ann(2) show ?thesis
    proof (cases rule: do_announce_table)
      case (2 tty u)
      have "msg_key ((as_received m)\<lparr>m_r_tty := tty\<rparr>) \<notin> entry_key ` set (table u)"
        using find_request_ok[OF 2(1) ok] by simp
      then show ?thesis
        using talk_ok_insert[of L u "(as_received m)\<lparr>m_r_tty := tty\<rparr>" t] find_request_ok[OF 2(1) ok] 2 ann(1)
        by (simp add: as_received_def)
    next
      case (3 tty k u)
      then have u: "talk_ok L u" "k < length (table u)" using find_request_ok[OF 3(1) ok] by simp_all
      then have "talk_entry_ok L (table u ! k)" by (rule talk_ok_nth)
      then show ?thesis
        using talk_ok_update[OF u _ talk_entry_ok_renumber 3(2)] u(1) new_id_range[of u] id_ok_new[of u] 3(3)
        by (simp add: talk_ok_def)
    next
      case (4 tty k)
      then show ?thesis using find_request_ok[OF 4 ok] by simp
    qed (use ok in simp)
  next
    case (leave k)
    then show ?thesis using find_request_ok[OF leave ok] by simp
  next
    case (new u)
    then obtain m1 where ins: "insert_table (now E) (as_received m) (prepared m rp) u = (m1, rp', t)"
      by (metis prod.collapse)
    have "L (ta_addr (m_addr (as_received m)))" "m_type (as_received m) = LEAVE_INVITE"
      using loc new(1) by (simp_all add: as_received_def)
    then show ?thesis
      using talk_ok_insert[of L u "as_received m" t "now E"] find_request_ok[OF new(2) ok] table_insert[OF ins]
      by auto
  next
    case del
    then show ?thesis
      using ok set_deleteit by (fastforce simp: delete_invite_def talk_ok_def distinct_deleteit split: option.splits)
  qed (use ok talk_ok_expire in auto)
qed

lemma send_packet_frame [simp]:
  "table (send_packet E r sn q s) = table s" "current_id (send_packet E r sn q s) = current_id s"
  "written (send_packet E r sn q s) = written s"
  "table (send_reject_packet E ty sn c q s) = table s"
  "current_id (send_reject_packet E ty sn c q s) = current_id s"
  "written (send_reject_packet E ty sn c q s) = written s"
  by (simp_all add: send_packet_def send_reject_packet_def)

text \<open>A packet is rejected, or its request is processed with an address of this host in it.\<close>

lemma do_one_packet_cases:
  obtains "table (do_one_packet E p rp0 s) = table s" "current_id (do_one_packet E p rp0 s) = current_id s"
      "written (do_one_packet E p rp0 s) = written s"
  | m h rp t where "process_request E m rp0 h (s\<lparr>lastmsgtime := now E\<rparr>) = (rp, t)"
      "table (do_one_packet E p rp0 s) = table t" "current_id (do_one_packet E p rp0 s) = current_id t"
      "written (do_one_packet E p rp0 s) = written t"
      "m_type m = LEAVE_INVITE \<longrightarrow> is_local_address E (ta_addr (m_addr m))"
proof (cases p)
  case None
  then show ?thesis using that(1) by (simp add: do_one_packet_def)
next
  case (Some pk)
  let ?s = "s\<lparr>lastmsgtime := now E\<rparr>" and ?sn = "pk_from pk"
  show ?thesis
  proof (cases "\<not> pk_addr_ok pk \<or> pe_family ?sn \<noteq> AF_INET_host \<or> their_host E ?sn = None \<or>
      rationalize_packet (pk_buf pk) (pk_len pk) ?sn = None")
    case True
    then show ?thesis
      using that(1) Some by (auto simp: do_one_packet_def Let_def split: option.splits)
  next
    case False
    then obtain h q m where h: "their_host E ?sn = Some h"
      "rationalize_packet (pk_buf pk) (pk_len pk) ?sn = Some (q, m)" by force
    define m1 where "m1 = m\<lparr>m_ctl_addr := (m_ctl_addr m)
      \<lparr>ta_family := AF_INET_host, ta_port := pe_port ?sn, ta_addr := pe_addr ?sn\<rparr>\<rparr>"
    define m2 where "m2 = (if m_type m = LEAVE_INVITE
      then m1\<lparr>m_addr := (m_addr m1)\<lparr>ta_family := AF_INET_host\<rparr>\<rparr> else m1\<lparr>m_addr := zero_addr\<rparr>)"
    obtain rp t where run: "process_request E m2 rp0 h ?s = (rp, t)" by fastforce
    have ty: "m_type m2 = m_type m" by (simp add: m2_def m1_def)
    have "do_one_packet E p rp0 s =
      (if m_vers m \<noteq> TALK_VERSION then send_reject_packet E (m_type m) ?sn BADVERSION QUIRK_NONE ?s
       else if m_type m = LEAVE_INVITE \<and> \<not> is_local_address E (pe_addr ?sn)
       then send_reject_packet E (m_type m) ?sn MACHINE_UNKNOWN q ?s
       else if m_type m = LEAVE_INVITE \<and> \<not> is_local_address E (ta_addr (m_addr m2))
       then send_reject_packet E (m_type m) ?sn BADADDR q ?s
       else send_packet E rp ?sn q t)"
      using False h run[unfolded m2_def m1_def] by (simp add: do_one_packet_def Some Let_def m1_def m2_def)
    then show ?thesis
      using that(1) that(2)[OF run] ty by (auto split: if_splits)
  qed
qed

lemma do_one_packet_ok:
  "talk_ok (is_local_address E) s \<Longrightarrow> talk_ok (is_local_address E) (do_one_packet E p rp0 s)"
proof (cases rule: do_one_packet_cases[of E p rp0 s])
  case (2 m h rp t)
  assume "talk_ok (is_local_address E) s"
  then have "talk_ok (is_local_address E) (s\<lparr>lastmsgtime := now E\<rparr>)" by (simp add: talk_ok_def)
  then have "talk_ok (is_local_address E) t" using process_request_ok 2(1,5) by blast
  then show ?thesis using 2 by (simp add: talk_ok_def)
qed (simp add: talk_ok_def)

section \<open>Messages on terminals\<close>

definition quiet_byte :: "u8 \<Rightarrow> bool" where
  "quiet_byte c \<longleftrightarrow> c \<in> {7, 10, 13} \<or> 32 \<le> c \<and> c < 128"

lemma sint_u8: "sint (c :: u8) = (uint c + 128) mod 256 - 128"
  by (simp add: sint_uint signed_take_bit_eq_take_bit_shift take_bit_eq_mod)

lemma quiet_safechar: "quiet_byte (safechar c)"
proof (cases "sint c > 127 \<or> sint c < 32")
  case False
  have u: "0 \<le> uint c" "uint c < 256" using uint_lt2p[of c] by simp_all
  have "(uint c + 128) mod 256 = (uint c - 128) mod 256"
    using mod_add_self2[of "uint c - 128" 256] by (simp add: add.commute)
  with False u have "32 \<le> uint c \<and> uint c < 128"
    by (cases "uint c < 128") (simp_all add: sint_u8)
  then have "32 \<le> c \<and> c < 128" by (simp add: word_le_def word_less_def)
  then show ?thesis using False by (simp add: safechar_def quiet_byte_def Let_def)
qed (auto simp: safechar_def quiet_byte_def Let_def)

lemma foldl_max: "foldl max (a :: nat) xs \<le> b \<longleftrightarrow> a \<le> b \<and> (\<forall>x\<in>set xs. x \<le> b)"
  by (induction xs arbitrary: a) auto

lemma foldl_max_ge: "x \<in> set xs \<Longrightarrow> x \<le> foldl max (a :: nat) xs"
  using foldl_max[of a xs "foldl max a xs"] by simp

lemma c_str_length: "length (c_str cs) \<le> length cs"
  by (simp add: c_str_def length_takeWhile_le)

lemma mesg_lines_length: "l \<in> set (mesg_lines E m remote) \<Longrightarrow> length l \<le> 119"
proof -
  assume "l \<in> set (mesg_lines E m remote)"
  then obtain cs where "l = c_str (snprint N_CHARS cs)" by (auto simp: mesg_lines_def)
  then show ?thesis
    using c_str_length[of "snprint N_CHARS cs"] by (simp add: snprint_def N_CHARS_def)
qed

lemma print_mesg_length: "length (print_mesg E m remote) \<le> 618"
proof -
  let ?ls = "mesg_lines E m remote"
  let ?max = "foldl max 0 (map length ?ls)"
  have max: "?max \<le> 119" using mesg_lines_length by (auto simp: foldl_max)
  have one: "length (mesg_line ?max l) = ?max + 4" if "l \<in> set ?ls" for l
    using foldl_max_ge[of "length l" "map length ?ls" 0] that by (simp add: mesg_line_def)
  have "length (concat (map (mesg_line ?max) ls)) = (?max + 4) * length ls" if "set ls \<subseteq> set ?ls" for ls
    using that by (induction ls) (auto simp: one)
  from this[OF subset_refl] have "length (concat (map (mesg_line ?max) ?ls)) = (?max + 4) * length ?ls" .
  moreover have "length ?ls = 5" by (simp add: mesg_lines_def)
  ultimately have "length (print_mesg E m remote) = 3 + (?max + 4) * 5"
    by (simp add: print_mesg_def Let_def del: length_concat)
  moreover have "3 + (?max + 4) * 5 \<le> 618" using max by simp
  ultimately show ?thesis by simp
qed

lemma mesg_line_quiet: "c \<in> set (mesg_line k l) \<Longrightarrow> quiet_byte c"
  by (auto simp: mesg_line_def set_replicate_conv_if quiet_safechar split: if_splits)
    (simp_all add: quiet_byte_def)

lemma print_mesg_quiet: "c \<in> set (print_mesg E m remote) \<Longrightarrow> quiet_byte c"
  using mesg_line_quiet by (auto simp: print_mesg_def Let_def simp del: set_concat concat_map_singleton)
    (auto simp: quiet_byte_def)

text \<open>A text as the daemon may write it: to a terminal that permits it, and harmless.\<close>

definition permitted :: "talk_env \<Rightarrow> u8 list \<times> u8 list \<Rightarrow> bool" where
  "permitted E w \<longleftrightarrow>
     (\<exists>f. files E (fst w) = Some f \<and> has (t_mode f) 0x10) \<and> length (snd w) \<le> 618 \<and>
     (\<forall>c\<in>set (snd w). quiet_byte c)"

lemma announce_permitted: "\<exists>ws. written (snd (announce E m h s)) = written s @ ws \<and> (\<forall>w\<in>set ws. permitted E w)"
proof -
  have p: "\<forall>w\<in>set (snd (announce_proc E m h)). permitted E w"
    using print_mesg_length print_mesg_quiet
    by (auto simp: announce_proc_def Let_def permitted_def split: option.split)
  have "written (snd (announce E m h s)) = written s \<or>
    written (snd (announce E m h s)) = written s @ snd (announce_proc E m h)"
    by (auto simp: announce_def Let_def split_beta split: child.split)
  then show ?thesis using p by auto
qed

definition writes :: "talk_env \<Rightarrow> talkd \<Rightarrow> talkd \<Rightarrow> bool" where
  "writes E s t \<longleftrightarrow> (\<exists>ws. written t = written s @ ws \<and> (\<forall>w\<in>set ws. permitted E w))"

lemma writes_same: "written t = written s \<Longrightarrow> writes E s t"
  by (simp add: writes_def)

lemma find_request_written: "find_request u m s = (r, s1) \<Longrightarrow> written s1 = written s"
  by (auto simp: find_request_def Let_def split: option.splits)

lemma do_announce_writes: "writes E s (snd (do_announce E m rp h s))"
proof -
  obtain result tty where f: "find_user E (m_r_name m) (m_r_tty m) = (result, tty)" by fastforce
  obtain q u where r: "find_request (now E) (m\<lparr>m_r_tty := tty\<rparr>) s = (q, u)" by fastforce
  have u: "written u = written s" using find_request_written[OF r] .
  show ?thesis
  proof (cases q)
    case None
    obtain m1 rp1 s2 where i: "insert_table (now E) (m\<lparr>m_r_tty := tty\<rparr>) rp u = (m1, rp1, s2)"
      by (metis prod_cases3)
    have "written s2 = written s" using table_insert[OF i] u by simp
    then show ?thesis
      using announce_permitted[of E m1 h s2] f r i None
      by (auto simp: do_announce_def Let_def split_beta writes_def)
  next
    case (Some k)
    let ?v = "(snd (new_id u))\<lparr>table := (table u)[k := (table u ! k)\<lparr>te_request :=
      (te_request (table u ! k))\<lparr>m_id := word_of_int (fst (new_id u))\<rparr>\<rparr>]\<rparr>"
    have "written ?v = written s" using u by simp
    then show ?thesis
      using announce_permitted[of E "m\<lparr>m_r_tty := tty\<rparr>" h ?v] f r Some u
      by (auto simp: do_announce_def Let_def split_beta writes_def)
  qed
qed

lemma process_request_writes: "writes E s (snd (process_request E m rp h s))"
proof -
  have "written (snd (snd (insert_table t m rp u))) = written u" for t m rp u
    using table_insert[of t m rp u] by (metis prod.collapse)
  then show ?thesis
    unfolding process_request_split
    using do_announce_writes[of E s "as_received m" "prepared m rp" h]
    by (auto simp: Let_def find_match_def delete_invite_def find_request_written
        intro!: writes_same split: option.splits prod.splits)
qed

lemma do_one_packet_writes: "writes E s (do_one_packet E p rp0 s)"
proof (cases rule: do_one_packet_cases[of E p rp0 s])
  case (2 m h rp t)
  then show ?thesis
    using process_request_writes[of E "s\<lparr>lastmsgtime := now E\<rparr>" m rp0 h] by (simp add: writes_def)
qed (simp add: writes_same)

end
