(* ===== verification/Talk_Properties.thy ===== *)
theory Talk_Properties
  imports Talk_Invariant
begin

text \<open>
  The properties of the talk daemon. A host where nobody is logged in and any address may be bound
  is the concrete instance in the witnesses.
\<close>

section \<open>Invitations\<close>

definition requests_run ::
  "(talk_env \<times> ctl_msg \<times> ctl_response \<times> u8 list) list \<Rightarrow> talkd \<Rightarrow> talkd" where
  "requests_run reqs s = fold (\<lambda>(E, m, rp, h) s. snd (process_request E m rp h s)) reqs s"

text \<open>A request that leaves an invitation alone: in time, and not about the same two users.\<close>

definition harmless :: "int \<Rightarrow> u32 \<Rightarrow> ctl_msg \<Rightarrow> talk_env \<times> ctl_msg \<times> ctl_response \<times> u8 list \<Rightarrow> bool" where
  "harmless t0 i look r \<longleftrightarrow>
     (case r of (E, m, rp, h) \<Rightarrow>
        t0 \<le> now E \<and> now E - t0 \<le> MAX_LIFE \<and> \<not> (m_type m = DELETE \<and> m_id m = i) \<and>
        \<not> (m_type m = LEAVE_INVITE \<and> answers_to look m))"

lemma requests_run_invited:
  "invited (as_received look) a i t0 (table s) \<Longrightarrow> \<forall>r\<in>set reqs. harmless t0 (htonl i) look r \<Longrightarrow>
   invited (as_received look) a i t0 (table (requests_run reqs s))"
proof (induction reqs arbitrary: s)
  case (Cons r reqs)
  obtain E m rp h where r: "r = (E, m, rp, h)" by (cases r)
  have h: "t0 \<le> now E" "now E - t0 \<le> MAX_LIFE" "m_type m = DELETE \<Longrightarrow> m_id m \<noteq> htonl i"
    "m_type m = LEAVE_INVITE \<Longrightarrow> \<not> answers_to look m"
    using Cons.prems(2) r by (auto simp: harmless_def)
  have "ntohl (m_id m) \<noteq> i" if "m_type m = DELETE"
    using h(3)[OF that] byte_swap32_swap by metis
  then have "invited (as_received look) a i t0 (table (snd (process_request E m rp h s)))"
    using process_request_invited[OF Cons.prems(1) h(2,1) _ h(4) prod.collapse[symmetric]] by blast
  then show ?case
    using Cons.IH Cons.prems(2) r by (simp add: requests_run_def)
qed (simp add: requests_run_def)

text \<open>C29: An invitation is found: after a caller left one, and whatever other requests come in the
  minute that follows, as long as none of them deletes it or leaves another for the same two users,
  a lookup by the callee is answered with the caller's address and the invitation's identifier.\<close>

theorem invite_found:
  assumes invit: "m_vers invite = TALK_VERSION" "m_type invite = LEAVE_INVITE"
    and look: "m_vers look = TALK_VERSION" "m_type look = LOOK_UP" "answers_to look invite"
    and first: "\<forall>e\<in>set (table s). \<not> matches (as_received look) e"
    and left: "process_request E invite rp0 h s = (r1, s1)"
    and between: "\<forall>r\<in>set reqs. harmless (now E) (rp_id r1) look r"
    and time: "now E \<le> now E2" "now E2 - now E \<le> MAX_LIFE"
    and asked: "process_request E2 look rp2 h2 (requests_run reqs s1) = (r2, s2)"
  shows "rp_answer r2 = SUCCESS \<and> rp_id r2 = rp_id r1 \<and>
    rp_addr r2 = (m_addr invite)\<lparr>ta_family := htons (ta_family (m_addr invite))\<rparr>"
proof -
  obtain q u where f: "find_request (now E) (as_received invite) s = (q, u)" by fastforce
  have "\<not> repeats (as_received invite) e" if "e \<in> set (table s)" for e
    using first that invit look(3)
    by (auto simp: repeats_def matches_def as_received_def answers_to_def callee_def caller_def)
  then have "q = None" "u = expire (now E) s"
    using f position_Some[of "repeats (as_received invite)" "table (expire (now E) s)"]
    by (auto simp: find_request_def Let_def split: option.splits dest!: nth_mem)
  then have "snd (insert_table (now E) (as_received invite) (prepared invite rp0) u) = (r1, s1)"
    using left invit f by (simp add: process_request_split talk_types)
  then obtain m1 where ins: "insert_table (now E) (as_received invite) (prepared invite rp0) u = (m1, r1, s1)"
    by (metis prod.collapse)
  have m1: "m1 = (as_received invite)\<lparr>m_id := word_of_int (fst (new_id u))\<rparr>" "rp_id r1 = htonl (m_id m1)"
    "table s1 = \<lparr>te_request = m1, te_time = now E\<rparr> # table u"
    using table_insert[OF ins] by auto
  have "matches (as_received look) \<lparr>te_request = m1, te_time = now E\<rparr>"
    using matches_as_received[of look _ invite] look(3) invit(2) m1(1) by simp
  then have "invited (as_received look) (m_addr invite) (m_id m1) (now E) (table s1)"
    using m1(3) by (simp add: invited_def m1(1) as_received_def)
  then have "invited (as_received look) (m_addr invite) (m_id m1) (now E) (table (requests_run reqs s1))"
    using requests_run_invited between m1(2) by simp
  then have "invited (as_received look) (m_addr invite) (m_id m1) (now E)
      (filter (\<lambda>e. now E2 - te_time e \<le> MAX_LIFE) (table (requests_run reqs s1)))"
    using invited_filter time(2) by blast
  then show ?thesis
    using asked look(1,2) m1(2)
    by (auto simp: process_request_split talk_types find_match_def Let_def invited_def)
qed

definition host0 :: "int \<Rightarrow> talk_env" where
  "host0 t = \<lparr>files = (\<lambda>_. None), utmps = [], child_fate = Exited_child, hour = 9, minute = 5,
     ourhostname = ascii ''here'', bindable = (\<lambda>_. True), addr_name = (\<lambda>_. Some (ascii ''there'')),
     name_addrs = (\<lambda>_. Some [1]), sendto_ok = (\<lambda>_. True), now = t\<rparr>"

definition reply0 :: ctl_response where
  "reply0 = \<lparr>rp_vers = 0, rp_type = 0, rp_answer = 99, rp_pad = 0, rp_id = 0, rp_addr = zero_addr\<rparr>"

definition ask :: "u8 \<Rightarrow> string \<Rightarrow> string \<Rightarrow> u32 \<Rightarrow> ctl_msg" where
  "ask ty l r a = \<lparr>m_vers = 1, m_type = ty, m_answer = 0, m_pad = 0, m_id = 0,
     m_addr = zero_addr\<lparr>ta_family := 2, ta_addr := a\<rparr>, m_ctl_addr = zero_addr, m_pid = 7,
     m_l_name = take 12 (ascii l @ replicate 12 0), m_r_name = take 12 (ascii r @ replicate 12 0),
     m_r_tty = replicate 16 0\<rparr>"

theorem invite_found_witness:
  "rp_answer (fst (process_request (host0 150) (ask LOOK_UP ''bob'' ''ann'' 0) reply0 []
     (requests_run [(host0 120, ask LEAVE_INVITE ''eve'' ''bob'' 6, reply0, [])]
       (snd (process_request (host0 100) (ask LEAVE_INVITE ''ann'' ''bob'' 5) reply0 [] talkd_start))))) = SUCCESS"
  using invite_found[of "ask LEAVE_INVITE ''ann'' ''bob'' 5" "ask LOOK_UP ''bob'' ''ann'' 0" talkd_start
      "host0 100" reply0 "[]" _ _ "[(host0 120, ask LEAVE_INVITE ''eve'' ''bob'' 6, reply0, [])]" "host0 150",
      OF _ _ _ _ _ _ prod.collapse[symmetric] _ _ _ prod.collapse[symmetric]]
  by (simp add: ask_def host0_def talkd_start_def talk_types TALK_VERSION_def answers_to_def caller_def
      callee_def c_str_def terminate_def NAME_SIZE_def ascii_def harmless_def MAX_LIFE_def)

section \<open>The table, the identifiers, the terminals\<close>

lemma serve_ok:
  "talk_ok L s \<Longrightarrow> \<forall>(E, p, rp)\<in>set ins. is_local_address E = L \<Longrightarrow> talk_ok L (serve ins s)"
  by (induction ins arbitrary: s) (auto simp: serve_def do_one_packet_ok)

text \<open>C30: On a host whose own addresses stay the same, whatever packets come, no two entries of the
  daemon's table have the same names, type and process, each entry has an identifier between 1 and
  15999, and every invitation in it leads to an address of this host.\<close>

theorem table_sound:
  assumes "\<forall>(E, p, rp)\<in>set ins. is_local_address E = L" "t = serve ins talkd_start"
  shows "distinct (map entry_key (table t)) \<and>
    (\<forall>e\<in>set (table t). \<exists>i. 1 \<le> i \<and> i < MAX_ID \<and> m_id (te_request e) = word_of_int i) \<and>
    (\<forall>e\<in>set (table t). m_type (te_request e) = LEAVE_INVITE \<longrightarrow> L (ta_addr (m_addr (te_request e))))"
proof -
  have "talk_ok L talkd_start" by (simp add: talk_ok_def talkd_start_def id_ok_def MAX_ID_def)
  then have "talk_ok L t" using serve_ok assms by blast
  then show ?thesis by (auto simp: talk_ok_def talk_entry_ok_def talk_types)
qed

definition packet0 :: talk_packet where
  "packet0 = \<lparr>pk_buf = [1, 0, 0, 0] @ replicate 164 0, pk_len = 84,
     pk_from = \<lparr>pe_family = 2, pe_port = 7, pe_addr = 1\<rparr>, pk_addr_ok = True\<rparr>"

theorem table_sound_witness:
  "distinct (map entry_key (table (serve [(host0 1, Some packet0, reply0), (host0 2, Some packet0, reply0)] talkd_start)))"
  using table_sound[OF _ refl, of "[(host0 1, Some packet0, reply0), (host0 2, Some packet0, reply0)]" "\<lambda>_. True"]
  by (simp add: is_local_address_def host0_def fun_eq_iff)

text \<open>The identifiers the daemon gives out lie between 1 and 15999, and none comes back before
  15999 were given out.\<close>

theorem ids_distinct:
  assumes "0 \<le> current_id s" "current_id s < MAX_ID" "n \<le> 15999"
  shows "distinct (ids_after n s) \<and> (\<forall>i\<in>set (ids_after n s). 1 \<le> i \<and> i < MAX_ID)"
proof -
  have len: "length (ids_after n s) = n" for n s by (induction n arbitrary: s) (simp_all add: split_beta)
  note nth = ids_after_nth[OF assms(1,2)]
  have "ids_after n s ! j \<noteq> ids_after n s ! k" if "j < k" "k < n" for j k
  proof
    assume "ids_after n s ! j = ids_after n s ! k"
    then have "(current_id s + int k) mod 15999 = (current_id s + int j) mod 15999"
      using nth[of j n] nth[of k n] that by (simp add: MAX_ID_def)
    then have "15999 dvd (int k - int j)" by (simp add: mod_eq_dvd_iff)
    moreover have "0 < int k - int j" "int k - int j < 15999" using that assms(3) by simp_all
    ultimately show False using zdvd_not_zless by blast
  qed
  then have "distinct (ids_after n s)"
    by (auto simp: distinct_conv_nth len) (metis linorder_neqE_nat)
  moreover have "1 \<le> i \<and> i < MAX_ID" if i: "i \<in> set (ids_after n s)" for i
  proof -
    obtain k where "k < n" "i = ids_after n s ! k" using i len[of n s] by (auto simp: in_set_conv_nth)
    then have "i = (current_id s + int k) mod 15999 + 1" using nth by (simp add: MAX_ID_def)
    then show ?thesis
      using pos_mod_bound[of 15999 "current_id s + int k"] pos_mod_sign[of 15999 "current_id s + int k"]
      by (simp add: MAX_ID_def)
  qed
  ultimately show ?thesis by blast
qed

theorem ids_distinct_witness: "distinct (ids_after 3 (talkd_start\<lparr>current_id := 15998\<rparr>))"
  using ids_distinct[of "talkd_start\<lparr>current_id := 15998\<rparr>" 3] by (simp add: MAX_ID_def)

text \<open>C31: Whatever packets come, every text the daemon writes goes to a terminal that is then open to
  messages from others, fits the buffer it is built in, and contains no byte but printable ones,
  line ends and one bell.\<close>

theorem terminals_protected:
  assumes "(tty, txt) \<in> set (written (serve ins talkd_start))"
  shows "(\<exists>(E, p, rp)\<in>set ins. \<exists>f. files E tty = Some f \<and> has (t_mode f) 0x10) \<and> length txt \<le> 618 \<and>
    (\<forall>c\<in>set txt. quiet_byte c)"
proof -
  have "w \<in> set (written s) \<or> (\<exists>(E, p, rp)\<in>set ins. permitted E w)" if "w \<in> set (written (serve ins s))" for w s
    using that
  proof (induction ins arbitrary: s)
    case (Cons x ins)
    obtain E p rp where x: "x = (E, p, rp)" by (cases x)
    obtain ws where "written (do_one_packet E p rp s) = written s @ ws" "\<forall>w\<in>set ws. permitted E w"
      using do_one_packet_writes[of E s p rp] by (auto simp: writes_def)
    then show ?case
      using Cons.IH[of "do_one_packet E p rp s"] Cons.prems x by (auto simp: serve_def)
  qed (simp add: serve_def)
  from this[OF assms] show ?thesis by (auto simp: permitted_def talkd_start_def)
qed

definition host1 :: talk_env where
  "host1 = (host0 5)\<lparr>files := (\<lambda>p. if p = ascii ''/dev/tty1''
       then Some \<lparr>t_mode = 0x190, t_atime = 3, t_opens = True, t_fstat = True\<rparr> else None),
     utmps := [\<lparr>ut_user = True, ut_name = ascii ''bob'', ut_line = ascii ''tty1''\<rparr>]\<rparr>"

definition packet1 :: talk_packet where
  "packet1 = \<lparr>pk_buf = [1, 3, 0, 0] @ replicate 40 0 @ ascii ''ann'' @ replicate 9 0 @ ascii ''bob'' @ replicate 25 0,
     pk_len = 84, pk_from = \<lparr>pe_family = 2, pe_port = 7, pe_addr = 1\<rparr>, pk_addr_ok = True\<rparr>"

lemma bob_is_called: "map fst (written (serve [(host1, Some packet1, reply0)] talkd_start)) = [ascii ''/dev/tty1'']"
  by code_simp

theorem terminals_protected_witness:
  "length (snd (hd (written (serve [(host1, Some packet1, reply0)] talkd_start)))) \<le> 618"
proof -
  obtain w where "written (serve [(host1, Some packet1, reply0)] talkd_start) = [w]"
    using bob_is_called by (metis (no_types, lifting) list.map_disc_iff list.simps(8) map_eq_Cons_D)
  then show ?thesis
    using terminals_protected[of "fst w" "snd w" "[(host1, Some packet1, reply0)]"] by simp
qed

section \<open>Further observations\<close>

text \<open>An invitation that is new leaves the answer of the response as it was.\<close>

lemma invite_answer_unset:
  assumes "m_vers m = TALK_VERSION" "m_type m = LEAVE_INVITE" "table s = []"
  shows "rp_answer (fst (process_request E m rp h s)) = rp_answer rp"
  using assms
  by (simp add: process_request_split talk_types find_request_def Let_def insert_table_def split_beta
      prepared_def)

text \<open>An old entry is read after it was freed.\<close>

lemma expire_reads_freed:
  "e \<in> set (table s) \<Longrightarrow> u - te_time e > MAX_LIFE \<Longrightarrow> freed_reads (expire u s) > freed_reads s"
  by (auto simp: expire_def expire_from_filter filter_empty_conv intro!: Nat.gr0I)

end
