(* ===== verification/Inetd_Config.thy ===== *)
theory Inetd_Config
  imports Netkit_Prelude
begin

text \<open>
  The Internet super-server's configuration file (\<^verbatim>\<open>inetd/servtab.c\<close>, \<^verbatim>\<open>servtab.h\<close>): the lines
  \<open>fgets\<close> reads into a buffer of 256 bytes, the words \<open>strtok\<close> cuts out of them, the loop
  that gathers the words of an entry, and the entry made of them. The file is its list of
  characters; the state of the scan is what \<open>strtok\<close> has not looked at yet and what is unread.
\<close>

section \<open>C strings and numbers\<close>

definition NUL :: char where "NUL = CHR 0x00"

definition c_line :: "string \<Rightarrow> string" where
  "c_line cs = takeWhile (\<lambda>c. c \<noteq> NUL) cs"

text \<open>What stands before the first \<open>c\<close>, and after it if there is one.\<close>

definition split_char :: "char \<Rightarrow> string \<Rightarrow> string \<times> string option" where
  "split_char c s =
     (takeWhile (\<lambda>d. d \<noteq> c) s,
      case dropWhile (\<lambda>d. d \<noteq> c) s of [] \<Rightarrow> None | _ # t \<Rightarrow> Some t)"

definition isspace :: "char \<Rightarrow> bool" where
  "isspace c \<longleftrightarrow> (of_char c :: nat) = 32 \<or> 9 \<le> (of_char c :: nat) \<and> (of_char c :: nat) \<le> 13"

definition digit_val :: "char \<Rightarrow> nat" where
  "digit_val c =
     (let n = of_char c :: nat in
      if 48 \<le> n \<and> n \<le> 57 then n - 48
      else if 97 \<le> n \<and> n \<le> 122 then n - 87
      else if 65 \<le> n \<and> n \<le> 90 then n - 55
      else 99)"

fun digits_of :: "nat \<Rightarrow> int \<Rightarrow> string \<Rightarrow> int \<times> string" where
  "digits_of b a [] = (a, [])"
| "digits_of b a (c # cs) =
     (if digit_val c < b then digits_of b (a * int b + int (digit_val c)) cs else (a, c # cs))"

definition clamp_long :: "int \<Rightarrow> int" where
  "clamp_long v = max (- (2 ^ 63)) (min (2 ^ 63 - 1) v)"

text \<open>\<open>strtol\<close> with base 0 or 10: the number, and the rest of the string after it; the whole
  string comes back when there are no digits.\<close>

definition strtol :: "bool \<Rightarrow> string \<Rightarrow> int \<times> string" where
  "strtol any_base s =
     (let u = dropWhile isspace s;
          neg = (u \<noteq> [] \<and> hd u = CHR ''-'');
          v = (if u \<noteq> [] \<and> (hd u = CHR ''-'' \<or> hd u = CHR ''+'') then tl u else u);
          hex = (any_base \<and> length v > 2 \<and> v ! 0 = CHR ''0'' \<and> (v ! 1 = CHR ''x'' \<or> v ! 1 = CHR ''X'')
                 \<and> digit_val (v ! 2) < 16);
          base = (if hex then 16 else if any_base \<and> v \<noteq> [] \<and> hd v = CHR ''0'' then 8 else 10);
          w = (if hex then drop 2 v else v)
      in if w = [] \<or> \<not> digit_val (hd w) < base then (0, s)
         else let (n, r) = digits_of base 0 w in (clamp_long (if neg then - n else n), r))"

definition to_int :: "int \<Rightarrow> int" where
  "to_int v = sint (word_of_int v :: u32)"

definition atoi :: "string \<Rightarrow> int" where
  "atoi s = to_int (fst (strtol False s))"

section \<open>Lines and words\<close>

record scan =
  sc_tok :: string
  sc_file :: string

fun take_line :: "nat \<Rightarrow> string \<Rightarrow> string" where
  "take_line 0 cs = []"
| "take_line (Suc k) [] = []"
| "take_line (Suc k) (c # cs) = (if c = CHR 0x0A then [c] else c # take_line k cs)"

lemma take_line_nonempty: "cs \<noteq> [] \<Longrightarrow> take_line (Suc k) cs \<noteq> []"
  by (cases cs) auto

definition LINEROOM :: nat where "LINEROOM = 253"

text \<open>The loop over \<open>fgets\<close> that leaves out comments.\<close>

function next_line :: "string \<Rightarrow> (string \<times> string) option" where
  "next_line f =
     (if f = [] then None
      else let l = take_line LINEROOM f; r = drop (length l) f in
        if hd l = CHR ''#'' then next_line r else Some (l, r))"
  by pat_completeness auto
termination
proof (relation "measure length", goal_cases)
  case (2 f l r)
  then have "l \<noteq> []" using take_line_nonempty [of f 252] by (simp add: LINEROOM_def)
  with 2 show ?case by (cases l) auto
qed simp

declare next_line.simps [simp del]

definition delim :: "char \<Rightarrow> bool" where
  "delim c \<longleftrightarrow> c = CHR '' '' \<or> c = CHR 0x09 \<or> c = CHR 0x0A"

definition strtok :: "string \<Rightarrow> string option \<times> string" where
  "strtok cs =
     (case dropWhile delim cs of
        [] \<Rightarrow> (None, [])
      | u \<Rightarrow> (Some (takeWhile (\<lambda>c. \<not> delim c) u), drop 1 (dropWhile (\<lambda>c. \<not> delim c) u)))"

text \<open>
  The next word; the empty word marks the end of an entry, which is where a line begins with no
  blank. \<open>None\<close> is the end of the file.
\<close>

definition nexttoken :: "scan \<Rightarrow> string option \<times> scan" where
  "nexttoken sc =
     (case strtok (sc_tok sc) of
        (Some t, r) \<Rightarrow> (Some t, sc\<lparr>sc_tok := r\<rparr>)
      | (None, r) \<Rightarrow>
          (case next_line (sc_file sc) of
             None \<Rightarrow> (None, sc\<lparr>sc_tok := r, sc_file := []\<rparr>)
           | Some (l, f) \<Rightarrow>
               if hd l \<noteq> CHR '' '' \<and> hd l \<noteq> CHR 0x09 \<and> hd l \<noteq> NUL
               then (Some [], \<lparr>sc_tok = c_line l, sc_file = f\<rparr>)
               else (case strtok (c_line l) of
                       (None, r') \<Rightarrow> (Some [], \<lparr>sc_tok = r', sc_file = f\<rparr>)
                     | (Some t, r') \<Rightarrow> (Some t, \<lparr>sc_tok = r', sc_file = f\<rparr>))))"

section \<open>The loop over the words\<close>

definition MAXARGV :: nat where "MAXARGV = 20"

text \<open>The room of the array \<open>fields\<close> the words of an entry are put in.\<close>

definition fields_room :: nat where "fields_room = MAXARGV + 6 - 1"

text \<open>
  The entries found, each the list of its words, in the order they are handed on. The loop is
  written as the code has it; that it ends is a theorem.
\<close>

partial_function (option) load_loop ::
  "scan \<Rightarrow> string list \<Rightarrow> string list list \<Rightarrow> string list list option" where
  "load_loop sc fs out =
     (case nexttoken sc of
        (None, _) \<Rightarrow> Some (if fs = [] then out else out @ [fs])
      | (Some s, sc') \<Rightarrow>
          if s = [] then
            (if fs = [] then load_loop sc' [] out else load_loop sc' [] (out @ [fs]))
          else if length fs < MAXARGV + 6 then load_loop sc' (fs @ [s]) out
          else load_loop sc' fs out)"

declare load_loop.simps [code]

definition loadconfigfile :: "string \<Rightarrow> string list list option" where
  "loadconfigfile f = load_loop \<lparr>sc_tok = [], sc_file = f\<rparr> [] []"

section \<open>Entries\<close>

definition SOCK_STREAM :: int where "SOCK_STREAM = 1"
definition SOCK_DGRAM :: int where "SOCK_DGRAM = 2"
definition SOCK_RAW :: int where "SOCK_RAW = 3"
definition SOCK_RDM :: int where "SOCK_RDM = 4"
definition SOCK_SEQPACKET :: int where "SOCK_SEQPACKET = 5"

datatype family = AF_UNIX | AF_INET

datatype biltin_fn =
    Echo_stream | Echo_dg | Discard_stream | Discard_dg | Machtime_stream | Machtime_dg
  | Daytime_stream | Daytime_dg | Chargen_stream | Chargen_dg

record biltin =
  bi_service :: string
  bi_socktype :: int
  bi_fork :: bool
  bi_wait :: bool
  bi_fn :: biltin_fn

text \<open>
  \<open>se_wait\<close> is a C \<open>short\<close>: no, yes, or the process waited for. Of the bound address the model has
  the parts the code reads. \<open>se_group_freed\<close> tells that \<open>se_group\<close> points into memory that
  was given back; \<open>se_group\<close> is then what stood there.
\<close>

record servtab =
  se_service :: string
  se_address :: "string option"
  se_socktype :: int
  se_family :: family
  se_proto :: string
  se_rpcprog :: int
  se_rpcversl :: int
  se_rpcversh :: int
  se_wait :: u16
  se_checked :: bool
  se_user :: string
  se_group :: "string option"
  se_group_freed :: bool
  se_bi :: "biltin option"
  se_server :: string
  se_argv :: "string list"
  se_fd :: int
  se_sin_addr :: u32
  se_sin_port :: u16
  se_sun_path :: string
  se_ctrladdr_size :: int
  se_max :: int
  se_count :: int
  se_time :: int

definition biltins :: "biltin list" where
  "biltins =
     [\<lparr>bi_service = ''echo'', bi_socktype = SOCK_STREAM, bi_fork = True, bi_wait = False, bi_fn = Echo_stream\<rparr>,
      \<lparr>bi_service = ''echo'', bi_socktype = SOCK_DGRAM, bi_fork = False, bi_wait = False, bi_fn = Echo_dg\<rparr>,
      \<lparr>bi_service = ''discard'', bi_socktype = SOCK_STREAM, bi_fork = True, bi_wait = False, bi_fn = Discard_stream\<rparr>,
      \<lparr>bi_service = ''discard'', bi_socktype = SOCK_DGRAM, bi_fork = False, bi_wait = False, bi_fn = Discard_dg\<rparr>,
      \<lparr>bi_service = ''time'', bi_socktype = SOCK_STREAM, bi_fork = False, bi_wait = False, bi_fn = Machtime_stream\<rparr>,
      \<lparr>bi_service = ''time'', bi_socktype = SOCK_DGRAM, bi_fork = False, bi_wait = False, bi_fn = Machtime_dg\<rparr>,
      \<lparr>bi_service = ''daytime'', bi_socktype = SOCK_STREAM, bi_fork = False, bi_wait = False, bi_fn = Daytime_stream\<rparr>,
      \<lparr>bi_service = ''daytime'', bi_socktype = SOCK_DGRAM, bi_fork = False, bi_wait = False, bi_fn = Daytime_dg\<rparr>,
      \<lparr>bi_service = ''chargen'', bi_socktype = SOCK_STREAM, bi_fork = True, bi_wait = False, bi_fn = Chargen_stream\<rparr>,
      \<lparr>bi_service = ''chargen'', bi_socktype = SOCK_DGRAM, bi_fork = False, bi_wait = False, bi_fn = Chargen_dg\<rparr>]"

definition find_builtin :: "int \<Rightarrow> string \<Rightarrow> biltin option" where
  "find_builtin t v = find (\<lambda>b. bi_socktype b = t \<and> bi_service b = v) biltins"

definition socket_types :: "(string \<times> int) list" where
  "socket_types = [(''stream'', SOCK_STREAM), (''dgram'', SOCK_DGRAM), (''rdm'', SOCK_RDM),
     (''seqpacket'', SOCK_SEQPACKET), (''raw'', SOCK_RAW)]"

definition map_word :: "(string \<times> int) list \<Rightarrow> string \<Rightarrow> int" where
  "map_word wm w = (case map_of wm w of None \<Rightarrow> - 1 | Some v \<Rightarrow> v)"

datatype conf_error =
    Incomplete | Host_not_found | Host_for_unix | No_rpc_version | Bad_rpc_version
  | Bad_rpc_high_version | Bad_internal

text \<open>What the program asks of its surroundings: the name services, and sockets by the number of
  the call; a new socket may depend on those that are open.\<close>

datatype sock_ret = Sock_fd int | Sock_error bool

record inetd_env =
  gethostbyname :: "string \<Rightarrow> u32 option"
  getservbyname :: "string \<Rightarrow> string \<Rightarrow> (string \<times> u16) option"
  getrpcbyname :: "string \<Rightarrow> int option"
  getprotobyname :: "string \<Rightarrow> int option"
  getsockname :: "int \<Rightarrow> u16 option"
  new_socket :: "nat \<Rightarrow> int set \<Rightarrow> sock_ret"
  bind_ok :: "nat \<Rightarrow> bool"
  rlim_max :: int
  setrlimit_ok :: "nat \<Rightarrow> bool"

definition TOOMANY :: int where "TOOMANY = 40"

definition blank_entry :: servtab where
  "blank_entry =
     \<lparr>se_service = [], se_address = None, se_socktype = 0, se_family = AF_INET, se_proto = [],
      se_rpcprog = 0, se_rpcversl = 0, se_rpcversh = 0, se_wait = 0, se_checked = False,
      se_user = [], se_group = None, se_group_freed = False, se_bi = None, se_server = [],
      se_argv = [], se_fd = 0, se_sin_addr = 0, se_sin_port = 0, se_sun_path = [],
      se_ctrladdr_size = 0, se_max = 0, se_count = 0, se_time = 0\<rparr>"

text \<open>The version numbers after the slash of an RPC service: the service's name, and both numbers.\<close>

definition rpc_versions :: "string \<Rightarrow> conf_error + string \<times> int \<times> int" where
  "rpc_versions name =
     (case split_char CHR ''/'' name of
        (_, None) \<Rightarrow> Inl No_rpc_version
      | (v, Some s) \<Rightarrow>
          let (lo, t) = strtol True s in
          if t = s then Inl Bad_rpc_version
          else if t \<noteq> [] \<and> hd t = CHR ''-'' then
            (let s' = tl t; (hi, t') = strtol True s' in
             if t' = s' then Inl Bad_rpc_high_version else Inr (v, to_int lo, to_int hi))
          else Inr (v, to_int lo, to_int lo))"

text \<open>The protocol's part: family, service name and versions.\<close>

definition entry_proto :: "string \<Rightarrow> bool \<Rightarrow> string \<Rightarrow> conf_error + family \<times> string \<times> int \<times> int" where
  "entry_proto proto has_addr name =
     (if proto = ''unix'' then
        (if has_addr then Inl Host_for_unix else Inr (AF_UNIX, name, 0, 0))
      else if take 4 proto = ''rpc/'' then
        (case rpc_versions name of Inl e \<Rightarrow> Inl e | Inr (n, lo, hi) \<Rightarrow> Inr (AF_INET, n, lo, hi))
      else Inr (AF_INET, name, 0, 0))"

definition entry_rest ::
  "string list \<Rightarrow> servtab \<Rightarrow> conf_error + servtab" where
  "entry_rest fs e0 =
     (let (w, mx) = split_char CHR ''.'' (fs ! 3);
          (user, group) = split_char CHR ''.'' (fs ! 4);
          server = fs ! 5;
          e = e0\<lparr>se_max := (case mx of Some s \<Rightarrow> atoi s | None \<Rightarrow> TOOMANY),
                 se_wait := (if w = ''wait'' then 1 else 0),
                 se_user := user, se_group := group, se_server := server,
                 se_argv := (if length fs > 6 then drop 6 fs else [server])\<rparr>
      in if server = ''internal'' then
           (case find_builtin (se_socktype e) (se_service e) of
              None \<Rightarrow> Inl Bad_internal
            | Some b \<Rightarrow> Inr (e\<lparr>se_bi := Some b, se_wait := (if bi_wait b then 1 else 0)\<rparr>))
         else Inr e)"

definition assemble_entry :: "inetd_env \<Rightarrow> string list \<Rightarrow> conf_error + servtab" where
  "assemble_entry E fs =
     (if length fs < 6 then Inl Incomplete
      else let (name, addr) = split_char CHR ''@'' (fs ! 0);
               home = (case addr of None \<Rightarrow> Some 0 | Some h \<Rightarrow> gethostbyname E h)
           in case home of
                None \<Rightarrow> Inl Host_not_found
              | Some ip \<Rightarrow>
                  (case entry_proto (fs ! 2) (addr \<noteq> None) name of
                     Inl e \<Rightarrow> Inl e
                   | Inr (fam, v, lo, hi) \<Rightarrow>
                       entry_rest fs
                         (blank_entry\<lparr>se_service := v, se_address := addr,
                            se_socktype := map_word socket_types (fs ! 1), se_family := fam,
                            se_proto := fs ! 2, se_rpcversl := lo, se_rpcversh := hi,
                            se_sin_addr := (if fam = AF_INET then ip else 0)\<rparr>)))"

definition isrpcservice :: "servtab \<Rightarrow> bool" where
  "isrpcservice e \<longleftrightarrow> se_rpcversl e \<noteq> 0"

end
