(* ===== verification/Inetd_Table.thy ===== *)
theory Inetd_Table
  imports Inetd_Config
begin

text \<open>
  The super-server's table of services and its sockets (\<^verbatim>\<open>inetd/servtab.c\<close>, \<^verbatim>\<open>inetd/inetd.c\<close>):
  opening and closing a service's socket, taking over an entry of the configuration, reading it
  again, purging what is gone. The linked list is a list, its head first; a pointer to a service is
  its position. What goes to the system is recorded in the order it goes.
\<close>

datatype effect =
    Pmap_unset int int
  | Pmap_set int int int u16
  | Unlink_path string
  | Chmod_path string
  | Listen_on int
  | Close_fd int
  | Set_alarm int
  | Heap_overrun
  | Answer biltin_fn int
  | Fork_child int
  | Exit_process

record inetd =
  services :: "servtab list"
  nsock :: int
  maxsock :: int
  allsock :: "int set"
  opened :: "int set"
  timingout :: bool
  rlim_ofile_cur :: int
  rlim_soft :: int
  calls :: nat
  restarting :: bool
  effects :: "effect list"

definition RETRYTIME :: int where "RETRYTIME = 600"
definition FD_MARGIN :: int where "FD_MARGIN = 8"
definition FD_CHUNK :: int where "FD_CHUNK = 32"
definition SUN_PATH_MAX :: nat where "SUN_PATH_MAX = 107"

definition effect :: "effect list \<Rightarrow> inetd \<Rightarrow> inetd" where
  "effect es s = s\<lparr>effects := effects s @ es\<rparr>"

definition sep_update :: "nat \<Rightarrow> (servtab \<Rightarrow> servtab) \<Rightarrow> inetd \<Rightarrow> inetd" where
  "sep_update i f s = s\<lparr>services := (services s)[i := f (services s ! i)]\<rparr>"

fun first_pos :: "('a \<Rightarrow> bool) \<Rightarrow> 'a list \<Rightarrow> nat option" where
  "first_pos P [] = None"
| "first_pos P (x # xs) = (if P x then Some 0 else map_option Suc (first_pos P xs))"

definition find_service_by_fd :: "int \<Rightarrow> inetd \<Rightarrow> nat option" where
  "find_service_by_fd fd s = first_pos (\<lambda>e. se_fd e = fd) (services s)"

definition find_service_by_pid :: "int \<Rightarrow> inetd \<Rightarrow> nat option" where
  "find_service_by_pid pid s = first_pos (\<lambda>e. sint (se_wait e) = pid) (services s)"

definition same_service :: "servtab \<Rightarrow> servtab \<Rightarrow> bool" where
  "same_service cp e \<longleftrightarrow>
     se_service e = se_service cp \<and> se_proto e = se_proto cp
     \<and> (case (se_address e, se_address cp) of
          (None, None) \<Rightarrow> True
        | (Some _, Some _) \<Rightarrow> se_sin_addr e = se_sin_addr cp
        | _ \<Rightarrow> False)"

definition find_same_service :: "servtab \<Rightarrow> inetd \<Rightarrow> nat option" where
  "find_same_service cp s = first_pos (same_service cp) (services s)"

section \<open>Sockets\<close>

definition bump_nofile :: "inetd_env \<Rightarrow> inetd \<Rightarrow> inetd" where
  "bump_nofile E s =
     (let cur = min (rlim_max E) (rlim_soft s + FD_CHUNK) in
      if cur \<le> rlim_ofile_cur s then s
      else if \<not> setrlimit_ok E (calls s) then s
      else s\<lparr>rlim_ofile_cur := cur, rlim_soft := cur\<rparr>)"

definition close_sock :: "int \<Rightarrow> inetd \<Rightarrow> inetd" where
  "close_sock fd s = effect [Close_fd fd] (s\<lparr>opened := opened s - {fd}\<rparr>)"

definition start_alarm :: "inetd \<Rightarrow> inetd" where
  "start_alarm s = (if timingout s then s else effect [Set_alarm RETRYTIME] (s\<lparr>timingout := True\<rparr>))"

text \<open>
  When there are no more descriptors the program starts itself anew; in the model the process is
  over (\<open>restarting\<close>).
\<close>

definition setup_service :: "inetd_env \<Rightarrow> nat \<Rightarrow> inetd \<Rightarrow> inetd" where
  "setup_service E i s0 =
     (let n = calls s0; s = s0\<lparr>calls := Suc n\<rparr> in
      case new_socket E n (opened s) of
        Sock_error emfile \<Rightarrow>
          (let s1 = sep_update i (\<lambda>e. e\<lparr>se_fd := - 1\<rparr>) s
           in if emfile then s1\<lparr>restarting := True\<rparr> else s1)
      | Sock_fd fd \<Rightarrow>
          (let s1 = (sep_update i (\<lambda>e. e\<lparr>se_fd := fd\<rparr>) s)\<lparr>opened := insert fd (opened s)\<rparr> in
           if \<not> bind_ok E n then
             start_alarm (sep_update i (\<lambda>e. e\<lparr>se_fd := - 1\<rparr>) (close_sock fd s1))
           else
             let sep = services s1 ! i;
                 s2 = (if se_socktype sep = SOCK_STREAM then effect [Listen_on fd] s1 else s1);
                 s3 = (if se_family sep = AF_UNIX then effect [Chmod_path (se_sun_path sep)] s2 else s2);
                 s4 = s3\<lparr>allsock := insert fd (allsock s3), nsock := nsock s3 + 1\<rparr>
             in if fd > maxsock s4 then
                  (let s5 = s4\<lparr>maxsock := fd\<rparr>
                   in if fd > rlim_ofile_cur s5 - FD_MARGIN then bump_nofile E s5 else s5)
                else s4))"

text \<open>What \<open>closeit\<close> does but for the service's own descriptor.\<close>

definition close_fd_of :: "int \<Rightarrow> inetd \<Rightarrow> inetd" where
  "close_fd_of fd s = close_sock fd (s\<lparr>allsock := allsock s - {fd}, nsock := nsock s - 1\<rparr>)"

definition closeit :: "nat \<Rightarrow> inetd \<Rightarrow> inetd" where
  "closeit i s = sep_update i (\<lambda>e. e\<lparr>se_fd := - 1\<rparr>) (close_fd_of (se_fd (services s ! i)) s)"

definition register_rpc :: "inetd_env \<Rightarrow> servtab \<Rightarrow> inetd \<Rightarrow> inetd" where
  "register_rpc E sep s =
     (case getprotobyname E (drop 4 (se_proto sep)) of
        None \<Rightarrow> s
      | Some pp \<Rightarrow>
          (case getsockname E (se_fd sep) of
             None \<Rightarrow> s
           | Some port \<Rightarrow>
               effect (concat (map (\<lambda>v. [Pmap_unset (se_rpcprog sep) v, Pmap_set (se_rpcprog sep) v pp port])
                         [se_rpcversl sep..se_rpcversh sep])) s))"

definition unregister_rpc :: "servtab \<Rightarrow> inetd \<Rightarrow> inetd" where
  "unregister_rpc sep s =
     effect (map (Pmap_unset (se_rpcprog sep)) [se_rpcversl sep..se_rpcversh sep]) s"

section \<open>Taking over an entry\<close>

definition enter :: "servtab \<Rightarrow> inetd \<Rightarrow> inetd" where
  "enter cp s = s\<lparr>services := cp\<lparr>se_fd := - 1, se_rpcprog := - 1\<rparr> # services s\<rparr>"

definition htons :: "u16 \<Rightarrow> u16" where
  "htons w = push_bit 8 w OR drop_bit 8 w"

definition service_port :: "servtab \<Rightarrow> u16" where
  "service_port sep = htons (word_of_int (atoi (se_service sep)))"

text \<open>
  The canonical name is looked up, but it is the name given that is copied, into memory made to fit
  the canonical one.
\<close>

definition canonical_copy :: "inetd_env \<Rightarrow> servtab \<Rightarrow> inetd \<Rightarrow> inetd" where
  "canonical_copy E cp s =
     (if se_family cp = AF_INET \<and> \<not> isrpcservice cp \<and> service_port cp = 0 then
        (case getservbyname E (se_service cp) (se_proto cp) of
           None \<Rightarrow> s
         | Some (nm, _) \<Rightarrow>
             if se_service cp = nm then s
             else
               let addr = (case se_address cp of None \<Rightarrow> 0 | Some a \<Rightarrow> length a);
                   len = length nm + 1 + addr + 1;
                   written = length (se_service cp) + 1
                     + (case se_address cp of None \<Rightarrow> 0 | Some a \<Rightarrow> length a + 1)
               in if written > len then effect [Heap_overrun] s else s)
      else s)"

definition redo_entry :: "servtab \<Rightarrow> servtab \<Rightarrow> servtab" where
  "redo_entry cp sep =
     sep\<lparr>se_wait := (if se_bi cp = None \<and> (se_wait sep = 1 \<or> se_wait cp = 0)
                      then se_wait cp else se_wait sep),
         se_max := se_max cp,
         se_user := se_user cp,
         se_group := (if se_group cp \<noteq> None then se_group cp else se_group sep),
         se_group_freed := (se_group cp = None \<and> se_group sep \<noteq> None),
         se_server := se_server cp,
         se_address := (if se_address cp \<noteq> None then se_address cp else se_address sep),
         se_service := (if se_address cp \<noteq> None then se_service cp else se_service sep),
         se_argv := se_argv cp,
         se_rpcversl := se_rpcversl cp, se_rpcversh := se_rpcversh cp\<rparr>"

definition redo :: "servtab \<Rightarrow> nat \<Rightarrow> inetd \<Rightarrow> inetd" where
  "redo cp i s =
     (let s1 = (if isrpcservice (services s ! i) then unregister_rpc (services s ! i) s else s)
      in sep_update i (redo_entry cp) s1)"

definition open_unix :: "inetd_env \<Rightarrow> nat \<Rightarrow> inetd \<Rightarrow> inetd" where
  "open_unix E i s =
     (let sep = services s ! i in
      if se_fd sep \<noteq> - 1 then s
      else let path = take SUN_PATH_MAX (se_service sep) in
        setup_service E i
          (sep_update i (\<lambda>e. e\<lparr>se_sun_path := path, se_ctrladdr_size := int (length path) + 2\<rparr>)
             (effect [Unlink_path (se_service sep)] s)))"

definition setup_if_closed :: "inetd_env \<Rightarrow> nat \<Rightarrow> inetd \<Rightarrow> inetd" where
  "setup_if_closed E i s = (if se_fd (services s ! i) = - 1 then setup_service E i s else s)"

definition register_if_open :: "inetd_env \<Rightarrow> nat \<Rightarrow> inetd \<Rightarrow> inetd" where
  "register_if_open E i s =
     (if se_fd (services s ! i) \<noteq> - 1 then register_rpc E (services s ! i) s else s)"

definition open_rpc :: "inetd_env \<Rightarrow> nat \<Rightarrow> inetd \<Rightarrow> inetd" where
  "open_rpc E i s =
     (let p = atoi (se_service (services s ! i));
          s1 = sep_update i (\<lambda>e. e\<lparr>se_rpcprog := p\<rparr>) s
      in case (if p = 0 then getrpcbyname E (se_service (services s ! i)) else Some p) of
           None \<Rightarrow> s1
         | Some prog \<Rightarrow>
             register_if_open E i (setup_if_closed E i (sep_update i (\<lambda>e. e\<lparr>se_rpcprog := prog\<rparr>) s1)))"

definition open_inet :: "inetd_env \<Rightarrow> nat \<Rightarrow> inetd \<Rightarrow> inetd" where
  "open_inet E i s =
     (let sep = services s ! i; p = service_port sep in
      case (if p = 0 then map_option snd (getservbyname E (se_service sep) (se_proto sep)) else Some p) of
        None \<Rightarrow> s
      | Some port \<Rightarrow>
          let s1 = (if port \<noteq> se_sin_port sep then
                      (let s0 = sep_update i (\<lambda>e. e\<lparr>se_sin_port := port\<rparr>) s
                       in if se_fd sep \<noteq> - 1 then closeit i s0 else s0)
                    else s)
          in setup_if_closed E i s1)"

definition open_service :: "inetd_env \<Rightarrow> nat \<Rightarrow> inetd \<Rightarrow> inetd" where
  "open_service E i s0 =
     (let s = sep_update i (\<lambda>e. e\<lparr>se_checked := True\<rparr>) s0 in
      case se_family (services s ! i) of
        AF_UNIX \<Rightarrow> open_unix E i s
      | AF_INET \<Rightarrow>
          (let s1 = sep_update i (\<lambda>e. e\<lparr>se_ctrladdr_size := 16\<rparr>) s in
           if isrpcservice (services s1 ! i) then open_rpc E i s1 else open_inet E i s1))"

definition loadconfigent :: "inetd_env \<Rightarrow> servtab \<Rightarrow> inetd \<Rightarrow> inetd" where
  "loadconfigent E cp s0 =
     (let s = canonical_copy E cp s0 in
      case find_same_service cp s of
        Some i \<Rightarrow> if se_checked (services s ! i) then s else open_service E i (redo cp i s)
      | None \<Rightarrow> open_service E 0 (enter cp s))"

section \<open>Reading the configuration\<close>

definition load_fields :: "inetd_env \<Rightarrow> string list \<Rightarrow> inetd \<Rightarrow> inetd" where
  "load_fields E fs s =
     (case assemble_entry E fs of Inl _ \<Rightarrow> s | Inr cp \<Rightarrow> loadconfigent E cp s)"

definition drop_service :: "nat \<Rightarrow> inetd \<Rightarrow> inetd" where
  "drop_service i s =
     (let sep = services s ! i;
          s1 = s\<lparr>services := take i (services s) @ drop (Suc i) (services s)\<rparr>;
          s2 = (if se_fd sep \<noteq> - 1 then close_fd_of (se_fd sep) s1 else s1);
          s3 = (if isrpcservice sep then unregister_rpc sep s2 else s2)
      in if se_family sep = AF_UNIX then effect [Unlink_path (se_service sep)] s3 else s3)"

lemma services_frame [simp]:
  "services (effect es s) = services s"
  "services (close_sock fd s) = services s"
  "services (close_fd_of fd s) = services s"
  "services (start_alarm s) = services s"
  "services (unregister_rpc e s) = services s"
  "services (register_rpc E e s) = services s"
  "services (bump_nofile E s) = services s"
  by (simp_all add: effect_def close_sock_def close_fd_of_def start_alarm_def unregister_rpc_def
        register_rpc_def bump_nofile_def Let_def split: option.splits)

lemma services_drop_service: "services (drop_service i s) = take i (services s) @ drop (Suc i) (services s)"
  by (simp add: drop_service_def Let_def)

function purge :: "nat \<Rightarrow> inetd \<Rightarrow> inetd" where
  "purge i s =
     (if i < length (services s) then
        (if se_checked (services s ! i) then purge (Suc i) s else purge i (drop_service i s))
      else s)"
  by pat_completeness auto
termination
  by (relation "measure (\<lambda>(i, s). length (services s) - i)") (auto simp: services_drop_service)

declare purge.simps [simp del]

text \<open>\<open>None\<close> is a file that could not be opened.\<close>

definition config :: "inetd_env \<Rightarrow> string option \<Rightarrow> inetd \<Rightarrow> inetd" where
  "config E conf s =
     (case conf of
        None \<Rightarrow> s
      | Some f \<Rightarrow>
          (let s1 = s\<lparr>services := map (\<lambda>e. e\<lparr>se_checked := False\<rparr>) (services s)\<rparr> in
           case loadconfigfile f of
             None \<Rightarrow> s1
           | Some es \<Rightarrow> purge 0 (fold (load_fields E) es s1)))"

section \<open>Retrying\<close>

definition restart_one :: "inetd_env \<Rightarrow> nat \<Rightarrow> inetd \<Rightarrow> inetd" where
  "restart_one E i s =
     (if se_fd (services s ! i) = - 1 then
        (let s1 = setup_service E i s
         in if se_fd (services s1 ! i) \<noteq> - 1 \<and> isrpcservice (services s1 ! i)
            then register_rpc E (services s1 ! i) s1 else s1)
      else s)"

definition restart_services :: "inetd_env \<Rightarrow> inetd \<Rightarrow> inetd" where
  "restart_services E s = fold (restart_one E) [0..<length (services s)] s"

definition retry :: "inetd_env \<Rightarrow> inetd \<Rightarrow> inetd" where
  "retry E s = restart_services E (s\<lparr>timingout := False\<rparr>)"

definition goaway_one :: "servtab \<Rightarrow> inetd \<Rightarrow> inetd" where
  "goaway_one e s =
     (if se_fd e = - 1 then s
      else
        let s1 = (case se_family e of
                    AF_UNIX \<Rightarrow> effect [Unlink_path (se_service e)] s
                  | AF_INET \<Rightarrow> if se_wait e = 1 \<and> isrpcservice e then unregister_rpc e s else s)
        in close_sock (se_fd e) s1)"

definition goaway :: "inetd \<Rightarrow> inetd" where
  "goaway s = effect [Unlink_path ''/var/run/inetd.pid'', Exit_process] (fold goaway_one (services s) s)"

end
