(* ===== verification/Inetd_Main.thy ===== *)
theory Inetd_Main
  imports Inetd_Table
begin

text \<open>
  The super-server at work (\<^verbatim>\<open>inetd/inetd.c\<close>, \<^verbatim>\<open>inetd/builtins.c\<close>): starting a server
  for a connection, the limit on how often, collecting the servers that ended, the turns of the main
  loop and the signals between them; and what the child does before it becomes the server. Signals
  are blocked but in \<open>select\<close> and \<open>sigsuspend\<close>, so the handlers never meet.
\<close>

section \<open>Starting servers\<close>

definition CNT_INTVL :: int where "CNT_INTVL = 60"

text \<open>What the system answers while a service is launched: the accepted connection (or whether the
  error was EMFILE), the time, and the result of \<open>fork\<close> in the parent.\<close>

record launch_io =
  li_accept :: "int option"
  li_emfile :: bool
  li_time :: int
  li_fork :: int

datatype count_result = Count int int | Flooded

text \<open>The counter of a service, with the time it was started, when one more server is asked for.\<close>

definition count_server :: "int \<Rightarrow> int \<Rightarrow> int \<Rightarrow> int \<Rightarrow> count_result" where
  "count_server mx t cnt start =
     (if cnt = 0 then Count 1 t
      else if cnt + 1 \<ge> mx then
        (if t - start > CNT_INTVL then Count 1 t else Flooded)
      else Count (cnt + 1) start)"

definition fork_child :: "launch_io \<Rightarrow> nat \<Rightarrow> inetd \<Rightarrow> int \<times> inetd" where
  "fork_child io i s =
     (let sep = services s ! i in
      case count_server (se_max sep) (li_time io) (se_count sep) (se_time sep) of
        Count c t \<Rightarrow> (li_fork io, sep_update i (\<lambda>e. e\<lparr>se_count := c, se_time := t\<rparr>) s)
      | Flooded \<Rightarrow>
          (- 1, start_alarm
                  ((sep_update i (\<lambda>e. e\<lparr>se_fd := - 1, se_count := 0\<rparr>)
                      (close_sock (se_fd sep) (s\<lparr>allsock := allsock s - {se_fd sep}\<rparr>)))
                    \<lparr>nsock := nsock s - 1\<rparr>)))"

definition close_ctrl :: "int \<Rightarrow> nat \<Rightarrow> inetd \<Rightarrow> inetd" where
  "close_ctrl ctrl i s = (if ctrl \<noteq> se_fd (services s ! i) then close_sock ctrl s else s)"

text \<open>The parent's part after the \<open>fork\<close>; a \<open>pid\<close> goes through the C \<open>short\<close>.\<close>

definition after_fork :: "int \<Rightarrow> int \<Rightarrow> nat \<Rightarrow> inetd \<Rightarrow> inetd" where
  "after_fork pid ctrl i s0 =
     (let s = effect [Fork_child pid] s0;
          sep = services s ! i;
          s1 = (if se_wait sep \<noteq> 0 then
                  (sep_update i (\<lambda>e. e\<lparr>se_wait := word_of_int pid\<rparr>) s)
                    \<lparr>allsock := allsock s - {se_fd sep}, nsock := nsock s - 1\<rparr>
                else s)
      in if se_wait (services s1 ! i) = 0 \<and> se_socktype sep = SOCK_STREAM then close_sock ctrl s1 else s1)"

definition launch_with :: "launch_io \<Rightarrow> int \<Rightarrow> nat \<Rightarrow> inetd \<Rightarrow> inetd" where
  "launch_with io ctrl i s =
     (case se_bi (services s ! i) of
        Some b \<Rightarrow>
          if bi_fork b then
            (let (pid, s1) = fork_child io i s
             in if pid < 0 then close_ctrl ctrl i s1 else after_fork pid ctrl i s1)
          else close_ctrl ctrl i (effect [Answer (bi_fn b) ctrl] s)
      | None \<Rightarrow>
          (let (pid, s1) = fork_child io i s
           in if pid < 0 then close_ctrl ctrl i s1 else after_fork pid ctrl i s1))"

definition launch :: "launch_io \<Rightarrow> nat \<Rightarrow> inetd \<Rightarrow> inetd" where
  "launch io i s =
     (let sep = services s ! i in
      if se_wait sep = 0 \<and> se_socktype sep = SOCK_STREAM then
        (case li_accept io of
           None \<Rightarrow> if li_emfile io then s\<lparr>restarting := True\<rparr> else s
         | Some ctrl \<Rightarrow> launch_with io ctrl i s)
      else launch_with io (se_fd sep) i s)"

text \<open>The walk over the descriptors \<open>select\<close> found readable.\<close>

definition serve_fd :: "int set \<Rightarrow> (int \<Rightarrow> launch_io) \<Rightarrow> int \<Rightarrow> inetd \<Rightarrow> inetd" where
  "serve_fd readable io fd s =
     (if fd \<in> readable then
        (case find_service_by_fd fd s of
           None \<Rightarrow> s
         | Some i \<Rightarrow> if se_fd (services s ! i) < 0 then s else launch (io fd) i s)
      else s)"

definition main_turn :: "int set \<Rightarrow> (int \<Rightarrow> launch_io) \<Rightarrow> inetd \<Rightarrow> inetd" where
  "main_turn readable io s = fold (serve_fd readable io) [3..maxsock s] s"

definition reap_one :: "int \<Rightarrow> inetd \<Rightarrow> inetd" where
  "reap_one pid s =
     (case find_service_by_pid pid s of
        None \<Rightarrow> s
      | Some i \<Rightarrow>
          let fd = se_fd (services s ! i); s1 = sep_update i (\<lambda>e. e\<lparr>se_wait := 1\<rparr>) s
          in s1\<lparr>allsock := insert fd (allsock s1), nsock := nsock s1 + 1\<rparr>)"

definition reapchild :: "int list \<Rightarrow> inetd \<Rightarrow> inetd" where
  "reapchild pids s = fold reap_one pids s"

section \<open>The program\<close>

datatype inetd_event =
    Ready "int set" "int \<Rightarrow> launch_io"
  | Reap "int list"
  | Alarm_rings
  | Hangup "string option"

text \<open>With no socket left the loop does not call \<open>select\<close>: it waits for a signal.\<close>

fun inetd_step :: "inetd_env \<Rightarrow> inetd_event \<Rightarrow> inetd \<Rightarrow> inetd" where
  "inetd_step E (Ready readable io) s = (if nsock s = 0 then s else main_turn readable io s)"
| "inetd_step E (Reap pids) s = reapchild pids s"
| "inetd_step E Alarm_rings s = retry E s"
| "inetd_step E (Hangup conf) s = config E conf s"

definition DEFAULT_FILE_LIMIT :: int where "DEFAULT_FILE_LIMIT = 1024"

definition inetd_init :: "int option \<Rightarrow> inetd" where
  "inetd_init rlim =
     (let r = (case rlim of Some l \<Rightarrow> l | None \<Rightarrow> DEFAULT_FILE_LIMIT) in
      \<lparr>services = [], nsock = 0, maxsock = 0, allsock = {}, opened = {}, timingout = False,
       rlim_ofile_cur = r, rlim_soft = r, calls = 0, restarting = False, effects = []\<rparr>)"

definition inetd_start :: "inetd_env \<Rightarrow> int option \<Rightarrow> string option \<Rightarrow> inetd" where
  "inetd_start E rlim conf = config E conf (inetd_init rlim)"

section \<open>The environment it leaves its children\<close>

definition junk :: "string list" where
  "junk = [''CVS'', ''DISPLAY='', ''EDITOR='', ''GROUP='', ''HOME='', ''IFS='', ''LD_'', ''LOGNAME='',
     ''MAIL='', ''PATH='', ''PRINTER='', ''PWD='', ''SHELL='', ''SHLVL='', ''SSH'', ''TERM'', ''TMP'',
     ''USER='', ''VISUAL='']"

definition is_junk :: "string \<Rightarrow> bool" where
  "is_junk v \<longleftrightarrow> (\<exists>j\<in>set junk. take (length j) v = j)"

text \<open>The variables kept are moved down in place: the loop with its two cursors.\<close>

function discard_from :: "nat \<Rightarrow> nat \<Rightarrow> string list \<Rightarrow> string list" where
  "discard_from i k env =
     (if i < length env then
        (if is_junk (env ! i) then discard_from (Suc i) k env
         else discard_from (Suc i) (Suc k) (env[k := env ! i]))
      else take k env)"
  by pat_completeness auto
termination
  by (relation "measure (\<lambda>(i, k, env). length env - i)") auto

declare discard_from.simps [simp del]

definition discard_stupid_environment :: "string list \<Rightarrow> string list" where
  "discard_stupid_environment env = discard_from 0 0 env"

section \<open>The child\<close>

record creds =
  ruid :: int
  euid :: int
  suid :: int
  egid :: int
  sgroups :: "int list"

text \<open>The password and group files, the supplementary groups of a user, and whether each of the
  system calls, by its name, succeeds.\<close>

datatype privcall = Setgid | Initgroups | Setuid | Setgroups

record exec_env =
  getpwnam :: "string \<Rightarrow> (string \<times> int \<times> int) option"
  getgrnam :: "string \<Rightarrow> int option"
  user_groups :: "string \<Rightarrow> int \<Rightarrow> int list"
  call_ok :: "privcall \<Rightarrow> bool"

datatype child = Child_exits | Child_builtin biltin_fn creds | Child_exec string "string list" creds

definition run_server :: "servtab \<Rightarrow> creds \<Rightarrow> child" where
  "run_server sep c =
     (case se_bi sep of Some b \<Rightarrow> Child_builtin (bi_fn b) c | None \<Rightarrow> Child_exec (se_server sep) (se_argv sep) c)"

text \<open>\<open>seteuid(0)\<close> works for a process whose real or saved user is root.\<close>

definition seteuid_root :: "creds \<Rightarrow> creds" where
  "seteuid_root c = (if ruid c = 0 \<or> suid c = 0 then c\<lparr>euid := 0\<rparr> else c)"

definition become_user :: "exec_env \<Rightarrow> servtab \<Rightarrow> string \<Rightarrow> int \<Rightarrow> int \<Rightarrow> creds \<Rightarrow> child" where
  "become_user X sep name uid gid c =
     (if \<not> call_ok X Setgid then Child_exits
      else let c1 = c\<lparr>egid := gid\<rparr> in
        if \<not> call_ok X Initgroups then Child_exits
        else let c2 = c1\<lparr>sgroups := user_groups X name gid\<rparr> in
          if \<not> call_ok X Setuid then Child_exits
          else let c3 = seteuid_root (c2\<lparr>ruid := uid, euid := uid, suid := uid\<rparr>)
               in if ruid c3 = 0 \<or> euid c3 = 0 then Child_exits else run_server sep c3)"

definition exec_child :: "exec_env \<Rightarrow> servtab \<Rightarrow> creds \<Rightarrow> child" where
  "exec_child X sep c =
     (case getpwnam X (se_user sep) of
        None \<Rightarrow> Child_exits
      | Some (name, uid, pgid) \<Rightarrow>
          (case (case se_group sep of None \<Rightarrow> Some pgid | Some g \<Rightarrow> getgrnam X g) of
             None \<Rightarrow> Child_exits
           | Some gid \<Rightarrow>
               if uid \<noteq> 0 then become_user X sep name uid gid c
               else if se_group sep \<noteq> None then
                 (if \<not> call_ok X Setgid then Child_exits
                  else if \<not> call_ok X Setgroups then Child_exits
                  else run_server sep (c\<lparr>egid := gid, sgroups := [gid]\<rparr>))
               else run_server sep c))"

section \<open>The services inside\<close>

definition MINUDPSRCPORT :: int where "MINUDPSRCPORT = 1024"
definition LINESIZ :: nat where "LINESIZ = 72"

text \<open>The answer to a datagram: none to a low port, which may be another server's.\<close>

definition dg_answer :: "u16 \<Rightarrow> u8 list \<Rightarrow> u8 list option" where
  "dg_answer port reply = (if uint port < MINUDPSRCPORT then None else Some reply)"

definition echo_dg :: "u16 \<Rightarrow> u8 list \<Rightarrow> u8 list option" where
  "echo_dg port data = dg_answer port data"

definition isprint :: "nat \<Rightarrow> bool" where
  "isprint i \<longleftrightarrow> 32 \<le> i \<and> i < 127"

definition initring :: "u8 list" where
  "initring = map of_nat (filter isprint [0..<129])"

text \<open>The line from position \<open>rs\<close> of the ring, going round at its end.\<close>

definition chargen_line :: "nat \<Rightarrow> u8 list" where
  "chargen_line rs =
     (let len = length initring - rs in
      (if len \<ge> LINESIZ then take LINESIZ (drop rs initring)
       else drop rs initring @ take (LINESIZ - len) initring) @ [13, 10])"

definition chargen_next :: "nat \<Rightarrow> nat" where
  "chargen_next rs = (if Suc rs = length initring then 0 else Suc rs)"

definition chargen_dg :: "u16 \<Rightarrow> nat \<Rightarrow> u8 list option \<times> nat" where
  "chargen_dg port rs =
     (if uint port < MINUDPSRCPORT then (None, rs) else (Some (chargen_line rs), chargen_next rs))"

fun chargen_stream :: "nat \<Rightarrow> nat \<Rightarrow> u8 list" where
  "chargen_stream 0 rs = []"
| "chargen_stream (Suc n) rs = chargen_line rs @ chargen_stream n (chargen_next rs)"

definition machtime :: "int \<Rightarrow> u32" where
  "machtime t = word_of_int t + 2208988800"

end
