(* ===== verification/Inetd_Invariant.thy ===== *)
theory Inetd_Invariant
  imports Inetd_Main
begin

text \<open>
  The bookkeeping of the super-server's sockets: every open socket of a service that is not
  waiting for its server is one of those \<open>select\<close> looks at, and their number is the counter. First
  the bookkeeping of a list of services, then the operations of the program, then whole runs.
\<close>

section \<open>The bookkeeping\<close>

definition idle :: "servtab \<Rightarrow> bool" where
  "idle e \<longleftrightarrow> se_wait e = 0 \<or> se_wait e = 1"

definition live :: "servtab \<Rightarrow> int set" where
  "live e = (if se_fd e \<noteq> - 1 \<and> idle e then {se_fd e} else {})"

definition socks :: "servtab list \<Rightarrow> int set" where
  "socks L = (\<Union>e\<in>set L. live e)"

definition open_fds :: "servtab list \<Rightarrow> int list" where
  "open_fds L = filter (\<lambda>fd. fd \<noteq> - 1) (map se_fd L)"

definition sock_ok :: "inetd \<Rightarrow> bool" where
  "sock_ok s \<longleftrightarrow>
     finite (opened s) \<and> distinct (open_fds (services s)) \<and>
     set (open_fds (services s)) \<subseteq> opened s \<inter> {0..} \<and>
     (\<forall>e\<in>set (services s). idle e \<or> se_fd e \<noteq> - 1) \<and>
     allsock s = socks (services s) \<and> nsock s = int (card (allsock s))"

definition quiet :: "inetd \<Rightarrow> bool" where
  "quiet s \<longleftrightarrow> (\<forall>e\<in>set (services s). idle e)"

lemma socks_simps [simp]:
  "socks [] = {}" "socks (e # L) = live e \<union> socks L" "socks (L @ M) = socks L \<union> socks M"
  by (auto simp: socks_def)

lemma open_fds_simps [simp]:
  "open_fds [] = []"
  "open_fds (e # L) = (if se_fd e = - 1 then [] else [se_fd e]) @ open_fds L"
  "open_fds (L @ M) = open_fds L @ open_fds M"
  by (auto simp: open_fds_def)

lemma socks_open: "fd \<in> socks L \<Longrightarrow> fd \<in> set (open_fds L)"
  by (auto simp: socks_def live_def open_fds_def split: if_splits)

lemma finite_socks [simp]: "finite (socks L)"
  by (simp add: socks_def live_def)

lemma sock_okD:
  assumes "sock_ok s"
  shows "finite (opened s)" "distinct (open_fds (services s))"
    "set (open_fds (services s)) \<subseteq> opened s" "\<forall>fd\<in>set (open_fds (services s)). 0 \<le> fd"
    "\<forall>e\<in>set (services s). idle e \<or> se_fd e \<noteq> - 1"
    "allsock s = socks (services s)" "nsock s = int (card (socks (services s)))"
  using assms by (auto simp: sock_ok_def)

text \<open>One service of the table in its place.\<close>

lemma services_split:
  assumes "i < length (services s)"
  obtains A e B where "services s = A @ e # B" "length A = i" "services s ! i = e"
  using assms id_take_nth_drop by fastforce

lemma services_sep_update:
  "services s = A @ e # B \<Longrightarrow> length A = i \<Longrightarrow> services (sep_update i f s) = A @ f e # B"
  by (auto simp: sep_update_def)

lemma sep_update_frame [simp]:
  "opened (sep_update i f s) = opened s" "allsock (sep_update i f s) = allsock s"
  "nsock (sep_update i f s) = nsock s" "length (services (sep_update i f s)) = length (services s)"
  "maxsock (sep_update i f s) = maxsock s" "timingout (sep_update i f s) = timingout s"
  "calls (sep_update i f s) = calls s"
  by (simp_all add: sep_update_def)

lemma nth_sep_update [simp]:
  "i < length (services s) \<Longrightarrow> services (sep_update i f s) ! i = f (services s ! i)"
  by (simp add: sep_update_def)

lemma effect_frame [simp]:
  "opened (effect es s) = opened s" "allsock (effect es s) = allsock s" "nsock (effect es s) = nsock s"
  "maxsock (effect es s) = maxsock s" "timingout (effect es s) = timingout s" "calls (effect es s) = calls s"
  by (simp_all add: effect_def)

lemma close_sock_frame [simp]:
  "opened (close_sock fd s) = opened s - {fd}" "allsock (close_sock fd s) = allsock s"
  "nsock (close_sock fd s) = nsock s" "maxsock (close_sock fd s) = maxsock s"
  by (simp_all add: close_sock_def)

lemma start_alarm_frame [simp]:
  "opened (start_alarm s) = opened s" "allsock (start_alarm s) = allsock s"
  "nsock (start_alarm s) = nsock s" "maxsock (start_alarm s) = maxsock s" "timingout (start_alarm s)"
  by (simp_all add: start_alarm_def)

lemma bump_nofile_frame [simp]:
  "opened (bump_nofile E s) = opened s" "allsock (bump_nofile E s) = allsock s"
  "nsock (bump_nofile E s) = nsock s" "timingout (bump_nofile E s) = timingout s"
  by (simp_all add: bump_nofile_def Let_def)

lemma close_fd_of_frame [simp]:
  "opened (close_fd_of fd s) = opened s - {fd}" "allsock (close_fd_of fd s) = allsock s - {fd}"
  "nsock (close_fd_of fd s) = nsock s - 1"
  by (simp_all add: close_fd_of_def)

lemma rpc_frame [simp]:
  "opened (unregister_rpc e s) = opened s" "allsock (unregister_rpc e s) = allsock s"
  "nsock (unregister_rpc e s) = nsock s"
  "opened (register_rpc E e s) = opened s" "allsock (register_rpc E e s) = allsock s"
  "nsock (register_rpc E e s) = nsock s"
  by (simp_all add: unregister_rpc_def register_rpc_def split: option.splits)

text \<open>The bookkeeping depends on four fields of the state only.\<close>

lemma sock_ok_cong:
  "services t = services s \<Longrightarrow> opened t = opened s \<Longrightarrow> allsock t = allsock s \<Longrightarrow> nsock t = nsock s \<Longrightarrow>
   sock_ok t = sock_ok s"
  by (simp add: sock_ok_def)

lemma sock_ok_effects [simp]:
  "sock_ok (effect es s) = sock_ok s" "sock_ok (unregister_rpc e s) = sock_ok s"
  "sock_ok (register_rpc E e s) = sock_ok s" "sock_ok (start_alarm s) = sock_ok s"
  "sock_ok (bump_nofile E s) = sock_ok s"
  by (simp_all add: sock_ok_def)

lemma sock_ok_other:
  assumes "sock_ok s" "services t = A @ e' # B" "services s = A @ e # B"
    "se_fd e' = se_fd e" "idle e' = idle e" "opened t = opened s" "allsock t = allsock s" "nsock t = nsock s"
  shows "sock_ok t"
proof -
  have "open_fds (services t) = open_fds (services s)" "socks (services t) = socks (services s)"
    "(\<forall>x\<in>set (services t). idle x \<or> se_fd x \<noteq> - 1) = (\<forall>x\<in>set (services s). idle x \<or> se_fd x \<noteq> - 1)"
    using assms(2-5) by (simp_all add: live_def)
  with assms(1,6-8) show ?thesis by (simp add: sock_ok_def)
qed

lemma sock_ok_opens:
  assumes "sock_ok s" "services s = A @ e # B" "services t = A @ e' # B" "se_fd e = - 1"
    "se_fd e' = fd" "idle e'" "0 \<le> fd" "fd \<notin> opened s" "opened t = insert fd (opened s)"
    "allsock t = insert fd (allsock s)" "nsock t = nsock s + 1"
  shows "sock_ok t"
proof -
  note ok = sock_okD [OF assms(1)]
  have new: "fd \<notin> set (open_fds (services s))" using ok(3) assms(8) by blast
  then have "fd \<notin> socks (services s)" using socks_open by blast
  moreover have "fd \<noteq> - 1" using assms(7) by simp
  ultimately show ?thesis using ok new assms by (auto simp: sock_ok_def live_def)
qed

lemma sock_ok_shrinks:
  assumes "sock_ok s" "services s = A @ e # B" "services t = A @ e' # B" "se_fd e \<noteq> - 1" "idle e"
    "opened t \<subseteq> opened s" "opened s - {se_fd e} \<subseteq> opened t"
    "se_fd e' = - 1 \<and> idle e' \<or> se_fd e' = se_fd e \<and> \<not> idle e' \<and> opened t = opened s"
    "allsock t = allsock s - {se_fd e}" "nsock t = nsock s - 1"
  shows "sock_ok t"
proof -
  note ok = sock_okD [OF assms(1)]
  have fresh: "se_fd e \<notin> set (open_fds (A @ B))" "se_fd e \<notin> socks (A @ B)"
    using ok(2) assms(2,4) socks_open [of "se_fd e" "A @ B"] by auto
  have S: "socks (services s) = insert (se_fd e) (socks (A @ B))"
    using assms(2,4,5) by (auto simp: live_def)
  have T: "socks (services t) = socks (A @ B)"
    using assms(3,8) by (auto simp: live_def)
  have "allsock t = socks (services t)" using S T fresh(2) ok(6) assms(9) by auto
  moreover have "card (socks (services s)) = Suc (card (socks (A @ B)))"
    unfolding S using fresh(2) by (rule card_insert_disjoint [OF finite_socks])
  then have "nsock t = int (card (socks (services t)))" using T ok(7) assms(10) by simp
  moreover have "finite (opened t)" using ok(1) assms(6) by (rule rev_finite_subset)
  moreover have "distinct (open_fds (services t)) \<and> set (open_fds (services t)) \<subseteq> opened t \<inter> {0..}"
    using assms(2-4,7,8) ok(2-4) fresh(1) by auto
  moreover have "\<forall>x\<in>set (services t). idle x \<or> se_fd x \<noteq> - 1"
    using assms(2-4,8) ok(5) by auto
  ultimately show ?thesis by (simp add: sock_ok_def)
qed

lemma sock_ok_restores:
  assumes "sock_ok s" "services s = A @ e # B" "services t = A @ e' # B" "\<not> idle e"
    "se_fd e' = se_fd e" "idle e'" "opened t = opened s"
    "allsock t = insert (se_fd e) (allsock s)" "nsock t = nsock s + 1"
  shows "sock_ok t"
proof -
  note ok = sock_okD [OF assms(1)]
  have fd: "se_fd e \<noteq> - 1" using ok(5) assms(2,4) by auto
  then have "se_fd e \<notin> socks (A @ B)" "live e = {}"
    using ok(2) assms(2,4) socks_open [of "se_fd e" "A @ B"] by (auto simp: live_def)
  then show ?thesis using ok fd assms by (auto simp: sock_ok_def live_def)
qed

section \<open>Opening and closing\<close>

text \<open>What \<open>socket\<close> promises: a descriptor that is not open.\<close>

definition sockets_fresh :: "inetd_env \<Rightarrow> bool" where
  "sockets_fresh E \<longleftrightarrow>
     (\<forall>n U fd. finite U \<longrightarrow> new_socket E n U = Sock_fd fd \<longrightarrow> 0 \<le> fd \<and> fd \<notin> U)"

text \<open>The services without their descriptors; what a service is known by, its mark, and what the
  configuration says of it.\<close>

definition sans_fd :: "inetd \<Rightarrow> servtab list" where
  "sans_fd s = map (\<lambda>e. e\<lparr>se_fd := - 1\<rparr>) (services s)"

definition key :: "servtab \<Rightarrow> string \<times> string \<times> u32 option" where
  "key e = (se_service e, se_proto e, map_option (\<lambda>_. se_sin_addr e) (se_address e))"

type_synonym skey = "string \<times> string \<times> u32 option"
type_synonym sdata = "string \<times> string \<times> string list \<times> int \<times> int \<times> int"

definition about :: "servtab \<Rightarrow> sdata" where
  "about e = (se_user e, se_server e, se_argv e, se_max e, se_rpcversl e, se_rpcversh e)"

definition mark_of :: "servtab \<Rightarrow> skey \<times> bool \<times> sdata" where
  "mark_of e = (key e, se_checked e, about e)"

definition marks :: "inetd \<Rightarrow> (skey \<times> bool \<times> sdata) list" where
  "marks s = map mark_of (services s)"

lemma same_service_key: "same_service cp e \<longleftrightarrow> key e = key cp"
  by (auto simp: same_service_def key_def split: option.splits)

lemma quiet_sans: "sans_fd t = sans_fd s \<Longrightarrow> quiet t = quiet s"
proof -
  have "quiet s \<longleftrightarrow> (\<forall>e\<in>set (sans_fd s). idle e)" for s
    by (auto simp: quiet_def sans_fd_def idle_def)
  then show "sans_fd t = sans_fd s \<Longrightarrow> quiet t = quiet s" by simp
qed

lemma marks_sans: "sans_fd t = sans_fd s \<Longrightarrow> marks t = marks s"
proof -
  have "marks s = map mark_of (sans_fd s)" for s
    by (simp add: marks_def sans_fd_def mark_of_def key_def about_def)
  then show "sans_fd t = sans_fd s \<Longrightarrow> marks t = marks s" by simp
qed

lemma length_sans: "length (sans_fd s) = length (services s)"
  by (simp add: sans_fd_def)

lemma nth_sans: "i < length (services s) \<Longrightarrow> sans_fd s ! i = (services s ! i)\<lparr>se_fd := - 1\<rparr>"
  by (simp add: sans_fd_def)

lemma sans_effects [simp]:
  "sans_fd (effect es s) = sans_fd s" "sans_fd (close_sock fd s) = sans_fd s"
  "sans_fd (close_fd_of fd s) = sans_fd s" "sans_fd (start_alarm s) = sans_fd s"
  "sans_fd (unregister_rpc e s) = sans_fd s" "sans_fd (register_rpc E e s) = sans_fd s"
  "sans_fd (bump_nofile E s) = sans_fd s"
  by (simp_all add: sans_fd_def)

lemma sans_same_services: "services t = services s \<Longrightarrow> sans_fd t = sans_fd s"
  by (simp add: sans_fd_def)

lemma sans_only_fd:
  "services t = A @ e\<lparr>se_fd := fd\<rparr> # B \<Longrightarrow> services s = A @ e # B \<Longrightarrow> sans_fd t = sans_fd s"
  by (simp add: sans_fd_def)

lemma setup_service_fails:
  assumes "i < length (services s)"
    "case new_socket E (calls s) (opened s) of Sock_error _ \<Rightarrow> True
       | Sock_fd f \<Rightarrow> \<not> bind_ok E (calls s) \<and> f \<notin> opened s"
  shows "services (setup_service E i s) = services (sep_update i (\<lambda>e. e\<lparr>se_fd := - 1\<rparr>) s)
    \<and> opened (setup_service E i s) = opened s \<and> allsock (setup_service E i s) = allsock s
    \<and> nsock (setup_service E i s) = nsock s"
  using assms by (cases "new_socket E (calls s) (opened s)")
    (simp_all add: setup_service_def Let_def sep_update_def)

lemma setup_service_opens:
  assumes "i < length (services s)" "new_socket E (calls s) (opened s) = Sock_fd f" "bind_ok E (calls s)"
  shows "services (setup_service E i s) = services (sep_update i (\<lambda>e. e\<lparr>se_fd := f\<rparr>) s)
    \<and> opened (setup_service E i s) = insert f (opened s)
    \<and> allsock (setup_service E i s) = insert f (allsock s) \<and> nsock (setup_service E i s) = nsock s + 1"
  using assms by (simp add: setup_service_def Let_def sep_update_def effect_def bump_nofile_def)

lemma setup_service_ok:
  assumes "sockets_fresh E" "sock_ok s" "i < length (services s)" "se_fd (services s ! i) = - 1"
  shows "sock_ok (setup_service E i s) \<and> sans_fd (setup_service E i s) = sans_fd s"
proof -
  obtain A e B where e: "services s = A @ e # B" "length A = i" "services s ! i = e"
    using assms(3) by (rule services_split)
  note ok = sock_okD [OF assms(2)] and upd = services_sep_update [OF e(1,2)]
  have idle: "idle e" using ok(5) e assms(4) by auto
  have fresh: "new_socket E (calls s) (opened s) = Sock_fd f \<Longrightarrow> 0 \<le> f \<and> f \<notin> opened s" for f
    using assms(1) ok(1) by (simp add: sockets_fresh_def)
  show ?thesis
  proof (cases "\<exists>f. new_socket E (calls s) (opened s) = Sock_fd f \<and> bind_ok E (calls s)")
    case True
    then obtain f where f: "new_socket E (calls s) (opened s) = Sock_fd f" "bind_ok E (calls s)" by blast
    from setup_service_opens [OF assms(3) f] upd
    have t: "services (setup_service E i s) = A @ e\<lparr>se_fd := f\<rparr> # B" by simp
    have "sock_ok (setup_service E i s)"
      by (rule sock_ok_opens [OF assms(2) e(1) t, of f])
        (use setup_service_opens [OF assms(3) f] fresh [OF f(1)] e(3) assms(4) idle in \<open>simp_all add: idle_def\<close>)
    with sans_only_fd [OF t e(1)] show ?thesis by simp
  next
    case False
    then have c: "case new_socket E (calls s) (opened s) of Sock_error _ \<Rightarrow> True
       | Sock_fd f \<Rightarrow> \<not> bind_ok E (calls s) \<and> f \<notin> opened s"
      using fresh by (auto split: sock_ret.splits)
    from setup_service_fails [OF assms(3) c] upd
    have t: "services (setup_service E i s) = A @ e\<lparr>se_fd := - 1\<rparr> # B" by simp
    have "sock_ok (setup_service E i s)"
      by (rule sock_ok_other [OF assms(2) t e(1)])
        (use setup_service_fails [OF assms(3) c] e(3) assms(4) in \<open>simp_all add: idle_def\<close>)
    with sans_only_fd [OF t e(1)] show ?thesis by simp
  qed
qed

lemma closeit_ok:
  assumes "sock_ok s" "i < length (services s)" "se_fd (services s ! i) \<noteq> - 1" "idle (services s ! i)"
  shows "sock_ok (closeit i s)" "sans_fd (closeit i s) = sans_fd s" "se_fd (services (closeit i s) ! i) = - 1"
proof -
  obtain A e B where e: "services s = A @ e # B" "length A = i" "services s ! i = e"
    using assms(2) by (rule services_split)
  have t: "services (closeit i s) = A @ e\<lparr>se_fd := - 1\<rparr> # B"
    using services_sep_update [of "close_fd_of (se_fd e) s" A e B i] e by (simp add: closeit_def)
  have fr: "opened (closeit i s) = opened s - {se_fd e}" "allsock (closeit i s) = allsock s - {se_fd e}"
    "nsock (closeit i s) = nsock s - 1"
    using e(3) by (simp_all add: closeit_def)
  show "sock_ok (closeit i s)"
    by (rule sock_ok_shrinks [OF assms(1) e(1) t]) (use assms(3,4) e(3) fr in \<open>auto simp: idle_def\<close>)
  show "sans_fd (closeit i s) = sans_fd s" using t e(1) by (rule sans_only_fd)
  show "se_fd (services (closeit i s) ! i) = - 1" using t e(2) by auto
qed

lemma sep_update_ok:
  assumes "sock_ok s" "i < length (services s)"
    "\<And>e. se_fd (f e) = se_fd e" "idle (f (services s ! i)) = idle (services s ! i)"
  shows "sock_ok (sep_update i f s)"
proof -
  obtain A e B where e: "services s = A @ e # B" "length A = i" "services s ! i = e"
    using assms(2) by (rule services_split)
  show ?thesis
    by (rule sock_ok_other [OF assms(1) services_sep_update [OF e(1,2)] e(1)]) (use assms e in auto)
qed

lemma sans_sep_update:
  "sans_fd (sep_update i f s) = (sans_fd s)[i := (f (services s ! i))\<lparr>se_fd := - 1\<rparr>]"
  by (simp add: sans_fd_def sep_update_def map_update)

section \<open>Taking over entries\<close>

text \<open>The bookkeeping is right, no service waits, and the services and their marks are these.\<close>

definition fine :: "(skey \<times> bool \<times> sdata) list \<Rightarrow> inetd \<Rightarrow> bool" where
  "fine m s \<longleftrightarrow> sock_ok s \<and> quiet s \<and> marks s = m"

lemma fineD:
  "fine m s \<Longrightarrow> sock_ok s" "fine m s \<Longrightarrow> quiet s" "fine m s \<Longrightarrow> marks s = m"
  "fine m s \<Longrightarrow> length (services s) = length m"
  by (auto simp: fine_def marks_def)

lemma fine_sans: "fine m s \<Longrightarrow> sock_ok t \<Longrightarrow> sans_fd t = sans_fd s \<Longrightarrow> fine m t"
  by (simp add: fine_def quiet_sans [of t s] marks_sans [of t s])

lemma quiet_idle: "quiet s \<Longrightarrow> i < length (services s) \<Longrightarrow> idle (services s ! i)"
  by (simp add: quiet_def)

lemma fine_effects [simp]:
  "fine m (effect es s) = fine m s" "fine m (unregister_rpc e s) = fine m s"
  "fine m (register_rpc E e s) = fine m s"
  by (simp_all add: fine_def quiet_def marks_def)

lemma quiet_sep_update: "quiet s \<Longrightarrow> idle (f (services s ! i)) \<Longrightarrow> quiet (sep_update i f s)"
  by (auto simp: quiet_def sep_update_def dest!: set_update_subset_insert [THEN subsetD])

lemma fine_update:
  assumes "fine m s" "i < length m" "\<And>e. se_fd (f e) = se_fd e" "idle (f (services s ! i))"
  shows "fine (m[i := mark_of (f (services s ! i))]) (sep_update i f s)"
proof -
  have i: "i < length (services s)" using assms(1,2) by (simp add: fineD(4))
  have "sock_ok (sep_update i f s)"
    using sep_update_ok [OF fineD(1) [OF assms(1)] i assms(3)] assms(4) quiet_idle [OF fineD(2) [OF assms(1)] i]
    by simp
  moreover have "quiet (sep_update i f s)"
    using fineD(2) [OF assms(1)] assms(4) by (rule quiet_sep_update)
  moreover have "marks (sep_update i f s) = m[i := mark_of (f (services s ! i))]"
    using fineD(3) [OF assms(1)] by (auto simp: marks_def sep_update_def map_update)
  ultimately show ?thesis by (simp add: fine_def)
qed

lemma fine_nth: "fine m s \<Longrightarrow> i < length m \<Longrightarrow> m ! i = mark_of (services s ! i)"
  by (auto simp: fine_def marks_def)

lemma fine_data:
  assumes "fine m s" "i < length m"
    "\<And>e. se_fd (f e) = se_fd e \<and> se_wait (f e) = se_wait e \<and> mark_of (f e) = mark_of e"
  shows "fine m (sep_update i f s)"
proof -
  have "idle (services s ! i)" using assms(1,2) by (simp add: fineD(4) quiet_idle fineD(2))
  then have "idle (f (services s ! i))" using assms(3) by (simp add: idle_def)
  with fine_update [of m s i f] assms
  have "fine (m[i := mark_of (services s ! i)]) (sep_update i f s)" by simp
  then show ?thesis unfolding fine_nth [OF assms(1,2), symmetric] by simp
qed

lemma fine_setup:
  assumes "sockets_fresh E" "fine m s" "i < length m"
  shows "fine m (setup_if_closed E i s)"
proof (cases "se_fd (services s ! i) = - 1")
  case True
  have "i < length (services s)" using assms(2,3) by (simp add: fineD(4))
  from setup_service_ok [OF assms(1) fineD(1) [OF assms(2)] this True] True assms(2)
  show ?thesis by (auto simp: setup_if_closed_def intro: fine_sans)
qed (use assms(2) in \<open>simp add: setup_if_closed_def\<close>)

lemma fine_register: "fine m s \<Longrightarrow> fine m (register_if_open E i s)"
  by (simp add: register_if_open_def)

lemma fine_closeit:
  assumes "fine m s" "i < length m" "se_fd (services s ! i) \<noteq> - 1"
  shows "fine m (closeit i s)"
proof -
  have i: "i < length (services s)" using assms(1,2) by (simp add: fineD(4))
  from closeit_ok(1,2) [OF fineD(1) [OF assms(1)] i assms(3) quiet_idle [OF fineD(2) [OF assms(1)] i]]
  show ?thesis by (rule fine_sans [OF assms(1)])
qed

lemma fine_open_unix:
  assumes "sockets_fresh E" "fine m s" "i < length m"
  shows "fine m (open_unix E i s)"
proof -
  define t where "t = sep_update i
      (\<lambda>e. e\<lparr>se_sun_path := take SUN_PATH_MAX (se_service (services s ! i)),
             se_ctrladdr_size := int (length (take SUN_PATH_MAX (se_service (services s ! i)))) + 2\<rparr>)
      (effect [Unlink_path (se_service (services s ! i))] s)"
  have i: "i < length (services s)" using assms(2,3) by (simp add: fineD(4))
  have t: "fine m t" unfolding t_def by (rule fine_data) (use assms in \<open>simp_all add: mark_of_def key_def about_def\<close>)
  show ?thesis
  proof (cases "se_fd (services s ! i) = - 1")
    case True
    then have "se_fd (services t ! i) = - 1" using i by (simp add: t_def)
    then have "fine m (setup_service E i t)"
      using fine_setup [OF assms(1) t assms(3)] by (simp add: setup_if_closed_def)
    with True show ?thesis by (simp add: open_unix_def Let_def t_def)
  qed (use assms(2) in \<open>simp add: open_unix_def Let_def\<close>)
qed

lemma fine_open_rpc:
  assumes "sockets_fresh E" "fine m s" "i < length m"
  shows "fine m (open_rpc E i s)"
proof -
  have u: "fine m u \<Longrightarrow> fine m (sep_update i (\<lambda>e. e\<lparr>se_rpcprog := p\<rparr>) u)" for p u
    by (rule fine_data) (use assms(3) in \<open>simp_all add: mark_of_def key_def about_def\<close>)
  show ?thesis
    unfolding open_rpc_def Let_def
    by (auto split: option.split intro!: fine_register fine_setup u assms)
qed

lemma fine_open_inet:
  assumes "sockets_fresh E" "fine m s" "i < length m"
  shows "fine m (open_inet E i s)"
proof -
  have i: "i < length (services s)" using assms(2,3) by (simp add: fineD(4))
  have u: "fine m (sep_update i (\<lambda>e. e\<lparr>se_sin_port := p\<rparr>) s)" for p
    by (rule fine_data) (use assms in \<open>simp_all add: mark_of_def key_def about_def\<close>)
  show ?thesis
    unfolding open_inet_def Let_def using i
    by (auto split: option.split intro!: fine_setup fine_closeit u assms)
qed

lemma fine_open_service:
  assumes "sockets_fresh E" "fine m s" "i < length m"
  shows "fine (m[i := (fst (m ! i), True, snd (snd (m ! i)))]) (open_service E i s)"
proof -
  define t where "t = sep_update i (\<lambda>e. e\<lparr>se_checked := True\<rparr>) s"
  have i: "i < length (services s)" using assms(2,3) by (simp add: fineD(4))
  have t: "fine (m[i := (fst (m ! i), True, snd (snd (m ! i)))]) t"
    using fine_update [OF assms(2,3), of "\<lambda>e. e\<lparr>se_checked := True\<rparr>"] fine_nth [OF assms(2,3)]
      quiet_idle [OF fineD(2) [OF assms(2)] i]
    by (simp add: t_def mark_of_def key_def about_def idle_def)
  have u: "fine (m[i := (fst (m ! i), True, snd (snd (m ! i)))]) (sep_update i (\<lambda>e. e\<lparr>se_ctrladdr_size := 16\<rparr>) t)"
    by (rule fine_data [OF t]) (use assms(3) in \<open>simp_all add: mark_of_def key_def about_def\<close>)
  show ?thesis
    unfolding open_service_def Let_def t_def [symmetric]
    using assms(1,3) t u
    by (auto split: family.split intro: fine_open_unix fine_open_rpc fine_open_inet)
qed

lemma first_pos_Some: "first_pos P xs = Some i \<Longrightarrow> i < length xs \<and> P (xs ! i) \<and> (\<forall>j<i. \<not> P (xs ! j))"
  by (induction xs arbitrary: i) (auto split: if_splits simp: less_Suc_eq_0_disj nth_Cons')

lemma first_pos_None: "first_pos P xs = None \<longleftrightarrow> (\<forall>x\<in>set xs. \<not> P x)"
  by (induction xs) auto


section \<open>What the table becomes\<close>

text \<open>
  The specification of taking over an entry, on the list of keys with their marks and data: the
  first entry for a key since the marks were cleared is taken, later ones are not.
\<close>

definition remark :: "'k \<Rightarrow> 'd \<Rightarrow> 'k \<times> bool \<times> 'd \<Rightarrow> 'k \<times> bool \<times> 'd" where
  "remark k d p = (if fst p = k \<and> \<not> fst (snd p) then (k, True, d) else p)"

definition take_over :: "'k \<Rightarrow> 'd \<Rightarrow> ('k \<times> bool \<times> 'd) list \<Rightarrow> ('k \<times> bool \<times> 'd) list" where
  "take_over k d m =
     (if k \<in> fst ` set m
      then map (remark k d) m else (k, True, d) # m)"

lemma fst_remark [simp]: "fst (remark k d p) = fst p"
  by (simp add: remark_def)

lemma fine_redo:
  assumes "fine m s" "i < length m" "fst (m ! i) = key cp" "idle cp"
  shows "fine (m[i := (key cp, fst (snd (m ! i)), about cp)]) (redo cp i s)"
proof -
  define t where "t = (if isrpcservice (services s ! i) then unregister_rpc (services s ! i) s else s)"
  have t: "fine m t" "services t = services s" using assms(1) by (simp_all add: t_def)
  have "idle (services s ! i)" using assms(1,2) by (simp add: fineD(4) quiet_idle fineD(2))
  then have "idle (redo_entry cp (services t ! i))" using assms(4) t(2) by (simp add: redo_entry_def idle_def)
  moreover have "mark_of (redo_entry cp (services t ! i)) = (key cp, fst (snd (m ! i)), about cp)"
    using fine_nth [OF assms(1,2)] assms(3) t(2)
    by (auto simp: mark_of_def redo_entry_def key_def about_def split: if_splits)
  ultimately show ?thesis
    using fine_update [OF t(1) assms(2), of "redo_entry cp"]
    by (simp add: redo_def Let_def t_def [symmetric] redo_entry_def)
qed

lemma fine_enter:
  assumes "fine m s" "idle cp"
  shows "fine (mark_of cp # m) (enter cp s)"
  using assms
  by (simp add: fine_def sock_ok_def enter_def quiet_def marks_def mark_of_def key_def about_def idle_def live_def)

lemma canonical_copy_frame [simp]:
  "services (canonical_copy E cp s) = services s" "fine m (canonical_copy E cp s) = fine m s"
  by (simp_all add: canonical_copy_def Let_def split: option.splits)

lemma take_over_update:
  assumes "distinct (map fst m)" "i < length m" "fst (m ! i) = k" "\<not> fst (snd (m ! i))"
  shows "take_over k d m = m[i := (k, True, d)]"
proof (rule nth_equalityI)
  have k: "k \<in> fst ` set m" using assms(2,3) by force
  then show "length (take_over k d m) = length (m[i := (k, True, d)])" by (simp add: take_over_def)
  show "take_over k d m ! j = m[i := (k, True, d)] ! j" if "j < length (take_over k d m)" for j
  proof -
    have j: "j < length m" using that k by (simp add: take_over_def)
    then have "fst (m ! j) = k \<longleftrightarrow> j = i"
      using assms(1-3) nth_eq_iff_index_eq [OF assms(1), of j i] by auto
    with j k assms show ?thesis by (auto simp: take_over_def remark_def)
  qed
qed

lemma take_over_marked:
  assumes "distinct (map fst m)" "i < length m" "fst (m ! i) = k" "fst (snd (m ! i))"
  shows "take_over k d m = m"
proof -
  have k: "k \<in> fst ` set m" using assms(2,3) by force
  have "p \<in> set m \<Longrightarrow> fst p = k \<Longrightarrow> fst (snd p)" for p
    using assms distinct_map_eq [OF assms(1), of p "m ! i"] by (metis nth_mem)
  then have "map (remark k d) m = m"
    by (intro map_idI) (auto simp: remark_def)
  with k show ?thesis by (simp add: take_over_def)
qed

lemma loadconfigent_takes_over:
  assumes "sockets_fresh E" "fine m s" "distinct (map fst m)" "idle cp"
  shows "fine (take_over (key cp) (about cp) m) (loadconfigent E cp s)"
proof -
  define s1 where "s1 = canonical_copy E cp s"
  have s1: "fine m s1" "services s1 = services s" using assms(2) by (simp_all add: s1_def)
  have marks: "m = map mark_of (services s)" using fineD(3) [OF assms(2)] by (simp add: marks_def)
  show ?thesis
  proof (cases "find_same_service cp s1")
    case None
    then have "key cp \<notin> fst ` set m"
      unfolding find_same_service_def first_pos_None s1(2) marks
      by (auto simp: same_service_key mark_of_def)
    moreover have "fine (mark_of cp # m) (enter cp s1)" using s1(1) assms(4) by (rule fine_enter)
    from fine_open_service [OF assms(1) this, of 0]
    have "fine ((key cp, True, about cp) # m) (open_service E 0 (enter cp s1))" by (simp add: mark_of_def)
    ultimately show ?thesis
      using None by (simp add: loadconfigent_def Let_def s1_def [symmetric] take_over_def)
  next
    case (Some i)
    then have i: "i < length m" "fst (m ! i) = key cp" "fst (snd (m ! i)) = se_checked (services s1 ! i)"
      unfolding find_same_service_def s1(2)
      by (auto dest!: first_pos_Some simp: same_service_key marks mark_of_def)
    show ?thesis
    proof (cases "se_checked (services s1 ! i)")
      case True
      with take_over_marked [OF assms(3) i(1,2)] i(3) Some s1 show ?thesis
        by (simp add: loadconfigent_def Let_def s1_def [symmetric])
    next
      case False
      from fine_open_service [OF assms(1) fine_redo [OF s1(1) i(1,2) assms(4)], of i] i(1)
      have "fine (m[i := (key cp, True, about cp)]) (open_service E i (redo cp i s1))" by simp
      with take_over_update [OF assms(3) i(1,2)] False i(3) Some show ?thesis
        by (simp add: loadconfigent_def Let_def s1_def [symmetric])
    qed
  qed
qed

end
