(* ===== verification/Inetd_Runs.thy ===== *)
theory Inetd_Runs
  imports Inetd_Invariant
begin

text \<open>
  Whole runs of the super-server: reading the configuration as the specification on keys and
  data, the turns of the main loop, and the states the program can be in.
\<close>

section \<open>Purging\<close>

text \<open>The bookkeeping with a counter that is too low by \<open>n\<close>.\<close>

definition sock_off :: "nat \<Rightarrow> inetd \<Rightarrow> bool" where
  "sock_off n s \<longleftrightarrow> sock_ok (s\<lparr>nsock := nsock s + int n\<rparr>)"

lemma sock_off_0 [simp]: "sock_off 0 s = sock_ok s"
  by (simp add: sock_off_def)

lemma drop_service_frame:
  assumes "services s = A @ e # B" "length A = i"
  shows "services (drop_service i s) = A @ B"
    "opened (drop_service i s) = (if se_fd e = - 1 then opened s else opened s - {se_fd e})"
    "allsock (drop_service i s) = (if se_fd e = - 1 then allsock s else allsock s - {se_fd e})"
    "nsock (drop_service i s) = (if se_fd e = - 1 then nsock s else nsock s - 1)"
  using assms by (auto simp: drop_service_def Let_def)

lemma drop_service_off:
  assumes "sock_off n s" "i < length (services s)"
  shows "sock_off (if idle (services s ! i) then n else Suc n) (drop_service i s)"
proof -
  obtain A e B where e: "services s = A @ e # B" "length A = i" "services s ! i = e"
    using assms(2) by (rule services_split)
  note t = drop_service_frame [OF e(1,2)]
  define u where "u = s\<lparr>nsock := nsock s + int n\<rparr>"
  have ok: "sock_ok u" and u: "services u = A @ e # B" "opened u = opened s" "allsock u = allsock s"
    using assms(1) e(1) by (simp_all add: sock_off_def u_def)
  note okD = sock_okD [OF ok, unfolded u]
  have nsock: "nsock s + int n = int (card (allsock s))" using okD(6,7) by (simp add: u_def)
  have fresh: "se_fd e \<noteq> - 1 \<Longrightarrow> se_fd e \<notin> set (open_fds (A @ B)) \<and> se_fd e \<notin> socks (A @ B)"
    using okD(2) socks_open [of "se_fd e" "A @ B"] by auto
  have all: "allsock (drop_service i s) = socks (A @ B)"
    using fresh okD(6) t(3) by (auto simp: live_def)
  have "int (card (allsock s)) = int (card (socks (A @ B))) + (if se_fd e \<noteq> - 1 \<and> idle e then 1 else 0)"
    using fresh okD(6) by (auto simp: live_def card_insert_if)
  moreover have "idle e \<or> se_fd e \<noteq> - 1" using okD(5) by simp
  ultimately have "nsock (drop_service i s) + int (if idle e then n else Suc n) = int (card (socks (A @ B)))"
    using nsock t(4) by auto
  moreover have "distinct (open_fds (A @ B)) \<and> set (open_fds (A @ B)) \<subseteq> opened (drop_service i s) \<inter> {0..}"
    using okD(2-4) fresh t(2) by auto
  ultimately show ?thesis
    using okD(1,5) all t e(3) by (simp add: sock_off_def sock_ok_def)
qed

definition lost :: "inetd \<Rightarrow> nat" where
  "lost s = length (filter (\<lambda>e. \<not> se_checked e \<and> \<not> idle e) (services s))"

lemma purge_off:
  "sock_off n s \<Longrightarrow>
   services (purge i s) = take i (services s) @ filter se_checked (drop i (services s)) \<and>
   sock_off (n + length (filter (\<lambda>e. \<not> se_checked e \<and> \<not> idle e) (drop i (services s)))) (purge i s)"
proof (induction i s arbitrary: n rule: purge.induct)
  case (1 i s)
  show ?case
  proof (cases "i < length (services s)")
    case False
    with 1(3) show ?thesis by (subst (1 2) purge.simps) simp
  next
    case True
    obtain A e B where e: "services s = A @ e # B" "length A = i" "services s ! i = e"
      using True by (rule services_split)
    show ?thesis
    proof (cases "se_checked e")
      case True
      with 1(1) [OF \<open>i < length (services s)\<close> _ 1(3)] e \<open>i < length (services s)\<close>
      have IH: "services (purge (Suc i) s) = take (Suc i) (services s) @ filter se_checked (drop (Suc i) (services s)) \<and>
        sock_off (n + length (filter (\<lambda>e. \<not> se_checked e \<and> \<not> idle e) (drop (Suc i) (services s)))) (purge (Suc i) s)"
        by simp
      have "purge i s = purge (Suc i) s" using True e(3) \<open>i < length (services s)\<close> by (subst purge.simps) simp
      with IH True e show ?thesis by simp
    next
      case False
      note off = drop_service_off [OF 1(3) \<open>i < length (services s)\<close>]
      have eq: "purge i s = purge i (drop_service i s)"
        using False e(3) \<open>i < length (services s)\<close> by (subst purge.simps) simp
      from 1(2) [OF \<open>i < length (services s)\<close> _ off] False e(3)
        drop_service_frame(1) [OF e(1,2)] False e eq
      show ?thesis by (cases "idle e") simp_all
    qed
  qed
qed

lemma purge_marks:
  assumes "fine m s"
  shows "fine (filter (\<lambda>(k, b, d). b) m) (purge 0 s)"
proof -
  have "sock_off 0 s" using fineD(1) [OF assms] by simp
  from purge_off [OF this, of 0]
  have p: "services (purge 0 s) = filter se_checked (services s)"
    "sock_off (length (filter (\<lambda>e. \<not> se_checked e \<and> \<not> idle e) (services s))) (purge 0 s)" by simp_all
  have "filter (\<lambda>e. \<not> se_checked e \<and> \<not> idle e) (services s) = []"
    using fineD(2) [OF assms] by (auto simp: quiet_def filter_empty_conv)
  moreover have "marks (purge 0 s) = filter (\<lambda>(k, b, d). b) m"
    using fineD(3) [OF assms] p(1) by (auto simp: marks_def filter_map o_def mark_of_def)
  ultimately show ?thesis
    using p fineD(2) [OF assms] by (auto simp: fine_def quiet_def)
qed

section \<open>Reading the configuration\<close>

lemma assemble_entry_idle: "assemble_entry E fs = Inr cp \<Longrightarrow> idle cp"
  by (auto simp: assemble_entry_def entry_rest_def idle_def Let_def split: prod.splits option.splits
      sum.splits if_splits)

fun take_over_all :: "inetd_env \<Rightarrow> string list list \<Rightarrow> (skey \<times> bool \<times> sdata) list \<Rightarrow> (skey \<times> bool \<times> sdata) list" where
  "take_over_all E [] m = m"
| "take_over_all E (fs # es) m =
     take_over_all E es (case assemble_entry E fs of Inl _ \<Rightarrow> m | Inr cp \<Rightarrow> take_over (key cp) (about cp) m)"

lemma take_over_distinct: "distinct (map fst m) \<Longrightarrow> distinct (map fst (take_over k d m))"
  by (simp add: take_over_def o_def)

lemma remark_in:
  "(k, True, d) \<in> remark k' d' ` set m \<longleftrightarrow>
     (k, True, d) \<in> set m \<or> k = k' \<and> d = d' \<and> (\<exists>d0. (k', False, d0) \<in> set m)"
proof
  assume "(k, True, d) \<in> remark k' d' ` set m"
  then obtain p where p: "p \<in> set m" "(k, True, d) = remark k' d' p" by blast
  then show "(k, True, d) \<in> set m \<or> k = k' \<and> d = d' \<and> (\<exists>d0. (k', False, d0) \<in> set m)"
    by (cases p rule: prod_cases3) (auto simp: remark_def split: if_splits)
next
  assume "(k, True, d) \<in> set m \<or> k = k' \<and> d = d' \<and> (\<exists>d0. (k', False, d0) \<in> set m)"
  then show "(k, True, d) \<in> remark k' d' ` set m"
  proof (elim disjE conjE exE)
    assume "(k, True, d) \<in> set m"
    then show ?thesis by (intro image_eqI [of _ _ "(k, True, d)"]) (simp_all add: remark_def)
  next
    fix d0 assume "k = k'" "d = d'" "(k', False, d0) \<in> set m"
    then show ?thesis by (intro image_eqI [of _ _ "(k', False, d0)"]) (simp_all add: remark_def)
  qed
qed

lemma take_over_in:
  assumes "distinct (map fst m)"
  shows "(k, True, d) \<in> set (take_over k' d' m) \<longleftrightarrow>
     (k, True, d) \<in> set m \<or> k = k' \<and> d = d' \<and> (\<forall>d0. (k', True, d0) \<notin> set m)"
proof (cases "k' \<in> fst ` set m")
  case True
  then obtain q where q: "q \<in> set m" "k' = fst q" by blast
  obtain b d0 where p: "(k', b, d0) \<in> set m" by (rule that [of "fst (snd q)" "snd (snd q)"]) (simp add: q)
  have uniq: "(k', b', d1) \<in> set m \<Longrightarrow> b' = b" for b' d1
    using distinct_map_eq [OF assms p, of "(k', b', d1)"] by simp
  show ?thesis
  proof (cases b)
    case True
    have "\<nexists>d1. (k', False, d1) \<in> set m" using uniq True by blast
    moreover have "\<exists>d1. (k', True, d1) \<in> set m" using p True by auto
    ultimately show ?thesis using \<open>k' \<in> fst ` set m\<close> unfolding take_over_def by (simp add: remark_in) blast
  next
    case False
    have "\<exists>d1. (k', False, d1) \<in> set m" using p False by auto
    moreover have "\<forall>d1. (k', True, d1) \<notin> set m" using uniq False by blast
    ultimately show ?thesis using \<open>k' \<in> fst ` set m\<close> by (simp add: take_over_def remark_in)
  qed
next
  case False
  then have "\<forall>b d0. (k', b, d0) \<notin> set m" by force
  with False show ?thesis by (auto simp: take_over_def)
qed

lemma load_all:
  "sockets_fresh E \<Longrightarrow> fine m s \<Longrightarrow> distinct (map fst m) \<Longrightarrow>
   fine (take_over_all E es m) (fold (load_fields E) es s) \<and> distinct (map fst (take_over_all E es m))"
proof (induction es arbitrary: m s)
  case (Cons fs es)
  show ?case
  proof (cases "assemble_entry E fs")
    case (Inl e)
    with Cons show ?thesis by (simp add: load_fields_def)
  next
    case (Inr cp)
    from loadconfigent_takes_over [OF Cons.prems assemble_entry_idle [OF Inr]]
    have "fine (take_over (key cp) (about cp) m) (load_fields E fs s)" using Inr by (simp add: load_fields_def)
    from Cons.IH [OF Cons.prems(1) this take_over_distinct [OF Cons.prems(3)]] Inr show ?thesis by simp
  qed
qed simp

definition unmark :: "(skey \<times> bool \<times> sdata) list \<Rightarrow> (skey \<times> bool \<times> sdata) list" where
  "unmark m = map (\<lambda>(k, b, d). (k, False, d)) m"

lemma map_fst_unmark [simp]: "map fst (unmark m) = map fst m"
  by (auto simp: unmark_def)

lemma fine_uncheck:
  "fine m s \<Longrightarrow> fine (unmark m) (s\<lparr>services := map (\<lambda>e. e\<lparr>se_checked := False\<rparr>) (services s)\<rparr>)"
proof -
  assume a: "fine m s"
  have "open_fds (map (\<lambda>e. e\<lparr>se_checked := False\<rparr>) L) = open_fds L" for L
    by (simp add: open_fds_def o_def)
  moreover have "socks (map (\<lambda>e. e\<lparr>se_checked := False\<rparr>) L) = socks L" for L
    by (induction L) (simp_all add: live_def idle_def)
  ultimately show ?thesis using a
    by (auto simp: fine_def sock_ok_def quiet_def idle_def marks_def mark_of_def unmark_def key_def about_def)
qed

text \<open>Reading a configuration is the specification: clear the marks, take over, keep what is marked.\<close>

theorem config_refines:
  assumes "sockets_fresh E" "fine m s" "distinct (map fst m)" "loadconfigfile f = Some es"
  shows "fine (filter (\<lambda>(k, b, d). b) (take_over_all E es (unmark m))) (config E (Some f) s)"
    "distinct (map fst (filter (\<lambda>(k, b, d). b) (take_over_all E es (unmark m))))"
proof -
  from load_all [OF assms(1) fine_uncheck [OF assms(2)], of es] assms(3)
  have "fine (take_over_all E es (unmark m))
      (fold (load_fields E) es (s\<lparr>services := map (\<lambda>e. e\<lparr>se_checked := False\<rparr>) (services s)\<rparr>))"
    "distinct (map fst (take_over_all E es (unmark m)))" by simp_all
  then show "fine (filter (\<lambda>(k, b, d). b) (take_over_all E es (unmark m))) (config E (Some f) s)"
    "distinct (map fst (filter (\<lambda>(k, b, d). b) (take_over_all E es (unmark m))))"
    using purge_marks assms(4) by (simp_all add: config_def distinct_map_filter)
qed

text \<open>The marked part of the specification: every acceptable entry's key, with the data of the
  first entry for it.\<close>

definition first_data :: "inetd_env \<Rightarrow> string list list \<Rightarrow> skey \<Rightarrow> sdata option" where
  "first_data E es k =
     map_option (\<lambda>e. about e)
       (find (\<lambda>e. key e = k) (concat (map (\<lambda>fs. case assemble_entry E fs of Inl _ \<Rightarrow> [] | Inr cp \<Rightarrow> [cp]) es)))"

lemma take_over_all_marked:
  "distinct (map fst m) \<Longrightarrow>
   (k, True, d) \<in> set (take_over_all E es m) \<longleftrightarrow>
     (k, True, d) \<in> set m \<or> (\<forall>d'. (k, True, d') \<notin> set m) \<and> first_data E es k = Some d"
proof (induction es arbitrary: m)
  case Nil
  then show ?case by (simp add: first_data_def)
next
  case (Cons fs es)
  show ?case
  proof (cases "assemble_entry E fs")
    case (Inl e)
    with Cons show ?thesis by (simp add: first_data_def)
  next
    case (Inr cp)
    let ?m = "take_over (key cp) (about cp) m"
    note m = take_over_in [OF Cons.prems, of _ _ "key cp" "about cp"]
    note IH = Cons.IH [OF take_over_distinct [OF Cons.prems], of "key cp" "about cp"]
    have f: "first_data E (fs # es) k = (if key cp = k then Some (about cp) else first_data E es k)"
      using Inr by (simp add: first_data_def)
    show ?thesis
    proof (cases "key cp = k")
      case True
      then have "(k, True, d0) \<in> set (take_over (key cp) (about cp) m) \<longleftrightarrow>
          (k, True, d0) \<in> set m \<or> d0 = about cp \<and> (\<forall>d1. (k, True, d1) \<notin> set m)" for d0
        using m by simp
      then have "(k, True, d) \<in> set (take_over_all E es (take_over (key cp) (about cp) m)) \<longleftrightarrow>
          (k, True, d) \<in> set m \<or> d = about cp \<and> (\<forall>d1. (k, True, d1) \<notin> set m)"
        unfolding IH by blast
      then show ?thesis unfolding f using Inr True by auto
    next
      case False
      then show ?thesis using Inr IH m f by auto
    qed
  qed
qed

section \<open>Turns of the main loop\<close>

text \<open>What the system promises of an accepted connection and of \<open>fork\<close>: a new descriptor, and a
  process number that fits the C \<open>short\<close> it is kept in, or an error.\<close>

definition io_ok :: "inetd \<Rightarrow> launch_io \<Rightarrow> bool" where
  "io_ok s io \<longleftrightarrow>
     (case li_accept io of None \<Rightarrow> True | Some c \<Rightarrow> c \<notin> opened s) \<and>
     (li_fork io < 0 \<or> 1 < li_fork io \<and> li_fork io < 2 ^ 15)"

definition keys :: "inetd \<Rightarrow> skey list" where
  "keys s = map key (services s)"

lemma keys_marks: "keys s = map fst (marks s)"
  by (simp add: keys_def marks_def mark_of_def o_def)

lemma keys_sep_update: "(\<And>e. key (f e) = key e) \<Longrightarrow> keys (sep_update i f s) = keys s"
proof -
  assume "\<And>e. key (f e) = key e"
  then have "keys (sep_update i f s) = (keys s)[i := key (services s ! i)]"
    by (simp add: keys_def sep_update_def map_update)
  then show ?thesis by (cases "i < length (services s)") (simp_all add: keys_def map_update [symmetric])
qed

lemma keys_services: "services t = services s \<Longrightarrow> keys t = keys s"
  by (simp add: keys_def)

lemma keys_frame [simp]:
  "keys (effect es s) = keys s" "keys (close_sock fd s) = keys s" "keys (start_alarm s) = keys s"
  by (simp_all add: keys_def)

lemma live_selected:
  assumes "sock_ok s" "i < length (services s)" "se_fd (services s ! i) \<in> allsock s"
  shows "idle (services s ! i)" "se_fd (services s ! i) \<noteq> - 1"
proof -
  obtain A e B where e: "services s = A @ e # B" "length A = i" "services s ! i = e"
    using assms(2) by (rule services_split)
  note ok = sock_okD [OF assms(1)]
  have "se_fd e \<noteq> - 1" using ok(4,6) assms(3) e(3) socks_open by force
  then have "se_fd e \<notin> socks (A @ B)" using ok(2) e(1) socks_open [of "se_fd e" "A @ B"] by auto
  then have "se_fd e \<in> live e" using ok(6) assms(3) e by simp
  then show "idle (services s ! i)" "se_fd (services s ! i) \<noteq> - 1" using e(3) by (auto simp: live_def split: if_splits)
qed

text \<open>A step that concerns one selected socket: the bookkeeping stays, the others stay selected.\<close>

definition serves :: "int \<Rightarrow> inetd \<Rightarrow> inetd \<Rightarrow> bool" where
  "serves fd s t \<longleftrightarrow>
     sock_ok t \<and> keys t = keys s \<and> opened t \<subseteq> opened s \<and> allsock s - {fd} \<subseteq> allsock t \<and>
     length (services t) = length (services s)"

lemma serves_refl: "sock_ok s \<Longrightarrow> serves fd s s"
  by (simp add: serves_def)

lemma serves_trans: "serves fd s t \<Longrightarrow> serves fd t u \<Longrightarrow> serves fd s u"
  by (auto simp: serves_def)

lemma serves_effect [simp]: "serves fd s (effect es t) = serves fd s t"
  by (simp add: serves_def)

lemma sock_ok_close_other:
  assumes "sock_ok s" "c \<notin> set (open_fds (services s))"
  shows "sock_ok (close_sock c s)"
  using assms by (auto simp: sock_ok_def)

lemma serves_close_other:
  "sock_ok s \<Longrightarrow> c \<notin> set (open_fds (services s)) \<Longrightarrow> serves fd s (close_sock c s)"
  using sock_ok_close_other by (auto simp: serves_def)

lemma fork_child_serves:
  assumes "sock_ok s" "i < length (services s)" "fd = se_fd (services s ! i)" "fd \<in> allsock s"
    "fork_child io i s = (pid, t)"
  shows "serves fd s t \<and> se_wait (services t ! i) = se_wait (services s ! i) \<and>
    set (open_fds (services t)) \<subseteq> set (open_fds (services s)) \<and>
    (if pid = li_fork io \<and> se_fd (services t ! i) = fd then allsock t = allsock s
     else pid = - 1 \<and> fd \<notin> set (open_fds (services t)))"
proof -
  note sel = live_selected [OF assms(1,2)] and ok = sock_okD [OF assms(1)]
  obtain A e B where e: "services s = A @ e # B" "length A = i" "services s ! i = e"
    using assms(2) by (rule services_split)
  have fd: "fd = se_fd e" "idle e" "fd \<noteq> - 1" using sel assms(3,4) e(3) by auto
  show ?thesis
  proof (cases "count_server (se_max e) (li_time io) (se_count e) (se_time e)")
    case (Count c x)
    then have t: "pid = li_fork io" "t = sep_update i (\<lambda>e. e\<lparr>se_count := c, se_time := x\<rparr>) s"
      using assms(5) e(3) by (simp_all add: fork_child_def Let_def)
    have "sock_ok t" unfolding t(2) by (rule sep_update_ok [OF assms(1,2)]) (simp_all add: idle_def)
    moreover have "keys t = keys s" unfolding t(2) by (rule keys_sep_update) (simp add: key_def)
    moreover have "set (open_fds (services t)) = set (open_fds (services s))"
      using services_sep_update [OF e(1,2)] e(1) by (simp add: t(2))
    ultimately show ?thesis using t assms(2,3) by (simp add: serves_def)
  next
    case Flooded
    define u where "u = sep_update i (\<lambda>e. e\<lparr>se_fd := - 1, se_count := 0\<rparr>)
        (close_sock fd (s\<lparr>allsock := allsock s - {fd}\<rparr>))"
    have "fork_child io i s = (- 1, start_alarm (u\<lparr>nsock := nsock s - 1\<rparr>))"
      using assms(3) e(3) Flooded by (simp add: fork_child_def Let_def u_def)
    with assms(5) have "pid = - 1 \<and> t = start_alarm (u\<lparr>nsock := nsock s - 1\<rparr>)" by simp
    moreover have "services u = A @ e\<lparr>se_fd := - 1, se_count := 0\<rparr> # B"
      unfolding u_def by (rule services_sep_update) (simp_all add: e)
    ultimately have t: "pid = - 1" "services t = A @ e\<lparr>se_fd := - 1, se_count := 0\<rparr> # B"
      "opened t = opened s - {fd}" "allsock t = allsock s - {fd}" "nsock t = nsock s - 1"
      by (simp_all add: u_def)
    have "sock_ok t"
      by (rule sock_ok_shrinks [OF assms(1) e(1) t(2)]) (use t(3-5) fd in \<open>auto simp: idle_def\<close>)
    moreover have "keys t = keys s" using t(2) e(1) by (simp add: keys_def key_def)
    moreover have "fd \<notin> set (open_fds (services t))" "set (open_fds (services t)) \<subseteq> set (open_fds (services s))"
      using ok(2) t(2) e(1) fd(1,3) by auto
    moreover have "se_fd (services t ! i) \<noteq> fd" "se_wait (services t ! i) = se_wait e"
      using t(2) e(2) fd(3) by auto
    ultimately show ?thesis using t e by (auto simp: serves_def)
  qed
qed

lemma pid_not_idle:
  assumes "1 < pid" "pid < 2 ^ 15"
  shows "(word_of_int pid :: u16) \<noteq> 0" "(word_of_int pid :: u16) \<noteq> 1"
proof -
  have "uint (word_of_int pid :: u16) = pid" using assms by (simp add: uint_word_of_int)
  then show "(word_of_int pid :: u16) \<noteq> 0" "(word_of_int pid :: u16) \<noteq> 1" using assms by auto
qed

lemma close_ctrl_serves:
  assumes "serves fd s t" "ctrl \<noteq> se_fd (services t ! i) \<Longrightarrow> ctrl \<notin> set (open_fds (services t))"
  shows "serves fd s (close_ctrl ctrl i t)"
proof (cases "ctrl = se_fd (services t ! i)")
  case False
  have "serves fd t (close_sock ctrl t)"
    using assms(1) assms(2) [OF False] by (intro serves_close_other) (simp_all add: serves_def)
  with False assms(1) show ?thesis by (auto simp: close_ctrl_def intro: serves_trans)
qed (use assms(1) in \<open>simp add: close_ctrl_def\<close>)

lemma after_fork_serves:
  assumes "sock_ok s" "i < length (services s)" "fd = se_fd (services s ! i)" "fd \<in> allsock s"
    "1 < pid" "pid < 2 ^ 15"
    "se_wait (services s ! i) = 0 \<Longrightarrow> se_socktype (services s ! i) = SOCK_STREAM \<Longrightarrow>
      ctrl \<notin> set (open_fds (services s))"
  shows "serves fd s (after_fork pid ctrl i s)"
proof -
  note sel = live_selected [OF assms(1,2)]
  obtain A e B where e: "services s = A @ e # B" "length A = i" "services s ! i = e"
    using assms(2) by (rule services_split)
  have fd: "fd = se_fd e" "idle e" "fd \<noteq> - 1" using sel assms(3,4) e(3) by auto
  show ?thesis
  proof (cases "se_wait e = 0")
    case True
    with e(3) assms show ?thesis
      by (auto simp: after_fork_def Let_def serves_def sock_ok_def)
  next
    case False
    define t where "t = (sep_update i (\<lambda>e. e\<lparr>se_wait := word_of_int pid\<rparr>) (effect [Fork_child pid] s))
        \<lparr>allsock := allsock s - {se_fd e}, nsock := nsock s - 1\<rparr>"
    have sv: "services t = A @ e\<lparr>se_wait := word_of_int pid\<rparr> # B"
      using services_sep_update [of "effect [Fork_child pid] s" A e B i] e by (simp add: t_def)
    have "sock_ok t"
      by (rule sock_ok_shrinks [OF assms(1) e(1) sv])
        (use fd pid_not_idle [OF assms(5,6)] in \<open>simp_all add: t_def idle_def\<close>)
    moreover have "keys t = keys s" using sv e(1) by (simp add: keys_def key_def)
    ultimately have "serves fd s t" using sv e(1) fd by (auto simp: serves_def t_def)
    moreover have "after_fork pid ctrl i s = t"
      using False e(2,3) sv pid_not_idle(1) [OF assms(5,6)] by (auto simp: after_fork_def Let_def t_def)
    ultimately show ?thesis by simp
  qed
qed

lemma launch_with_serves:
  assumes "sock_ok s" "i < length (services s)" "fd = se_fd (services s ! i)" "fd \<in> allsock s" "io_ok s io"
    "ctrl = fd \<and> \<not> (se_wait (services s ! i) = 0 \<and> se_socktype (services s ! i) = SOCK_STREAM) \<or> ctrl \<notin> opened s"
  shows "serves fd s (launch_with io ctrl i s)"
proof -
  obtain pid t where f: "fork_child io i s = (pid, t)" by (cases "fork_child io i s")
  note fc = fork_child_serves [OF assms(1-4) f]
  note ok = sock_okD [OF assms(1)]
  have forked: "serves fd s (if pid < 0 then close_ctrl ctrl i t else after_fork pid ctrl i t)"
  proof (cases "pid < 0")
    case True
    have "ctrl \<noteq> se_fd (services t ! i) \<Longrightarrow> ctrl \<notin> set (open_fds (services t))"
      using fc assms(6) ok(3) by (auto split: if_splits)
    then show ?thesis using True fc by (auto intro: close_ctrl_serves)
  next
    case False
    then have t: "pid = li_fork io" "se_fd (services t ! i) = fd" "allsock t = allsock s" "serves fd s t"
      using fc by (auto split: if_splits)
    have pid: "1 < pid" "pid < 2 ^ 15" using assms(5) False t(1) by (auto simp: io_ok_def)
    have sock: "se_socktype (services t ! i) = se_socktype (services s ! i)"
      using f assms(2) by (auto simp: fork_child_def Let_def start_alarm_def split: count_result.splits if_splits)
    have "serves fd t (after_fork pid ctrl i t)"
      by (rule after_fork_serves)
        (use t assms(2,4,6) fc ok(3) pid sock in \<open>auto simp: serves_def\<close>)
    with t(4) False show ?thesis by (auto intro: serves_trans)
  qed
  have plain: "serves fd s (close_ctrl ctrl i (effect [x] s))" for x
    by (rule close_ctrl_serves) (use assms ok(3) in \<open>auto simp: serves_refl\<close>)
  show ?thesis
    unfolding launch_with_def f using forked plain by (auto split: option.split)
qed

lemma launch_serves:
  assumes "sock_ok s" "i < length (services s)" "fd = se_fd (services s ! i)" "fd \<in> allsock s" "io_ok s io"
  shows "serves fd s (launch io i s)"
proof (cases "se_wait (services s ! i) = 0 \<and> se_socktype (services s ! i) = SOCK_STREAM")
  case True
  show ?thesis
  proof (cases "li_accept io")
    case None
    have "serves fd s (s\<lparr>restarting := True\<rparr>)" using assms(1) by (simp add: serves_def sock_ok_def keys_def)
    with None True assms(1) show ?thesis by (simp add: launch_def Let_def serves_refl)
  next
    case (Some c)
    with assms(5) have "c \<notin> opened s" by (simp add: io_ok_def)
    with launch_with_serves [OF assms, of c] Some True show ?thesis by (simp add: launch_def Let_def)
  qed
next
  case False
  with launch_with_serves [OF assms, of fd] assms(3) show ?thesis by (auto simp: launch_def Let_def)
qed

lemma serve_fd_serves:
  assumes "sock_ok s" "fd \<in> R \<Longrightarrow> fd \<in> allsock s" "io_ok s (io fd)"
  shows "serves fd s (serve_fd R io fd s)"
proof (cases "find_service_by_fd fd s")
  case None
  with assms(1) show ?thesis by (simp add: serve_fd_def serves_refl)
next
  case (Some i)
  then have "i < length (services s)" "se_fd (services s ! i) = fd"
    unfolding find_service_by_fd_def by (auto dest: first_pos_Some)
  with launch_serves [OF assms(1), of i fd "io fd"] assms Some show ?thesis
    by (auto simp: serve_fd_def serves_refl)
qed

lemma main_turn_ok:
  assumes "sock_ok s" "R \<subseteq> allsock s" "\<And>fd. io_ok s (io fd)"
  shows "sock_ok (main_turn R io s) \<and> keys (main_turn R io s) = keys s"
proof -
  have "distinct fds \<Longrightarrow> sock_ok s \<Longrightarrow> (\<And>fd. fd \<in> set fds \<inter> R \<Longrightarrow> fd \<in> allsock s) \<Longrightarrow> (\<And>fd. io_ok s (io fd)) \<Longrightarrow>
      sock_ok (fold (serve_fd R io) fds s) \<and> keys (fold (serve_fd R io) fds s) = keys s" for fds
  proof (induction fds arbitrary: s)
    case (Cons fd fds)
    have sv: "serves fd s (serve_fd R io fd s)"
      by (rule serve_fd_serves) (use Cons.prems in auto)
    have "io_ok (serve_fd R io fd s) (io fd')" for fd'
      using Cons.prems(4) [of fd'] sv by (auto simp: io_ok_def serves_def split: option.splits)
    moreover have "fd' \<in> set fds \<inter> R \<Longrightarrow> fd' \<in> allsock (serve_fd R io fd s)" for fd'
      using Cons.prems(1,3) sv by (auto simp: serves_def)
    ultimately have "sock_ok (fold (serve_fd R io) fds (serve_fd R io fd s)) \<and>
        keys (fold (serve_fd R io) fds (serve_fd R io fd s)) = keys (serve_fd R io fd s)"
      using Cons.IH Cons.prems(1) sv by (simp add: serves_def)
    with sv show ?case by (simp add: serves_def)
  qed simp
  from this [of "[3..maxsock s]"] assms show ?thesis by (auto simp: main_turn_def)
qed

lemma reap_one_ok:
  assumes "sock_ok s" "1 < pid"
  shows "sock_ok (reap_one pid s) \<and> keys (reap_one pid s) = keys s"
proof (cases "find_service_by_pid pid s")
  case (Some i)
  then have i: "i < length (services s)" "sint (se_wait (services s ! i)) = pid"
    unfolding find_service_by_pid_def by (auto dest: first_pos_Some)
  obtain A e B where e: "services s = A @ e # B" "length A = i" "services s ! i = e"
    using i(1) by (rule services_split)
  have "\<not> idle e" using i(2) e(3) assms(2) by (auto simp: idle_def)
  moreover have sv: "services (reap_one pid s) = A @ e\<lparr>se_wait := 1\<rparr> # B"
    "opened (reap_one pid s) = opened s" "allsock (reap_one pid s) = insert (se_fd e) (allsock s)"
    "nsock (reap_one pid s) = nsock s + 1"
    using Some services_sep_update [OF e(1,2)] e(3) by (simp_all add: reap_one_def Let_def)
  ultimately have "sock_ok (reap_one pid s)"
    by (intro sock_ok_restores [OF assms(1) e(1) sv(1)]) (simp_all add: idle_def)
  moreover have "keys (reap_one pid s) = keys s" using sv(1) e(1) by (simp add: keys_def key_def)
  ultimately show ?thesis by simp
qed (use assms(1) in \<open>simp add: reap_one_def\<close>)

lemma reapchild_ok:
  "sock_ok s \<Longrightarrow> \<forall>pid\<in>set pids. 1 < pid \<Longrightarrow> sock_ok (reapchild pids s) \<and> keys (reapchild pids s) = keys s"
  unfolding reapchild_def by (induction pids arbitrary: s) (simp_all add: reap_one_ok)

lemma restart_one_ok:
  assumes "sockets_fresh E" "sock_ok s" "i < length (services s)"
  shows "sock_ok (restart_one E i s) \<and> sans_fd (restart_one E i s) = sans_fd s"
  using setup_service_ok [OF assms] assms(2) by (auto simp: restart_one_def Let_def)

lemma restart_services_ok:
  assumes "sockets_fresh E" "sock_ok s"
  shows "sock_ok (restart_services E s) \<and> sans_fd (restart_services E s) = sans_fd s"
proof -
  have "set is \<subseteq> {..<length (services s)} \<Longrightarrow> sock_ok s \<Longrightarrow>
      sock_ok (fold (restart_one E) is s) \<and> sans_fd (fold (restart_one E) is s) = sans_fd s" for "is"
  proof (induction "is" arbitrary: s)
    case (Cons i "is")
    from restart_one_ok [OF assms(1) Cons.prems(2), of i] Cons.prems(1)
    have r: "sock_ok (restart_one E i s)" "sans_fd (restart_one E i s) = sans_fd s" by auto
    then have "length (services (restart_one E i s)) = length (services s)" by (metis length_sans)
    with Cons.IH [OF _ r(1)] Cons.prems(1) r(2) show ?case by simp
  qed simp
  from this [of "[0..<length (services s)]"] assms(2) show ?thesis
    by (simp add: restart_services_def atLeast0LessThan)
qed

lemma retry_ok:
  assumes "sockets_fresh E" "sock_ok s"
  shows "sock_ok (retry E s) \<and> sans_fd (retry E s) = sans_fd s"
  using restart_services_ok [OF assms(1), of "s\<lparr>timingout := False\<rparr>"] assms(2)
  by (simp add: retry_def sock_ok_def sans_fd_def)

section \<open>The states of the program\<close>

text \<open>
  The events that can come: sockets that are selected become readable, processes end, the alarm
  rings, and the configuration is to be read again while no service waits for its server. What
  reading it at another moment does is shown in \<open>purge_off\<close>.
\<close>

fun allowed :: "inetd_event \<Rightarrow> inetd \<Rightarrow> bool" where
  "allowed (Ready R io) s \<longleftrightarrow> R \<subseteq> allsock s \<and> (\<forall>fd. io_ok s (io fd))"
| "allowed (Reap pids) s \<longleftrightarrow> (\<forall>pid\<in>set pids. 1 < pid)"
| "allowed Alarm_rings s \<longleftrightarrow> True"
| "allowed (Hangup conf) s \<longleftrightarrow> quiet s"

inductive inetd_reach :: "inetd_env \<Rightarrow> inetd \<Rightarrow> bool" for E where
  started: "inetd_reach E (inetd_start E rlim conf)"
| event: "inetd_reach E s \<Longrightarrow> allowed ev s \<Longrightarrow> inetd_reach E (inetd_step E ev s)"

lemma sans_keys: "sans_fd t = sans_fd s \<Longrightarrow> keys t = keys s"
  by (simp add: keys_marks marks_sans [of t s])

lemma config_ok:
  assumes "sockets_fresh E" "sock_ok s" "quiet s" "distinct (keys s)"
  shows "sock_ok (config E conf s) \<and> distinct (keys (config E conf s))"
proof (cases conf)
  case None
  with assms show ?thesis by (simp add: config_def)
next
  case (Some f)
  have m: "fine (marks s) s" "distinct (map fst (marks s))"
    using assms(2-4) by (simp_all add: fine_def keys_marks)
  obtain r where r: "r = loadconfigfile f" by simp
  show ?thesis
  proof (cases r)
    case None
    have "fine (unmark (marks s)) (config E conf s)"
      using fine_uncheck [OF m(1)] None r Some by (simp add: config_def)
    then show ?thesis using m(2) by (simp add: fine_def keys_marks)
  next
    case (Some es)
    with config_refines [OF assms(1) m, of f es] r \<open>conf = Some f\<close> show ?thesis
      by (auto simp: fine_def keys_marks)
  qed
qed

lemma reach_ok:
  assumes "inetd_reach E s" "sockets_fresh E"
  shows "sock_ok s \<and> distinct (keys s)"
  using assms(1)
proof induction
  case (started rlim conf)
  show ?case unfolding inetd_start_def
    by (rule config_ok [OF assms(2)])
      (simp_all add: inetd_init_def Let_def sock_ok_def quiet_def keys_def)
next
  case (event s ev)
  show ?case
  proof (cases ev)
    case (Ready R io)
    with event main_turn_ok [of s R io] show ?thesis by auto
  next
    case (Reap pids)
    with event reapchild_ok [of s pids] show ?thesis by auto
  next
    case Alarm_rings
    with event retry_ok [OF assms(2), of s] show ?thesis by (auto dest: sans_keys)
  next
    case (Hangup conf)
    with event config_ok [OF assms(2)] show ?thesis by simp
  qed
qed

end
