(* ===== verification/Inetd_Scan.thy ===== *)
theory Inetd_Scan
  imports Inetd_Config
begin

text \<open>
  Reading the configuration file: the loop ends on every file, no entry has more than 26 words, and
  what is written as lines, with their continuations and comments, is read back.
\<close>

section \<open>The loop ends\<close>

definition unread :: "scan \<Rightarrow> nat" where
  "unread sc = 2 * length (sc_file sc) + length (sc_tok sc)"

lemma strtok_shorter:
  "strtok cs = (Some t, r) \<Longrightarrow> length r < length cs \<and> t \<noteq> []"
proof -
  assume a: "strtok cs = (Some t, r)"
  then obtain c u where u: "dropWhile delim cs = c # u" by (cases "dropWhile delim cs") (auto simp: strtok_def)
  then have "\<not> delim c" by (simp add: dropWhile_eq_Cons_conv)
  moreover have "length (c # u) \<le> length cs" using length_dropWhile_le [of delim cs] u by simp
  moreover have "length (dropWhile (\<lambda>c. \<not> delim c) u) \<le> length u" by (rule length_dropWhile_le)
  ultimately show ?thesis using a u by (auto simp: strtok_def)
qed

lemma strtok_None: "strtok cs = (None, r) \<Longrightarrow> r = []"
  by (auto simp: strtok_def split: list.splits)

lemma length_take_line: "length (take_line k cs) \<le> length cs"
  by (induction k cs rule: take_line.induct) auto

lemma next_line_Some:
  "next_line f = Some (l, r) \<Longrightarrow> l \<noteq> [] \<and> length l + length r \<le> length f"
proof (induction f rule: next_line.induct)
  case (1 f)
  have ne: "f \<noteq> [] \<Longrightarrow> take_line LINEROOM f \<noteq> []"
    using take_line_nonempty [of f 252] by (simp add: LINEROOM_def)
  show ?case
  proof (cases "f \<noteq> [] \<and> hd (take_line LINEROOM f) = CHR ''#''")
    case True
    with 1(1) [OF _ refl refl] 1(2) show ?thesis by (subst (asm) next_line.simps) (auto simp: Let_def)
  next
    case False
    with 1(2) ne length_take_line [of LINEROOM f] show ?thesis
      by (subst (asm) next_line.simps) (auto simp: Let_def split: if_splits)
  qed
qed

lemma nexttoken_shorter:
  assumes "nexttoken sc = (Some t, sc')"
  shows "unread sc' < unread sc"
proof (cases "strtok (sc_tok sc)")
  case (Pair o1 r)
  show ?thesis
  proof (cases o1)
    case (Some t1)
    with Pair assms strtok_shorter [of "sc_tok sc" t1 r] show ?thesis
      by (auto simp: nexttoken_def unread_def)
  next
    case None
    with Pair assms obtain l f where l: "next_line (sc_file sc) = Some (l, f)"
      by (auto simp: nexttoken_def split: option.splits)
    from next_line_Some [OF l] have le: "l \<noteq> []" "length l + length f \<le> length (sc_file sc)" by auto
    have c: "length (c_line l) \<le> length l" by (simp add: c_line_def length_takeWhile_le)
    then have r: "strtok (c_line l) = (o2, r2) \<Longrightarrow> length r2 \<le> length l" for o2 r2
      using strtok_shorter [of "c_line l"] strtok_None [of "c_line l"] by (cases o2) fastforce+
    have "length x \<le> length l \<Longrightarrow> unread \<lparr>sc_tok = x, sc_file = f\<rparr> < unread sc" for x
      using le by (cases l) (auto simp: unread_def)
    then show ?thesis
      using assms Pair None l c r
      by (auto simp: nexttoken_def split: if_splits prod.splits option.splits)
  qed
qed

lemma load_loop_ends: "\<exists>es. load_loop sc fs out = Some es"
proof (induction "unread sc" arbitrary: sc fs out rule: less_induct)
  case less
  show ?case
  proof (cases "nexttoken sc")
    case (Pair t sc')
    show ?thesis
    proof (cases t)
      case None
      with Pair show ?thesis by (subst load_loop.simps) simp
    next
      case (Some s)
      with Pair have "unread sc' < unread sc" by (simp add: nexttoken_shorter)
      from less [OF this] Some Pair show ?thesis by (subst load_loop.simps) simp
    qed
  qed
qed

lemma load_loop_small:
  "load_loop sc fs out = Some es \<Longrightarrow> length fs \<le> 26 \<Longrightarrow> \<forall>e\<in>set out. e \<noteq> [] \<and> length e \<le> 26 \<Longrightarrow>
   \<forall>e\<in>set es. e \<noteq> [] \<and> length e \<le> 26"
proof (induction "unread sc" arbitrary: sc fs out rule: less_induct)
  case less
  show ?case
  proof (cases "nexttoken sc")
    case (Pair t sc')
    show ?thesis
    proof (cases t)
      case None
      with Pair less.prems show ?thesis by (subst (asm) load_loop.simps) (auto split: if_splits)
    next
      case (Some s)
      with Pair have "unread sc' < unread sc" by (simp add: nexttoken_shorter)
      note IH = less(1) [OF this]
      have step: "load_loop sc fs out =
          load_loop sc' (if s = [] then [] else if length fs < 26 then fs @ [s] else fs)
            (if s = [] \<and> fs \<noteq> [] then out @ [fs] else out)"
        by (subst load_loop.simps) (simp add: Some Pair MAXARGV_def)
      show ?thesis
        by (rule IH [OF less.prems(1) [unfolded step]]) (use less.prems(2,3) in auto)
    qed
  qed
qed

section \<open>Writing a configuration and reading it back\<close>

fun join_words :: "string list \<Rightarrow> string" where
  "join_words [] = []"
| "join_words [w] = w"
| "join_words (w # ws) = w @ CHR '' '' # join_words ws"

datatype conf_item = Comment string | Entry "string list" "string list list"

definition newline :: char where "newline = CHR 0x0A"

fun print_item :: "conf_item \<Rightarrow> string" where
  "print_item (Comment c) = CHR ''#'' # c @ [newline]"
| "print_item (Entry l ls) =
     join_words l @ [newline] @ concat (map (\<lambda>l. CHR 0x09 # join_words l @ [newline]) ls)"

definition print_config :: "conf_item list \<Rightarrow> string" where
  "print_config is = concat (map print_item is)"

fun item_entry :: "conf_item \<Rightarrow> string list list" where
  "item_entry (Comment c) = []"
| "item_entry (Entry l ls) = [l @ concat ls]"

definition word_ok :: "string \<Rightarrow> bool" where
  "word_ok w \<longleftrightarrow> w \<noteq> [] \<and> (\<forall>c\<in>set w. \<not> delim c \<and> c \<noteq> NUL)"

definition line_ok :: "string list \<Rightarrow> bool" where
  "line_ok ws \<longleftrightarrow> ws \<noteq> [] \<and> (\<forall>w\<in>set ws. word_ok w) \<and> length (join_words ws) \<le> 251"

fun item_ok :: "conf_item \<Rightarrow> bool" where
  "item_ok (Comment c) = (newline \<notin> set c \<and> length c \<le> 251)"
| "item_ok (Entry l ls) =
     (line_ok l \<and> hd (hd l) \<noteq> CHR ''#'' \<and> (\<forall>l\<in>set ls. line_ok l) \<and> length l + length (concat ls) \<le> 25)"

lemma take_line_whole:
  "newline \<notin> set x \<Longrightarrow> length x < k \<Longrightarrow> take_line k (x @ newline # f) = x @ [newline]"
proof (induction x arbitrary: k)
  case Nil
  then show ?case by (cases k) (simp_all add: newline_def)
next
  case (Cons c x)
  then show ?case by (cases k) (auto simp: newline_def)
qed

lemma next_line_whole:
  assumes "newline \<notin> set x" "length x < 253" "x \<noteq> []" "hd x \<noteq> CHR ''#''"
  shows "next_line (x @ newline # f) = Some (x @ [newline], f)"
  using assms take_line_whole [of x LINEROOM f]
  by (subst next_line.simps) (simp add: Let_def LINEROOM_def)

lemma next_line_comment:
  assumes "newline \<notin> set c" "length c < 252"
  shows "next_line (CHR ''#'' # c @ newline # f) = next_line f"
  using assms take_line_whole [of "CHR ''#'' # c" LINEROOM f]
  by (subst next_line.simps) (simp add: Let_def LINEROOM_def newline_def)

lemma strtok_word:
  assumes "word_ok w" "rest = [] \<or> delim (hd rest)"
  shows "strtok (w @ rest) = (Some w, drop 1 rest)"
proof -
  from assms(1) obtain c v where w: "w = c # v" "\<not> delim c" "\<forall>d\<in>set v. \<not> delim d"
    by (cases w) (auto simp: word_ok_def)
  have "takeWhile (\<lambda>c. \<not> delim c) rest = []" "dropWhile (\<lambda>c. \<not> delim c) rest = rest"
    using assms(2) by (cases rest; simp)+
  with w show ?thesis by (simp add: strtok_def takeWhile_append dropWhile_append3)
qed

lemma delim_newline [simp]: "delim newline" "delim (CHR '' '')" "delim (CHR 0x09)"
  by (simp_all add: delim_def newline_def)

lemma strtok_join:
  assumes "word_ok w"
  shows "strtok (join_words (w # ws) @ [newline]) = (Some w, if ws = [] then [] else join_words ws @ [newline])"
proof (cases ws)
  case Nil
  with strtok_word [OF assms, of "[newline]"] show ?thesis by simp
next
  case (Cons v vs)
  with strtok_word [OF assms, of "CHR '' '' # join_words ws @ [newline]"] show ?thesis by simp
qed

lemma join_words_chars:
  "\<forall>w\<in>set ws. word_ok w \<Longrightarrow> newline \<notin> set (join_words ws) \<and> NUL \<notin> set (join_words ws)"
  by (induction ws rule: join_words.induct) (auto simp: word_ok_def newline_def NUL_def delim_def)

lemma c_line_join: "\<forall>w\<in>set ws. word_ok w \<Longrightarrow> c_line (join_words ws @ [newline]) = join_words ws @ [newline]"
  using join_words_chars [of ws] unfolding c_line_def by (subst takeWhile_eq_all_conv) (auto simp: newline_def NUL_def)

lemma load_words:
  "\<forall>w\<in>set ws. word_ok w \<Longrightarrow> ws \<noteq> [] \<Longrightarrow> length fs + length ws \<le> 26 \<Longrightarrow>
   load_loop \<lparr>sc_tok = join_words ws @ [newline], sc_file = f\<rparr> fs out =
   load_loop \<lparr>sc_tok = [], sc_file = f\<rparr> (fs @ ws) out"
proof (induction ws arbitrary: fs)
  case (Cons w ws)
  have w: "word_ok w" "w \<noteq> []" using Cons.prems(1) by (simp_all add: word_ok_def)
  have "load_loop \<lparr>sc_tok = join_words (w # ws) @ [newline], sc_file = f\<rparr> fs out =
      load_loop \<lparr>sc_tok = if ws = [] then [] else join_words ws @ [newline], sc_file = f\<rparr> (fs @ [w]) out"
    using w(2) Cons.prems(3)
    by (subst load_loop.simps) (simp add: nexttoken_def strtok_join [OF w(1)] MAXARGV_def)
  with Cons show ?case by (cases "ws = []") simp_all
qed simp

lemma strtok_Nil [simp]: "strtok [] = (None, [])"
  by (simp add: strtok_def)

lemma line_okD:
  assumes "line_ok ws"
  shows "\<forall>w\<in>set ws. word_ok w" "ws \<noteq> []" "length (join_words ws) \<le> 251"
    "join_words ws \<noteq> []" "\<not> delim (hd (join_words ws))" "hd (join_words ws) \<noteq> NUL"
    "newline \<notin> set (join_words ws)" "hd (join_words ws) = hd (hd ws)"
proof -
  show 1: "\<forall>w\<in>set ws. word_ok w" "ws \<noteq> []" "length (join_words ws) \<le> 251"
    using assms by (simp_all add: line_ok_def)
  then obtain w vs where ws: "ws = w # vs" "word_ok w" by (cases ws) auto
  then have "join_words ws \<noteq> [] \<and> hd (join_words ws) = hd w" "w \<noteq> []"
    by (cases vs; simp add: word_ok_def)+
  with ws show "join_words ws \<noteq> []" "\<not> delim (hd (join_words ws))" "hd (join_words ws) \<noteq> NUL"
    "hd (join_words ws) = hd (hd ws)"
    by (auto simp: word_ok_def)
  show "newline \<notin> set (join_words ws)" using 1(1) join_words_chars by blast
qed

lemma load_first_line:
  assumes "line_ok l" "hd (hd l) \<noteq> CHR ''#''" "length l \<le> 26"
  shows "load_loop \<lparr>sc_tok = [], sc_file = join_words l @ newline # f\<rparr> fs out =
    load_loop \<lparr>sc_tok = [], sc_file = f\<rparr> l (if fs = [] then out else out @ [fs])"
proof -
  note l = line_okD [OF assms(1)]
  have n: "next_line (join_words l @ newline # f) = Some (join_words l @ [newline], f)"
    by (rule next_line_whole) (use l assms(2) in simp_all)
  have h: "hd (join_words l @ [newline]) \<noteq> CHR '' ''" "hd (join_words l @ [newline]) \<noteq> CHR 0x09"
    "hd (join_words l @ [newline]) \<noteq> NUL"
    using l(4-6) by (auto simp: delim_def)
  have "load_loop \<lparr>sc_tok = [], sc_file = join_words l @ newline # f\<rparr> fs out =
    load_loop \<lparr>sc_tok = join_words l @ [newline], sc_file = f\<rparr> [] (if fs = [] then out else out @ [fs])"
    by (subst load_loop.simps) (simp add: nexttoken_def n h c_line_join [OF l(1)])
  with load_words [OF l(1,2), of "[]"] assms(3) show ?thesis by simp
qed

lemma load_more_line:
  assumes "line_ok l" "length fs + length l \<le> 26"
  shows "load_loop \<lparr>sc_tok = [], sc_file = CHR 0x09 # join_words l @ newline # f\<rparr> fs out =
    load_loop \<lparr>sc_tok = [], sc_file = f\<rparr> (fs @ l) out"
proof -
  note l = line_okD [OF assms(1)]
  obtain w ws where w: "l = w # ws" "word_ok w" "\<forall>w\<in>set ws. word_ok w" using l(1,2) by (cases l) auto
  have n: "next_line (CHR 0x09 # join_words l @ newline # f) = Some (CHR 0x09 # join_words l @ [newline], f)"
    using next_line_whole [of "CHR 0x09 # join_words l" f] l(3,7) by (simp add: newline_def)
  have c: "c_line (CHR 0x09 # join_words l @ [newline]) = CHR 0x09 # join_words l @ [newline]"
    using c_line_join [OF l(1)] by (simp add: c_line_def NUL_def)
  have s: "strtok (CHR 0x09 # join_words l @ [newline]) = strtok (join_words l @ [newline])"
    by (simp add: strtok_def)
  have "load_loop \<lparr>sc_tok = [], sc_file = CHR 0x09 # join_words l @ newline # f\<rparr> fs out =
    load_loop \<lparr>sc_tok = if ws = [] then [] else join_words ws @ [newline], sc_file = f\<rparr> (fs @ [w]) out"
    using w assms(2)
    by (subst load_loop.simps)
      (simp add: nexttoken_def n [unfolded w(1)] c [unfolded w(1)] s [unfolded w(1)] strtok_join [OF w(2)] MAXARGV_def word_ok_def)
  with load_words [OF w(3), of "fs @ [w]"] assms(2) w(1) show ?thesis by (cases "ws = []") simp_all
qed

lemma load_more_lines:
  "\<forall>l\<in>set ls. line_ok l \<Longrightarrow> length fs + length (concat ls) \<le> 26 \<Longrightarrow>
   load_loop \<lparr>sc_tok = [], sc_file = concat (map (\<lambda>l. CHR 0x09 # join_words l @ [newline]) ls) @ f\<rparr> fs out =
   load_loop \<lparr>sc_tok = [], sc_file = f\<rparr> (fs @ concat ls) out"
proof (induction ls arbitrary: fs)
  case (Cons l ls)
  with load_more_line [of l fs "concat (map (\<lambda>l. CHR 0x09 # join_words l @ [newline]) ls) @ f"]
  show ?case by simp
qed simp

lemma load_comment:
  assumes "newline \<notin> set c" "length c \<le> 251"
  shows "load_loop \<lparr>sc_tok = [], sc_file = CHR ''#'' # c @ newline # f\<rparr> fs out =
    load_loop \<lparr>sc_tok = [], sc_file = f\<rparr> fs out"
proof -
  have "nexttoken \<lparr>sc_tok = [], sc_file = CHR ''#'' # c @ newline # f\<rparr> = nexttoken \<lparr>sc_tok = [], sc_file = f\<rparr>"
    using assms by (simp add: nexttoken_def next_line_comment split: option.split)
  then show ?thesis by (subst (1 2) load_loop.simps) simp
qed

lemma load_items:
  "\<forall>i\<in>set is. item_ok i \<Longrightarrow>
   load_loop \<lparr>sc_tok = [], sc_file = print_config is\<rparr> fs out =
   Some (out @ (if fs = [] then [] else [fs]) @ concat (map item_entry is))"
proof (induction "is" arbitrary: fs out)
  case Nil
  show ?case by (subst load_loop.simps) (simp add: print_config_def nexttoken_def next_line.simps)
next
  case (Cons i "is")
  have p: "print_config (i # is) = print_item i @ print_config is" by (simp add: print_config_def)
  show ?case
  proof (cases i)
    case (Comment c)
    with Cons p load_comment [of c "print_config is"] show ?thesis by simp
  next
    case (Entry l ls)
    with Cons.prems have ok: "line_ok l" "hd (hd l) \<noteq> CHR ''#''" "\<forall>l\<in>set ls. line_ok l"
      "length l + length (concat ls) \<le> 25" by simp_all
    have ne: "l @ concat ls \<noteq> []" using ok(1) by (simp add: line_ok_def)
    have "load_loop \<lparr>sc_tok = [], sc_file = print_config (i # is)\<rparr> fs out =
        load_loop \<lparr>sc_tok = [], sc_file = print_config is\<rparr> (l @ concat ls) (if fs = [] then out else out @ [fs])"
      using load_first_line [OF ok(1,2)] load_more_lines [OF ok(3), of l] ok(4) Entry p by simp
    with Cons Entry ne show ?thesis by simp
  qed
qed

end
