(* ===== verification/Inetd_Properties.thy ===== *)
theory Inetd_Properties
  imports Inetd_Runs Inetd_Scan
begin

text \<open>The properties of the super-server, each with a run that meets its hypotheses.\<close>

section \<open>A small system\<close>

definition demo_env :: inetd_env where
  "demo_env =
     \<lparr>gethostbyname = (\<lambda>h. None),
      getservbyname = (\<lambda>n p. if n = ''tftp'' then Some (''tftp'', 17664) else if n = ''ftp'' then Some (''ftp'', 5376) else None),
      getrpcbyname = (\<lambda>n. None), getprotobyname = (\<lambda>n. None), getsockname = (\<lambda>fd. None),
      new_socket = (\<lambda>n U. Sock_fd (Max (insert 2 U) + 1)), bind_ok = (\<lambda>n. True),
      rlim_max = 1024, setrlimit_ok = (\<lambda>n. True)\<rparr>"

lemma demo_env_fresh: "sockets_fresh demo_env"
proof -
  have "finite U \<Longrightarrow> 0 \<le> Max (insert 2 U) + 1 \<and> Max (insert 2 U) + 1 \<notin> U" for U :: "int set"
  proof -
    assume U: "finite U"
    then have "2 \<le> Max (insert 2 U)" by simp
    moreover have "x \<in> U \<Longrightarrow> x \<le> Max (insert 2 U)" for x using U by simp
    ultimately show ?thesis by force
  qed
  then show ?thesis by (auto simp: sockets_fresh_def demo_env_def)
qed

definition demo_file :: string where
  "demo_file = print_config
     [Comment '' the services'',
      Entry [''tftp'', ''dgram'', ''udp'', ''wait''] [[''root'', ''/usr/sbin/in.tftpd''], [''in.tftpd'']],
      Entry [''ftp'', ''stream'', ''tcp'', ''nowait'', ''root'', ''/usr/sbin/in.ftpd''] []]"

definition demo_start :: inetd where
  "demo_start = inetd_start demo_env None (Some demo_file)"

definition demo_io :: "int \<Rightarrow> launch_io" where
  "demo_io fd = \<lparr>li_accept = None, li_emfile = False, li_time = 0, li_fork = 77\<rparr>"

definition demo_busy :: inetd where
  "demo_busy = inetd_step demo_env (Ready {3} demo_io) demo_start"

lemma demo_start_reach: "inetd_reach demo_env demo_start"
  unfolding demo_start_def by (rule inetd_reach.started)

lemma demo_values:
  "map se_service (services demo_start) = [''ftp'', ''tftp'']"
  "allsock demo_start = {3, 4}" "nsock demo_start = 2"
  "map se_wait (services demo_busy) = [0, 77]"
  "allsock demo_busy = {4}" "nsock demo_busy = 1"
  by code_simp+

lemma demo_busy_reach: "inetd_reach demo_env demo_busy"
proof -
  have "allowed (Ready {3} demo_io) demo_start"
    using demo_values(2) by (simp add: io_ok_def demo_io_def)
  from inetd_reach.event [OF demo_start_reach this] show ?thesis unfolding demo_busy_def .
qed

section \<open>Sockets\<close>

text \<open>C3: in every state the program reaches, as long as its configuration is read again only while no
  service waits for its server, it looks at exactly the open sockets of the services that are not
  waiting, no two services share a socket, no service is in the table twice, and the counter
  of sockets is right.\<close>

theorem sockets_counted:
  assumes "inetd_reach E s" "sockets_fresh E"
  shows "allsock s = {se_fd e | e. e \<in> set (services s) \<and> se_fd e \<noteq> - 1 \<and> (se_wait e = 0 \<or> se_wait e = 1)}
    \<and> nsock s = int (card (allsock s))
    \<and> distinct (filter (\<lambda>fd. fd \<noteq> - 1) (map se_fd (services s)))
    \<and> distinct (map key (services s))"
proof -
  from reach_ok [OF assms] have ok: "sock_ok s" "distinct (keys s)" by simp_all
  have "socks (services s) = {se_fd e | e. e \<in> set (services s) \<and> se_fd e \<noteq> - 1 \<and> (se_wait e = 0 \<or> se_wait e = 1)}"
    by (auto simp: socks_def live_def idle_def split: if_splits)
  with ok show ?thesis by (simp add: sock_ok_def open_fds_def keys_def)
qed

theorem sockets_counted_witness:
  "allsock demo_busy = {4} \<and> nsock demo_busy = int (card (allsock demo_busy)) \<and> length (services demo_busy) = 2"
proof -
  have "nsock demo_busy = int (card (allsock demo_busy))"
    using sockets_counted [OF demo_busy_reach demo_env_fresh] by blast
  moreover have "length (map se_wait (services demo_busy)) = 2" unfolding demo_values(4) by simp
  ultimately show ?thesis using demo_values(5) by simp
qed

text \<open>Purging the services the configuration no longer names leaves the counter of sockets too low by
  the number of purged services that wait for their server: their socket was already taken off the
  count when the server was started. Once it is zero with sockets left, the main loop does not look
  at them any more.\<close>

theorem purge_miscounts:
  assumes "sock_ok s"
  shows "services (purge 0 s) = filter se_checked (services s)
    \<and> nsock (purge 0 s) = int (card (allsock (purge 0 s)))
        - int (length (filter (\<lambda>e. \<not> se_checked e \<and> \<not> idle e) (services s)))"
proof -
  have "sock_off 0 s" using assms by simp
  from purge_off [OF this, of 0] show ?thesis by (auto simp: sock_off_def sock_ok_def)
qed

definition demo_purge :: inetd where
  "demo_purge = demo_busy\<lparr>services := map (\<lambda>e. e\<lparr>se_checked := se_service e = ''ftp''\<rparr>) (services demo_busy)\<rparr>"

lemma demo_purge_ok: "sock_ok demo_purge"
proof -
  have "sock_ok demo_busy" using reach_ok [OF demo_busy_reach demo_env_fresh] by simp
  moreover have "open_fds (map (\<lambda>e. e\<lparr>se_checked := P e\<rparr>) L) = open_fds L"
    "socks (map (\<lambda>e. e\<lparr>se_checked := P e\<rparr>) L) = socks L" for P L
    by (induction L) (simp_all add: live_def idle_def)
  ultimately show ?thesis by (auto simp: demo_purge_def sock_ok_def idle_def)
qed

theorem purge_miscounts_witness:
  "allsock (purge 0 demo_purge) = {4} \<and> nsock (purge 0 demo_purge) = 0"
proof -
  have a: "allsock (purge 0 demo_purge) = {4}" by code_simp
  have "length (filter (\<lambda>e. \<not> se_checked e \<and> \<not> (se_wait e = 0 \<or> se_wait e = 1)) (services demo_purge)) = 1"
    by code_simp
  with purge_miscounts [OF demo_purge_ok] a show ?thesis by (simp add: idle_def)
qed

section \<open>Configuration\<close>








text \<open>C34: reading a configuration ends, whatever the file holds, and no entry it hands on is empty or has
  more than 26 words.\<close>

theorem loadconfigfile_ends: "\<exists>es. loadconfigfile f = Some es \<and> list_all (\<lambda>e. e \<noteq> [] \<and> length e \<le> 26) es"
proof -
  obtain es where es: "loadconfigfile f = Some es"
    unfolding loadconfigfile_def using load_loop_ends by blast
  then have "\<forall>e\<in>set es. e \<noteq> [] \<and> length e \<le> 26"
    unfolding loadconfigfile_def by (rule load_loop_small) simp_all
  with es show ?thesis by (auto simp: list_all_iff)
qed

text \<open>The bound of the loop is one word more than the array has room for.\<close>

lemma fields_overrun:
  "fields_room = 25 \<and>
   map_option (map length) (loadconfigfile (print_config [Entry (replicate 26 ''x'') []])) = Some [26]"
  by code_simp

text \<open>C33: a configuration written as entries, their continuation lines indented, and comments, is read
  back as the words of the entries, as long as no line is longer than the line buffer holds.\<close>

theorem config_roundtrip:
  assumes "list_all item_ok is"
  shows "loadconfigfile (print_config is) = Some (concat (map item_entry is))"
  using load_items [of "is" "[]" "[]"] assms by (simp add: loadconfigfile_def list_all_iff)

theorem config_roundtrip_witness:
  "loadconfigfile (print_config [Comment ''x'', Entry [''a'', ''b''] [[''c'']], Entry [''d''] []])
     = Some [[''a'', ''b'', ''c''], [''d'']]"
proof -
  have "list_all item_ok [Comment ''x'', Entry [''a'', ''b''] [[''c'']], Entry [''d''] []]" by code_simp
  from config_roundtrip [OF this] show ?thesis by simp
qed

text \<open>C35: an entry that is accepted is well-formed: it is a Unix socket exactly if its protocol says so, and
  then has no address and no versions; a program to run has a name and at most 20 arguments, the
  first never missing; a service inside is in the table of those and of its socket type; and it waits or not.\<close>

theorem assemble_entry_typed:
  assumes "assemble_entry E fs = Inr e" "length fs \<le> 26"
  shows "(se_family e = AF_UNIX) = (se_proto e = ''unix'')
    \<and> (se_family e = AF_UNIX \<longrightarrow> se_address e = None \<and> \<not> isrpcservice e)
    \<and> se_argv e \<noteq> [] \<and> length (se_argv e) \<le> MAXARGV
    \<and> (case se_bi e of None \<Rightarrow> se_server e \<noteq> ''internal''
        | Some b \<Rightarrow> se_server e = ''internal'' \<and> b \<in> set biltins \<and> bi_service b = se_service e
                    \<and> bi_socktype b = se_socktype e)
    \<and> se_wait e \<in> {0, 1}"
proof -
  obtain name addr where n: "split_char CHR ''@'' (fs ! 0) = (name, addr)" by (cases "split_char CHR ''@'' (fs ! 0)")
  obtain fam v lo hi ip where p: "entry_proto (fs ! 2) (addr \<noteq> None) name = Inr (fam, v, lo, hi)"
    and r: "entry_rest fs (blank_entry\<lparr>se_service := v, se_address := addr,
              se_socktype := map_word socket_types (fs ! 1), se_family := fam, se_proto := fs ! 2,
              se_rpcversl := lo, se_rpcversh := hi,
              se_sin_addr := ip\<rparr>)
            = Inr e"
    using assms(1) n by (auto simp: assemble_entry_def Let_def split: if_splits option.splits sum.splits)
  have proto: "(fam = AF_UNIX) = (fs ! 2 = ''unix'')" "fam = AF_UNIX \<Longrightarrow> addr = None \<and> lo = 0"
    using p by (auto simp: entry_proto_def split: if_splits sum.splits)
  have six: "6 \<le> length fs" using assms(1) by (auto simp: assemble_entry_def split: if_splits)
  have "length (se_argv e) \<le> MAXARGV \<and> se_argv e \<noteq> []"
    using r six assms(2) by (auto simp: entry_rest_def Let_def MAXARGV_def split: prod.splits if_splits option.splits)
  moreover have "se_family e = fam" "se_proto e = fs ! 2" "se_address e = addr" "se_rpcversl e = lo"
    using r by (auto simp: entry_rest_def Let_def split: prod.splits if_splits option.splits)
  moreover have "case se_bi e of None \<Rightarrow> se_server e \<noteq> ''internal''
        | Some b \<Rightarrow> se_server e = ''internal'' \<and> b \<in> set biltins \<and> bi_service b = se_service e
                    \<and> bi_socktype b = se_socktype e"
    using r by (auto simp: entry_rest_def Let_def find_builtin_def blank_entry_def
        split: prod.splits if_splits option.splits dest!: find_Some_set)
  moreover have "se_wait e \<in> {0, 1}"
    using assemble_entry_idle [OF assms(1)] by (simp add: idle_def)
  ultimately show ?thesis using proto by (simp add: isrpcservice_def)
qed

theorem assemble_entry_typed_witness:
  "\<exists>e. assemble_entry demo_env [''echo'', ''stream'', ''tcp'', ''nowait'', ''root'', ''internal''] = Inr e
     \<and> se_argv e = [''internal''] \<and> length (se_argv e) \<le> MAXARGV"
proof -
  have "map_sum (\<lambda>x. ()) se_argv (assemble_entry demo_env [''echo'', ''stream'', ''tcp'', ''nowait'', ''root'', ''internal''])
      = Inr [''internal'']" by code_simp
  then obtain e where e: "assemble_entry demo_env [''echo'', ''stream'', ''tcp'', ''nowait'', ''root'', ''internal''] = Inr e"
    "se_argv e = [''internal'']"
    by (cases "assemble_entry demo_env [''echo'', ''stream'', ''tcp'', ''nowait'', ''root'', ''internal'']") auto
  have "length [''echo'', ''stream'', ''tcp'', ''nowait'', ''root'', ''internal''] \<le> 26" by simp
  from assemble_entry_typed [OF e(1) this] e show ?thesis by blast
qed

section \<open>The limit on how often a server is started\<close>










section \<open>The server's process\<close>

fun runs_as :: "child \<Rightarrow> creds option" where
  "runs_as Child_exits = None"
| "runs_as (Child_builtin f c) = Some c"
| "runs_as (Child_exec p as c) = Some c"

lemma runs_as_run_server [simp]: "runs_as (run_server sep c) = Some c"
  by (simp add: run_server_def split: option.split)

text \<open>C6: a server that is run for a user who is not root has that user's number as its real, effective and
  saved user, and the group the configuration names, or the user's own, with the user's further groups;
  whatever system calls fail, it is never run as root. For root, a group that is named is the only one.\<close>

theorem privileges_dropped:
  assumes "runs_as (exec_child X sep c) = Some c'"
  shows "\<exists>name uid pgid. getpwnam X (se_user sep) = Some (name, uid, pgid)
    \<and> (uid \<noteq> 0 \<longrightarrow> ruid c' = uid \<and> euid c' = uid \<and> suid c' = uid
        \<and> (case se_group sep of None \<Rightarrow> egid c' = pgid | Some g \<Rightarrow> getgrnam X g = Some (egid c'))
        \<and> sgroups c' = user_groups X name (egid c'))
    \<and> (uid = 0 \<longrightarrow> (case se_group sep of None \<Rightarrow> c' = c
        | Some g \<Rightarrow> getgrnam X g = Some (egid c') \<and> sgroups c' = [egid c']))"
proof -
  obtain name uid pgid where u: "getpwnam X (se_user sep) = Some (name, uid, pgid)"
    using assms by (auto simp: exec_child_def split: option.splits)
  obtain gid where g: "(case se_group sep of None \<Rightarrow> Some pgid | Some g \<Rightarrow> getgrnam X g) = Some gid"
    using assms u by (cases "case se_group sep of None \<Rightarrow> Some pgid | Some g \<Rightarrow> getgrnam X g")
      (simp_all add: exec_child_def)
  show ?thesis
  proof (cases "uid = 0")
    case True
    with assms u g show ?thesis
      by (cases "se_group sep") (auto simp: exec_child_def split: if_splits)
  next
    case False
    with assms u g have "runs_as (become_user X sep name uid gid c) = Some c'" by (simp add: exec_child_def)
    with False have "c' = c\<lparr>egid := gid, sgroups := user_groups X name gid, ruid := uid, euid := uid, suid := uid\<rparr>"
      by (auto simp: become_user_def Let_def seteuid_root_def split: if_splits)
    with u g False show ?thesis by (cases "se_group sep") auto
  qed
qed

definition demo_exec :: exec_env where
  "demo_exec =
     \<lparr>getpwnam = (\<lambda>u. if u = ''ftp'' then Some (''ftp'', 14, 50) else None), getgrnam = (\<lambda>g. None),
      user_groups = (\<lambda>u g. [g, 7]), call_ok = (\<lambda>p. True)\<rparr>"

definition root_creds :: creds where
  "root_creds = \<lparr>ruid = 0, euid = 0, suid = 0, egid = 0, sgroups = [0]\<rparr>"

theorem privileges_dropped_witness:
  "\<exists>c. runs_as (exec_child demo_exec (blank_entry\<lparr>se_user := ''ftp''\<rparr>) root_creds) = Some c
     \<and> ruid c = 14 \<and> egid c = 50 \<and> sgroups c = [50, 7]"
proof -
  have "map_option ruid (runs_as (exec_child demo_exec (blank_entry\<lparr>se_user := ''ftp''\<rparr>) root_creds)) = Some 14"
    by code_simp
  then obtain c where c: "runs_as (exec_child demo_exec (blank_entry\<lparr>se_user := ''ftp''\<rparr>) root_creds) = Some c"
    "ruid c = 14" by auto
  from privileges_dropped [OF c(1)] c show ?thesis
    by (auto simp: demo_exec_def blank_entry_def)
qed

section \<open>Retrying\<close>

lemma restart_one_opens:
  assumes "sockets_fresh E" "sock_ok s" "i < length (services s)" "\<And>n. bind_ok E n"
    "\<And>n U. \<exists>fd. new_socket E n U = Sock_fd fd"
  shows "se_fd (services (restart_one E i s) ! i) \<noteq> - 1"
    "j < length (services s) \<Longrightarrow> se_fd (services s ! j) \<noteq> - 1 \<Longrightarrow>
      se_fd (services (restart_one E i s) ! j) = se_fd (services s ! j)"
proof -
  obtain f where f: "new_socket E (calls s) (opened s) = Sock_fd f" using assms(5) by blast
  then have "f \<noteq> - 1" using assms(1) sock_okD(1) [OF assms(2)] unfolding sockets_fresh_def by force
  then show "se_fd (services (restart_one E i s) ! i) \<noteq> - 1"
    "j < length (services s) \<Longrightarrow> se_fd (services s ! j) \<noteq> - 1 \<Longrightarrow>
      se_fd (services (restart_one E i s) ! j) = se_fd (services s ! j)"
    using setup_service_opens [OF assms(3) f assms(4)] assms(3)
    by (auto simp: restart_one_def Let_def sep_update_def nth_list_update)
qed

text \<open>When the alarm rings after a service was shut down or its address was taken, and sockets can be had
  again, every service of the table listens again, and the bookkeeping is right.\<close>

theorem retry_revives:
  assumes "sockets_fresh E" "sock_ok s" "\<And>n. bind_ok E n" "\<And>n U. \<exists>fd. new_socket E n U = Sock_fd fd"
  shows "- 1 \<notin> set (map se_fd (services (retry E s))) \<and> sock_ok (retry E s)
    \<and> map key (services (retry E s)) = map key (services s)"
proof -
  let ?s = "s\<lparr>timingout := False\<rparr>"
  have ok: "sock_ok ?s" using assms(2) by (simp add: sock_ok_def)
  have "n \<le> length (services ?s) \<Longrightarrow>
      sock_ok (fold (restart_one E) [0..<n] ?s) \<and> sans_fd (fold (restart_one E) [0..<n] ?s) = sans_fd ?s
      \<and> (\<forall>j<n. se_fd (services (fold (restart_one E) [0..<n] ?s) ! j) \<noteq> - 1)" for n
  proof (induction n)
    case 0
    from ok show ?case by simp
  next
    case (Suc n)
    let ?t = "fold (restart_one E) [0..<n] ?s"
    have t: "sock_ok ?t" "sans_fd ?t = sans_fd ?s" "\<forall>j<n. se_fd (services ?t ! j) \<noteq> - 1"
      using Suc by auto
    have len: "length (services ?t) = length (services ?s)" using t(2) by (metis length_sans)
    with Suc.prems have n: "n < length (services ?t)" by simp
    have "se_fd (services (restart_one E n ?t) ! j) \<noteq> - 1" if "j < Suc n" for j
    proof (cases "j = n")
      case False
      with that have "j < n" by simp
      with t(3) n restart_one_opens(2) [OF assms(1) t(1) n assms(3,4), of j] show ?thesis by simp
    qed (simp add: restart_one_opens(1) [OF assms(1) t(1) n assms(3,4)])
    with restart_one_ok [OF assms(1) t(1) n] t(2) show ?case by simp
  qed
  from this [of "length (services ?s)"]
  have all: "\<forall>j<length (services s). se_fd (services (retry E s) ! j) \<noteq> - 1"
    by (simp add: retry_def restart_services_def)
  have r: "sock_ok (retry E s)" "sans_fd (retry E s) = sans_fd s" using retry_ok [OF assms(1,2)] by simp_all
  then have "length (services (retry E s)) = length (services s)" by (metis length_sans)
  with all have "- 1 \<notin> set (map se_fd (services (retry E s)))" by (auto simp: in_set_conv_nth)
  with r sans_keys [OF r(2)] show ?thesis by (simp add: keys_def)
qed

definition demo_down :: inetd where
  "demo_down = demo_start\<lparr>services := map (\<lambda>e. e\<lparr>se_fd := - 1\<rparr>) (services demo_start),
     allsock := {}, nsock := 0, opened := {}, timingout := True\<rparr>"

theorem retry_revives_witness:
  "map se_fd (services demo_down) = [- 1, - 1] \<and> - 1 \<notin> set (map se_fd (services (retry demo_env demo_down)))"
proof -
  have "map se_fd (services demo_down) = [- 1, - 1]" "map se_wait (services demo_start) = [0, 1]" by code_simp+
  moreover from this have "sock_ok demo_down"
    by (auto simp: demo_down_def sock_ok_def open_fds_def socks_def live_def idle_def map_eq_Cons_conv)
  moreover have "bind_ok demo_env n" "\<exists>fd. new_socket demo_env n U = Sock_fd fd" for n U
    by (simp_all add: demo_env_def)
  ultimately show ?thesis using retry_revives [OF demo_env_fresh, of demo_down] by blast
qed

section \<open>The environment\<close>

text \<open>The loop that moves variables down in place keeps exactly those that are no junk, in order.\<close>

lemma discard_from_filter:
  "k \<le> i \<Longrightarrow> i \<le> length env \<Longrightarrow>
   discard_from i k env = take k env @ filter (\<lambda>v. \<not> is_junk v) (drop i env)"
proof (induction i k env rule: discard_from.induct)
  case (1 i k env)
  show ?case
  proof (cases "i < length env")
    case True
    then have d: "drop i env = env ! i # drop (Suc i) env" by (rule Cons_nth_drop_Suc [symmetric])
    show ?thesis
    proof (cases "is_junk (env ! i)")
      case True
      with 1(1) [OF \<open>i < length env\<close>] 1(3) d \<open>i < length env\<close> show ?thesis
        by (subst discard_from.simps) simp
    next
      case False
      have "take (Suc k) (env[k := env ! i]) = take k env @ [env ! i]"
        using 1(3) True by (simp add: take_Suc_conv_app_nth)
      moreover have "drop (Suc i) (env[k := env ! i]) = drop (Suc i) env" using 1(3) by simp
      ultimately show ?thesis
        using 1(2) [OF True False] 1(3) d True False by (subst discard_from.simps) simp
    qed
  qed (use 1 in \<open>subst discard_from.simps, simp\<close>)
qed

text \<open>The environment left to the servers is what was there but for the variables named as junk.\<close>

theorem environment_discarded:
  "discard_stupid_environment env = filter (\<lambda>v. \<not> is_junk v) env"
  using discard_from_filter [of 0 0 env] by (simp add: discard_stupid_environment_def)

end
