(* ===== verification/Ftp_Map.thy ===== *)
theory Ftp_Map
  imports Netkit_Prelude
begin

text \<open>
  The user's mapping of file names (\<open>domap\<close> of \<^verbatim>\<open>ftp/cmds.c\<close>): a name is matched against the
  pattern \<open>mapin\<close>, which fills the tokens \<open>$1\<close> to \<open>$9\<close>, and \<open>mapout\<close> says what is made of them. A pointer
  into a C string is the rest of the string at that place.
\<close>

type_synonym toks = "nat \<Rightarrow> string option"

definition is_digit_char :: "char \<Rightarrow> bool" where
  "is_digit_char c \<longleftrightarrow> 48 \<le> (of_char c :: nat) \<and> (of_char c :: nat) \<le> 57"

definition tok_index :: "char \<Rightarrow> nat" where
  "tok_index c = (of_char c :: nat) - 48"

section \<open>Matching\<close>

text \<open>
  The first loop. \<open>k\<close> is \<open>toknum\<close>; a token runs to the character that follows it in the pattern, but
  has at least one character. A mismatch drops the last token.
\<close>

fun map_match :: "nat \<Rightarrow> toks \<Rightarrow> string \<Rightarrow> string \<Rightarrow> toks" where
  "map_match k T [] m = T"
| "map_match k T (c # cs) [] = T"
| "map_match k T (c # cs) (d # ds) =
     (if d = CHR 0x5C then
        (case ds of [] \<Rightarrow> T(k := None) | e # es \<Rightarrow> if e \<noteq> c then T(k := None) else map_match k T cs es)
      else if d = CHR ''$'' \<and> ds \<noteq> [] \<and> is_digit_char (hd ds) \<and> hd ds \<noteq> CHR ''0'' then
        (let es = tl ds; k' = tok_index (hd ds)
         in if take 1 es = [c] then map_match k T cs (drop 1 es)
            else map_match k' (T(k' \<mapsto> c # takeWhile (\<lambda>x. take 1 es \<noteq> [x]) cs))
                   (drop 1 (dropWhile (\<lambda>x. take 1 es \<noteq> [x]) cs)) (drop 1 es))
      else if d \<noteq> c then T(k := None)
      else map_match k T cs ds)"

section \<open>The new name\<close>

definition tok_text :: "string \<Rightarrow> toks \<Rightarrow> char \<Rightarrow> string option" where
  "tok_text name T d = (if d = CHR ''0'' then Some name else T (tok_index d))"

definition tok_or_empty :: "string \<Rightarrow> toks \<Rightarrow> char \<Rightarrow> string" where
  "tok_or_empty name T d = (case tok_text name T d of None \<Rightarrow> [] | Some x \<Rightarrow> x)"

text \<open>An alternative in brackets that does not begin with a token, and what follows it.\<close>

fun alt_text :: "string \<Rightarrow> toks \<Rightarrow> string \<Rightarrow> string \<times> string" where
  "alt_text name T [] = ([], [])"
| "alt_text name T (c # cs) =
     (if c = CHR '','' \<or> c = CHR '']'' then ([], c # cs)
      else if c = CHR 0x5C then alt_text name T cs
      else if c = CHR ''$'' \<and> cs \<noteq> [] \<and> is_digit_char (hd cs) then
        (let (x, r) = alt_text name T cs in (tok_or_empty name T (hd cs) @ x, r))
      else (let (x, r) = alt_text name T cs in (c # x, r)))"

text \<open>The rest after the closing bracket.\<close>

fun skip_bracket :: "string \<Rightarrow> string option" where
  "skip_bracket [] = None"
| "skip_bracket (c # cs) =
     (if c = CHR '']'' then Some cs
      else if c = CHR 0x5C then (case cs of [] \<Rightarrow> None | d # ds \<Rightarrow> skip_bracket ds)
      else skip_bracket cs)"

text \<open>
  From an opening bracket, or a comma after an alternative that was empty: the text for the brackets and the
  rest after them; \<open>None\<close> when they are not closed.
\<close>

fun bracket :: "string \<Rightarrow> toks \<Rightarrow> string \<Rightarrow> (string \<times> string) option" where
  "bracket name T (c # d # r) =
     (if c = CHR ''$'' \<and> is_digit_char d then
        (case tok_text name T d of
           Some x \<Rightarrow> map_option (Pair x) (skip_bracket r)
         | None \<Rightarrow>
             (case r of
                [] \<Rightarrow> None
              | e # es \<Rightarrow>
                  if e = CHR '','' then bracket name T es
                  else if e = CHR '']'' then Some ([], es)
                  else bracket name T (e # es)))
      else (let (x, q) = alt_text name T (c # d # r) in map_option (Pair x) (skip_bracket q)))"
| "bracket name T r = (let (x, q) = alt_text name T r in map_option (Pair x) (skip_bracket q))"

lemma skip_bracket_shorter: "skip_bracket r = Some q \<Longrightarrow> length q < length r"
  by (induction r arbitrary: q rule: skip_bracket.induct) (fastforce split: if_splits list.splits)+

lemma alt_text_le: "alt_text name T r = (x, q) \<Longrightarrow> length q \<le> length r"
  by (induction r arbitrary: x q) (fastforce split: if_splits prod.splits)+

lemma alt_skip_shorter:
  "(let (x, q) = alt_text name T r in map_option (Pair x) (skip_bracket q)) = Some (y, z) \<Longrightarrow> length z < length r"
  by (cases "alt_text name T r") (auto dest!: skip_bracket_shorter alt_text_le)

lemma bracket_shorter: "bracket name T r = Some (x, q) \<Longrightarrow> length q < length r"
proof (induction name T r arbitrary: x q rule: bracket.induct)
  case (1 name T c d r)
  note eq = 1(3) [unfolded bracket.simps]
  show ?case
  proof (cases "c = CHR ''$'' \<and> is_digit_char d")
    case False
    then have "bracket name T (c # d # r) =
        (let (x, q) = alt_text name T (c # d # r) in map_option (Pair x) (skip_bracket q))"
      by (simp only: bracket.simps if_False)
    with 1(3) show ?thesis by (metis alt_skip_shorter)
  next
    case tok: True
    show ?thesis
    proof (cases "tok_text name T d")
      case (Some y)
      with tok eq show ?thesis by (auto dest!: skip_bracket_shorter)
    next
      case None
      with tok eq show ?thesis
        by (cases r) (fastforce dest: 1(1) [OF tok None] 1(2) [OF tok None] split: if_splits)+
    qed
  qed
qed (simp_all only: bracket.simps alt_skip_shorter)

function map_out :: "string \<Rightarrow> toks \<Rightarrow> string \<Rightarrow> string \<Rightarrow> string option" where
  "map_out name T out [] = Some out"
| "map_out name T out (c # cs) =
     (if c = CHR 0x5C then
        (case cs of [] \<Rightarrow> Some out | d # ds \<Rightarrow> map_out name T (out @ [d]) ds)
      else if c = CHR ''['' then
        (case bracket name T cs of None \<Rightarrow> None | Some (x, r) \<Rightarrow> map_out name T (out @ x) r)
      else if c = CHR ''$'' \<and> cs \<noteq> [] \<and> is_digit_char (hd cs) then
        map_out name T (out @ tok_or_empty name T (hd cs)) (tl cs)
      else map_out name T (out @ [c]) cs)"
  by pat_completeness auto
termination
  by (relation "measure (\<lambda>(name, T, out, m). length m)") (auto dest: bracket_shorter [OF sym] bracket_shorter)

definition domap :: "string \<Rightarrow> string \<Rightarrow> string \<Rightarrow> string" where
  "domap mapin mapout name =
     (case map_out name (map_match 1 (\<lambda>_. None) name mapin) [] mapout of
        None \<Rightarrow> name
      | Some new \<Rightarrow> if new = [] then name else new)"

end
