(* ===== verification/Ftp_Names.thy ===== *)
theory Ftp_Names
  imports Ftp_Map
begin

text \<open>
  What the file transfer client does with file names (\<^verbatim>\<open>ftp/cmds.c\<close>, \<open>gunique\<close> of \<^verbatim>\<open>ftp/ftp.c\<close>):
  the translations asked for by the user, the protections against names a server makes up, the check
  of the list of names a server returns for a pattern, and the search for a name not in use. A C
  string is the list of its characters before the null.
\<close>

section \<open>Protected names\<close>

text \<open>
  The loop of \<open>pathprotect\<close>, over the name with a slash in the place of its null. \<open>done\<close> is what the
  loop has passed, last character first; \<open>g\<close> is \<open>gotdots\<close>.
\<close>

fun protect_loop :: "int \<Rightarrow> string \<Rightarrow> string \<Rightarrow> string" where
  "protect_loop g done [] = rev done"
| "protect_loop g done (c # cs) =
     (if c = CHR ''.'' \<and> g \<ge> 0 then protect_loop (g + 1) (c # done) cs
      else if c = CHR ''/'' \<and> g < 0 then protect_loop 0 (c # done) cs
      else if c = CHR ''/'' \<and> g = 2 then protect_loop 0 (c # CHR ''!'' # CHR ''!'' # drop 2 done) cs
      else if c = CHR ''/'' then protect_loop 0 (c # done) cs
      else protect_loop (- 1) (c # done) cs)"

definition pathprotect :: "string \<Rightarrow> string" where
  "pathprotect name = take (length name) (protect_loop 0 [] (name @ ''/''))"

definition pipeprotect :: "string \<Rightarrow> string" where
  "pipeprotect name =
     (if name \<noteq> ''-'' \<and> take 1 name \<noteq> ''|'' \<and> take 1 name \<noteq> ''/'' then name
      else ''.'' @ (if take 1 name \<noteq> ''/'' then ''/'' else []) @ name)"

section \<open>Translations\<close>

text \<open>The tables \<open>ntin\<close> and \<open>ntout\<close> have 16 characters at most.\<close>

definition ntable :: "string \<Rightarrow> string" where
  "ntable a = take 16 a"

fun char_pos :: "char \<Rightarrow> string \<Rightarrow> nat option" where
  "char_pos c [] = None"
| "char_pos c (d # ds) = (if c = d then Some 0 else map_option Suc (char_pos c ds))"

definition dotrans :: "string \<Rightarrow> string \<Rightarrow> string \<Rightarrow> string" where
  "dotrans ntin ntout name =
     concat (map (\<lambda>c. case char_pos c (ntable ntin) of
                        None \<Rightarrow> [c]
                      | Some i \<Rightarrow> if i < length (ntable ntout) then [ntable ntout ! i] else []) name)"

definition islower :: "char \<Rightarrow> bool" where
  "islower c \<longleftrightarrow> 97 \<le> (of_char c :: nat) \<and> (of_char c :: nat) \<le> 122"

definition isupper :: "char \<Rightarrow> bool" where
  "isupper c \<longleftrightarrow> 65 \<le> (of_char c :: nat) \<and> (of_char c :: nat) \<le> 90"

definition to_lower_char :: "char \<Rightarrow> char" where
  "to_lower_char c = (if isupper c then char_of (of_char c + 32 :: nat) else c)"

text \<open>
  The mapping of names all in capitals. For any other name the code goes on with its local buffer as
  well, which is then whatever it was (\<open>stale\<close>).
\<close>

definition case_map :: "string \<Rightarrow> string \<Rightarrow> string" where
  "case_map stale name = (if \<exists>c\<in>set name. islower c then stale else map to_lower_char name)"

record name_opts =
  mcase :: bool
  ntflag :: bool
  nt_in :: string
  nt_out :: string
  mapflag :: bool
  map_in :: string
  map_to :: string

text \<open>The local name for a file of the server in a multiple get.\<close>

definition mget_name :: "name_opts \<Rightarrow> string \<Rightarrow> string \<Rightarrow> string" where
  "mget_name opt stale cp =
     (let t1 = (if mcase opt then case_map stale cp else cp);
          t2 = (if ntflag opt then dotrans (nt_in opt) (nt_out opt) t1 else t1);
          t3 = (if mapflag opt then domap (map_in opt) (map_to opt) t2 else t2)
      in pipeprotect (pathprotect t3))"

section \<open>The check of a list of names\<close>

fun dotdot_loop :: "nat \<Rightarrow> string \<Rightarrow> bool" where
  "dotdot_loop havedot [] = True"
| "dotdot_loop havedot (c # cs) =
     (if c = CHR ''/'' then True
      else if c = CHR ''*'' \<or> c = CHR ''?'' then dotdot_loop havedot cs
      else if c = CHR ''.'' then (if havedot \<noteq> 0 then False else dotdot_loop (Suc havedot) cs)
      else dotdot_loop havedot cs)"

definition isdotdotglob :: "string \<Rightarrow> bool" where
  "isdotdotglob p = (case p of [] \<Rightarrow> False | c # cs \<Rightarrow> c = CHR ''.'' \<and> dotdot_loop 0 cs)"

text \<open>The walks from slash to slash: the rest of the string at the beginning of each component.\<close>

definition skip_slashes :: "string \<Rightarrow> string" where
  "skip_slashes s = dropWhile (\<lambda>c. c = CHR ''/'') s"

lemma skip_slashes_le: "length (skip_slashes s) \<le> length s"
  by (simp add: skip_slashes_def length_dropWhile_le)

function comp_starts :: "string \<Rightarrow> string list" where
  "comp_starts s =
     (let t = skip_slashes s; u = dropWhile (\<lambda>c. c \<noteq> CHR ''/'') t in
      if u = [] then [t] else t # comp_starts u)"
  by pat_completeness auto
termination
proof (relation "measure (\<lambda>s. 2 * length s - (if s \<noteq> [] \<and> hd s = CHR ''/'' then 1 else 0))", goal_cases)
  case (2 s t u)
  have le: "length u \<le> length t" "length t \<le> length s"
    using 2 by (simp_all add: length_dropWhile_le skip_slashes_le)
  have u: "u \<noteq> []" "hd u = CHR ''/''"
    using 2 hd_dropWhile [of "\<lambda>c. c \<noteq> CHR ''/''" t] by auto
  show ?case
  proof (cases "s \<noteq> [] \<and> hd s = CHR ''/''")
    case True
    then obtain s' where "s = CHR ''/'' # s'" by (cases s) auto
    then have "length t < length s"
      using 2 length_dropWhile_le [of "\<lambda>c. c = CHR ''/''" s'] by (simp add: skip_slashes_def)
    with le u show ?thesis using 2(3) by (cases u) auto
  next
    case False
    with le u show ?thesis by (cases u) auto
  qed
qed simp

declare comp_starts.simps [simp del]

definition MAXPATHLEN :: nat where "MAXPATHLEN = 4096"

definition up_comp :: "string \<Rightarrow> bool" where
  "up_comp sp \<longleftrightarrow> take 3 sp = ''../''"

definition name_ok :: "bool \<Rightarrow> bool list \<Rightarrow> string \<Rightarrow> bool" where
  "name_ok initial dotdot name \<longleftrightarrow>
     \<not> (take 1 name = ''|'' \<or> take 1 name \<noteq> ''/'' \<and> initial \<or> take 1 name = ''/'' \<and> \<not> initial) \<and>
     (let cs = comp_starts name in
      \<forall>nr<length cs. \<not> (up_comp (cs ! nr) \<and> (nr \<ge> length dotdot \<or> \<not> dotdot ! nr)))"

text \<open>The names are the lines of the list; one that does not fit the buffer is refused.\<close>

definition checkglob :: "string \<Rightarrow> string list \<Rightarrow> bool" where
  "checkglob pattern names \<longleftrightarrow>
     (let starts = comp_starts pattern; dotdot = map isdotdotglob starts;
          initial = (take 1 pattern = ''/'')
      in length starts \<le> MAXPATHLEN \<and>
         (\<forall>n\<in>set names. length n < MAXPATHLEN - 1 \<and> name_ok initial dotdot n))"

section \<open>A name not in use\<close>

text \<open>
  The loop of \<open>gunique\<close>. \<open>digits\<close> is what follows the dot, \<open>ext\<close> the next digit; \<open>used\<close> tells
  whether a name exists.
\<close>

definition next_char :: "char \<Rightarrow> char" where
  "next_char c = char_of (of_char c + 1 :: nat)"

fun unique_loop :: "nat \<Rightarrow> (string \<Rightarrow> bool) \<Rightarrow> string \<Rightarrow> string \<Rightarrow> char \<Rightarrow> string option" where
  "unique_loop 0 used stem digits ext = None"
| "unique_loop (Suc n) used stem digits ext =
     (let new = stem @ ''.'' @ digits @ [ext];
          ext' = (if ext = CHR ''9'' then CHR ''0'' else next_char ext)
      in if \<not> used new then Some new
         else if ext' \<noteq> CHR ''0'' then unique_loop n used stem digits ext'
         else if digits = [] then unique_loop n used stem ''1'' ext'
         else unique_loop n used stem (butlast digits @ [next_char (last digits)]) ext')"

definition gunique :: "(string \<Rightarrow> bool) \<Rightarrow> bool \<Rightarrow> string \<Rightarrow> string option" where
  "gunique used writable local = (if \<not> writable then None else unique_loop 99 used local [] CHR ''1'')"

end
