(* ===== verification/Ftp_Paths.thy ===== *)
theory Ftp_Paths
  imports Ftp_Names
begin

text \<open>
  Paths as lists of components: what the protections do to them, and the walk from slash to slash as
  the components that are not empty.
\<close>

fun path_comps_from :: "string \<Rightarrow> string \<Rightarrow> string list" where
  "path_comps_from cur [] = [cur]"
| "path_comps_from cur (c # s) =
     (if c = CHR ''/'' then cur # path_comps_from [] s else path_comps_from (cur @ [c]) s)"

definition path_comps :: "string \<Rightarrow> string list" where
  "path_comps s = path_comps_from [] s"

lemma path_comps_from_plain: "CHR ''/'' \<notin> set x \<Longrightarrow> path_comps_from cur x = [cur @ x]"
  by (induction x arbitrary: cur) auto

lemma path_comps_from_slash:
  "CHR ''/'' \<notin> set x \<Longrightarrow> path_comps_from cur (x @ CHR ''/'' # s) = (cur @ x) # path_comps_from [] s"
  by (induction x arbitrary: cur) auto

lemma path_comps_plain: "CHR ''/'' \<notin> set x \<Longrightarrow> path_comps x = [x]"
  by (simp add: path_comps_def path_comps_from_plain)

lemma path_comps_slash: "CHR ''/'' \<notin> set x \<Longrightarrow> path_comps (x @ CHR ''/'' # s) = x # path_comps s"
  by (simp add: path_comps_def path_comps_from_slash)

lemma path_comps_dot_slash [simp]: "path_comps (CHR ''.'' # CHR ''/'' # s) = ''.'' # path_comps s"
  using path_comps_slash [of "''.''" s] by simp

lemma path_split:
  obtains (plain) "CHR ''/'' \<notin> set s" | (slash) x t where "s = x @ CHR ''/'' # t" "CHR ''/'' \<notin> set x"
  by (cases "CHR ''/'' \<in> set s") (auto dest: split_list_first)

section \<open>The protection against dots\<close>

definition no_dots :: "string \<Rightarrow> string" where
  "no_dots c = (if c = ''..'' then ''!!'' else c)"

definition dots_seen :: "int \<Rightarrow> string \<Rightarrow> bool" where
  "dots_seen g cur \<longleftrightarrow> (if g \<ge> 0 then cur = replicate (nat g) CHR ''.'' else \<not> list_all (\<lambda>c. c = CHR ''.'') cur)"

lemma dots_seen_two: "dots_seen g cur \<Longrightarrow> (cur = ''..'') = (g = 2)"
proof -
  have "replicate n CHR ''.'' = ''..'' \<longleftrightarrow> n = 2" for n
  proof -
    have two: "''..'' = replicate 2 CHR ''.''" by (simp add: eval_nat_numeral)
    show ?thesis unfolding two replicate_eq_replicate by simp
  qed
  note rep = this
  show ?thesis if d: "dots_seen g cur"
  proof (cases "g \<ge> 0")
    case True
    then have "cur = replicate (nat g) CHR ''.''" using d by (simp add: dots_seen_def)
    then have "(cur = ''..'') = (nat g = 2)" using rep [of "nat g"] by simp
    with True show ?thesis by auto
  next
    case False
    then have "\<not> list_all (\<lambda>c. c = CHR ''.'') cur" using d by (simp add: dots_seen_def)
    with False show ?thesis by auto
  qed
qed

lemma dots_seen_step:
  assumes "dots_seen g cur"
  shows "dots_seen (if c = CHR ''.'' \<and> g \<ge> 0 then g + 1 else - 1) (cur @ [c])"
proof -
  have "g \<ge> 0 \<Longrightarrow> replicate (nat g) CHR ''.'' @ [CHR ''.''] = replicate (nat (g + 1)) CHR ''.''"
    by (simp add: nat_add_distrib replicate_append_same)
  with assms show ?thesis by (auto simp: dots_seen_def)
qed

lemma protect_loop_comps:
  "dots_seen g cur \<Longrightarrow> CHR ''/'' \<notin> set cur \<Longrightarrow>
   \<exists>x. protect_loop g (rev cur @ rest) (s @ ''/'') = rev rest @ x @ ''/'' \<and> length x = length cur + length s \<and>
     path_comps x = map no_dots (path_comps (cur @ s))"
proof (induction s arbitrary: g cur rest)
  case Nil
  let ?x = "no_dots cur"
  have "protect_loop g (rev cur @ rest) ''/'' = rev rest @ ?x @ ''/''"
    using dots_seen_two [OF Nil(1)] by (auto simp: no_dots_def)
  moreover have "CHR ''/'' \<notin> set ?x" using Nil(2) by (simp add: no_dots_def)
  moreover have "length ?x = length cur" by (simp add: no_dots_def)
  ultimately show ?case using Nil(2) by (intro exI [of _ ?x]) (simp add: path_comps_plain)
next
  case (Cons c s)
  show ?case
  proof (cases "c = CHR ''/''")
    case False
    let ?g = "if c = CHR ''.'' \<and> g \<ge> 0 then g + 1 else - 1"
    have "protect_loop g (rev cur @ rest) ((c # s) @ ''/'') = protect_loop ?g (rev (cur @ [c]) @ rest) (s @ ''/'')"
      using False by simp
    with Cons.IH [OF dots_seen_step [OF Cons.prems(1), of c], of rest] Cons.prems(2) False show ?thesis
      by fastforce
  next
    case True
    have empty: "dots_seen 0 []" by (simp add: dots_seen_def)
    have step: "protect_loop g (rev cur @ rest) ((c # s) @ ''/'') =
        protect_loop 0 (rev [] @ CHR ''/'' # rev (no_dots cur) @ rest) (s @ ''/'')"
      using True dots_seen_two [OF Cons.prems(1)] by (auto simp: no_dots_def)
    obtain x where x: "protect_loop 0 (rev [] @ CHR ''/'' # rev (no_dots cur) @ rest) (s @ ''/'')
        = rev (CHR ''/'' # rev (no_dots cur) @ rest) @ x @ ''/''"
      "length x = length s" "path_comps x = map no_dots (path_comps s)"
      using Cons.IH [OF empty, of "CHR ''/'' # rev (no_dots cur) @ rest"] by auto
    have nc: "CHR ''/'' \<notin> set (no_dots cur)" "length (no_dots cur) = length cur"
      using Cons.prems(2) by (simp_all add: no_dots_def)
    show ?thesis
    proof (intro exI conjI)
      show "protect_loop g (rev cur @ rest) ((c # s) @ ''/'') = rev rest @ (no_dots cur @ CHR ''/'' # x) @ ''/''"
        unfolding step x(1) by simp
      show "length (no_dots cur @ CHR ''/'' # x) = length cur + length (c # s)" using x(2) nc(2) by simp
      show "path_comps (no_dots cur @ CHR ''/'' # x) = map no_dots (path_comps (cur @ c # s))"
        using x(3) nc(1) Cons.prems(2) True by (simp add: path_comps_slash)
    qed
  qed
qed

lemma pathprotect_comps:
  "path_comps (pathprotect s) = map no_dots (path_comps s)" "length (pathprotect s) = length s"
proof -
  have "dots_seen 0 []" by (simp add: dots_seen_def)
  from protect_loop_comps [OF this, of "[]" s] obtain x where
    x: "protect_loop 0 [] (s @ ''/'') = x @ ''/''" "length x = length s" "path_comps x = map no_dots (path_comps s)"
    by auto
  then have "pathprotect s = x" by (simp add: pathprotect_def)
  with x(2,3) show "path_comps (pathprotect s) = map no_dots (path_comps s)" "length (pathprotect s) = length s"
    by simp_all
qed

section \<open>The walk from slash to slash\<close>

text \<open>The components of a name but for leading and repeated slashes, each with what follows it.\<close>

lemma skip_slashes_hd: "skip_slashes s \<noteq> [] \<Longrightarrow> hd (skip_slashes s) \<noteq> CHR ''/''"
  unfolding skip_slashes_def by (rule hd_dropWhile [of "\<lambda>c. c = CHR ''/''"])

lemma comp_starts_unfold:
  "comp_starts s =
     (let t = skip_slashes s; u = dropWhile (\<lambda>c. c \<noteq> CHR ''/'') t in
      if u = [] then [t] else t # comp_starts u)"
  by (subst comp_starts.simps) simp

lemma path_comps_skip: "c \<noteq> [] \<Longrightarrow> c \<in> set (path_comps s) \<longleftrightarrow> c \<in> set (path_comps (skip_slashes s))"
proof (induction s)
  case (Cons d s)
  then show ?case
    using path_comps_slash [of "[]" s] by (cases "d = CHR ''/''") (simp_all add: skip_slashes_def)
qed (simp add: skip_slashes_def)

lemma skip_slashes_slash: "skip_slashes (CHR ''/'' # s) = skip_slashes s"
  by (simp add: skip_slashes_def)

lemma comp_starts_slash: "comp_starts (CHR ''/'' # r) = comp_starts r"
  by (subst (1 2) comp_starts_unfold) (simp add: skip_slashes_slash)

lemma comp_starts_last: "CHR ''/'' \<notin> set (skip_slashes s) \<Longrightarrow> comp_starts s = [skip_slashes s]"
proof -
  assume "CHR ''/'' \<notin> set (skip_slashes s)"
  then have "dropWhile (\<lambda>c. c \<noteq> CHR ''/'') (skip_slashes s) = []" by auto
  then show ?thesis by (subst comp_starts_unfold) (simp only: Let_def if_True simp_thms)
qed

lemma comp_starts_step:
  assumes "skip_slashes s = y @ CHR ''/'' # r" "CHR ''/'' \<notin> set y"
  shows "comp_starts s = skip_slashes s # comp_starts r"
proof -
  have "dropWhile (\<lambda>c. c \<noteq> CHR ''/'') (skip_slashes s) = CHR ''/'' # r"
    using assms by (auto simp: dropWhile_append)
  then show ?thesis
    by (subst comp_starts_unfold) (simp add: Let_def comp_starts_slash del: dropWhile_eq_Nil_conv)
qed

text \<open>Every component that something follows begins one of the places the walk stops at.\<close>

lemma comp_in_starts:
  "x \<noteq> [] \<Longrightarrow> x \<in> set (butlast (path_comps s)) \<Longrightarrow> \<exists>t\<in>set (comp_starts s). \<exists>r. t = x @ CHR ''/'' # r"
proof (induction "length s" arbitrary: s rule: less_induct)
  case less
  let ?t = "skip_slashes s"
  have but: "x \<in> set (butlast (path_comps s)) \<longleftrightarrow> x \<in> set (butlast (path_comps (skip_slashes s)))"
  proof (induction s)
    case (Cons d s)
    have "path_comps s \<noteq> []" for s
      by (cases s rule: path_split) (auto simp: path_comps_plain path_comps_slash)
    with Cons less.prems(1) show ?case
      using path_comps_slash [of "[]" s] by (cases "d = CHR ''/''") (simp_all add: skip_slashes_def)
  qed (simp add: skip_slashes_def)
  show ?case
  proof (cases ?t rule: path_split)
    case plain
    with but less.prems(2) show ?thesis by (simp add: path_comps_plain)
  next
    case (slash y r)
    have starts: "comp_starts s = ?t # comp_starts r" using slash by (rule comp_starts_step)
    have len: "length (CHR ''/'' # r) \<le> length s"
      using slash(1) skip_slashes_le [of s] by simp
    show ?thesis
    proof (cases "x = y")
      case True
      with slash(1) starts show ?thesis by auto
    next
      case False
      have ne: "path_comps r \<noteq> []"
        by (cases r rule: path_split) (auto simp: path_comps_plain path_comps_slash)
      have xr: "x \<in> set (butlast (path_comps r))"
        using less.prems(2) but slash False ne by (auto simp: path_comps_slash split: if_splits)
      have "length r < length s" using len by simp
      from less.hyps [OF this less.prems(1) xr] obtain t q where
        t: "t \<in> set (comp_starts r)" "t = x @ CHR ''/'' # q" by blast
      with t starts show ?thesis by auto
    qed
  qed
qed

text \<open>Every place the walk stops at is the end of the name or begins one of its components.\<close>

lemma comp_starts_comps:
  "t \<in> set (comp_starts s) \<Longrightarrow> t = [] \<or> (\<exists>x\<in>set (path_comps s). take 1 x = take 1 t)"
proof (induction "length s" arbitrary: s t rule: less_induct)
  case less
  let ?t = "skip_slashes s"
  have mem: "x \<noteq> [] \<Longrightarrow> x \<in> set (path_comps ?t) \<Longrightarrow> x \<in> set (path_comps s)" for x
    using path_comps_skip by blast
  have here: "?t = [] \<or> (\<exists>x\<in>set (path_comps s). take 1 x = take 1 ?t)"
  proof (cases ?t)
    case (Cons c r)
    have c: "c \<noteq> CHR ''/''"
      using skip_slashes_hd [of s] Cons by simp
    have "\<exists>x\<in>set (path_comps ?t). x \<noteq> [] \<and> take 1 x = [c]"
    proof (cases ?t rule: path_split)
      case plain
      with Cons show ?thesis by (simp add: path_comps_plain)
    next
      case (slash x q)
      have "x \<noteq> [] \<and> take 1 x = [c]" using slash(1) Cons c by (cases x) simp_all
      with slash show ?thesis by (simp add: path_comps_slash)
    qed
    with mem Cons show ?thesis by fastforce
  qed simp
  show ?case
  proof (cases ?t rule: path_split)
    case plain
    then have "comp_starts s = [?t]" by (rule comp_starts_last)
    with less.prems here show ?thesis by simp
  next
    case (slash y r)
    have starts: "comp_starts s = ?t # comp_starts r" using slash by (rule comp_starts_step)
    show ?thesis
    proof (cases "t = ?t")
      case True
      with here show ?thesis by simp
    next
      case False
      then have "t \<in> set (comp_starts r)" using less.prems starts by simp
      moreover have "length r < length s" using slash(1) skip_slashes_le [of s] by simp
      ultimately have "t = [] \<or> (\<exists>x\<in>set (path_comps r). take 1 x = take 1 t)" by (rule less.hyps [rotated])
      moreover have "x \<in> set (path_comps s)" if "x \<in> set (path_comps r)" "x \<noteq> []" for x
        using that slash mem by (simp add: path_comps_slash)
      ultimately show ?thesis by fastforce
    qed
  qed
qed

section \<open>A name not in use\<close>

text \<open>The names tried, in order.\<close>

fun tried :: "nat \<Rightarrow> string \<Rightarrow> char \<Rightarrow> string list" where
  "tried 0 digits ext = []"
| "tried (Suc n) digits ext =
     (let ext' = (if ext = CHR ''9'' then CHR ''0'' else next_char ext)
      in (digits @ [ext]) #
         (if ext' \<noteq> CHR ''0'' then tried n digits ext'
          else if digits = [] then tried n ''1'' ext'
          else tried n (butlast digits @ [next_char (last digits)]) ext'))"

lemma unique_loop_tried:
  "unique_loop n used stem digits ext = find (\<lambda>x. \<not> used x) (map (\<lambda>d. stem @ ''.'' @ d) (tried n digits ext))"
  by (induction n arbitrary: digits ext) (simp_all add: Let_def)

text \<open>They are the numbers from 1 to 99.\<close>

definition decimal :: "nat \<Rightarrow> string" where
  "decimal i = (if i < 10 then [] else [char_of (48 + i div 10)]) @ [char_of (48 + i mod 10)]"

lemma tried_numbers: "tried 99 [] CHR ''1'' = map decimal [1..<100]"
  by code_simp

end
