(* ===== verification/Ftp_Mapping.thy ===== *)
theory Ftp_Mapping
  imports Ftp_Map
begin

text \<open>
  The name mapping as the manual page describes it: a pattern of numbered fields between a separator, a template of
  characters, fields and bracketed choices, and the name the template stands for.
\<close>

section \<open>Patterns and templates\<close>

definition digit_char :: "nat \<Rightarrow> char" where
  "digit_char i = char_of (48 + i)"

lemma digit_char [simp]:
  assumes "i \<le> 9"
  shows "is_digit_char (digit_char i)" "tok_index (digit_char i) = i" "digit_char i = CHR ''0'' \<longleftrightarrow> i = 0"
proof -
  have o: "(of_char (digit_char i) :: nat) = 48 + i" using assms by (simp add: digit_char_def)
  then show "is_digit_char (digit_char i)" "tok_index (digit_char i) = i"
    using assms by (simp_all add: is_digit_char_def tok_index_def)
  show "digit_char i = CHR ''0'' \<longleftrightarrow> i = 0"
    using o of_char_eq_iff [where ?'a = nat, of "digit_char i" "CHR ''0''"] by simp
qed

fun join_with :: "char \<Rightarrow> string list \<Rightarrow> string" where
  "join_with s [] = []"
| "join_with s [x] = x"
| "join_with s (x # y # r) = x @ s # join_with s (y # r)"

text \<open>The pattern of the fields \<open>$i\<close>, \<open>$(i+1)\<close> and so on, \<open>n\<close> of them.\<close>

fun field_pattern :: "char \<Rightarrow> nat \<Rightarrow> nat \<Rightarrow> string" where
  "field_pattern s i 0 = []"
| "field_pattern s i (Suc 0) = [CHR ''$'', digit_char i]"
| "field_pattern s i (Suc (Suc n)) = CHR ''$'' # digit_char i # s # field_pattern s (Suc i) (Suc n)"

datatype alternative = Field nat | Verbatim string
datatype piece = Literal char | Escaped char | Token nat | Choice "alternative list"

fun show_alternative :: "alternative \<Rightarrow> string" where
  "show_alternative (Field d) = [CHR ''$'', digit_char d]"
| "show_alternative (Verbatim t) = t"

fun show_piece :: "piece \<Rightarrow> string" where
  "show_piece (Literal c) = [c]"
| "show_piece (Escaped c) = [CHR 0x5C, c]"
| "show_piece (Token d) = [CHR ''$'', digit_char d]"
| "show_piece (Choice as) = CHR ''['' # join_with CHR '','' (map show_alternative as) @ [CHR '']'']"

fun wf_alternative :: "alternative \<Rightarrow> bool" where
  "wf_alternative (Field d) = (d \<le> 9)"
| "wf_alternative (Verbatim t) = list_all (\<lambda>c. c \<noteq> CHR '','' \<and> c \<noteq> CHR '']'' \<and> c \<noteq> CHR 0x5C \<and> c \<noteq> CHR ''$'') t"

fun wf_piece :: "piece \<Rightarrow> bool" where
  "wf_piece (Literal c) = (c \<noteq> CHR 0x5C \<and> c \<noteq> CHR ''['' \<and> c \<noteq> CHR ''$'')"
| "wf_piece (Escaped c) = True"
| "wf_piece (Token d) = (d \<le> 9)"
| "wf_piece (Choice as) = (as \<noteq> [] \<and> list_all wf_alternative as)"

text \<open>What they stand for: the whole name is field 0, an empty or missing field counts as not there.\<close>

definition field_value :: "string \<Rightarrow> string list \<Rightarrow> nat \<Rightarrow> string option" where
  "field_value name xs d =
     (if d = 0 then Some name
      else if d \<le> length xs \<and> xs ! (d - 1) \<noteq> [] then Some (xs ! (d - 1)) else None)"

fun choice_text :: "(nat \<Rightarrow> string option) \<Rightarrow> alternative list \<Rightarrow> string" where
  "choice_text v [] = []"
| "choice_text v (Verbatim t # as) = t"
| "choice_text v (Field d # as) = (case v d of Some x \<Rightarrow> x | None \<Rightarrow> choice_text v as)"

fun piece_text :: "(nat \<Rightarrow> string option) \<Rightarrow> piece \<Rightarrow> string" where
  "piece_text v (Literal c) = [c]"
| "piece_text v (Escaped c) = [c]"
| "piece_text v (Token d) = (case v d of Some x \<Rightarrow> x | None \<Rightarrow> [])"
| "piece_text v (Choice as) = choice_text v as"

section \<open>Matching the fields\<close>

lemma join_with_Cons: "xs \<noteq> [] \<Longrightarrow> join_with s (x # xs) = x @ s # join_with s xs"
  by (cases xs) auto

lemma takeWhile_sep: "s \<notin> set x \<Longrightarrow> takeWhile ((\<noteq>) s) (x @ s # r) = x"
  by (induction x) auto

lemma dropWhile_sep: "s \<notin> set x \<Longrightarrow> dropWhile ((\<noteq>) s) (x @ s # r) = s # r"
  by (induction x) auto

text \<open>One field of the pattern against one field of the name.\<close>

lemma match_field_more:
  assumes "1 \<le> i" "i \<le> 9" "s \<notin> set x"
  shows "map_match k T (x @ s # r) (CHR ''$'' # digit_char i # s # m) =
    map_match (if x = [] then k else i) (if x = [] then T else T(i \<mapsto> x)) r m"
  using assms by (cases x) (simp_all add: takeWhile_sep dropWhile_sep)

lemma match_field_last:
  assumes "1 \<le> i" "i \<le> 9" "x \<noteq> []"
  shows "map_match k T x [CHR ''$'', digit_char i] = T(i \<mapsto> x)"
proof -
  have all: "takeWhile (\<lambda>y. True) cs = cs" "dropWhile (\<lambda>y. True) cs = []" for cs :: string
    by (induction cs) simp_all
  show ?thesis using assms by (cases x) (simp_all add: all)
qed

lemma match_field_short:
  assumes "1 \<le> i" "i \<le> 9" "x \<noteq> []" "s \<notin> set x"
  shows "map_match k T x (CHR ''$'' # digit_char i # s # m) = T(i \<mapsto> x)"
proof -
  obtain c cs where x: "x = c # cs" using assms(3) by (cases x) auto
  have "s \<notin> set cs" using assms(4) x by simp
  then have all: "takeWhile ((\<noteq>) s) cs = cs" "dropWhile ((\<noteq>) s) cs = []"
    by (induction cs) auto
  show ?thesis using assms x by (simp add: all)
qed

lemma match_fields:
  "length xs \<le> n \<Longrightarrow> 1 \<le> i \<Longrightarrow> i + n \<le> 10 \<Longrightarrow> \<forall>x\<in>set xs. s \<notin> set x \<Longrightarrow>
   map_match k T (join_with s xs) (field_pattern s i n) =
     (\<lambda>d. if i \<le> d \<and> d < i + length xs \<and> xs ! (d - i) \<noteq> [] then Some (xs ! (d - i)) else T d)"
proof (induction s i n arbitrary: xs k T rule: field_pattern.induct)
  case (1 s i)
  then show ?case by (cases xs) (auto simp: fun_eq_iff)
next
  case (2 s i)
  then consider "xs = []" | x where "xs = [x]" by (cases xs) auto
  then show ?case
  proof cases
    case 2
    with "2.prems" show ?thesis
      by (cases "x = []") (auto simp: match_field_last fun_eq_iff)
  qed (auto simp: fun_eq_iff)
next
  case (3 s i n)
  consider "xs = []" | x where "xs = [x]" | x y r where "xs = x # y # r" by (cases xs; cases "tl xs") auto
  then show ?case
  proof cases
    case 2
    with "3.prems" show ?thesis
      by (cases "x = []") (auto simp: match_field_short fun_eq_iff)
  next
    case (3 x y r)
    let ?T = "if x = [] then T else T(i \<mapsto> x)"
    have "map_match k T (join_with s xs) (field_pattern s i (Suc (Suc n))) =
        map_match (if x = [] then k else i) ?T (join_with s (y # r)) (field_pattern s (Suc i) (Suc n))"
      using "3.prems" 3 by (simp add: match_field_more)
    also have "\<dots> = (\<lambda>d. if Suc i \<le> d \<and> d < Suc i + length (y # r) \<and> (y # r) ! (d - Suc i) \<noteq> []
        then Some ((y # r) ! (d - Suc i)) else ?T d)"
      using "3.prems" 3 by (intro "3.IH") auto
    also have "\<dots> = (\<lambda>d. if i \<le> d \<and> d < i + length xs \<and> xs ! (d - i) \<noteq> [] then Some (xs ! (d - i)) else T d)"
    proof
      fix d
      show "(if Suc i \<le> d \<and> d < Suc i + length (y # r) \<and> (y # r) ! (d - Suc i) \<noteq> []
          then Some ((y # r) ! (d - Suc i)) else ?T d) =
        (if i \<le> d \<and> d < i + length xs \<and> xs ! (d - i) \<noteq> [] then Some (xs ! (d - i)) else T d)"
        by (cases "d = i"; cases "d < i") (auto simp: 3 nth_Cons' Suc_diff_Suc)
    qed
    finally show ?thesis .
  qed (auto simp: fun_eq_iff)
qed

section \<open>The template\<close>

lemma skip_bracket_plain:
  "list_all (\<lambda>c. c \<noteq> CHR '']'' \<and> c \<noteq> CHR 0x5C) u \<Longrightarrow> skip_bracket (u @ CHR '']'' # r) = Some r"
  by (induction u) simp_all

lemma alt_text_plain:
  "wf_alternative (Verbatim t) \<Longrightarrow> c = CHR '','' \<or> c = CHR '']'' \<Longrightarrow> alt_text name T (t @ c # r) = (t, c # r)"
  by (induction t) auto

lemma bracket_verbatim:
  "take 1 q \<noteq> ''$'' \<Longrightarrow>
   bracket name T q = (let (x, q') = alt_text name T q in map_option (Pair x) (skip_bracket q'))"
  by (cases "(name, T, q)" rule: bracket.cases) simp_all

lemma show_alternatives_plain:
  "list_all wf_alternative as \<Longrightarrow>
   list_all (\<lambda>c. c \<noteq> CHR '']'' \<and> c \<noteq> CHR 0x5C) (join_with CHR '','' (map show_alternative as))"
proof -
  have d: "d \<le> 9 \<Longrightarrow> digit_char d \<noteq> CHR '']'' \<and> digit_char d \<noteq> CHR 0x5C" for d
    using digit_char(1) [of d] by (auto simp: is_digit_char_def)
  have one: "wf_alternative a \<Longrightarrow> list_all (\<lambda>c. c \<noteq> CHR '']'' \<and> c \<noteq> CHR 0x5C) (show_alternative a)" for a
    by (cases a) (auto simp: d list_all_iff)
  show "list_all wf_alternative as \<Longrightarrow> ?thesis"
  proof (induction as)
    case (Cons a as)
    then show ?case by (cases "as = []") (simp_all add: one join_with_Cons)
  qed simp
qed

text \<open>The text of a choice, up to its bracket.\<close>

lemma bracket_choice:
  assumes T: "\<And>d. d \<le> 9 \<Longrightarrow> tok_text name T (digit_char d) = v d"
  shows "as \<noteq> [] \<Longrightarrow> list_all wf_alternative as \<Longrightarrow>
    bracket name T (join_with CHR '','' (map show_alternative as) @ CHR '']'' # r) = Some (choice_text v as, r)"
proof (induction as)
  case (Cons a as)
  let ?rest = "if as = [] then CHR '']'' # r
    else CHR '','' # join_with CHR '','' (map show_alternative as) @ CHR '']'' # r"
  have split: "join_with CHR '','' (map show_alternative (a # as)) @ CHR '']'' # r = show_alternative a @ ?rest"
    by (simp add: join_with_Cons)
  have skip: "skip_bracket ?rest = Some r"
  proof (cases "as = []")
    case False
    with skip_bracket_plain [OF show_alternatives_plain, of as r] Cons.prems(2) show ?thesis by simp
  qed simp
  show ?case
  proof (cases a)
    case (Field d)
    with Cons.prems have d: "d \<le> 9" by simp
    show ?thesis
    proof (cases "v d")
      case None
      with Cons.IH Cons.prems(2) T [OF d] d show ?thesis unfolding split by (simp add: Field)
    next
      case (Some x)
      with T [OF d] d skip show ?thesis unfolding split by (simp add: Field)
    qed
  next
    case (Verbatim u)
    have wf: "wf_alternative (Verbatim u)" using Cons.prems(2) Verbatim by simp
    have "take 1 (u @ ?rest) \<noteq> ''$''" using wf by (cases u) simp_all
    moreover have "alt_text name T (u @ ?rest) = (u, ?rest)"
      using alt_text_plain [OF wf] by simp
    ultimately have "bracket name T (u @ ?rest) = Some (u, r)"
      using bracket_verbatim [of "u @ ?rest" name T] skip by simp
    then show ?thesis unfolding split by (simp add: Verbatim)
  qed
qed simp

lemma map_out_pieces:
  assumes T: "\<And>d. d \<le> 9 \<Longrightarrow> tok_text name T (digit_char d) = v d"
  shows "list_all wf_piece ps \<Longrightarrow>
    map_out name T out (concat (map show_piece ps)) = Some (out @ concat (map (piece_text v) ps))"
proof (induction ps arbitrary: out)
  case (Cons p ps)
  then show ?case
  proof (cases p)
    case (Token d)
    with Cons T [of d] show ?thesis by (simp add: tok_or_empty_def)
  next
    case (Choice as)
    with Cons bracket_choice [OF T] show ?thesis by simp
  qed simp_all
qed simp

lemma domap_fields:
  assumes "length xs \<le> n" "n \<le> 9" "\<forall>x\<in>set xs. s \<notin> set x" "list_all wf_piece ps" "name = join_with s xs"
  shows "domap (field_pattern s 1 n) (concat (map show_piece ps)) name =
    (let new = concat (map (piece_text (field_value name xs)) ps) in if new = [] then name else new)"
proof -
  let ?T = "map_match 1 (\<lambda>_. None) name (field_pattern s 1 n)"
  have "?T = (\<lambda>d. if 1 \<le> d \<and> d < 1 + length xs \<and> xs ! (d - 1) \<noteq> [] then Some (xs ! (d - 1)) else None)"
    unfolding assms(5) by (rule match_fields) (use assms in auto)
  then have "tok_text name ?T (digit_char d) = field_value name xs d" if "d \<le> 9" for d
    using that by (auto simp: tok_text_def field_value_def)
  from map_out_pieces [OF this assms(4), of "[]"] show ?thesis
    by (simp add: domap_def Let_def)
qed

end
