(* ===== verification/Ftp_Reply.thy ===== *)
theory Ftp_Reply
  imports Netkit_Prelude "HOL-Library.Sublist"
begin

text \<open>
  The file transfer client on the wire (\<^verbatim>\<open>ftp/ftp.c\<close>): the machine that reads a server's reply from the
  control connection, and the text conversion of the data connection. What comes in is a list of
  bytes; \<open>getc\<close> at its end is the end of the connection.
\<close>

type_synonym byte = u8

definition ch_NL :: byte where "ch_NL = 10"
definition ch_CR :: byte where "ch_CR = 13"
definition ch_IAC :: byte where "ch_IAC = 255"
definition ch_DONT :: byte where "ch_DONT = 254"
definition ch_DO :: byte where "ch_DO = 253"
definition ch_WONT :: byte where "ch_WONT = 252"
definition ch_WILL :: byte where "ch_WILL = 251"

section \<open>Replies\<close>

definition isdigit :: "byte \<Rightarrow> bool" where
  "isdigit c \<longleftrightarrow> 48 \<le> unat c \<and> unat c \<le> 57"

definition PASV_SIZE :: nat where "PASV_SIZE = 64"
definition BUFSIZ :: nat where "BUFSIZ = 8192"

text \<open>
  The local variables of \<open>getreply\<close> while it reads a line; \<open>pasv\<close> and \<open>reply_string\<close> are the global
  buffers, and \<open>sent\<close> is what is written to the control connection.
\<close>

record reply =
  r_code :: int
  r_n :: byte
  r_dig :: nat
  r_cont :: nat
  r_orig :: int
  r_pflag :: nat
  r_pasv :: "byte list"
  r_text :: "byte list"
  r_sent :: "byte list"

text \<open>The address of a passive data connection is picked out of a reply 227.\<close>

definition pasv_char :: "byte \<Rightarrow> reply \<Rightarrow> reply" where
  "pasv_char c r =
     (let p1 = (if r_pflag r = 0 \<and> r_code r = 227 then 1 else r_pflag r);
          p2 = (if r_dig r > 4 \<and> p1 = 1 \<and> isdigit c then 2 else p1)
      in if p2 = 2 then
           (if c \<noteq> ch_CR \<and> c \<noteq> 41 then
              r\<lparr>r_pflag := 2, r_pasv := (if length (r_pasv r) < PASV_SIZE - 1 then r_pasv r @ [c] else r_pasv r)\<rparr>
            else r\<lparr>r_pflag := 3\<rparr>)
         else r\<lparr>r_pflag := p2\<rparr>)"

definition reply_char :: "byte \<Rightarrow> reply \<Rightarrow> reply" where
  "reply_char c r0 =
     (let r = r0\<lparr>r_dig := r_dig r0 + 1\<rparr>;
          r1 = (if r_dig r < 4 \<and> isdigit c then r\<lparr>r_code := r_code r * 10 + (int (unat c) - 48)\<rparr> else r);
          r2 = pasv_char c r1;
          r3 = (if r_dig r2 = 4 \<and> c = 45 then
                  r2\<lparr>r_code := (if r_cont r2 \<noteq> 0 then 0 else r_code r2), r_cont := r_cont r2 + 1\<rparr>
                else r2);
          r4 = (if r_n r3 = 0 then r3\<lparr>r_n := c\<rparr> else r3)
      in if length (r_text r4) < BUFSIZ - 1 then r4\<lparr>r_text := r_text r4 @ [c]\<rparr> else r4)"

definition refuse :: "byte \<Rightarrow> byte \<Rightarrow> reply \<Rightarrow> reply" where
  "refuse cmd c r = r\<lparr>r_sent := r_sent r @ [ch_IAC, cmd, c]\<rparr>"

datatype line_end = Line | Eof

text \<open>One line: its end, the variables, what is left unread.\<close>

fun reply_line :: "byte list \<Rightarrow> reply \<Rightarrow> line_end \<times> reply \<times> byte list" where
  "reply_line [] r = (Eof, r\<lparr>r_dig := r_dig r + 1\<rparr>, [])"
| "reply_line (c # cs) r =
     (if c = ch_NL then (Line, r, cs)
      else if c = ch_IAC then
        (case cs of
           [] \<Rightarrow> (Eof, r\<lparr>r_dig := r_dig r + 1\<rparr>, [])
         | d # ds \<Rightarrow>
             if d = ch_WILL \<or> d = ch_WONT \<or> d = ch_DO \<or> d = ch_DONT then
               (let ans = (if d = ch_WILL \<or> d = ch_WONT then ch_DONT else ch_WONT) in
                case ds of
                  [] \<Rightarrow> (Eof, (refuse ans 255 r)\<lparr>r_dig := r_dig r + 1\<rparr>, [])
                | e # es \<Rightarrow> reply_line es (refuse ans e r))
             else reply_line ds r)
      else reply_line cs (reply_char c r))"

definition new_line :: "reply \<Rightarrow> reply" where
  "new_line r = r\<lparr>r_code := 0, r_n := 0, r_dig := 0, r_text := []\<rparr>"

lemma reply_line_shorter: "reply_line cs r = (Line, r', rest) \<Longrightarrow> length rest < length cs"
proof (induction cs arbitrary: r rule: length_induct)
  case (1 cs)
  note IH = 1(1) [rule_format] and eq = 1(2)
  have shorter: "length rest < length cs" if "reply_line ds q = (Line, r', rest)" "length ds < length cs" for ds q
    using IH [OF that(2,1)] that(2) by simp
  show ?case
  proof (cases cs)
    case Nil
    with eq show ?thesis by simp
  next
    case (Cons c ds)
    consider (nl) "c = ch_NL" | (iac) "c \<noteq> ch_NL" "c = ch_IAC" | (other) "c \<noteq> ch_NL" "c \<noteq> ch_IAC" by blast
    then show ?thesis
    proof cases
      case nl
      with eq Cons show ?thesis by simp
    next
      case other
      with eq Cons have "reply_line ds (reply_char c r) = (Line, r', rest)" by simp
      then show ?thesis by (rule shorter) (simp add: Cons)
    next
      case iac
      then obtain e es where ds: "ds = e # es" using eq Cons by (cases ds) simp_all
      show ?thesis
      proof (cases "e = ch_WILL \<or> e = ch_WONT \<or> e = ch_DO \<or> e = ch_DONT")
        case False
        with eq Cons ds iac have "reply_line es r = (Line, r', rest)" by simp
        then show ?thesis by (rule shorter) (simp add: Cons ds)
      next
        case True
        let ?ans = "if e = ch_WILL \<or> e = ch_WONT then ch_DONT else ch_WONT"
        obtain f fs where es: "es = f # fs" using eq Cons ds iac True by (cases es) simp_all
        with eq Cons ds iac True have "reply_line fs (refuse ?ans f r) = (Line, r', rest)" by (simp add: Let_def)
        then show ?thesis by (rule shorter) (simp add: Cons ds es)
      qed
    qed
  qed
qed

record reply_result =
  rr_value :: int
  rr_code :: int
  rr_lost :: bool
  rr_done :: bool
  rr_vars :: reply

text \<open>
  The loop over the lines. The result is the value returned, \<open>code\<close>, whether the connection was given
  up, and whether no reply is pending any more; then what is left unread.
\<close>

function getreply_loop :: "bool \<Rightarrow> byte list \<Rightarrow> reply \<Rightarrow> reply_result \<times> byte list" where
  "getreply_loop expecteof cs r0 =
     (case reply_line cs (new_line r0) of
        (Eof, r, rest) \<Rightarrow>
          (if expecteof then \<lparr>rr_value = 0, rr_code = 221, rr_lost = False, rr_done = False, rr_vars = r\<rparr>
           else \<lparr>rr_value = 4, rr_code = 421, rr_lost = True, rr_done = False, rr_vars = r\<rparr>, rest)
      | (Line, r, rest) \<Rightarrow>
          if r_cont r \<noteq> 0 \<and> r_code r \<noteq> r_orig r then
            getreply_loop expecteof rest (if r_orig r = 0 then r\<lparr>r_orig := r_code r\<rparr> else r)
          else
            (\<lparr>rr_value = int (unat (r_n r)) - 48, rr_code = r_code r,
              rr_lost = (r_code r = 421 \<or> r_orig r = 421), rr_done = (r_n r \<noteq> 49), rr_vars = r\<rparr>, rest))"
  by pat_completeness auto
termination
  by (relation "measure (\<lambda>(e, cs, r). length cs)") (auto dest: reply_line_shorter [OF sym])

declare getreply_loop.simps [simp del]

definition getreply :: "bool \<Rightarrow> byte list \<Rightarrow> reply_result \<times> byte list" where
  "getreply expecteof cs =
     getreply_loop expecteof cs
       \<lparr>r_code = 0, r_n = 0, r_dig = 0, r_cont = 0, r_orig = 0, r_pflag = 0, r_pasv = [], r_text = [], r_sent = []\<rparr>"

section \<open>Text on the data connection\<close>

text \<open>What is written for a local file, and the count of bytes.\<close>

fun send_ascii :: "byte list \<Rightarrow> byte list" where
  "send_ascii [] = []"
| "send_ascii (c # cs) = (if c = ch_NL then [ch_CR, ch_NL] else [c]) @ send_ascii cs"

text \<open>
  What is stored of the bytes that come in: the bytes, their count, and the count of line feeds
  without a carriage return. \<open>tcr\<close> is the user's wish to keep carriage returns. The inner loop has
  just read a carriage return.
\<close>

fun recv_ascii :: "bool \<Rightarrow> byte list \<Rightarrow> byte list \<times> nat \<times> nat"
  and recv_cr :: "bool \<Rightarrow> byte list \<Rightarrow> byte list \<times> nat \<times> nat" where
  "recv_ascii tcr [] = ([], 0, 0)"
| "recv_ascii tcr (c # cs) =
     (if c = ch_CR then (let (out, n, b) = recv_cr tcr cs in (out, n + 1, b))
      else let (out, n, b) = recv_ascii tcr cs in (c # out, n + 1, if c = ch_NL then b + 1 else b))"
| "recv_cr tcr [] = ([ch_CR], 0, 0)"
| "recv_cr tcr (c # cs) =
     (if c = ch_NL \<and> \<not> tcr then (let (out, n, b) = recv_ascii tcr cs in (c # out, n + 1, b))
      else if c = 0 then (let (out, n, b) = recv_ascii tcr cs in (ch_CR # out, n + 1, b))
      else if c = ch_CR then (let (out, n, b) = recv_cr tcr cs in (ch_CR # out, n + 1, b))
      else let (out, n, b) = recv_ascii tcr cs in (ch_CR # c # out, n + 1, b))"

text \<open>
  A text that is sent and fetched again is unchanged, as long as it has no null after a carriage return; all bytes sent
  are counted and no bare line feed is reported.
\<close>

lemma ascii_roundtrip:
  "\<not> sublist [ch_CR, 0] f \<Longrightarrow> recv_ascii False (send_ascii f) = (f, length (send_ascii f), 0)"
proof -
  have "(\<not> sublist [ch_CR, 0] f \<longrightarrow> recv_ascii False (send_ascii f) = (f, length (send_ascii f), 0)) \<and>
    (\<not> sublist [ch_CR, 0] (ch_CR # f) \<longrightarrow> recv_cr False (send_ascii f) = (ch_CR # f, length (send_ascii f), 0))"
  proof (induction f)
    case Nil
    show ?case by simp
  next
    case (Cons c f)
    have "c = 0 \<Longrightarrow> sublist [ch_CR, 0] (ch_CR # c # f)" by (simp add: sublist_Cons_right)
    moreover have "\<not> sublist [ch_CR, 0] (d # f) \<Longrightarrow> \<not> sublist [ch_CR, 0] f" for d by (simp add: sublist_Cons_right)
    moreover have "\<not> sublist [ch_CR, 0] (d # e # f) \<Longrightarrow> \<not> sublist [ch_CR, 0] (e # f)" for d e
      by (simp add: sublist_Cons_right)
    ultimately show ?case
      using Cons.IH by (auto simp: ch_NL_def ch_CR_def)
  qed
  then show "\<not> sublist [ch_CR, 0] f \<Longrightarrow> ?thesis" by blast
qed

end
