(* ===== verification/Ftp_Glob.thy ===== *)
theory Ftp_Glob
  imports Netkit_Prelude "HOL-Library.Char_ord" "HOL-Library.List_Lexorder"
begin

text \<open>
  The expansion of local file names in the file transfer client (\<^verbatim>\<open>ftp/glob.c\<close>). A pointer into a
  string is the rest of the string at that place, the buffer \<open>gpath\<close> with its end pointer \<open>gpathp\<close> is the
  text between them, and the argument list is a list. Reading past the end of a pattern stops the model, with
  \<open>g_over\<close> set.
\<close>

section \<open>State and surroundings\<close>

record glob_env =
  ge_home :: string
  ge_gethdir :: "string \<Rightarrow> string option"
  ge_exists :: "string \<Rightarrow> bool"
  ge_isdir :: "string \<Rightarrow> bool"
  ge_opendir :: "string \<Rightarrow> (nat \<times> string) list option"

record gstate =
  g_path :: string
  g_args :: "string list"
  g_sortbas :: nat
  g_left :: int
  g_cnt :: nat
  g_globbed :: bool
  g_err :: "string option"
  g_over :: bool

definition ARGMAX :: int where "ARGMAX = 131072"
definition GAVSIZ :: nat where "GAVSIZ = 21845"
definition LASTGPATH :: nat where "LASTGPATH = 8190"

definition globchar :: "char \<Rightarrow> bool" where
  "globchar c \<longleftrightarrow> c \<in> {CHR 0x60, CHR ''{'', CHR ''['', CHR ''*'', CHR ''?''}"

definition glob_letter :: "char \<Rightarrow> bool" where
  "glob_letter c \<longleftrightarrow> (CHR ''a'' \<le> c \<and> c \<le> CHR ''z'') \<or> (CHR ''A'' \<le> c \<and> c \<le> CHR ''Z'') \<or> c = CHR ''_''"

definition glob_digit :: "char \<Rightarrow> bool" where
  "glob_digit c \<longleftrightarrow> CHR ''0'' \<le> c \<and> c \<le> CHR ''9''"

definition addpath :: "char \<Rightarrow> gstate \<Rightarrow> gstate" where
  "addpath c g =
     (if length (g_path g) \<ge> LASTGPATH then g\<lparr>g_err := Some ''Pathname too long''\<rparr>
      else g\<lparr>g_path := g_path g @ [c]\<rparr>)"

definition Gcat :: "string \<Rightarrow> string \<Rightarrow> gstate \<Rightarrow> gstate" where
  "Gcat s1 s2 g =
     (let len = int (length s1) + int (length s2) + 1 in
      if len \<ge> g_left g \<or> length (g_args g) \<ge> GAVSIZ - 1 then g\<lparr>g_err := Some ''Arguments too long''\<rparr>
      else g\<lparr>g_left := g_left g - len, g_args := g_args g @ [s1 @ s2]\<rparr>)"

text \<open>The exchange sort; \<open>sweep\<close> is its inner loop for the name at one place.\<close>

fun sweep :: "string \<Rightarrow> string list \<Rightarrow> string \<times> string list" where
  "sweep x [] = (x, [])"
| "sweep x (y # ys) =
     (if x > y then (let (m, r) = sweep y ys in (m, x # r))
      else (let (m, r) = sweep x ys in (m, y # r)))"

lemma sweep_length: "length (snd (sweep x ys)) = length ys"
  by (induction ys arbitrary: x) (simp_all add: case_prod_beta Let_def)

function exchange_sort :: "string list \<Rightarrow> string list" where
  "exchange_sort [] = []"
| "exchange_sort (x # ys) = (let mr = sweep x ys in fst mr # exchange_sort (snd mr))"
  by pat_completeness auto
termination by (relation "measure length") (auto simp: sweep_length)

definition glob_sort :: "gstate \<Rightarrow> gstate" where
  "glob_sort g =
     g\<lparr>g_args := take (g_sortbas g) (g_args g) @ exchange_sort (drop (g_sortbas g) (g_args g)),
       g_sortbas := length (g_args g)\<rparr>"

section \<open>One step of the matcher\<close>

definition TRIM :: nat where "TRIM = 128"

text \<open>A character of the name loses its top bit; one of the pattern is a signed \<open>char\<close>.\<close>

definition name_char :: "string \<Rightarrow> int" where
  "name_char s = (case s of [] \<Rightarrow> 0 | c # _ \<Rightarrow> int ((of_char c :: nat) mod TRIM))"

definition schar :: "char \<Rightarrow> int" where
  "schar c = (let n = (of_char c :: nat) in if n < 128 then int n else int n - 256)"

datatype class_result = Class_fail | Class_over | Class_ok string

fun class_loop :: "int \<Rightarrow> int \<Rightarrow> bool \<Rightarrow> string \<Rightarrow> class_result" where
  "class_loop scc lc ok [] = (if ok then Class_ok [] else Class_fail)"
| "class_loop scc lc ok (c # cs) =
     (if c = CHR '']'' then (if ok then Class_ok cs else Class_fail)
      else if c = CHR ''-'' then
        (if lc \<le> scc then
           (case cs of [] \<Rightarrow> Class_over | d # ds \<Rightarrow> class_loop scc lc (ok \<or> scc \<le> schar d) ds)
         else class_loop scc lc ok cs)
      else class_loop scc (schar c) (ok \<or> scc = schar c) cs)"

lemma class_loop_le: "class_loop scc lc ok p = Class_ok q \<Longrightarrow> length q \<le> length p"
  by (induction scc lc ok p rule: class_loop.induct) (auto split: if_splits list.splits)

datatype match_action =
  M_return bool | M_over | M_next string string | M_brace | M_star string | M_slash string

definition match_step :: "string \<Rightarrow> string \<Rightarrow> match_action" where
  "match_step s p =
     (let scc = name_char s in
      case p of
        [] \<Rightarrow> M_return (scc = 0)
      | c # q \<Rightarrow>
          if c = CHR ''{'' then M_brace
          else if c = CHR ''['' then
            (case class_loop scc 32767 False q of
               Class_fail \<Rightarrow> M_return False
             | Class_over \<Rightarrow> M_over
             | Class_ok q' \<Rightarrow> if s = [] then M_over else M_next (tl s) q')
          else if c = CHR ''*'' then
            (case q of
               [] \<Rightarrow> M_return True
             | d # q' \<Rightarrow> if d = CHR ''/'' then M_slash q' else M_star q)
          else if c = CHR ''?'' then (if scc = 0 then M_return False else M_next (tl s) q)
          else if c = CHR ''/'' then (if scc \<noteq> 0 then M_return False else M_slash q)
          else if schar c \<noteq> scc then M_return False
          else M_next (tl s) q)"

lemma match_step_next: "match_step s p = M_next s' q \<Longrightarrow> length q < length p"
proof (cases p)
  case (Cons c r)
  assume eq: "match_step s p = M_next s' q"
  show ?thesis
  proof (cases "c = CHR ''[''")
    case True
    with eq have "class_loop (name_char s) 32767 False r = Class_ok q"
      by (cases "class_loop (name_char s) 32767 False r") (simp_all add: match_step_def Cons split: if_splits)
    then show ?thesis by (auto simp: Cons dest: class_loop_le)
  next
    case False
    have "q = r"
    proof (rule ccontr)
      assume "q \<noteq> r"
      then show False using eq False
        by (cases r) (auto simp: match_step_def Let_def Cons split: if_split_asm)
    qed
    then show ?thesis by (simp add: Cons)
  qed
qed (simp add: match_step_def Let_def)

lemma match_step_star: "match_step s p = M_star q \<Longrightarrow> length q < length p"
proof (cases p)
  case (Cons c r)
  assume "match_step s p = M_star q"
  then show ?thesis
    by (cases "c = CHR ''[''"; cases "class_loop (name_char s) 32767 False r"; cases r)
      (auto simp: match_step_def Let_def Cons split: if_split_asm)
qed (simp add: match_step_def Let_def)

lemma match_step_slash: "match_step s p = M_slash q \<Longrightarrow> length q < length p"
proof (cases p)
  case (Cons c r)
  assume "match_step s p = M_slash q"
  then show ?thesis
    by (cases "c = CHR ''[''"; cases "class_loop (name_char s) 32767 False r"; cases r)
      (auto simp: match_step_def Let_def Cons split: if_split_asm)
qed (simp add: match_step_def Let_def)

section \<open>Braces\<close>

text \<open>
  The alternatives between braces and what follows them, from the character after the opening brace: \<open>lvl\<close>
  counts open braces, \<open>parts\<close> and \<open>cur\<close> are the alternatives found.
\<close>

datatype braces = Br_closed "string list" string | Br_none | Br_over

definition skip_class :: "string \<Rightarrow> (string \<times> string) option" where
  "skip_class q =
     (case dropWhile (\<lambda>c. c \<noteq> CHR '']'') q of
        [] \<Rightarrow> None
      | d # r \<Rightarrow> Some (takeWhile (\<lambda>c. c \<noteq> CHR '']'') q @ [d], r))"

lemma skip_class_append:
  assumes "skip_class q = Some (x, r)"
  shows "q = x @ r \<and> x \<noteq> []"
proof (cases "dropWhile (\<lambda>c. c \<noteq> CHR '']'') q")
  case (Cons d ds)
  with assms have "x = takeWhile (\<lambda>c. c \<noteq> CHR '']'') q @ [d]" "r = ds" by (simp_all add: skip_class_def)
  with Cons takeWhile_dropWhile_id [of "\<lambda>c. c \<noteq> CHR '']''" q] show ?thesis by simp
qed (use assms in \<open>simp add: skip_class_def del: dropWhile_eq_Nil_conv\<close>)

lemma skip_class_shorter: "skip_class q = Some (x, r) \<Longrightarrow> length r < length q"
  by (auto dest!: skip_class_append)

function brace_scan :: "nat \<Rightarrow> string list \<Rightarrow> string \<Rightarrow> string \<Rightarrow> braces" where
  "brace_scan lvl parts cur [] = (if parts \<noteq> [] \<or> lvl > 0 then Br_over else Br_none)"
| "brace_scan lvl parts cur (c # q) =
     (if c = CHR ''{'' then brace_scan (Suc lvl) parts (cur @ [c]) q
      else if c = CHR ''}'' then
        (if lvl = 0 then Br_closed (parts @ [cur]) q else brace_scan (lvl - 1) parts (cur @ [c]) q)
      else if c = CHR ''['' then
        (case skip_class q of
           None \<Rightarrow> Br_over
         | Some (x, r) \<Rightarrow> brace_scan lvl parts (cur @ c # x) r)
      else if (c = CHR '','' \<or> c = CHR 0xAC) \<and> lvl = 0 then brace_scan lvl (parts @ [cur]) [] q
      else brace_scan lvl parts (cur @ [c]) q)"
  by pat_completeness auto
termination
  by (relation "measure (\<lambda>(lvl, parts, cur, q). length q)") (auto dest: skip_class_shorter less_SucI)

text \<open>The patterns \<open>execbrc\<close> goes through.\<close>

datatype alternatives = Alts "string list" | No_alts | Alts_over

definition brace_alts :: "string \<Rightarrow> alternatives" where
  "brace_alts p =
     (let lm = takeWhile (\<lambda>c. c \<noteq> CHR ''{'') p in
      case brace_scan 0 [] [] (drop (Suc (length lm)) p) of
        Br_closed parts rest \<Rightarrow> Alts (map (\<lambda>x. lm @ x @ rest) parts)
      | Br_none \<Rightarrow> No_alts
      | Br_over \<Rightarrow> Alts_over)"

fun maxlen :: "string list \<Rightarrow> nat" where
  "maxlen [] = 0"
| "maxlen (x # xs) = max (length x) (maxlen xs)"

lemma maxlen_less: "(\<forall>x\<in>set xs. length x < n) \<Longrightarrow> 0 < n \<Longrightarrow> maxlen xs < n"
  by (induction xs) auto

lemma brace_scan_length:
  "brace_scan lvl parts cur q = Br_closed ps rest \<Longrightarrow>
   length rest < length q \<and> (\<forall>x\<in>set ps. x \<in> set parts \<or> length x + length rest < length cur + length q)"
proof (induction lvl parts cur q rule: brace_scan.induct)
  case (2 lvl parts cur c q)
  consider (close) "c = CHR ''}''" "lvl = 0" | (cls) "c = CHR ''[''"
    | (comma) "c = CHR '','' \<or> c = CHR 0xAC" "lvl = 0"
    | (lbrace) "c = CHR ''{''" | (rbrace) "c = CHR ''}''" "lvl \<noteq> 0"
    | (other) "c \<noteq> CHR ''{''" "c \<noteq> CHR ''}''" "c \<noteq> CHR ''[''" "\<not> ((c = CHR '','' \<or> c = CHR 0xAC) \<and> lvl = 0)"
    by blast
  then show ?case
  proof cases
    case close
    with 2(6) show ?thesis by auto
  next
    case cls
    with 2(6) obtain x r where x: "skip_class q = Some (x, r)" by (auto split: option.splits)
    have "brace_scan lvl parts (cur @ c # x) r = Br_closed ps rest" using 2(6) cls x by simp
    from 2(3) [OF _ _ cls x refl this] cls skip_class_append [OF x] show ?thesis by auto
  next
    case comma
    then have ne: "c \<noteq> CHR ''{''" "c \<noteq> CHR ''}''" "c \<noteq> CHR ''[''" by (elim disjE; simp)+
    have "brace_scan lvl (parts @ [cur]) [] q = Br_closed ps rest"
      using 2(6) ne comma by (simp only: brace_scan.simps if_False if_True simp_thms)
    from 2(4) [OF ne conjI [OF comma] this] show ?thesis by auto
  next
    case lbrace
    then have "brace_scan (Suc lvl) parts (cur @ [c]) q = Br_closed ps rest" using 2(6) by simp
    from 2(1) [OF lbrace this] show ?thesis by auto
  next
    case rbrace
    then have "brace_scan (lvl - 1) parts (cur @ [c]) q = Br_closed ps rest" using 2(6) by simp
    from 2(2) [OF _ rbrace this] rbrace show ?thesis by auto
  next
    case other
    then have "brace_scan lvl parts (cur @ [c]) q = Br_closed ps rest" using 2(6) by auto
    from 2(5) [OF other this] show ?thesis by auto
  qed
qed (simp split: if_splits)

lemma brace_alts_shorter:
  assumes "brace_alts p = Alts as" "CHR ''{'' \<in> set p"
  shows "maxlen as < length p"
proof -
  let ?lm = "takeWhile (\<lambda>c. c \<noteq> CHR ''{'') p"
  let ?q = "drop (Suc (length ?lm)) p"
  obtain ps rest where ps: "brace_scan 0 [] [] ?q = Br_closed ps rest" "as = map (\<lambda>x. ?lm @ x @ rest) ps"
    using assms(1) by (auto simp: brace_alts_def Let_def split: braces.splits)
  obtain xs ys where "p = xs @ CHR ''{'' # ys" "CHR ''{'' \<notin> set xs"
    using assms(2) by (auto dest: split_list_first)
  then have "length ?lm < length p" by (simp add: takeWhile_append)
  moreover have "\<forall>x\<in>set ps. length x + length rest < length ?q" using brace_scan_length [OF ps(1)] by simp
  ultimately have "\<forall>a\<in>set as. length a < length p" unfolding ps(2) by fastforce
  moreover have "0 < length p" using assms(2) by (cases p) simp_all
  ultimately show ?thesis by (rule maxlen_less)
qed

section \<open>The walk\<close>

text \<open>The beginning of \<open>expand\<close>: the home directories, and the text before the first special character.\<close>

datatype expansion = Ex_done gstate | Ex_brace string gstate | Ex_dir string gstate

definition tilde :: "glob_env \<Rightarrow> string \<Rightarrow> gstate \<Rightarrow> string \<times> gstate" where
  "tilde E as g =
     (if take 1 as = ''~'' \<and> g_path g = [] then
        (let login = takeWhile (\<lambda>c. glob_letter c \<or> glob_digit c \<or> c = CHR ''-'') (tl as);
             cs = drop (length login) (tl as);
             g1 = fold addpath (CHR ''~'' # login) g
         in (cs,
             if cs = [] \<or> hd cs = CHR ''/'' then
               (if length (g_path g1) \<noteq> 1 then
                  (case ge_gethdir E (tl (g_path g1)) of
                     None \<Rightarrow> g1\<lparr>g_err := Some ''Unknown user name after ~'', g_path := tl (g_path g1)\<rparr>
                   | Some h \<Rightarrow> g1\<lparr>g_path := h\<rparr>)
                else g1\<lparr>g_path := ge_home E\<rparr>)
             else g1))
      else (as, g))"

definition expand_start :: "glob_env \<Rightarrow> string \<Rightarrow> gstate \<Rightarrow> expansion" where
  "expand_start E as g =
     (let (cs, g1) = tilde E as g;
          plain = takeWhile (\<lambda>c. \<not> globchar c) cs;
          rest = drop (length plain) cs;
          g2 = fold addpath plain g1
      in if rest = [] then
           Ex_done ((if \<not> g_globbed g2 then Gcat (g_path g2) [] g2
                     else if ge_exists E (g_path g2) then
                       (let g3 = Gcat (g_path g2) [] g2 in g3\<lparr>g_cnt := g_cnt g3 + 1\<rparr>)
                     else g2)\<lparr>g_path := g_path g\<rparr>)
         else
           (let passed = take (length as - length rest) as;
                last = rev (takeWhile (\<lambda>c. c \<noteq> CHR ''/'') (rev passed));
                g3 = g2\<lparr>g_path := take (length (g_path g2) - length last) (g_path g2)\<rparr>
            in if hd rest = CHR ''{'' then Ex_brace (last @ rest) g3 else Ex_dir (last @ rest) g3))"

lemma expand_start_length:
  "expand_start E as g = Ex_brace p g' \<Longrightarrow> length p \<le> length as \<and> CHR ''{'' \<in> set p"
  "expand_start E as g = Ex_dir p g' \<Longrightarrow> length p \<le> length as"
proof -
  have "length (fst (tilde E as g)) \<le> length as"
    by (cases as) (auto simp: tilde_def Let_def)
  then obtain cs g1 where cs: "tilde E as g = (cs, g1)" "length cs \<le> length as"
    by (cases "tilde E as g") simp
  define rest where "rest = drop (length (takeWhile (\<lambda>c. \<not> globchar c) cs)) cs"
  have rest: "length rest \<le> length as" using cs(2) by (simp add: rest_def)
  let ?last = "rev (takeWhile (\<lambda>c. c \<noteq> CHR ''/'') (rev (take (length as - length rest) as)))"
  have "length ?last \<le> length as - length rest"
    by (rule order_trans [OF _ length_takeWhile_le [THEN order_trans]]) auto
  with rest have len: "length (?last @ rest) \<le> length as" by simp
  show "length p \<le> length as \<and> CHR ''{'' \<in> set p" if "expand_start E as g = Ex_brace p g'"
  proof -
    have "rest \<noteq> []" "hd rest = CHR ''{''" "p = ?last @ rest"
      using that unfolding expand_start_def Let_def cs(1) prod.case rest_def [symmetric]
      by (simp_all split: if_splits)
    with len show ?thesis by (metis Un_iff list.set_sel(1) set_append)
  qed
  show "length p \<le> length as" if "expand_start E as g = Ex_dir p g'"
    using that len by (auto simp: expand_start_def Let_def cs(1) rest_def [symmetric] split: if_splits)
qed

lemma brace_alts_step: "match_step s p = M_brace \<Longrightarrow> CHR ''{'' \<in> set p"
proof (cases p)
  case (Cons c r)
  assume "match_step s p = M_brace"
  then have "c = CHR ''{''"
    by (cases "c = CHR ''[''"; cases "class_loop (name_char s) 32767 False r"; cases r)
      (auto simp: match_step_def Let_def Cons split: if_split_asm)
  then show ?thesis by (simp add: Cons)
qed (simp add: match_step_def Let_def)

text \<open>The length of the pattern goes down, or stays while the calls go down in this order.\<close>

definition glob_calls where
  "glob_calls = inv_image (less_than <*lex*> less_than <*lex*> less_than)
     (case_sum
       (case_sum (\<lambda>(E, as, g). (length as, 5, 0))
         (case_sum (\<lambda>(E, p, ents, g). (length p, 4, length ents)) (\<lambda>(E, ent, s, p, g). (length p, 3, 0))))
       (case_sum
         (case_sum (\<lambda>(E, ent, s, q, g). (length q, 4, length s)) (\<lambda>(E, ent, q, g). (length q, 6, 0)))
         (case_sum (\<lambda>(E, ps, g). (Suc (maxlen ps), 0, length ps))
           (\<lambda>(E, ent, s, ps, g). (Suc (maxlen ps), 0::nat, length ps)))))"

lemma wf_glob_calls: "wf glob_calls"
  by (simp add: glob_calls_def wf_lex_prod)

lemma glob_call_bounds:
  "expand_start E as g = Ex_brace p g' \<Longrightarrow> brace_alts p = Alts ps \<Longrightarrow>
     Suc (maxlen ps) < length as \<or> Suc (maxlen ps) = length as"
  "match_step s p = M_brace \<Longrightarrow> brace_alts p = Alts ps \<Longrightarrow> Suc (maxlen ps) < length p \<or> Suc (maxlen ps) = length p"
  "expand_start E as g = Ex_dir p g' \<Longrightarrow> length p < length as \<or> length p = length as"
  using expand_start_length [of E as g p g'] brace_alts_shorter [of p ps] brace_alts_step [of s p] by auto

text \<open>
  \<open>expand\<close>, \<open>matchdir\<close>, \<open>match\<close>, \<open>amatch\<close> and \<open>execbrc\<close> call each other. \<open>ent\<close> is \<open>entp\<close>, the name being matched;
  \<open>star\<close> is the loop of an asterisk, \<open>slash\<close> what follows a component that matched. \<open>execbrc\<close> is
  \<open>brc_expand\<close> with no name and \<open>brc_match\<close> with one.
\<close>

function expand :: "glob_env \<Rightarrow> string \<Rightarrow> gstate \<Rightarrow> gstate"
  and match_dir :: "glob_env \<Rightarrow> string \<Rightarrow> (nat \<times> string) list \<Rightarrow> gstate \<Rightarrow> gstate"
  and amatch :: "glob_env \<Rightarrow> string \<Rightarrow> string \<Rightarrow> string \<Rightarrow> gstate \<Rightarrow> bool \<times> gstate"
  and star :: "glob_env \<Rightarrow> string \<Rightarrow> string \<Rightarrow> string \<Rightarrow> gstate \<Rightarrow> bool \<times> gstate"
  and slash :: "glob_env \<Rightarrow> string \<Rightarrow> string \<Rightarrow> gstate \<Rightarrow> gstate"
  and brc_expand :: "glob_env \<Rightarrow> string list \<Rightarrow> gstate \<Rightarrow> gstate"
  and brc_match :: "glob_env \<Rightarrow> string \<Rightarrow> string \<Rightarrow> string list \<Rightarrow> gstate \<Rightarrow> bool \<times> gstate" where
  "expand E as g =
     (case expand_start E as g of
        Ex_done g' \<Rightarrow> g'
      | Ex_brace p g' \<Rightarrow>
          (case brace_alts p of
             Alts ps \<Rightarrow> brc_expand E ps g'
           | No_alts \<Rightarrow> g'
           | Alts_over \<Rightarrow> g'\<lparr>g_over := True\<rparr>)
      | Ex_dir p g' \<Rightarrow>
          (let dir = (if g_path g' = [] then ''./'' else g_path g')
           in (case ge_opendir E dir of
                 None \<Rightarrow> (if g_globbed g' then g' else g'\<lparr>g_err := Some ''Bad directory components''\<rparr>)
               | Some ents \<Rightarrow>
                   if \<not> ge_isdir E dir then g'\<lparr>g_err := Some ''Bad directory components''\<rparr>
                   else match_dir E p ents g')\<lparr>g_path := g_path g\<rparr>))"
| "match_dir E p [] g = g"
| "match_dir E p ((ino, name) # ents) g =
     (if ino = 0 \<or> (take 1 name = ''.'' \<and> take 1 p \<noteq> ''.'') then match_dir E p ents g
      else (case amatch E name name p g of
              (c, g1) \<Rightarrow>
                let g2 = g1\<lparr>g_globbed := g_globbed g\<rparr>
                in match_dir E p ents
                     (if c then (let g3 = Gcat (g_path g2) name g2 in g3\<lparr>g_cnt := g_cnt g3 + 1\<rparr>) else g2)))"
| "amatch E ent s p g =
     (case match_step s p of
        M_return b \<Rightarrow> (b, g\<lparr>g_globbed := True\<rparr>)
      | M_over \<Rightarrow> (False, g\<lparr>g_globbed := True, g_over := True\<rparr>)
      | M_next s' q \<Rightarrow> amatch E ent s' q (g\<lparr>g_globbed := True\<rparr>)
      | M_brace \<Rightarrow>
          (case brace_alts p of
             Alts ps \<Rightarrow> brc_match E ent s ps (g\<lparr>g_globbed := True\<rparr>)
           | No_alts \<Rightarrow> (False, g\<lparr>g_globbed := True\<rparr>)
           | Alts_over \<Rightarrow> (False, g\<lparr>g_globbed := True, g_over := True\<rparr>))
      | M_star q \<Rightarrow> star E ent s q (g\<lparr>g_globbed := True\<rparr>)
      | M_slash q \<Rightarrow> (False, slash E ent q (g\<lparr>g_globbed := True\<rparr>)))"
| "star E ent s q g =
     (case amatch E ent s q g of
        (c, g1) \<Rightarrow> if c then (True, g1) else if s = [] then (False, g1) else star E ent (tl s) q g1)"
| "slash E ent q g =
     (let g1 = addpath CHR ''/'' (fold addpath ent g)
      in (if ge_exists E (g_path g1) \<and> ge_isdir E (g_path g1) then
            (if q = [] then (let g2 = Gcat (g_path g1) [] g1 in g2\<lparr>g_cnt := g_cnt g2 + 1\<rparr>)
             else expand E q g1)
          else g1)\<lparr>g_path := g_path g\<rparr>)"
| "brc_expand E [] g = g"
| "brc_expand E (p # ps) g = brc_expand E ps (glob_sort ((expand E p g)\<lparr>g_path := g_path g\<rparr>))"
| "brc_match E ent s [] g = (False, g)"
| "brc_match E ent s (p # ps) g =
     (case amatch E ent s p g of (c, g1) \<Rightarrow> if c then (True, g1) else brc_match E ent s ps (glob_sort g1))"
  by pat_completeness auto

termination
  by (relation glob_calls, rule wf_glob_calls)
    (auto simp: glob_calls_def match_step_next match_step_star match_step_slash dest: glob_call_bounds)

declare expand.simps [simp del] amatch.simps [simp del] star.simps [simp del] slash.simps [simp del]

text \<open>The whole: a pattern without special characters is taken as it is.\<close>

definition glob_flags :: "string \<Rightarrow> bool \<times> bool" where
  "glob_flags v =
     (if v = ''{'' \<or> v = ''{}'' then (False, False)
      else (\<exists>c\<in>set v. globchar c \<and> c \<noteq> CHR ''{'', take 1 v = ''~'' \<or> CHR ''{'' \<in> set v))"

definition glob_init :: gstate where
  "glob_init = \<lparr>g_path = [], g_args = [], g_sortbas = 0, g_left = ARGMAX - 4, g_cnt = 0, g_globbed = False,
     g_err = None, g_over = False\<rparr>"

definition collect :: "glob_env \<Rightarrow> string \<Rightarrow> gstate \<Rightarrow> gstate" where
  "collect E as g =
     (if as = ''{'' \<or> as = ''{}'' then glob_sort (Gcat as [] g)
      else (let g1 = expand E as (g\<lparr>g_path := [], g_globbed := False\<rparr>)
            in if length (g_args g1) \<noteq> length (g_args g) then glob_sort g1 else g1))"

text \<open>The names, or nothing; and the error message.\<close>

definition ftpglob :: "glob_env \<Rightarrow> string \<Rightarrow> string list option \<times> gstate" where
  "ftpglob E v =
     (case glob_flags v of
        (one, two) \<Rightarrow>
          if \<not> one \<and> \<not> two then (Some [v], glob_init)
          else let g = collect E v glob_init
               in if g_cnt g = 0 \<and> one then (None, g) else (Some (g_args g), g))"

end
