(* ===== verification/Ftp_Match.thy ===== *)
theory Ftp_Match
  imports Ftp_Glob
begin

text \<open>
  The patterns of the file name expansion as syntax trees with the set of names each stands for, and the
  matcher of the code as a decision procedure for it.
\<close>

section \<open>Patterns\<close>

datatype crange = One char | Range char char

datatype item = Ch char | Any | Many | Class "crange list" | Braces "item list list"

fun show_crange :: "crange \<Rightarrow> string" where
  "show_crange (One c) = [c]"
| "show_crange (Range a b) = [a, CHR ''-'', b]"

fun join_commas :: "string list \<Rightarrow> string" where
  "join_commas [] = []"
| "join_commas [x] = x"
| "join_commas (x # y # r) = x @ CHR '','' # join_commas (y # r)"

fun show_item :: "item \<Rightarrow> string" where
  "show_item (Ch c) = [c]"
| "show_item Any = ''?''"
| "show_item Many = ''*''"
| "show_item (Class rs) = CHR ''['' # concat (map show_crange rs) @ '']''"
| "show_item (Braces as) = CHR ''{'' # join_commas (map (\<lambda>a. concat (map show_item a)) as) @ ''}''"

definition show_items :: "item list \<Rightarrow> string" where
  "show_items is = concat (map show_item is)"

definition ascii :: "char \<Rightarrow> bool" where
  "ascii c \<longleftrightarrow> 0 < (of_char c :: nat) \<and> (of_char c :: nat) < 128"

fun wf_crange :: "crange \<Rightarrow> bool" where
  "wf_crange (One c) = (ascii c \<and> c \<noteq> CHR '']'' \<and> c \<noteq> CHR ''-'')"
| "wf_crange (Range a b) = (ascii a \<and> ascii b \<and> a \<noteq> CHR '']'' \<and> a \<noteq> CHR ''-'' \<and> b \<noteq> CHR '']'' \<and> b \<noteq> CHR ''-'' \<and> a \<le> b)"

definition plain_char :: "char \<Rightarrow> bool" where
  "plain_char c \<longleftrightarrow> ascii c \<and> c \<notin> {CHR ''{'', CHR ''['', CHR ''*'', CHR ''?'', CHR ''/''}"

fun wf_item :: "bool \<Rightarrow> item \<Rightarrow> bool" where
  "wf_item inside (Ch c) = (plain_char c \<and> (inside \<longrightarrow> c \<noteq> CHR '','' \<and> c \<noteq> CHR ''}''))"
| "wf_item inside Any = True"
| "wf_item inside Many = True"
| "wf_item inside (Class rs) = (list_all wf_crange rs)"
| "wf_item inside (Braces as) = (as \<noteq> [] \<and> (\<forall>a\<in>set as. \<forall>i\<in>set a. wf_item True i))"

definition wf_items :: "item list \<Rightarrow> bool" where
  "wf_items is \<longleftrightarrow> (\<forall>i\<in>set is. wf_item False i)"

text \<open>What they stand for.\<close>

fun in_crange :: "char \<Rightarrow> crange \<Rightarrow> bool" where
  "in_crange c (One d) = (c = d)"
| "in_crange c (Range a b) = (a \<le> c \<and> c \<le> b)"

definition conc :: "string set \<Rightarrow> string set \<Rightarrow> string set" where
  "conc A B = {u @ v | u v. u \<in> A \<and> v \<in> B}"

fun item_lang :: "item \<Rightarrow> string set" where
  "item_lang (Ch c) = {[c]}"
| "item_lang Any = {[c] | c. True}"
| "item_lang Many = UNIV"
| "item_lang (Class rs) = {[c] | c. \<exists>r\<in>set rs. in_crange c r}"
| "item_lang (Braces as) = (\<Union>a\<in>set as. foldr (\<lambda>i. conc (item_lang i)) a {[]})"

definition lang :: "item list \<Rightarrow> string set" where
  "lang is = foldr (\<lambda>i. conc (item_lang i)) is {[]}"

lemma lang_simps: "lang [] = {[]}" "lang (i # is) = conc (item_lang i) (lang is)"
  by (simp_all add: lang_def)

lemma conc_assoc: "conc (conc A B) C = conc A (conc B C)"
proof
  show "conc (conc A B) C \<subseteq> conc A (conc B C)" unfolding conc_def by clarsimp (metis append_assoc)
  show "conc A (conc B C) \<subseteq> conc (conc A B) C" unfolding conc_def by clarsimp (metis append_assoc)
qed

lemma lang_append: "lang (a @ b) = conc (lang a) (lang b)"
  by (induction a) (simp_all add: lang_simps conc_assoc, auto simp: conc_def)

lemma lang_braces: "lang (Braces as # is) = (\<Union>a\<in>set as. lang (a @ is))"
  by (auto simp: lang_append lang_simps lang_def [symmetric] conc_def)

lemma mem_conc_chars: "s \<in> conc {[c] | c. P c} B \<longleftrightarrow> (\<exists>c t. s = c # t \<and> P c \<and> t \<in> B)"
proof
  show "\<exists>c t. s = c # t \<and> P c \<and> t \<in> B" if "s \<in> conc {[c] | c. P c} B"
    using that by (auto simp: conc_def)
  show "s \<in> conc {[c] | c. P c} B" if ex: "\<exists>c t. s = c # t \<and> P c \<and> t \<in> B"
  proof -
    obtain c t where "s = [c] @ t" "P c" "t \<in> B" using ex by auto
    then show ?thesis unfolding conc_def by blast
  qed
qed

lemma mem_lang_Ch: "s \<in> lang (Ch c # is) \<longleftrightarrow> (\<exists>t. s = c # t \<and> t \<in> lang is)"
  using mem_conc_chars [of s "\<lambda>d. d = c"] by (simp add: lang_simps)

lemma mem_lang_Any: "s \<in> lang (Any # is) \<longleftrightarrow> (\<exists>c t. s = c # t \<and> t \<in> lang is)"
  using mem_conc_chars [of s "\<lambda>d. True"] by (simp add: lang_simps)

lemma mem_lang_Class: "s \<in> lang (Class rs # is) \<longleftrightarrow> (\<exists>c t. s = c # t \<and> (\<exists>r\<in>set rs. in_crange c r) \<and> t \<in> lang is)"
  by (simp only: lang_simps item_lang.simps mem_conc_chars)

lemma mem_lang_Many: "s \<in> lang (Many # is) \<longleftrightarrow> (\<exists>u v. s = u @ v \<and> v \<in> lang is)"
  by (auto simp: lang_simps conc_def)

lemma show_items_simps [simp]: "show_items [] = []" "show_items (i # is) = show_item i @ show_items is"
  "show_items (a @ b) = show_items a @ show_items b"
  by (simp_all add: show_items_def)

lemma wf_items_simps [simp]: "wf_items []" "wf_items (i # is) \<longleftrightarrow> wf_item False i \<and> wf_items is"
  "wf_items (a @ b) \<longleftrightarrow> wf_items a \<and> wf_items b"
  by (auto simp: wf_items_def)

lemma wf_item_inside: "wf_item True i \<Longrightarrow> wf_item b i"
  by (cases i) auto

section \<open>Characters and classes\<close>

lemma schar_ascii: "ascii c \<Longrightarrow> schar c = int (of_char c)"
  by (simp add: ascii_def schar_def Let_def)

lemma name_char_ascii: "ascii c \<Longrightarrow> name_char (c # s) = int (of_char c)"
  by (simp add: ascii_def name_char_def TRIM_def)

lemma schar_name: "ascii c \<Longrightarrow> ascii d \<Longrightarrow> schar c = name_char (d # s) \<longleftrightarrow> c = d"
  "ascii c \<Longrightarrow> ascii d \<Longrightarrow> name_char (d # s) = schar c \<longleftrightarrow> c = d"
  by (auto simp: schar_ascii name_char_ascii)

lemma schar_le_name: "ascii c \<Longrightarrow> ascii d \<Longrightarrow> schar c \<le> name_char (d # s) \<longleftrightarrow> c \<le> d"
  by (simp add: schar_ascii name_char_ascii less_eq_char_def)

lemma name_le_schar: "ascii c \<Longrightarrow> ascii d \<Longrightarrow> name_char (d # s) \<le> schar c \<longleftrightarrow> d \<le> c"
  by (simp add: schar_ascii name_char_ascii less_eq_char_def)

lemma name_char_pos: "ascii d \<Longrightarrow> 0 < name_char (d # s)"
  by (simp add: name_char_ascii ascii_def)

lemma schar_pos: "ascii c \<Longrightarrow> 0 < schar c"
  by (simp add: schar_ascii ascii_def)

lemma class_loop_show:
  assumes "ascii d"
  shows "list_all wf_crange rs \<Longrightarrow>
    class_loop (name_char (d # s)) lc ok (concat (map show_crange rs) @ CHR '']'' # q) =
      (if ok \<or> (\<exists>r\<in>set rs. in_crange d r) then Class_ok q else Class_fail)"
proof (induction rs arbitrary: lc ok)
  case (Cons r rs)
  show ?case
  proof (cases r)
    case (One c)
    with Cons assms show ?thesis by (auto simp: schar_name)
  next
    case (Range a b)
    with Cons.prems have wf: "ascii a" "ascii b" "a \<le> b" "a \<noteq> CHR '']''" "a \<noteq> CHR ''-''" "b \<noteq> CHR '']''" "b \<noteq> CHR ''-''"
      by simp_all
    show ?thesis
    proof (cases "a \<le> d")
      case True
      with Range wf Cons assms show ?thesis
        by (auto simp: schar_name schar_le_name name_le_schar)
    next
      case False
      with wf have "b \<noteq> d" "a \<noteq> d" by auto
      with False Range wf Cons assms show ?thesis
        by (simp add: schar_name schar_le_name)
    qed
  qed
qed simp

lemma class_loop_end:
  "list_all wf_crange rs \<Longrightarrow> 0 < lc \<Longrightarrow>
   class_loop 0 lc False (concat (map show_crange rs) @ CHR '']'' # q) = Class_fail"
proof (induction rs arbitrary: lc)
  case (Cons r rs)
  show ?case
  proof (cases r)
    case (One c)
    with Cons schar_pos [of c] show ?thesis by auto
  next
    case (Range a b)
    with Cons schar_pos [of a] schar_pos [of b] show ?thesis by auto
  qed
qed simp

section \<open>Braces\<close>

lemma show_braces: "show_item (Braces as) = CHR ''{'' # join_commas (map show_items as) @ ''}''"
proof -
  have "(\<lambda>a. concat (map show_item a)) = show_items" by (simp add: fun_eq_iff show_items_def)
  then show ?thesis by simp
qed

lemma join_commas_Cons: "xs \<noteq> [] \<Longrightarrow> join_commas (x # xs) = x @ CHR '','' # join_commas xs"
  by (cases xs) auto

lemma show_class_plain:
  "list_all wf_crange rs \<Longrightarrow> CHR '']'' \<notin> set (concat (map show_crange rs))"
proof (induction rs)
  case (Cons r rs)
  then show ?case by (cases r) auto
qed simp

lemma skip_class_show:
  assumes "CHR '']'' \<notin> set x"
  shows "skip_class (x @ CHR '']'' # q) = Some (x @ '']'', q)"
proof -
  have "dropWhile (\<lambda>c. c \<noteq> CHR '']'') (x @ CHR '']'' # q) = CHR '']'' # q"
    "takeWhile (\<lambda>c. c \<noteq> CHR '']'') (x @ CHR '']'' # q) = x"
    using assms by (induction x) auto
  then show ?thesis by (simp only: skip_class_def list.case)
qed

lemma scan_nested:
  assumes "\<And>a lvl parts cur q. a \<in> set as \<Longrightarrow>
      brace_scan lvl parts cur (show_items a @ q) = brace_scan lvl parts (cur @ show_items a) q"
  shows "brace_scan (Suc l) parts cur (join_commas (map show_items as) @ CHR ''}'' # q) =
    brace_scan l parts (cur @ join_commas (map show_items as) @ ''}'') q"
  using assms
proof (induction as arbitrary: cur)
  case (Cons a as)
  show ?case
  proof (cases "as = []")
    case True
    with Cons.prems [of a] show ?thesis by simp
  next
    case False
    then have join: "join_commas (map show_items (a # as)) = show_items a @ CHR '','' # join_commas (map show_items as)"
      by (simp add: join_commas_Cons)
    show ?thesis
      unfolding join using Cons.prems [of a] Cons.IH [of "cur @ show_items a @ '',''"] Cons.prems by simp
  qed
qed simp

lemma scan_items:
  "\<forall>i\<in>set a. wf_item True i \<Longrightarrow>
   brace_scan lvl parts cur (show_items a @ q) = brace_scan lvl parts (cur @ show_items a) q"
proof (induction "length (show_items a)" arbitrary: a lvl parts cur q rule: less_induct)
  case less
  show ?case
  proof (cases a)
    case (Cons i js)
    have item: "brace_scan lvl parts cur (show_item i @ r) = brace_scan lvl parts (cur @ show_item i) r" for cur r
    proof (cases i)
      case (Ch c)
      with less.prems Cons have "plain_char c" "c \<noteq> CHR '',''" "c \<noteq> CHR ''}''" by simp_all
      moreover have "\<not> ascii CHR 0xAC" by (simp add: ascii_def)
      then have "c \<noteq> CHR 0xAC" using \<open>plain_char c\<close> by (auto simp: plain_char_def)
      ultimately show ?thesis by (simp add: Ch plain_char_def)
    next
      case (Class rs)
      with less.prems Cons have "list_all wf_crange rs" by simp
      from skip_class_show [OF show_class_plain [OF this], of r] show ?thesis by (simp add: Class)
    next
      case (Braces as)
      have inner: "brace_scan l ps cu (show_items b @ t) = brace_scan l ps (cu @ show_items b) t"
        if "b \<in> set as" for b l ps cu t
      proof (rule less.hyps)
        have "length (show_items b) \<le> length (join_commas (map show_items as))"
          using that
        proof (induction as)
          case (Cons x xs)
          then show ?case by (cases "xs = []") (auto simp: join_commas_Cons)
        qed simp
        then show "length (show_items b) < length (show_items a)"
          unfolding Cons Braces show_items_simps show_braces by simp
        show "\<forall>i\<in>set b. wf_item True i" using less.prems that by (simp add: Cons Braces)
      qed
      show ?thesis unfolding Braces show_braces by (simp add: scan_nested [OF inner])
    qed simp_all
    show ?thesis
    proof (cases "show_item i = []")
      case True
      then show ?thesis by (cases i) simp_all
    next
      case False
      then have "length (show_items js) < length (show_items a)" by (simp add: Cons)
      from less.hyps [OF this] less.prems show ?thesis by (simp add: Cons item)
    qed
  qed simp
qed

lemma scan_alternatives:
  "as \<noteq> [] \<Longrightarrow> \<forall>a\<in>set as. \<forall>i\<in>set a. wf_item True i \<Longrightarrow>
   brace_scan 0 parts [] (join_commas (map show_items as) @ CHR ''}'' # q) = Br_closed (parts @ map show_items as) q"
proof (induction as arbitrary: parts)
  case (Cons a as)
  show ?case
  proof (cases "as = []")
    case True
    with Cons.prems show ?thesis by (simp add: scan_items)
  next
    case False
    then have join: "join_commas (map show_items (a # as)) = show_items a @ CHR '','' # join_commas (map show_items as)"
      by (simp add: join_commas_Cons)
    show ?thesis unfolding join using Cons False by (simp add: scan_items)
  qed
qed simp

lemma brace_alts_show:
  assumes "as \<noteq> []" "\<forall>a\<in>set as. \<forall>i\<in>set a. wf_item True i"
  shows "brace_alts (show_items (Braces as # is)) = Alts (map (\<lambda>a. show_items (a @ is)) as)"
  using scan_alternatives [OF assms, of "[]" "show_items is"]
  by (simp add: brace_alts_def Let_def show_braces del: show_item.simps)

section \<open>The matcher\<close>

lemma name_char_nil [simp]: "name_char [] = 0"
  by (simp add: name_char_def)

lemma match_step_show:
  "match_step s (show_items (Braces as # is)) = M_brace"
  "show_items is \<noteq> [] \<Longrightarrow> hd (show_items is) \<noteq> CHR ''/'' \<Longrightarrow> match_step s (show_items (Many # is)) = M_star (show_items is)"
  "match_step s (show_items [Many]) = M_return True"
  by (cases "show_items is"; simp add: match_step_def Let_def)+

lemma match_step_Ch:
  "plain_char c \<Longrightarrow> match_step [] (show_items (Ch c # is)) = M_return False"
  "plain_char c \<Longrightarrow> ascii d \<Longrightarrow>
     match_step (d # s) (show_items (Ch c # is)) = (if c = d then M_next s (show_items is) else M_return False)"
proof -
  assume c: "plain_char c"
  then have a: "ascii c" by (simp add: plain_char_def)
  show "match_step [] (show_items (Ch c # is)) = M_return False"
    using c schar_pos [OF a] by (simp add: match_step_def Let_def plain_char_def)
  show "ascii d \<Longrightarrow> match_step (d # s) (show_items (Ch c # is)) = (if c = d then M_next s (show_items is) else M_return False)"
    using c a by (auto simp: match_step_def Let_def plain_char_def schar_name)
qed

lemma match_step_Any:
  "match_step [] (show_items (Any # is)) = M_return False"
  "ascii d \<Longrightarrow> match_step (d # s) (show_items (Any # is)) = M_next s (show_items is)"
  using name_char_pos [of d s] by (simp_all add: match_step_def Let_def)

lemma match_step_Class:
  assumes "list_all wf_crange rs"
  shows "match_step [] (show_items (Class rs # is)) = M_return False"
    "ascii d \<Longrightarrow> match_step (d # s) (show_items (Class rs # is)) =
      (if \<exists>r\<in>set rs. in_crange d r then M_next s (show_items is) else M_return False)"
  using class_loop_end [OF assms, of 32767 "show_items is"] class_loop_show [OF _ assms, of d s 32767 False "show_items is"]
  by (simp_all add: match_step_def Let_def)

text \<open>The loops of the matcher, for a result that does not depend on the state.\<close>

lemma star_fst:
  "(\<And>v g. \<exists>u. s = u @ v \<Longrightarrow> fst (amatch E ent v q g) = P v) \<Longrightarrow>
   fst (star E ent s q g) \<longleftrightarrow> (\<exists>u v. s = u @ v \<and> P v)"
proof (induction s arbitrary: g)
  case Nil
  obtain b g1 where "amatch E ent [] q g = (b, g1)" by fastforce
  with Nil [of "[]" g] show ?case by (subst star.simps) simp
next
  case (Cons c s)
  obtain b g1 where am: "amatch E ent (c # s) q g = (b, g1)" by fastforce
  have b: "b = P (c # s)" using Cons.prems [of "c # s" g] am by simp
  have "fst (star E ent s q g1) \<longleftrightarrow> (\<exists>u v. s = u @ v \<and> P v)"
    by (rule Cons.IH) (metis Cons.prems append_Cons)
  then have "fst (star E ent (c # s) q g) \<longleftrightarrow> P (c # s) \<or> (\<exists>u v. s = u @ v \<and> P v)"
    by (subst star.simps) (simp add: am b)
  also have "\<dots> \<longleftrightarrow> (\<exists>u v. c # s = u @ v \<and> P v)"
    by (auto simp: Cons_eq_append_conv)
  finally show ?case .
qed

lemma brc_match_fst:
  "(\<And>p g. p \<in> set ps \<Longrightarrow> fst (amatch E ent s p g) = P p) \<Longrightarrow>
   fst (brc_match E ent s ps g) \<longleftrightarrow> (\<exists>p\<in>set ps. P p)"
proof (induction ps arbitrary: g)
  case (Cons p ps)
  obtain b g1 where "amatch E ent s p g = (b, g1)" by fastforce
  moreover from this Cons.prems [of p g] have "b = P p" by simp
  moreover have "fst (brc_match E ent s ps (glob_sort g1)) \<longleftrightarrow> (\<exists>p\<in>set ps. P p)"
    by (rule Cons.IH) (use Cons.prems in simp)
  ultimately show ?case by simp
qed simp

lemma show_items_Nil: "show_items is = [] \<longleftrightarrow> is = []"
  by (cases "is"; cases "hd is") auto

lemma hd_show_items: "wf_items is \<Longrightarrow> is \<noteq> [] \<Longrightarrow> hd (show_items is) \<noteq> CHR ''/''"
  by (cases "is"; cases "hd is") (auto simp: plain_char_def)

lemma amatch_lang:
  "wf_items is \<Longrightarrow> list_all ascii s \<Longrightarrow> fst (amatch E ent s (show_items is) g) \<longleftrightarrow> s \<in> lang is"
proof (induction "length (show_items is)" arbitrary: "is" s g rule: less_induct)
  case less
  show ?case
  proof (cases "is")
    case Nil
    have "name_char s = 0 \<longleftrightarrow> s = []"
    proof (cases s)
      case (Cons d t)
      with less.prems(2) name_char_pos [of d t] show ?thesis by simp
    qed simp
    then show ?thesis unfolding Nil
      by (subst amatch.simps) (simp add: match_step_def Let_def lang_simps)
  next
    case (Cons i js)
    have wf: "wf_item False i" "wf_items js" using less.prems(1) Cons by simp_all
    have next_step: "fst (amatch E ent t (show_items js) g) \<longleftrightarrow> t \<in> lang js" if "list_all ascii t" for t g
    proof (rule less.hyps)
      show "length (show_items js) < length (show_items is)"
        using show_items_Nil [of "[i]"] by (simp add: Cons)
    qed (use wf that in simp_all)
    show ?thesis
    proof (cases i)
      case (Ch c)
      with wf have c: "plain_char c" by simp
      show ?thesis
      proof (cases s)
        case Nil
        show ?thesis unfolding Cons Ch mem_lang_Ch Nil
          by (subst amatch.simps) (simp only: match_step_Ch(1) [OF c] match_action.case fst_conv, simp)
      next
        case (Cons d t)
        with less.prems(2) have "ascii d" "list_all ascii t" by simp_all
        then show ?thesis unfolding \<open>is = i # js\<close> Ch mem_lang_Ch Cons
          by (subst amatch.simps) (simp only: match_step_Ch(2) [OF c], auto simp: next_step)
      qed
    next
      case Any
      show ?thesis
      proof (cases s)
        case Nil
        show ?thesis unfolding Cons Any mem_lang_Any Nil
          by (subst amatch.simps) (simp only: match_step_Any(1) match_action.case fst_conv, simp)
      next
        case (Cons d t)
        with less.prems(2) have "ascii d" "list_all ascii t" by simp_all
        then show ?thesis unfolding \<open>is = i # js\<close> Any mem_lang_Any Cons
          by (subst amatch.simps) (simp only: match_step_Any(2), auto simp: next_step)
      qed
    next
      case (Class rs)
      with wf have rs: "list_all wf_crange rs" by simp
      show ?thesis
      proof (cases s)
        case Nil
        show ?thesis unfolding Cons Class mem_lang_Class Nil
          by (subst amatch.simps) (simp only: match_step_Class(1) [OF rs] match_action.case fst_conv, simp)
      next
        case (Cons d t)
        with less.prems(2) have "ascii d" "list_all ascii t" by simp_all
        then show ?thesis unfolding \<open>is = i # js\<close> Class mem_lang_Class Cons
          by (subst amatch.simps) (simp only: match_step_Class(2) [OF rs], auto simp: next_step)
      qed
    next
      case Many
      show ?thesis
      proof (cases "js = []")
        case True
        then show ?thesis unfolding Cons Many mem_lang_Many
          by (subst amatch.simps) (simp only: match_step_show(3), simp add: lang_simps)
      next
        case False
        have step: "match_step s (show_items (Many # js)) = M_star (show_items js)"
          using False hd_show_items [OF wf(2) False] by (intro match_step_show(2)) (simp_all add: show_items_Nil)
        have "fst (star E ent s (show_items js) g) \<longleftrightarrow> (\<exists>u v. s = u @ v \<and> v \<in> lang js)" for g
          by (rule star_fst) (use less.prems(2) in \<open>auto simp: next_step\<close>)
        then show ?thesis unfolding Cons Many mem_lang_Many
          by (subst amatch.simps) (simp only: step match_action.case)
      qed
    next
      case (Braces as)
      with wf have as: "as \<noteq> []" "\<forall>a\<in>set as. \<forall>i\<in>set a. wf_item True i" by simp_all
      have alts: "brace_alts (show_items (Braces as # js)) = Alts (map (\<lambda>a. show_items (a @ js)) as)"
        by (rule brace_alts_show [OF as])
      have one: "fst (amatch E ent s (show_items (a @ js)) g) \<longleftrightarrow> s \<in> lang (a @ js)" if "a \<in> set as" for a g
      proof (rule less.hyps)
        have "CHR ''{'' \<in> set (show_items (Braces as # js))" by (simp add: show_braces del: show_item.simps)
        from brace_alts_shorter [OF alts this]
        have "maxlen (map (\<lambda>a. show_items (a @ js)) as) < length (show_items is)" by (simp add: Cons Braces)
        moreover have "length (show_items (a @ js)) \<le> maxlen (map (\<lambda>a. show_items (a @ js)) as)"
          using that by (induction as) auto
        ultimately show "length (show_items (a @ js)) < length (show_items is)" by simp
        show "wf_items (a @ js)" using as(2) that wf(2) by (auto simp: wf_items_def wf_item_inside)
      qed (rule less.prems(2))
      have "fst (brc_match E ent s (map (\<lambda>a. show_items (a @ js)) as) g) \<longleftrightarrow>
          (\<exists>p\<in>set (map (\<lambda>a. show_items (a @ js)) as). \<exists>a\<in>set as. p = show_items (a @ js) \<and> s \<in> lang (a @ js))" for g
        by (rule brc_match_fst) (use one in auto)
      then show ?thesis unfolding Cons Braces lang_braces
        by (subst amatch.simps) (simp only: match_step_show(1) match_action.case alts alternatives.case, auto)
    qed
  qed
qed

end
