(* ===== verification/Ftp_Listing.thy ===== *)
theory Ftp_Listing
  imports Ftp_Match "HOL-Library.Multiset"
begin

text \<open>
  Expanding a pattern in one directory: the exchange sort is \<open>sort\<close>, a pattern without braces leaves the state
  alone, and so the names found are the matching entries in order.
\<close>

section \<open>The sort\<close>

lemma sweep_mset: "add_mset (fst (sweep x ys)) (mset (snd (sweep x ys))) = add_mset x (mset ys)"
  by (induction ys arbitrary: x) (auto simp: case_prod_beta Let_def add_mset_commute)

lemma sweep_set: "insert (fst (sweep x ys)) (set (snd (sweep x ys))) = insert x (set ys)"
  using arg_cong [OF sweep_mset, of set_mset] by simp

lemma sweep_le: "fst (sweep x ys) \<le> x \<and> (\<forall>y\<in>set (snd (sweep x ys)). fst (sweep x ys) \<le> y)"
proof (induction ys arbitrary: x)
  case (Cons y ys)
  have "fst (sweep y ys) \<le> y" "fst (sweep x ys) \<le> x" using Cons by simp_all
  with Cons [of x] Cons [of y] show ?case by (auto simp: case_prod_beta Let_def)
qed simp

lemma exchange_sort_mset: "mset (exchange_sort xs) = mset xs"
proof (induction "length xs" arbitrary: xs)
  case 0
  then show ?case by simp
next
  case (Suc n)
  then obtain x ys where "xs = x # ys" "length ys = n" by (cases xs) auto
  with Suc.hyps(1) [of "snd (sweep x ys)"] sweep_mset [of x ys] show ?case
    by (simp add: sweep_length Let_def)
qed

lemma exchange_sort_sorted: "sorted (exchange_sort xs)"
proof (induction "length xs" arbitrary: xs)
  case 0
  then show ?case by simp
next
  case (Suc n)
  then obtain x ys where xs: "xs = x # ys" "length ys = n" by (cases xs) auto
  have "set (exchange_sort (snd (sweep x ys))) = set (snd (sweep x ys))"
    using exchange_sort_mset [of "snd (sweep x ys)"] by (rule mset_eq_setD)
  with xs Suc.hyps(1) [of "snd (sweep x ys)"] sweep_le [of x ys] show ?case
    by (simp add: sweep_length Let_def)
qed

lemma exchange_sort_sort: "exchange_sort xs = sort xs"
  by (rule properties_for_sort [symmetric]) (simp_all add: exchange_sort_mset exchange_sort_sorted)

section \<open>Patterns without braces\<close>

definition flat :: "item list \<Rightarrow> bool" where
  "flat is \<longleftrightarrow> (\<forall>i\<in>set is. \<forall>as. i \<noteq> Braces as)"

lemma star_snd:
  "(\<And>v g. \<exists>u. s = u @ v \<Longrightarrow> snd (amatch E ent v q g) = g\<lparr>g_globbed := True\<rparr>) \<Longrightarrow> g_globbed g \<Longrightarrow>
   snd (star E ent s q g) = g"
proof (induction s arbitrary: g)
  case Nil
  obtain b g1 where "amatch E ent [] q g = (b, g1)" by fastforce
  with Nil(1) [of "[]" g] Nil(2) show ?case by (subst star.simps) simp
next
  case (Cons c s)
  obtain b g1 where am: "amatch E ent (c # s) q g = (b, g1)" by fastforce
  have g1: "g1 = g" using Cons.prems(1) [of "c # s" g] Cons.prems(2) am by simp
  have "snd (star E ent s q g) = g"
    by (rule Cons.IH) (use Cons.prems in \<open>metis append_Cons\<close>)+
  with am g1 show ?case by (subst star.simps) simp
qed

lemma amatch_flat_state:
  "wf_items is \<Longrightarrow> flat is \<Longrightarrow> list_all ascii s \<Longrightarrow>
   snd (amatch E ent s (show_items is) g) = g\<lparr>g_globbed := True\<rparr>"
proof (induction "is" arbitrary: s g)
  case Nil
  show ?case by (subst amatch.simps) (simp add: match_step_def Let_def)
next
  case (Cons i js)
  have wf: "wf_item False i" and js: "wf_items js" "flat js" using Cons.prems by (simp_all add: flat_def)
  note IH = Cons.IH [OF js]
  show ?case
  proof (cases i)
    case (Ch c)
    with wf have "plain_char c" by simp
    with Cons.prems(3) IH show ?thesis unfolding Ch
      by (subst amatch.simps) (cases s; simp add: match_step_Ch del: show_items_simps)
  next
    case Any
    with Cons.prems(3) IH show ?thesis unfolding Any
      by (subst amatch.simps) (cases s; simp add: match_step_Any del: show_items_simps)
  next
    case (Class rs)
    with wf have "list_all wf_crange rs" by simp
    with Cons.prems(3) IH show ?thesis unfolding Class
      by (subst amatch.simps) (cases s; simp add: match_step_Class del: show_items_simps)
  next
    case Many
    show ?thesis
    proof (cases "js = []")
      case True
      then show ?thesis unfolding Many by (subst amatch.simps) (simp only: match_step_show(3), simp)
    next
      case False
      have step: "match_step s (show_items (Many # js)) = M_star (show_items js)"
        using False hd_show_items [OF js(1) False] by (intro match_step_show(2)) (simp_all add: show_items_Nil)
      have "snd (star E ent s (show_items js) (g\<lparr>g_globbed := True\<rparr>)) = g\<lparr>g_globbed := True\<rparr>"
        by (rule star_snd) (use Cons.prems(3) in \<open>auto simp: IH\<close>)
      then show ?thesis unfolding Many by (subst amatch.simps) (simp only: step match_action.case)
    qed
  next
    case (Braces as)
    with Cons.prems(2) show ?thesis by (simp add: flat_def)
  qed
qed

lemma amatch_flat:
  "wf_items is \<Longrightarrow> flat is \<Longrightarrow> list_all ascii s \<Longrightarrow>
   amatch E ent s (show_items is) g = (s \<in> lang is, g\<lparr>g_globbed := True\<rparr>)"
  using amatch_lang amatch_flat_state by (metis prod.collapse)

section \<open>One directory\<close>

text \<open>The names of the entries that match; those that begin with a dot must be asked for.\<close>

definition found :: "item list \<Rightarrow> (nat \<times> string) list \<Rightarrow> string list" where
  "found is ents =
     map snd (filter (\<lambda>(ino, name). ino \<noteq> 0 \<and> (take 1 name = ''.'' \<longrightarrow> take 1 (show_items is) = ''.'') \<and> name \<in> lang is) ents)"

definition room :: "string \<Rightarrow> string list \<Rightarrow> int" where
  "room dir names = (\<Sum>n\<leftarrow>names. int (length dir) + int (length n) + 1)"

lemma room_simps [simp]: "room dir [] = 0" "room dir (n # ns) = int (length dir) + int (length n) + 1 + room dir ns"
  by (simp_all add: room_def)

lemma room_nonneg: "0 \<le> room dir names"
  by (induction names) simp_all

lemma match_dir_found:
  assumes "wf_items is" "flat is"
  shows "\<forall>(ino, name)\<in>set ents. list_all ascii name \<Longrightarrow> g_path g = dir \<Longrightarrow> room dir (found is ents) < g_left g \<Longrightarrow>
    length (g_args g) + length (found is ents) \<le> GAVSIZ - 1 \<Longrightarrow>
    match_dir E (show_items is) ents g =
      g\<lparr>g_args := g_args g @ map (\<lambda>n. dir @ n) (found is ents), g_left := g_left g - room dir (found is ents),
        g_cnt := g_cnt g + length (found is ents)\<rparr>"
proof (induction ents arbitrary: g)
  case Nil
  show ?case by (simp add: found_def)
next
  case (Cons e ents)
  obtain ino name where e: "e = (ino, name)" by fastforce
  have name: "list_all ascii name" and ents: "\<forall>(ino, name)\<in>set ents. list_all ascii name"
    using Cons.prems(1) e by auto
  show ?case
  proof (cases "ino \<noteq> 0 \<and> (take 1 name = ''.'' \<longrightarrow> take 1 (show_items is) = ''.'')")
    case False
    then have "found is (e # ents) = found is ents" by (auto simp: found_def e)
    with False Cons ents show ?thesis by (auto simp: e)
  next
    case True
    let ?g = "g\<lparr>g_globbed := g_globbed g\<rparr>"
    show ?thesis
    proof (cases "name \<in> lang is")
      case no: False
      then have "found is (e # ents) = found is ents" by (auto simp: found_def e)
      with True no Cons.IH [of g] Cons.prems ents show ?thesis
        by (auto simp: e amatch_flat [OF assms name])
    next
      case yes: True
      then have f: "found is (e # ents) = name # found is ents" using True by (simp add: found_def e)
      let ?h = "Gcat dir name g"
      have len: "int (length dir) + int (length name) + 1 < g_left g" "length (g_args g) < GAVSIZ - 1"
        using Cons.prems(3,4) room_nonneg [of dir "found is ents"] unfolding f by simp_all
      then have h: "?h = g\<lparr>g_left := g_left g - (int (length dir) + int (length name) + 1), g_args := g_args g @ [dir @ name]\<rparr>"
        by (simp add: Gcat_def Let_def)
      let ?k = "?h\<lparr>g_cnt := g_cnt ?h + 1\<rparr>"
      have "match_dir E (show_items is) (e # ents) g = match_dir E (show_items is) ents ?k"
        using True yes Cons.prems(2) by (auto simp: e amatch_flat [OF assms name] Let_def)
      also have "\<dots> = ?k\<lparr>g_args := g_args ?k @ map (\<lambda>n. dir @ n) (found is ents),
          g_left := g_left ?k - room dir (found is ents), g_cnt := g_cnt ?k + length (found is ents)\<rparr>"
        using Cons.prems ents unfolding f by (intro Cons.IH) (simp_all add: h)
      finally show ?thesis unfolding f by (simp add: h algebra_simps)
    qed
  qed
qed

text \<open>The text before the first special character.\<close>

lemma show_flat_split:
  "wf_items is \<Longrightarrow> flat is \<Longrightarrow> \<exists>i\<in>set is. \<forall>c. i \<noteq> Ch c \<Longrightarrow>
   \<exists>pre d rest. show_items is = pre @ d # rest \<and> (\<forall>c\<in>set pre. \<not> globchar c \<and> c \<noteq> CHR ''/'') \<and>
     globchar d \<and> d \<noteq> CHR ''{''"
proof (induction "is")
  case (Cons i js)
  show ?case
  proof (cases i)
    case (Ch c)
    then have c: "plain_char c" using Cons.prems(1) by simp
    show ?thesis
    proof (cases "globchar c")
      case True
      with c Ch show ?thesis by (intro exI [of _ "[]"] exI [of _ c] exI [of _ "show_items js"])
        (auto simp: plain_char_def)
    next
      case False
      obtain pre d rest where r: "show_items js = pre @ d # rest" "\<forall>c\<in>set pre. \<not> globchar c \<and> c \<noteq> CHR ''/''"
        "globchar d" "d \<noteq> CHR ''{''"
      proof -
        have js: "wf_items js" "flat js" "\<exists>i\<in>set js. \<forall>c. i \<noteq> Ch c" using Cons.prems Ch by (auto simp: flat_def)
        show thesis
          by (insert Cons.IH [OF js], (erule exE conjE)+, rule that, assumption+)
      qed
      have "show_items (i # js) = (c # pre) @ d # rest" using r(1) Ch by simp
      moreover have "\<forall>x\<in>set (c # pre). \<not> globchar x \<and> x \<noteq> CHR ''/''" using r(2) False c by (simp add: plain_char_def)
      ultimately show ?thesis using r(3,4) by blast
    qed
  next
    case (Braces as)
    with Cons.prems(2) show ?thesis by (simp add: flat_def)
  qed (auto simp: globchar_def intro!: exI [of _ "[]"])
qed simp

lemma fold_addpath:
  "length (g_path g) + length cs \<le> LASTGPATH \<Longrightarrow> fold addpath cs g = g\<lparr>g_path := g_path g @ cs\<rparr>"
  by (induction cs arbitrary: g) (simp_all add: addpath_def)

definition dir_prefix :: "string \<Rightarrow> bool" where
  "dir_prefix dir \<longleftrightarrow> (dir = [] \<or> last dir = CHR ''/'') \<and> (\<forall>c\<in>set dir. \<not> globchar c) \<and> take 1 dir \<noteq> ''~''"

lemma expand_start_dir:
  assumes "wf_items is" "flat is" "\<exists>i\<in>set is. \<forall>c. i \<noteq> Ch c" "dir_prefix dir"
    "length dir + length (show_items is) \<le> LASTGPATH" "g_path g = []" "take 1 (dir @ show_items is) \<noteq> ''~''"
  shows "expand_start E (dir @ show_items is) g = Ex_dir (show_items is) (g\<lparr>g_path := dir\<rparr>)"
proof -
  obtain pre d rest where s: "show_items is = pre @ d # rest" "\<forall>c\<in>set pre. \<not> globchar c \<and> c \<noteq> CHR ''/''"
    "globchar d" "d \<noteq> CHR ''{''"
    by (insert show_flat_split [OF assms(1-3)], (erule exE conjE)+, rule that, assumption+)
  let ?v = "dir @ show_items is"
  have tilde: "tilde E ?v g = (?v, g)" using assms(7) by (simp add: tilde_def)
  have pl: "takeWhile (\<lambda>c. \<not> globchar c) ?v = dir @ pre"
    using s assms(4) by (simp add: dir_prefix_def takeWhile_append takeWhile_tail)
  have fold: "fold addpath (dir @ pre) g = g\<lparr>g_path := dir @ pre\<rparr>"
    using assms(5,6) s(1) by (simp add: fold_addpath)
  have passed: "take (length ?v - length (d # rest)) ?v = dir @ pre" using s(1) by simp
  have last: "rev (takeWhile (\<lambda>c. c \<noteq> CHR ''/'') (rev (dir @ pre))) = pre"
  proof -
    have "takeWhile (\<lambda>c. c \<noteq> CHR ''/'') (rev dir) = []"
      using assms(4) by (cases dir rule: rev_cases) (auto simp: dir_prefix_def)
    moreover have "takeWhile (\<lambda>c. c \<noteq> CHR ''/'') (rev pre @ rev dir) = rev pre @ takeWhile (\<lambda>c. c \<noteq> CHR ''/'') (rev dir)"
      by (rule takeWhile_append2) (use s(2) in auto)
    ultimately show ?thesis by simp
  qed
  show ?thesis
    unfolding expand_start_def Let_def tilde prod.case pl fold
    using s last passed by (simp del: rev_append)
qed

text \<open>What the expansion of a pattern in a directory returns.\<close>

lemma ftpglob_found:
  assumes "wf_items is" "flat is" "\<exists>i\<in>set is. \<forall>c. i \<noteq> Ch c" "dir_prefix dir"
    "length dir + length (show_items is) \<le> LASTGPATH" "take 1 (dir @ show_items is) \<noteq> ''~''"
    "ge_opendir E (if dir = [] then ''./'' else dir) = Some ents" "ge_isdir E (if dir = [] then ''./'' else dir)"
    "\<forall>(ino, name)\<in>set ents. list_all ascii name"
    "room dir (found is ents) < ARGMAX - 4" "length (found is ents) \<le> GAVSIZ - 1"
  shows "fst (ftpglob E (dir @ show_items is)) =
      (if found is ents = [] then None else Some (sort (map (\<lambda>n. dir @ n) (found is ents))))"
    "g_err (snd (ftpglob E (dir @ show_items is))) = None"
proof -
  let ?v = "dir @ show_items is"
  let ?g = "glob_init\<lparr>g_path := [], g_globbed := False\<rparr>"
  let ?h = "glob_init\<lparr>g_args := map (\<lambda>n. dir @ n) (found is ents), g_left := ARGMAX - 4 - room dir (found is ents),
      g_cnt := length (found is ents)\<rparr>"
  obtain pre d rest where s: "show_items is = pre @ d # rest" "\<forall>c\<in>set pre. \<not> globchar c \<and> c \<noteq> CHR ''/''"
    "globchar d" "d \<noteq> CHR ''{''"
    by (insert show_flat_split [OF assms(1-3)], (erule exE conjE)+, rule that, assumption+)
  have d: "d \<in> set ?v" using s(1) by simp
  have ne: "?v \<noteq> ''{''" "?v \<noteq> ''{}''"
  proof -
    show "?v \<noteq> ''{''"
    proof
      assume "?v = ''{''"
      with d s(4) show False by simp
    qed
    show "?v \<noteq> ''{}''"
    proof
      assume "?v = ''{}''"
      with d s(3,4) show False by (auto simp: globchar_def)
    qed
  qed
  have "\<exists>c\<in>set ?v. globchar c \<and> c \<noteq> CHR ''{''" using d s(3,4) by blast
  then obtain two where flags: "glob_flags ?v = (True, two)"
    unfolding glob_flags_def using ne by simp
  have start: "expand_start E ?v ?g = Ex_dir (show_items is) (?g\<lparr>g_path := dir\<rparr>)"
    by (rule expand_start_dir [OF assms(1-5) _ assms(6)]) simp
  have m: "match_dir E (show_items is) ents (?g\<lparr>g_path := dir\<rparr>) = ?h\<lparr>g_path := dir\<rparr>"
    by (subst match_dir_found [OF assms(1,2,9)]) (use assms(10,11) in \<open>auto simp: glob_init_def\<close>)
  have "expand E ?v ?g = (match_dir E (show_items is) ents (?g\<lparr>g_path := dir\<rparr>))\<lparr>g_path := []\<rparr>"
    unfolding expand.simps [of E ?v ?g] start expansion.case Let_def
    using assms(7,8) by (cases "dir = []") simp_all
  then have "expand E ?v ?g = ?h" unfolding m by (simp add: glob_init_def)
  then have "collect E ?v glob_init = (if found is ents = [] then ?h else glob_sort ?h)"
    unfolding collect_def using ne by (simp add: glob_init_def)
  then show "fst (ftpglob E ?v) =
      (if found is ents = [] then None else Some (sort (map (\<lambda>n. dir @ n) (found is ents))))"
    "g_err (snd (ftpglob E ?v)) = None"
    unfolding ftpglob_def flags prod.case by (auto simp: Let_def glob_init_def glob_sort_def exchange_sort_sort)
qed

end
