(* ===== verification/Ftp_Netrc.thy ===== *)
theory Ftp_Netrc
  imports Netkit_Prelude
begin

text \<open>
  The file of host names, users and passwords (\<^verbatim>\<open>ftp/ruserpass.c\<close>). The open file is the text left to
  read, and whether its end has been hit.
\<close>

section \<open>Tokens\<close>

record macro =
  mac_name :: string
  mac_text :: string

record netrc =
  n_rest :: string
  n_eof :: bool
  n_tokval :: string
  n_default :: bool
  n_name :: "string option"
  n_pass :: "string option"
  n_acct :: "string option"
  n_macros :: "macro list"
  n_overrun :: bool

definition TOKVAL_SIZE :: nat where "TOKVAL_SIZE = 100"

datatype netrc_token = T_none | T_default | T_login | T_passwd | T_account | T_macdef | T_id | T_mach

definition toktab :: "(string \<times> netrc_token) list" where
  "toktab = [(''default'', T_default), (''login'', T_login), (''password'', T_passwd), (''passwd'', T_passwd),
     (''account'', T_account), (''machine'', T_mach), (''macdef'', T_macdef)]"

definition tok_sep :: "char \<Rightarrow> bool" where
  "tok_sep c \<longleftrightarrow> c \<in> {CHR 0x0A, CHR 0x09, CHR '' '', CHR '',''}"

text \<open>What a token in quotes or without them stores, what is left, whether the end was hit. The byte that
  is stored for the end of the file after a backslash is 255.\<close>

fun quoted :: "string \<Rightarrow> string \<times> string \<times> bool" where
  "quoted [] = ([], [], True)"
| "quoted (c # cs) =
     (if c = CHR 0x22 then ([], cs, False)
      else if c = CHR 0x5C then
        (case cs of [] \<Rightarrow> ([CHR 0xFF], [], True) | d # ds \<Rightarrow> let (x, r, e) = quoted ds in (d # x, r, e))
      else let (x, r, e) = quoted cs in (c # x, r, e))"

fun unquoted :: "string \<Rightarrow> string \<times> string \<times> bool" where
  "unquoted [] = ([], [], True)"
| "unquoted (c # cs) =
     (if tok_sep c then ([], cs, False)
      else if c = CHR 0x5C then
        (case cs of [] \<Rightarrow> ([CHR 0xFF], [], True) | d # ds \<Rightarrow> let (x, r, e) = unquoted ds in (d # x, r, e))
      else let (x, r, e) = unquoted cs in (c # x, r, e))"

definition cstring :: "string \<Rightarrow> string" where
  "cstring s = takeWhile (\<lambda>c. c \<noteq> CHR 0x00) s"

definition token_text :: "char \<Rightarrow> string \<Rightarrow> string \<times> string \<times> bool" where
  "token_text c cs = (if c = CHR 0x22 then quoted cs else (let (x, r, e) = unquoted cs in (c # x, r, e)))"

definition classify :: "string \<Rightarrow> netrc_token" where
  "classify v = (if v = [] then T_none else case map_of toktab v of None \<Rightarrow> T_id | Some t \<Rightarrow> t)"

definition token :: "netrc \<Rightarrow> netrc_token \<times> netrc" where
  "token s =
     (if n_eof s then (T_none, s)
      else case dropWhile tok_sep (n_rest s) of
        [] \<Rightarrow> (T_none, s\<lparr>n_rest := [], n_eof := True\<rparr>)
      | c # cs \<Rightarrow>
          (case token_text c cs of
             (x, r, e) \<Rightarrow>
               (classify (cstring x),
                s\<lparr>n_rest := r, n_eof := e, n_tokval := cstring x,
                  n_overrun := (n_overrun s \<or> length x \<ge> TOKVAL_SIZE)\<rparr>)))"

lemma quoted_le: "length (fst (snd (quoted cs))) \<le> length cs"
proof (induction "length cs" arbitrary: cs rule: less_induct)
  case less
  show ?case
  proof (cases cs)
    case (Cons c ds)
    have ds: "length (fst (snd (quoted ds))) \<le> length ds" by (rule less.hyps) (simp add: Cons)
    show ?thesis
    proof (cases ds)
      case Nil
      then show ?thesis by (simp add: Cons)
    next
      case (Cons d es)
      have "length (fst (snd (quoted es))) \<le> length es" by (rule less.hyps) (simp add: Cons \<open>cs = c # ds\<close>)
      with ds show ?thesis
        by (cases "c = CHR 0x22"; cases "c = CHR 0x5C")
          (simp_all add: \<open>cs = c # ds\<close> Cons case_prod_beta Let_def del: quoted.simps(2), simp_all add: case_prod_beta Let_def)
    qed
  qed simp
qed

lemma unquoted_le: "length (fst (snd (unquoted cs))) \<le> length cs"
proof (induction "length cs" arbitrary: cs rule: less_induct)
  case less
  show ?case
  proof (cases cs)
    case (Cons c ds)
    have ds: "length (fst (snd (unquoted ds))) \<le> length ds" by (rule less.hyps) (simp add: Cons)
    show ?thesis
    proof (cases ds)
      case Nil
      then show ?thesis by (simp add: Cons)
    next
      case (Cons d es)
      have "length (fst (snd (unquoted es))) \<le> length es" by (rule less.hyps) (simp add: Cons \<open>cs = c # ds\<close>)
      with ds show ?thesis
        by (cases "tok_sep c"; cases "c = CHR 0x5C")
          (simp_all add: \<open>cs = c # ds\<close> Cons case_prod_beta Let_def del: unquoted.simps(2), simp_all add: case_prod_beta Let_def)
    qed
  qed simp
qed

lemma token_shorter: "fst (token s) \<noteq> T_none \<Longrightarrow> length (n_rest (snd (token s))) < length (n_rest s)"
proof -
  assume t: "fst (token s) \<noteq> T_none"
  then have eof: "\<not> n_eof s" by (auto simp: token_def)
  show ?thesis
  proof (cases "dropWhile tok_sep (n_rest s)")
    case Nil
    with t eof show ?thesis by (simp add: token_def del: dropWhile_eq_Nil_conv)
  next
    case (Cons c cs)
    have "length (c # cs) \<le> length (n_rest s)"
      unfolding Cons [symmetric] by (rule length_dropWhile_le)
    moreover obtain x r e where tt: "token_text c cs = (x, r, e)" by (cases "token_text c cs")
    moreover have "length r \<le> length cs"
      using tt quoted_le [of cs] unquoted_le [of cs] by (auto simp: token_text_def case_prod_beta split: if_splits)
    ultimately show ?thesis using eof by (simp add: token_def Cons)
  qed
qed

section \<open>Macros\<close>

definition MACBUF_SIZE :: nat where "MACBUF_SIZE = 4096"

definition is_space :: "char \<Rightarrow> bool" where
  "is_space c \<longleftrightarrow> c = CHR '' '' \<or> 9 \<le> (of_char c :: nat) \<and> (of_char c :: nat) \<le> 13"

text \<open>
  The text of a macro, from the line after its name: line feeds become nulls, an empty line ends it. \<open>prev\<close> tells
  whether the byte before is a null.
\<close>

fun mac_body :: "nat \<Rightarrow> bool \<Rightarrow> string \<Rightarrow> (string \<times> string) option" where
  "mac_body 0 prev cs = None"
| "mac_body (Suc n) prev [] = None"
| "mac_body (Suc n) prev (c # cs) =
     (if c = CHR 0x0A \<and> prev then Some ([], cs)
      else let d = (if c = CHR 0x0A then CHR 0x00 else c)
           in map_option (\<lambda>(x, r). (d # x, r)) (mac_body n (d = CHR 0x00) cs))"

lemma mac_body_shorter: "mac_body n prev cs = Some (x, r) \<Longrightarrow> length r < length cs"
  by (induction n prev cs arbitrary: x r rule: mac_body.induct) (fastforce simp: Let_def split: if_splits)+

record netrc_env =
  ne_host :: string
  ne_hostname :: string
  ne_domain :: string
  ne_mode :: "u32 option"
  ne_proxy :: bool
  ne_before :: bool

text \<open>The rest of the file after a macro, or \<open>None\<close> for a wrong one.\<close>

definition macdef :: "netrc_env \<Rightarrow> netrc \<Rightarrow> netrc option" where
  "macdef E s =
     (case dropWhile (\<lambda>c. c = CHR '' '' \<or> c = CHR 0x09) (n_rest s) of
        [] \<Rightarrow> None
      | c # cs \<Rightarrow>
          if c = CHR 0x0A \<or> length (n_macros s) = 16 then None
          else
            let more = takeWhile (\<lambda>d. \<not> is_space d) (take 8 cs);
                after = drop (length more) cs;
                line = dropWhile (\<lambda>d. d \<noteq> CHR 0x0A) after
            in if line = [] then None
               else (case mac_body (MACBUF_SIZE - (\<Sum>m\<leftarrow>n_macros s. length (mac_text m)))
                            (if n_macros s = [] then ne_before E else True) (tl line) of
                       None \<Rightarrow> None
                     | Some (x, r) \<Rightarrow>
                         Some (s\<lparr>n_rest := r, n_macros := n_macros s @ [\<lparr>mac_name = c # more, mac_text = x\<rparr>]\<rparr>)))"

lemma macdef_shorter: "macdef E s = Some s' \<Longrightarrow> length (n_rest s') < length (n_rest s)"
proof -
  assume m: "macdef E s = Some s'"
  let ?d = "dropWhile (\<lambda>c. c = CHR '' '' \<or> c = CHR 0x09) (n_rest s)"
  obtain c cs where c: "?d = c # cs" using m by (cases ?d) (simp_all add: macdef_def del: dropWhile_eq_Nil_conv)
  have "length (c # cs) \<le> length (n_rest s)" unfolding c [symmetric] by (rule length_dropWhile_le)
  moreover have "length (tl (dropWhile (\<lambda>d. d \<noteq> CHR 0x0A) (drop k cs))) \<le> length cs" for k
    using length_dropWhile_le [of "\<lambda>d. d \<noteq> CHR 0x0A" "drop k cs"] by simp
  moreover obtain k n p x r where
    "mac_body n p (tl (dropWhile (\<lambda>d. d \<noteq> CHR 0x0A) (drop k cs))) = Some (x, r)" "n_rest s' = r"
    using m by (auto simp: macdef_def c Let_def split: if_splits option.splits)
  ultimately show ?thesis
    by (metis Suc_le_lessD le_less_trans length_Cons less_imp_le_nat mac_body_shorter order_less_le_trans)
qed

section \<open>The search for a host\<close>

definition fold_case :: "string \<Rightarrow> string" where
  "fold_case s = map (\<lambda>c. if 65 \<le> (of_char c :: nat) \<and> (of_char c :: nat) \<le> 90 then char_of (of_char c + 32 :: nat) else c) s"

text \<open>A host in the local domain may be given without it.\<close>

definition short_match :: "netrc_env \<Rightarrow> string \<Rightarrow> string \<Rightarrow> bool" where
  "short_match E host v \<longleftrightarrow>
     (let tmp = dropWhile (\<lambda>c. c \<noteq> CHR ''.'') host in
      tmp \<noteq> [] \<and> fold_case tmp = fold_case (ne_domain E) \<and>
      fold_case v = fold_case (takeWhile (\<lambda>c. c \<noteq> CHR ''.'') host))"

definition machine_matches :: "netrc_env \<Rightarrow> string \<Rightarrow> bool" where
  "machine_matches E v \<longleftrightarrow>
     fold_case (ne_host E) = fold_case v \<or> fold_case (ne_hostname E) = fold_case v \<or>
     short_match E (ne_hostname E) v \<or> short_match E (ne_host E) v"

text \<open>Others than the owner may get at the file.\<close>

definition exposed :: "netrc_env \<Rightarrow> bool" where
  "exposed E = (case ne_mode E of None \<Rightarrow> False | Some m \<Rightarrow> has m 0x3F)"

datatype netrc_phase = Outer | Inner
datatype netrc_step = Go netrc_phase netrc | Stop bool netrc

text \<open>What a token other than the end does in either loop; it stops with the success of the whole.\<close>

definition outer_step :: "netrc_env \<Rightarrow> netrc_token \<Rightarrow> netrc \<Rightarrow> netrc_step" where
  "outer_step E t s =
     (if t \<noteq> T_default \<and> t \<noteq> T_mach then Go Outer s
      else
        let s1 = (if t = T_default then s\<lparr>n_default := True\<rparr> else s)
        in if n_default s1 then Go Inner s1
           else (case token s1 of
             (t2, s2) \<Rightarrow> Go (if t2 = T_id \<and> machine_matches E (n_tokval s2) then Inner else Outer) s2))"

definition inner_step :: "netrc_env \<Rightarrow> netrc_token \<Rightarrow> netrc \<Rightarrow> netrc_step" where
  "inner_step E t s =
     (case t of
        T_mach \<Rightarrow> Stop True s
      | T_default \<Rightarrow> Stop True s
      | T_login \<Rightarrow>
          (case token s of
             (t2, s2) \<Rightarrow>
               if t2 = T_none then Go Inner s2
               else (case n_name s2 of
                       None \<Rightarrow> Go Inner (s2\<lparr>n_name := Some (n_tokval s2)\<rparr>)
                     | Some u \<Rightarrow> if u = n_tokval s2 then Go Inner s2 else Go Outer s2))
      | T_passwd \<Rightarrow>
          (case n_name s of
             None \<Rightarrow> Stop False s
           | Some u \<Rightarrow>
               if u \<noteq> ''anonymous'' \<and> exposed E then Stop False s
               else (case token s of
                       (t2, s2) \<Rightarrow>
                         Go Inner (if t2 \<noteq> T_none \<and> n_pass s2 = None then s2\<lparr>n_pass := Some (n_tokval s2)\<rparr> else s2)))
      | T_account \<Rightarrow>
          if exposed E then Stop False s
          else (case token s of
                  (t2, s2) \<Rightarrow>
                    Go Inner (if t2 \<noteq> T_none \<and> n_acct s2 = None then s2\<lparr>n_acct := Some (n_tokval s2)\<rparr> else s2))
      | T_macdef \<Rightarrow>
          if ne_proxy E then Stop True s
          else (case macdef E s of None \<Rightarrow> Stop False s | Some s2 \<Rightarrow> Go Inner s2)
      | _ \<Rightarrow> Go Inner s)"

definition phase_step :: "netrc_env \<Rightarrow> netrc_phase \<Rightarrow> netrc_token \<Rightarrow> netrc \<Rightarrow> netrc_step" where
  "phase_step E ph = (case ph of Outer \<Rightarrow> outer_step E | Inner \<Rightarrow> inner_step E)"

lemma token_le: "length (n_rest (snd (token s))) \<le> length (n_rest s)"
proof (cases "fst (token s) = T_none")
  case False
  from token_shorter [OF this] show ?thesis by simp
next
  case True
  show ?thesis
  proof (cases "dropWhile tok_sep (n_rest s)")
    case Nil
    then show ?thesis by (simp add: token_def del: dropWhile_eq_Nil_conv)
  next
    case (Cons c cs)
    have "length (c # cs) \<le> length (n_rest s)" unfolding Cons [symmetric] by (rule length_dropWhile_le)
    then show ?thesis
      using quoted_le [of cs] unquoted_le [of cs]
      by (auto simp: token_def Cons token_text_def case_prod_beta split: if_splits)
  qed
qed

lemma phase_step_le:
  assumes "phase_step E ph t s = Go ph' s'"
  shows "length (n_rest s') \<le> length (n_rest s)"
proof -
  obtain t2 s2 where tok: "token s = (t2, s2)" by fastforce
  obtain t3 s3 where tok3: "token (s\<lparr>n_default := True\<rparr>) = (t3, s3)" by fastforce
  have "length (n_rest s2) \<le> length (n_rest s)" using token_le [of s] tok by simp
  then show ?thesis using assms
    by (cases ph; cases t)
      (auto simp: phase_step_def outer_step_def inner_step_def Let_def tok dest: macdef_shorter
        split: if_splits option.splits)
qed

function netrc_run :: "netrc_env \<Rightarrow> netrc_phase \<Rightarrow> netrc \<Rightarrow> bool \<times> netrc" where
  "netrc_run E ph s =
     (let ts = token s in
      if fst ts = T_none then (True, snd ts)
      else case phase_step E ph (fst ts) (snd ts) of
             Stop b s2 \<Rightarrow> (b, s2)
           | Go ph' s2 \<Rightarrow> netrc_run E ph' s2)"
  by pat_completeness auto
termination
  by (relation "measure (\<lambda>(E, ph, s). length (n_rest s))")
    (auto dest!: token_shorter phase_step_le)

declare netrc_run.simps [simp del]

text \<open>The function: the file is the text, or is missing; the user, password and account may be known already.\<close>

definition xruserpass ::
  "netrc_env \<Rightarrow> string option \<Rightarrow> string option \<Rightarrow> string option \<Rightarrow> string option \<Rightarrow> macro list \<Rightarrow> bool \<times> netrc" where
  "xruserpass E file name pass acct macs =
     (let s = \<lparr>n_rest = [], n_eof = False, n_tokval = [], n_default = False, n_name = name, n_pass = pass,
               n_acct = acct, n_macros = macs, n_overrun = False\<rparr>
      in case file of
           None \<Rightarrow> (True, s)
         | Some text \<Rightarrow> netrc_run E Outer (s\<lparr>n_rest := text\<rparr>))"

end
