(* ===== verification/Ftp_Hosts.thy ===== *)
theory Ftp_Hosts
  imports Ftp_Netrc
begin

text \<open>
  Facts about the file of hosts: what no run of the search changes, and the entries of a file as a list.
\<close>

section \<open>What is kept\<close>

lemma token_frame [frame_simps]:
  "n_name (snd (token s)) = n_name s" "n_pass (snd (token s)) = n_pass s" "n_acct (snd (token s)) = n_acct s"
  "n_macros (snd (token s)) = n_macros s" "n_default (snd (token s)) = n_default s"
  by (simp_all add: token_def split: list.split prod.split)

lemma macdef_frame:
  "macdef E s = Some s' \<Longrightarrow> n_name s' = n_name s \<and> n_pass s' = n_pass s \<and> n_acct s' = n_acct s"
  by (auto simp: macdef_def Let_def split: list.splits if_splits option.splits)

text \<open>With a file others may read, the account stays as it is and so does the password, but for the anonymous user.\<close>

definition kept :: "string option \<Rightarrow> string option \<Rightarrow> netrc \<Rightarrow> bool" where
  "kept pass acct s \<longleftrightarrow> n_acct s = acct \<and> (n_pass s = pass \<or> n_name s = Some ''anonymous'')"

lemma kept_token: "kept pass acct s \<Longrightarrow> kept pass acct (snd (token s))"
  by (simp add: kept_def frame_simps)

lemma kept_step:
  assumes "exposed E" "kept pass acct s"
  shows "case phase_step E ph t s of Go ph' s' \<Rightarrow> kept pass acct s' | Stop b s' \<Rightarrow> kept pass acct s'"
proof -
  have one: "kept pass acct (s\<lparr>n_default := True\<rparr>)" using assms(2) by (simp add: kept_def)
  obtain t2 s2 where tok: "token s = (t2, s2)" by fastforce
  with kept_token [OF assms(2)] have s2: "kept pass acct s2" by simp
  have name: "n_name s2 = n_name s" using token_frame(1) [of s] tok by simp
  show ?thesis
  proof (cases ph)
    case Outer
    have "kept pass acct (snd (token (s\<lparr>n_default := True\<rparr>)))" by (rule kept_token [OF one])
    then show ?thesis using assms(2) one s2
      by (simp add: Outer phase_step_def outer_step_def Let_def tok split: prod.split)
  next
    case Inner
    show ?thesis
    proof (cases t)
      case T_login
      with s2 show ?thesis
        by (auto simp: Inner phase_step_def inner_step_def tok kept_def split: option.split)
    next
      case T_passwd
      with assms s2 name show ?thesis
        by (auto simp: Inner phase_step_def inner_step_def tok kept_def split: option.split)
    next
      case T_macdef
      with assms show ?thesis
        by (auto simp: Inner phase_step_def inner_step_def kept_def dest: macdef_frame split: option.split)
    qed (use assms in \<open>simp_all add: Inner phase_step_def inner_step_def\<close>)
  qed
qed

lemma kept_run: "exposed E \<Longrightarrow> kept pass acct s \<Longrightarrow> kept pass acct (snd (netrc_run E ph s))"
proof (induction E ph s rule: netrc_run.induct)
  case (1 E ph s)
  obtain t s1 where tok: "token s = (t, s1)" by fastforce
  with kept_token [OF 1(3)] have s1: "kept pass acct s1" by simp
  show ?case
  proof (cases "t = T_none")
    case True
    with s1 tok show ?thesis by (subst netrc_run.simps) simp
  next
    case False
    from kept_step [OF 1(2) s1, of ph t] show ?thesis
      using False tok 1(1) [OF refl _ _ 1(2)]
      by (subst netrc_run.simps) (auto split: netrc_step.splits)
  qed
qed

section \<open>A file of entries\<close>

record host_entry =
  he_machine :: string
  he_login :: string
  he_pass :: string
  he_acct :: "string option"

definition entry_text :: "host_entry \<Rightarrow> string" where
  "entry_text e = ''machine '' @ he_machine e @ '' login '' @ he_login e @ '' password '' @ he_pass e @
     (case he_acct e of None \<Rightarrow> [] | Some a \<Rightarrow> '' account '' @ a) @ [CHR 0x0A]"

text \<open>Words that are written as they are: no separator, quote, backslash or null.\<close>

definition plain_word :: "string \<Rightarrow> bool" where
  "plain_word w \<longleftrightarrow> w \<noteq> [] \<and> list_all (\<lambda>c. \<not> tok_sep c \<and> c \<noteq> CHR 0x22 \<and> c \<noteq> CHR 0x5C \<and> c \<noteq> CHR 0x00) w"

definition host_word :: "string \<Rightarrow> bool" where
  "host_word w \<longleftrightarrow> plain_word w \<and> w \<notin> fst ` set toktab"

definition wf_entry :: "host_entry \<Rightarrow> bool" where
  "wf_entry e \<longleftrightarrow> host_word (he_machine e) \<and> host_word (he_login e) \<and> host_word (he_pass e) \<and>
     (case he_acct e of None \<Rightarrow> True | Some a \<Rightarrow> host_word a)"

lemma unquoted_plain:
  "list_all (\<lambda>c. \<not> tok_sep c \<and> c \<noteq> CHR 0x22 \<and> c \<noteq> CHR 0x5C \<and> c \<noteq> CHR 0x00) w \<Longrightarrow> tok_sep d \<Longrightarrow>
   unquoted (w @ d # r) = (w, r, False)"
  by (induction w) auto

lemma cstring_plain: "plain_word w \<Longrightarrow> cstring w = w"
  by (auto simp: plain_word_def cstring_def list_all_iff takeWhile_eq_all_conv)

definition took :: "string \<Rightarrow> string \<Rightarrow> netrc \<Rightarrow> netrc" where
  "took w r s = s\<lparr>n_rest := r, n_eof := False, n_tokval := w, n_overrun := (n_overrun s \<or> length w \<ge> TOKVAL_SIZE)\<rparr>"

lemma took_simps [simp]:
  "n_rest (took w r s) = r" "n_eof (took w r s) = False" "n_tokval (took w r s) = w" "n_default (took w r s) = n_default s"
  "n_name (took w r s) = n_name s" "n_pass (took w r s) = n_pass s" "n_acct (took w r s) = n_acct s"
  by (simp_all add: took_def)

lemma token_word:
  assumes "plain_word w" "tok_sep d" "n_rest s = w @ d # r" "\<not> n_eof s"
  shows "token s = (classify w, took w r s)"
proof -
  obtain c cs where w: "w = c # cs" using assms(1) by (cases w) (auto simp: plain_word_def)
  have c: "\<not> tok_sep c" "c \<noteq> CHR 0x22"
    and cs: "list_all (\<lambda>c. \<not> tok_sep c \<and> c \<noteq> CHR 0x22 \<and> c \<noteq> CHR 0x5C \<and> c \<noteq> CHR 0x00) cs"
    using assms(1) by (simp_all add: plain_word_def w)
  have "dropWhile tok_sep (n_rest s) = c # cs @ d # r" using c assms(3) by (simp add: w)
  moreover have "token_text c (cs @ d # r) = (w, r, False)"
    using c unquoted_plain [OF cs assms(2), of r] by (simp add: token_text_def w)
  ultimately show ?thesis using assms(4) by (simp add: token_def cstring_plain [OF assms(1)] took_def)
qed

lemma token_space: "\<not> n_eof s \<Longrightarrow> n_rest s = [] \<Longrightarrow> fst (token s) = T_none"
  by (simp add: token_def)

lemma classify_host: "host_word w \<Longrightarrow> classify w = T_id"
proof -
  assume h: "host_word w"
  then have "map_of toktab w = None" by (simp add: host_word_def map_of_eq_None_iff)
  with h show ?thesis by (simp add: host_word_def plain_word_def classify_def)
qed

lemma plain_keywords:
  "plain_word ''machine''" "plain_word ''login''" "plain_word ''password''" "plain_word ''account''"
  "classify ''machine'' = T_mach" "classify ''login'' = T_login" "classify ''password'' = T_passwd"
  "classify ''account'' = T_account"
  by (simp_all add: plain_word_def tok_sep_def classify_def toktab_def)

lemma run_word:
  assumes "plain_word w" "tok_sep d" "n_rest s = w @ d # r" "\<not> n_eof s" "classify w \<noteq> T_none"
  shows "netrc_run E ph s =
    (case phase_step E ph (classify w) (took w r s) of Stop b s2 \<Rightarrow> (b, s2) | Go ph' s2 \<Rightarrow> netrc_run E ph' s2)"
  using token_word [OF assms(1-4)] assms(5) by (subst netrc_run.simps) simp

text \<open>Outside an entry that matches, words that are no keywords of a host are passed over.\<close>

lemma outer_skip:
  assumes "plain_word w" "tok_sep d" "n_rest s = w @ d # r" "\<not> n_eof s" "classify w \<notin> {T_none, T_mach, T_default}"
  shows "netrc_run E Outer s = netrc_run E Outer (took w r s)"
  using run_word [OF assms(1-4), of E Outer] assms(5) by (simp add: phase_step_def outer_step_def)

definition nl :: char where "nl = CHR 0x0A"

lemma seps: "tok_sep nl" "tok_sep CHR '' ''"
  by (simp_all add: tok_sep_def nl_def)

text \<open>The start of an entry.\<close>

lemma outer_machine:
  assumes "n_rest s = ''machine'' @ CHR '' '' # m @ d # r" "\<not> n_eof s" "\<not> n_default s" "host_word m" "tok_sep d"
  shows "\<exists>q. netrc_run E Outer s = netrc_run E (if machine_matches E m then Inner else Outer) q \<and>
    n_rest q = r \<and> \<not> n_eof q \<and> \<not> n_default q \<and> n_name q = n_name s \<and> n_pass q = n_pass s \<and> n_acct q = n_acct s"
proof -
  let ?q = "took m r (took ''machine'' (m @ d # r) s)"
  have "plain_word m" using assms(4) by (simp add: host_word_def)
  then have "token (took ''machine'' (m @ d # r) s) = (T_id, ?q)"
    using token_word [of m d "took ''machine'' (m @ d # r) s" r] assms(5) classify_host [OF assms(4)] by simp
  then have "netrc_run E Outer s = netrc_run E (if machine_matches E m then Inner else Outer) ?q"
    using run_word [OF plain_keywords(1) seps(2) assms(1,2), of E Outer] assms(3)
    by (simp add: plain_keywords phase_step_def outer_step_def)
  then show ?thesis using assms(3) by (intro exI [of _ ?q]) simp
qed

lemma outer_pair:
  assumes "n_rest s = k @ CHR '' '' # w @ d # r" "\<not> n_eof s" "\<not> n_default s" "tok_sep d" "plain_word k"
    "classify k \<in> {T_login, T_passwd, T_account}" "host_word w"
  shows "\<exists>q. netrc_run E Outer s = netrc_run E Outer q \<and>
    n_rest q = r \<and> \<not> n_eof q \<and> \<not> n_default q \<and> n_name q = n_name s \<and> n_pass q = n_pass s \<and> n_acct q = n_acct s"
proof -
  let ?p = "took k (w @ d # r) s"
  have w: "plain_word w" using assms(7) by (simp add: host_word_def)
  have "netrc_run E Outer s = netrc_run E Outer ?p"
    using outer_skip [OF assms(5) seps(2) assms(1,2), of E] assms(6) by auto
  also have "\<dots> = netrc_run E Outer (took w r ?p)"
    by (rule outer_skip [OF w assms(4)]) (simp_all add: classify_host [OF assms(7)])
  finally show ?thesis using assms(3) by (intro exI [of _ "took w r ?p"]) simp
qed

text \<open>Inside an entry.\<close>

lemma inner_login:
  assumes "n_rest s = ''login'' @ CHR '' '' # w @ d # r" "\<not> n_eof s" "tok_sep d" "host_word w" "n_name s = None"
  shows "\<exists>q. netrc_run E Inner s = netrc_run E Inner q \<and>
    n_rest q = r \<and> \<not> n_eof q \<and> n_name q = Some w \<and> n_pass q = n_pass s \<and> n_acct q = n_acct s"
proof -
  let ?p = "took ''login'' (w @ d # r) s"
  have w: "plain_word w" using assms(4) by (simp add: host_word_def)
  have "token ?p = (T_id, took w r ?p)"
    using token_word [OF w assms(3), of ?p r] classify_host [OF assms(4)] by simp
  then have "netrc_run E Inner s = netrc_run E Inner ((took w r ?p)\<lparr>n_name := Some w\<rparr>)"
    using run_word [OF plain_keywords(2) seps(2) assms(1,2), of E Inner] assms(5)
    by (simp add: plain_keywords phase_step_def inner_step_def)
  then show ?thesis by (intro exI [of _ "(took w r ?p)\<lparr>n_name := Some w\<rparr>"]) simp
qed

lemma inner_password:
  assumes "n_rest s = ''password'' @ CHR '' '' # w @ d # r" "\<not> n_eof s" "tok_sep d" "host_word w"
    "n_name s = Some u" "n_pass s = None" "\<not> exposed E"
  shows "\<exists>q. netrc_run E Inner s = netrc_run E Inner q \<and>
    n_rest q = r \<and> \<not> n_eof q \<and> n_name q = Some u \<and> n_pass q = Some w \<and> n_acct q = n_acct s"
proof -
  let ?p = "took ''password'' (w @ d # r) s"
  have w: "plain_word w" using assms(4) by (simp add: host_word_def)
  have "token ?p = (T_id, took w r ?p)"
    using token_word [OF w assms(3), of ?p r] classify_host [OF assms(4)] by simp
  then have "netrc_run E Inner s = netrc_run E Inner ((took w r ?p)\<lparr>n_pass := Some w\<rparr>)"
    using run_word [OF plain_keywords(3) seps(2) assms(1,2), of E Inner] assms(5-7)
    by (simp add: plain_keywords phase_step_def inner_step_def)
  then show ?thesis using assms(5) by (intro exI [of _ "(took w r ?p)\<lparr>n_pass := Some w\<rparr>"]) simp
qed

lemma inner_account:
  assumes "n_rest s = ''account'' @ CHR '' '' # w @ d # r" "\<not> n_eof s" "tok_sep d" "host_word w"
    "n_acct s = None" "\<not> exposed E"
  shows "\<exists>q. netrc_run E Inner s = netrc_run E Inner q \<and>
    n_rest q = r \<and> \<not> n_eof q \<and> n_name q = n_name s \<and> n_pass q = n_pass s \<and> n_acct q = Some w"
proof -
  let ?p = "took ''account'' (w @ d # r) s"
  have w: "plain_word w" using assms(4) by (simp add: host_word_def)
  have "token ?p = (T_id, took w r ?p)"
    using token_word [OF w assms(3), of ?p r] classify_host [OF assms(4)] by simp
  then have "netrc_run E Inner s = netrc_run E Inner ((took w r ?p)\<lparr>n_acct := Some w\<rparr>)"
    using run_word [OF plain_keywords(4) seps(2) assms(1,2), of E Inner] assms(5,6)
    by (simp add: plain_keywords phase_step_def inner_step_def)
  then show ?thesis by (intro exI [of _ "(took w r ?p)\<lparr>n_acct := Some w\<rparr>"]) simp
qed

text \<open>The entry that matches ends at the next one or with the file.\<close>

lemma inner_end:
  assumes "n_rest s = [] \<or> (\<exists>t. n_rest s = ''machine'' @ CHR '' '' # t)" "\<not> n_eof s"
  shows "fst (netrc_run E Inner s) \<and> n_name (snd (netrc_run E Inner s)) = n_name s \<and>
    n_pass (snd (netrc_run E Inner s)) = n_pass s \<and> n_acct (snd (netrc_run E Inner s)) = n_acct s"
  using assms(1)
proof
  assume "n_rest s = []"
  then have "token s = (T_none, s\<lparr>n_rest := [], n_eof := True\<rparr>)" using assms(2) by (simp add: token_def)
  then have "netrc_run E Inner s = (True, s\<lparr>n_rest := [], n_eof := True\<rparr>)" by (subst netrc_run.simps) simp
  then show ?thesis by simp
next
  assume "\<exists>t. n_rest s = ''machine'' @ CHR '' '' # t"
  then obtain t where t: "n_rest s = ''machine'' @ CHR '' '' # t" by blast
  show ?thesis
    using run_word [OF plain_keywords(1) seps(2) t assms(2), of E Inner]
    by (simp add: plain_keywords phase_step_def inner_step_def)
qed

definition credentials :: "netrc \<Rightarrow> string option \<times> string option \<times> string option" where
  "credentials s = (n_name s, n_pass s, n_acct s)"

definition entry_of :: "netrc_env \<Rightarrow> host_entry list \<Rightarrow> string option \<times> string option \<times> string option" where
  "entry_of E es =
     (case find (\<lambda>e. machine_matches E (he_machine e)) es of
        None \<Rightarrow> (None, None, None)
      | Some e \<Rightarrow> (Some (he_login e), Some (he_pass e), he_acct e))"

lemma entry_text_nl:
  "entry_text e = ''machine'' @ CHR '' '' # he_machine e @ CHR '' '' # ''login'' @ CHR '' '' # he_login e @ CHR '' '' #
     ''password'' @ CHR '' '' # he_pass e @
     (case he_acct e of None \<Rightarrow> [nl] | Some a \<Rightarrow> CHR '' '' # ''account'' @ CHR '' '' # a @ [nl])"
  by (simp add: entry_text_def nl_def split: option.split)

lemma run_entries:
  "list_all wf_entry es \<Longrightarrow> \<not> exposed E \<Longrightarrow> n_rest s = concat (map entry_text es) \<Longrightarrow> \<not> n_eof s \<Longrightarrow> \<not> n_default s \<Longrightarrow>
   credentials s = (None, None, None) \<Longrightarrow>
   fst (netrc_run E Outer s) \<and> credentials (snd (netrc_run E Outer s)) = entry_of E es"
proof (induction es arbitrary: s)
  case Nil
  then have "token s = (T_none, s\<lparr>n_rest := [], n_eof := True\<rparr>)" by (simp add: token_def)
  then have "netrc_run E Outer s = (True, s\<lparr>n_rest := [], n_eof := True\<rparr>)" by (subst netrc_run.simps) simp
  with Nil show ?case by (simp add: credentials_def entry_of_def)
next
  case (Cons e es)
  let ?more = "concat (map entry_text es)"
  have wf: "host_word (he_machine e)" "host_word (he_login e)" "host_word (he_pass e)"
    "\<And>a. he_acct e = Some a \<Longrightarrow> host_word a"
    using Cons.prems(1) by (auto simp: wf_entry_def)
  have none: "n_name s = None" "n_pass s = None" "n_acct s = None"
    using Cons.prems(6) by (simp_all add: credentials_def)
  define r4 where "r4 = (case he_acct e of None \<Rightarrow> ?more | Some a \<Rightarrow> ''account'' @ CHR '' '' # a @ nl # ?more)"
  define d3 where "d3 = (case he_acct e of None \<Rightarrow> nl | Some a \<Rightarrow> CHR '' '')"
  have d3: "tok_sep d3" by (simp add: d3_def seps split: option.split)
  let ?r3 = "''password'' @ CHR '' '' # he_pass e @ d3 # r4"
  let ?r2 = "''login'' @ CHR '' '' # he_login e @ CHR '' '' # ?r3"
  have whole: "n_rest s = ''machine'' @ CHR '' '' # he_machine e @ CHR '' '' # ?r2"
    unfolding Cons.prems(3) list.map concat.simps entry_text_nl r4_def d3_def by (simp split: option.split)
  obtain q where q: "netrc_run E Outer s = netrc_run E (if machine_matches E (he_machine e) then Inner else Outer) q"
    "n_rest q = ?r2" "\<not> n_eof q" "\<not> n_default q" "n_name q = None" "n_pass q = None" "n_acct q = None"
    using outer_machine [OF whole Cons.prems(4,5) wf(1) seps(2), of E] none by auto
  show ?case
  proof (cases "machine_matches E (he_machine e)")
    case True
    obtain p where p: "netrc_run E Inner q = netrc_run E Inner p" "n_rest p = ?r3" "\<not> n_eof p"
      "n_name p = Some (he_login e)" "n_pass p = None" "n_acct p = None"
      using inner_login [OF q(2,3) seps(2) wf(2) q(5), of E] q(6,7) by auto
    obtain o3 where o3: "netrc_run E Inner p = netrc_run E Inner o3" "n_rest o3 = r4" "\<not> n_eof o3"
      "n_name o3 = Some (he_login e)" "n_pass o3 = Some (he_pass e)" "n_acct o3 = None"
      using inner_password [OF p(2,3) d3 wf(3) p(4,5) Cons.prems(2)] p(6) by auto
    have more: "?more = [] \<or> (\<exists>t. ?more = ''machine'' @ CHR '' '' # t)"
      by (cases es) (auto simp: entry_text_nl)
    have "fst (netrc_run E Inner o3) \<and>
        credentials (snd (netrc_run E Inner o3)) = (Some (he_login e), Some (he_pass e), he_acct e)"
    proof (cases "he_acct e")
      case None
      then have "n_rest o3 = [] \<or> (\<exists>t. n_rest o3 = ''machine'' @ CHR '' '' # t)"
        using more o3(2) by (simp add: r4_def)
      from inner_end [OF this o3(3), of E] o3(4-6) None show ?thesis by (simp add: credentials_def)
    next
      case (Some a)
      then have t: "n_rest o3 = ''account'' @ CHR '' '' # a @ nl # ?more" using o3(2) by (simp add: r4_def)
      obtain o4 where o4: "netrc_run E Inner o3 = netrc_run E Inner o4" "n_rest o4 = ?more" "\<not> n_eof o4"
        "n_name o4 = n_name o3" "n_pass o4 = n_pass o3" "n_acct o4 = Some a"
        using inner_account [OF t o3(3) seps(1) wf(4) [OF Some] o3(6) Cons.prems(2)] by auto
      from inner_end [OF _ o4(3), of E] more o4 o3 Some show ?thesis by (simp add: credentials_def)
    qed
    with True q(1) p(1) o3(1) show ?thesis by (simp add: entry_of_def)
  next
    case False
    obtain p where p: "netrc_run E Outer q = netrc_run E Outer p" "n_rest p = ?r3" "\<not> n_eof p" "\<not> n_default p"
      "n_name p = None" "n_pass p = None" "n_acct p = None"
      using outer_pair [OF q(2-4) seps(2) plain_keywords(2) _ wf(2), of E] q(5-7) plain_keywords by auto
    obtain o3 where o3: "netrc_run E Outer p = netrc_run E Outer o3" "n_rest o3 = r4" "\<not> n_eof o3" "\<not> n_default o3"
      "n_name o3 = None" "n_pass o3 = None" "n_acct o3 = None"
      using outer_pair [OF p(2-4) d3 plain_keywords(3) _ wf(3), of E] p(5-7) plain_keywords by auto
    have "\<exists>o4. netrc_run E Outer o3 = netrc_run E Outer o4 \<and> n_rest o4 = ?more \<and> \<not> n_eof o4 \<and> \<not> n_default o4 \<and>
        credentials o4 = (None, None, None)"
    proof (cases "he_acct e")
      case None
      with o3 show ?thesis by (auto simp: r4_def credentials_def)
    next
      case (Some a)
      then have t: "n_rest o3 = ''account'' @ CHR '' '' # a @ nl # ?more" using o3(2) by (simp add: r4_def)
      from outer_pair [OF t o3(3,4) seps(1) plain_keywords(4) _ wf(4) [OF Some], of E] o3(5-7) plain_keywords
      show ?thesis by (auto simp: credentials_def)
    qed
    then obtain o4 where o4: "netrc_run E Outer o3 = netrc_run E Outer o4" "n_rest o4 = ?more" "\<not> n_eof o4"
      "\<not> n_default o4" "credentials o4 = (None, None, None)"
      by blast
    have "list_all wf_entry es" using Cons.prems(1) by simp
    from Cons.IH [OF this Cons.prems(2) o4(2-5)] q(1) p(1) o3(1) o4(1) False show ?thesis
      by (simp add: entry_of_def)
  qed
qed

end
