(* ===== verification/Ftp_Properties.thy ===== *)
theory Ftp_Properties
  imports Ftp_Paths Ftp_Mapping Ftp_Reply Ftp_Listing Ftp_Hosts "HOL-Library.Sublist"
begin

text \<open>
  The properties of the file transfer client: where the files of a multiple get go, what a list
  of names from a server may hold, the reading of replies, the conversion of text, the name mapping of the manual.
\<close>

section \<open>Names\<close>

lemma path_comps_ne [simp]: "path_comps s \<noteq> []"
  by (cases s rule: path_split) (auto simp: path_comps_plain path_comps_slash)

lemma pathprotect_dots: "''..'' \<notin> set (path_comps (pathprotect s))"
  by (auto simp: pathprotect_comps no_dots_def)

lemma pipeprotect_comps: "''..'' \<notin> set (path_comps s) \<Longrightarrow> ''..'' \<notin> set (path_comps (pipeprotect s))"
proof -
  have "path_comps (''.'' @ s) = (''.'' @ hd (path_comps s)) # tl (path_comps s)" if "take 1 s = ''/''"
    using that by (cases s) (simp_all add: path_comps_def)
  moreover have "hd (path_comps s) = []" if "take 1 s = ''/''"
    using that by (cases s) (simp_all add: path_comps_def)
  ultimately show "''..'' \<notin> set (path_comps s) \<Longrightarrow> ?thesis"
    by (auto simp: pipeprotect_def dest: list.set_sel(2) [OF path_comps_ne])
qed

lemma pipeprotect_plain:
  "take 1 (pipeprotect s) \<noteq> ''/'' \<and> take 1 (pipeprotect s) \<noteq> ''|'' \<and> pipeprotect s \<noteq> ''-''"
  by (simp add: pipeprotect_def)

text \<open>C5: whatever name a server sends and whatever translations the user asked for, the local name of a
  file in a multiple get has no component .., does not begin with a slash and is not one of the
  special names - and |command.\<close>

theorem mget_stays_inside:
  "''..'' \<notin> set (path_comps (mget_name opt stale cp)) \<and> take 1 (mget_name opt stale cp) \<noteq> ''/'' \<and>
   take 1 (mget_name opt stale cp) \<noteq> ''|'' \<and> mget_name opt stale cp \<noteq> ''-''"
  unfolding mget_name_def Let_def
  by (intro conjI pipeprotect_comps pathprotect_dots; simp only: pipeprotect_plain not_False_eq_True)

text \<open>If no component of the pattern begins with a dot, a list of names that is accepted holds only names
  that begin with a slash just when the pattern does, that are no commands, and that have no .. before
  their last component.\<close>

theorem checkglob_safe:
  assumes "checkglob pattern names" "n \<in> set names" "''.'' \<notin> take 1 ` set (path_comps pattern)"
  shows "(take 1 n = ''/'' \<longleftrightarrow> take 1 pattern = ''/'') \<and> take 1 n \<noteq> ''|'' \<and> ''..'' \<notin> set (butlast (path_comps n))"
proof -
  let ?starts = "comp_starts pattern"
  have ok: "name_ok (take 1 pattern = ''/'') (map isdotdotglob ?starts) n"
    using assms(1,2) by (simp add: checkglob_def Let_def)
  have no: "\<not> isdotdotglob t" if "t \<in> set ?starts" for t
    using comp_starts_comps [OF that] assms(3) by (cases t) (auto simp: isdotdotglob_def image_iff)
  have "\<not> up_comp t" if t: "t \<in> set (comp_starts n)" for t
  proof -
    obtain nr where "nr < length (comp_starts n)" "t = comp_starts n ! nr" using t by (auto simp: in_set_conv_nth)
    moreover from this ok have "up_comp t \<Longrightarrow> nr < length ?starts \<and> isdotdotglob (?starts ! nr)"
      by (auto simp: name_ok_def Let_def)
    ultimately show ?thesis using no by (auto simp: in_set_conv_nth)
  qed
  then have "''..'' \<notin> set (butlast (path_comps n))"
    using comp_in_starts [of "''..''" n] by (fastforce simp: up_comp_def)
  with ok show ?thesis by (auto simp: name_ok_def)
qed

theorem checkglob_safe_witness:
  "checkglob ''src/*.c'' [''src/a.c'', ''src/b.c''] \<and> ''..'' \<notin> set (butlast (path_comps ''src/b.c''))"
proof -
  have "checkglob ''src/*.c'' [''src/a.c'', ''src/b.c'']" by code_simp
  moreover have "''.'' \<notin> take 1 ` set (path_comps ''src/*.c'')" by code_simp
  ultimately show ?thesis using checkglob_safe [of "''src/*.c''" "[''src/a.c'', ''src/b.c'']" "''src/b.c''"] by simp
qed

text \<open>A name that ends in .. is not found out.\<close>

lemma checkglob_last_dotdot: "checkglob ''*'' [''..''] \<and> checkglob ''src/*'' [''src/..'']"
  by code_simp

text \<open>A pattern .x/* does not match .. yet lets ../ pass.\<close>

lemma checkglob_dot_pattern: "checkglob ''.x/*'' [''../evil'']"
  by code_simp

text \<open>When the directory is writable, the name found is the first of name.1 to name.99 that is not in use, and
  the search gives up only if all are.\<close>

theorem gunique_finds:
  "gunique used True local = find (\<lambda>x. \<not> used x) (map (\<lambda>i. local @ ''.'' @ decimal i) [1..<100])"
  by (simp add: gunique_def unique_loop_tried tried_numbers del: upt_Suc) (simp add: comp_def)

section \<open>Replies\<close>

text \<open>A line as \<open>getreply\<close> reads it.\<close>

definition plain_line :: "byte list \<Rightarrow> bool" where
  "plain_line l \<longleftrightarrow> ch_NL \<notin> set l \<and> ch_IAC \<notin> set l"

lemma reply_line_plain: "plain_line l \<Longrightarrow> reply_line (l @ ch_NL # rest) r = (Line, fold reply_char l r, rest)"
  by (induction l arbitrary: r) (auto simp: plain_line_def)

definition line_code :: "byte list \<Rightarrow> int" where
  "line_code l = fold (\<lambda>c v. if isdigit c then v * 10 + (int (unat c) - 48) else v) (take 3 l) 0"

definition dashed :: "byte list \<Rightarrow> bool" where
  "dashed l \<longleftrightarrow> 3 < length l \<and> l ! 3 = 45"

lemma line_code_snoc:
  "line_code (l @ [c]) = (if length l < 3 \<and> isdigit c then line_code l * 10 + (int (unat c) - 48) else line_code l)"
  by (cases "3 - length l") (simp_all add: line_code_def)

lemma dashed_snoc: "dashed (l @ [c]) \<longleftrightarrow> dashed l \<or> length l = 3 \<and> c = 45"
  by (auto simp: dashed_def nth_append)

lemma dashed_short: "length l \<le> 3 \<Longrightarrow> \<not> dashed l"
  by (simp add: dashed_def)

lemma pasv_char_frame [frame_simps]:
  "r_code (pasv_char c r) = r_code r" "r_n (pasv_char c r) = r_n r" "r_dig (pasv_char c r) = r_dig r"
  "r_cont (pasv_char c r) = r_cont r" "r_orig (pasv_char c r) = r_orig r"
  "r_text (pasv_char c r) = r_text r" "r_sent (pasv_char c r) = r_sent r"
  by (simp_all add: pasv_char_def Let_def)

lemma reply_char_fields:
  "r_dig (reply_char c r) = r_dig r + 1"
  "r_code (reply_char c r) =
     (if r_dig r = 3 \<and> c = 45 \<and> r_cont r \<noteq> 0 then 0
      else if r_dig r < 3 \<and> isdigit c then r_code r * 10 + (int (unat c) - 48) else r_code r)"
  "r_cont (reply_char c r) = (if r_dig r = 3 \<and> c = 45 then r_cont r + 1 else r_cont r)"
  "r_n (reply_char c r) = (if r_n r = 0 then c else r_n r)"
  "r_text (reply_char c r) = (if length (r_text r) < BUFSIZ - 1 then r_text r @ [c] else r_text r)"
  "r_orig (reply_char c r) = r_orig r" "r_sent (reply_char c r) = r_sent r"
  by (simp_all add: reply_char_def Let_def frame_simps)

text \<open>What a line leaves in the variables.\<close>

lemma line_dig: "r_dig (fold reply_char l (new_line r)) = length l"
  by (induction l rule: rev_induct) (simp_all add: reply_char_fields new_line_def)

lemma line_start:
  "r_cont (new_line r) = r_cont r" "r_code (new_line r) = 0" "r_n (new_line r) = 0"
  "r_text (new_line r) = []" "r_orig (new_line r) = r_orig r"
  by (simp_all add: new_line_def)

lemma line_cont: "r_cont (fold reply_char l (new_line r)) = r_cont r + (if dashed l then 1 else 0)"
  by (induction l rule: rev_induct)
    (auto simp: reply_char_fields line_dig dashed_snoc dashed_short line_start)

lemma line_code:
  "r_code (fold reply_char l (new_line r)) = (if dashed l \<and> r_cont r \<noteq> 0 then 0 else line_code l)"
proof (induction l rule: rev_induct)
  case Nil
  show ?case by (simp add: new_line_def line_code_def)
next
  case (snoc c l)
  show ?case
  proof (cases "length l = 3 \<and> c = 45")
    case True
    then show ?thesis
      using snoc dashed_short [of l] by (simp add: reply_char_fields line_dig line_cont dashed_snoc line_code_snoc)
  next
    case False
    then show ?thesis
      using snoc dashed_short [of l]
      by (cases "length l < 3") (auto simp: reply_char_fields line_dig line_cont dashed_snoc line_code_snoc)
  qed
qed

lemma line_n:
  "r_n (fold reply_char l (new_line r)) = (case find (\<lambda>c. c \<noteq> 0) l of None \<Rightarrow> 0 | Some c \<Rightarrow> c)"
proof (induction l rule: rev_induct)
  case Nil
  show ?case by (simp add: new_line_def)
next
  case (snoc c l)
  have "find (\<lambda>c. c \<noteq> 0) l = Some d \<Longrightarrow> d \<noteq> 0" for d by (auto dest: find_Some_set)
  with snoc show ?case by (auto simp: reply_char_fields find_append split: option.splits)
qed

lemma line_text: "r_text (fold reply_char l (new_line r)) = take (BUFSIZ - 1) l"
  by (induction l rule: rev_induct) (auto simp: reply_char_fields new_line_def)

lemma line_orig: "r_orig (fold reply_char l (new_line r)) = r_orig r"
  by (induction l rule: rev_induct) (auto simp: reply_char_fields new_line_def)

lemmas line_fields = line_cont line_code line_n line_text line_orig

text \<open>One turn of the loop.\<close>

lemma loop_line:
  assumes "plain_line l" "q = fold reply_char l (new_line r)"
  shows "getreply_loop e (l @ ch_NL # rest) r =
    (if r_cont q \<noteq> 0 \<and> r_code q \<noteq> r_orig r
     then getreply_loop e rest (if r_orig r = 0 then q\<lparr>r_orig := r_code q\<rparr> else q)
     else (\<lparr>rr_value = int (unat (r_n q)) - 48, rr_code = r_code q,
            rr_lost = (r_code q = 421 \<or> r_orig r = 421), rr_done = (r_n q \<noteq> 49), rr_vars = q\<rparr>, rest))"
  by (subst getreply_loop.simps) (simp add: reply_line_plain assms line_orig)

text \<open>The lines of a reply with the given digits, as the protocol has them.\<close>

definition last_line :: "byte list \<Rightarrow> byte list \<Rightarrow> bool" where
  "last_line ds l \<longleftrightarrow> take 3 l = ds \<and> \<not> dashed l"

definition reply_lines :: "byte list \<Rightarrow> byte list list \<Rightarrow> byte list \<Rightarrow> bool" where
  "reply_lines ds ls lst \<longleftrightarrow>
     length ds = 3 \<and> list_all isdigit ds \<and> hd ds \<noteq> 48 \<and> list_all plain_line (ls @ [lst]) \<and> last_line ds lst \<and>
     (case ls of [] \<Rightarrow> True | f # ms \<Rightarrow> take 3 f = ds \<and> dashed f \<and> list_all (\<lambda>l. \<not> last_line ds l) ms)"

lemma isdigit_uint: "isdigit c \<longleftrightarrow> 48 \<le> uint c \<and> uint c \<le> 57"
proof -
  have "int (unat c) = uint c" by simp
  then show ?thesis unfolding isdigit_def by linarith
qed

lemma three_digits:
  fixes x y z a b c :: int
  assumes "100 * x + 10 * y + z = 100 * a + 10 * b + c"
    "48 \<le> x" "x \<le> 57" "48 \<le> y" "y \<le> 57" "48 \<le> z" "z \<le> 57"
    "48 \<le> a" "a \<le> 57" "48 \<le> b" "b \<le> 57" "48 \<le> c" "c \<le> 57"
  shows "x = a \<and> y = b \<and> z = c"
proof -
  have "x = a" by (rule antisym; rule ccontr) (use assms in linarith)+
  note xa = this
  have yb: "y = b" by (rule antisym; rule ccontr) (use assms xa in linarith)+
  show ?thesis using assms xa yb by simp
qed

lemma line_code_three:
  assumes "length ds = 3" "list_all isdigit ds" "hd ds \<noteq> 48"
  shows "100 \<le> line_code ds" "line_code l = line_code ds \<Longrightarrow> take 3 l = ds"
    "line_code ds = 100 * (int (unat (ds ! 0)) - 48) + 10 * (int (unat (ds ! 1)) - 48) + (int (unat (ds ! 2)) - 48)"
proof -
  obtain a b c where ds: "ds = [a, b, c]"
    using assms(1) by (cases ds; cases "tl ds"; cases "tl (tl ds)") auto
  have dig: "isdigit a" "isdigit b" "isdigit c" using assms(2) ds by simp_all
  have a: "uint a \<noteq> 48" using assms(3) ds word_uint_eq_iff [of a 48] by simp
  show val: "line_code ds =
      100 * (int (unat (ds ! 0)) - 48) + 10 * (int (unat (ds ! 1)) - 48) + (int (unat (ds ! 2)) - 48)"
    using dig by (simp add: ds line_code_def)
  show ge: "100 \<le> line_code ds" unfolding val using dig a by (simp add: ds isdigit_uint)
  show "take 3 l = ds" if eq: "line_code l = line_code ds"
  proof (cases "3 \<le> length l")
    case False
    then consider "l = []" | x where "l = [x]" | x y where "l = [x, y]"
      by (cases l; cases "tl l"; cases "tl (tl l)") auto
    then have "line_code l < 100" by cases (auto simp: line_code_def isdigit_uint)
    with eq ge show ?thesis by simp
  next
    case True
    then obtain x y z r where l: "l = x # y # z # r"
      by (cases l; cases "tl l"; cases "tl (tl l)") auto
    show ?thesis
    proof (cases "isdigit x \<and> isdigit y \<and> isdigit z")
      case True
      then have "100 * uint x + 10 * uint y + uint z = 100 * uint a + 10 * uint b + uint c"
        using eq dig by (simp add: l ds line_code_def)
      from three_digits [OF this] True dig have "uint x = uint a \<and> uint y = uint b \<and> uint z = uint c"
        by (simp add: isdigit_uint)
      then show ?thesis by (simp add: l ds word_uint_eq_iff)
    next
      case False
      then have "line_code l < 100" by (auto simp: l line_code_def isdigit_uint)
      with eq ge show ?thesis by simp
    qed
  qed
qed

lemma line_code_ds: "take 3 l = ds \<Longrightarrow> line_code l = line_code ds"
  by (auto simp: line_code_def)

lemma digits_n:
  assumes "list_all isdigit ds" "take 3 l = ds" "length ds = 3"
  shows "(case find (\<lambda>c. c \<noteq> 0) l of None \<Rightarrow> 0 | Some c \<Rightarrow> c) = hd ds"
proof -
  obtain a as where "ds = a # as" using assms(3) by (cases ds) auto
  moreover from this obtain xs where "l = a # xs" using assms(2) by (cases l) auto
  moreover have "isdigit a" using assms(1) \<open>ds = a # as\<close> by simp
  then have "a \<noteq> 0" by (auto simp: isdigit_def)
  ultimately show ?thesis by simp
qed

text \<open>The lines between the first and the last of a long reply.\<close>

lemma loop_continued:
  assumes "length ds = 3" "list_all isdigit ds" "hd ds \<noteq> 48" "last_line ds lst" "plain_line lst"
  shows "list_all plain_line ms \<Longrightarrow> list_all (\<lambda>l. \<not> last_line ds l) ms \<Longrightarrow> r_cont r \<noteq> 0 \<Longrightarrow> r_orig r = line_code ds \<Longrightarrow>
    \<exists>q. getreply_loop e (concat (map (\<lambda>l. l @ [ch_NL]) ms) @ lst @ ch_NL # rest) r =
      (\<lparr>rr_value = int (unat (hd ds)) - 48, rr_code = line_code ds, rr_lost = (line_code ds = 421),
         rr_done = (hd ds \<noteq> 49), rr_vars = q\<rparr>, rest) \<and> r_text q = take (BUFSIZ - 1) lst"
proof (induction ms arbitrary: r)
  case Nil
  let ?q = "fold reply_char lst (new_line r)"
  have l: "take 3 lst = ds" "\<not> dashed lst" using assms(4) by (simp_all add: last_line_def)
  have "r_code ?q = line_code ds" "r_n ?q = hd ds" "r_orig ?q = line_code ds"
    using line_code_ds [OF l(1)] digits_n [OF assms(2) l(1) assms(1)] Nil(4) l(2) by (simp_all add: line_fields)
  then show ?case
    using loop_line [OF assms(5) refl, of e rest r] Nil(4) by (simp add: line_text)
next
  case (Cons l ms)
  let ?q = "fold reply_char l (new_line r)"
  have "r_code ?q \<noteq> line_code ds"
    using line_code_three [OF assms(1-3)] Cons.prems(2,3) by (auto simp: line_code last_line_def)
  moreover have "r_cont ?q \<noteq> 0" "r_orig ?q = line_code ds" using Cons.prems(3,4) by (simp_all add: line_fields)
  moreover have "line_code ds \<noteq> 0" using line_code_three(1) [OF assms(1-3)] by simp
  moreover have "plain_line l" using Cons.prems(1) by simp
  ultimately have "getreply_loop e (concat (map (\<lambda>l. l @ [ch_NL]) (l # ms)) @ lst @ ch_NL # rest) r =
      getreply_loop e (concat (map (\<lambda>l. l @ [ch_NL]) ms) @ lst @ ch_NL # rest) ?q"
    using loop_line [OF _ refl, of l e "concat (map (\<lambda>l. l @ [ch_NL]) ms) @ lst @ ch_NL # rest" r] Cons.prems(4) by simp
  with Cons.IH [of ?q] Cons.prems(1,2) \<open>r_cont ?q \<noteq> 0\<close> \<open>r_orig ?q = line_code ds\<close> show ?case by simp
qed

text \<open>A reply of one line or of several is read to its end: what is returned is the first digit of
  its code, the code and the last line, nothing of what follows is consumed, the connection is given up just for 421, and the
  next reply is awaited just for a preliminary one.\<close>

theorem reply_read:
  assumes "reply_lines ds ls lst"
  shows "\<exists>q. getreply e (concat (map (\<lambda>l. l @ [ch_NL]) ls) @ lst @ [ch_NL] @ rest) =
      (\<lparr>rr_value = int (unat (hd ds)) - 48, rr_code = line_code ds, rr_lost = (line_code ds = 421),
         rr_done = (hd ds \<noteq> 49), rr_vars = q\<rparr>, rest) \<and> r_text q = take (BUFSIZ - 1) lst"
proof -
  let ?r0 = "\<lparr>r_code = 0, r_n = 0, r_dig = 0, r_cont = 0, r_orig = 0, r_pflag = 0, r_pasv = [], r_text = [], r_sent = []\<rparr>"
  have d: "length ds = 3" "list_all isdigit ds" "hd ds \<noteq> 48" "last_line ds lst" "plain_line lst"
    using assms by (simp_all add: reply_lines_def)
  have l: "take 3 lst = ds" "\<not> dashed lst" using d(4) by (simp_all add: last_line_def)
  show ?thesis
  proof (cases ls)
    case Nil
    let ?q = "fold reply_char lst (new_line ?r0)"
    have "r_code ?q = line_code ds" "r_n ?q = hd ds" "r_cont ?q = 0"
      using line_code_ds [OF l(1)] digits_n [OF d(2) l(1) d(1)] l(2) by (simp_all add: line_fields)
    then show ?thesis
      using loop_line [OF d(5) refl, of e rest ?r0] Nil by (simp add: getreply_def line_text)
  next
    case (Cons f ms)
    let ?q = "fold reply_char f (new_line ?r0)"
    let ?more = "concat (map (\<lambda>l. l @ [ch_NL]) ms) @ lst @ ch_NL # rest"
    have f: "take 3 f = ds" "dashed f" "plain_line f" "list_all plain_line ms" "list_all (\<lambda>l. \<not> last_line ds l) ms"
      using assms Cons by (simp_all add: reply_lines_def)
    have "r_code ?q = line_code ds" "r_cont ?q = 1" "line_code ds \<noteq> 0"
      using line_code_ds [OF f(1)] f(2) line_code_three(1) [OF d(1-3)] by (simp_all add: line_fields)
    then have "getreply_loop e (f @ ch_NL # ?more) ?r0 = getreply_loop e ?more (?q\<lparr>r_orig := line_code ds\<rparr>)"
      using loop_line [OF f(3) refl, of e ?more ?r0] by simp
    moreover have "getreply e (concat (map (\<lambda>l. l @ [ch_NL]) ls) @ lst @ [ch_NL] @ rest) = getreply_loop e (f @ ch_NL # ?more) ?r0"
      using Cons by (simp add: getreply_def)
    ultimately show ?thesis
      using loop_continued [OF d f(4,5), of "?q\<lparr>r_orig := line_code ds\<rparr>" e rest] \<open>r_cont ?q = 1\<close> by simp
  qed
qed

text \<open>A reply 230 of three lines, the second of which looks like its end but is indented.\<close>

theorem reply_read_witness:
  "reply_lines [50, 51, 48] [[50, 51, 48, 45, 72], [32, 50, 51, 48, 32]] [50, 51, 48, 32, 79, 75] \<and>
   (let (res, rest) = getreply False
          [50, 51, 48, 45, 72, 10, 32, 50, 51, 48, 32, 10, 50, 51, 48, 32, 79, 75, 10, 50]
    in rr_value res = 2 \<and> rr_code res = 230 \<and> rest = [50])"
proof -
  have r: "reply_lines [50, 51, 48] [[50, 51, 48, 45, 72], [32, 50, 51, 48, 32]] [50, 51, 48, 32, 79, 75]"
    by code_simp
  have "line_code [50, 51, 48] = 230" by code_simp
  with reply_read [OF r, of False "[50]"] r show ?thesis by (auto simp: ch_NL_def)
qed

section \<open>The name mapping\<close>

text \<open>A name of fields is mapped as the manual says: every $i of the template stands for the i-th field and $0 for
  the name, a choice in brackets for its first alternative that is not an empty field, and a mapping
  to nothing leaves the name as it is.\<close>

theorem domap_manual:
  assumes "length xs \<le> n" "n \<le> 9" "\<forall>x\<in>set xs. s \<notin> set x" "list_all wf_piece ps"
  shows "domap (field_pattern s 1 n) (concat (map show_piece ps)) (join_with s xs) =
    (let new = concat (map (piece_text (field_value (join_with s xs) xs)) ps)
     in if new = [] then join_with s xs else new)"
  using assms refl by (rule domap_fields)

text \<open>The examples of the manual.\<close>

theorem domap_manual_witness:
  "domap ''$1.$2.$3'' ''[$1,$2].[$2,file]'' ''myfile.data'' = ''myfile.data'' \<and>
   domap ''$1.$2.$3'' ''[$1,$2].[$2,file]'' ''myfile.data.old'' = ''myfile.data'' \<and>
   domap ''$1.$2.$3'' ''[$1,$2].[$2,file]'' ''myfile'' = ''myfile.file'' \<and>
   domap ''$1.$2.$3'' ''[$1,$2].[$2,file]'' ''.myfile'' = ''myfile.myfile''"
proof -
  let ?ps = "[Choice [Field 1, Field 2], Literal CHR ''.'', Choice [Field 2, Verbatim ''file'']]"
  have show_in: "field_pattern CHR ''.'' 1 3 = ''$1.$2.$3''" by code_simp
  have show_out: "concat (map show_piece ?ps) = ''[$1,$2].[$2,file]''" by code_simp
  have "domap ''$1.$2.$3'' ''[$1,$2].[$2,file]'' (join_with CHR ''.'' xs) =
      (let new = concat (map (piece_text (field_value (join_with CHR ''.'' xs) xs)) ?ps)
       in if new = [] then join_with CHR ''.'' xs else new)"
    if "length xs \<le> 3" "list_all (list_all (\<lambda>c. c \<noteq> CHR ''.'')) xs" for xs
    using domap_manual [of xs 3 "CHR ''.''" ?ps] that unfolding show_in show_out
    by (auto simp: list_all_iff)
  note this [of "[''myfile'', ''data'']"] this [of "[''myfile'', ''data'', ''old'']"]
    this [of "[''myfile'']"] this [of "[[], ''myfile'']"]
  then show ?thesis by (simp add: field_value_def)
qed

text \<open>In brackets a backslash does not protect a comma, and the digit of a field that does not come first is
  written as well.\<close>

lemma choice_escape: "domap ''$1'' (''[a'' @ [CHR 0x5C] @ '',b]'') ''x'' = ''a''"
  by code_simp

lemma choice_digit: "domap ''$1'' ''[a$1]'' ''x'' = ''ax1''"
  by code_simp

section \<open>File name expansion\<close>

text \<open>C37: on a well-formed pattern without slashes, with classes and nested braces, the matcher accepts exactly the
  names of the pattern's language, whatever the state it starts from.\<close>

theorem amatch_decides:
  "wf_items is \<Longrightarrow> list_all ascii s \<Longrightarrow> fst (amatch E ent s (show_items is) g) \<longleftrightarrow> s \<in> lang is"
  by (rule amatch_lang)

definition small_env :: "string \<Rightarrow> (nat \<times> string) list \<Rightarrow> glob_env" where
  "small_env dir ents = \<lparr>ge_home = ''/root'', ge_gethdir = (\<lambda>_. None), ge_exists = (\<lambda>p. p = dir), ge_isdir = (\<lambda>p. p = dir),
     ge_opendir = (\<lambda>p. if p = dir then Some ents else None)\<rparr>"

text \<open>The pattern \<open>*.{[ch],txt}\<close>.\<close>

theorem amatch_decides_witness:
  "fst (amatch (small_env [] []) [] ''a.h'' ''*.{[ch],txt}'' glob_init) \<and>
   \<not> fst (amatch (small_env [] []) [] ''a.o'' ''*.{[ch],txt}'' glob_init)"
proof -
  let ?is = "[Many, Ch CHR ''.'', Braces [[Class [One CHR ''c'', One CHR ''h'']], [Ch CHR ''t'', Ch CHR ''x'', Ch CHR ''t'']]]"
  have shown: "show_items ?is = ''*.{[ch],txt}''" by (simp add: show_items_def)
  have wf: "wf_items ?is" by code_simp
  have names: "list_all ascii ''a.h''" "list_all ascii ''a.o''" by code_simp+
  have iff: "''a.h'' \<in> lang ?is" "''a.o'' \<notin> lang ?is"
    by (auto simp: mem_lang_Many mem_lang_Ch mem_lang_Class lang_braces lang_simps(1) Cons_eq_append_conv)
  from amatch_decides [OF wf names(1)] amatch_decides [OF wf names(2)] iff show ?thesis
    unfolding shown by simp
qed

text \<open>A pattern without braces in a directory is expanded to the names of the entries it stands for, in order, with
  hidden entries only for a pattern that begins with a dot; to nothing if there is none; and without an error, as
  long as they fit the argument list.\<close>

theorem ftpglob_lists:
  assumes "wf_items is" "flat is" "\<exists>i\<in>set is. \<forall>c. i \<noteq> Ch c" "dir_prefix dir"
    "length dir + length (show_items is) \<le> LASTGPATH" "take 1 (dir @ show_items is) \<noteq> ''~''"
    "ge_opendir E (if dir = [] then ''./'' else dir) = Some ents" "ge_isdir E (if dir = [] then ''./'' else dir)"
    "\<forall>(ino, name)\<in>set ents. list_all ascii name"
    "room dir (found is ents) < ARGMAX - 4" "length (found is ents) \<le> GAVSIZ - 1"
  shows "fst (ftpglob E (dir @ show_items is)) =
      (if found is ents = [] then None else Some (sort (map (\<lambda>n. dir @ n) (found is ents)))) \<and>
    g_err (snd (ftpglob E (dir @ show_items is))) = None"
  using ftpglob_found [OF assms] by blast

theorem ftpglob_lists_witness:
  "fst (ftpglob (small_env ''d/'' [(1, ''.x.c''), (2, ''b.c''), (3, ''a.c''), (4, ''a.o'')]) ''d/*.c'')
     = Some [''d/a.c'', ''d/b.c'']"
proof -
  let ?is = "[Many, Ch CHR ''.'', Ch CHR ''c'']"
  let ?ents = "[(1, ''.x.c''), (2, ''b.c''), (3, ''a.c''), (4, ''a.o'')]"
  have shown: "''d/'' @ show_items ?is = ''d/*.c''" by (simp add: show_items_def)
  have found: "found ?is ?ents = [''b.c'', ''a.c'']"
    by (auto simp: found_def show_items_def mem_lang_Many mem_lang_Ch lang_simps(1) Cons_eq_append_conv)
  have sorted: "sort (map (\<lambda>n. ''d/'' @ n) [''b.c'', ''a.c'']) = [''d/a.c'', ''d/b.c'']" by code_simp
  have "wf_items ?is" "flat ?is" "\<exists>i\<in>set ?is. \<forall>c. i \<noteq> Ch c" "dir_prefix ''d/''"
    "length ''d/'' + length (show_items ?is) \<le> LASTGPATH" "take 1 (''d/'' @ show_items ?is) \<noteq> ''~''"
    "\<forall>(ino, name)\<in>set ?ents. list_all ascii name"
    by (simp_all add: plain_char_def ascii_def flat_def dir_prefix_def globchar_def LASTGPATH_def show_items_def)
  note pre = this
  show ?thesis
    using ftpglob_lists [of ?is "''d/''" "small_env ''d/'' ?ents" ?ents] pre
    by (simp only: found shown sorted) (simp add: small_env_def ARGMAX_def GAVSIZ_def sorted [simplified])
qed

text \<open>A component with two asterisks is expanded once for every way it matches.\<close>

lemma asterisks_repeat:
  "fst (ftpglob ((small_env ''./'' [(1, ''aa'')])\<lparr>ge_exists := (\<lambda>_. True), ge_isdir := (\<lambda>_. True)\<rparr>) ''*a*/'')
     = Some [''aa/'', ''aa/'']"
  by (simp add: small_env_def ftpglob_def glob_flags_def collect_def glob_init_def globchar_def expand.simps expand_start_def
      tilde_def addpath_def LASTGPATH_def Let_def amatch.simps match_step_def name_char_def TRIM_def schar_def star.simps
      slash.simps Gcat_def ARGMAX_def GAVSIZ_def glob_sort_def brace_alts_def)

section \<open>The file of passwords\<close>

text \<open>C38: nothing secret is taken from a file that others than its owner may get at: whatever it holds, the account stays
  what it was, and so does the password unless the user is anonymous.\<close>

theorem netrc_private:
  assumes "exposed E"
  shows "n_acct (snd (xruserpass E file name pass acct macs)) = acct \<and>
    (n_pass (snd (xruserpass E file name pass acct macs)) = pass \<or>
     n_name (snd (xruserpass E file name pass acct macs)) = Some ''anonymous'')"
proof -
  have start: "kept pass acct \<lparr>n_rest = r, n_eof = False, n_tokval = [], n_default = False, n_name = name, n_pass = pass,
      n_acct = acct, n_macros = macs, n_overrun = False\<rparr>" for r
    by (simp add: kept_def)
  then have "kept pass acct (snd (xruserpass E file name pass acct macs))"
    unfolding xruserpass_def Let_def by (cases "file") (simp_all add: kept_run [OF assms])
  then show ?thesis by (simp add: kept_def)
qed

definition sample_netrc :: "string \<Rightarrow> u32 \<Rightarrow> netrc_env" where
  "sample_netrc host mode = \<lparr>ne_host = host, ne_hostname = host, ne_domain = ''.org'', ne_mode = Some mode,
     ne_proxy = False, ne_before = False\<rparr>"

theorem netrc_private_witness:
  "n_pass (snd (xruserpass (sample_netrc ''a.org'' 0x1A4) (Some ''machine a.org login u password s'') None None None [])) = None"
proof -
  let ?E = "sample_netrc ''a.org'' 0x1A4"
  have "exposed ?E" by (simp add: exposed_def sample_netrc_def has_def)
  moreover have "n_name (snd (xruserpass ?E (Some ''machine a.org login u password s'') None None None [])) \<noteq> Some ''anonymous''"
    by code_simp
  ultimately show ?thesis using netrc_private by blast
qed

text \<open>From a private file of entries the user, password and account of the first entry for the host are taken, and
  nothing if there is none.\<close>

theorem netrc_first_entry:
  assumes "list_all wf_entry es" "\<not> exposed E"
  shows "fst (xruserpass E (Some (concat (map entry_text es))) None None None macs) \<and>
    credentials (snd (xruserpass E (Some (concat (map entry_text es))) None None None macs)) = entry_of E es"
  unfolding xruserpass_def Let_def option.case
  by (rule run_entries [OF assms]) (simp_all add: credentials_def)

theorem netrc_first_entry_witness:
  "credentials (snd (xruserpass (sample_netrc ''b.org'' 0x180)
      (Some (entry_text \<lparr>he_machine = ''a.org'', he_login = ''u'', he_pass = ''s'', he_acct = None\<rparr> @
             entry_text \<lparr>he_machine = ''B'', he_login = ''v'', he_pass = ''t'', he_acct = Some ''x''\<rparr>)) None None None []))
    = (Some ''v'', Some ''t'', Some ''x'')"
proof -
  let ?es = "[\<lparr>he_machine = ''a.org'', he_login = ''u'', he_pass = ''s'', he_acct = None\<rparr>,
    \<lparr>he_machine = ''B'', he_login = ''v'', he_pass = ''t'', he_acct = Some ''x''\<rparr>]"
  have "list_all wf_entry ?es" by code_simp
  moreover have "\<not> exposed (sample_netrc ''b.org'' 0x180)" by (simp add: exposed_def sample_netrc_def has_def)
  moreover have "entry_of (sample_netrc ''b.org'' 0x180) ?es = (Some ''v'', Some ''t'', Some ''x'')" by code_simp
  ultimately show ?thesis using netrc_first_entry [of ?es "sample_netrc ''b.org'' 0x180" "[]"] by simp
qed

text \<open>A default entry for another user is left for the next entry with the default still in force: that entry is used
  for any host whatever, and its password goes to a machine it is not meant for.\<close>

theorem default_takes_next:
  assumes "host_word a" "host_word p" "host_word m" "host_word u" "host_word w" "u \<noteq> a" "\<not> exposed E"
  shows "n_pass (snd (xruserpass E
     (Some (''default login '' @ a @ '' password '' @ p @ [nl] @ ''machine '' @ m @ '' login '' @ u @ '' password '' @ w @ [nl]))
     (Some u) None None [])) = Some w"
proof -
  have pl: "plain_word a" "plain_word p" "plain_word m" "plain_word u" "plain_word w"
    using assms by (simp_all add: host_word_def)
  have kw: "plain_word ''default''" "classify ''default'' = T_default"
    by (simp_all add: plain_word_def tok_sep_def classify_def toktab_def)
  have sp: "tok_sep CHR '' ''" "tok_sep CHR 0x0A" by (simp_all add: tok_sep_def)
  let ?t5 = "w @ [nl]"
  let ?t4 = "''login'' @ CHR '' '' # u @ CHR '' '' # ''password'' @ CHR '' '' # ?t5"
  let ?t3 = "''machine'' @ CHR '' '' # m @ CHR '' '' # ?t4"
  let ?t2 = "''password'' @ CHR '' '' # p @ nl # ?t3"
  let ?t1 = "''login'' @ CHR '' '' # a @ CHR '' '' # ?t2"
  let ?s = "\<lparr>n_rest = ''default'' @ CHR '' '' # ?t1, n_eof = False, n_tokval = [], n_default = False, n_name = Some u,
    n_pass = None, n_acct = None, n_macros = [], n_overrun = False\<rparr>"
  let ?s1 = "(took ''default'' ?t1 ?s)\<lparr>n_default := True\<rparr>"
  let ?s2 = "took a ?t2 (took ''login'' (a @ CHR '' '' # ?t2) ?s1)"
  have one: "netrc_run E Outer ?s = netrc_run E Inner ?s1"
    using run_word [OF kw(1) sp(1), of ?s ?t1 E Outer] by (simp add: kw phase_step_def outer_step_def)
  have "token (took ''login'' (a @ CHR '' '' # ?t2) ?s1) = (T_id, ?s2)"
    using token_word [OF pl(1) sp(1)] classify_host [OF assms(1)] by simp
  then have two: "netrc_run E Inner ?s1 = netrc_run E Outer ?s2"
    using run_word [OF plain_keywords(2) sp(1), of ?s1 "a @ CHR '' '' # ?t2" E Inner] assms(6)
    by (simp add: plain_keywords phase_step_def inner_step_def)
  let ?s3 = "took p ?t3 (took ''password'' (p @ nl # ?t3) ?s2)"
  have three: "netrc_run E Outer ?s2 = netrc_run E Outer ?s3"
    using outer_skip [OF plain_keywords(3) sp(1), of ?s2 "p @ nl # ?t3" E] plain_keywords
      outer_skip [OF pl(2) seps(1), of "took ''password'' (p @ nl # ?t3) ?s2" ?t3 E] classify_host [OF assms(2)]
    by simp
  let ?s4 = "took m ?t4 (took ''machine'' (m @ CHR '' '' # ?t4) ?s3)"
  have four: "netrc_run E Outer ?s3 = netrc_run E Inner ?s4"
    using run_word [OF plain_keywords(1) sp(1), of ?s3 "m @ CHR '' '' # ?t4" E Outer] plain_keywords
      run_word [OF pl(3) sp(1), of "took ''machine'' (m @ CHR '' '' # ?t4) ?s3" ?t4 E Inner] classify_host [OF assms(3)]
    by (simp add: phase_step_def outer_step_def inner_step_def)
  let ?r4 = "''password'' @ CHR '' '' # ?t5"
  let ?s5 = "took u ?r4 (took ''login'' (u @ CHR '' '' # ?r4) ?s4)"
  have "token (took ''login'' (u @ CHR '' '' # ?r4) ?s4) = (T_id, ?s5)"
    using token_word [OF pl(4) sp(1)] classify_host [OF assms(4)] by simp
  then have five: "netrc_run E Inner ?s4 = netrc_run E Inner ?s5"
    using run_word [OF plain_keywords(2) sp(1), of ?s4 "u @ CHR '' '' # ?r4" E Inner]
    by (simp add: plain_keywords phase_step_def inner_step_def)
  obtain q where q: "netrc_run E Inner ?s5 = netrc_run E Inner q" "n_rest q = []" "\<not> n_eof q" "n_pass q = Some w"
    using inner_password [of ?s5 w nl "[]" u E] seps(1) assms(5,7) by auto
  have whole: "''default login '' @ a @ '' password '' @ p @ [nl] @ ''machine '' @ m @ '' login '' @ u @ '' password '' @ w @ [nl] =
      ''default'' @ CHR '' '' # ?t1"
    by simp
  show ?thesis
    unfolding whole xruserpass_def Let_def option.case
    using inner_end [of q E] q one two three four five by simp
qed

theorem default_takes_next_witness:
  "n_pass (snd (xruserpass (sample_netrc ''c.org'' 0x180)
     (Some (''default login g password p'' @ [nl] @ ''machine a.org login u password s'' @ [nl])) (Some ''u'') None None []))
   = Some ''s''"
  using default_takes_next [of "''g''" "''p''" "''a.org''" "''u''" "''s''" "sample_netrc ''c.org'' 0x180"]
  by (simp add: host_word_def plain_word_def tok_sep_def toktab_def exposed_def sample_netrc_def has_def)

end
