(* ===== verification/Rcp_Copy.thy ===== *)
theory Rcp_Copy
  imports Netkit_Text
begin

text \<open>
  Remote copying (\<^verbatim>\<open>netkit-rsh/rcp/rcp.c\<close>): the side that sends files (\<open>source\<close>, \<open>rsource\<close>) and the
  side that stores them (\<open>sink\<close>). Each is a function of the bytes that come from the other and says what it
  writes to it. What is sent is a tree of files; the files stored are a map from paths to files, a path
  being the string the code uses. A system call may fail wherever the surroundings say so.
\<close>

section \<open>Surroundings\<close>

type_synonym times = "(nat \<times> nat) \<times> (nat \<times> nat)"

datatype stored = SDir nat "times option" | SReg nat string "times option"

type_synonym files = "string \<Rightarrow> stored option"

datatype syscall = Mkdir string | Open string | Write string | Trunc string | Utimes string

record rcp_env =
  pflag :: bool
  recursive :: bool
  iamremote :: bool
  wantdir :: bool
  umask :: nat
  blkcnt :: nat
  fails :: "syscall \<Rightarrow> bool"
  errtext :: string

definition BUFSIZE :: nat where "BUFSIZE = 8192"
definition PATHSIZE :: nat where "PATHSIZE = 4096"

definition nul :: char where "nul = CHR 0x00"
definition newline :: char where "newline = CHR 0x0A"

definition error_text :: "string \<Rightarrow> string" where
  "error_text m = CHR 0x01 # m @ [newline]"

section \<open>Responses\<close>

datatype answer = Ok | Refused | Gone

text \<open>
  The line after the first byte of a response that is not null: at most \<open>n\<close> bytes, at least one.
\<close>

fun skip_message :: "nat \<Rightarrow> string \<Rightarrow> string option" where
  "skip_message n [] = None"
| "skip_message n (c # cs) = (if c = newline \<or> n \<le> 1 then Some cs else skip_message (n - 1) cs)"

definition response :: "string \<Rightarrow> answer \<times> string" where
  "response inp =
     (case inp of
        [] \<Rightarrow> (Gone, [])
      | c # cs \<Rightarrow>
          if c = nul then (Ok, cs)
          else (case skip_message (if c = CHR 0x01 \<or> c = CHR 0x02 then BUFSIZE else BUFSIZE - 1) cs of
                  None \<Rightarrow> (Gone, [])
                | Some r \<Rightarrow> (if c = CHR 0x01 then Refused else Gone, r)))"

section \<open>The sending side\<close>

datatype node =
    Reg nat nat string nat nat
  | Folder nat nat nat "(nat \<times> string \<times> node) list"
  | Special
  | Missing

record rcp_sender =
  s_in :: string
  s_out :: string
  s_errs :: nat
  s_buf :: string
  s_gone :: bool

definition send :: "string \<Rightarrow> rcp_sender \<Rightarrow> rcp_sender" where
  "send x s = s\<lparr>s_out := s_out s @ x\<rparr>"

definition send_error :: "rcp_env \<Rightarrow> rcp_sender \<Rightarrow> rcp_sender" where
  "send_error E s = send (error_text (errtext E)) (s\<lparr>s_errs := s_errs s + 1\<rparr>)"

definition await :: "rcp_sender \<Rightarrow> bool \<times> rcp_sender" where
  "await s =
     (case response (s_in s) of
        (Ok, r) \<Rightarrow> (True, s\<lparr>s_in := r\<rparr>)
      | (Refused, r) \<Rightarrow> (False, s\<lparr>s_in := r, s_errs := s_errs s + 1\<rparr>)
      | (Gone, r) \<Rightarrow> (False, s\<lparr>s_in := r, s_gone := True\<rparr>))"

definition octal4 :: "nat \<Rightarrow> string" where
  "octal4 m = [digit (m div 512 mod 8), digit (m div 64 mod 8), digit (m div 8 mod 8), digit (m mod 8)]"

definition last_name :: "string \<Rightarrow> string" where
  "last_name name = rev (takeWhile (\<lambda>c. c \<noteq> CHR ''/'') (rev name))"

definition time_record :: "nat \<Rightarrow> nat \<Rightarrow> string" where
  "time_record mt at = CHR ''T'' # dec mt @ '' 0 '' @ dec at @ '' 0'' @ [newline]"

definition file_record :: "char \<Rightarrow> nat \<Rightarrow> nat \<Rightarrow> string \<Rightarrow> string" where
  "file_record kind mode sz name = kind # octal4 (mode mod 4096) @ '' '' @ dec sz @ '' '' @ name @ [newline]"

text \<open>
  The blocks of a file: \<open>left\<close> bytes of \<open>st_size\<close> are to be sent, \<open>content\<close> is what can still be read, \<open>buf\<close> what
  the buffer holds. After a short read the buffer is sent as it is.
\<close>

function send_blocks :: "nat \<Rightarrow> nat \<Rightarrow> string \<Rightarrow> string \<Rightarrow> bool \<Rightarrow> string \<times> string \<times> bool" where
  "send_blocks cnt left content buf readerr =
     (if left = 0 \<or> cnt = 0 then ([], buf, readerr)
      else
        let amt = min cnt left;
            got = (if readerr then [] else take amt content);
            buf' = got @ drop (length got) buf;
            (x, b, err) = send_blocks cnt (left - amt) (drop (length got) content) buf' (readerr \<or> length got \<noteq> amt)
        in (take amt buf' @ x, b, err))"
  by pat_completeness auto
termination by (relation "measure (\<lambda>(cnt, left, content, buf, readerr). left)") auto

declare send_blocks.simps [simp del]

definition send_time :: "rcp_env \<Rightarrow> nat \<Rightarrow> nat \<Rightarrow> rcp_sender \<Rightarrow> bool \<times> rcp_sender" where
  "send_time E mt at s = (if pflag E then await (send (time_record mt at) s) else (True, s))"

definition source_file :: "rcp_env \<Rightarrow> string \<Rightarrow> nat \<Rightarrow> nat \<Rightarrow> string \<Rightarrow> nat \<Rightarrow> nat \<Rightarrow> rcp_sender \<Rightarrow> rcp_sender" where
  "source_file E name mode sz content mt at s =
     (case send_time E mt at s of
        (False, s1) \<Rightarrow> s1
      | (True, s1) \<Rightarrow>
          (case await (send (file_record CHR ''C'' mode sz (last_name name)) s1) of
             (False, s2) \<Rightarrow> s2
           | (True, s2) \<Rightarrow>
               (case send_blocks (blkcnt E) sz content (s_buf s2) False of
                  (x, b, err) \<Rightarrow>
                    let s3 = send x (s2\<lparr>s_buf := b\<rparr>)
                    in snd (await (if err then send_error E s3 else send [nul] s3)))))"

fun source :: "rcp_env \<Rightarrow> string \<Rightarrow> node \<Rightarrow> rcp_sender \<Rightarrow> rcp_sender"
  and source_entries :: "rcp_env \<Rightarrow> string \<Rightarrow> (nat \<times> string \<times> node) list \<Rightarrow> rcp_sender \<Rightarrow> rcp_sender" where
  "source E name (Reg mode sz content mt at) s =
     (if s_gone s then s else source_file E name mode sz content mt at s)"
| "source E name (Folder mode mt at ents) s =
     (if s_gone s then s
      else if \<not> recursive E then send_error E s
      else case send_time E mt at s of
        (False, s1) \<Rightarrow> s1
      | (True, s1) \<Rightarrow>
          (case await (send (file_record CHR ''D'' mode 0 (last_name name)) s1) of
             (False, s2) \<Rightarrow> s2
           | (True, s2) \<Rightarrow>
               let s3 = source_entries E name ents s2
               in if s_gone s3 then s3 else snd (await (send (CHR ''E'' # [newline]) s3))))"
| "source E name Special s = (if s_gone s then s else send_error E s)"
| "source E name Missing s = (if s_gone s then s else send_error E s)"
| "source_entries E name [] s = s"
| "source_entries E name ((ino, d_name, node) # ents) s =
     source_entries E name ents
       (if ino = 0 \<or> d_name = ''.'' \<or> d_name = ''..'' \<or> s_gone s then s
        else if length name + 1 + length d_name \<ge> PATHSIZE - 1 then send_error E s
        else source E (name @ ''/'' @ d_name) node s)"

section \<open>The storing side\<close>

record sink =
  k_in :: string
  k_out :: string
  k_files :: files
  k_errs :: nat

text \<open>The local variables of one call of \<open>sink\<close>; calls for folders inside are on a stack.\<close>

record frame =
  f_targ :: string
  f_isdir :: bool
  f_setimes :: bool
  f_tv :: times
  f_first :: bool

datatype status = Running | Finished | Exited

definition sink_reply :: "string \<Rightarrow> sink \<Rightarrow> sink" where
  "sink_reply x k = k\<lparr>k_out := k_out k @ x\<rparr>"

definition complain :: "string \<Rightarrow> sink \<Rightarrow> sink" where
  "complain m k = sink_reply (error_text m) (k\<lparr>k_errs := k_errs k + 1\<rparr>)"

definition is_dir :: "files \<Rightarrow> string \<Rightarrow> bool" where
  "is_dir F p = (case F p of Some (SDir m t) \<Rightarrow> True | _ \<Rightarrow> False)"

text \<open>The umask is in force unless modes are preserved.\<close>

definition masked :: "rcp_env \<Rightarrow> nat \<Rightarrow> nat" where
  "masked E mode = (if pflag E then mode else mode - (mode AND umask E))"

text \<open>The system calls.\<close>

definition do_mkdir :: "rcp_env \<Rightarrow> string \<Rightarrow> nat \<Rightarrow> files \<Rightarrow> files option" where
  "do_mkdir E p mode F = (if fails E (Mkdir p) \<or> F p \<noteq> None then None else Some (F(p \<mapsto> SDir (masked E mode) None)))"

definition do_open :: "rcp_env \<Rightarrow> string \<Rightarrow> nat \<Rightarrow> files \<Rightarrow> files option" where
  "do_open E p mode F =
     (if fails E (Open p) then None
      else case F p of
        None \<Rightarrow> Some (F(p \<mapsto> SReg (masked E mode) [] None))
      | Some (SDir m t) \<Rightarrow> None
      | Some (SReg m c t) \<Rightarrow> Some F)"

definition do_chmod :: "string \<Rightarrow> nat \<Rightarrow> files \<Rightarrow> files" where
  "do_chmod p mode F =
     (case F p of
        None \<Rightarrow> F
      | Some (SDir m t) \<Rightarrow> F(p \<mapsto> SDir mode t)
      | Some (SReg m c t) \<Rightarrow> F(p \<mapsto> SReg mode c t))"

definition do_write :: "string \<Rightarrow> nat \<Rightarrow> string \<Rightarrow> files \<Rightarrow> files" where
  "do_write p pos x F =
     (case F p of
        Some (SReg m c t) \<Rightarrow> F(p \<mapsto> SReg m (take pos c @ x @ drop (pos + length x) c) t)
      | _ \<Rightarrow> F)"

definition do_truncate :: "string \<Rightarrow> nat \<Rightarrow> files \<Rightarrow> files" where
  "do_truncate p n F =
     (case F p of
        Some (SReg m c t) \<Rightarrow> F(p \<mapsto> SReg m (take n c @ replicate (n - length c) nul) t)
      | _ \<Rightarrow> F)"

definition do_utimes :: "string \<Rightarrow> times \<Rightarrow> files \<Rightarrow> files" where
  "do_utimes p tv F =
     (case F p of
        None \<Rightarrow> F
      | Some (SDir m t) \<Rightarrow> F(p \<mapsto> SDir m (Some tv))
      | Some (SReg m c t) \<Rightarrow> F(p \<mapsto> SReg m c (Some tv)))"

text \<open>A call of \<open>sink\<close> begins.\<close>

definition sink_enter :: "rcp_env \<Rightarrow> string \<Rightarrow> sink \<Rightarrow> frame option \<times> sink" where
  "sink_enter E targ k =
     (if wantdir E \<and> \<not> is_dir (k_files k) targ then (None, complain (errtext E) k)
      else (Some \<lparr>f_targ = targ, f_isdir = is_dir (k_files k) targ, f_setimes = False, f_tv = ((0, 0), (0, 0)),
                  f_first = True\<rparr>,
            sink_reply [nul] k))"

text \<open>The rest of a control record, at most \<open>n\<close> bytes of it; the line feed is dropped.\<close>

fun read_record :: "nat \<Rightarrow> string \<Rightarrow> (string \<times> string) option" where
  "read_record n [] = None"
| "read_record n (c # cs) =
     (if c = newline then Some ([], cs)
      else if n \<le> 1 then Some ([c], cs)
      else map_option (\<lambda>(x, r). (c # x, r)) (read_record (n - 1) cs))"

definition isdig :: "char \<Rightarrow> bool" where
  "isdig c \<longleftrightarrow> 48 \<le> (of_char c :: nat) \<and> (of_char c :: nat) \<le> 57"

fun getnum :: "nat \<Rightarrow> string \<Rightarrow> nat \<times> string" where
  "getnum v [] = (v, [])"
| "getnum v (c # cs) = (if isdig c then getnum (v * 10 + (of_char c - 48)) cs else (v, c # cs))"

text \<open>A number and the character after it, which is the one given; else what is wrong.\<close>

definition getfield :: "string \<Rightarrow> char \<Rightarrow> string \<Rightarrow> string + nat \<times> string" where
  "getfield why d s =
     (case getnum 0 s of
        (v, []) \<Rightarrow> Inl why
      | (v, c # cs) \<Rightarrow> if c = d then Inr (v, cs) else Inl why)"

definition parse_times :: "string \<Rightarrow> string + times" where
  "parse_times s =
     (case getfield ''mtime.sec not delimited'' CHR '' '' s of Inl e \<Rightarrow> Inl e | Inr (ms, s1) \<Rightarrow>
      (case getfield ''mtime.usec not delimited'' CHR '' '' s1 of Inl e \<Rightarrow> Inl e | Inr (mu, s2) \<Rightarrow>
       (case getfield ''atime.sec not delimited'' CHR '' '' s2 of Inl e \<Rightarrow> Inl e | Inr (as, s3) \<Rightarrow>
        (case getnum 0 s3 of
           (au, s4) \<Rightarrow> if s4 = [] then Inr ((as, au), (ms, mu)) else Inl ''atime.usec not delimited''))))"

fun parse_mode :: "nat \<Rightarrow> nat \<Rightarrow> string \<Rightarrow> (nat \<times> string) option" where
  "parse_mode 0 v s = Some (v, s)"
| "parse_mode (Suc n) v [] = None"
| "parse_mode (Suc n) v (c # cs) =
     (if 48 \<le> (of_char c :: nat) \<and> (of_char c :: nat) \<le> 55 then parse_mode n (v * 8 + (of_char c - 48)) cs else None)"

text \<open>Mode, size and name of a file record, without its first character.\<close>

definition parse_file :: "string \<Rightarrow> string + nat \<times> nat \<times> string" where
  "parse_file s =
     (case parse_mode 4 0 s of
        None \<Rightarrow> Inl ''bad mode''
      | Some (mode, []) \<Rightarrow> Inl ''mode not delimited''
      | Some (mode, c # s1) \<Rightarrow>
          if c \<noteq> CHR '' '' then Inl ''mode not delimited''
          else (case getfield ''size not delimited'' CHR '' '' s1 of
                  Inl e \<Rightarrow> Inl e | Inr (sz, name) \<Rightarrow> Inr (mode, sz, name)))"

text \<open>
  The data of a file: \<open>cnt\<close> is the size of the buffer, \<open>left\<close> what is to come, \<open>buf\<close> what has been gathered for
  the next write at \<open>pos\<close>. The result is the files, whether no write failed, and what is left unread.
\<close>

definition put_block :: "rcp_env \<Rightarrow> string \<Rightarrow> nat \<Rightarrow> string \<Rightarrow> files \<Rightarrow> bool \<Rightarrow> files \<times> bool" where
  "put_block E p pos buf F ok =
     (if \<not> ok then (F, ok) else if fails E (Write p) then (F, False) else (do_write p pos buf F, True))"

function recv_blocks ::
  "rcp_env \<Rightarrow> string \<Rightarrow> nat \<Rightarrow> string \<Rightarrow> nat \<Rightarrow> string \<Rightarrow> files \<Rightarrow> bool \<Rightarrow> (files \<times> bool \<times> string) option" where
  "recv_blocks E p left buf pos inp F ok =
     (if left = 0 then
        (if buf = [] then Some (F, ok, inp)
         else (case put_block E p pos buf F ok of (F', ok') \<Rightarrow> Some (F', ok', inp)))
      else
        let amt = min BUFSIZE left; buf' = buf @ take amt inp
        in if length inp < amt then None
           else if length buf' = blkcnt E then
             (case put_block E p pos buf' F ok of
                (F', ok') \<Rightarrow> recv_blocks E p (left - amt) [] (pos + length buf') (drop amt inp) F' ok')
           else recv_blocks E p (left - amt) buf' pos (drop amt inp) F ok)"
  by pat_completeness auto
termination by (relation "measure (\<lambda>(E, p, left, x). left)") (auto simp: BUFSIZE_def)

declare recv_blocks.simps [simp del]

text \<open>What one control record does: the loop goes on, a folder is entered, the call returns, or the process ends.\<close>

datatype sink_step = Next frame sink | Enter string frame sink | Return sink | Die sink

definition screwup :: "string \<Rightarrow> sink \<Rightarrow> sink_step" where
  "screwup why k = Die (complain (''rcp: protocol screwup: '' @ why) k)"

definition target_name :: "frame \<Rightarrow> string \<Rightarrow> string" where
  "target_name fr name =
     (if f_isdir fr then f_targ fr @ (if f_targ fr = [] then [] else ''/'') @ name else f_targ fr)"

definition set_times :: "rcp_env \<Rightarrow> string \<Rightarrow> frame \<Rightarrow> sink \<Rightarrow> frame \<times> sink \<times> bool" where
  "set_times E p fr k =
     (if f_setimes fr then
        (if fails E (Utimes p) then (fr\<lparr>f_setimes := False\<rparr>, complain (errtext E) k, False)
         else (fr\<lparr>f_setimes := False\<rparr>, k\<lparr>k_files := do_utimes p (f_tv fr) (k_files k)\<rparr>, True))
      else (fr, k, True))"

definition store_folder :: "rcp_env \<Rightarrow> string \<Rightarrow> nat \<Rightarrow> frame \<Rightarrow> sink \<Rightarrow> sink_step" where
  "store_folder E p mode fr k =
     (case k_files k p of
        Some (SDir m t) \<Rightarrow>
          Enter p fr (if pflag E then k\<lparr>k_files := do_chmod p mode (k_files k)\<rparr> else k)
      | Some (SReg m c t) \<Rightarrow> Next fr (complain (errtext E) k)
      | None \<Rightarrow>
          (case do_mkdir E p mode (k_files k) of
             None \<Rightarrow> Next fr (complain (errtext E) k)
           | Some F \<Rightarrow> Enter p fr (k\<lparr>k_files := F\<rparr>)))"

text \<open>The end of a file, when its data have come: \<open>ok\<close> says that no write failed.\<close>

definition close_file :: "rcp_env \<Rightarrow> string \<Rightarrow> nat \<Rightarrow> bool \<Rightarrow> frame \<Rightarrow> sink \<Rightarrow> sink_step" where
  "close_file E p sz ok fr k =
     (let cut_ok = (\<not> fails E (Trunc p));
          k1 = (if cut_ok then k\<lparr>k_files := do_truncate p sz (k_files k)\<rparr> else complain (errtext E) k)
      in case response (k_in k1) of
           (a, r) \<Rightarrow>
             let k2 = k1\<lparr>k_in := r, k_errs := k_errs k1 + (if a = Refused then 1 else 0)\<rparr>
             in if a = Gone then Die k2
                else if \<not> cut_ok then Next fr k2
                else if \<not> ok then Next fr (complain (errtext E) k2)
                else (case set_times E p fr k2 of
                        (fr', k3, set_ok) \<Rightarrow> Next fr' (if set_ok then sink_reply [nul] k3 else k3)))"

definition store_file :: "rcp_env \<Rightarrow> string \<Rightarrow> nat \<Rightarrow> nat \<Rightarrow> frame \<Rightarrow> sink \<Rightarrow> sink_step" where
  "store_file E p mode sz fr k =
     (case do_open E p mode (k_files k) of
        None \<Rightarrow> Next fr (complain (errtext E) k)
      | Some F0 \<Rightarrow>
          let F1 = (if k_files k p \<noteq> None \<and> pflag E then do_chmod p mode F0 else F0);
              k1 = sink_reply [nul] (k\<lparr>k_files := F1\<rparr>)
          in (case recv_blocks E p sz [] 0 (k_in k1) F1 True of
                None \<Rightarrow> Die (complain ''rcp: dropped connection'' k1)
              | Some (F2, ok, inp) \<Rightarrow> close_file E p sz ok fr (k1\<lparr>k_in := inp, k_files := F2\<rparr>)))"

definition control :: "rcp_env \<Rightarrow> char \<Rightarrow> string \<Rightarrow> frame \<Rightarrow> sink \<Rightarrow> sink_step" where
  "control E c line fr k =
     (let fr' = fr\<lparr>f_first := False\<rparr>; s = takeWhile (\<lambda>x. x \<noteq> nul) line
      in if c = CHR 0x01 then Next fr' (k\<lparr>k_errs := k_errs k + 1\<rparr>)
         else if c = CHR 0x02 then Die k
         else if c = CHR ''E'' then Return (sink_reply [nul] k)
         else if c = CHR ''T'' then
           (case parse_times s of
              Inl e \<Rightarrow> screwup e k
            | Inr tv \<Rightarrow> Next (fr'\<lparr>f_setimes := True, f_tv := tv\<rparr>) (sink_reply [nul] k))
         else if c \<noteq> CHR ''C'' \<and> c \<noteq> CHR ''D'' then
           (if f_first fr then Die (complain (if c = nul then [] else c # s) k) else screwup ''expected control record'' k)
         else
           (case parse_file s of
              Inl e \<Rightarrow> screwup e k
            | Inr (mode, sz, name) \<Rightarrow>
                let p = target_name fr name
                in if c = CHR ''D'' then store_folder E p mode fr' k else store_file E p mode sz fr' k))"

text \<open>One turn of the loop of \<open>sink\<close>.\<close>

definition sink_turn :: "rcp_env \<Rightarrow> frame \<Rightarrow> sink \<Rightarrow> sink_step" where
  "sink_turn E fr k =
     (case k_in k of
        [] \<Rightarrow> Return k
      | c # cs \<Rightarrow>
          if c = newline then screwup ''unexpected <newline>'' k
          else (case read_record (BUFSIZE - 2) cs of
                  None \<Rightarrow> screwup ''lost connection'' (k\<lparr>k_in := []\<rparr>)
                | Some (line, r) \<Rightarrow> control E c line fr (k\<lparr>k_in := r\<rparr>)))"

lemma read_record_le: "read_record n s = Some (x, r) \<Longrightarrow> length r < length s"
  by (induction n s arbitrary: x r rule: read_record.induct) (fastforce split: if_splits)+

lemma recv_blocks_le: "recv_blocks E p left buf pos inp F ok = Some (F', ok', r) \<Longrightarrow> length r \<le> length inp"
proof (induction E p left buf pos inp F ok arbitrary: F' ok' r rule: recv_blocks.induct)
  case (1 E p left buf pos inp F ok)
  show ?case
  proof (cases "left = 0")
    case True
    with 1(3) show ?thesis by (subst (asm) recv_blocks.simps) (auto split: if_splits prod.splits)
  next
    case False
    let ?amt = "min BUFSIZE left"
    obtain F1 ok1 where pb: "put_block E p pos (buf @ take ?amt inp) F ok = (F1, ok1)" by fastforce
    have nl: "\<not> length inp < ?amt" using 1(3) False by (subst (asm) recv_blocks.simps) (auto simp: Let_def split: if_splits)
    with 1(3) False consider
        (a) "recv_blocks E p (left - ?amt) [] (pos + length (buf @ take ?amt inp)) (drop ?amt inp) F1 ok1 = Some (F', ok', r)"
          "length (buf @ take ?amt inp) = blkcnt E"
      | (b) "recv_blocks E p (left - ?amt) (buf @ take ?amt inp) pos (drop ?amt inp) F ok = Some (F', ok', r)"
          "length (buf @ take ?amt inp) \<noteq> blkcnt E"
      by (subst (asm) recv_blocks.simps) (auto simp: Let_def pb split: if_splits)
    then show ?thesis
    proof cases
      case a
      from 1(1) [OF False refl refl nl a(2) pb [symmetric] a(1)] show ?thesis by simp
    next
      case b
      from 1(2) [OF False refl refl nl b(2) b(1)] show ?thesis by simp
    qed
  qed
qed

lemma frames_in [frame_simps]:
  "k_in (sink_reply x k) = k_in k" "k_in (complain m k) = k_in k" "k_in (fst (snd (set_times E p fr k))) = k_in k"
  "k_in (snd (sink_enter E p k)) = k_in k"
  by (simp_all add: sink_reply_def complain_def set_times_def sink_enter_def)

lemma skip_message_le: "skip_message n s = Some r \<Longrightarrow> length r < length s"
  by (induction n s rule: skip_message.induct) (auto split: if_splits)

lemma response_le: "length (snd (response s)) \<le> length s"
  by (cases s) (auto simp: response_def dest: skip_message_le split: option.split)

lemma store_folder_le:
  "store_folder E p mode fr k = Next fr' k' \<Longrightarrow> length (k_in k') \<le> length (k_in k)"
  "store_folder E p mode fr k = Enter p' fr' k' \<Longrightarrow> length (k_in k') \<le> length (k_in k)"
  "store_folder E p mode fr k \<noteq> Return k'"
  by (auto simp: store_folder_def frame_simps split: option.splits stored.splits if_splits)

lemma close_file_le:
  "close_file E p sz ok fr k = Next fr' k' \<Longrightarrow> length (k_in k') \<le> length (k_in k)"
  "close_file E p sz ok fr k \<noteq> Enter p' fr' k'"
  "close_file E p sz ok fr k \<noteq> Return k'"
  using response_le [of "k_in k"]
  by (auto simp: close_file_def Let_def set_times_def frame_simps split: prod.splits if_splits)

lemma store_file_le:
  "store_file E p mode sz fr k = Next fr' k' \<Longrightarrow> length (k_in k') \<le> length (k_in k)"
  "store_file E p mode sz fr k \<noteq> Enter p' fr' k'"
  "store_file E p mode sz fr k \<noteq> Return k'"
proof -
  show "length (k_in k') \<le> length (k_in k)" if s: "store_file E p mode sz fr k = Next fr' k'"
  proof (cases "do_open E p mode (k_files k)")
    case None
    with s show ?thesis by (auto simp: store_file_def frame_simps)
  next
    case (Some F0)
    then show ?thesis using s
      by (auto simp: store_file_def Let_def frame_simps dest!: close_file_le(1) recv_blocks_le split: option.splits)
  qed
  show "store_file E p mode sz fr k \<noteq> Enter p' fr' k'" "store_file E p mode sz fr k \<noteq> Return k'"
    by (auto simp: store_file_def Let_def close_file_le split: option.splits)
qed

lemma control_le:
  "control E c line fr k = Next fr' k' \<Longrightarrow> length (k_in k') \<le> length (k_in k)"
  "control E c line fr k = Enter p fr' k' \<Longrightarrow> length (k_in k') \<le> length (k_in k)"
  "control E c line fr k = Return k' \<Longrightarrow> length (k_in k') \<le> length (k_in k)"
  by (auto simp: control_def Let_def screwup_def frame_simps store_folder_le(3) store_file_le(2,3)
      dest: store_folder_le(1,2) store_file_le(1) split: if_splits sum.splits)

lemma sink_turn_le:
  "sink_turn E fr k = Next fr' k' \<Longrightarrow> length (k_in k') < length (k_in k)"
  "sink_turn E fr k = Enter p fr' k' \<Longrightarrow> length (k_in k') < length (k_in k)"
  "sink_turn E fr k = Return k' \<Longrightarrow> length (k_in k') \<le> length (k_in k)"
  by (auto simp: sink_turn_def screwup_def dest!: read_record_le control_le split: list.splits if_splits option.splits)

text \<open>The calls of \<open>sink\<close> on the stack; when one for a folder returns, its times are set.\<close>

function sink_run :: "rcp_env \<Rightarrow> frame list \<Rightarrow> sink \<Rightarrow> status \<times> sink" where
  "sink_run E [] k = (Finished, k)"
| "sink_run E (fr # frs) k =
     (case sink_turn E fr k of
        Next fr' k' \<Rightarrow> sink_run E (fr' # frs) k'
      | Enter p fr' k' \<Rightarrow>
          (case sink_enter E p k' of
             (None, k2) \<Rightarrow> (Exited, k2)
           | (Some f, k2) \<Rightarrow> sink_run E (f # fr' # frs) k2)
      | Return k' \<Rightarrow>
          (case frs of
             [] \<Rightarrow> (Finished, k')
           | g # gs \<Rightarrow> (case set_times E (f_targ fr) g k' of (g', k2, ok) \<Rightarrow> sink_run E (g' # gs) k2))
      | Die k' \<Rightarrow> (Exited, k'))"
  by pat_completeness auto
termination
proof (relation "inv_image (less_than <*lex*> less_than) (\<lambda>(E, frs, k). (length (k_in k), length frs))", goal_cases)
  case (2 E fr frs k fr' k')
  then show ?case using sink_turn_le(1) [of E fr k fr' k'] by simp
next
  case (3 E fr frs k p fr' k' o' k2 f)
  then show ?case using sink_turn_le(2) [of E fr k p fr' k'] frames_in(4) [of E p k'] by (auto dest: sym)
next
  case (4 E fr frs k k' g gs g' k2 ok)
  then show ?case
    using sink_turn_le(3) [of E fr k k'] frames_in(3) [of E "f_targ fr" g k']
    by (auto dest!: sym [where t = "set_times E (f_targ fr) g k'"])
qed (simp add: wf_lex_prod)

declare sink_run.simps(2) [simp del]

definition sink_start :: "rcp_env \<Rightarrow> string \<Rightarrow> files \<Rightarrow> string \<Rightarrow> status \<times> sink" where
  "sink_start E targ F inp =
     (case sink_enter E targ \<lparr>k_in = inp, k_out = [], k_files = F, k_errs = 0\<rparr> of
        (None, k) \<Rightarrow> (Exited, k)
      | (Some fr, k) \<Rightarrow> sink_run E [fr] k)"

section \<open>Names on the command line\<close>

text \<open>The name after the host, and whether a user name may be given to a shell.\<close>

fun colon :: "string \<Rightarrow> string option" where
  "colon [] = None"
| "colon (c # cs) = (if c = CHR '':'' then Some (c # cs) else if c = CHR ''/'' then None else colon cs)"

definition name_char_ok :: "char \<Rightarrow> bool" where
  "name_char_ok c \<longleftrightarrow>
     (let n = (of_char c :: nat) in n < 128 \<and>
       (65 \<le> n \<and> n \<le> 90 \<or> 97 \<le> n \<and> n \<le> 122 \<or> 48 \<le> n \<and> n \<le> 57 \<or> c = CHR ''_'' \<or> c = CHR ''-''))"

definition okname :: "string \<Rightarrow> bool" where
  "okname s \<longleftrightarrow> s \<noteq> [] \<and> list_all name_char_ok s"

end
