(* ===== verification/Rcp_Exchange.thy ===== *)
theory Rcp_Exchange
  imports Rcp_Copy
begin

text \<open>
  A whole copy: what the sender writes when every record is accepted, what the receiver makes of it, and the files
  stored in the end.
\<close>

section \<open>Numbers and records\<close>

lemma digit_isdig: "d < 10 \<Longrightarrow> isdig (digit d)"
  by (simp add: isdig_def digit_code)

lemma dec_digits: "c \<in> set (dec n) \<Longrightarrow> isdig c"
proof (induction n rule: dec.induct)
  case (1 n)
  then show ?case by (cases "n < 10") (auto simp: dec_small dec_big digit_isdig)
qed

lemma isdig_plain: "isdig c \<Longrightarrow> c \<noteq> newline \<and> c \<noteq> nul \<and> c \<noteq> CHR '' ''"
  by (auto simp: isdig_def newline_def nul_def)

lemma getnum_dec: "getnum v (dec n @ r) = getnum (v * 10 ^ length (dec n) + n) r"
proof (induction n arbitrary: v r rule: dec.induct)
  case (1 n)
  show ?case
  proof (cases "n < 10")
    case True
    then show ?thesis by (simp add: dec_small digit_isdig digit_code)
  next
    case False
    have m: "n mod 10 < 10" by simp
    have "getnum v (dec n @ r) = getnum (v * 10 ^ length (dec (n div 10)) + n div 10) (digit (n mod 10) # r)"
      using 1 [OF False, of v "digit (n mod 10) # r"] by (simp add: dec_big [OF False])
    also have "\<dots> = getnum ((v * 10 ^ length (dec (n div 10)) + n div 10) * 10 + n mod 10) r"
      by (simp add: digit_isdig [OF m] digit_code [OF m])
    also have "(v * 10 ^ length (dec (n div 10)) + n div 10) * 10 + n mod 10 = v * 10 ^ length (dec n) + n"
      by (simp add: dec_big [OF False] algebra_simps)
    finally show ?thesis .
  qed
qed

lemma getfield_dec: "\<not> isdig d \<Longrightarrow> getfield why d (dec n @ d # r) = Inr (n, r)"
  using getnum_dec [of 0 n "d # r"] by (simp add: getfield_def)

lemma getfield_zero: "getfield why CHR '' '' (CHR ''0'' # CHR '' '' # r) = Inr (0, r)"
  by (simp add: getfield_def isdig_def)

lemma parse_times_record: "parse_times (dec mt @ '' 0 '' @ dec at @ '' 0'') = Inr ((at, 0), (mt, 0))"
proof -
  have sp: "\<not> isdig CHR '' ''" by (simp add: isdig_def)
  show ?thesis
    using getfield_dec [OF sp, of _ mt "''0 '' @ dec at @ '' 0''"] getfield_dec [OF sp, of _ at "''0''"]
      getfield_zero [of _ "dec at @ '' 0''"]
    by (simp add: parse_times_def isdig_def)
qed

lemma octal_digit: "d < 8 \<Longrightarrow> 48 \<le> (of_char (digit d) :: nat) \<and> (of_char (digit d) :: nat) \<le> 55"
  by (simp add: digit_code)

lemma parse_mode_octal:
  assumes "m < 4096"
  shows "parse_mode 4 0 (octal4 m @ r) = Some (m, r)"
proof -
  have sum: "m = ((m div 512 mod 8 * 8 + m div 64 mod 8) * 8 + m div 8 mod 8) * 8 + m mod 8"
  proof -
    have "m div 512 mod 8 = m div 512" using assms by simp
    moreover have "m div 512 = m div 64 div 8" "m div 64 = m div 8 div 8" by (simp_all add: div_mult2_eq [symmetric])
    ultimately show ?thesis by (metis div_mult_mod_eq)
  qed
  have four: "(4::nat) = Suc (Suc (Suc (Suc 0)))" by simp
  have "parse_mode 4 0 ([digit a, digit b, digit c, digit d] @ r) = Some (((a * 8 + b) * 8 + c) * 8 + d, r)"
    if "a < 8" "b < 8" "c < 8" "d < 8" for a b c d
    unfolding four using that by (simp add: digit_code)
  then have "parse_mode 4 0 (octal4 m @ r) = Some (((m div 512 mod 8 * 8 + m div 64 mod 8) * 8 + m div 8 mod 8) * 8 + m mod 8, r)"
    by (simp add: octal4_def)
  then show ?thesis unfolding sum [symmetric] .
qed

lemma parse_file_record:
  "m < 4096 \<Longrightarrow> parse_file (octal4 m @ '' '' @ dec sz @ '' '' @ name) = Inr (m, sz, name)"
  using parse_mode_octal [of m "'' '' @ dec sz @ '' '' @ name"] getfield_dec [of "CHR '' ''" "''size not delimited''" sz name]
  by (simp add: parse_file_def isdig_def)

lemma read_record_line: "newline \<notin> set x \<Longrightarrow> length x < n \<Longrightarrow> read_record n (x @ newline # r) = Some (x, r)"
proof (induction x arbitrary: n)
  case (Cons c x)
  then show ?case by auto
qed simp

section \<open>Data\<close>

lemma send_blocks_all:
  "0 < cnt \<Longrightarrow> \<exists>b. send_blocks cnt (length x) x buf False = (x, b, False)"
proof (induction "length x" arbitrary: x buf rule: less_induct)
  case less
  show ?case
  proof (cases "x = []")
    case True
    then show ?thesis by (subst send_blocks.simps) simp
  next
    case False
    let ?amt = "min cnt (length x)"
    have "length (drop ?amt x) < length x" using False less.prems by simp
    from less.hyps [OF this less.prems, of "take ?amt x @ drop (length (take ?amt x)) buf"]
    obtain b where "send_blocks cnt (length x - ?amt) (drop ?amt x) (take ?amt x @ drop (length (take ?amt x)) buf) False
      = (drop ?amt x, b, False)" by auto
    then show ?thesis using False less.prems
      by (subst send_blocks.simps) (simp add: Let_def min_def split: if_splits)
  qed
qed

lemma recv_blocks_all:
  assumes "\<And>q. \<not> fails E (Write q)"
  shows "F p = Some (SReg m c t) \<Longrightarrow> length c = pos \<Longrightarrow>
    recv_blocks E p (length x) buf pos (x @ r) F True = Some (F(p \<mapsto> SReg m (c @ buf @ x) t), True, r)"
proof (induction "length x" arbitrary: x buf pos c F rule: less_induct)
  case less
  have put: "put_block E p pos y F True = (F(p \<mapsto> SReg m (c @ y) t), True)" for y
    using less.prems assms by (simp add: put_block_def do_write_def)
  show ?case
  proof (cases "x = []")
    case True
    with less.prems put show ?thesis by (subst recv_blocks.simps) (auto simp: fun_upd_idem)
  next
    case False
    let ?amt = "min BUFSIZE (length x)"
    have small: "length (drop ?amt x) < length x" using False by (simp add: BUFSIZE_def)
    have len: "length x - ?amt = length (drop ?amt x)" by simp
    have inp: "take ?amt (x @ r) = take ?amt x" "drop ?amt (x @ r) = drop ?amt x @ r" "\<not> length (x @ r) < ?amt"
      by (simp_all add: min_def)
    have unfold: "recv_blocks E p (length x) buf pos (x @ r) F True =
        (if length (buf @ take ?amt x) = blkcnt E then
           recv_blocks E p (length (drop ?amt x)) [] (pos + length (buf @ take ?amt x)) (drop ?amt x @ r)
             (F(p \<mapsto> SReg m (c @ buf @ take ?amt x) t)) True
         else recv_blocks E p (length (drop ?amt x)) (buf @ take ?amt x) pos (drop ?amt x @ r) F True)"
    proof -
      have ne: "(length x = 0) = False" using False by simp
      show ?thesis by (subst recv_blocks.simps) (simp only: Let_def inp len put ne if_False prod.case)
    qed
    show ?thesis
    proof (cases "length (buf @ take ?amt x) = blkcnt E")
      case True
      have "recv_blocks E p (length (drop ?amt x)) [] (pos + length (buf @ take ?amt x)) (drop ?amt x @ r)
             (F(p \<mapsto> SReg m (c @ buf @ take ?amt x) t)) True =
          Some ((F(p \<mapsto> SReg m (c @ buf @ take ?amt x) t))(p \<mapsto> SReg m ((c @ buf @ take ?amt x) @ [] @ drop ?amt x) t), True, r)"
        by (rule less.hyps [OF small]) (use less.prems in simp_all)
      with True unfold show ?thesis by simp
    next
      case no: False
      have "recv_blocks E p (length (drop ?amt x)) (buf @ take ?amt x) pos (drop ?amt x @ r) F True =
          Some (F(p \<mapsto> SReg m (c @ (buf @ take ?amt x) @ drop ?amt x) t), True, r)"
        by (rule less.hyps [OF small]) (use less.prems in simp_all)
      with no unfold show ?thesis by simp
    qed
  qed
qed

section \<open>What is sent\<close>

definition good_name :: "string \<Rightarrow> bool" where
  "good_name d \<longleftrightarrow> d \<noteq> [] \<and> d \<noteq> ''.'' \<and> d \<noteq> ''..'' \<and> CHR ''/'' \<notin> set d \<and> newline \<notin> set d \<and> nul \<notin> set d"

fun wf_node :: "nat \<Rightarrow> node \<Rightarrow> bool"
  and wf_entries :: "nat \<Rightarrow> (nat \<times> string \<times> node) list \<Rightarrow> bool" where
  "wf_node n (Reg mode sz content mt at) =
     (mode < 4096 \<and> sz = length content \<and> sz < 2 ^ 31 \<and> mt < 2 ^ 63 \<and> at < 2 ^ 63)"
| "wf_node n (Folder mode mt at ents) =
     (mode < 4096 \<and> mt < 2 ^ 63 \<and> at < 2 ^ 63 \<and> distinct (map (\<lambda>(i, d, x). d) ents) \<and> wf_entries n ents)"
| "wf_node n Special = False"
| "wf_node n Missing = False"
| "wf_entries n [] = True"
| "wf_entries n ((ino, d, x) # ents) =
     (ino \<noteq> 0 \<and> good_name d \<and> n + 1 + length d < PATHSIZE - 1 \<and> wf_node (n + 1 + length d) x \<and> wf_entries n ents)"

fun stream :: "rcp_env \<Rightarrow> string \<Rightarrow> node \<Rightarrow> string"
  and streams :: "rcp_env \<Rightarrow> (nat \<times> string \<times> node) list \<Rightarrow> string" where
  "stream E nm (Reg mode sz content mt at) =
     (if pflag E then time_record mt at else []) @ file_record CHR ''C'' mode sz nm @ content @ [nul]"
| "stream E nm (Folder mode mt at ents) =
     (if pflag E then time_record mt at else []) @ file_record CHR ''D'' mode 0 nm @ streams E ents @ [CHR ''E'', newline]"
| "stream E nm Special = []"
| "stream E nm Missing = []"
| "streams E [] = []"
| "streams E ((ino, d, x) # ents) = stream E d x @ streams E ents"

fun acks :: "rcp_env \<Rightarrow> node \<Rightarrow> nat" and acks_entries :: "rcp_env \<Rightarrow> (nat \<times> string \<times> node) list \<Rightarrow> nat" where
  "acks E (Reg mode sz content mt at) = (if pflag E then 1 else 0) + 2"
| "acks E (Folder mode mt at ents) = (if pflag E then 1 else 0) + 1 + acks_entries E ents + 1"
| "acks E Special = 0"
| "acks E Missing = 0"
| "acks_entries E [] = 0"
| "acks_entries E ((ino, d, x) # ents) = acks E x + acks_entries E ents"

lemma await_ok: "s_in s = nul # r \<Longrightarrow> await s = (True, s\<lparr>s_in := r\<rparr>)"
  by (simp add: await_def response_def)

lemma send_fields [simp]: "s_in (send x s) = s_in s" "s_gone (send x s) = s_gone s" "s_out (send x s) = s_out s @ x"
  "s_buf (send x s) = s_buf s" "s_errs (send x s) = s_errs s"
  by (simp_all add: send_def)

lemma send_time_ok:
  "s_in s = replicate (if pflag E then 1 else 0) nul @ r \<Longrightarrow>
   send_time E mt at s = (True, s\<lparr>s_in := r, s_out := s_out s @ (if pflag E then time_record mt at else [])\<rparr>)"
  by (simp add: send_time_def await_ok send_def)

lemma last_name_child: "CHR ''/'' \<notin> set d \<Longrightarrow> last_name (name @ ''/'' @ d) = d"
proof -
  assume d: "CHR ''/'' \<notin> set d"
  have "takeWhile (\<lambda>c. c \<noteq> CHR ''/'') (rev d @ CHR ''/'' # rev name) = rev d"
    using d by (subst takeWhile_append2) auto
  then show ?thesis by (simp add: last_name_def)
qed

lemma source_accepted:
  assumes "recursive E" "0 < blkcnt E"
  shows "wf_node n node \<Longrightarrow> length name = n \<Longrightarrow> \<not> s_gone s \<Longrightarrow> s_in s = replicate (acks E node) nul @ r \<Longrightarrow>
      \<exists>b. source E name node s = s\<lparr>s_in := r, s_out := s_out s @ stream E (last_name name) node, s_buf := b\<rparr>"
    and "wf_entries n ents \<Longrightarrow> length name = n \<Longrightarrow> \<not> s_gone s \<Longrightarrow> s_in s = replicate (acks_entries E ents) nul @ r \<Longrightarrow>
      \<exists>b. source_entries E name ents s = s\<lparr>s_in := r, s_out := s_out s @ streams E ents, s_buf := b\<rparr>"
proof (induction n node and n ents arbitrary: name s r and name s r rule: wf_node_wf_entries.induct)
  case (1 n mode sz content mt at)
  let ?t = "if pflag E then time_record mt at else []"
  let ?f = "file_record CHR ''C'' mode (length content) (last_name name)"
  have sz: "sz = length content" using 1(1) by simp
  have inp: "s_in s = replicate (if pflag E then 1 else 0) nul @ nul # nul # r"
    using 1(4) by (simp add: replicate_append_same)
  let ?s1 = "s\<lparr>s_in := nul # nul # r, s_out := s_out s @ ?t\<rparr>"
  have time: "send_time E mt at s = (True, ?s1)" using send_time_ok [OF inp] .
  let ?s2 = "(send ?f ?s1)\<lparr>s_in := nul # r\<rparr>"
  have rec: "await (send ?f ?s1) = (True, ?s2)" by (rule await_ok) simp
  obtain b where b: "send_blocks (blkcnt E) (length content) content (s_buf ?s2) False = (content, b, False)"
    using send_blocks_all [OF assms(2)] by blast
  have fin: "await (send [nul] (send content (?s2\<lparr>s_buf := b\<rparr>))) =
      (True, (send [nul] (send content (?s2\<lparr>s_buf := b\<rparr>)))\<lparr>s_in := r\<rparr>)"
    by (rule await_ok) simp
  have "source E name (Reg mode sz content mt at) s = (send [nul] (send content (?s2\<lparr>s_buf := b\<rparr>)))\<lparr>s_in := r\<rparr>"
    unfolding sz source.simps source_file_def time using 1(3)
    by (simp only: prod.case bool.case rec b fin snd_conv Let_def if_False)
  then show ?case by (auto simp: send_def sz intro!: exI [of _ b])
next
  case (2 n mode mt at ents)
  let ?t = "if pflag E then time_record mt at else []"
  let ?f = "file_record CHR ''D'' mode 0 (last_name name)"
  let ?in = "replicate (acks_entries E ents) nul @ nul # r"
  have inp: "s_in s = replicate (if pflag E then 1 else 0) nul @ nul # ?in"
    using 2(5) by (simp add: replicate_append_same)
  let ?s1 = "s\<lparr>s_in := nul # ?in, s_out := s_out s @ ?t\<rparr>"
  have time: "send_time E mt at s = (True, ?s1)" using send_time_ok [OF inp] .
  let ?s2 = "(send ?f ?s1)\<lparr>s_in := ?in\<rparr>"
  have rec: "await (send ?f ?s1) = (True, ?s2)" by (rule await_ok) simp
  have "wf_entries n ents" using 2(2) by simp
  then obtain b where b: "source_entries E name ents ?s2 = ?s2\<lparr>s_in := nul # r, s_out := s_out ?s2 @ streams E ents, s_buf := b\<rparr>"
    using 2(1) [of name ?s2 "nul # r"] 2(3,4) by auto
  let ?s3 = "?s2\<lparr>s_in := nul # r, s_out := s_out ?s2 @ streams E ents, s_buf := b\<rparr>"
  have gone: "s_gone ?s3 = False" using 2(4) by simp
  have fin: "await (send [CHR ''E'', newline] ?s3) = (True, (send [CHR ''E'', newline] ?s3)\<lparr>s_in := r\<rparr>)"
    by (rule await_ok) simp
  have "source E name (Folder mode mt at ents) s = (send [CHR ''E'', newline] ?s3)\<lparr>s_in := r\<rparr>"
    unfolding source.simps time using 2(4) assms(1)
    by (simp only: prod.case bool.case rec b fin snd_conv Let_def if_False not_True_eq_False gone)
  then show ?case by (auto simp: send_def intro!: exI [of _ b])
next
  case (5 n)
  then show ?case by (auto intro!: exI [of _ "s_buf s"])
next
  case (6 n ino d x ents)
  let ?nm = "name @ ''/'' @ d"
  have wf: "ino \<noteq> 0" "good_name d" "n + 1 + length d < PATHSIZE - 1" "wf_node (n + 1 + length d) x" "wf_entries n ents"
    using 6(3) by simp_all
  have inp: "s_in s = replicate (acks E x) nul @ replicate (acks_entries E ents) nul @ r"
    using 6(6) by (simp add: replicate_add)
  have last: "last_name ?nm = d" using wf(2) by (intro last_name_child) (simp add: good_name_def)
  obtain b where b: "source E ?nm x s =
      s\<lparr>s_in := replicate (acks_entries E ents) nul @ r, s_out := s_out s @ stream E d x, s_buf := b\<rparr>"
    using 6(1) [of ?nm s "replicate (acks_entries E ents) nul @ r"] wf(4) 6(4,5) inp last by auto
  let ?s1 = "s\<lparr>s_in := replicate (acks_entries E ents) nul @ r, s_out := s_out s @ stream E d x, s_buf := b\<rparr>"
  obtain b2 where "source_entries E name ents ?s1 = ?s1\<lparr>s_in := r, s_out := s_out ?s1 @ streams E ents, s_buf := b2\<rparr>"
    using 6(2) [of name ?s1 r] wf(5) 6(4,5) by auto
  moreover have "source_entries E name ((ino, d, x) # ents) s = source_entries E name ents ?s1"
    using wf(1-3) 6(4,5) b by (simp add: good_name_def)
  ultimately show ?case by auto
qed (auto)

section \<open>What is stored\<close>

fun put_node :: "rcp_env \<Rightarrow> string \<Rightarrow> node \<Rightarrow> files \<Rightarrow> files"
  and put_entries :: "rcp_env \<Rightarrow> string \<Rightarrow> (nat \<times> string \<times> node) list \<Rightarrow> files \<Rightarrow> files" where
  "put_node E p (Reg mode sz content mt at) F =
     F(p \<mapsto> SReg (masked E mode) content (if pflag E then Some ((at, 0), (mt, 0)) else None))"
| "put_node E p (Folder mode mt at ents) F =
     (let F1 = put_entries E p ents (F(p \<mapsto> SDir (masked E mode) None))
      in if pflag E then F1(p \<mapsto> SDir (masked E mode) (Some ((at, 0), (mt, 0)))) else F1)"
| "put_node E p Special F = F"
| "put_node E p Missing F = F"
| "put_entries E p [] F = F"
| "put_entries E p ((ino, d, x) # ents) F = put_entries E p ents (put_node E (p @ ''/'' @ d) x F)"

definition below :: "string \<Rightarrow> string \<Rightarrow> bool" where
  "below p q \<longleftrightarrow> q = p \<or> (\<exists>r. q = p @ ''/'' @ r)"

lemma below_child: "below (p @ ''/'' @ d) q \<Longrightarrow> below p q \<and> q \<noteq> p"
  by (auto simp: below_def)

lemma put_node_other:
  "\<not> below p q \<Longrightarrow> put_node E p node F q = F q"
  "\<not> below p q \<or> q = p \<Longrightarrow> put_entries E p ents F q = F q"
proof (induction E p node F and E p ents F rule: put_node_put_entries.induct)
  case (6 E p ino d x ents F)
  then show ?case using below_child by auto
qed (auto simp: Let_def below_def)

lemma siblings_apart:
  assumes "CHR ''/'' \<notin> set d" "CHR ''/'' \<notin> set d'" "d \<noteq> d'"
  shows "below (p @ ''/'' @ d) q \<Longrightarrow> \<not> below (p @ ''/'' @ d') q"
proof
  assume q: "below (p @ ''/'' @ d) q" "below (p @ ''/'' @ d') q"
  obtain r where r: "q = p @ ''/'' @ d @ r" "r = [] \<or> hd r = CHR ''/''" using q(1) by (auto simp: below_def)
  obtain r' where r': "q = p @ ''/'' @ d' @ r'" "r' = [] \<or> hd r' = CHR ''/''" using q(2) by (auto simp: below_def)
  have "d @ r = d' @ r'" using r(1) r'(1) by simp
  moreover have "takeWhile (\<lambda>c. c \<noteq> CHR ''/'') (d @ r) = d"
    using r(2) assms(1) by (cases r) (auto simp: takeWhile_upto takeWhile_eq_all_conv)
  moreover have "takeWhile (\<lambda>c. c \<noteq> CHR ''/'') (d' @ r') = d'"
    using r'(2) assms(2) by (cases r') (auto simp: takeWhile_upto takeWhile_eq_all_conv)
  ultimately show False using assms(3) by metis
qed

section \<open>What the receiver does\<close>

lemma control_record:
  assumes "newline \<notin> set line" "length line < BUFSIZE - 2" "k_in k = c # line @ newline # r" "c \<noteq> newline"
  shows "sink_turn E fr k = control E c line fr (k\<lparr>k_in := r\<rparr>)"
  using assms read_record_line [OF assms(1,2), of r] by (simp add: sink_turn_def)

lemma dec_plain: "newline \<notin> set (dec n)" "nul \<notin> set (dec n)"
  using dec_digits isdig_plain by blast+

lemma digit_plain: "d < 10 \<Longrightarrow> newline \<noteq> digit d \<and> nul \<noteq> digit d"
  using digit_isdig isdig_plain by metis

lemma octal_plain: "newline \<notin> set (octal4 m)" "nul \<notin> set (octal4 m)"
  by (simp_all add: octal4_def digit_plain)

lemma take_all: "nul \<notin> set x \<Longrightarrow> takeWhile (\<lambda>c. c \<noteq> nul) x = x"
  by (auto simp: takeWhile_eq_all_conv)

lemma turn_times:
  assumes "k_in k = time_record mt at @ r" "mt < 2 ^ 63" "at < 2 ^ 63"
  shows "sink_turn E fr k =
    Next (fr\<lparr>f_first := False, f_setimes := True, f_tv := ((at, 0), (mt, 0))\<rparr>) (sink_reply [nul] (k\<lparr>k_in := r\<rparr>))"
proof -
  let ?l = "dec mt @ '' 0 '' @ dec at @ '' 0''"
  have p: "newline \<notin> set ?l" "nul \<notin> set ?l" using dec_plain by (auto simp: newline_def nul_def)
  have "length ?l < BUFSIZE - 2"
    using dec_length [of mt 19] dec_length [of at 19] assms(2,3) by (simp add: BUFSIZE_def)
  then have "sink_turn E fr k = control E CHR ''T'' ?l fr (k\<lparr>k_in := r\<rparr>)"
    using p(1) assms(1) by (intro control_record) (simp_all add: time_record_def newline_def)
  then show ?thesis
    using parse_times_record [of mt at] take_all [OF p(2)] by (simp add: control_def)
qed

lemma turn_end:
  assumes "k_in k = CHR ''E'' # newline # r"
  shows "sink_turn E fr k = Return (sink_reply [nul] (k\<lparr>k_in := r\<rparr>))"
  using control_record [of "[]" k "CHR ''E''" r E fr] assms by (simp add: control_def BUFSIZE_def newline_def)

lemma turn_file:
  assumes "k_in k = file_record kind mode sz nm @ r" "mode < 4096" "sz < 2 ^ 31" "newline \<notin> set nm" "nul \<notin> set nm"
    "length nm < PATHSIZE" "kind = CHR ''C'' \<or> kind = CHR ''D''"
  shows "sink_turn E fr k =
    (if kind = CHR ''D'' then store_folder E (target_name fr nm) mode (fr\<lparr>f_first := False\<rparr>) (k\<lparr>k_in := r\<rparr>)
     else store_file E (target_name fr nm) mode sz (fr\<lparr>f_first := False\<rparr>) (k\<lparr>k_in := r\<rparr>))"
proof -
  let ?l = "octal4 mode @ '' '' @ dec sz @ '' '' @ nm"
  have p: "newline \<notin> set ?l" "nul \<notin> set ?l"
    using dec_plain octal_plain assms(4,5) by (auto simp: newline_def nul_def)
  have "length (octal4 mode) = 4" by (simp add: octal4_def)
  then have "length ?l < BUFSIZE - 2"
    using dec_length [of sz 10] assms(3,6) by (simp add: BUFSIZE_def PATHSIZE_def)
  then have "sink_turn E fr k = control E kind ?l fr (k\<lparr>k_in := r\<rparr>)"
    using p(1) assms(1,2,7) by (intro control_record) (auto simp: file_record_def newline_def)
  moreover have "control E kind ?l fr k' =
      (if kind = CHR ''D'' then store_folder E (target_name fr nm) mode (fr\<lparr>f_first := False\<rparr>) k'
       else store_file E (target_name fr nm) mode sz (fr\<lparr>f_first := False\<rparr>) k')" for k'
    unfolding control_def Let_def take_all [OF p(2)] parse_file_record [OF assms(2)] using assms(7)
    by (elim disjE) simp_all
  ultimately show ?thesis by simp
qed

lemma store_file_ok:
  assumes ok: "\<And>c. \<not> fails E c" and free: "k_files k p = None" and inp: "k_in k = content @ nul # r"
  shows "store_file E p mode (length content) fr k =
    Next (fr\<lparr>f_setimes := False\<rparr>) (k\<lparr>k_in := r, k_out := k_out k @ [nul, nul],
      k_files := (k_files k)(p \<mapsto> SReg (masked E mode) content (if f_setimes fr then Some (f_tv fr) else None))\<rparr>)"
proof -
  let ?F = "(k_files k)(p \<mapsto> SReg (masked E mode) [] None)"
  let ?F2 = "(k_files k)(p \<mapsto> SReg (masked E mode) content None)"
  have op: "do_open E p mode (k_files k) = Some ?F" using ok free by (simp add: do_open_def)
  have data: "recv_blocks E p (length content) [] 0 (content @ nul # r) ?F True = Some (?F2, True, nul # r)"
    using recv_blocks_all [OF ok, of ?F p "masked E mode" "[]" None 0 content "[]" "nul # r"] by simp
  have "store_file E p mode (length content) fr k =
      close_file E p (length content) True fr ((sink_reply [nul] (k\<lparr>k_files := ?F\<rparr>))\<lparr>k_in := nul # r, k_files := ?F2\<rparr>)"
    using op free inp data by (simp add: store_file_def frame_simps sink_reply_def)
  moreover have "fr\<lparr>f_setimes := False\<rparr> = fr" if "\<not> f_setimes fr" using that by simp
  ultimately show ?thesis using ok
    by (cases "f_setimes fr") (simp_all add: close_file_def response_def do_truncate_def set_times_def do_utimes_def sink_reply_def)
qed

text \<open>The frame of a folder between two control records.\<close>

definition ready :: "string \<Rightarrow> frame \<Rightarrow> bool" where
  "ready p fr \<longleftrightarrow> f_isdir fr \<and> \<not> f_setimes fr \<and> f_targ fr = p"

lemma ready_target: "ready p fr \<Longrightarrow> p \<noteq> [] \<Longrightarrow> target_name fr d = p @ ''/'' @ d"
  by (simp add: ready_def target_name_def)

lemma run_next: "sink_turn E fr k = Next fr' k' \<Longrightarrow> sink_run E (fr # frs) k = sink_run E (fr' # frs) k'"
  by (simp add: sink_run.simps(2))

lemma run_times:
  assumes "k_in k = (if pflag E then time_record mt at else []) @ r" "mt < 2 ^ 63" "at < 2 ^ 63" "ready p fr"
  obtains fr' where
    "sink_run E (fr # frs) k =
      sink_run E (fr' # frs) (k\<lparr>k_in := r, k_out := k_out k @ replicate (if pflag E then 1 else 0) nul\<rparr>)"
    "f_isdir fr'" "f_targ fr' = p" "f_setimes fr' = pflag E" "pflag E \<Longrightarrow> f_tv fr' = ((at, 0), (mt, 0))"
proof (cases "pflag E")
  case True
  with assms show ?thesis
    using that [of "fr\<lparr>f_first := False, f_setimes := True, f_tv := ((at, 0), (mt, 0))\<rparr>"]
      run_next [OF turn_times [of k mt at r E fr], of frs]
    by (simp add: ready_def sink_reply_def)
next
  case False
  then have "k\<lparr>k_in := r, k_out := k_out k @ replicate (if pflag E then 1 else 0) nul\<rparr> = k"
    using assms(1) by auto
  with False assms(4) show ?thesis using that [of fr] by (simp only: ready_def)
qed

text \<open>What is left free for a node: nothing is stored at its path or below it.\<close>

definition vacant :: "string \<Rightarrow> files \<Rightarrow> bool" where
  "vacant p F \<longleftrightarrow> (\<forall>q. below p q \<longrightarrow> F q = None)"

lemma vacant_sibling:
  "vacant (p @ ''/'' @ d') F \<Longrightarrow> good_name d \<Longrightarrow> good_name d' \<Longrightarrow> d \<noteq> d' \<Longrightarrow>
   vacant (p @ ''/'' @ d') (put_node E (p @ ''/'' @ d) x F)"
  unfolding vacant_def good_name_def by (metis siblings_apart put_node_other(1))

lemma vacant_child: "vacant p F \<Longrightarrow> vacant (p @ ''/'' @ d) (F(p \<mapsto> z))"
  using below_child [of p d] by (auto simp: vacant_def)

lemma run_file:
  assumes ok: "\<And>c. \<not> fails E c" and wf: "wf_node n (Reg mode sz content mt at)"
    and nm: "good_name nm" "length nm < PATHSIZE" and T: "ready T fr" "T \<noteq> []"
    and free: "k_files k (T @ ''/'' @ nm) = None" and inp: "k_in k = stream E nm (Reg mode sz content mt at) @ r"
  obtains fr' where
    "sink_run E (fr # frs) k = sink_run E (fr' # frs)
      (k\<lparr>k_in := r, k_out := k_out k @ replicate (acks E (Reg mode sz content mt at)) nul,
         k_files := put_node E (T @ ''/'' @ nm) (Reg mode sz content mt at) (k_files k)\<rparr>)"
    "ready T fr'"
proof -
  let ?rec = "file_record CHR ''C'' mode sz nm @ content @ nul # r"
  obtain f1 where f1: "sink_run E (fr # frs) k =
      sink_run E (f1 # frs) (k\<lparr>k_in := ?rec, k_out := k_out k @ replicate (if pflag E then 1 else 0) nul\<rparr>)"
    "f_isdir f1" "f_targ f1 = T" "f_setimes f1 = pflag E" "pflag E \<Longrightarrow> f_tv f1 = ((at, 0), (mt, 0))"
    using run_times [of k E mt at ?rec T fr frs] inp wf T(1) by auto
  let ?k1 = "k\<lparr>k_in := ?rec, k_out := k_out k @ replicate (if pflag E then 1 else 0) nul\<rparr>"
  let ?p = "T @ ''/'' @ nm"
  have p: "target_name f1 nm = ?p" using f1(2,3) T(2) by (simp add: target_name_def)
  have sz: "sz = length content" using wf by simp
  have "sink_turn E f1 ?k1 = store_file E ?p mode sz (f1\<lparr>f_first := False\<rparr>) (?k1\<lparr>k_in := content @ nul # r\<rparr>)"
    using turn_file [of ?k1 "CHR ''C''" mode sz nm "content @ nul # r" E f1] wf nm by (simp add: good_name_def p)
  also have "\<dots> = Next (f1\<lparr>f_first := False, f_setimes := False\<rparr>)
      (k\<lparr>k_in := r, k_out := k_out k @ replicate (if pflag E then 1 else 0) nul @ [nul, nul],
         k_files := put_node E ?p (Reg mode sz content mt at) (k_files k)\<rparr>)"
    unfolding sz using free f1(4,5)
    by (subst store_file_ok [OF ok, of _ _ _ r]) (cases "pflag E"; simp)+
  finally have turn: "sink_turn E f1 ?k1 = \<dots>" .
  have "replicate (if pflag E then 1 else 0) nul @ [nul, nul] = replicate (acks E (Reg mode sz content mt at)) nul"
    by (simp add: numeral_2_eq_2)
  with f1(1) run_next [OF turn, of frs] show ?thesis
    using that [of "f1\<lparr>f_first := False, f_setimes := False\<rparr>"] f1(2,3) by (simp add: ready_def)
qed

text \<open>A folder: the record before its entries, and the record after them.\<close>

lemma run_enter:
  assumes ok: "\<And>c. \<not> fails E c" and wf: "mode < 4096" "mt < 2 ^ 63" "at < 2 ^ 63"
    and nm: "good_name nm" "length nm < PATHSIZE" and T: "ready T fr" "T \<noteq> []"
    and free: "k_files k (T @ ''/'' @ nm) = None"
    and inp: "k_in k = (if pflag E then time_record mt at else []) @ file_record CHR ''D'' mode 0 nm @ r"
  obtains f g where
    "sink_run E (fr # frs) k = sink_run E (f # g # frs)
      (k\<lparr>k_in := r, k_out := k_out k @ replicate ((if pflag E then 1 else 0) + 1) nul,
         k_files := (k_files k)(T @ ''/'' @ nm \<mapsto> SDir (masked E mode) None)\<rparr>)"
    "ready (T @ ''/'' @ nm) f" "f_isdir g" "f_targ g = T" "f_setimes g = pflag E"
    "pflag E \<Longrightarrow> f_tv g = ((at, 0), (mt, 0))"
proof -
  let ?rec = "file_record CHR ''D'' mode 0 nm @ r"
  let ?k1 = "k\<lparr>k_in := ?rec, k_out := k_out k @ replicate (if pflag E then 1 else 0) nul\<rparr>"
  let ?p = "T @ ''/'' @ nm"
  let ?F = "(k_files k)(?p \<mapsto> SDir (masked E mode) None)"
  obtain g where g: "sink_run E (fr # frs) k = sink_run E (g # frs) ?k1"
    "f_isdir g" "f_targ g = T" "f_setimes g = pflag E" "pflag E \<Longrightarrow> f_tv g = ((at, 0), (mt, 0))"
    using run_times [of k E mt at ?rec T fr frs] inp wf T(1) by auto
  have p: "target_name g nm = ?p" using g(2,3) T(2) by (simp add: target_name_def)
  have "sink_turn E g ?k1 = store_folder E ?p mode (g\<lparr>f_first := False\<rparr>) (?k1\<lparr>k_in := r\<rparr>)"
    using turn_file [of ?k1 "CHR ''D''" mode 0 nm r E g] wf nm by (simp add: good_name_def p)
  also have "\<dots> = Enter ?p (g\<lparr>f_first := False\<rparr>) (?k1\<lparr>k_in := r, k_files := ?F\<rparr>)"
    using ok free by (simp add: store_folder_def do_mkdir_def)
  finally have turn: "sink_turn E g ?k1 = \<dots>" .
  let ?f = "\<lparr>f_targ = ?p, f_isdir = True, f_setimes = False, f_tv = ((0, 0), (0, 0)), f_first = True\<rparr>"
  have ent: "sink_enter E ?p (?k1\<lparr>k_in := r, k_files := ?F\<rparr>) = (Some ?f, sink_reply [nul] (?k1\<lparr>k_in := r, k_files := ?F\<rparr>))"
    by (simp add: sink_enter_def is_dir_def)
  have "sink_run E (g # frs) ?k1 =
      sink_run E (?f # g\<lparr>f_first := False\<rparr> # frs) (sink_reply [nul] (?k1\<lparr>k_in := r, k_files := ?F\<rparr>))"
    by (subst sink_run.simps(2)) (simp only: turn ent sink_step.case prod.case option.case)
  moreover have "sink_reply [nul] (?k1\<lparr>k_in := r, k_files := ?F\<rparr>) =
      k\<lparr>k_in := r, k_out := k_out k @ replicate ((if pflag E then 1 else 0) + 1) nul, k_files := ?F\<rparr>"
    by (simp add: sink_reply_def replicate_append_same [symmetric])
  ultimately show ?thesis using g by (intro that [of ?f "g\<lparr>f_first := False\<rparr>"]) (simp_all add: ready_def)
qed

lemma run_leave:
  assumes ok: "\<And>c. \<not> fails E c" and f: "ready p f" and g: "f_isdir g" "f_targ g = T" "f_setimes g = pflag E"
    and tv: "pflag E \<Longrightarrow> f_tv g = ((at, 0), (mt, 0))"
    and here: "k_files k p = Some (SDir m None)" and inp: "k_in k = CHR ''E'' # newline # r"
  obtains g' where
    "sink_run E (f # g # frs) k = sink_run E (g' # frs) (k\<lparr>k_in := r, k_out := k_out k @ [nul],
      k_files := (if pflag E then (k_files k)(p \<mapsto> SDir m (Some ((at, 0), (mt, 0)))) else k_files k)\<rparr>)"
    "ready T g'"
proof -
  let ?F = "if pflag E then (k_files k)(p \<mapsto> SDir m (Some ((at, 0), (mt, 0)))) else k_files k"
  let ?k2 = "k\<lparr>k_in := r, k_out := k_out k @ [nul], k_files := ?F\<rparr>"
  have "set_times E p g (sink_reply [nul] (k\<lparr>k_in := r\<rparr>)) = (g\<lparr>f_setimes := False\<rparr>, ?k2, True)"
    using ok g tv here by (cases "pflag E") (simp_all add: set_times_def sink_reply_def do_utimes_def)
  then have "sink_run E (f # g # frs) k = sink_run E (g\<lparr>f_setimes := False\<rparr> # frs) ?k2"
    using f by (subst sink_run.simps(2)) (simp add: turn_end [OF inp] ready_def)
  then show ?thesis using g by (intro that [of "g\<lparr>f_setimes := False\<rparr>"]) (simp_all add: ready_def)
qed

lemma wf_entries_good: "wf_entries n ents \<Longrightarrow> (i, d, x) \<in> set ents \<Longrightarrow> good_name d"
  by (induction ents) auto

lemma sink_stores:
  assumes ok: "\<And>c. \<not> fails E c"
  shows "wf_node n node \<Longrightarrow> good_name nm \<Longrightarrow> length nm < PATHSIZE \<Longrightarrow> ready T fr \<Longrightarrow> T \<noteq> [] \<Longrightarrow>
      vacant (T @ ''/'' @ nm) (k_files k) \<Longrightarrow> k_in k = stream E nm node @ r \<Longrightarrow>
      \<exists>fr'. ready T fr' \<and> sink_run E (fr # frs) k = sink_run E (fr' # frs)
        (k\<lparr>k_in := r, k_out := k_out k @ replicate (acks E node) nul, k_files := put_node E (T @ ''/'' @ nm) node (k_files k)\<rparr>)"
    and "wf_entries n ents \<Longrightarrow> distinct (map (\<lambda>(i, d, x). d) ents) \<Longrightarrow> ready T fr \<Longrightarrow> T \<noteq> [] \<Longrightarrow>
      (\<And>d. d \<in> set (map (\<lambda>(i, d, x). d) ents) \<Longrightarrow> vacant (T @ ''/'' @ d) (k_files k)) \<Longrightarrow> k_in k = streams E ents @ r \<Longrightarrow>
      \<exists>fr'. ready T fr' \<and> sink_run E (fr # frs) k = sink_run E (fr' # frs)
        (k\<lparr>k_in := r, k_out := k_out k @ replicate (acks_entries E ents) nul, k_files := put_entries E T ents (k_files k)\<rparr>)"
proof (induction n node and n ents arbitrary: nm T fr frs k r and T fr frs k r rule: wf_node_wf_entries.induct)
  case (1 n mode sz content mt at)
  have "k_files k (T @ ''/'' @ nm) = None" using 1(6) by (simp add: vacant_def below_def)
  from run_file [OF ok 1(1-5) this 1(7), of frs] show ?case by metis
next
  case (2 n mode mt at ents)
  let ?p = "T @ ''/'' @ nm"
  let ?r = "CHR ''E'' # newline # r"
  have wf: "mode < 4096" "mt < 2 ^ 63" "at < 2 ^ 63" "distinct (map (\<lambda>(i, d, x). d) ents)" "wf_entries n ents"
    using 2(2) by simp_all
  have "k_files k ?p = None" using 2(7) by (simp add: vacant_def below_def)
  then obtain f g where entered: "sink_run E (fr # frs) k = sink_run E (f # g # frs)
      (k\<lparr>k_in := streams E ents @ ?r, k_out := k_out k @ replicate ((if pflag E then 1 else 0) + 1) nul,
         k_files := (k_files k)(?p \<mapsto> SDir (masked E mode) None)\<rparr>)"
    and f: "ready ?p f" and g: "f_isdir g" "f_targ g = T" "f_setimes g = pflag E" "pflag E \<Longrightarrow> f_tv g = ((at, 0), (mt, 0))"
    using run_enter [OF ok wf(1-3) 2(3-6), where r = "streams E ents @ ?r" and frs = frs and k = k] 2(8) by auto
  let ?k1 = "k\<lparr>k_in := streams E ents @ ?r, k_out := k_out k @ replicate ((if pflag E then 1 else 0) + 1) nul,
         k_files := (k_files k)(?p \<mapsto> SDir (masked E mode) None)\<rparr>"
  have vac: "vacant (?p @ ''/'' @ d) (k_files ?k1)" for d
    using vacant_child [OF 2(7), of d "SDir (masked E mode) None"] by simp
  have inp: "k_in ?k1 = streams E ents @ ?r" and p: "?p \<noteq> []" by simp_all
  from 2(1) [OF wf(5,4) f p vac inp, of "g # frs"]
  obtain f' where f': "ready ?p f'" and body: "sink_run E (f # g # frs) ?k1 = sink_run E (f' # g # frs)
      (?k1\<lparr>k_in := ?r, k_out := k_out ?k1 @ replicate (acks_entries E ents) nul, k_files := put_entries E ?p ents (k_files ?k1)\<rparr>)"
    by (elim exE conjE) (rule that)
  let ?k2 = "?k1\<lparr>k_in := ?r, k_out := k_out ?k1 @ replicate (acks_entries E ents) nul,
    k_files := put_entries E ?p ents (k_files ?k1)\<rparr>"
  have here: "k_files ?k2 ?p = Some (SDir (masked E mode) None)"
    using put_node_other(2) [of ?p ?p E ents "k_files ?k1"] by simp
  obtain g' where g': "ready T g'" and leave: "sink_run E (f' # g # frs) ?k2 = sink_run E (g' # frs) (?k2\<lparr>k_in := r,
      k_out := k_out ?k2 @ [nul],
      k_files := (if pflag E then (k_files ?k2)(?p \<mapsto> SDir (masked E mode) (Some ((at, 0), (mt, 0)))) else k_files ?k2)\<rparr>)"
    using run_leave [OF ok f' g here, of r frs] by auto
  have "replicate ((if pflag E then 1 else 0) + 1) nul @ replicate (acks_entries E ents) nul @ [nul] =
      replicate (acks E (Folder mode mt at ents)) nul"
    by (simp add: replicate_add replicate_append_same)
  with entered body leave g' show ?case by (intro exI [of _ g'] conjI) (simp_all add: Let_def fun_upd_def)
next
  case (5 n)
  then have e: "k\<lparr>k_in := r, k_out := k_out k @ replicate (acks_entries E []) nul, k_files := put_entries E T [] (k_files k)\<rparr> = k"
    by auto
  show ?case unfolding e using 5(3) by blast
next
  case (6 n ino d x ents)
  have wf: "ino \<noteq> 0" "good_name d" "length d < PATHSIZE" "wf_node (n + 1 + length d) x" "wf_entries n ents"
    "distinct (map (\<lambda>(i, d, x). d) ents)" "d \<notin> set (map (\<lambda>(i, d, x). d) ents)"
    using 6(3,4) by (auto simp: image_iff)
  have vac: "vacant (T @ ''/'' @ d) (k_files k)" using 6(7) by simp
  obtain f where f: "ready T f" and first: "sink_run E (fr # frs) k = sink_run E (f # frs)
      (k\<lparr>k_in := streams E ents @ r, k_out := k_out k @ replicate (acks E x) nul,
         k_files := put_node E (T @ ''/'' @ d) x (k_files k)\<rparr>)"
    using 6(1) [OF wf(4,2,3) 6(5,6) vac, of "streams E ents @ r" frs] 6(8) by auto
  let ?k1 = "k\<lparr>k_in := streams E ents @ r, k_out := k_out k @ replicate (acks E x) nul,
         k_files := put_node E (T @ ''/'' @ d) x (k_files k)\<rparr>"
  have vac': "vacant (T @ ''/'' @ d') (k_files ?k1)" if d': "d' \<in> set (map (\<lambda>(i, d, x). d) ents)" for d'
  proof -
    have "good_name d'" using wf_entries_good [OF wf(5)] d' by auto
    moreover have "d \<noteq> d'" using wf(7) d' by metis
    moreover have "vacant (T @ ''/'' @ d') (k_files k)" using 6(7) [of d'] d' by simp
    ultimately show ?thesis using vacant_sibling wf(2) by simp
  qed
  have inp: "k_in ?k1 = streams E ents @ r" by simp
  have "\<exists>fr'. ready T fr' \<and> sink_run E (f # frs) ?k1 = sink_run E (fr' # frs)
      (?k1\<lparr>k_in := r, k_out := k_out ?k1 @ replicate (acks_entries E ents) nul, k_files := put_entries E T ents (k_files ?k1)\<rparr>)"
    by (rule 6(2) [OF wf(5,6) f 6(6) _ inp]) (rule vac')
  then obtain f' where "ready T f'" "sink_run E (f # frs) ?k1 = sink_run E (f' # frs)
      (?k1\<lparr>k_in := r, k_out := k_out ?k1 @ replicate (acks_entries E ents) nul, k_files := put_entries E T ents (k_files ?k1)\<rparr>)"
    by (elim exE conjE) (rule that)
  with first show ?case by (intro exI [of _ f']) (simp add: replicate_add)
qed auto

end
