(* ===== verification/Rcp_Properties.thy ===== *)
theory Rcp_Properties
  imports Rcp_Exchange
begin

text \<open>What holds of copying over the network with \<^verbatim>\<open>rcp\<close>.\<close>

section \<open>Steps of the receiver that go wrong\<close>




section \<open>Whole copies\<close>


definition quiet_env :: "bool \<Rightarrow> rcp_env" where
  "quiet_env p = \<lparr>pflag = p, recursive = True, iamremote = False, wantdir = False, umask = 18, blkcnt = BUFSIZE,
                  fails = (\<lambda>c. False), errtext = ''rcp: failed''\<rparr>"


section \<open>Failures\<close>




text \<open>The times of a folder can break the exchange. When a folder inside is finished and its times cannot be set,
  the receiver answers its end with a null byte and then with the text of an error besides: two answers to one
  record, while the sender reads one for each. From there on the sender takes each answer for that of the record
  after it, and a file that follows is passed over.
\<close>

theorem folder_answers_twice:
  assumes "f_setimes g" "fails E (Utimes (f_targ f))" "k_in k = CHR ''E'' # newline # r"
  shows "sink_run E (f # g # frs) k =
    sink_run E (g\<lparr>f_setimes := False\<rparr> # frs)
      (k\<lparr>k_in := r, k_out := k_out k @ nul # error_text (errtext E), k_errs := k_errs k + 1\<rparr>)"
proof -
  have "set_times E (f_targ f) g (sink_reply [nul] (k\<lparr>k_in := r\<rparr>)) = (g\<lparr>f_setimes := False\<rparr>,
      k\<lparr>k_in := r, k_out := k_out k @ nul # error_text (errtext E), k_errs := k_errs k + 1\<rparr>, False)"
    using assms(1,2) by (simp add: set_times_def sink_reply_def complain_def)
  then show ?thesis by (subst sink_run.simps(2)) (simp add: turn_end [OF assms(3)])
qed

definition broken_env :: rcp_env where
  "broken_env = (quiet_env True)\<lparr>fails := (\<lambda>c. case c of Utimes p \<Rightarrow> True | _ \<Rightarrow> False)\<rparr>"

definition example_frame :: "string \<Rightarrow> frame" where
  "example_frame p = \<lparr>f_targ = p, f_isdir = True, f_setimes = True, f_tv = ((1, 0), (2, 0)), f_first = False\<rparr>"

lemma folder_answers_twice_witness:
  "k_out (snd (sink_run broken_env [example_frame ''t/a'', example_frame ''t'']
      \<lparr>k_in = [CHR ''E'', newline], k_out = [], k_files = Map.empty, k_errs = 0\<rparr>)) = nul # error_text ''rcp: failed''"
proof -
  have "sink_run E [f] k = (Finished, k)" if "k_in k = []" for E f k
    using that by (subst sink_run.simps(2)) (simp add: sink_turn_def)
  then show ?thesis
    using folder_answers_twice [of "example_frame ''t''" broken_env "example_frame ''t/a''"
      "\<lparr>k_in = [CHR ''E'', newline], k_out = [], k_files = Map.empty, k_errs = 0\<rparr>" "[]" "[]"]
    by (simp add: example_frame_def broken_env_def quiet_env_def)
qed

section \<open>Names\<close>

text \<open>The receiver believes the names it is sent. For every name in a file record, with slashes or two dots in it
  as well, the bytes that follow are stored at the target directory, a slash and that name: a sender, which may be
  the other host, chooses where in the file system of the receiver it writes.
\<close>

theorem names_not_checked:
  assumes "\<And>c. \<not> fails E c" "mode < 4096" "length content < 2 ^ 31" "newline \<notin> set nm" "nul \<notin> set nm"
    and "length nm < PATHSIZE" "T \<noteq> []" "is_dir F T" "F (T @ ''/'' @ nm) = None"
  shows "sink_start E T F (file_record CHR ''C'' mode (length content) nm @ content @ [nul]) =
    (Finished, \<lparr>k_in = [], k_out = [nul, nul, nul],
                k_files = F(T @ ''/'' @ nm \<mapsto> SReg (masked E mode) content None), k_errs = 0\<rparr>)"
proof -
  let ?rec = "file_record CHR ''C'' mode (length content) nm @ content @ [nul]"
  let ?fr = "\<lparr>f_targ = T, f_isdir = True, f_setimes = False, f_tv = ((0, 0), (0, 0)), f_first = True\<rparr>"
  let ?k = "\<lparr>k_in = ?rec, k_out = [nul], k_files = F, k_errs = 0\<rparr>"
  have "sink_start E T F ?rec = sink_run E [?fr] ?k"
    using assms(8) by (simp add: sink_start_def sink_enter_def sink_reply_def)
  moreover have "sink_turn E ?fr ?k = Next (?fr\<lparr>f_first := False\<rparr>)
      (?k\<lparr>k_in := [], k_out := [nul, nul, nul], k_files := F(T @ ''/'' @ nm \<mapsto> SReg (masked E mode) content None)\<rparr>)"
    using turn_file [of ?k "CHR ''C''" mode "length content" nm "content @ [nul]" E ?fr] assms(2-9)
      store_file_ok [OF assms(1), of "?k\<lparr>k_in := content @ [nul]\<rparr>" "T @ ''/'' @ nm" content "[]" mode "?fr\<lparr>f_first := False\<rparr>"]
    by (simp add: target_name_def)
  moreover have "sink_run E [f] k = (Finished, k)" if "k_in k = []" for f k
    using that by (subst sink_run.simps(2)) (simp add: sink_turn_def)
  ultimately show ?thesis by (simp add: run_next)
qed

lemma names_not_checked_witness:
  "sink_start (quiet_env False) ''t'' [''t'' \<mapsto> SDir 493 None]
      (file_record CHR ''C'' 384 1 ''../.rhosts'' @ ''+'' @ [nul]) =
    (Finished, \<lparr>k_in = [], k_out = [nul, nul, nul],
      k_files = [''t'' \<mapsto> SDir 493 None, ''t/../.rhosts'' \<mapsto> SReg 384 ''+'' None], k_errs = 0\<rparr>)"
  using names_not_checked [of "quiet_env False" 384 "''+''" "''../.rhosts''" "''t''" "[''t'' \<mapsto> SDir 493 None]"]
  by (simp add: quiet_env_def masked_def newline_def nul_def PATHSIZE_def is_dir_def)

end
