(* ===== verification/Rcp_Command.thy ===== *)
theory Rcp_Command
  imports Rcp_Copy
begin

text \<open>
  What \<^verbatim>\<open>rcp\<close> does for its arguments: \<open>toremote\<close> and \<open>tolocal\<close> as the list of the commands they run, the connections
  they make and the copies they start. A command that is run for a copy between two other hosts, or between
  two files here, is a line for the shell.
\<close>

datatype action =
    Shell string
  | Rcmd string string string
  | Response
  | Send_file string
  | Receive string
  | Verify_dir string
  | Quit

record cmd_env =
  pw_name :: string
  path_rsh :: string
  path_cp :: string
  connects :: "string \<Rightarrow> string \<Rightarrow> bool"
  accepted :: bool
  flag_r :: bool
  flag_p :: bool
  flag_d :: bool

text \<open>A name cut at its colon, and at its first at-sign.\<close>

definition colon_split :: "string \<Rightarrow> (string \<times> string) option" where
  "colon_split s = map_option (\<lambda>r. (take (length s - length r) s, tl r)) (colon s)"

definition at_split :: "string \<Rightarrow> (string \<times> string) option" where
  "at_split s =
     (if CHR ''@'' \<in> set s
      then Some (takeWhile (\<lambda>c. c \<noteq> CHR ''@'') s, tl (dropWhile (\<lambda>c. c \<noteq> CHR ''@'') s)) else None)"

definition or_dot :: "string \<Rightarrow> string" where
  "or_dot s = (if s = [] then ''.'' else s)"

text \<open>The command for the other host; \<open>n\<close> is the number of arguments.\<close>

definition remote_cmd :: "cmd_env \<Rightarrow> nat \<Rightarrow> string" where
  "remote_cmd E n = ''rcp'' @ (if flag_r E then '' -r'' else []) @ (if flag_p E then '' -p'' else []) @
     (if flag_d E \<or> 2 < n then '' -d'' else [])"

text \<open>A user name that is given must be one of letters, digits, underlines and hyphens.\<close>

datatype user = Bad_user | No_user | User string

definition user_part :: "string \<Rightarrow> user \<times> string" where
  "user_part s =
     (case at_split s of
        None \<Rightarrow> (No_user, s)
      | Some (u, h) \<Rightarrow> (if u = [] then No_user else if okname u then User u else Bad_user, h))"

definition third_party :: "cmd_env \<Rightarrow> string \<Rightarrow> string \<Rightarrow> string \<Rightarrow> user \<Rightarrow> string \<Rightarrow> string \<Rightarrow> string option" where
  "third_party E cmd arg src tuser thost targ =
     (let target = (case tuser of User u \<Rightarrow> u @ ''@'' | _ \<Rightarrow> []) @ thost @ '':'' @ targ;
          rest = '' -n '' @ cmd @ '' '' @ src @ '' '' @ [CHR 0x27] @ target @ [CHR 0x27]
      in case at_split arg of
           None \<Rightarrow> Some (path_rsh E @ '' '' @ arg @ rest)
         | Some (u, host) \<Rightarrow>
             if u = [] then Some (path_rsh E @ '' '' @ host @ '' -l '' @ pw_name E @ rest)
             else if okname u then Some (path_rsh E @ '' '' @ host @ '' -l '' @ u @ rest)
             else None)"

text \<open>The arguments but the last; \<open>rem\<close> tells whether the connection to the target is open.\<close>

fun remote_each :: "cmd_env \<Rightarrow> string \<Rightarrow> user \<Rightarrow> string \<Rightarrow> string \<Rightarrow> bool \<Rightarrow> string list \<Rightarrow> action list" where
  "remote_each E cmd tuser thost targ rem [] = []"
| "remote_each E cmd tuser thost targ rem (a # as) =
     (case colon_split a of
        Some (arg, src) \<Rightarrow>
          (case third_party E cmd arg (or_dot src) tuser thost targ of
             None \<Rightarrow> remote_each E cmd tuser thost targ rem as
           | Some line \<Rightarrow> Shell line # remote_each E cmd tuser thost targ rem as)
      | None \<Rightarrow>
          if rem then Send_file a # remote_each E cmd tuser thost targ rem as
          else
            let ruser = (case tuser of User u \<Rightarrow> u | _ \<Rightarrow> pw_name E)
            in Rcmd thost ruser (cmd @ '' -t '' @ targ) #
               (if \<not> connects E thost ruser then [Quit]
                else Response # (if \<not> accepted E then [Quit]
                                 else Send_file a # remote_each E cmd tuser thost targ True as)))"

definition toremote :: "cmd_env \<Rightarrow> string list \<Rightarrow> string \<times> string \<Rightarrow> action list" where
  "toremote E srcs tgt =
     (let (tuser, thost) = user_part (fst tgt)
      in if tuser = Bad_user then [Quit]
         else remote_each E (remote_cmd E (length srcs + 1)) tuser thost (or_dot (snd tgt)) False srcs)"

definition copy_here :: "cmd_env \<Rightarrow> string \<Rightarrow> string \<Rightarrow> string" where
  "copy_here E a target =
     path_cp E @ (if flag_r E then '' -r'' else []) @ (if flag_p E then '' -p'' else []) @ '' '' @ a @ '' '' @ target"

text \<open>The errors counted are the connections that fail.\<close>

fun tolocal :: "cmd_env \<Rightarrow> string \<Rightarrow> string \<Rightarrow> string list \<Rightarrow> action list \<times> nat" where
  "tolocal E cmd target [] = ([], 0)"
| "tolocal E cmd target (a # as) =
     (let (acts, errs) = tolocal E cmd target as
      in case colon_split a of
           None \<Rightarrow> (Shell (copy_here E a target) # acts, errs)
         | Some (arg, src) \<Rightarrow>
             (case user_part arg of
                (Bad_user, host) \<Rightarrow> (acts, errs)
              | (u, host) \<Rightarrow>
                  let suser = (case u of User n \<Rightarrow> n | _ \<Rightarrow> pw_name E);
                      c = Rcmd host suser (cmd @ '' -f '' @ or_dot src)
                  in if connects E host suser then (c # Receive target # acts, errs) else (c # acts, errs + 1)))"

definition rcp_local :: "cmd_env \<Rightarrow> string list \<Rightarrow> action list" where
  "rcp_local E args =
     (case colon_split (last args) of
        Some t \<Rightarrow> toremote E (butlast args) t
      | None \<Rightarrow>
          fst (tolocal E (remote_cmd E (length args)) (last args) (butlast args)) @
            (if flag_d E \<or> 2 < length args then [Verify_dir (last args)] else []))"

section \<open>Users\<close>

lemma user_part_ok: "user_part s = (User u, h) \<Longrightarrow> okname u"
  by (auto simp: user_part_def split: option.splits if_splits)

lemma remote_each_users:
  "Rcmd h u c \<in> set (remote_each E cmd tuser thost targ rem as) \<Longrightarrow>
   (case tuser of User n \<Rightarrow> u = n | _ \<Rightarrow> u = pw_name E)"
  by (induction as arbitrary: rem) (auto simp: Let_def split: option.splits if_splits user.splits prod.splits)

lemma tolocal_users:
  "Rcmd h u c \<in> set (fst (tolocal E cmd target as)) \<Longrightarrow> u = pw_name E \<or> okname u"
proof (induction as)
  case (Cons a as)
  obtain acts errs where r: "tolocal E cmd target as = (acts, errs)" by fastforce
  show ?case
  proof (cases "colon_split a")
    case None
    with Cons r show ?thesis by auto
  next
    case (Some q)
    obtain arg src where q: "q = (arg, src)" by fastforce
    obtain us host where up: "user_part arg = (us, host)" by fastforce
    from Cons r Some q up user_part_ok [of arg _ host] show ?thesis
      by (cases us) (auto simp: Let_def split: if_splits)
  qed
qed simp

text \<open>No other host is reached under a name that is neither the user's own nor one that was checked.\<close>

lemma users_checked:
  assumes "Rcmd h u c \<in> set (rcp_local E args)"
  shows "u = pw_name E \<or> okname u"
proof (cases "colon_split (last args)")
  case None
  with assms show ?thesis using tolocal_users by (auto simp: rcp_local_def split: if_splits)
next
  case (Some t)
  obtain us host where up: "user_part (fst t) = (us, host)" by fastforce
  with assms Some have "Rcmd h u c \<in> set (remote_each E (remote_cmd E (length (butlast args) + 1)) us host (or_dot (snd t)) False (butlast args))"
    by (auto simp: rcp_local_def toremote_def Let_def split: if_splits)
  from remote_each_users [OF this] user_part_ok [of "fst t" _ host] up show ?thesis by (cases us) auto
qed

end
