(* ===== verification/Ftpd_Scan.thy ===== *)
theory Ftpd_Scan
  imports Netkit_Text
begin

text \<open>
  The commands of the file transfer server as they are read (\<^verbatim>\<open>linux-ftpd/ftpd/ftpcmd.y\<close>): the line
  (\<open>ftpd_getline\<close>), its tokens (\<open>yylex\<close>) and the grammar. The buffer \<open>cbuf\<close> and the memory after it are one list of
  bytes, from which the code reads strings that end at a null byte; what is past the list reads as null.
\<close>

section \<open>Memory\<close>

definition null :: char where "null = CHR 0x00"
definition lf :: char where "lf = CHR 0x0A"
definition cr :: char where "cr = CHR 0x0D"
definition blank :: char where "blank = CHR 0x20"

definition byte_at :: "string \<Rightarrow> nat \<Rightarrow> char" where
  "byte_at m i = (if i < length m then m ! i else null)"

definition cstr :: "string \<Rightarrow> nat \<Rightarrow> string" where
  "cstr m i = takeWhile (\<lambda>c. c \<noteq> null) (drop i m)"

definition put_cstr :: "string \<Rightarrow> string \<Rightarrow> string" where
  "put_cstr s m = s @ null # drop (length s + 1) m"

text \<open>The place of the first of some characters in a string.\<close>

definition strpbrk :: "string \<Rightarrow> nat \<Rightarrow> string \<Rightarrow> nat option" where
  "strpbrk m i cs =
     (let s = cstr m i; k = length (takeWhile (\<lambda>c. c \<notin> set cs) s) in if k < length s then Some (i + k) else None)"

section \<open>A line\<close>

definition iac :: char where "iac = CHR 0xFF"

definition telnet_will :: char where "telnet_will = CHR 0xFB"
definition telnet_wont :: char where "telnet_wont = CHR 0xFC"
definition telnet_do :: char where "telnet_do = CHR 0xFD"
definition telnet_dont :: char where "telnet_dont = CHR 0xFE"

text \<open>
  The next character to store, if any, the input after it, and the answer to a request for an option. An escape the
  input ends in is stored as 255.
\<close>

definition telnet_item :: "char \<Rightarrow> string \<Rightarrow> char option \<times> string \<times> string" where
  "telnet_item c r =
     (if c \<noteq> iac then (Some c, r, [])
      else case r of
        [] \<Rightarrow> (Some iac, [], [])
      | d # r1 \<Rightarrow>
          if d \<in> {telnet_will, telnet_wont, telnet_do, telnet_dont} then
            (None, tl r1, [iac, if d \<in> {telnet_will, telnet_wont} then telnet_dont else telnet_wont,
                           if r1 = [] then CHR 0xFF else hd r1])
          else if d = iac then (Some iac, r1, [])
          else (None, r1, []))"

lemma telnet_item_le: "telnet_item c r = (x, r', a) \<Longrightarrow> length r' \<le> length r"
  by (auto simp: telnet_item_def split: if_splits list.splits)

text \<open>What is stored when \<open>n\<close> is left: the characters, the input after them, the answers, and whether the input has ended.\<close>

function fill_line :: "nat \<Rightarrow> string \<Rightarrow> string \<times> string \<times> string \<times> bool" where
  "fill_line n [] = ([], [], [], True)"
| "fill_line n (c # r) =
     (case telnet_item c r of
        (None, r1, a) \<Rightarrow> (case fill_line n r1 of (x, r', b, e) \<Rightarrow> (x, r', a @ b, e))
      | (Some k, r1, a) \<Rightarrow>
          if n \<le> 1 \<or> k = lf then ([k], r1, [], False)
          else (case fill_line (n - 1) r1 of (x, r', b, e) \<Rightarrow> (k # x, r', b, e)))"
  by pat_completeness auto
termination
  by (relation "measure (\<lambda>(n, inp). length inp)") (auto dest!: telnet_item_le [OF sym] simp: le_imp_less_Suc)

declare fill_line.simps(2) [simp del]

text \<open>
  What an interrupted command has left in \<open>tmpline\<close> comes first. The result is the text stored (before the null
  byte), or nothing when the client has gone.
\<close>

fun saved_line :: "nat \<Rightarrow> string \<Rightarrow> string \<times> nat \<times> bool" where
  "saved_line n [] = ([], n, False)"
| "saved_line n (c # cs) =
     (if n \<le> 1 then ([], n - 1, False)
      else if c = lf then ([c], n - 1, True)
      else case saved_line (n - 1) cs of (x, k, e) \<Rightarrow> (c # x, k, e))"

definition ftpd_getline :: "string \<Rightarrow> nat \<Rightarrow> string \<Rightarrow> (string \<times> string \<times> string) option" where
  "ftpd_getline tmpline n inp =
     (case saved_line n tmpline of
        (x, k, True) \<Rightarrow> Some (x, inp, [])
      | (x, k, False) \<Rightarrow>
          (case fill_line k inp of
             (y, r, a, e) \<Rightarrow> if e \<and> x @ y = [] then None else Some (x @ y, r, a)))"

section \<open>Tokens\<close>

datatype cmd =
    USER | PASS | ACCT | SMNT | REIN | QUIT | PORT | PASV | TYP | STRU | MODE | RETR | STOR | APPE | MLFL | MAIL | MSND
  | MSOM | MSAM | MRSQ | MRCP | ALLO | REST | RNFR | RNTO | ABOR | DELE | CWD | LIST | NLST | SITE | SYST | STAT | HELP
  | NOOP | MKD | RMD | PWD | CDUP | STOU | SIZE | MDTM | UMASK | IDLE | CHMOD

datatype cmd_token = Cmd cmd | SP | CRLF | COMMA | Letter char | STRING string | NUMBER int

datatype lex_state = CMD | ARGS | STR1 | STR2 | OSTR | ZSTR1 | ZSTR2 | SITECMD | NSTR

type_synonym tab = "(string \<times> cmd \<times> lex_state \<times> bool) list"

definition cmdtab :: tab where
  "cmdtab =
    [(''USER'', USER, STR1, True), (''PASS'', PASS, ZSTR1, True), (''ACCT'', ACCT, STR1, False),
     (''SMNT'', SMNT, ARGS, False), (''REIN'', REIN, ARGS, False), (''QUIT'', QUIT, ARGS, True),
     (''PORT'', PORT, ARGS, True), (''PASV'', PASV, ARGS, True), (''TYPE'', TYP, ARGS, True),
     (''STRU'', STRU, ARGS, True), (''MODE'', MODE, ARGS, True), (''RETR'', RETR, STR1, True),
     (''STOR'', STOR, STR1, True), (''APPE'', APPE, STR1, True), (''MLFL'', MLFL, OSTR, False),
     (''MAIL'', MAIL, OSTR, False), (''MSND'', MSND, OSTR, False), (''MSOM'', MSOM, OSTR, False),
     (''MSAM'', MSAM, OSTR, False), (''MRSQ'', MRSQ, OSTR, False), (''MRCP'', MRCP, STR1, False),
     (''ALLO'', ALLO, ARGS, True), (''REST'', REST, ARGS, True), (''RNFR'', RNFR, STR1, True),
     (''RNTO'', RNTO, STR1, True), (''ABOR'', ABOR, ARGS, True), (''DELE'', DELE, STR1, True),
     (''CWD'', CWD, OSTR, True), (''XCWD'', CWD, OSTR, True), (''LIST'', LIST, OSTR, True),
     (''NLST'', NLST, OSTR, True), (''SITE'', SITE, SITECMD, True), (''SYST'', SYST, ARGS, True),
     (''STAT'', STAT, OSTR, True), (''HELP'', HELP, OSTR, True), (''NOOP'', NOOP, ARGS, True),
     (''MKD'', MKD, STR1, True), (''XMKD'', MKD, STR1, True), (''RMD'', RMD, STR1, True),
     (''XRMD'', RMD, STR1, True), (''PWD'', PWD, ARGS, True), (''XPWD'', PWD, ARGS, True),
     (''CDUP'', CDUP, ARGS, True), (''XCUP'', CDUP, ARGS, True), (''STOU'', STOU, STR1, True),
     (''SIZE'', SIZE, OSTR, True), (''MDTM'', MDTM, OSTR, True)]"

definition sitetab :: tab where
  "sitetab = [(''UMASK'', UMASK, ARGS, True), (''IDLE'', IDLE, ARGS, True), (''CHMOD'', CHMOD, NSTR, True),
              (''HELP'', HELP, OSTR, True)]"

definition lookup_cmd :: "tab \<Rightarrow> string \<Rightarrow> (string \<times> cmd \<times> lex_state \<times> bool) option" where
  "lookup_cmd p s = find (\<lambda>(name, x). s = name) p"

definition upper_char :: "char \<Rightarrow> char" where
  "upper_char c = (let n = of_char c :: nat in if 97 \<le> n \<and> n \<le> 122 then char_of (n - 32) else c)"

definition upper :: "nat \<Rightarrow> string \<Rightarrow> string" where
  "upper i m = (let s = cstr m i in take i m @ map upper_char s @ drop (i + length s) m)"

definition is_digit :: "char \<Rightarrow> bool" where
  "is_digit c \<longleftrightarrow> 48 \<le> (of_char c :: nat) \<and> (of_char c :: nat) \<le> 57"

fun atoi_value :: "int \<Rightarrow> string \<Rightarrow> int" where
  "atoi_value v [] = v"
| "atoi_value v (c # cs) = atoi_value (v * 10 + (of_char c - 48)) cs"

text \<open>\<open>atoi\<close> takes what \<open>strtol\<close> returns, which is cut to the largest \<open>long\<close>, to an \<open>int\<close>.\<close>

definition atoi_digits :: "string \<Rightarrow> int" where
  "atoi_digits s = sint (word_of_int (min (2 ^ 63 - 1) (atoi_value 0 s)) :: 32 word)"

record scanner =
  sc_mem :: string
  sc_pos :: nat
  sc_state :: lex_state

datatype lex = Token cmd_token scanner | Unknown scanner | Not_implemented string scanner

text \<open>
  The beginning of a line: a carriage return in it ends it, and its first word is looked up. When it has neither
  a blank nor a line feed, the position is still that of the line before.
\<close>

definition cut_cr :: "string \<Rightarrow> string" where
  "cut_cr m = (case strpbrk m 0 [cr] of None \<Rightarrow> m | Some i \<Rightarrow> (m[i := lf])[i + 1 := null])"

definition look_up_at :: "tab \<Rightarrow> nat \<Rightarrow> scanner \<Rightarrow> (string \<times> cmd \<times> lex_state \<times> bool) option \<times> scanner" where
  "look_up_at t i sc =
     (let pos = sc_pos sc; c = byte_at (sc_mem sc) pos; m = upper i ((sc_mem sc)[pos := null])
      in (lookup_cmd t (cstr m i), sc\<lparr>sc_mem := m[pos := c]\<rparr>))"

definition first_word :: "string \<Rightarrow> scanner \<Rightarrow> lex" where
  "first_word line sc =
     (let m = cut_cr (put_cstr line (sc_mem sc));
          pos = (case strpbrk m 0 [blank, lf] of None \<Rightarrow> sc_pos sc | Some k \<Rightarrow> k);
          pos' = (if pos = 0 then 4 else pos);
          (p, sc') = look_up_at cmdtab 0 (sc\<lparr>sc_mem := m, sc_pos := pos', sc_state := CMD\<rparr>)
      in case p of
           None \<Rightarrow> Unknown sc'
         | Some (name, tok, st, impl) \<Rightarrow>
             if impl then Token (Cmd tok) (sc'\<lparr>sc_state := st\<rparr>) else Not_implemented name sc')"

definition number_token :: "lex_state \<Rightarrow> scanner \<Rightarrow> lex" where
  "number_token st sc =
     (let ds = takeWhile is_digit (drop (sc_pos sc) (sc_mem sc))
      in Token (NUMBER (atoi_digits ds)) (sc\<lparr>sc_pos := sc_pos sc + length ds, sc_state := st\<rparr>))"

definition arg_token :: "scanner \<Rightarrow> lex" where
  "arg_token sc =
     (let c = byte_at (sc_mem sc) (sc_pos sc); sc' = sc\<lparr>sc_pos := sc_pos sc + 1\<rparr>
      in if is_digit c then number_token ARGS sc
         else if c = lf then Token CRLF (sc'\<lparr>sc_state := CMD\<rparr>)
         else if c = blank then Token SP sc'
         else if c = CHR '','' then Token COMMA sc'
         else if upper_char c \<in> set ''ABCEFILNPRST'' then Token (Letter (upper_char c)) sc'
         else Unknown (sc'\<lparr>sc_state := CMD\<rparr>))"

definition string_token :: "scanner \<Rightarrow> lex" where
  "string_token sc =
     (let s = cstr (sc_mem sc) (sc_pos sc); n = length s; sc' = sc\<lparr>sc_pos := sc_pos sc + n - 1\<rparr>
      in if 1 < n \<and> last s = lf then Token (STRING (butlast s)) (sc'\<lparr>sc_state := ARGS\<rparr>)
         else Unknown (sc'\<lparr>sc_state := CMD\<rparr>))"

definition site_word :: "scanner \<Rightarrow> lex" where
  "site_word sc =
     (let i = sc_pos sc;
          pos = (case strpbrk (sc_mem sc) i [blank, lf] of None \<Rightarrow> i | Some k \<Rightarrow> k);
          (p, sc') = look_up_at sitetab i (sc\<lparr>sc_pos := pos\<rparr>)
      in case p of
           None \<Rightarrow> Unknown (sc'\<lparr>sc_state := CMD\<rparr>)
         | Some (name, tok, st, impl) \<Rightarrow>
             if impl then Token (Cmd tok) (sc'\<lparr>sc_state := st\<rparr>) else Not_implemented name (sc'\<lparr>sc_state := CMD\<rparr>))"

definition space_token :: "lex_state \<Rightarrow> scanner \<Rightarrow> lex" where
  "space_token st sc =
     (if byte_at (sc_mem sc) (sc_pos sc) = blank
      then Token SP (sc\<lparr>sc_pos := sc_pos sc + 1, sc_state := st\<rparr>) else Unknown (sc\<lparr>sc_state := CMD\<rparr>))"

text \<open>The next token of a line whose first word has been taken.\<close>

definition next_token :: "scanner \<Rightarrow> lex" where
  "next_token sc =
     (let c = byte_at (sc_mem sc) (sc_pos sc)
      in case sc_state sc of
           CMD \<Rightarrow> Unknown sc
         | SITECMD \<Rightarrow> if c = blank then Token SP (sc\<lparr>sc_pos := sc_pos sc + 1\<rparr>) else site_word sc
         | OSTR \<Rightarrow> if c = lf then Token CRLF (sc\<lparr>sc_state := CMD\<rparr>) else space_token STR2 sc
         | STR1 \<Rightarrow> space_token STR2 sc
         | ZSTR1 \<Rightarrow> space_token ZSTR2 sc
         | ZSTR2 \<Rightarrow> if c = lf then Token CRLF (sc\<lparr>sc_state := CMD\<rparr>) else string_token sc
         | STR2 \<Rightarrow> string_token sc
         | NSTR \<Rightarrow>
             if c = blank then Token SP (sc\<lparr>sc_pos := sc_pos sc + 1\<rparr>)
             else if is_digit c then number_token STR1 sc
             else Unknown (sc\<lparr>sc_state := CMD\<rparr>)
         | ARGS \<Rightarrow> arg_token sc)"

end
