(* ===== verification/Ftpd_Grammar.thy ===== *)
theory Ftpd_Grammar
  imports Ftpd_Scan
begin

text \<open>
  The grammar of the server's commands (the rules of \<^verbatim>\<open>ftpcmd.y\<close>) and the parser that is made from it. After the
  word of a command the grammar is a list of sequences of tokens; the parser reads as long as one of them goes on
  with what it has. What a command means is said elsewhere; here is what is read of a line, and what is done with
  the rest of it after an error.
\<close>

section \<open>Rules\<close>

datatype sym = KSP | KCRLF | KCOMMA | KSTRING | KNUMBER | KLetter string | KCmd cmd

fun fits_token :: "sym \<Rightarrow> cmd_token \<Rightarrow> bool" where
  "fits_token KSP t = (t = SP)"
| "fits_token KCRLF t = (t = CRLF)"
| "fits_token KCOMMA t = (t = COMMA)"
| "fits_token KSTRING t = (case t of STRING s \<Rightarrow> True | _ \<Rightarrow> False)"
| "fits_token KNUMBER t = (case t of NUMBER n \<Rightarrow> True | _ \<Rightarrow> False)"
| "fits_token (KLetter cs) t = (case t of Letter c \<Rightarrow> c \<in> set cs | _ \<Rightarrow> False)"
| "fits_token (KCmd c) t = (t = Cmd c)"

definition host_port_syms :: "sym list" where
  "host_port_syms = [KNUMBER, KCOMMA, KNUMBER, KCOMMA, KNUMBER, KCOMMA, KNUMBER, KCOMMA, KNUMBER, KCOMMA, KNUMBER]"

definition type_codes :: "sym list list" where
  "type_codes =
    [[KLetter ''A''], [KLetter ''A'', KSP, KLetter ''NTC''], [KLetter ''E''], [KLetter ''E'', KSP, KLetter ''NTC''],
     [KLetter ''I''], [KLetter ''L''], [KLetter ''L'', KSP, KNUMBER], [KLetter ''L'', KNUMBER]]"

definition rules :: "cmd \<Rightarrow> sym list list" where
  "rules c =
    (case c of
       USER \<Rightarrow> [[KSP, KSTRING, KCRLF]]
     | PASS \<Rightarrow> [[KSP, KSTRING, KCRLF], [KSP, KCRLF]]
     | PORT \<Rightarrow> [KSP # host_port_syms @ [KCRLF]]
     | TYP \<Rightarrow> map (\<lambda>x. KSP # x @ [KCRLF]) type_codes
     | STRU \<Rightarrow> [[KSP, KLetter ''FRP'', KCRLF]]
     | MODE \<Rightarrow> [[KSP, KLetter ''SBC'', KCRLF]]
     | ALLO \<Rightarrow> [[KSP, KNUMBER, KCRLF], [KSP, KNUMBER, KSP, KLetter ''R'', KSP, KNUMBER, KCRLF]]
     | REST \<Rightarrow> [[KSP, KNUMBER, KCRLF]]
     | NLST \<Rightarrow> [[KCRLF], [KSP, KSTRING, KCRLF]]
     | LIST \<Rightarrow> [[KCRLF], [KSP, KSTRING, KCRLF]]
     | STAT \<Rightarrow> [[KCRLF], [KSP, KSTRING, KCRLF]]
     | CWD \<Rightarrow> [[KCRLF], [KSP, KSTRING, KCRLF]]
     | HELP \<Rightarrow> [[KCRLF], [KSP, KSTRING, KCRLF]]
     | SITE \<Rightarrow>
         [[KSP, KCmd HELP, KCRLF], [KSP, KCmd HELP, KSP, KSTRING, KCRLF], [KSP, KCmd UMASK, KCRLF],
          [KSP, KCmd UMASK, KSP, KNUMBER, KCRLF], [KSP, KCmd CHMOD, KSP, KNUMBER, KSP, KSTRING, KCRLF],
          [KSP, KCmd IDLE, KCRLF], [KSP, KCmd IDLE, KSP, KNUMBER, KCRLF]]
     | _ \<Rightarrow>
         if c \<in> {RETR, STOR, APPE, DELE, RNFR, RNTO, MKD, RMD, STOU, SIZE, MDTM} then [[KSP, KSTRING, KCRLF]]
         else if c \<in> {PASV, ABOR, NOOP, PWD, CDUP, SYST, QUIT} then [[KCRLF]]
         else [])"

section \<open>Reading a line\<close>

datatype parsed = Command "cmd_token list" scanner | Error "cmd_token list" cmd_token scanner | Scan_error "cmd_token list" scanner

text \<open>The sequences that are left after a token.\<close>

definition after :: "cmd_token \<Rightarrow> sym list list \<Rightarrow> sym list list" where
  "after t rs = map tl (filter (\<lambda>r. r \<noteq> [] \<and> fits_token (hd r) t) rs)"

lemma after_less: "after t rs \<noteq> [] \<Longrightarrow> sum_list (map length (after t rs)) < sum_list (map length rs)"
proof (induction rs)
  case (Cons r rs)
  have "sum_list (map length (after t rs)) \<le> sum_list (map length rs)"
    using Cons.IH by (cases "after t rs = []") simp_all
  with Cons show ?case by (cases r) (auto simp: after_def)
qed (simp add: after_def)

function parse :: "sym list list \<Rightarrow> cmd_token list \<Rightarrow> scanner \<Rightarrow> parsed" where
  "parse rs ts sc =
     (case next_token sc of
        Unknown sc' \<Rightarrow> Scan_error ts sc'
      | Not_implemented name sc' \<Rightarrow> Scan_error ts sc'
      | Token t sc' \<Rightarrow>
          let rs' = after t rs
          in if rs' = [] then Error ts t sc'
             else if [] \<in> set rs' then Command (ts @ [t]) sc'
             else parse rs' (ts @ [t]) sc')"
  by pat_completeness auto
termination by (relation "measure (\<lambda>(rs, ts, sc). sum_list (map length rs))") (auto simp: after_less)

declare parse.simps [simp del]

text \<open>
  \<open>yyerror\<close> puts a null byte in the place of the line feed and answers with what is left of the line. After an
  error of the grammar the parser throws tokens away until the end of the line.
\<close>

definition yyerror_mem :: "scanner \<Rightarrow> scanner" where
  "yyerror_mem sc = (case strpbrk (sc_mem sc) 0 [lf] of None \<Rightarrow> sc | Some i \<Rightarrow> sc\<lparr>sc_mem := (sc_mem sc)[i := null]\<rparr>)"

text \<open>How far a scanner can still go: every token is further in the memory or in a later state.\<close>

fun rank :: "lex_state \<Rightarrow> nat" where
  "rank SITECMD = 4" | "rank NSTR = 3" | "rank OSTR = 3" | "rank STR1 = 2" | "rank ZSTR1 = 2" | "rank STR2 = 1"
| "rank ZSTR2 = 1" | "rank ARGS = 0" | "rank CMD = 0"

definition room :: "scanner \<Rightarrow> nat \<times> nat" where
  "room sc = (length (sc_mem sc) - sc_pos sc, if sc_state sc = CMD then 0 else rank (sc_state sc) + 1)"

lemma byte_at_inside: "byte_at m i \<noteq> null \<Longrightarrow> i < length m"
  by (simp add: byte_at_def split: if_splits)

lemma cstr_inside: "i + length (cstr m i) \<le> length m \<or> cstr m i = []"
  using length_takeWhile_le [of "\<lambda>c. c \<noteq> null" "drop i m"] by (cases "i \<le> length m") (auto simp: cstr_def)

lemma digits_inside:
  assumes "is_digit (byte_at m i)"
  shows "0 < length (takeWhile is_digit (drop i m)) \<and> i < length m"
proof -
  have i: "i < length m" using assms by (auto simp: byte_at_def is_digit_def null_def split: if_splits)
  then have "drop i m = m ! i # drop (Suc i) m" by (simp add: Cons_nth_drop_Suc)
  with assms i show ?thesis by (simp add: byte_at_def)
qed

lemma number_token_room:
  assumes "is_digit (byte_at (sc_mem sc) (sc_pos sc))" "number_token st sc = Token t sc'"
  shows "(room sc', room sc) \<in> less_than <*lex*> less_than"
proof -
  have "length (sc_mem sc) - (sc_pos sc + length (takeWhile is_digit (drop (sc_pos sc) (sc_mem sc)))) <
      length (sc_mem sc) - sc_pos sc"
    using digits_inside [OF assms(1)] by linarith
  with assms(2) show ?thesis by (auto simp: number_token_def room_def Let_def)
qed

lemma chars_apart: "blank \<noteq> null" "lf \<noteq> null" "cr \<noteq> null" "CHR '','' \<noteq> null" "upper_char null \<notin> set ''ABCEFILNPRST''"
    "\<not> is_digit null" "lf \<noteq> blank" "cr \<noteq> lf" "cr \<noteq> blank" "iac \<noteq> lf"
  by (simp_all add: blank_def lf_def null_def cr_def upper_char_def is_digit_def iac_def)

lemma arg_token_room:
  assumes "arg_token sc = Token t sc'" "sc_state sc = ARGS"
  shows "(room sc', room sc) \<in> less_than <*lex*> less_than"
proof (cases "is_digit (byte_at (sc_mem sc) (sc_pos sc))")
  case True
  with assms number_token_room show ?thesis by (auto simp: arg_token_def)
next
  case False
  with assms have "byte_at (sc_mem sc) (sc_pos sc) \<noteq> null"
    using chars_apart by (auto simp: arg_token_def Let_def split: if_splits)
  then have "sc_pos sc < length (sc_mem sc)" by (rule byte_at_inside)
  with False assms show ?thesis by (auto simp: arg_token_def Let_def room_def split: if_splits)
qed

lemma string_token_room: "string_token sc = Token t sc' \<Longrightarrow> sc_state sc \<in> {STR2, ZSTR2} \<Longrightarrow>
   (room sc', room sc) \<in> less_than <*lex*> less_than"
  using cstr_inside [of "sc_pos sc" "sc_mem sc"] by (auto simp: string_token_def Let_def room_def split: if_splits)

lemma space_token_room:
  assumes "space_token st sc = Token t sc'"
  shows "(room sc', room sc) \<in> less_than <*lex*> less_than"
proof -
  have "sc_pos sc < length (sc_mem sc)"
    using assms chars_apart byte_at_inside [of "sc_mem sc" "sc_pos sc"] by (auto simp: space_token_def split: if_splits)
  with assms show ?thesis by (auto simp: space_token_def room_def split: if_splits)
qed

lemma look_up_length: "look_up_at t i sc = (p, sc') \<Longrightarrow> length (sc_mem sc') = length (sc_mem sc) \<and> sc_pos sc' = sc_pos sc \<and> sc_state sc' = sc_state sc"
proof -
  have "length (upper i m) = length m" for m
  proof (cases "length m \<le> i")
    case True
    then show ?thesis by (simp add: upper_def cstr_def)
  next
    case False
    then show ?thesis using cstr_inside [of i m] by (auto simp: upper_def Let_def min_def)
  qed
  then show "look_up_at t i sc = (p, sc') \<Longrightarrow> length (sc_mem sc') = length (sc_mem sc) \<and> sc_pos sc' = sc_pos sc \<and> sc_state sc' = sc_state sc"
    by (auto simp: look_up_at_def Let_def)
qed

lemma strpbrk_ge: "strpbrk m i cs = Some k \<Longrightarrow> i \<le> k"
  by (auto simp: strpbrk_def Let_def split: if_splits)

lemma site_word_room:
  assumes "site_word sc = Token t sc'" "sc_state sc = SITECMD"
  shows "(room sc', room sc) \<in> less_than <*lex*> less_than"
proof -
  let ?pos = "case strpbrk (sc_mem sc) (sc_pos sc) [blank, lf] of None \<Rightarrow> sc_pos sc | Some k \<Rightarrow> k"
  obtain p sc1 where l: "look_up_at sitetab (sc_pos sc) (sc\<lparr>sc_pos := ?pos\<rparr>) = (p, sc1)" by fastforce
  have pos: "sc_pos sc \<le> ?pos" using strpbrk_ge by (auto split: option.split)
  have len: "length (sc_mem sc1) = length (sc_mem sc)" "sc_pos sc1 = ?pos"
    using look_up_length [OF l] by simp_all
  obtain name tok st where p: "p = Some (name, tok, st, True)" "sc' = sc1\<lparr>sc_state := st\<rparr>"
    using assms(1) l by (auto simp: site_word_def Let_def split: option.splits if_splits)
  have "find (\<lambda>(nm, x). s = nm) sitetab = p" if "p = lookup_cmd sitetab s" for s using that by (simp add: lookup_cmd_def)
  then have "(name, tok, st, True) \<in> set sitetab"
    using l p(1) find_Some_set by (fastforce simp: look_up_at_def lookup_cmd_def Let_def)
  then have "st \<in> {ARGS, NSTR, OSTR}" by (auto simp: sitetab_def)
  with pos len p(2) assms(2) show ?thesis by (auto simp: room_def)
qed

lemma next_token_room:
  assumes "next_token sc = Token t sc'"
  shows "(room sc', room sc) \<in> less_than <*lex*> less_than"
proof -
  have sp: "sc_pos sc < length (sc_mem sc)" if "byte_at (sc_mem sc) (sc_pos sc) = blank"
    using that chars_apart byte_at_inside by metis
  show ?thesis using assms
    by (cases "sc_state sc")
      (auto simp: next_token_def Let_def room_def split: if_splits dest: sp
        dest!: arg_token_room string_token_room space_token_room site_word_room number_token_room)
qed

function recover :: "scanner \<Rightarrow> bool \<times> scanner" where
  "recover sc =
     (case next_token sc of
        Unknown sc' \<Rightarrow> (False, yyerror_mem sc')
      | Not_implemented name sc' \<Rightarrow> (False, sc')
      | Token t sc' \<Rightarrow> if t = CRLF then (True, sc') else recover sc')"
  by pat_completeness auto
termination
  by (relation "inv_image (less_than <*lex*> less_than) room") (auto simp: next_token_room wf_lex_prod simp del: in_lex_prod)

declare recover.simps [simp del]

text \<open>
  One line: the command to run, or what was read of it when it failed, and whether the parser is where it was
  (\<open>True\<close>) or starts again. The texts are those of the answers 500 and 502.
\<close>

datatype line_read = Run cmd "cmd_token list" | Failed cmd "cmd_token list" bool | No_command

definition not_understood :: "scanner \<Rightarrow> nat \<times> string" where
  "not_understood sc = (500, [CHR 0x27] @ cstr (sc_mem sc) 0 @ [CHR 0x27] @ '': command not understood.'')"

definition read_rest :: "cmd \<Rightarrow> scanner \<Rightarrow> line_read \<times> (nat \<times> string) list \<times> scanner" where
  "read_rest c sc =
     (case parse (rules c) [] sc of
        Command ts sc' \<Rightarrow> (Run c ts, [], sc')
      | Scan_error ts sc' \<Rightarrow>
          (let sc1 = yyerror_mem sc' in (Failed c ts False, [not_understood sc1], sc1))
      | Error ts t sc' \<Rightarrow>
          (let sc1 = yyerror_mem sc'
           in if t = CRLF then (Failed c (ts @ [t]) True, [not_understood sc1], sc1)
              else case recover sc1 of
                (ok, sc2) \<Rightarrow>
                  (Failed c (ts @ [t]) ok, not_understood sc1 # (if ok then [] else [not_understood sc2]), sc2)))"

definition read_line :: "string \<Rightarrow> scanner \<Rightarrow> line_read \<times> (nat \<times> string) list \<times> scanner" where
  "read_line line sc =
     (case first_word line sc of
        Unknown sc' \<Rightarrow> (let sc1 = yyerror_mem sc' in (No_command, [not_understood sc1], sc1))
      | Not_implemented name sc' \<Rightarrow> (No_command, [(502, name @ '' command not implemented.'')], sc')
      | Token t sc' \<Rightarrow> (case t of Cmd c \<Rightarrow> read_rest c sc' | _ \<Rightarrow> (No_command, [], sc')))"

section \<open>Values\<close>

definition string_of :: "cmd_token list \<Rightarrow> string option" where
  "string_of ts = (case filter (\<lambda>t. case t of STRING s \<Rightarrow> True | _ \<Rightarrow> False) ts of STRING s # r \<Rightarrow> Some s | _ \<Rightarrow> None)"

fun numbers_of :: "cmd_token list \<Rightarrow> int list" where
  "numbers_of [] = []"
| "numbers_of (NUMBER n # ts) = n # numbers_of ts"
| "numbers_of (t # ts) = numbers_of ts"

fun letters_of :: "cmd_token list \<Rightarrow> string" where
  "letters_of [] = []"
| "letters_of (Letter c # ts) = c # letters_of ts"
| "letters_of (t # ts) = letters_of ts"

text \<open>
  The value a number would have if its digits were octal; with a digit above seven it is -1. The remainder of a
  negative number is negative in C.
\<close>

function octal_number :: "int \<Rightarrow> int \<Rightarrow> int \<Rightarrow> int" where
  "octal_number v multby ret =
     (if v = 0 then ret
      else
        let digit = (if 0 \<le> v then v mod 10 else - ((- v) mod 10)) in
        if 7 < digit then -1
        else octal_number (if 0 \<le> v then v div 10 else - ((- v) div 10)) (multby * 8) (ret + digit * multby))"
  by pat_completeness auto
termination by (relation "measure (\<lambda>(v, multby, ret). nat (abs v))") auto

declare octal_number.simps [simp del]

end
