(* ===== verification/Ftpd_Login.thy ===== *)
theory Ftpd_Login
  imports Ftpd_Grammar
begin

text \<open>
  The state of one process of the file transfer server and its login (\<^verbatim>\<open>linux-ftpd/ftpd/ftpd.c\<close>,
  \<^verbatim>\<open>support/isexpired.c\<close>). What the process asks of the system is a list of calls, each with the user it was made
  as; what the system answers is a function of the calls made before and the one made now, so that nothing is
  assumed of it.
\<close>

section \<open>The system\<close>

type_synonym addr = "nat \<times> nat"

datatype call =
    Seteuid nat | Setegid nat | Initgroups string | Chroot string | Chdir string | Getcwd
  | Stat string | Open_dir string | Open_read string | Open_write string string | Create_new string | Stat_open
  | Mkdir string | Rmdir string | Unlink string | Rename string string | Chmod string int | Umask int
  | Glob string | Exec "string list" | Seek int
  | Socket | Bind "nat option" | Listen | Sockname | Accept | Connect addr | Send string | Receive | Write string

datatype result =
    Fails | Busy | Done | Text string | Value int | Peer addr | Names "string list" | Regular nat | Directory | Other_kind

record passwd =
  pw_name :: string
  pw_passwd :: string
  pw_uid :: nat
  pw_gid :: nat
  pw_dir :: string
  pw_shell :: string

record spwd =
  sp_pwdp :: string
  sp_expire :: int
  sp_lstchg :: int
  sp_max :: int
  sp_inact :: int

record env =
  getpwnam :: "string \<Rightarrow> passwd option"
  getspnam :: "string \<Rightarrow> spwd option"
  crypt :: "string \<Rightarrow> string \<Rightarrow> string"
  shells :: "string list"
  config :: "string \<Rightarrow> string option"
  today :: int
  anon_only :: bool
  multihome :: bool
  portcheck :: bool
  high_data_ports :: bool
  stats :: bool
  maxtimeout :: int
  defumask :: int
  hostname :: string
  dhostname :: string
  his_addr :: addr
  os :: "call list \<Rightarrow> call \<Rightarrow> result"
  strerror :: "call list \<Rightarrow> string"
  mtime :: "call list \<Rightarrow> string"
  source_text :: string
  version :: string

section \<open>The process\<close>

datatype rep_type = TYPE_A | TYPE_E | TYPE_I | TYPE_L

record ftpd =
  logged_in :: bool
  guest :: bool
  dochroot :: bool
  askpasswd :: bool
  pw :: "passwd option"
  spw :: "spwd option"
  login_attempts :: nat
  euid :: nat
  rep_type :: rep_type
  usedefault :: bool
  data_dest :: addr
  pdata :: bool
  data_open :: bool
  restart_point :: int
  fromname :: "string option"
  idle_time :: int
  out :: "(nat \<times> string) list"
  log :: "(nat \<times> call) list"
  exited :: bool

definition send_reply :: "nat \<Rightarrow> string \<Rightarrow> ftpd \<Rightarrow> ftpd" where
  "send_reply n text s = s\<lparr>out := out s @ [(n, text)]\<rparr>"

definition os_call :: "env \<Rightarrow> call \<Rightarrow> ftpd \<Rightarrow> result \<times> ftpd" where
  "os_call E c s = (os E (map snd (log s)) c, s\<lparr>log := log s @ [(euid s, c)]\<rparr>)"

definition perror_reply :: "env \<Rightarrow> nat \<Rightarrow> string \<Rightarrow> ftpd \<Rightarrow> ftpd" where
  "perror_reply E n text s = send_reply n (text @ '': '' @ strerror E (map snd (log s)) @ ''.'') s"

definition seteuid :: "env \<Rightarrow> nat \<Rightarrow> ftpd \<Rightarrow> bool \<times> ftpd" where
  "seteuid E u s =
     (case os_call E (Seteuid u) s of
        (r, s1) \<Rightarrow> if r = Fails then (False, s1) else (True, s1\<lparr>euid := u\<rparr>))"

definition dologout :: "env \<Rightarrow> ftpd \<Rightarrow> ftpd" where
  "dologout E s = (if logged_in s then snd (seteuid E 0 s) else s)\<lparr>exited := True\<rparr>"

section \<open>Files of names\<close>

text \<open>\<open>fgets\<close> with a buffer of \<open>n + 1\<close> characters.\<close>

fun fgets :: "nat \<Rightarrow> string \<Rightarrow> string \<times> string" where
  "fgets n [] = ([], [])"
| "fgets n (c # cs) =
     (if n = 0 then ([], c # cs)
      else if c = lf then ([c], cs)
      else case fgets (n - 1) cs of (x, r) \<Rightarrow> (c # x, r))"

lemma fgets_le: "fgets n s = (x, r) \<Longrightarrow> length r + length x = length s"
  by (induction n s arbitrary: x r rule: fgets.induct) (auto split: if_splits prod.splits)

lemma fgets_less: "fgets n (c # cs) = (x, r) \<Longrightarrow> 0 < n \<Longrightarrow> length r < length (c # cs)"
  using fgets_le [of n "c # cs" x r] by (auto split: if_splits prod.splits)

lemma fgets_line: "fgets 8191 (c # cs) = (x, r) \<Longrightarrow> length r < length (c # cs)"
    "fgets 2047 (c # cs) = (x, r) \<Longrightarrow> length r < length (c # cs)"
  by (rule fgets_less, assumption, simp)+

text \<open>A name is in a file when it is a line of it; a line that no line feed ends does not count.\<close>

function in_lines :: "string \<Rightarrow> string \<Rightarrow> bool" where
  "in_lines name [] = False"
| "in_lines name (c # cs) =
     (case fgets 8191 (c # cs) of
        (x, r) \<Rightarrow>
          let line = takeWhile (\<lambda>c. c \<noteq> null) x
          in if lf \<notin> set line then in_lines name r
             else if take 1 x = ''#'' then in_lines name r
             else takeWhile (\<lambda>c. c \<noteq> lf) line = name \<or> in_lines name r)"
  by pat_completeness auto
termination
  by (relation "measure (\<lambda>(name, s). length s)") (use fgets_line(1) in \<open>fastforce dest: sym\<close>)+

declare in_lines.simps(2) [simp del]

text \<open>A file of messages is answered line by line, with a buffer of 2048 characters.\<close>

function text_lines :: "string \<Rightarrow> string list" where
  "text_lines [] = []"
| "text_lines (c # cs) = (case fgets 2047 (c # cs) of (x, r) \<Rightarrow> takeWhile (\<lambda>c. c \<noteq> lf \<and> c \<noteq> null) x # text_lines r)"
  by pat_completeness auto
termination
  by (relation "measure length") (use fgets_line(2) in \<open>fastforce dest: sym\<close>)+

declare text_lines.simps(2) [simp del]

definition send_message :: "env \<Rightarrow> nat \<Rightarrow> string \<Rightarrow> ftpd \<Rightarrow> ftpd" where
  "send_message E n fname s =
     (case os_call E (Open_read fname) s of
        (r, s1) \<Rightarrow> s1\<lparr>out := out s1 @ (case r of Text x \<Rightarrow> map (Pair n) (text_lines x) | _ \<Rightarrow> [])\<rparr>)"

lemma send_message_same: "\<exists>a. send_message E n f s = (snd (os_call E (Open_read f) s))\<lparr>out := a\<rparr>"
  unfolding send_message_def case_prod_beta by blast

definition ftpusers :: string where "ftpusers = ''/etc/ftpusers''"
definition ftpchroot :: string where "ftpchroot = ''/etc/ftpchroot''"

definition checkuser :: "env \<Rightarrow> string \<Rightarrow> string \<Rightarrow> bool" where
  "checkuser E fname name = (case config E fname of None \<Rightarrow> False | Some s \<Rightarrow> in_lines name s)"

section \<open>USER\<close>

definition end_login :: "env \<Rightarrow> ftpd \<Rightarrow> ftpd" where
  "end_login E s =
     (snd (seteuid E 0 s))\<lparr>pw := None, logged_in := False, guest := False, dochroot := False\<rparr>"

text \<open>The entry of an account; with shadow passwords, the password is taken from there.\<close>

definition sgetpwnam :: "env \<Rightarrow> string \<Rightarrow> ftpd \<Rightarrow> passwd option \<times> ftpd" where
  "sgetpwnam E name s =
     (case getpwnam E name of
        None \<Rightarrow> (None, s)
      | Some p \<Rightarrow>
          (Some (case getspnam E name of None \<Rightarrow> p | Some sp \<Rightarrow> p\<lparr>pw_passwd := sp_pwdp sp\<rparr>),
           s\<lparr>spw := getspnam E name\<rparr>))"

definition user_guest :: "env \<Rightarrow> string \<Rightarrow> ftpd \<Rightarrow> ftpd" where
  "user_guest E name s =
     (if checkuser E ftpusers ''ftp'' \<or> checkuser E ftpusers ''anonymous'' then
        send_reply 530 (''User '' @ name @ '' access denied.'') s
      else case sgetpwnam E ''ftp'' s of
        (Some p, s1) \<Rightarrow>
          send_reply 331 ''Guest login ok, type your name as password.'' (s1\<lparr>pw := Some p, guest := True, askpasswd := True\<rparr>)
      | (None, s1) \<Rightarrow> send_reply 530 (''User '' @ name @ '' unknown.'') (s1\<lparr>pw := None\<rparr>))"

definition user_named :: "env \<Rightarrow> string \<Rightarrow> ftpd \<Rightarrow> ftpd" where
  "user_named E name s =
     (case sgetpwnam E name s of
        (p, s1) \<Rightarrow>
          let s2 = s1\<lparr>pw := p\<rparr>;
              refused = (case p of
                 None \<Rightarrow> False
               | Some q \<Rightarrow> (if pw_shell q = [] then ''/bin/sh'' else pw_shell q) \<notin> set (shells E) \<or> checkuser E ftpusers name)
          in if refused then send_reply 530 (''User '' @ name @ '' access denied.'') (s2\<lparr>pw := None\<rparr>)
             else (send_reply 331 (''Password required for '' @ name @ ''.'') s2)\<lparr>askpasswd := True\<rparr>)"

definition user_cmd :: "env \<Rightarrow> string \<Rightarrow> ftpd \<Rightarrow> ftpd" where
  "user_cmd E name s =
     (if logged_in s \<and> guest s then send_reply 530 ''Can't change user from guest login.'' s
      else if logged_in s \<and> dochroot s then send_reply 530 ''Can't change user from chroot user.'' s
      else
        let s1 = (if logged_in s then end_login E s else s)\<lparr>guest := False\<rparr>
        in if name = ''ftp'' \<or> name = ''anonymous'' then user_guest E name s1
           else if anon_only E \<and> \<not> checkuser E ftpchroot name then
             send_reply 530 ''Sorry, only anonymous ftp allowed.'' s1
           else user_named E name s1)"

section \<open>PASS\<close>

definition isexpired :: "env \<Rightarrow> spwd option \<Rightarrow> nat" where
  "isexpired E sp =
     (case sp of
        None \<Rightarrow> 0
      | Some e \<Rightarrow>
          if 0 < sp_expire e \<and> sp_expire e \<le> today E then 3
          else if 0 < sp_lstchg e \<and> 0 < sp_max e \<and> 0 \<le> sp_inact e \<and> sp_lstchg e + sp_max e + sp_inact e \<le> today E then 2
          else if 0 < sp_lstchg e \<and> 0 < sp_max e \<and> sp_lstchg e + sp_max e \<le> today E then 1
          else if sp_lstchg e = 0 then 1
          else 0)"

text \<open>Whether the password is refused.\<close>

definition wrong_password :: "env \<Rightarrow> string \<Rightarrow> ftpd \<Rightarrow> bool" where
  "wrong_password E passwd s =
     (case pw s of None \<Rightarrow> True | Some p \<Rightarrow> crypt E passwd (pw_passwd p) \<noteq> pw_passwd p \<or> pw_passwd p = [])"

definition root_dir :: "env \<Rightarrow> passwd \<Rightarrow> ftpd \<Rightarrow> string \<times> ftpd" where
  "root_dir E p s =
     (if multihome E \<and> guest s then
        let d = pw_dir p @ ''/'' @ dhostname E
        in case os_call E (Stat d) s of
             (r, s1) \<Rightarrow> (if r = Fails then pw_dir p @ ''/'' @ hostname E else d, s1)
      else (pw_dir p, s))"

text \<open>The directory of the session: \<open>True\<close> when it could be set. After \<open>chroot\<close> the home directory is \<open>/\<close>.\<close>

definition confine :: "env \<Rightarrow> string \<Rightarrow> string \<Rightarrow> passwd \<Rightarrow> ftpd \<Rightarrow> bool \<times> ftpd" where
  "confine E dir msg p s =
     (case os_call E (Chroot dir) s of
        (r, s1) \<Rightarrow>
          if r = Fails then (False, send_reply 550 msg s1)
          else case os_call E (Chdir ''/'') s1 of
            (r2, s2) \<Rightarrow>
              if r2 = Fails then (False, send_reply 550 msg s2) else (True, s2\<lparr>pw := Some (p\<lparr>pw_dir := ''/''\<rparr>)\<rparr>))"

definition go_home :: "env \<Rightarrow> passwd \<Rightarrow> ftpd \<Rightarrow> bool \<times> ftpd" where
  "go_home E p s =
     (case os_call E (Chdir (pw_dir p)) s of
        (r, s1) \<Rightarrow>
          if r \<noteq> Fails then (True, s1)
          else case os_call E (Chdir ''/'') s1 of
            (r2, s2) \<Rightarrow>
              if r2 = Fails then
                (False, send_reply 530 (''User '' @ pw_name p @ '': can't change directory to '' @ pw_dir p @ ''.'') s2)
              else (True, send_reply 230 ''No directory! Logging in with home=/'' s2))"

text \<open>The account is known and allowed; the rights are taken down.\<close>

definition start_session :: "env \<Rightarrow> passwd \<Rightarrow> ftpd \<Rightarrow> ftpd" where
  "start_session E p s =
     (let s1 = s\<lparr>logged_in := True, dochroot := checkuser E ftpchroot (pw_name p)\<rparr>;
          (dir, s2) = (if guest s1 \<or> dochroot s1 then root_dir E p s1 else ([], s1));
          (ok, s3) = (if guest s2 then confine E dir ''Can't set guest privileges.'' p s2
                      else if dochroot s2 then confine E dir ''Can't change root.'' p s2
                      else go_home E p s2)
      in if \<not> ok then end_login E s3
         else case seteuid E (pw_uid p) s3 of
           (False, s4) \<Rightarrow> end_login E (send_reply 550 ''Can't set uid.'' s4)
         | (True, s4) \<Rightarrow>
             let s5 = send_message E 230 ''/etc/motd'' (snd (os_call E Getcwd s4))
             in snd (os_call E (Umask (defumask E))
                  (if guest s5 then send_reply 230 ''Guest login ok, access restrictions apply.'' s5
                   else send_reply 230 (''User '' @ pw_name p @ '' logged in.'') s5)))"

definition pass_account :: "env \<Rightarrow> passwd \<Rightarrow> ftpd \<Rightarrow> ftpd" where
  "pass_account E p s =
     (let e = isexpired E (spw s)
      in if e = 1 then send_reply 530 ''Please change your password and try again.'' s
         else if e = 2 then send_reply 530 ''Login inactive -- contact administrator.'' s
         else if e = 3 then send_reply 530 ''Account expired -- contact administrator.'' s
         else case os_call E (Setegid (pw_gid p)) s of
           (r, s1) \<Rightarrow>
             if r = Fails then send_reply 550 ''Can't set gid.'' s1
             else
               let s2 = snd (os_call E (Initgroups (pw_name p)) s1);
                   s3 = (if guest s2 \<and> stats E then snd (os_call E Stat_open s2) else s2)
               in start_session E p s3)"

definition pass :: "env \<Rightarrow> string \<Rightarrow> ftpd \<Rightarrow> ftpd" where
  "pass E passwd s =
     (if logged_in s \<or> \<not> askpasswd s then send_reply 503 ''Login with USER first.'' s
      else
        let s1 = s\<lparr>askpasswd := False\<rparr>
        in if \<not> guest s1 \<and> wrong_password E passwd s1 then
             let s2 = (send_reply 530 ''Login incorrect.'' s1)\<lparr>pw := None, login_attempts := login_attempts s1 + 1\<rparr>
             in if 5 \<le> login_attempts s1 then s2\<lparr>exited := True\<rparr> else s2
           else case pw s1 of
             None \<Rightarrow> s1
           | Some p \<Rightarrow> pass_account E p (s1\<lparr>login_attempts := 0\<rparr>))"

end
