(* ===== verification/Ftpd_Data.thy ===== *)
theory Ftpd_Data
  imports Ftpd_Login
begin

text \<open>
  The data connections of the server and what goes over them (\<^verbatim>\<open>linux-ftpd/ftpd/ftpd.c\<close>): the address a
  client names, the passive socket, the connection itself, and the conversion of text.
\<close>

section \<open>Addresses\<close>

definition PORT_RESERVED :: nat where "PORT_RESERVED = 1024"

text \<open>The six numbers of PORT: the address and the port they are, if each is a byte.\<close>

definition host_port :: "int list \<Rightarrow> addr option" where
  "host_port ns =
     (case ns of
        [a, b, c, d, p, q] \<Rightarrow>
          if list_all (\<lambda>n. 0 \<le> n \<and> n \<le> 255) ns
          then Some (nat (((a * 256 + b) * 256 + c) * 256 + d), nat (p * 256 + q)) else None
      | _ \<Rightarrow> None)"

text \<open>The rule of the grammar sets \<open>data_dest\<close> before the command is checked.\<close>

definition set_dest :: "int list \<Rightarrow> ftpd \<Rightarrow> bool \<times> ftpd" where
  "set_dest ns s = (case host_port ns of None \<Rightarrow> (False, s) | Some a \<Rightarrow> (True, s\<lparr>data_dest := a\<rparr>))"

definition port_cmd :: "env \<Rightarrow> bool \<Rightarrow> ftpd \<Rightarrow> ftpd" where
  "port_cmd E in_range s =
     (if \<not> in_range then send_reply 500 ''Illegal PORT rejected (range errors).'' (s\<lparr>usedefault := True\<rparr>)
      else if portcheck E \<and> snd (data_dest s) < PORT_RESERVED then
        send_reply 500 ''Illegal PORT rejected (reserved port).'' (s\<lparr>usedefault := True\<rparr>)
      else if portcheck E \<and> fst (data_dest s) \<noteq> fst (his_addr E) then
        send_reply 500 ''Illegal PORT rejected (address wrong).'' (s\<lparr>usedefault := True\<rparr>)
      else send_reply 200 ''PORT command successful.'' (s\<lparr>usedefault := False, pdata := False\<rparr>))"

section \<open>Passive mode\<close>

text \<open>Ports from \<open>p\<close>, \<open>n\<close> of them: whether one was free.\<close>

fun bind_high :: "env \<Rightarrow> nat \<Rightarrow> nat \<Rightarrow> ftpd \<Rightarrow> bool \<times> ftpd" where
  "bind_high E p 0 s = (False, s)"
| "bind_high E p (Suc n) s =
     (case os_call E (Bind (Some p)) s of
        (r, s1) \<Rightarrow> if r = Busy then bind_high E (p + 1) n s1 else (r \<noteq> Fails, s1))"

definition passive_bind :: "env \<Rightarrow> ftpd \<Rightarrow> bool \<times> ftpd" where
  "passive_bind E s =
     (if high_data_ports E then bind_high E 40000 5000 s
      else case os_call E (Bind None) s of (r, s1) \<Rightarrow> (r \<noteq> Fails \<and> r \<noteq> Busy, s1))"

definition passive_end :: "env \<Rightarrow> ftpd \<Rightarrow> ftpd" where
  "passive_end E s = perror_reply E 425 ''Can't open passive connection'' (s\<lparr>pdata := False\<rparr>)"

definition passive_cmd :: "env \<Rightarrow> ftpd \<Rightarrow> ftpd" where
  "passive_cmd E s =
     (if pw s = None then send_reply 530 ''Please login with USER and PASS'' s
      else case os_call E Socket s of
        (r, s1) \<Rightarrow>
          if r = Fails then passive_end E s1
          else case passive_bind E (s1\<lparr>pdata := True\<rparr>) of
            (False, s2) \<Rightarrow> passive_end E s2
          | (True, s2) \<Rightarrow>
              (case os_call E Sockname s2 of
                 (r3, s3) \<Rightarrow>
                   if r3 = Fails then passive_end E s3
                   else case os_call E Listen s3 of
                     (r4, s4) \<Rightarrow>
                       if r4 = Fails then passive_end E s4
                       else send_reply 227 (case r3 of Text a \<Rightarrow> ''Entering Passive Mode ('' @ a @ '')'' | _ \<Rightarrow> []) s4))"

section \<open>The connection\<close>

text \<open>At most eleven attempts to bind; only an address in use is tried again.\<close>

fun bind_retry :: "env \<Rightarrow> nat \<Rightarrow> ftpd \<Rightarrow> bool \<times> ftpd" where
  "bind_retry E tries s =
     (case os_call E (Bind None) s of
        (r, s1) \<Rightarrow>
          if r = Busy \<and> 0 < tries then bind_retry E (tries - 1) s1 else (r \<noteq> Busy \<and> r \<noteq> Fails, s1))"

declare bind_retry.simps [simp del]

definition uid_of :: "ftpd \<Rightarrow> nat" where
  "uid_of s = (case pw s of None \<Rightarrow> 0 | Some p \<Rightarrow> pw_uid p)"

text \<open>A socket at the port for data: the rights of root are taken for it and given back.\<close>

definition getdatasock :: "env \<Rightarrow> ftpd \<Rightarrow> bool \<times> ftpd" where
  "getdatasock E s =
     (if data_open s then (True, s)
      else
        let s1 = snd (seteuid E 0 s);
            (r, s2) = os_call E Socket s1;
            (ok, s3) = (if r = Fails then (False, s2) else bind_retry E 10 s2)
        in (ok, snd (seteuid E (uid_of s3) s3)))"

fun connect_retry :: "env \<Rightarrow> nat \<Rightarrow> ftpd \<Rightarrow> bool \<times> ftpd" where
  "connect_retry E tries s =
     (case os_call E (Connect (data_dest s)) s of
        (r, s1) \<Rightarrow>
          if r = Busy \<and> 0 < tries then connect_retry E (tries - 1) s1 else (r \<noteq> Busy \<and> r \<noteq> Fails, s1))"

declare connect_retry.simps [simp del]

definition opening_data :: "string \<Rightarrow> string \<Rightarrow> ftpd \<Rightarrow> ftpd" where
  "opening_data name siz s =
     send_reply 150 (''Opening '' @ (if rep_type s = TYPE_A then ''ASCII'' else ''BINARY'') @ '' mode data connection for '' @
       [CHR 0x27] @ name @ [CHR 0x27] @ siz) s"

definition data_fails :: "env \<Rightarrow> nat \<Rightarrow> ftpd \<Rightarrow> bool \<times> ftpd" where
  "data_fails E n s = (False, perror_reply E n ''Can't build data connection'' s)"

definition dataconn_passive :: "env \<Rightarrow> string \<Rightarrow> string \<Rightarrow> ftpd \<Rightarrow> bool \<times> ftpd" where
  "dataconn_passive E name siz s =
     (case os_call E Accept s of
        (Peer a, s1) \<Rightarrow>
          if snd a < PORT_RESERVED then data_fails E 425 (s1\<lparr>pdata := False\<rparr>)
          else if fst a \<noteq> fst (his_addr E) then data_fails E 435 (s1\<lparr>pdata := False\<rparr>)
          else (True, opening_data name siz s1)
      | (_, s1) \<Rightarrow> (False, send_reply 425 ''Can't open data connection.'' (s1\<lparr>pdata := False\<rparr>)))"

definition dataconn :: "env \<Rightarrow> string \<Rightarrow> string \<Rightarrow> ftpd \<Rightarrow> bool \<times> ftpd" where
  "dataconn E name siz s =
     (if pdata s then dataconn_passive E name siz s
      else if data_open s then
        (True, send_reply 125 (''Using existing data connection for '' @ [CHR 0x27] @ name @ [CHR 0x27] @ siz @ ''.'')
                 (s\<lparr>usedefault := True\<rparr>))
      else
        let s1 = (if usedefault s then s\<lparr>data_dest := his_addr E\<rparr> else s)\<lparr>usedefault := True\<rparr>
        in case getdatasock E s1 of
          (False, s2) \<Rightarrow> (False, send_reply 425 (''Can't create data socket ('' @ source_text E @ ''): '' @ strerror E (map snd (log s2)) @ ''.'') s2)
        | (True, s2) \<Rightarrow>
            if snd (data_dest s2) < PORT_RESERVED \<or> snd (data_dest s2) = 2049 then data_fails E 425 s2
            else if fst (data_dest s2) \<noteq> fst (his_addr E) then data_fails E 435 s2
            else case connect_retry E 18 s2 of
              (False, s3) \<Rightarrow> data_fails E 425 s3
            | (True, s3) \<Rightarrow> (True, opening_data name siz (s3\<lparr>data_open := True\<rparr>)))"

section \<open>Text\<close>

definition send_text :: "string \<Rightarrow> string" where
  "send_text x = concat (map (\<lambda>c. if c = lf then [cr, c] else [c]) x)"

text \<open>What is stored, and how many line feeds came without a carriage return.\<close>

fun recv_text :: "string \<Rightarrow> string \<times> nat"
  and recv_after_cr :: "string \<Rightarrow> string \<times> nat" where
  "recv_text [] = ([], 0)"
| "recv_text (c # cs) =
     (if c = cr then recv_after_cr cs
      else case recv_text cs of (x, n) \<Rightarrow> (c # x, if c = lf then n + 1 else n))"
| "recv_after_cr [] = ([cr], 0)"
| "recv_after_cr (c # cs) =
     (if c = lf then (case recv_text cs of (x, n) \<Rightarrow> (lf # x, n))
      else if c = null then (case recv_text cs of (x, n) \<Rightarrow> (cr # x, n))
      else if c = cr then (case recv_after_cr cs of (x, n) \<Rightarrow> (cr # x, n))
      else case recv_text cs of (x, n) \<Rightarrow> (cr # c # x, n))"

text \<open>To restart in the middle of a text, its bytes are counted as they are sent.\<close>

fun ascii_skip :: "int \<Rightarrow> int \<Rightarrow> string \<Rightarrow> string option" where
  "ascii_skip i n [] = (if i < n then None else Some [])"
| "ascii_skip i n (c # cs) = (if i < n then ascii_skip (if c = lf then i + 2 else i + 1) n cs else Some (c # cs))"

definition send_contents :: "env \<Rightarrow> string \<Rightarrow> ftpd \<Rightarrow> ftpd" where
  "send_contents E x s =
     (case rep_type s of
        TYPE_E \<Rightarrow> send_reply 550 ''Unimplemented TYPE 2 in send_contents'' s
      | t \<Rightarrow>
          (case os_call E (Send (if t = TYPE_A then send_text x else x)) s of
             (r, s1) \<Rightarrow> if r = Fails then perror_reply E 426 ''Data connection'' s1
                        else send_reply 226 ''Transfer complete.'' s1))"

text \<open>What comes over the connection is written to the file; \<open>True\<close> when all went well.\<close>

definition receive_contents :: "env \<Rightarrow> ftpd \<Rightarrow> bool \<times> ftpd" where
  "receive_contents E s =
     (if rep_type s = TYPE_E then (False, send_reply 553 ''TYPE E not implemented.'' s)
      else case os_call E Receive s of
        (Text x, s1) \<Rightarrow>
          (let (y, lfs) = (if rep_type s = TYPE_A then recv_text x else (x, 0))
           in case os_call E (Write y) s1 of
             (r, s2) \<Rightarrow>
               if r = Fails then (False, perror_reply E 452 ''Error writing file'' s2)
               else (True, if 0 < lfs then send_reply 226 (''WARNING! '' @ dec lfs @ '' bare linefeeds received in ASCII mode'') s2 else s2))
      | (_, s1) \<Rightarrow> (False, perror_reply E 426 ''Data Connection'' s1))"

end
