(* ===== verification/Ftpd_Transfer.thy ===== *)
theory Ftpd_Transfer
  imports Ftpd_Data Ftp_Reply
begin

text \<open>Text between the server and a client of this repository, and where an interrupted transfer goes on.\<close>

section \<open>Both sides convert alike\<close>

definition wire :: "string \<Rightarrow> byte list" where
  "wire x = map of_char x"

lemma byte_of_char_eq: "(of_char c :: byte) = of_char d \<longleftrightarrow> c = d"
proof
  assume eq: "(of_char c :: byte) = of_char d"
  have w: "(of_char x :: byte) = of_nat (of_char x :: nat)" for x by (rule of_nat_of_char [symmetric])
  have "(of_char x :: nat) < 256" for x using of_char_mod_256 [of x, where 'a = nat] by (metis mod_less_divisor zero_less_numeral)
  then have u: "unat (of_nat (of_char x :: nat) :: byte) = of_char x" for x by (simp add: unat_of_nat)
  from eq have "(of_char c :: nat) = of_char d" using u w by metis
  then show "c = d" by simp
qed simp

lemma wire_chars: "(of_char c :: byte) = ch_NL \<longleftrightarrow> c = lf" "(of_char c :: byte) = ch_CR \<longleftrightarrow> c = cr" "(of_char c :: byte) = 0 \<longleftrightarrow> c = null"
proof -
  have k: "of_char lf = ch_NL" "of_char cr = ch_CR" "(of_char null :: byte) = 0"
    by (simp_all add: lf_def cr_def null_def ch_NL_def ch_CR_def)
  show "(of_char c :: byte) = ch_NL \<longleftrightarrow> c = lf" "(of_char c :: byte) = ch_CR \<longleftrightarrow> c = cr" "(of_char c :: byte) = 0 \<longleftrightarrow> c = null"
    using byte_of_char_eq [of c lf] byte_of_char_eq [of c cr] byte_of_char_eq [of c null] by (simp_all add: k)
qed

lemma send_text_Cons: "send_text [] = []" "send_text (c # x) = (if c = lf then [cr, lf] else [c]) @ send_text x"
  by (simp_all add: send_text_def)

lemma send_alike: "send_ascii (wire x) = wire (send_text x)"
proof -
  have k: "of_char lf = ch_NL" "of_char cr = ch_CR" by (simp_all add: lf_def cr_def ch_NL_def ch_CR_def)
  show ?thesis by (induction x) (auto simp: wire_def send_text_Cons wire_chars k)
qed

lemma recv_alike:
  "recv_ascii False (wire y) = (wire (fst (recv_text y)), length y, snd (recv_text y))"
  "recv_cr False (wire y) = (wire (fst (recv_after_cr y)), length y, snd (recv_after_cr y))"
proof (induction y)
  case Nil
  have k: "of_char cr = ch_CR" by (simp add: cr_def ch_CR_def)
  case 1 show ?case by (simp add: wire_def)
  case 2 show ?case by (simp add: wire_def k)
next
  case (Cons c y)
  have k: "of_char lf = ch_NL" "of_char cr = ch_CR" by (simp_all add: lf_def cr_def ch_NL_def ch_CR_def)
  have w: "wire (c # y) = of_char c # wire y" for c y by (simp add: wire_def)
  have ne: "lf \<noteq> cr" "lf \<noteq> null" "cr \<noteq> null" by (simp_all add: lf_def cr_def null_def)
  case 1 show ?case using Cons by (auto simp: w wire_chars k Let_def split: prod.split)
  case 2 show ?case using Cons ne by (auto simp: w wire_chars k Let_def split: prod.split)
qed

lemma wire_eq: "wire x = wire y \<longleftrightarrow> x = y"
  unfolding wire_def using byte_of_char_eq inj_map_eq_map [of "of_char :: char \<Rightarrow> byte" x y] by (auto simp: inj_def)

lemma wire_sublist: "sublist [ch_CR, 0] (wire x) \<Longrightarrow> sublist [cr, null] x"
proof -
  assume "sublist [ch_CR, 0] (wire x)"
  then obtain p s where "wire x = p @ [ch_CR, 0] @ s" by (auto simp: sublist_def)
  then obtain xs ys a b where "x = xs @ a # b # ys" "of_char a = ch_CR" "(of_char b :: byte) = 0"
    unfolding wire_def by (auto simp: map_eq_append_conv map_eq_Cons_conv Cons_eq_map_conv append_eq_map_conv)
  then show ?thesis using wire_chars by (auto simp: sublist_def)
qed

text \<open>C36: A text file is unchanged by a transfer in either direction between the client and the server of this
  repository, unless it has a null byte after a carriage return; the client counts every byte, and neither side sees
  a bare line feed.\<close>

theorem text_transfer:
  assumes "\<not> sublist [cr, null] x"
  shows "recv_ascii False (wire (send_text x)) = (wire x, length (send_text x), 0) \<and>
    (\<exists>y. wire y = send_ascii (wire x) \<and> recv_text y = (x, 0))"
proof -
  have "\<not> sublist [ch_CR, 0] (wire x)" using assms wire_sublist by blast
  from ascii_roundtrip [OF this] have r: "recv_ascii False (wire (send_text x)) = (wire x, length (wire (send_text x)), 0)"
    by (simp add: send_alike)
  then have "fst (recv_text (send_text x)) = x \<and> snd (recv_text (send_text x)) = 0" by (simp add: recv_alike wire_eq)
  then have "recv_text (send_text x) = (x, 0)" by (metis prod.collapse)
  moreover have "length (wire (send_text x)) = length (send_text x)" by (simp add: wire_def)
  ultimately show ?thesis using r send_alike [of x] by metis
qed

theorem text_transfer_witness:
  "recv_ascii False (wire (send_text ''a'' @ [cr] @ send_text [lf])) = (wire (''a'' @ [cr, lf]), 4, 0)"
proof -
  have "\<not> sublist [cr, null] (''a'' @ [cr, lf])" by (simp add: cr_def lf_def null_def sublist_Cons_right)
  from text_transfer [OF this] have "recv_ascii False (wire (send_text (''a'' @ [cr, lf]))) = (wire (''a'' @ [cr, lf]), 4, 0)"
    by (simp add: send_text_Cons cr_def lf_def)
  then show ?thesis by (simp add: send_text_Cons cr_def lf_def)
qed

section \<open>Restart\<close>

lemma ascii_skip_done: "n \<le> i \<Longrightarrow> ascii_skip i n x = Some x"
  by (cases x) simp_all

definition goes_on :: "nat \<Rightarrow> string \<Rightarrow> string \<Rightarrow> bool" where
  "goes_on n x y \<longleftrightarrow>
     (\<exists>p. x = p @ y \<and>
       (n = length (send_text p) \<and> drop n (send_text x) = send_text y \<or>
        p \<noteq> [] \<and> last p = lf \<and> n + 1 = length (send_text p) \<and> drop n (send_text x) = lf # send_text y))"

lemma goes_on_Cons: "goes_on n x y \<Longrightarrow> goes_on (n + length (send_text [c])) (c # x) y"
  unfolding goes_on_def by (elim exE, rule_tac x = "c # p" in exI) (auto simp: send_text_Cons)

lemma ascii_skip_rest:
  "case ascii_skip i (i + int n) x of None \<Rightarrow> length (send_text x) < n | Some y \<Rightarrow> goes_on n x y"
proof (induction x arbitrary: i n)
  case Nil
  show ?case by (simp add: send_text_Cons goes_on_def)
next
  case (Cons c x)
  show ?case
  proof (cases n)
    case 0
    then show ?thesis by (simp add: goes_on_def send_text_Cons)
  next
    case (Suc m)
    show ?thesis
    proof (cases "c = lf")
      case False
      then have "ascii_skip i (i + int n) (c # x) = ascii_skip (i + 1) (i + 1 + int m) x" using Suc by (simp add: algebra_simps)
      with Cons.IH [where i = "i + 1" and n = m] goes_on_Cons [of m x _ c] False Suc show ?thesis
        by (auto simp: send_text_Cons split: option.splits)
    next
      case lf: True
      show ?thesis
      proof (cases m)
        case 0
        then have "ascii_skip i (i + int n) (c # x) = Some x" using Suc lf by (simp add: ascii_skip_done)
        moreover have "goes_on 1 (lf # x) x"
          unfolding goes_on_def by (rule exI [of _ "[lf]"]) (simp add: send_text_Cons)
        ultimately show ?thesis using 0 Suc lf by simp
      next
        case (Suc k)
        then have "ascii_skip i (i + int n) (c # x) = ascii_skip (i + 2) (i + 2 + int k) x"
          using lf \<open>n = Suc m\<close> by (simp add: algebra_simps)
        with Cons.IH [where i = "i + 2" and n = k] goes_on_Cons [of k x _ c] lf Suc \<open>n = Suc m\<close> show ?thesis
          by (auto simp: send_text_Cons split: option.splits)
      qed
    qed
  qed
qed

text \<open>A text transfer restarted at byte \<open>n\<close> of what is sent goes on with the rest of the file from exactly there,
  but when \<open>n\<close> lies between the carriage return and the line feed of a line end, that line feed is left out;
  a place after the end is refused.\<close>

theorem restart_text:
  "case ascii_skip 0 (int n) x of
     None \<Rightarrow> length (send_text x) < n
   | Some y \<Rightarrow> \<exists>p. x = p @ y \<and>
       (n = length (send_text p) \<and> drop n (send_text x) = send_text y \<or>
        p \<noteq> [] \<and> last p = lf \<and> n + 1 = length (send_text p) \<and> drop n (send_text x) = lf # send_text y)"
  using ascii_skip_rest [where i = 0 and n = n and x = x] unfolding goes_on_def [symmetric] by simp

end
