(* ===== verification/Ftpd_Commands.thy ===== *)
theory Ftpd_Commands
  imports Ftpd_Data
begin

text \<open>
  The commands of the server (\<^verbatim>\<open>linux-ftpd/ftpd/ftpd.c\<close>, \<^verbatim>\<open>popen.c\<close> and the actions of the grammar in \<^verbatim>\<open>ftpcmd.y\<close>),
  and a session: the lines that come, one by one. Answers have their code and text; the lines of help and of the
  status in between are left out.
\<close>

section \<open>Listings\<close>

text \<open>The words of a command line, at most 99; all but the first are expanded, up to 998 words.\<close>

fun words :: "string \<Rightarrow> string \<Rightarrow> string list" where
  "words w [] = (if w = [] then [] else [rev w])"
| "words w (c # cs) =
     (if c \<in> {blank, CHR 0x09, lf} then (if w = [] then words [] cs else rev w # words [] cs) else words (c # w) cs)"

fun expand_words :: "env \<Rightarrow> string list \<Rightarrow> nat \<Rightarrow> ftpd \<Rightarrow> string list \<times> ftpd" where
  "expand_words E [] n s = ([], s)"
| "expand_words E (a # as) n s =
     (case os_call E (Glob a) s of
        (r, s1) \<Rightarrow>
          let xs = (case r of Names ns \<Rightarrow> take (998 - n) ns | _ \<Rightarrow> take (998 - n) [a])
          in case expand_words E as (n + length xs) s1 of (ys, s2) \<Rightarrow> (xs @ ys, s2))"

definition ftpd_popen :: "env \<Rightarrow> string \<Rightarrow> ftpd \<Rightarrow> string option \<times> ftpd" where
  "ftpd_popen E line s =
     (let ws = take 99 (words [] line);
          (args, s1) = expand_words E (tl ws) 0 s
      in case os_call E (Exec (take 1 ws @ args)) s1 of
           (Text x, s2) \<Rightarrow> (Some x, s2)
         | (_, s2) \<Rightarrow> (None, s2))"

definition ls_line :: "string \<Rightarrow> string \<Rightarrow> string" where
  "ls_line options name = take 8191 (''/bin/ls '' @ options @ name)"

section \<open>Files\<close>

definition end_data :: "ftpd \<Rightarrow> ftpd" where
  "end_data s = s\<lparr>data_open := False, pdata := False\<rparr>"

definition size_text :: "nat \<Rightarrow> string" where
  "size_text n = '' ('' @ dec n @ '' bytes)''"

text \<open>Where a transfer of the contents \<open>x\<close> begins.\<close>

definition restart_at :: "env \<Rightarrow> string \<Rightarrow> string \<Rightarrow> ftpd \<Rightarrow> string option \<times> ftpd" where
  "restart_at E name x s =
     (if restart_point s = 0 then (Some x, s)
      else if rep_type s = TYPE_A then
        (case ascii_skip 0 (restart_point s) x of
           None \<Rightarrow> (None, perror_reply E 550 name s)
         | Some y \<Rightarrow> (Some y, s))
      else case os_call E (Seek (restart_point s)) s of
        (r, s1) \<Rightarrow> if r = Fails then (None, perror_reply E 550 name s1)
                   else (Some (drop (nat (restart_point s)) x), s1))"

definition transfer_out :: "env \<Rightarrow> string \<Rightarrow> string \<Rightarrow> string \<Rightarrow> ftpd \<Rightarrow> ftpd" where
  "transfer_out E name siz x s =
     (case restart_at E name x s of
        (None, s1) \<Rightarrow> s1
      | (Some y, s1) \<Rightarrow>
          (case dataconn E name siz s1 of
             (False, s2) \<Rightarrow> s2
           | (True, s2) \<Rightarrow> end_data (send_contents E y s2)))"

definition retrieve_file :: "env \<Rightarrow> string \<Rightarrow> ftpd \<Rightarrow> ftpd" where
  "retrieve_file E name s =
     (case os_call E (Open_read name) s of
        (Text x, s1) \<Rightarrow> transfer_out E name (size_text (length x)) x s1
      | (r, s1) \<Rightarrow>
          if r = Fails then perror_reply E 550 name s1 else send_reply 550 (name @ '': not a plain file.'') s1)"

definition retrieve_list :: "env \<Rightarrow> string \<Rightarrow> ftpd \<Rightarrow> ftpd" where
  "retrieve_list E line s =
     (case ftpd_popen E line s of
        (None, s1) \<Rightarrow> perror_reply E 550 line s1
      | (Some x, s1) \<Rightarrow> transfer_out E line [] x s1)"

text \<open>A name that is not taken yet: \<open>name.1\<close> to \<open>name.99\<close>.\<close>

fun unique_from :: "env \<Rightarrow> string \<Rightarrow> string list \<Rightarrow> ftpd \<Rightarrow> string option \<times> ftpd" where
  "unique_from E name [] s = (None, send_reply 452 ''Unique file name cannot be created.'' s)"
| "unique_from E name (x # xs) s =
     (case os_call E (Create_new (name @ ''.'' @ x)) s of
        (r, s1) \<Rightarrow> if r = Fails then unique_from E name xs s1 else (Some (name @ ''.'' @ x), s1))"

definition two_dec :: "nat \<Rightarrow> string" where
  "two_dec n = (if n < 10 then [] else [char_of (48 + n div 10)]) @ [char_of (48 + n mod 10)]"

definition dir_part :: "string \<Rightarrow> string" where
  "dir_part name =
     (if CHR ''/'' \<in> set name then rev (tl (dropWhile (\<lambda>c. c \<noteq> CHR ''/'') (rev name))) else ''.'')"

definition guniquefd :: "env \<Rightarrow> string \<Rightarrow> ftpd \<Rightarrow> string option \<times> ftpd" where
  "guniquefd E name s =
     (case os_call E (Stat (dir_part name)) s of
        (r, s1) \<Rightarrow>
          if r = Fails then (None, perror_reply E 553 (dir_part name) s1)
          else if 4092 \<le> length (take 4095 name) then (None, s1)
          else unique_from E (take 4095 name) (map two_dec [1..<100]) s1)"

text \<open>Where the writing of a file begins that can be read as \<open>x\<close>; \<open>None\<close> when it cannot be read.\<close>

definition store_start :: "env \<Rightarrow> string \<Rightarrow> string option \<Rightarrow> ftpd \<Rightarrow> bool \<times> ftpd" where
  "store_start E name x s =
     (if restart_point s = 0 then (True, s)
      else if rep_type s = TYPE_A then
        (case (case x of None \<Rightarrow> (if 0 < restart_point s then None else Some []) | Some y \<Rightarrow> ascii_skip 0 (restart_point s) y) of
           None \<Rightarrow> (False, perror_reply E 550 name s)
         | Some y \<Rightarrow> (True, s))
      else case os_call E (Seek (restart_point s)) s of
        (r, s1) \<Rightarrow> if r = Fails then (False, perror_reply E 550 name s1) else (True, s1))"

definition receive_file :: "env \<Rightarrow> string \<Rightarrow> bool \<Rightarrow> string option \<Rightarrow> ftpd \<Rightarrow> ftpd" where
  "receive_file E name unique x s =
     (case store_start E name x s of
        (False, s1) \<Rightarrow> s1
      | (True, s1) \<Rightarrow>
          (case dataconn E name [] s1 of
             (False, s2) \<Rightarrow> s2
           | (True, s2) \<Rightarrow>
               (case receive_contents E s2 of
                  (ok, s3) \<Rightarrow>
                    end_data
                      (if \<not> ok then s3
                       else if unique then send_reply 226 (''Transfer complete (unique file name:'' @ name @ '').'') s3
                       else send_reply 226 ''Transfer complete.'' s3))))"

text \<open>What a file that was opened can be read as: only the mode \<open>r+\<close> lets it be read.\<close>

definition readable :: "string \<Rightarrow> result \<Rightarrow> string option" where
  "readable mode r = (if mode = ''r+'' then (case r of Text x \<Rightarrow> Some x | _ \<Rightarrow> Some []) else None)"

definition store_open :: "env \<Rightarrow> string \<Rightarrow> string \<Rightarrow> bool \<Rightarrow> ftpd \<Rightarrow> ftpd" where
  "store_open E name mode unique s =
     (case os_call E (Open_write mode name) s of
        (r, s1) \<Rightarrow>
          if r = Fails then perror_reply E 553 name s1 else receive_file E name unique (readable mode r) s1)"

definition store_cmd :: "env \<Rightarrow> string \<Rightarrow> string \<Rightarrow> bool \<Rightarrow> ftpd \<Rightarrow> ftpd" where
  "store_cmd E name mode unique s =
     (if \<not> unique then store_open E name mode unique s
      else case os_call E (Stat name) s of
        (r, s1) \<Rightarrow>
          if r = Fails then store_open E name mode unique s1
          else case guniquefd E name s1 of
            (None, s2) \<Rightarrow> s2
          | (Some nm, s2) \<Rightarrow>
              receive_file E nm unique (readable (if restart_point s2 \<noteq> 0 then ''r+'' else mode) Done) s2)"

section \<open>Directories and names\<close>

definition ack :: "string \<Rightarrow> ftpd \<Rightarrow> ftpd" where
  "ack x s = send_reply 250 (x @ '' command successful.'') s"

definition simple_call :: "env \<Rightarrow> call \<Rightarrow> string \<Rightarrow> (ftpd \<Rightarrow> ftpd) \<Rightarrow> ftpd \<Rightarrow> ftpd" where
  "simple_call E c name ok s =
     (case os_call E c s of (r, s1) \<Rightarrow> if r = Fails then perror_reply E 550 name s1 else ok s1)"

definition delete_cmd :: "env \<Rightarrow> string \<Rightarrow> ftpd \<Rightarrow> ftpd" where
  "delete_cmd E name s =
     (case os_call E (Stat name) s of
        (r, s1) \<Rightarrow>
          if r = Fails then perror_reply E 550 name s1
          else simple_call E (if r = Directory then Rmdir name else Unlink name) name (ack ''DELE'') s1)"

definition cwd_cmd :: "env \<Rightarrow> string \<Rightarrow> ftpd \<Rightarrow> ftpd" where
  "cwd_cmd E path s = simple_call E (Chdir path) path (\<lambda>s. ack ''CWD'' (send_message E 250 ''.message'' s)) s"

text \<open>
  A name with its quotes doubled, in a buffer of \<open>n\<close> bytes that is filled from place \<open>i\<close>: what is stored, and the
  place of the null byte.
\<close>

fun quote_name :: "nat \<Rightarrow> nat \<Rightarrow> string \<Rightarrow> string \<times> nat" where
  "quote_name n i [] = ([], i)"
| "quote_name n i (c # cs) =
     (if i < n - 1 then
        (if c = CHR 0x22 then case quote_name n (i + 2) cs of (x, k) \<Rightarrow> (c # c # x, k)
         else case quote_name n (i + 1) cs of (x, k) \<Rightarrow> (c # x, k))
      else ([], i))"

definition replydirname :: "string \<Rightarrow> string \<Rightarrow> ftpd \<Rightarrow> ftpd" where
  "replydirname name message s = send_reply 257 ([CHR 0x22] @ fst (quote_name 4096 0 name) @ [CHR 0x22] @ '' '' @ message) s"

definition makedir :: "env \<Rightarrow> string \<Rightarrow> ftpd \<Rightarrow> ftpd" where
  "makedir E name s = simple_call E (Mkdir name) name (replydirname name ''directory created.'') s"

definition removedir :: "env \<Rightarrow> string \<Rightarrow> ftpd \<Rightarrow> ftpd" where
  "removedir E name s = simple_call E (Rmdir name) name (ack ''RMD'') s"

definition pwd_cmd :: "env \<Rightarrow> ftpd \<Rightarrow> ftpd" where
  "pwd_cmd E s =
     (case os_call E Getcwd s of
        (Text path, s1) \<Rightarrow> replydirname path ''is current directory.'' s1
      | (_, s1) \<Rightarrow> send_reply 550 ''.'' s1)"

definition renamefrom :: "env \<Rightarrow> string \<Rightarrow> ftpd \<Rightarrow> ftpd" where
  "renamefrom E name s =
     (case os_call E (Stat name) s of
        (r, s1) \<Rightarrow>
          if r = Fails then (perror_reply E 550 name s1)\<lparr>fromname := None\<rparr>
          else (send_reply 350 ''File exists, ready for destination name'' s1)\<lparr>fromname := Some name\<rparr>)"

definition renamecmd :: "env \<Rightarrow> string \<Rightarrow> string \<Rightarrow> ftpd \<Rightarrow> ftpd" where
  "renamecmd E a b s = simple_call E (Rename a b) ''rename'' (ack ''RNTO'') s"

definition rnto_cmd :: "env \<Rightarrow> string \<Rightarrow> ftpd \<Rightarrow> ftpd" where
  "rnto_cmd E name s =
     (case fromname s of
        None \<Rightarrow> send_reply 503 ''Bad sequence of commands.'' s
      | Some f \<Rightarrow> (renamecmd E f name s)\<lparr>fromname := None\<rparr>)"

section \<open>Settings\<close>

definition type_cmd :: "string \<Rightarrow> int list \<Rightarrow> ftpd \<Rightarrow> ftpd" where
  "type_cmd ls ns s =
     (if take 1 ls = ''A'' then
        (if ls = ''A'' \<or> ls = ''AN'' then (send_reply 200 ''Type set to A.'' s)\<lparr>rep_type := TYPE_A\<rparr>
         else send_reply 504 ''Form must be N.'' s)
      else if take 1 ls = ''E'' then send_reply 504 ''Type E not implemented.'' s
      else if take 1 ls = ''I'' then (send_reply 200 ''Type set to I.'' s)\<lparr>rep_type := TYPE_I\<rparr>
      else if ns = [] \<or> ns = [8] then (send_reply 200 ''Type set to L (byte size 8).'' s)\<lparr>rep_type := TYPE_L\<rparr>
      else send_reply 504 ''Byte size must be 8.'' s)"

text \<open>Numbers in answers: decimal with a sign, and octal with at least three digits.\<close>

definition signed_dec :: "int \<Rightarrow> string" where
  "signed_dec n = (if n < 0 then ''-'' @ dec (nat (- n)) else dec (nat n))"

fun octal :: "nat \<Rightarrow> string" where
  "octal n = (if n < 8 then [digit n] else octal (n div 8) @ [digit (n mod 8)])"

declare octal.simps [simp del]

definition octal3 :: "int \<Rightarrow> string" where
  "octal3 n = (let s = octal (nat (n mod 2 ^ 32)) in replicate (3 - length s) (CHR ''0'') @ s)"

definition value_of :: "result \<Rightarrow> int" where
  "value_of r = (case r of Value n \<Rightarrow> n | _ \<Rightarrow> 0)"

definition umask_cmd :: "env \<Rightarrow> int list \<Rightarrow> ftpd \<Rightarrow> ftpd" where
  "umask_cmd E ns s =
     (case ns of
        [] \<Rightarrow>
          (case os_call E (Umask 0) s of
             (r, s1) \<Rightarrow>
               send_reply 200 (''Current UMASK is '' @ octal3 (value_of r)) (snd (os_call E (Umask (value_of r)) s1)))
      | n # ns' \<Rightarrow>
          let m = octal_number n 1 0
          in if m = -1 \<or> 511 < m then send_reply 501 ''Bad UMASK value'' s
             else case os_call E (Umask m) s of
               (r, s1) \<Rightarrow> send_reply 200 (''UMASK set to '' @ octal3 m @ '' (was '' @ octal3 (value_of r) @ '')'') s1)"

definition chmod_cmd :: "env \<Rightarrow> int \<Rightarrow> string \<Rightarrow> ftpd \<Rightarrow> ftpd" where
  "chmod_cmd E n name s =
     (let m = octal_number n 1 0
      in if 511 < m then send_reply 501 ''CHMOD: Mode value must be between 0 and 0777'' s
         else simple_call E (Chmod name m) name (send_reply 200 ''CHMOD command successful.'') s)"

definition idle_cmd :: "env \<Rightarrow> int list \<Rightarrow> ftpd \<Rightarrow> ftpd" where
  "idle_cmd E ns s =
     (case ns of
        [] \<Rightarrow> 
          send_reply 200 (''Current IDLE time limit is '' @ signed_dec (idle_time s) @ '' seconds; max '' @ signed_dec (maxtimeout E)) s
      | n # r \<Rightarrow>
          if n < 30 \<or> maxtimeout E < n then 
            send_reply 501 (''Maximum IDLE time must be between 30 and '' @ signed_dec (maxtimeout E) @ '' seconds'') s
          else (send_reply 200 (''Maximum IDLE time set to '' @ signed_dec n @ '' seconds'') s)\<lparr>idle_time := n\<rparr>)"

definition size_cmd :: "env \<Rightarrow> string \<Rightarrow> ftpd \<Rightarrow> ftpd" where
  "size_cmd E name s =
     (if rep_type s = TYPE_E then send_reply 504 ''SIZE not implemented for Type E.'' s
      else if rep_type s = TYPE_A then
        (case os_call E (Open_read name) s of
           (Text x, s1) \<Rightarrow> send_reply 213 (dec (length (send_text x))) s1
         | (r, s1) \<Rightarrow>
             if r = Fails then perror_reply E 550 name s1 else send_reply 550 (name @ '': not a plain file.'') s1)
      else case os_call E (Stat name) s of
        (Regular n, s1) \<Rightarrow> send_reply 213 (dec n) s1
      | (_, s1) \<Rightarrow> send_reply 550 (name @ '': not a plain file.'') s1)"

definition mdtm_cmd :: "env \<Rightarrow> string \<Rightarrow> ftpd \<Rightarrow> ftpd" where
  "mdtm_cmd E name s =
     (case os_call E (Stat name) s of
        (Regular n, s1) \<Rightarrow> send_reply 213 (mtime E (map snd (log s1))) s1
      | (r, s1) \<Rightarrow>
          if r = Fails then send_reply 550 (name @ '': '' @ strerror E (map snd (log s1))) s1
          else send_reply 550 (name @ '': not a plain file.'') s1)"

text \<open>
  Help on one command; the table of all of them is between the two lines of the other answer. The syntax of a
  command is the text beside it in the tables.
\<close>

definition cmdhelp :: "string list" where
  "cmdhelp =
    [''<sp> username'', ''<sp> password'', ''(specify account)'', ''(structure mount)'', ''(reinitialize server state)'',
     ''(terminate service)'', ''<sp> b0, b1, b2, b3, b4'', ''(set server in passive mode)'', ''<sp> [ A | E | I | L ]'',
     ''(specify file structure)'', ''(specify transfer mode)'', ''<sp> file-name'', ''<sp> file-name'', ''<sp> file-name'',
     ''(mail file)'', ''(mail to user)'', ''(mail send to terminal)'', ''(mail send to terminal or mailbox)'',
     ''(mail send to terminal and mailbox)'', ''(mail recipient scheme question)'', ''(mail recipient)'',
     ''allocate storage (vacuously)'', ''<sp> offset (restart command)'', ''<sp> file-name'', ''<sp> file-name'',
     ''(abort operation)'', ''<sp> file-name'', ''[ <sp> directory-name ]'', ''[ <sp> directory-name ]'',
     ''[ <sp> path-name ]'', ''[ <sp> path-name ]'', ''site-cmd [ <sp> arguments ]'', ''(get type of operating system)'',
     ''[ <sp> path-name ]'', ''[ <sp> <string> ]'', [], ''<sp> path-name'', ''<sp> path-name'', ''<sp> path-name'',
     ''<sp> path-name'', ''(return current directory)'', ''(return current directory)'', ''(change to parent directory)'',
     ''(change to parent directory)'', ''<sp> file-name'', ''<sp> path-name'', ''<sp> path-name'']"

definition sitehelp :: "string list" where
  "sitehelp = [''[ <sp> umask ]'', ''[ <sp> maximum-idle-time ]'', ''<sp> mode <sp> file-name'', ''[ <sp> <string> ]'']"

definition help_cmd :: "env \<Rightarrow> bool \<Rightarrow> string option \<Rightarrow> ftpd \<Rightarrow> ftpd" where
  "help_cmd E is_site arg s =
     (let kind = (if is_site then ''SITE '' else []);
          ctab = (if is_site then sitetab else cmdtab); texts = (if is_site then sitehelp else cmdhelp)
      in case arg of
           None \<Rightarrow> send_reply 214 (''Direct comments to ftp-bugs@'' @ hostname E @ ''.'')
                     (send_reply 214 (''The following '' @ kind @ ''commands are recognized (* =>'' @ [CHR 0x27] @ ''s unimplemented).'') s)
         | Some x \<Rightarrow>
             (let name = map upper_char x
              in case find (\<lambda>((nm, c), h). name = nm) (zip ctab texts) of
                   None \<Rightarrow> send_reply 502 (''Unknown command '' @ name @ ''.'') s
                 | Some ((nm, c, st, impl), h) \<Rightarrow>
                     if impl then send_reply 214 (''Syntax: '' @ kind @ nm @ '' '' @ h) s
                     else send_reply 214 (kind @ nm @ replicate (8 - length nm) (CHR '' '') @ [CHR 0x09] @ h @ ''; unimplemented.'') s))"

text \<open>HELP SITE asks for help on the commands of SITE.\<close>

definition help_line :: "env \<Rightarrow> string option \<Rightarrow> ftpd \<Rightarrow> ftpd" where
  "help_line E arg s =
     (case arg of
        None \<Rightarrow> help_cmd E False None s
      | Some x \<Rightarrow>
          if map upper_char (take 4 x) = ''SITE'' then
            (let cp = drop 4 x; cp' = (if take 1 cp = '' '' then tl cp else cp)
             in help_cmd E True (if cp' = [] then None else Some cp') s)
          else help_cmd E False arg s)"

section \<open>Lists of names\<close>

text \<open>What has been put out so far: \<open>None\<close> before the connection is made.\<close>

type_synonym listing = "string option"

definition list_name :: "env \<Rightarrow> string \<Rightarrow> listing \<Rightarrow> ftpd \<Rightarrow> listing \<times> ftpd" where
  "list_name E name l s =
     (let line = name @ (if rep_type s = TYPE_A then [cr, lf] else [lf])
      in case l of
           Some x \<Rightarrow> (Some (x @ line), s)
         | None \<Rightarrow> (case dataconn E ''file list'' [] s of (ok, s1) \<Rightarrow> (if ok then Some line else None, s1)))"

fun list_entries :: "env \<Rightarrow> bool \<Rightarrow> string \<Rightarrow> string list \<Rightarrow> listing \<Rightarrow> ftpd \<Rightarrow> bool \<times> listing \<times> ftpd" where
  "list_entries E simple dir [] l s = (True, l, s)"
| "list_entries E simple dir (d # ds) l s =
     (if d = ''.'' \<or> d = ''..'' then list_entries E simple dir ds l s
      else
        let nbuf = take 4095 (dir @ ''/'' @ d);
            (wanted, s1) = (if simple then (True, s)
                            else case os_call E (Stat nbuf) s of (r, s1) \<Rightarrow> (case r of Regular n \<Rightarrow> True | _ \<Rightarrow> False, s1))
        in if \<not> wanted then list_entries E simple dir ds l s1
           else case list_name E (if take 2 nbuf = ''./'' then drop 2 nbuf else nbuf) l s1 of
             (None, s2) \<Rightarrow> (False, None, s2)
           | (Some x, s2) \<Rightarrow> list_entries E simple dir ds (Some x) s2)"

definition list_end :: "env \<Rightarrow> listing \<Rightarrow> ftpd \<Rightarrow> ftpd" where
  "list_end E l s =
     (case l of
        None \<Rightarrow> end_data (send_reply 550 ''No files found.'' s)
      | Some x \<Rightarrow>
          (case os_call E (Send x) s of
             (r, s1) \<Rightarrow>
               end_data (if r = Fails then perror_reply E 550 ''Data connection'' s1
                         else send_reply 226 ''Transfer complete.'' s1)))"

fun list_names :: "env \<Rightarrow> string \<Rightarrow> bool \<Rightarrow> string list \<Rightarrow> listing \<Rightarrow> ftpd \<Rightarrow> ftpd" where
  "list_names E whichf simple [] l s = list_end E l s"
| "list_names E whichf simple (d # ds) l s =
     (case os_call E (Stat d) s of
        (r, s1) \<Rightarrow>
          (case r of
             Regular n \<Rightarrow>
               (case list_name E d l s1 of
                  (None, s2) \<Rightarrow> s2
                | (Some x, s2) \<Rightarrow> list_names E whichf simple ds (Some x) s2)
           | Directory \<Rightarrow>
               (case os_call E (Open_dir d) s1 of
                  (Names es, s2) \<Rightarrow>
                    (case list_entries E simple d es l s2 of
                       (ok, l', s3) \<Rightarrow> if ok then list_names E whichf simple ds l' s3 else s3)
                | (_, s2) \<Rightarrow> list_names E whichf simple ds l s2)
           | Fails \<Rightarrow>
               (if take 1 d = ''-'' \<and> ds = [] \<and> l = None then retrieve_list E (ls_line [] d) s1
                else
                  let s2 = perror_reply E 550 whichf s1
                  in case l of None \<Rightarrow> s2 | Some x \<Rightarrow> end_data (snd (os_call E (Send x) s2)))
           | _ \<Rightarrow> list_names E whichf simple ds l s1))"

definition send_file_list :: "env \<Rightarrow> string \<Rightarrow> ftpd \<Rightarrow> ftpd" where
  "send_file_list E whichf s =
     (if set whichf \<inter> set ''~{[*?'' = {} then list_names E whichf True [whichf] None s
      else case os_call E (Glob whichf) s of
        (Names [], s1) \<Rightarrow> perror_reply E 550 whichf s1
      | (Names ns, s1) \<Rightarrow> list_names E whichf False ns None s1
      | (_, s1) \<Rightarrow> send_reply 550 ''not found'' s1)"

text \<open>A status answer with a listing in it; the listing itself is not kept.\<close>

definition stat_file :: "env \<Rightarrow> string \<Rightarrow> ftpd \<Rightarrow> ftpd" where
  "stat_file E name s =
     (case ftpd_popen E (take 2047 (''/bin/ls -lgA '' @ name)) s of
        (x, s1) \<Rightarrow> send_reply 211 ''End of Status'' (send_reply 211 (''status of '' @ name @ '':'') s1))"

section \<open>Commands\<close>

text \<open>A path with a tilde is expanded first, for those who are logged in.\<close>

definition pathname :: "env \<Rightarrow> string \<Rightarrow> ftpd \<Rightarrow> string option \<times> ftpd" where
  "pathname E p s =
     (if \<not> logged_in s \<or> CHR ''~'' \<notin> set p then (Some p, s)
      else case os_call E (Glob (if take 2 p = ''/~'' then tl p else p)) s of
        (Names (x # xs), s1) \<Rightarrow> (Some x, s1)
      | (_, s1) \<Rightarrow> (None, send_reply 550 ''not found'' s1))"

definition need_login :: "(ftpd \<Rightarrow> ftpd) \<Rightarrow> ftpd \<Rightarrow> ftpd" where
  "need_login f s = (if logged_in s then f s else send_reply 530 ''Please login with USER and PASS.'' s)"

definition with_path :: "env \<Rightarrow> cmd_token list \<Rightarrow> (string \<Rightarrow> ftpd \<Rightarrow> ftpd) \<Rightarrow> ftpd \<Rightarrow> ftpd" where
  "with_path E ts f =
     need_login (\<lambda>s. case string_of ts of
         None \<Rightarrow> s
       | Some p \<Rightarrow> (case pathname E p s of (None, s1) \<Rightarrow> s1 | (Some q, s1) \<Rightarrow> f q s1))"

definition rnfr_cmd :: "env \<Rightarrow> cmd_token list \<Rightarrow> ftpd \<Rightarrow> ftpd" where
  "rnfr_cmd E ts s = with_path E ts (renamefrom E) (s\<lparr>restart_point := 0\<rparr>)"

definition rnto :: "env \<Rightarrow> cmd_token list \<Rightarrow> ftpd \<Rightarrow> ftpd" where
  "rnto E ts =
     need_login (\<lambda>s. case string_of ts of
         None \<Rightarrow> s
       | Some p \<Rightarrow>
           (case pathname E p s of
              (Some q, s1) \<Rightarrow> rnto_cmd E q s1
            | (None, s1) \<Rightarrow>
                if fromname s1 = None then send_reply 503 ''Bad sequence of commands.'' s1
                else (perror_reply E 550 ''rename'' s1)\<lparr>fromname := None\<rparr>))"

definition site :: "env \<Rightarrow> cmd_token list \<Rightarrow> ftpd \<Rightarrow> ftpd" where
  "site E ts =
     (if Cmd UMASK \<in> set ts then need_login (umask_cmd E (numbers_of ts))
      else if Cmd IDLE \<in> set ts then need_login (idle_cmd E (numbers_of ts))
      else if Cmd CHMOD \<in> set ts then with_path E ts (chmod_cmd E (hd (numbers_of ts)))
      else help_cmd E True (string_of ts))"

definition exec_cmd :: "env \<Rightarrow> cmd \<Rightarrow> cmd_token list \<Rightarrow> ftpd \<Rightarrow> ftpd" where
  "exec_cmd E c ts =
     (case c of
        USER \<Rightarrow> (case string_of ts of None \<Rightarrow> id | Some n \<Rightarrow> user_cmd E n)
      | PASS \<Rightarrow> pass E (case string_of ts of None \<Rightarrow> [] | Some p \<Rightarrow> p)
      | PORT \<Rightarrow> (\<lambda>s. if logged_in s then (case set_dest (numbers_of ts) s of (ok, s1) \<Rightarrow> port_cmd E ok s1)
                     else snd (set_dest (numbers_of ts) (need_login id s)))
      | PASV \<Rightarrow> need_login (passive_cmd E)
      | TYP \<Rightarrow> need_login (type_cmd (letters_of ts) (numbers_of ts))
      | STRU \<Rightarrow> need_login (if letters_of ts = ''F'' then send_reply 200 ''STRU F ok.'' else send_reply 504 ''Unimplemented STRU type.'')
      | MODE \<Rightarrow> need_login (if letters_of ts = ''S'' then send_reply 200 ''MODE S ok.'' else send_reply 502 ''Unimplemented MODE type.'')
      | ALLO \<Rightarrow> need_login (send_reply 202 ''ALLO command ignored.'')
      | RETR \<Rightarrow> with_path E ts (retrieve_file E)
      | STOR \<Rightarrow> with_path E ts (\<lambda>p. store_cmd E p ''w'' False)
      | APPE \<Rightarrow> with_path E ts (\<lambda>p. store_cmd E p ''a'' False)
      | STOU \<Rightarrow> with_path E ts (\<lambda>p. store_cmd E p ''w'' True)
      | NLST \<Rightarrow> need_login (send_file_list E (case string_of ts of None \<Rightarrow> ''.'' | Some p \<Rightarrow> p))
      | LIST \<Rightarrow> (if string_of ts = None then need_login (retrieve_list E (ls_line ''-lgA'' []))
                 else with_path E ts (\<lambda>p. retrieve_list E (ls_line ''-lgA '' p)))
      | STAT \<Rightarrow> (if string_of ts = None then need_login (send_reply 211 ''End of status'') else with_path E ts (stat_file E))
      | DELE \<Rightarrow> with_path E ts (delete_cmd E)
      | RNTO \<Rightarrow> rnto E ts
      | ABOR \<Rightarrow> need_login (send_reply 225 ''ABOR command successful.'')
      | CWD \<Rightarrow> (if string_of ts = None then need_login (\<lambda>s. cwd_cmd E (case pw s of None \<Rightarrow> [] | Some p \<Rightarrow> pw_dir p) s)
                else with_path E ts (cwd_cmd E))
      | HELP \<Rightarrow> help_line E (string_of ts)
      | NOOP \<Rightarrow> send_reply 200 ''NOOP command successful.''
      | MKD \<Rightarrow> with_path E ts (makedir E)
      | RMD \<Rightarrow> with_path E ts (removedir E)
      | PWD \<Rightarrow> need_login (pwd_cmd E)
      | CDUP \<Rightarrow> need_login (cwd_cmd E ''..'')
      | SITE \<Rightarrow> site E ts
      | SYST \<Rightarrow> need_login (send_reply 215 ''UNIX Type: L8 (Linux)'')
      | SIZE \<Rightarrow> with_path E ts (size_cmd E)
      | MDTM \<Rightarrow> with_path E ts (mdtm_cmd E)
      | QUIT \<Rightarrow> (\<lambda>s. dologout E (send_reply 221 ''Goodbye.'' s))
      | RNFR \<Rightarrow> rnfr_cmd E ts
      | REST \<Rightarrow> need_login (\<lambda>s. 
          send_reply 350 (''Restarting at '' @ signed_dec (hd (numbers_of ts)) @ ''. Send STORE or RETRIEVE to initiate transfer.'')
            (s\<lparr>fromname := None, restart_point := hd (numbers_of ts)\<rparr>))
      | _ \<Rightarrow> id)"

text \<open>What the rule of a list of commands does after each of them; RNFR and REST are not among them.\<close>

definition cmd_done :: "ftpd \<Rightarrow> ftpd" where
  "cmd_done s = s\<lparr>fromname := None, restart_point := 0\<rparr>"

text \<open>The actions in the middle of a rule that had been taken when an error came.\<close>

definition login_checked :: "cmd \<Rightarrow> cmd_token list \<Rightarrow> bool" where
  "login_checked c ts =
     (if c = SITE then
        (case ts of
           [] \<Rightarrow> False | [t] \<Rightarrow> False
         | t # u # r \<Rightarrow> if u \<in> {Cmd HELP, Cmd UMASK, Cmd CHMOD} then u \<noteq> Cmd HELP \<and> t = SP else t = SP)
      else c \<notin> {USER, PASS, HELP, NOOP, QUIT})"

definition partly_done :: "cmd \<Rightarrow> cmd_token list \<Rightarrow> ftpd \<Rightarrow> ftpd" where
  "partly_done c ts s =
     (let s1 = (if login_checked c ts then need_login id s else s)
      in if c = PORT \<and> 12 \<le> length ts \<and> list_all2 fits_token (KSP # host_port_syms) (take 12 ts)
         then snd (set_dest (numbers_of (take 12 ts)) s1) else s1)"

definition run_line :: "env \<Rightarrow> string \<Rightarrow> scanner \<times> ftpd \<Rightarrow> scanner \<times> ftpd" where
  "run_line E line x =
     (case read_line line (fst x) of
        (Run c ts, a, sc) \<Rightarrow>
          (sc, if c \<in> {RNFR, REST} then exec_cmd E c ts (snd x) else cmd_done (exec_cmd E c ts (snd x)))
      | (Failed c ts ok, a, sc) \<Rightarrow>
          (let s1 = partly_done c ts (snd x); s2 = s1\<lparr>out := out s1 @ a\<rparr> in (sc, if ok then cmd_done s2 else s2))
      | (No_command, a, sc) \<Rightarrow> (sc, (snd x)\<lparr>out := out (snd x) @ a\<rparr>))"

section \<open>A session\<close>

lemma fill_line_le:
  "fill_line n inp = (x, r, a, e) \<Longrightarrow> length r \<le> length inp \<and> (if x = [] then e else length r < length inp)"
proof (induction n inp arbitrary: x r a e rule: fill_line.induct)
  case (2 n c r0)
  obtain o' r1 a1 where t: "telnet_item c r0 = (o', r1, a1)" by (cases "telnet_item c r0")
  have le: "length r1 \<le> length r0" using telnet_item_le [OF t] .
  show ?case
  proof (cases o')
    case None
    obtain y q b f where f: "fill_line n r1 = (y, q, b, f)" by (cases "fill_line n r1")
    from 2(1) [OF t [symmetric] None refl f] 2(3) t None le f show ?thesis
      by (auto simp: fill_line.simps(2))
  next
    case (Some k)
    show ?thesis
    proof (cases "n \<le> 1 \<or> k = lf")
      case True
      with 2(3) t Some le show ?thesis by (auto simp: fill_line.simps(2))
    next
      case False
      obtain y q b f where f: "fill_line (n - 1) r1 = (y, q, b, f)" by (cases "fill_line (n - 1) r1")
      from 2(2) [OF t [symmetric] Some refl False f] 2(3) t Some le False f show ?thesis
        by (auto simp: fill_line.simps(2))
    qed
  qed
qed simp

lemma getline_less: "ftpd_getline [] n inp = Some (x, r, a) \<Longrightarrow> length r < length inp"
  using fill_line_le [of n inp] by (auto simp: ftpd_getline_def split: prod.splits if_splits)

text \<open>
  The lines of a client, read one by one until it has gone or the process has ended. No transfer is interrupted, so
  that nothing is left over in \<open>tmpline\<close>.
\<close>

function session :: "env \<Rightarrow> string \<Rightarrow> scanner \<times> ftpd \<Rightarrow> scanner \<times> ftpd" where
  "session E inp x =
     (if exited (snd x) then x
      else case ftpd_getline [] 511 inp of
        None \<Rightarrow> (fst x, dologout E (send_reply 221 ''You could at least say goodbye.'' (snd x)))
      | Some (line, r, a) \<Rightarrow> session E r (run_line E line x))"
  by pat_completeness auto
termination by (relation "measure (\<lambda>(E, inp, x). length inp)") (auto dest: getline_less)

declare session.simps [simp del]

text \<open>A process when a client has just been answered, and after the greeting.\<close>

definition new_ftpd :: "env \<Rightarrow> ftpd" where
  "new_ftpd E =
    \<lparr>logged_in = False, guest = False, dochroot = False, askpasswd = False, pw = None, spw = None, login_attempts = 0,
     euid = 0, rep_type = TYPE_A, usedefault = True, data_dest = (0, 0), pdata = False, data_open = False,
     restart_point = 0, fromname = None, idle_time = 900, out = [], log = [], exited = False\<rparr>"

definition fresh_ftpd :: "env \<Rightarrow> ftpd" where
  "fresh_ftpd E =
    (case config E ''/etc/nologin'' of
       None \<Rightarrow> (new_ftpd E)\<lparr>out :=
         (case config E ''/etc/ftpwelcome'' of None \<Rightarrow> [] | Some x \<Rightarrow> map (Pair 220) (text_lines x)) @
         [(220, (if multihome E then dhostname E else hostname E) @ '' FTP server ('' @ version E @ '') ready.'')]\<rparr>
     | Some x \<Rightarrow> (new_ftpd E)\<lparr>out := map (Pair 530) (text_lines x) @ [(530, ''System not available.'')], exited := True\<rparr>)"

definition fresh_scan :: "string \<Rightarrow> scanner" where
  "fresh_scan beyond = \<lparr>sc_mem = replicate 512 null @ beyond, sc_pos = 0, sc_state = CMD\<rparr>"

end
