(* ===== verification/Ftpd_Rights.thy ===== *)
theory Ftpd_Rights
  imports Ftpd_Commands
begin

text \<open>
  What the commands of the file transfer server may do: the calls each makes, the user it makes them as, and what
  it leaves of the login.
\<close>

section \<open>Calls and rights\<close>

text \<open>The calls that are made as root while a socket for data is set up.\<close>

fun root_call :: "call \<Rightarrow> bool" where
  "root_call (Seteuid u) = True"
| "root_call Socket = True"
| "root_call (Bind p) = True"
| "root_call c = False"

definition peer_ok :: "env \<Rightarrow> addr \<Rightarrow> bool" where
  "peer_ok E a \<longleftrightarrow> fst a = fst (his_addr E) \<and> PORT_RESERVED \<le> snd a \<and> snd a \<noteq> 2049"

definition call_ok :: "env \<Rightarrow> nat \<Rightarrow> nat \<times> call \<Rightarrow> bool" where
  "call_ok E u x \<longleftrightarrow> (fst x = u \<or> root_call (snd x)) \<and> (case snd x of Connect a \<Rightarrow> peer_ok E a | _ \<Rightarrow> True)"

text \<open>From \<open>s0\<close> to \<open>s\<close> only calls that are allowed were made and the login is the same.\<close>

definition quiet :: "env \<Rightarrow> ftpd \<Rightarrow> ftpd \<Rightarrow> bool" where
  "quiet E s0 s \<longleftrightarrow>
     (\<exists>l. log s = log s0 @ l \<and> list_all (call_ok E (euid s0)) l) \<and> euid s = euid s0 \<and> logged_in s = logged_in s0 \<and>
     guest s = guest s0 \<and> dochroot s = dochroot s0 \<and> pw s = pw s0"

named_theorems quiet_rules \<open>what leaves the login alone\<close>

lemma quiet_refl: "quiet E s s"
  by (simp add: quiet_def)

lemma quiet_trans:
  assumes "quiet E s0 s1" "quiet E s1 s2"
  shows "quiet E s0 s2"
proof -
  obtain l1 where l1: "log s1 = log s0 @ l1" "list_all (call_ok E (euid s0)) l1" using assms(1) by (auto simp: quiet_def)
  obtain l2 where l2: "log s2 = log s1 @ l2" "list_all (call_ok E (euid s1)) l2" using assms(2) by (auto simp: quiet_def)
  have "log s2 = log s0 @ (l1 @ l2) \<and> list_all (call_ok E (euid s0)) (l1 @ l2)"
    using l1 l2 assms(1) by (simp add: quiet_def)
  then have "\<exists>l. log s2 = log s0 @ l \<and> list_all (call_ok E (euid s0)) l" by blast
  with assms show ?thesis by (simp add: quiet_def)
qed

lemma call_ok_own: "(\<And>a. c \<noteq> Connect a) \<Longrightarrow> call_ok E u (u, c)"
  by (cases c) (auto simp: call_ok_def)

lemma quiet_log:
  assumes "quiet E s0 s" "call_ok E (euid s0) x"
  shows "quiet E s0 (s\<lparr>log := log s @ [x]\<rparr>)"
proof -
  obtain l where "log s = log s0 @ l" "list_all (call_ok E (euid s0)) l" using assms(1) by (auto simp: quiet_def)
  then have "log s @ [x] = log s0 @ (l @ [x]) \<and> list_all (call_ok E (euid s0)) (l @ [x])" using assms(2) by simp
  then have "\<exists>l. log s @ [x] = log s0 @ l \<and> list_all (call_ok E (euid s0)) l" by blast
  with assms(1) show ?thesis by (simp add: quiet_def)
qed

lemma quiet_sys:
  assumes "quiet E s0 s" "os_call E c s = (r, s1)" "\<And>a. c \<noteq> Connect a"
  shows "quiet E s0 s1"
proof -
  have "s1 = s\<lparr>log := log s @ [(euid s, c)]\<rparr>" using assms(2) by (auto simp: os_call_def)
  moreover have "call_ok E (euid s0) (euid s, c)" using assms(1) call_ok_own [OF assms(3)] by (simp add: quiet_def)
  ultimately show ?thesis using quiet_log [OF assms(1)] by simp
qed

lemma quiet_sys_snd [quiet_rules]: "quiet E s0 s \<Longrightarrow> (\<And>a. c \<noteq> Connect a) \<Longrightarrow> quiet E s0 (snd (os_call E c s))"
  using quiet_sys [of E s0 s c "fst (os_call E c s)" "snd (os_call E c s)"] by simp

lemma quiet_reply [quiet_rules]: "quiet E s0 s \<Longrightarrow> quiet E s0 (send_reply n x s)"
  by (simp add: quiet_def send_reply_def)

lemma quiet_perror [quiet_rules]: "quiet E s0 s \<Longrightarrow> quiet E s0 (perror_reply E n x s)"
  by (simp add: perror_reply_def quiet_reply)

lemma quiet_updates [quiet_rules]:
  "quiet E s0 s \<Longrightarrow> quiet E s0 (s\<lparr>usedefault := b1\<rparr>)"
  "quiet E s0 s \<Longrightarrow> quiet E s0 (s\<lparr>data_dest := a\<rparr>)"
  "quiet E s0 s \<Longrightarrow> quiet E s0 (s\<lparr>pdata := b2\<rparr>)"
  "quiet E s0 s \<Longrightarrow> quiet E s0 (s\<lparr>data_open := b3\<rparr>)"
  "quiet E s0 s \<Longrightarrow> quiet E s0 (s\<lparr>restart_point := n1\<rparr>)"
  "quiet E s0 s \<Longrightarrow> quiet E s0 (s\<lparr>fromname := f\<rparr>)"
  "quiet E s0 s \<Longrightarrow> quiet E s0 (s\<lparr>idle_time := n2\<rparr>)"
  "quiet E s0 s \<Longrightarrow> quiet E s0 (s\<lparr>rep_type := t\<rparr>)"
  "quiet E s0 s \<Longrightarrow> quiet E s0 (s\<lparr>out := o1\<rparr>)"
  "quiet E s0 s \<Longrightarrow> quiet E s0 (s\<lparr>exited := e\<rparr>)"
  "quiet E s0 s \<Longrightarrow> quiet E s0 (s\<lparr>askpasswd := b4\<rparr>)"
  by (simp_all add: quiet_def)

lemma quiet_message [quiet_rules]:
  assumes "quiet E s0 s"
  shows "quiet E s0 (send_message E n f s)"
proof -
  obtain a where a: "send_message E n f s = (snd (os_call E (Open_read f) s))\<lparr>out := a\<rparr>" using send_message_same by blast
  have "quiet E s0 (snd (os_call E (Open_read f) s))" using assms by (rule quiet_sys_snd) simp
  with a show ?thesis by (simp add: quiet_def)
qed

lemma quiet_euid: "quiet E s0 s \<Longrightarrow> euid s = euid s0" "quiet E s0 s \<Longrightarrow> pw s = pw s0" "quiet E s0 s \<Longrightarrow> logged_in s = logged_in s0"
  by (simp_all add: quiet_def)

section \<open>Data connections\<close>

text \<open>While a socket is bound the process is root.\<close>

definition rooted :: "env \<Rightarrow> ftpd \<Rightarrow> ftpd \<Rightarrow> bool" where
  "rooted E s0 s \<longleftrightarrow>
     (\<exists>l. log s = log s0 @ l \<and> list_all (call_ok E (euid s0)) l) \<and> logged_in s = logged_in s0 \<and>
     guest s = guest s0 \<and> dochroot s = dochroot s0 \<and> pw s = pw s0 \<and> data_dest s = data_dest s0"

lemma rooted_sys: "rooted E s0 s \<Longrightarrow> os_call E c s = (r, s1) \<Longrightarrow> root_call c \<Longrightarrow> rooted E s0 s1"
  by (cases c) (auto simp: rooted_def os_call_def call_ok_def)

lemma rooted_seteuid: "rooted E s0 s \<Longrightarrow> rooted E s0 (snd (seteuid E u s))"
  by (auto simp: seteuid_def rooted_def os_call_def call_ok_def)

lemma rooted_bind: "rooted E s0 s \<Longrightarrow> bind_retry E n s = (ok, s1) \<Longrightarrow> rooted E s0 s1"
proof (induction E n s arbitrary: ok s1 rule: bind_retry.induct)
  case (1 E tries s)
  obtain r s2 where c: "os_call E (Bind None) s = (r, s2)" by fastforce
  have r2: "rooted E s0 s2" using rooted_sys [OF 1(2) c] by simp
  show ?case
  proof (cases "r = Busy \<and> 0 < tries")
    case True
    with 1(1) [OF c [symmetric] True r2, of ok s1] 1(3) c show ?thesis by (simp add: bind_retry.simps [of E tries s])
  next
    case False
    with 1(3) c r2 show ?thesis by (auto simp: bind_retry.simps [of E tries s])
  qed
qed

definition seteuid_works :: "env \<Rightarrow> bool" where
  "seteuid_works E \<longleftrightarrow> (\<forall>l u. os E l (Seteuid u) \<noteq> Fails)"

lemma seteuid_done: "seteuid_works E \<Longrightarrow> seteuid E u s = (True, s\<lparr>log := log s @ [(euid s, Seteuid u)], euid := u\<rparr>)"
  by (simp add: seteuid_def os_call_def seteuid_works_def)

lemma quiet_getdatasock:
  assumes "seteuid_works E" "quiet E s0 s" "euid s0 = uid_of s0" "getdatasock E s = (ok, s1)"
  shows "quiet E s0 s1 \<and> data_dest s1 = data_dest s"
proof (cases "data_open s")
  case True
  with assms show ?thesis by (simp add: getdatasock_def)
next
  case False
  have eq: "euid s = euid s0" "uid_of s = uid_of s0" using assms(2) by (simp_all add: quiet_def uid_of_def)
  let ?s1 = "snd (seteuid E 0 s)"
  obtain r s2 where c: "os_call E Socket ?s1 = (r, s2)" by fastforce
  obtain b s3 where b: "(if r = Fails then (False, s2) else bind_retry E 10 s2) = (b, s3)" by fastforce
  have "rooted E s s" by (simp add: rooted_def)
  then have "rooted E s s2" using rooted_sys [OF rooted_seteuid c] by simp
  then have r3: "rooted E s s3" using b rooted_bind by (auto split: if_splits)
  have "s1 = snd (seteuid E (uid_of s3) s3)" using assms(4) False c b by (simp add: getdatasock_def Let_def)
  then have s1: "s1 = s3\<lparr>log := log s3 @ [(euid s3, Seteuid (uid_of s3))], euid := uid_of s3\<rparr>"
    using seteuid_done [OF assms(1)] by simp
  have "uid_of s3 = uid_of s" using r3 by (simp add: rooted_def uid_of_def)
  then have "quiet E s s1" using r3 s1 eq assms(3) by (auto simp: quiet_def rooted_def call_ok_def)
  with r3 s1 assms(2) show ?thesis using quiet_trans by (auto simp: rooted_def)
qed

lemma quiet_connect:
  "quiet E s0 s \<Longrightarrow> peer_ok E (data_dest s) \<Longrightarrow> connect_retry E n s = (ok, s1) \<Longrightarrow> quiet E s0 s1"
proof (induction E n s arbitrary: ok s1 rule: connect_retry.induct)
  case (1 E tries s)
  obtain r s2 where c: "os_call E (Connect (data_dest s)) s = (r, s2)" by fastforce
  have q2: "quiet E s0 s2" "data_dest s2 = data_dest s"
    using quiet_log [OF 1(2), of "(euid s, Connect (data_dest s))"] 1(2,3) c
    by (auto simp: quiet_def os_call_def call_ok_def)
  show ?case
  proof (cases "r = Busy \<and> 0 < tries")
    case True
    with 1(1) [OF c [symmetric] True q2(1), of ok s1] 1(3,4) c q2(2) show ?thesis
      by (simp add: connect_retry.simps [of E tries s])
  next
    case False
    with 1(4) c q2 show ?thesis by (auto simp: connect_retry.simps [of E tries s])
  qed
qed

text \<open>A state in which the process runs as the account that is logged in.\<close>

definition settled :: "env \<Rightarrow> ftpd \<Rightarrow> bool" where
  "settled E s \<longleftrightarrow> seteuid_works E \<and> euid s = uid_of s"

lemma quiet_dataconn_passive: "quiet E s0 s \<Longrightarrow> quiet E s0 (snd (dataconn_passive E name siz s))"
  by (auto simp: dataconn_passive_def data_fails_def opening_data_def case_prod_beta intro!: quiet_rules split: result.split)

lemma quiet_dataconn:
  assumes "settled E s0" "quiet E s0 s"
  shows "quiet E s0 (snd (dataconn E name siz s))"
proof -
  let ?s1 = "(if usedefault s then s\<lparr>data_dest := his_addr E\<rparr> else s)\<lparr>usedefault := True\<rparr>"
  have q1: "quiet E s0 ?s1" using assms(2) by (auto intro!: quiet_rules)
  obtain b s2 where g: "getdatasock E ?s1 = (b, s2)" by fastforce
  have q2: "quiet E s0 s2" using quiet_getdatasock [OF _ q1 _ g] assms(1) by (simp add: settled_def)
  obtain b3 s3 where cn: "connect_retry E 18 s2 = (b3, s3)" by fastforce
  show ?thesis
  proof (cases "pdata s")
    case True
    with assms(2) show ?thesis using quiet_dataconn_passive by (simp add: dataconn_def)
  next
    case act: False
    show ?thesis
    proof (cases "data_open s \<or> \<not> b \<or> \<not> peer_ok E (data_dest s2)")
      case True
      with act assms(2) g q2 show ?thesis
        by (auto simp: dataconn_def Let_def data_fails_def peer_ok_def intro!: quiet_rules split: bool.split)
    next
      case False
      then have "quiet E s0 s3" using quiet_connect [OF q2 _ cn] by simp
      with False act g cn show ?thesis
        by (auto simp: dataconn_def Let_def data_fails_def peer_ok_def opening_data_def intro!: quiet_rules split: bool.split)
    qed
  qed
qed

section \<open>Transfers\<close>

lemma quiet_popen [quiet_rules]: "quiet E s0 s \<Longrightarrow> quiet E s0 (snd (ftpd_popen E line s))"
proof -
  have e: "quiet E s0 s \<Longrightarrow> quiet E s0 (snd (expand_words E as n s))" for as n s
    by (induction as arbitrary: n s) (auto simp: Let_def case_prod_beta intro!: quiet_rules)
  show "quiet E s0 s \<Longrightarrow> quiet E s0 (snd (ftpd_popen E line s))"
    by (auto simp: ftpd_popen_def Let_def case_prod_beta intro!: quiet_rules e split: result.split)
qed

lemma quiet_end_data [quiet_rules]: "quiet E s0 s \<Longrightarrow> quiet E s0 (end_data s)"
  by (simp add: end_data_def quiet_def)

lemma quiet_send_data [quiet_rules]: "quiet E s0 s \<Longrightarrow> quiet E s0 (send_contents E x s)"
  by (auto simp: send_contents_def case_prod_beta intro!: quiet_rules split: rep_type.split)

lemma quiet_receive_data [quiet_rules]: "quiet E s0 s \<Longrightarrow> quiet E s0 (snd (receive_contents E s))"
  by (auto simp: receive_contents_def case_prod_beta Let_def intro!: quiet_rules split: result.split)

lemma quiet_restart_at [quiet_rules]: "quiet E s0 s \<Longrightarrow> quiet E s0 (snd (restart_at E name x s))"
  by (auto simp: restart_at_def case_prod_beta intro!: quiet_rules split: option.split)

lemma quiet_transfer_out: "settled E s0 \<Longrightarrow> quiet E s0 s \<Longrightarrow> quiet E s0 (transfer_out E name siz x s)"
  by (auto simp: transfer_out_def case_prod_beta intro!: quiet_rules quiet_dataconn split: option.split bool.split)

lemma quiet_retrieve_file: "settled E s0 \<Longrightarrow> quiet E s0 s \<Longrightarrow> quiet E s0 (retrieve_file E name s)"
  by (auto simp: retrieve_file_def case_prod_beta intro!: quiet_rules quiet_transfer_out split: result.split)

lemma quiet_retrieve_list: "settled E s0 \<Longrightarrow> quiet E s0 s \<Longrightarrow> quiet E s0 (retrieve_list E line s)"
  by (auto simp: retrieve_list_def case_prod_beta intro!: quiet_rules quiet_transfer_out split: option.split)

lemma quiet_store_at [quiet_rules]: "quiet E s0 s \<Longrightarrow> quiet E s0 (snd (store_start E name x s))"
  by (auto simp: store_start_def case_prod_beta intro!: quiet_rules split: option.split)

lemma quiet_receive_file: "settled E s0 \<Longrightarrow> quiet E s0 s \<Longrightarrow> quiet E s0 (receive_file E name u x s)"
  by (auto simp: receive_file_def case_prod_beta intro!: quiet_rules quiet_dataconn split: bool.split)

lemma quiet_unique [quiet_rules]: "quiet E s0 s \<Longrightarrow> quiet E s0 (snd (unique_from E name xs s))"
  by (induction xs arbitrary: s) (auto simp: case_prod_beta intro!: quiet_rules)

lemma quiet_guniquefd [quiet_rules]: "quiet E s0 s \<Longrightarrow> quiet E s0 (snd (guniquefd E name s))"
  by (auto simp: guniquefd_def case_prod_beta intro!: quiet_rules)

lemma quiet_store: "settled E s0 \<Longrightarrow> quiet E s0 s \<Longrightarrow> quiet E s0 (store_cmd E name mode u s)"
  by (auto simp: store_cmd_def store_open_def case_prod_beta intro!: quiet_rules quiet_receive_file split: option.split)

section \<open>Lists, names and settings\<close>

lemma quiet_simple: "quiet E s0 s \<Longrightarrow> (\<And>s. quiet E s0 s \<Longrightarrow> quiet E s0 (ok s)) \<Longrightarrow> (\<And>a. c \<noteq> Connect a) \<Longrightarrow>
   quiet E s0 (simple_call E c name ok s)"
  using quiet_sys_snd [of E s0 s c] by (simp add: simple_call_def case_prod_beta quiet_perror)

lemma quiet_ack [quiet_rules]: "quiet E s0 s \<Longrightarrow> quiet E s0 (ack x s)"
  by (simp add: ack_def quiet_reply)

lemma quiet_replydirname [quiet_rules]: "quiet E s0 s \<Longrightarrow> quiet E s0 (replydirname name x s)"
  by (simp add: replydirname_def quiet_reply)

lemma quiet_files [quiet_rules]:
  "quiet E s0 s \<Longrightarrow> quiet E s0 (delete_cmd E name s)"
  "quiet E s0 s \<Longrightarrow> quiet E s0 (cwd_cmd E name s)"
  "quiet E s0 s \<Longrightarrow> quiet E s0 (makedir E name s)"
  "quiet E s0 s \<Longrightarrow> quiet E s0 (removedir E name s)"
  "quiet E s0 s \<Longrightarrow> quiet E s0 (pwd_cmd E s)"
  "quiet E s0 s \<Longrightarrow> quiet E s0 (renamefrom E name s)"
  "quiet E s0 s \<Longrightarrow> quiet E s0 (rnto_cmd E name s)"
  by (auto simp: delete_cmd_def cwd_cmd_def makedir_def removedir_def pwd_cmd_def renamefrom_def rnto_cmd_def
      renamecmd_def case_prod_beta intro!: quiet_rules quiet_simple split: result.split option.split)

lemma quiet_settings [quiet_rules]:
  "quiet E s0 s \<Longrightarrow> quiet E s0 (type_cmd ls ns s)"
  "quiet E s0 s \<Longrightarrow> quiet E s0 (umask_cmd E ns s)"
  "quiet E s0 s \<Longrightarrow> quiet E s0 (chmod_cmd E n name s)"
  "quiet E s0 s \<Longrightarrow> quiet E s0 (idle_cmd E ns s)"
  "quiet E s0 s \<Longrightarrow> quiet E s0 (size_cmd E name s)"
  "quiet E s0 s \<Longrightarrow> quiet E s0 (mdtm_cmd E name s)"
  "quiet E s0 s \<Longrightarrow> quiet E s0 (help_cmd E b arg s)"
  "quiet E s0 s \<Longrightarrow> quiet E s0 (help_line E arg s)"
  by (auto simp: help_line_def help_cmd_def type_cmd_def umask_cmd_def chmod_cmd_def idle_cmd_def size_cmd_def mdtm_cmd_def Let_def
      case_prod_beta intro!: quiet_rules quiet_simple split: result.split list.split option.split)

lemma quiet_list_name: "settled E s0 \<Longrightarrow> quiet E s0 s \<Longrightarrow> quiet E s0 (snd (list_name E name l s))"
  by (auto simp: list_name_def Let_def case_prod_beta intro!: quiet_rules quiet_dataconn split: option.split)

lemma quiet_list_entries:
  "settled E s0 \<Longrightarrow> quiet E s0 s \<Longrightarrow> quiet E s0 (snd (snd (list_entries E simple dir ds l s)))"
proof (induction ds arbitrary: l s)
  case (Cons d ds)
  define n where "n = take 4095 (dir @ ''/'' @ d)"
  define w where "w \<longleftrightarrow> simple \<or> (case fst (os_call E (Stat n) s) of Regular n \<Rightarrow> True | _ \<Rightarrow> False)"
  define s1 where "s1 = (if simple then s else snd (os_call E (Stat n) s))"
  define x where "x = list_name E (if take 2 n = ''./'' then drop 2 n else n) l s1"
  have q1: "quiet E s0 s1" using Cons.prems(2) by (simp add: s1_def quiet_rules)
  have q2: "quiet E s0 (snd x)" using quiet_list_name [OF Cons.prems(1) q1] by (simp add: x_def)
  have eq: "list_entries E simple dir (d # ds) l s =
      (if d = ''.'' \<or> d = ''..'' then list_entries E simple dir ds l s
       else if \<not> w then list_entries E simple dir ds l s1
       else case fst x of None \<Rightarrow> (False, None, snd x) | Some y \<Rightarrow> list_entries E simple dir ds (Some y) (snd x))"
    unfolding w_def s1_def x_def n_def
    by (cases simple) (simp_all only: list_entries.simps Let_def case_prod_beta fst_conv snd_conv if_True if_False simp_thms)
  note ih = Cons.IH [OF Cons.prems] Cons.IH [OF Cons.prems(1) q1] Cons.IH [OF Cons.prems(1) q2]
  show ?case unfolding eq using ih q2 by (cases "fst x") simp_all
qed simp

lemma quiet_list_end [quiet_rules]: "quiet E s0 s \<Longrightarrow> quiet E s0 (list_end E l s)"
  by (auto simp: list_end_def case_prod_beta intro!: quiet_rules split: option.split)

lemma quiet_list_names: "settled E s0 \<Longrightarrow> quiet E s0 s \<Longrightarrow> quiet E s0 (list_names E whichf simple ds l s)"
proof (induction ds arbitrary: l s)
  case Nil
  then show ?case by (simp add: quiet_rules)
next
  case (Cons d ds)
  let ?s1 = "snd (os_call E (Stat d) s)"
  let ?s2 = "snd (os_call E (Open_dir d) ?s1)"
  have q1: "quiet E s0 ?s1" and q2: "quiet E s0 ?s2" using Cons.prems(2) by (auto intro!: quiet_rules)
  note ih = Cons.IH [OF Cons.prems(1)]
  note names = quiet_list_name [OF Cons.prems(1) q1] and entries = quiet_list_entries [OF Cons.prems(1) q2]
  show ?case
  proof (cases "fst (os_call E (Stat d) s)")
    case Fails
    then show ?thesis using q1 Cons.prems(1)
      by (auto simp: case_prod_beta Let_def intro!: quiet_rules quiet_retrieve_list split: option.split)
  next
    case (Regular n)
    then show ?thesis using ih [OF names] names by (auto simp: case_prod_beta split: option.split)
  next
    case Directory
    then show ?thesis using ih [OF entries] ih [OF q2] entries
      by (auto simp: case_prod_beta split: result.split)
  qed (use ih [OF q1] in \<open>simp_all add: case_prod_beta\<close>)
qed

lemma quiet_send_file_list: "settled E s0 \<Longrightarrow> quiet E s0 s \<Longrightarrow> quiet E s0 (send_file_list E whichf s)"
  by (auto simp: send_file_list_def case_prod_beta simp del: list_names.simps
      intro!: quiet_rules quiet_list_names split: result.split list.split)

lemma quiet_stat_file [quiet_rules]: "quiet E s0 s \<Longrightarrow> quiet E s0 (stat_file E name s)"
  by (auto simp: stat_file_def case_prod_beta intro!: quiet_rules)

section \<open>Commands\<close>

lemma quiet_pathname [quiet_rules]: "quiet E s0 s \<Longrightarrow> quiet E s0 (snd (pathname E p s))"
  by (auto simp: pathname_def case_prod_beta intro!: quiet_rules split: result.split list.split)

lemma quiet_with_path:
  "(\<And>p s. quiet E s0 s \<Longrightarrow> quiet E s0 (f p s)) \<Longrightarrow> quiet E s0 s \<Longrightarrow> quiet E s0 (with_path E ts f s)"
  by (simp add: with_path_def need_login_def case_prod_beta quiet_rules split: option.split)

lemma quiet_need_login: "(\<And>s. quiet E s0 s \<Longrightarrow> quiet E s0 (f s)) \<Longrightarrow> quiet E s0 s \<Longrightarrow> quiet E s0 (need_login f s)"
  by (auto simp: need_login_def intro!: quiet_rules)

lemma quiet_port [quiet_rules]: "quiet E s0 s \<Longrightarrow> quiet E s0 (port_cmd E ok s)"
  by (auto simp: port_cmd_def quiet_def send_reply_def)

lemma quiet_set_dest [quiet_rules]: "quiet E s0 s \<Longrightarrow> quiet E s0 (snd (set_dest ns s))"
  by (auto simp: set_dest_def intro!: quiet_rules split: option.split)

lemma quiet_bind_high [quiet_rules]: "quiet E s0 s \<Longrightarrow> quiet E s0 (snd (bind_high E p n s))"
  by (induction n arbitrary: p s) (simp_all add: case_prod_beta quiet_sys_snd)

lemma quiet_passive [quiet_rules]: "quiet E s0 s \<Longrightarrow> quiet E s0 (passive_cmd E s)"
proof -
  assume q: "quiet E s0 s"
  have e: "quiet E s0 s \<Longrightarrow> quiet E s0 (passive_end E s)" for s by (simp add: passive_end_def quiet_rules)
  have b: "quiet E s0 s \<Longrightarrow> quiet E s0 (snd (passive_bind E s))" for s
    by (simp add: passive_bind_def case_prod_beta quiet_rules)
  show ?thesis using q by (simp add: passive_cmd_def case_prod_beta quiet_rules e b split: bool.split)
qed

lemma quiet_rnto [quiet_rules]: "quiet E s0 s \<Longrightarrow> quiet E s0 (rnto E ts s)"
  by (auto simp: rnto_def need_login_def case_prod_beta intro!: quiet_rules split: option.split)

lemma quiet_site [quiet_rules]: "quiet E s0 s \<Longrightarrow> quiet E s0 (site E ts s)"
  by (auto simp: site_def intro!: quiet_rules quiet_need_login quiet_with_path)

text \<open>Commands but USER, PASS and QUIT, which are about the login.\<close>

lemma quiet_exec:
  assumes "settled E s0" "quiet E s0 s" "c \<notin> {USER, PASS, QUIT}"
  shows "quiet E s0 (exec_cmd E c ts s)"
  using assms
  by (cases c)
    (auto simp: exec_cmd_def rnfr_cmd_def case_prod_beta
      intro!: quiet_rules quiet_need_login quiet_with_path quiet_retrieve_file quiet_retrieve_list quiet_store quiet_send_file_list)

lemma quiet_done [quiet_rules]: "quiet E s0 s \<Longrightarrow> quiet E s0 (cmd_done s)"
  by (simp add: cmd_done_def quiet_def)

lemma quiet_partly [quiet_rules]: "quiet E s0 s \<Longrightarrow> quiet E s0 (partly_done c ts s)"
  by (auto simp: partly_done_def Let_def intro!: quiet_rules quiet_need_login)

end
