(* ===== verification/Ftpd_Session.thy ===== *)
theory Ftpd_Session
  imports Ftpd_Rights
begin

text \<open>Who is let in, and what a whole session of the file transfer server keeps.\<close>

section \<open>Accounts\<close>

text \<open>The entry of a name as \<open>sgetpwnam\<close> gives it, and who may be let in.\<close>

definition account :: "env \<Rightarrow> string \<Rightarrow> passwd option" where
  "account E name =
     map_option (\<lambda>p. case getspnam E name of None \<Rightarrow> p | Some sp \<Rightarrow> p\<lparr>pw_passwd := sp_pwdp sp\<rparr>) (getpwnam E name)"

definition guests_allowed :: "env \<Rightarrow> bool" where
  "guests_allowed E \<longleftrightarrow> \<not> checkuser E ftpusers ''ftp'' \<and> \<not> checkuser E ftpusers ''anonymous''"

definition may_enter :: "env \<Rightarrow> passwd \<Rightarrow> bool" where
  "may_enter E p \<longleftrightarrow>
     (\<exists>name. account E name = Some p \<and> (if pw_shell p = [] then ''/bin/sh'' else pw_shell p) \<in> set (shells E) \<and>
             \<not> checkuser E ftpusers name \<and> (anon_only E \<longrightarrow> checkuser E ftpchroot name))"

text \<open>
  With anonymous access only, a refused USER leaves the account of the guests as it was chosen before, but no
  longer as a guest.
\<close>

definition leftover :: "env \<Rightarrow> passwd \<Rightarrow> bool" where
  "leftover E p \<longleftrightarrow> anon_only E \<and> guests_allowed E \<and> account E ''ftp'' = Some p"

definition eligible :: "env \<Rightarrow> bool \<Rightarrow> passwd \<Rightarrow> bool" where
  "eligible E as_guest p \<longleftrightarrow>
     (if as_guest then guests_allowed E \<and> account E ''ftp'' = Some p else may_enter E p \<or> leftover E p)"

lemma sgetpwnam_account: "sgetpwnam E name s = (account E name, if getpwnam E name = None then s else s\<lparr>spw := getspnam E name\<rparr>)"
  by (simp add: sgetpwnam_def account_def split: option.split)

section \<open>Login\<close>

fun login_call :: "call \<Rightarrow> bool" where
  "login_call (Seteuid u) = True"
| "login_call (Setegid g) = True"
| "login_call (Initgroups n) = True"
| "login_call Stat_open = True"
| "login_call (Stat p) = True"
| "login_call (Chroot p) = True"
| "login_call (Chdir p) = True"
| "login_call (Umask m) = True"
| "login_call Getcwd = True"
| "login_call (Open_read p) = (p = ''/etc/motd'')"
| "login_call c = False"

definition confined :: "env \<Rightarrow> ftpd \<Rightarrow> bool" where
  "confined E s \<longleftrightarrow>
     (\<exists>l1 u d l2. log s = l1 @ (u, Chroot d) # l2 \<and> os E (map snd l1) (Chroot d) \<noteq> Fails)"

definition logging_in :: "ftpd \<Rightarrow> ftpd \<Rightarrow> bool" where
  "logging_in s0 s \<longleftrightarrow> (\<exists>l. log s = log s0 @ l \<and> list_all (login_call \<circ> snd) l)"

named_theorems login_rules \<open>what a login calls\<close>

lemma logging_refl [login_rules]: "logging_in s s"
  by (simp add: logging_in_def)

lemma logging_sys [login_rules]: "logging_in s0 s \<Longrightarrow> login_call c \<Longrightarrow> logging_in s0 (snd (os_call E c s))"
  by (auto simp: logging_in_def os_call_def)

lemma logging_updates [login_rules]:
  "logging_in s0 s \<Longrightarrow> logging_in s0 (send_reply n x s)"
  "logging_in s0 s \<Longrightarrow> logging_in s0 (s\<lparr>pw := p\<rparr>)"
  "logging_in s0 s \<Longrightarrow> logging_in s0 (s\<lparr>logged_in := b1\<rparr>)"
  "logging_in s0 s \<Longrightarrow> logging_in s0 (s\<lparr>dochroot := b2\<rparr>)"
  "logging_in s0 s \<Longrightarrow> logging_in s0 (s\<lparr>askpasswd := b3\<rparr>)"
  "logging_in s0 s \<Longrightarrow> logging_in s0 (s\<lparr>guest := b4\<rparr>)"
  "logging_in s0 s \<Longrightarrow> logging_in s0 (s\<lparr>login_attempts := n1\<rparr>)"
  "logging_in s0 s \<Longrightarrow> logging_in s0 (s\<lparr>exited := b5\<rparr>)"
  "logging_in s0 s \<Longrightarrow> logging_in s0 (snd (seteuid E u s))"
  by (auto simp: logging_in_def send_reply_def seteuid_def os_call_def)

lemma logging_message [login_rules]: "logging_in s0 s \<Longrightarrow> logging_in s0 (send_message E n ''/etc/motd'' s)"
proof -
  assume "logging_in s0 s"
  then have "logging_in s0 (snd (os_call E (Open_read ''/etc/motd'') s))" by (rule logging_sys) simp
  moreover obtain a where "send_message E n ''/etc/motd'' s = (snd (os_call E (Open_read ''/etc/motd'') s))\<lparr>out := a\<rparr>"
    using send_message_same by blast
  ultimately show ?thesis by (simp add: logging_in_def)
qed

lemma end_login_state:
  "seteuid_works E \<Longrightarrow> \<not> logged_in (end_login E s) \<and> pw (end_login E s) = None \<and> \<not> guest (end_login E s) \<and>
     euid (end_login E s) = 0 \<and> exited (end_login E s) = exited s"
  by (simp add: end_login_def seteuid_done)

lemma logging_end [login_rules]: "logging_in s0 s \<Longrightarrow> logging_in s0 (end_login E s)"
  by (simp add: end_login_def login_rules)

lemma root_dir_same:
  "root_dir E p s = (d, s1) \<Longrightarrow> guest s1 = guest s \<and> dochroot s1 = dochroot s \<and> pw s1 = pw s \<and> logged_in s1 = logged_in s \<and>
     euid s1 = euid s \<and> (logging_in s0 s \<longrightarrow> logging_in s0 s1)"
  using logging_sys [of s0 s "Stat (pw_dir p @ ''/'' @ dhostname E)" E]
  by (auto simp: root_dir_def os_call_def Let_def split: if_splits)

lemma confine_result:
  assumes "confine E dir msg p s = (ok, s1)"
  shows "guest s1 = guest s \<and> logged_in s1 = logged_in s \<and> (ok \<longrightarrow> pw s1 = Some (p\<lparr>pw_dir := ''/''\<rparr>) \<and> confined E s1) \<and>
     (logging_in s0 s \<longrightarrow> logging_in s0 s1)"
proof -
  let ?s1 = "snd (os_call E (Chroot dir) s)"
  let ?s2 = "snd (os_call E (Chdir ''/'') ?s1)"
  have l: "logging_in s0 s \<longrightarrow> logging_in s0 ?s1 \<and> logging_in s0 ?s2" by (simp add: login_rules)
  have c: "confined E (?s2\<lparr>pw := x\<rparr>)" if "fst (os_call E (Chroot dir) s) \<noteq> Fails" for x
    using that unfolding confined_def os_call_def by (auto intro!: exI [of _ "log s"])
  have f: "guest ?s1 = guest s" "logged_in ?s1 = logged_in s" "guest ?s2 = guest s" "logged_in ?s2 = logged_in s"
    by (simp_all add: os_call_def)
  show ?thesis using assms l c f
    by (auto simp: confine_def case_prod_beta send_reply_def logging_in_def split: if_splits)
qed

lemma go_home_result:
  assumes "go_home E p s = (ok, s1)"
  shows "guest s1 = guest s \<and> logged_in s1 = logged_in s \<and> pw s1 = pw s \<and> (logging_in s0 s \<longrightarrow> logging_in s0 s1)"
  using assms logging_sys [of s0 s "Chdir (pw_dir p)" E] logging_sys [of s0 "snd (os_call E (Chdir (pw_dir p)) s)" "Chdir ''/''" E]
  by (auto simp: go_home_def case_prod_beta os_call_def send_reply_def logging_in_def split: if_splits)

text \<open>The two ways a login with the account \<open>p\<close> can end.\<close>

definition entered :: "env \<Rightarrow> bool \<Rightarrow> passwd \<Rightarrow> ftpd \<Rightarrow> bool" where
  "entered E g p s \<longleftrightarrow> logged_in s \<and> euid s = pw_uid p \<and> (\<exists>d. pw s = Some (p\<lparr>pw_dir := d\<rparr>)) \<and> guest s = g \<and> (g \<longrightarrow> confined E s)"

definition turned_away :: "ftpd \<Rightarrow> bool" where
  "turned_away s \<longleftrightarrow> \<not> logged_in s \<and> pw s = None \<and> \<not> guest s \<and> euid s = 0"

lemma confined_longer: "confined E s \<Longrightarrow> log s' = log s @ l \<Longrightarrow> confined E s'"
  unfolding confined_def by (elim exE conjE) (simp, blast)

lemma start_session_result:
  assumes E: "seteuid_works E" and pw: "pw s = Some p"
  shows "(entered E (guest s) p (start_session E p s) \<or> turned_away (start_session E p s)) \<and>
     (logging_in s0 s \<longrightarrow> logging_in s0 (start_session E p s))"
proof -
  let ?s1 = "s\<lparr>logged_in := True, dochroot := checkuser E ftpchroot (pw_name p)\<rparr>"
  obtain d s2 where d: "(if guest ?s1 \<or> dochroot ?s1 then root_dir E p ?s1 else ([], ?s1)) = (d, s2)" by fastforce
  have s2: "guest s2 = guest s" "dochroot s2 = dochroot ?s1" "pw s2 = Some p" "logged_in s2"
    "logging_in s0 s \<longrightarrow> logging_in s0 s2"
    using d root_dir_same [of E p ?s1 d s2 s0] pw by (auto simp: logging_in_def split: if_splits)
  obtain ok s3 where c: "(if guest s2 then confine E d ''Can't set guest privileges.'' p s2
                      else if dochroot s2 then confine E d ''Can't change root.'' p s2
                      else go_home E p s2) = (ok, s3)" by fastforce
  have s3: "guest s3 = guest s" "logged_in s3" "logging_in s0 s \<longrightarrow> logging_in s0 s3"
    "ok \<Longrightarrow> \<exists>d. pw s3 = Some (p\<lparr>pw_dir := d\<rparr>)" "ok \<Longrightarrow> guest s \<Longrightarrow> confined E s3"
  proof -
    show "guest s3 = guest s" "logged_in s3" "logging_in s0 s \<longrightarrow> logging_in s0 s3"
      using c s2 confine_result [of E d _ p s2 ok s3 s0] go_home_result [of E p s2 ok s3 s0] by (auto split: if_splits)
    show "ok \<Longrightarrow> guest s \<Longrightarrow> confined E s3"
      using c s2 confine_result [of E d _ p s2 ok s3 s0] by (auto split: if_splits)
    have "ok \<Longrightarrow> pw s3 = Some p \<or> pw s3 = Some (p\<lparr>pw_dir := ''/''\<rparr>)"
      using c s2 confine_result [of E d _ p s2 ok s3 s0] go_home_result [of E p s2 ok s3 s0] by (auto split: if_splits)
    moreover have "p\<lparr>pw_dir := pw_dir p\<rparr> = p" by simp
    ultimately show "ok \<Longrightarrow> \<exists>d. pw s3 = Some (p\<lparr>pw_dir := d\<rparr>)" by metis
  qed
  let ?s4 = "s3\<lparr>log := log s3 @ [(euid s3, Seteuid (pw_uid p))], euid := pw_uid p\<rparr>"
  let ?sm = "send_message E 230 ''/etc/motd'' (snd (os_call E Getcwd ?s4))"
  obtain a where m: "?sm = (snd (os_call E (Open_read ''/etc/motd'') (snd (os_call E Getcwd ?s4))))\<lparr>out := a\<rparr>"
    using send_message_same by blast
  then have sm: "guest ?sm = guest s3" "logged_in ?sm = logged_in s3" "pw ?sm = pw s3" "euid ?sm = pw_uid p"
    "\<exists>l. log ?sm = log s3 @ l"
    by (simp_all add: os_call_def)
  let ?s5 = "if guest ?sm then send_reply 230 ''Guest login ok, access restrictions apply.'' ?sm
             else send_reply 230 (''User '' @ pw_name p @ '' logged in.'') ?sm"
  have st: "start_session E p s = (if \<not> ok then end_login E s3 else snd (os_call E (Umask (defumask E)) ?s5))"
    using d c seteuid_done [OF E] by (simp add: start_session_def Let_def)
  have conf: "confined E (snd (os_call E (Umask (defumask E)) ?s5))" if "confined E s3"
  proof -
    obtain l where "log ?sm = log s3 @ l" using sm(5) by blast
    then have "log (snd (os_call E (Umask (defumask E)) ?s5)) = log s3 @ (l @ [(euid ?s5, Umask (defumask E))])"
      by (simp add: os_call_def send_reply_def)
    with that show ?thesis by (rule confined_longer)
  qed
  show ?thesis
  proof (cases ok)
    case False
    with st s3 end_login_state [OF E, of s3] show ?thesis by (auto simp: turned_away_def login_rules)
  next
    case True
    have l: "logging_in s0 s \<longrightarrow> logging_in s0 ?s4" using s3(3) by (auto simp: logging_in_def)
    have "entered E (guest s) p (snd (os_call E (Umask (defumask E)) ?s5))"
      using True s3(1,2,4,5) conf sm(1-4) by (auto simp: entered_def os_call_def send_reply_def)
    with True st l show ?thesis by (auto simp: login_rules)
  qed
qed

section \<open>The invariant\<close>

definition sound :: "env \<Rightarrow> ftpd \<Rightarrow> bool" where
  "sound E s \<longleftrightarrow>
     (if logged_in s then
        \<exists>p. eligible E (guest s) p \<and> euid s = pw_uid p \<and> (\<exists>d. pw s = Some (p\<lparr>pw_dir := d\<rparr>)) \<and> (guest s \<longrightarrow> confined E s)
      else
        euid s = 0 \<and> (guest s \<longrightarrow> pw s \<noteq> None) \<and> (\<forall>p. pw s = Some p \<longrightarrow> eligible E (guest s) p))"

lemma sound_turned_away: "turned_away s \<Longrightarrow> sound E s"
  by (simp add: turned_away_def sound_def)

lemma sound_entered: "entered E g p s \<Longrightarrow> eligible E g p \<Longrightarrow> sound E s"
  by (auto simp: entered_def sound_def)

lemma sound_settled: "sound E s \<Longrightarrow> seteuid_works E \<Longrightarrow> logged_in s \<Longrightarrow> settled E s"
  by (auto simp: sound_def settled_def uid_of_def)

lemma sound_same:
  "sound E s \<Longrightarrow> log s' = log s @ l \<Longrightarrow> euid s' = euid s \<Longrightarrow> logged_in s' = logged_in s \<Longrightarrow> guest s' = guest s \<Longrightarrow> pw s' = pw s \<Longrightarrow>
   sound E s'"
  unfolding sound_def confined_def by (cases "logged_in s") (simp_all, metis append_Cons append_assoc)

lemma sound_quiet: "sound E s \<Longrightarrow> quiet E s s' \<Longrightarrow> sound E s'"
  by (auto simp: quiet_def intro: sound_same)

text \<open>USER makes no call but to end a session that is on.\<close>

lemma user_parts_log:
  "log (user_guest E name s) = log s" "log (user_named E name s) = log s"
  by (simp_all add: user_guest_def user_named_def sgetpwnam_account send_reply_def Let_def split: option.split)

lemma user_parts_idle:
  "logged_in (user_guest E name s) = logged_in s" "euid (user_guest E name s) = euid s"
  "logged_in (user_named E name s) = logged_in s" "euid (user_named E name s) = euid s"
  "guest (user_named E name s) = guest s"
  by (simp_all add: user_guest_def user_named_def sgetpwnam_account send_reply_def Let_def split: option.split)

lemma user_log:
  "log (user_cmd E name s) = log s @ (if logged_in s \<and> \<not> guest s \<and> \<not> dochroot s then [(euid s, Seteuid 0)] else [])"
proof -
  have "log (end_login E s) = log s @ [(euid s, Seteuid 0)]"
    by (simp add: end_login_def seteuid_def os_call_def)
  then show ?thesis by (simp add: user_cmd_def Let_def user_parts_log send_reply_def)
qed

lemma user_named_pw:
  "pw (user_named E name s) = Some p \<Longrightarrow> account E name = Some p \<and>
     (if pw_shell p = [] then ''/bin/sh'' else pw_shell p) \<in> set (shells E) \<and> \<not> checkuser E ftpusers name"
  by (simp add: user_named_def sgetpwnam_account send_reply_def Let_def split: if_splits option.splits)

lemma user_guest_pw:
  "guests_allowed E \<Longrightarrow> guest (user_guest E name s) = (account E ''ftp'' \<noteq> None \<or> guest s) \<and> pw (user_guest E name s) = account E ''ftp''"
  "\<not> guests_allowed E \<Longrightarrow> guest (user_guest E name s) = guest s \<and> pw (user_guest E name s) = pw s"
  by (auto simp: user_guest_def guests_allowed_def sgetpwnam_account send_reply_def split: option.split)

lemma user_idle:
  assumes E: "seteuid_works E" and s: "sound E s" and u: "\<not> (logged_in s \<and> (guest s \<or> dochroot s))"
  shows "\<not> logged_in (user_cmd E name s) \<and> sound E (user_cmd E name s)"
proof -
  let ?s1 = "(if logged_in s then end_login E s else s)\<lparr>guest := False\<rparr>"
  have s1: "\<not> logged_in ?s1" "euid ?s1 = 0" "\<not> guest ?s1" using E s end_login_state [of E s] by (auto simp: sound_def)
  have was: "eligible E (guest s) p" if "pw ?s1 = Some p" for p
    using that E s end_login_state [of E s] by (auto simp: sound_def split: if_splits)
  have us: "user_cmd E name s =
      (if name = ''ftp'' \<or> name = ''anonymous'' then user_guest E name ?s1
       else if anon_only E \<and> \<not> checkuser E ftpchroot name then send_reply 530 ''Sorry, only anonymous ftp allowed.'' ?s1
       else user_named E name ?s1)"
    using u by (auto simp: user_cmd_def Let_def)
  show ?thesis
  proof (cases "name = ''ftp'' \<or> name = ''anonymous''")
    case True
    show ?thesis
    proof (cases "guests_allowed E")
      case allowed: True
      then show ?thesis using True us s1 user_guest_pw(1) [OF allowed, of name ?s1] user_parts_idle(1,2) [of E name ?s1]
        by (auto simp: sound_def eligible_def)
    next
      case denied: False
      have "eligible E False p" if "pw ?s1 = Some p" for p
        using was [OF that] denied by (auto simp: eligible_def split: if_splits)
      then show ?thesis using True us s1 user_guest_pw(2) [OF denied, of name ?s1] user_parts_idle(1,2) [of E name ?s1]
        by (auto simp: sound_def)
    qed
  next
    case named: False
    show ?thesis
    proof (cases "anon_only E \<and> \<not> checkuser E ftpchroot name")
      case True
      then have "eligible E False p" if "pw ?s1 = Some p" for p
        using was [OF that] by (auto simp: eligible_def leftover_def split: if_splits)
      with True named us s1 show ?thesis by (auto simp: sound_def send_reply_def)
    next
      case False
      then have "eligible E False p" if "pw (user_named E name ?s1) = Some p" for p
        using user_named_pw [OF that] by (auto simp: eligible_def may_enter_def)
      with False named us s1 user_parts_idle(3-5) [of E name ?s1] show ?thesis by (auto simp: sound_def)
    qed
  qed
qed

lemma user_kept: "logged_in s \<Longrightarrow> guest s \<or> dochroot s \<Longrightarrow> quiet E s (user_cmd E name s)"
  by (auto simp: user_cmd_def intro!: quiet_rules quiet_refl)

section \<open>PASS\<close>

lemma pass_account_result:
  assumes E: "seteuid_works E" and pw: "pw s = Some p" and idle: "\<not> logged_in s" "euid s = 0" and el: "eligible E (guest s) p"
  shows "logging_in s0 s \<Longrightarrow> logging_in s0 (pass_account E p s)"
    and "sound E (pass_account E p s)"
    and "logged_in (pass_account E p s) \<Longrightarrow> isexpired E (spw s) = 0 \<and> entered E (guest s) p (pass_account E p s)"
proof -
  define s1 where "s1 = snd (os_call E (Setegid (pw_gid p)) s)"
  define s2 where "s2 = snd (os_call E (Initgroups (pw_name p)) s1)"
  define s3 where "s3 = (if guest s2 \<and> stats E then snd (os_call E Stat_open s2) else s2)"
  define x where "x = start_session E p s3"
  have f: "pw s3 = Some p" "guest s3 = guest s" "\<not> logged_in s1" "guest s1 = guest s" "euid s1 = 0" "pw s1 = Some p"
    using pw idle by (simp_all add: os_call_def s1_def s2_def s3_def)
  have same: "sound E (send_reply n t s)" "sound E (send_reply n t s1)" for n t
    using pw idle el f(3-6) by (simp_all add: sound_def send_reply_def)
  have l: "logging_in s0 s \<Longrightarrow> logging_in s0 s1" "logging_in s0 s \<Longrightarrow> logging_in s0 s3"
    by (simp_all add: login_rules s1_def s2_def s3_def)
  have st: "entered E (guest s) p x \<or> turned_away x" "logging_in s0 s3 \<longrightarrow> logging_in s0 x"
    using start_session_result [OF E f(1), of s0] f(2) by (simp_all add: x_def)
  then have st': "sound E x" using sound_turned_away sound_entered el by blast
  have pa: "pass_account E p s =
      (if isexpired E (spw s) = 1 then send_reply 530 ''Please change your password and try again.'' s
       else if isexpired E (spw s) = 2 then send_reply 530 ''Login inactive -- contact administrator.'' s
       else if isexpired E (spw s) = 3 then send_reply 530 ''Account expired -- contact administrator.'' s
       else if fst (os_call E (Setegid (pw_gid p)) s) = Fails then send_reply 550 ''Can't set gid.'' s1
       else x)"
    by (simp add: pass_account_def case_prod_beta Let_def x_def s1_def s2_def s3_def)
  have e4: "isexpired E (spw s) \<in> {0, 1, 2, 3}" by (simp add: isexpired_def split: option.split)
  show "logging_in s0 s \<Longrightarrow> logging_in s0 (pass_account E p s)"
    unfolding pa using st(2) l by (simp add: login_rules)
  show "sound E (pass_account E p s)" unfolding pa using same st' by simp
  show "logged_in (pass_account E p s) \<Longrightarrow> isexpired E (spw s) = 0 \<and> entered E (guest s) p (pass_account E p s)"
    unfolding pa using st(1) e4 idle(1) f(3) by (simp add: send_reply_def turned_away_def split: if_splits)
qed

lemma pass_kept: "logged_in s \<Longrightarrow> quiet E s (pass E passwd s)"
  by (auto simp: pass_def intro!: quiet_rules quiet_refl)

lemma pass_result:
  assumes E: "seteuid_works E" and s: "sound E s" and idle: "\<not> logged_in s"
  shows "logging_in s (pass E passwd s)"
    and "sound E (pass E passwd s)"
    and "logged_in (pass E passwd s) \<Longrightarrow> askpasswd s \<and> (\<exists>p. pw s = Some p \<and> eligible E (guest s) p \<and>
        (\<not> guest s \<longrightarrow> crypt E passwd (pw_passwd p) = pw_passwd p \<and> pw_passwd p \<noteq> []) \<and>
        isexpired E (spw s) = 0 \<and> entered E (guest s) p (pass E passwd s))"
proof -
  consider (refused) "\<not> askpasswd s" | (wrong) "askpasswd s" "\<not> guest s" "wrong_password E passwd (s\<lparr>askpasswd := False\<rparr>)"
    | (right) p where "askpasswd s" "pw s = Some p"
        "\<not> guest s \<longrightarrow> crypt E passwd (pw_passwd p) = pw_passwd p \<and> pw_passwd p \<noteq> []"
        "guest s \<or> \<not> wrong_password E passwd (s\<lparr>askpasswd := False\<rparr>)"
    using s idle by (cases "pw s") (auto simp: wrong_password_def sound_def)
  then have "logging_in s (pass E passwd s) \<and> sound E (pass E passwd s) \<and>
      (logged_in (pass E passwd s) \<longrightarrow> askpasswd s \<and> (\<exists>p. pw s = Some p \<and> eligible E (guest s) p \<and>
        (\<not> guest s \<longrightarrow> crypt E passwd (pw_passwd p) = pw_passwd p \<and> pw_passwd p \<noteq> []) \<and>
        isexpired E (spw s) = 0 \<and> entered E (guest s) p (pass E passwd s)))"
  proof cases
    case refused
    then show ?thesis using s idle by (auto simp: pass_def sound_def send_reply_def logging_in_def)
  next
    case wrong
    then show ?thesis using s idle by (auto simp: pass_def sound_def send_reply_def logging_in_def Let_def)
  next
    case right
    let ?s1 = "s\<lparr>askpasswd := False, login_attempts := 0\<rparr>"
    have ps: "pass E passwd s = pass_account E p ?s1" using right(1,2,4) idle by (auto simp: pass_def Let_def)
    have el: "eligible E (guest s) p" "euid s = 0" using s idle right(2) by (auto simp: sound_def)
    have pre: "pw ?s1 = Some p" "\<not> logged_in ?s1" "euid ?s1 = 0" "eligible E (guest ?s1) p"
      using right(2) idle el by simp_all
    have "logging_in s ?s1" by (simp add: login_rules)
    with pass_account_result [OF E pre] ps el(1) right(1-3) show ?thesis by simp
  qed
  then show "logging_in s (pass E passwd s)" "sound E (pass E passwd s)"
    "logged_in (pass E passwd s) \<Longrightarrow> askpasswd s \<and> (\<exists>p. pw s = Some p \<and> eligible E (guest s) p \<and>
        (\<not> guest s \<longrightarrow> crypt E passwd (pw_passwd p) = pw_passwd p \<and> pw_passwd p \<noteq> []) \<and>
        isexpired E (spw s) = 0 \<and> entered E (guest s) p (pass E passwd s))"
    by blast+
qed

end
