(* ===== verification/Ftpd_Reading.thy ===== *)
theory Ftpd_Reading
  imports Ftpd_Grammar
begin

text \<open>How lines are read: commands as they should be, and lines that are not understood.\<close>

section \<open>Strings in memory\<close>

lemma cstr_zero: "null \<notin> set s \<Longrightarrow> cstr (s @ null # r) 0 = s"
  by (simp add: cstr_def takeWhile_upto)

lemma cstr_skip: "null \<notin> set s \<Longrightarrow> cstr (p @ s @ null # r) (length p) = s"
  by (simp add: cstr_def takeWhile_upto)

lemma byte_at_skip: "byte_at (p @ c # r) (length p) = c"
  by (simp add: byte_at_def)

lemma strpbrk_first:
  assumes "null \<notin> set (s @ c # t)" "set s \<inter> set cs = {}" "c \<in> set cs"
  shows "strpbrk (s @ c # t @ null # r) 0 cs = Some (length s)"
proof -
  have c: "cstr (s @ c # t @ null # r) 0 = s @ c # t" using cstr_zero [OF assms(1), of r] by simp
  have "takeWhile (\<lambda>c. c \<notin> set cs) (s @ c # t) = s"
    using assms(2,3) by (auto simp: takeWhile_append2 disjoint_iff)
  then show ?thesis by (simp add: strpbrk_def c)
qed

lemma strpbrk_none:
  "null \<notin> set s \<Longrightarrow> set s \<inter> set cs = {} \<Longrightarrow> strpbrk (s @ null # r) 0 cs = None"
proof -
  assume s: "null \<notin> set s" "set s \<inter> set cs = {}"
  then have all: "takeWhile (\<lambda>c. c \<notin> set cs) s = s" by (auto simp: takeWhile_eq_all_conv)
  show ?thesis unfolding strpbrk_def Let_def cstr_zero [OF s(1)] all by simp
qed

section \<open>A command with an argument\<close>

lemma table_letters: "(w, c, st, i) \<in> set cmdtab \<Longrightarrow> w \<noteq> [] \<and> (\<forall>x\<in>set w. 65 \<le> (of_char x :: nat) \<and> (of_char x :: nat) \<le> 90)"
  unfolding cmdtab_def by (auto simp: Ball_def)

lemma upper_letter:
  assumes "65 \<le> (of_char (upper_char x) :: nat)" "(of_char (upper_char x) :: nat) \<le> 90"
  shows "x \<noteq> null \<and> x \<noteq> blank \<and> x \<noteq> lf \<and> x \<noteq> cr"
  using assms by (auto simp: upper_char_def null_def blank_def lf_def cr_def)

lemma table_lookup: "(w, c, st, i) \<in> set cmdtab \<Longrightarrow> lookup_cmd cmdtab w = Some (w, c, st, i)"
proof -
  have d: "distinct (map fst t) \<Longrightarrow> (w, x) \<in> set t \<Longrightarrow> find (\<lambda>(name, y). w = name) t = Some (w, x)" for t and x :: "cmd \<times> lex_state \<times> bool"
    by (induction t) (auto simp: rev_image_eqI)
  have "distinct (map fst cmdtab)" by (simp add: cmdtab_def)
  then show "(w, c, st, i) \<in> set cmdtab \<Longrightarrow> lookup_cmd cmdtab w = Some (w, c, st, i)"
    unfolding lookup_cmd_def by (rule d)
qed

definition command_word :: "string \<Rightarrow> cmd \<Rightarrow> lex_state \<Rightarrow> bool" where
  "command_word v c st \<longleftrightarrow> (map upper_char v, c, st, True) \<in> set cmdtab"

lemma command_word_plain: "command_word v c st \<Longrightarrow> v \<noteq> [] \<and> set v \<inter> {null, blank, lf, cr} = {}"
  using table_letters upper_letter by (fastforce simp: command_word_def disjoint_iff)

text \<open>The first word, when the text of the line is \<open>v @ d # t\<close> where \<open>d\<close> is a blank or the line feed.\<close>

lemma first_word_found:
  assumes v: "command_word v c st" and d: "d = blank \<or> d = lf" and t: "null \<notin> set t"
    and m: "cut_cr (put_cstr line (sc_mem sc)) = v @ d # t @ null # r"
  shows "first_word line sc =
    Token (Cmd c) \<lparr>sc_mem = map upper_char v @ d # t @ null # r, sc_pos = length v, sc_state = st\<rparr>"
proof -
  have pl: "v \<noteq> []" "null \<notin> set v" "blank \<notin> set v" "lf \<notin> set v" using command_word_plain [OF v] by auto
  have dn: "d \<noteq> null" using d chars_apart by auto
  have up: "null \<notin> set (map upper_char v)"
  proof
    assume "null \<in> set (map upper_char v)"
    with v table_letters [of "map upper_char v" c st True] have "65 \<le> (of_char null :: nat)"
      unfolding command_word_def by blast
    then show False by (simp add: null_def)
  qed
  have pos: "strpbrk (v @ d # t @ null # r) 0 [blank, lf] = Some (length v)"
    using pl dn d t by (intro strpbrk_first) auto
  have uv: "upper 0 (v @ null # t @ null # r) = map upper_char v @ null # t @ null # r"
    using cstr_zero [OF pl(2), of "t @ null # r"] by (simp add: upper_def)
  have look: "look_up_at cmdtab 0 \<lparr>sc_mem = v @ d # t @ null # r, sc_pos = length v, sc_state = CMD\<rparr> =
      (Some (map upper_char v, c, st, True),
       \<lparr>sc_mem = map upper_char v @ d # t @ null # r, sc_pos = length v, sc_state = CMD\<rparr>)"
    using table_lookup [of "map upper_char v" c st True] v cstr_zero [OF up, of "t @ null # r"] uv
    by (simp add: look_up_at_def Let_def byte_at_skip list_update_append command_word_def)
  have rec: "sc\<lparr>sc_mem := x, sc_pos := p, sc_state := CMD\<rparr> = \<lparr>sc_mem = x, sc_pos = p, sc_state = CMD\<rparr>" for x p
    by (cases sc) simp
  show ?thesis using pl(1) look by (simp add: first_word_def Let_def m pos rec)
qed

lemma cut_cr_line:
  assumes "null \<notin> set s" "cr \<notin> set s"
  shows "\<exists>r. cut_cr (put_cstr (s @ [cr, lf]) mem) = s @ lf # null # r"
    and "cut_cr (put_cstr s mem) = s @ null # drop (length s + 1) mem"
proof -
  have "strpbrk (s @ cr # [lf] @ null # r) 0 [cr] = Some (length s)" for r
    using assms chars_apart by (intro strpbrk_first) auto
  then show "\<exists>r. cut_cr (put_cstr (s @ [cr, lf]) mem) = s @ lf # null # r"
    by (simp add: cut_cr_def put_cstr_def list_update_append)
  show "cut_cr (put_cstr s mem) = s @ null # drop (length s + 1) mem"
    using strpbrk_none [of s "[cr]"] assms by (simp add: cut_cr_def put_cstr_def)
qed

lemma read_argument:
  assumes st: "st \<in> {STR1, OSTR, ZSTR1}" and c: "[KSP, KSTRING, KCRLF] \<in> set (rules c)"
    and arg: "arg \<noteq> []" "null \<notin> set arg" "lf \<notin> set arg"
  shows "parse (rules c) [] \<lparr>sc_mem = w @ blank # arg @ lf # null # r, sc_pos = length w, sc_state = st\<rparr> =
    Command [SP, STRING arg, CRLF] \<lparr>sc_mem = w @ blank # arg @ lf # null # r,
      sc_pos = length w + 2 + length arg, sc_state = CMD\<rparr>"
proof -
  let ?m = "w @ blank # arg @ lf # null # r"
  let ?sc = "\<lambda>p s. \<lparr>sc_mem = ?m, sc_pos = p, sc_state = s\<rparr>"
  have b0: "byte_at ?m (length w) = blank" by (rule byte_at_skip)
  have t1: "next_token (?sc (length w) st) = Token SP (?sc (length w + 1) (if st = ZSTR1 then ZSTR2 else STR2))"
    using st b0 chars_apart by (auto simp: next_token_def space_token_def)
  have cs: "cstr ?m (length w + 1) = arg @ [lf]"
    using cstr_skip [of "arg @ [lf]" "w @ [blank]" r] arg(2) chars_apart by simp
  have b1: "byte_at ?m (length w + 1) \<noteq> lf"
    using byte_at_skip [of "w @ [blank]" "hd arg" "tl arg @ lf # null # r"] arg by (cases arg) auto
  have t2: "next_token (?sc (length w + 1) s) = Token (STRING arg) (?sc (length w + 1 + length arg) ARGS)"
    if "s = ZSTR2 \<or> s = STR2" for s
    using that cs b1 arg(1) by (auto simp: next_token_def string_token_def)
  have b2: "byte_at ?m (length w + 1 + length arg) = lf"
    using byte_at_skip [of "w @ blank # arg" lf "null # r"] by simp
  have t3: "next_token (?sc (length w + 1 + length arg) ARGS) = Token CRLF (?sc (length w + 2 + length arg) CMD)"
    using b2 chars_apart by (auto simp: next_token_def arg_token_def Let_def is_digit_def lf_def)
  have a1: "after SP (rules c) = [[KSTRING, KCRLF]] \<or> after SP (rules c) = [[KSTRING, KCRLF], [KCRLF]]"
    using c by (cases c) (auto simp: rules_def after_def host_port_syms_def type_codes_def)
  have a2: "after (STRING arg) (after SP (rules c)) = [[KCRLF]]" using a1 by (auto simp: after_def)
  have a3: "after CRLF [[KCRLF]] = [[]]" by (simp add: after_def)
  define q where "q = (if st = ZSTR1 then ZSTR2 else STR2)"
  have t2': "next_token (?sc (length w + 1) q) = Token (STRING arg) (?sc (length w + 1 + length arg) ARGS)"
    by (rule t2) (simp add: q_def)
  have "parse (rules c) [] (?sc (length w) st) = parse (after SP (rules c)) [SP] (?sc (length w + 1) q)"
    using a1 by (subst parse.simps) (auto simp: t1 Let_def q_def)
  also have "\<dots> = parse [[KCRLF]] [SP, STRING arg] (?sc (length w + 1 + length arg) ARGS)"
    by (subst parse.simps) (simp only: t2' a2 Let_def lex.case list.simps if_False list.set insert_iff empty_iff simp_thms append.simps)
  also have "\<dots> = Command [SP, STRING arg, CRLF] (?sc (length w + 2 + length arg) CMD)"
    by (subst parse.simps) (simp only: t3 a3 Let_def lex.case list.simps if_False list.set insertI1 simp_thms append.simps, simp)
  finally show ?thesis .
qed

text \<open>A command with an argument is read as it was written, in large or small letters.\<close>

lemma read_command:
  assumes "command_word v c st" "st \<in> {STR1, OSTR, ZSTR1}" "[KSP, KSTRING, KCRLF] \<in> set (rules c)"
    and arg: "arg \<noteq> []" "set arg \<inter> {null, lf, cr} = {}"
  shows "\<exists>sc'. read_line (v @ blank # arg @ [cr, lf]) sc = (Run c [SP, STRING arg, CRLF], [], sc')"
proof -
  have pl: "null \<notin> set (v @ blank # arg)" "cr \<notin> set (v @ blank # arg)"
    using command_word_plain [OF assms(1)] arg(2) chars_apart by auto
  obtain r where m: "cut_cr (put_cstr ((v @ blank # arg) @ [cr, lf]) (sc_mem sc)) = (v @ blank # arg) @ lf # null # r"
    using cut_cr_line(1) [OF pl] by blast
  have "first_word (v @ blank # arg @ [cr, lf]) sc =
      Token (Cmd c) \<lparr>sc_mem = map upper_char v @ blank # (arg @ [lf]) @ null # r, sc_pos = length v, sc_state = st\<rparr>"
    using assms(1) m pl(1) chars_apart by (intro first_word_found) auto
  with read_argument [OF assms(2,3) arg(1), of "map upper_char v" r] arg(2) show ?thesis
    by (simp add: read_line_def read_rest_def)
qed

section \<open>After an error\<close>

text \<open>The text of a line up to place \<open>n\<close>, where its line feed is, or the null byte that has taken its place.\<close>

definition line_to :: "nat \<Rightarrow> string \<Rightarrow> bool" where
  "line_to n m \<longleftrightarrow> n < length m \<and> (\<forall>j<n. m ! j \<noteq> null \<and> m ! j \<noteq> lf) \<and>
     (m ! n = null \<or> m ! n = lf \<and> byte_at m (n + 1) = null)"

lemma line_to_byte: "line_to n m \<Longrightarrow> i \<le> n \<Longrightarrow> byte_at m i = (if i < n then m ! i else m ! n)"
  by (auto simp: line_to_def byte_at_def)

lemma line_to_cstr:
  assumes "line_to n m" "i \<le> n"
  shows "cstr m i = take (n - i) (drop i m) @ (if m ! n = lf then [lf] else [])"
proof -
  let ?s = "take (n - i) (drop i m)"
  have n: "n < length m" using assms(1) by (simp add: line_to_def)
  have d: "drop i m = ?s @ m ! n # drop (n + 1) m"
    using assms(2) n by (metis Cons_nth_drop_Suc Suc_eq_plus1 append_take_drop_id drop_drop le_add_diff_inverse2)
  have pl: "null \<notin> set ?s"
  proof
    assume "null \<in> set ?s"
    then obtain j where "j < n - i" "m ! (i + j) = null" using n by (auto simp: in_set_conv_nth)
    with assms(1) show False by (auto simp: line_to_def)
  qed
  show ?thesis
  proof (cases "m ! n = null")
    case True
    then have "m ! n \<noteq> lf" using chars_apart by auto
    with True d show ?thesis using takeWhile_upto [OF pl, of "drop (n + 1) m"] by (simp add: cstr_def)
  next
    case False
    then have l: "m ! n = lf" "byte_at m (n + 1) = null" using assms(1) by (auto simp: line_to_def)
    have tw: "takeWhile (\<lambda>c. c \<noteq> null) (drop (n + 1) m) = []"
    proof (cases "n + 1 < length m")
      case True
      with l(2) have "drop (n + 1) m = null # drop (n + 2) m"
        by (simp add: byte_at_def Cons_nth_drop_Suc [symmetric])
      then show ?thesis by simp
    qed simp
    have "takeWhile (\<lambda>c. c \<noteq> null) (?s @ lf # drop (n + 1) m) = ?s @ [lf]"
      using pl tw chars_apart by (subst takeWhile_append2) auto
    with d l(1) show ?thesis by (simp add: cstr_def)
  qed
qed

lemma line_to_length: "line_to n m \<Longrightarrow> i \<le> n \<Longrightarrow> length (cstr m i) = n - i + (if m ! n = lf then 1 else 0)"
  using line_to_cstr [of n m i] by (auto simp: line_to_def min_def)

lemma strpbrk_bound: "line_to n m \<Longrightarrow> i \<le> n \<Longrightarrow> strpbrk m i cs = Some k \<Longrightarrow> k \<le> n"
  using line_to_length [of n m i] by (auto simp: strpbrk_def Let_def split: if_splits)

lemma upper_char_plain: "upper_char x = null \<longleftrightarrow> x = null" "upper_char x = lf \<longleftrightarrow> x = lf"
proof -
  have "upper_char x = x \<or> 65 \<le> (of_char (upper_char x) :: nat) \<and> 97 \<le> (of_char x :: nat)"
    by (auto simp: upper_char_def Let_def)
  then show "upper_char x = null \<longleftrightarrow> x = null" "upper_char x = lf \<longleftrightarrow> x = lf" by (auto simp: null_def lf_def)
qed

lemma upper_nth: "j < length m \<Longrightarrow> upper i m ! j = m ! j \<or> upper i m ! j = upper_char (m ! j)"
proof -
  assume j: "j < length m"
  let ?s = "cstr m i"
  have s: "?s = take (length ?s) (drop i m)" by (metis cstr_def takeWhile_eq_take)
  consider "j < i" | "i \<le> j" "j < i + length ?s" | "i + length ?s \<le> j" "i \<le> length m" | "length m < i" by linarith
  then show ?thesis
  proof cases
    case 2
    then have "?s ! (j - i) = m ! j" using s j by (metis add_diff_inverse_nat add_less_cancel_left drop_eq_Nil2 leD nat_le_linear nth_drop nth_take le_trans)
    moreover have "j - i < length ?s" using 2 by linarith
    ultimately show ?thesis using 2 j by (simp add: upper_def Let_def nth_append min_def)
  next
    case 3
    then have "i + length ?s \<le> length m" using cstr_inside [of i m] by auto
    moreover have "\<not> j - i < length ?s" using 3 by linarith
    ultimately show ?thesis using 3 j by (simp add: upper_def Let_def nth_append min_def)
  qed (use j in \<open>simp_all add: upper_def Let_def nth_append min_def\<close>)
qed

lemma look_up_line:
  assumes "line_to n (sc_mem sc)" "sc_pos sc \<le> n" "look_up_at t i sc = (p, sc')"
  shows "line_to n (sc_mem sc') \<and> sc_mem sc' ! n = sc_mem sc ! n"
proof -
  let ?m = "sc_mem sc" let ?k = "sc_pos sc"
  let ?m1 = "?m[?k := null]"
  have n: "n < length ?m" using assms(1) by (simp add: line_to_def)
  have m': "sc_mem sc' = (upper i ?m1)[?k := byte_at ?m ?k]" using assms(3) by (auto simp: look_up_at_def Let_def)
  have len: "length (upper i ?m1) = length ?m" "length (sc_mem sc') = length ?m"
    using look_up_length [OF assms(3)] m' by simp_all
  have nth: "sc_mem sc' ! j = ?m ! j \<or> sc_mem sc' ! j = upper_char (?m ! j)" if "j < length ?m" for j
    using upper_nth [of j ?m1 i] that n assms(2) len by (cases "j = ?k") (auto simp: m' byte_at_def)
  have eq: "sc_mem sc' ! j = null \<longleftrightarrow> ?m ! j = null" "sc_mem sc' ! j = lf \<longleftrightarrow> ?m ! j = lf" if "j < length ?m" for j
    using nth [OF that] upper_char_plain by metis+
  have "byte_at (sc_mem sc') (n + 1) = null \<longleftrightarrow> byte_at ?m (n + 1) = null" using eq len by (simp add: byte_at_def)
  with assms(1) eq n len show ?thesis by (auto simp: line_to_def)
qed

text \<open>A token is taken from the text of the line, and it is the end of the line only where the line feed is.\<close>

lemma digits_bound:
  assumes "line_to n m" "i \<le> n"
  shows "i + length (takeWhile is_digit (drop i m)) \<le> n"
proof (rule ccontr)
  assume "\<not> i + length (takeWhile is_digit (drop i m)) \<le> n"
  then have "n - i < length (takeWhile is_digit (drop i m))" using assms(2) by linarith
  then have "is_digit (takeWhile is_digit (drop i m) ! (n - i))" "takeWhile is_digit (drop i m) ! (n - i) = drop i m ! (n - i)"
    using set_takeWhileD nth_mem takeWhile_nth by metis+
  moreover have "drop i m ! (n - i) = m ! n" using assms by (simp add: line_to_def)
  ultimately show False using assms(1) chars_apart by (auto simp: line_to_def is_digit_def null_def lf_def)
qed

lemma token_in_line:
  assumes ln: "line_to n (sc_mem sc)" and pos: "sc_pos sc \<le> n" and tok: "next_token sc = Token t sc'"
  shows "(t = CRLF \<and> sc_mem sc ! n = lf) \<or>
     (t \<noteq> CRLF \<and> line_to n (sc_mem sc') \<and> sc_mem sc' ! n = sc_mem sc ! n \<and> sc_pos sc' \<le> n)"
proof -
  let ?m = "sc_mem sc" let ?i = "sc_pos sc" let ?c = "byte_at ?m ?i"
  have lfc: "?c = lf \<Longrightarrow> ?m ! n = lf \<and> ?i = n"
    using line_to_byte [OF ln pos] ln pos by (auto simp: line_to_def split: if_splits)
  have "?m ! n = null \<or> ?m ! n = lf" using ln by (auto simp: line_to_def)
  then have sp: "?i < n" if "?c \<noteq> null" "?c \<noteq> lf"
    using line_to_byte [OF ln pos] that pos by (cases "?i = n") auto
  have space: "space_token st sc = Token t sc' \<Longrightarrow> ?thesis" for st
    using sp ln chars_apart by (auto simp: space_token_def split: if_splits)
  have number: "number_token st sc = Token t sc' \<Longrightarrow> ?thesis" for st
    using digits_bound [OF ln pos] ln by (auto simp: number_token_def Let_def)
  have string: "string_token sc = Token t sc' \<Longrightarrow> ?thesis"
    using line_to_cstr [OF ln pos] line_to_length [OF ln pos] ln pos
    by (auto simp: string_token_def Let_def split: if_splits)
  have site: "site_word sc = Token t sc' \<Longrightarrow> ?thesis"
  proof -
    assume s: "site_word sc = Token t sc'"
    let ?pos = "case strpbrk ?m ?i [blank, lf] of None \<Rightarrow> ?i | Some k \<Rightarrow> k"
    obtain p sc1 where l: "look_up_at sitetab ?i (sc\<lparr>sc_pos := ?pos\<rparr>) = (p, sc1)" by fastforce
    have le: "?pos \<le> n" using strpbrk_bound [OF ln pos] pos by (auto split: option.split)
    have "line_to n (sc_mem sc1) \<and> sc_mem sc1 ! n = ?m ! n" using look_up_line [OF _ _ l, of n] ln le by simp
    moreover have "sc_pos sc1 = ?pos" using look_up_length [OF l] by simp
    ultimately show ?thesis using s l le by (auto simp: site_word_def Let_def split: option.splits if_splits)
  qed
  have arg: "arg_token sc = Token t sc' \<Longrightarrow> ?thesis"
  proof -
    assume a: "arg_token sc = Token t sc'"
    consider (num) "is_digit ?c" | (end_line) "\<not> is_digit ?c" "?c = lf" | (other) "\<not> is_digit ?c" "?c \<noteq> lf" by blast
    then show ?thesis
    proof cases
      case num
      with a number show ?thesis by (simp add: arg_token_def)
    next
      case end_line
      with a lfc show ?thesis by (simp add: arg_token_def Let_def)
    next
      case other
      with a have "?c \<noteq> null" using chars_apart by (auto simp: arg_token_def Let_def split: if_splits)
      with other a sp ln show ?thesis by (auto simp: arg_token_def Let_def split: if_splits)
    qed
  qed
  show ?thesis
    using tok space number string site arg lfc sp ln chars_apart
    by (cases "sc_state sc") (auto simp: next_token_def Let_def split: if_splits)
qed

definition ends_line :: "sym list list \<Rightarrow> bool" where
  "ends_line rs \<longleftrightarrow> (\<forall>r\<in>set rs. KCRLF \<notin> set (butlast r))"

lemma ends_line_rules: "ends_line (rules c)"
  by (cases c) (auto simp: ends_line_def rules_def host_port_syms_def type_codes_def)

lemma ends_line_after: "ends_line rs \<Longrightarrow> ends_line (after t rs)"
proof -
  assume e: "ends_line rs"
  have "KCRLF \<notin> set (butlast (tl r))" if "r \<in> set rs" for r
    using e that by (cases r) (auto simp: ends_line_def split: if_splits)
  then show ?thesis by (auto simp: ends_line_def after_def)
qed

lemma ends_line_last: "ends_line rs \<Longrightarrow> after CRLF rs \<noteq> [] \<Longrightarrow> [] \<in> set (after CRLF rs)"
proof -
  assume e: "ends_line rs" and "after CRLF rs \<noteq> []"
  then obtain r where r: "r \<in> set rs" "r \<noteq> []" "fits_token (hd r) CRLF" by (auto simp: after_def filter_empty_conv)
  then have "hd r = KCRLF" by (cases "hd r") auto
  with e r have "tl r = []" by (cases r) (auto simp: ends_line_def split: if_splits)
  with r show ?thesis by (force simp: after_def)
qed

lemma parse_in_line:
  "line_to n (sc_mem sc) \<Longrightarrow> sc_pos sc \<le> n \<Longrightarrow> ends_line rs \<Longrightarrow> parse rs ts sc = Error us t sc' \<Longrightarrow>
   (t = CRLF \<and> sc_mem sc ! n = lf) \<or>
   (t \<noteq> CRLF \<and> line_to n (sc_mem sc') \<and> sc_mem sc' ! n = sc_mem sc ! n \<and> sc_pos sc' \<le> n)"
proof (induction rs ts sc rule: parse.induct)
  case (1 rs ts sc)
  obtain u sc1 where u: "next_token sc = Token u sc1"
    using 1(5) by (cases "next_token sc") (simp_all add: parse.simps [of rs ts sc])
  note step = token_in_line [OF 1(2,3) u]
  show ?case
  proof (cases "after u rs = []")
    case True
    then have "t = u" "sc' = sc1" using 1(5) u by (simp_all add: parse.simps [of rs ts sc])
    with step show ?thesis by simp
  next
    case False
    then have p: "[] \<notin> set (after u rs)" "parse (after u rs) (ts @ [u]) sc1 = Error us t sc'"
      using 1(5) u by (auto simp: parse.simps [of rs ts sc] Let_def split: if_splits)
    then have "u \<noteq> CRLF" using ends_line_last [OF 1(4)] False by auto
    with step have s1: "line_to n (sc_mem sc1)" "sc_mem sc1 ! n = sc_mem sc ! n" "sc_pos sc1 \<le> n" by auto
    from 1(1) [OF u refl False p(1) s1(1,3) ends_line_after [OF 1(4)] p(2)] s1(2) show ?thesis by simp
  qed
qed

lemma recover_cut:
  "line_to n (sc_mem sc) \<Longrightarrow> sc_pos sc \<le> n \<Longrightarrow> sc_mem sc ! n = null \<Longrightarrow> \<exists>sc'. recover sc = (False, sc')"
proof (induction sc rule: recover.induct)
  case (1 sc)
  show ?case
  proof (cases "next_token sc")
    case (Token t sc1)
    have "null \<noteq> lf" using chars_apart by simp
    with token_in_line [OF 1(2,3) Token] 1(4) have
      t: "t \<noteq> CRLF" "line_to n (sc_mem sc1)" "sc_mem sc1 ! n = null" "sc_pos sc1 \<le> n" by auto
    from 1(1) [OF Token t(1,2,4,3)] Token t(1) show ?thesis by (simp add: recover.simps [of sc])
  qed (simp_all add: recover.simps [of sc])
qed

lemma yyerror_cut:
  assumes "line_to n (sc_mem sc)"
  shows "line_to n (sc_mem (yyerror_mem sc)) \<and> sc_mem (yyerror_mem sc) ! n = null \<and> sc_pos (yyerror_mem sc) = sc_pos sc"
proof -
  let ?m = "sc_mem sc"
  have pl: "takeWhile (\<lambda>c. c \<notin> set [lf]) (take n ?m @ x) = take n ?m @ takeWhile (\<lambda>c. c \<notin> set [lf]) x" for x
    using assms by (subst takeWhile_append2) (auto simp: line_to_def in_set_conv_nth)
  have n: "n < length ?m" using assms by (simp add: line_to_def)
  show ?thesis
  proof (cases "?m ! n = lf")
    case True
    then have "strpbrk ?m 0 [lf] = Some n"
      using line_to_cstr [OF assms, of 0] pl [of "[lf]"] n by (simp add: strpbrk_def Let_def)
    with assms True show ?thesis by (auto simp: yyerror_mem_def line_to_def byte_at_def nth_list_update)
  next
    case False
    then have cs: "cstr ?m 0 = take n ?m" using line_to_cstr [OF assms, of 0] by simp
    have tw: "takeWhile (\<lambda>c. c \<notin> set [lf]) (take n ?m) = take n ?m"
      using pl [of "[]"] by (simp only: append_Nil2 takeWhile.simps)
    have "strpbrk ?m 0 [lf] = None" unfolding strpbrk_def Let_def cs tw by simp
    with assms False show ?thesis by (auto simp: yyerror_mem_def line_to_def)
  qed
qed

text \<open>After an error in the middle of a line a second error follows.\<close>

lemma read_rest_twice:
  assumes "line_to n (sc_mem sc)" "sc_pos sc \<le> n" "parse (rules c) [] sc = Error ts t sc1" "t \<noteq> CRLF"
  shows "\<exists>a1 a2 sc'. read_rest c sc = (Failed c (ts @ [t]) False, [(500, a1), (500, a2)], sc')"
proof -
  have "line_to n (sc_mem sc1)" "sc_pos sc1 \<le> n"
    using parse_in_line [OF assms(1,2) ends_line_rules assms(3)] assms(4) by auto
  with yyerror_cut [of n sc1] recover_cut [of n "yyerror_mem sc1"] obtain sc2 where "recover (yyerror_mem sc1) = (False, sc2)"
    by auto
  with assms(3,4) show ?thesis by (simp add: read_rest_def Let_def not_understood_def)
qed

lemma line_to_text: "set s \<inter> {null, lf} = {} \<Longrightarrow> line_to (length s) (s @ lf # null # r)"
  by (auto simp: line_to_def byte_at_def nth_append disjoint_iff)

text \<open>A line whose first word is a command, and what is left of it to read.\<close>

lemma first_word_line:
  assumes v: "command_word v c st" and arg: "set arg \<inter> {null, lf, cr} = {}"
  obtains r where
    "first_word (v @ blank # arg @ [cr, lf]) sc = Token (Cmd c)
       \<lparr>sc_mem = map upper_char v @ blank # arg @ lf # null # r, sc_pos = length v, sc_state = st\<rparr>"
    "line_to (length v + 1 + length arg) (map upper_char v @ blank # arg @ lf # null # r)"
proof -
  have pl: "null \<notin> set (v @ blank # arg)" "cr \<notin> set (v @ blank # arg)"
    using command_word_plain [OF v] arg chars_apart by auto
  obtain r where m: "cut_cr (put_cstr ((v @ blank # arg) @ [cr, lf]) (sc_mem sc)) = (v @ blank # arg) @ lf # null # r"
    using cut_cr_line(1) [OF pl] by blast
  have "set (map upper_char v @ blank # arg) \<inter> {null, lf} = {}"
    using command_word_plain [OF v] arg chars_apart upper_char_plain by (auto simp: disjoint_iff)
  from line_to_text [OF this, of r] have l: "line_to (length v + 1 + length arg) (map upper_char v @ blank # arg @ lf # null # r)"
    by simp
  have f: "first_word (v @ blank # arg @ [cr, lf]) sc =
      Token (Cmd c) \<lparr>sc_mem = map upper_char v @ blank # (arg @ [lf]) @ null # r, sc_pos = length v, sc_state = st\<rparr>"
    using v m pl(1) chars_apart by (intro first_word_found) auto
  show thesis by (rule that [of r]) (use f l in simp_all)
qed

section \<open>Lines without an end\<close>

lemma cstr_next: "byte_at m i = c \<Longrightarrow> i < length m \<Longrightarrow> m ! i = c"
  by (simp add: byte_at_def)

text \<open>Letters are thrown away up to the null byte and past it.\<close>

lemma recover_letters:
  assumes "c = CHR ''A''" "lf \<notin> set (p @ replicate k c)" "null \<notin> set (p @ replicate k c)"
  shows "recover \<lparr>sc_mem = p @ replicate k c @ null # r, sc_pos = length p, sc_state = ARGS\<rparr> =
    (False, \<lparr>sc_mem = p @ replicate k c @ null # r, sc_pos = length p + k + 1, sc_state = CMD\<rparr>)"
  using assms(2,3)
proof (induction k arbitrary: p)
  case 0
  have b: "byte_at (p @ null # r) (length p) = null" by (rule byte_at_skip)
  have "next_token \<lparr>sc_mem = p @ null # r, sc_pos = length p, sc_state = ARGS\<rparr> =
      Unknown \<lparr>sc_mem = p @ null # r, sc_pos = length p + 1, sc_state = CMD\<rparr>"
    using b chars_apart by (auto simp: next_token_def arg_token_def Let_def)
  moreover have "strpbrk (p @ null # r) 0 [lf] = None" using 0 by (intro strpbrk_none) auto
  ultimately show ?case by (subst recover.simps) (simp add: yyerror_mem_def)
next
  case (Suc k)
  let ?m = "p @ replicate (Suc k) c @ null # r"
  have m: "?m = (p @ [c]) @ replicate k c @ null # r" by simp
  have "byte_at ?m (length p) = c" using byte_at_skip [of p c "replicate k c @ null # r"] by simp
  then have "next_token \<lparr>sc_mem = ?m, sc_pos = length p, sc_state = ARGS\<rparr> =
      Token (Letter c) \<lparr>sc_mem = ?m, sc_pos = length p + 1, sc_state = ARGS\<rparr>"
    using assms(1) by (simp add: next_token_def arg_token_def Let_def is_digit_def lf_def blank_def upper_char_def)
  then have "recover \<lparr>sc_mem = ?m, sc_pos = length p, sc_state = ARGS\<rparr> =
      recover \<lparr>sc_mem = (p @ [c]) @ replicate k c @ null # r, sc_pos = length (p @ [c]), sc_state = ARGS\<rparr>"
    by (subst recover.simps) simp
  also have "\<dots> = (False, \<lparr>sc_mem = (p @ [c]) @ replicate k c @ null # r, sc_pos = length (p @ [c]) + k + 1, sc_state = CMD\<rparr>)"
    using Suc.prems by (intro Suc.IH) auto
  finally show ?case by simp
qed

text \<open>The first word of a line with no blank and no line feed: the place to go on is the one of the line before.\<close>

lemma first_word_stale:
  assumes v: "command_word v c st" and pos: "length v < sc_pos sc"
    and m: "cut_cr (put_cstr line (sc_mem sc)) = v @ null # r"
  shows "first_word line sc =
    Token (Cmd c) \<lparr>sc_mem = map upper_char v @ null # r, sc_pos = sc_pos sc, sc_state = st\<rparr>"
proof -
  have pl: "v \<noteq> []" "null \<notin> set v" "blank \<notin> set v" "lf \<notin> set v" using command_word_plain [OF v] by auto
  have up: "null \<notin> set (map upper_char v)" using pl(2) upper_char_plain(1) by (auto simp: eq_commute [of null])
  obtain k where k: "sc_pos sc = length v + 1 + k" using pos by (metis Suc_eq_plus1 Suc_leI le_iff_add)
  have no: "strpbrk (v @ null # r) 0 [blank, lf] = None" using pl by (intro strpbrk_none) auto
  have uv: "upper 0 (v @ null # t) = map upper_char v @ null # t" for t
    using cstr_zero [OF pl(2), of t] by (simp add: upper_def)
  have whole: "(map upper_char v @ null # r[k := null])[sc_pos sc := byte_at (v @ null # r) (sc_pos sc)] = map upper_char v @ null # r"
    by (cases "k < length r") (simp_all add: k list_update_append byte_at_def nth_append list_update_beyond)
  have look: "look_up_at cmdtab 0 \<lparr>sc_mem = v @ null # r, sc_pos = sc_pos sc, sc_state = CMD\<rparr> =
      (Some (map upper_char v, c, st, True), \<lparr>sc_mem = map upper_char v @ null # r, sc_pos = sc_pos sc, sc_state = CMD\<rparr>)"
    using table_lookup [of "map upper_char v" c st True] v cstr_zero [OF up] uv whole
    by (simp add: look_up_at_def Let_def command_word_def) (simp add: k list_update_append)
  have rec: "sc\<lparr>sc_mem := x, sc_state := CMD\<rparr> = \<lparr>sc_mem = x, sc_pos = sc_pos sc, sc_state = CMD\<rparr>" for x
    by (cases sc) simp
  have "sc_pos sc \<noteq> 0" using pos by simp
  then show ?thesis using look by (simp add: first_word_def Let_def m no rec)
qed

text \<open>A command with no argument is accepted when the next byte is a line feed, wherever that byte is.\<close>

lemma read_bare:
  assumes "rules c = [[KCRLF]]" "sc_state sc = ARGS"
  shows "fst (read_rest c sc) = Run c [CRLF] \<longleftrightarrow> byte_at (sc_mem sc) (sc_pos sc) = lf"
proof -
  let ?b = "byte_at (sc_mem sc) (sc_pos sc)"
  have d: "\<not> is_digit lf" by (simp add: is_digit_def lf_def)
  have p: "parse [[KCRLF]] [] sc =
      (case next_token sc of Unknown sc' \<Rightarrow> Scan_error [] sc' | Not_implemented name sc' \<Rightarrow> Scan_error [] sc'
       | Token t sc' \<Rightarrow> if t = CRLF then Command [t] sc' else Error [] t sc')"
    by (subst parse.simps) (auto simp: after_def Let_def split: lex.split)
  show ?thesis
  proof (cases "next_token sc")
    case (Token t sc')
    have "t = CRLF \<longleftrightarrow> ?b = lf"
      using Token assms(2) d by (auto simp: next_token_def arg_token_def number_token_def Let_def split: if_splits)
    with Token p assms(1) show ?thesis
      by (auto simp: read_rest_def Let_def split: prod.split)
  next
    case (Unknown sc')
    then have "?b \<noteq> lf" using assms(2) d by (auto simp: next_token_def arg_token_def number_token_def Let_def split: if_splits)
    with Unknown p assms(1) show ?thesis by (simp add: read_rest_def Let_def)
  next
    case (Not_implemented name sc')
    then show ?thesis using assms(2) by (auto simp: next_token_def arg_token_def number_token_def Let_def split: if_splits)
  qed
qed

text \<open>A line that fills the buffer: all of its letters are thrown away, and the place is after the buffer.\<close>

lemma parse_letters:
  assumes "lf \<notin> set m" "null \<notin> set m" "m = w @ blank # replicate (Suc (Suc k)) (CHR ''A'')"
  shows "\<exists>a1 a2. read_rest TYP \<lparr>sc_mem = m @ null # r, sc_pos = length w, sc_state = ARGS\<rparr> =
    (Failed TYP [SP, Letter (CHR ''A''), Letter (CHR ''A'')] False, [(500, a1), (500, a2)],
     \<lparr>sc_mem = m @ null # r, sc_pos = length m + 1, sc_state = CMD\<rparr>)"
proof -
  let ?sc = "\<lambda>p. \<lparr>sc_mem = m @ null # r, sc_pos = p, sc_state = ARGS\<rparr>"
  have b: "byte_at (m @ null # r) (length w) = blank" "byte_at (m @ null # r) (length w + 1) = CHR ''A''"
    "byte_at (m @ null # r) (length w + 2) = CHR ''A''"
    using byte_at_skip [of w blank] byte_at_skip [of "w @ [blank]" "CHR ''A''"]
      byte_at_skip [of "w @ [blank, CHR ''A'']" "CHR ''A''"] by (simp_all add: assms(3))
  have k: "\<not> is_digit blank" "blank \<noteq> lf" "\<not> is_digit (CHR ''A'')" "CHR ''A'' \<noteq> lf" "CHR ''A'' \<noteq> blank"
    "upper_char (CHR ''A'') = CHR ''A''"
    by (simp_all add: is_digit_def blank_def lf_def upper_char_def)
  have t: "next_token (?sc (length w)) = Token SP (?sc (length w + 1))"
    "next_token (?sc (length w + 1)) = Token (Letter (CHR ''A'')) (?sc (length w + 2))"
    "next_token (?sc (length w + 2)) = Token (Letter (CHR ''A'')) (?sc (length w + 3))"
    using b k by (simp_all add: next_token_def arg_token_def Let_def)
  have a: "after SP (rules TYP) = map (\<lambda>x. x @ [KCRLF]) type_codes"
    "after (Letter (CHR ''A'')) (map (\<lambda>x. x @ [KCRLF]) type_codes) = [[KCRLF], [KSP, KLetter ''NTC'', KCRLF]]"
    "after (Letter (CHR ''A'')) [[KCRLF], [KSP, KLetter ''NTC'', KCRLF]] = []"
    by (simp_all add: after_def rules_def type_codes_def)
  have "parse (rules TYP) [] (?sc (length w)) = parse (map (\<lambda>x. x @ [KCRLF]) type_codes) [SP] (?sc (length w + 1))"
    by (subst parse.simps) (simp only: t a lex.case Let_def, simp add: type_codes_def)
  also have "\<dots> = parse [[KCRLF], [KSP, KLetter ''NTC'', KCRLF]] [SP, Letter (CHR ''A'')] (?sc (length w + 2))"
    by (subst parse.simps) (simp only: t a lex.case Let_def, simp)
  also have "\<dots> = Error [SP, Letter (CHR ''A'')] (Letter (CHR ''A'')) (?sc (length w + 3))"
    by (subst parse.simps) (simp only: t a lex.case Let_def, simp)
  finally have p: "parse (rules TYP) [] (?sc (length w)) = Error [SP, Letter (CHR ''A'')] (Letter (CHR ''A'')) (?sc (length w + 3))" .
  have y: "yyerror_mem (?sc (length w + 3)) = ?sc (length w + 3)"
    using strpbrk_none [of m "[lf]" r] assms(1,2) by (simp add: yyerror_mem_def)
  have m: "m = (w @ [blank, CHR ''A'', CHR ''A'']) @ replicate k (CHR ''A'')" by (simp add: assms(3))
  have "recover (?sc (length w + 3)) = (False, \<lparr>sc_mem = m @ null # r, sc_pos = length m + 1, sc_state = CMD\<rparr>)"
    using recover_letters [of "CHR ''A''" "w @ [blank, CHR ''A'', CHR ''A'']" k r] assms(1,2) unfolding m by (simp add: numeral_3_eq_3)
  with p y show ?thesis by (simp add: read_rest_def Let_def not_understood_def)
qed

lemma read_full_line:
  assumes "length mem = 512"
  shows "\<exists>a1 a2. read_line (''TYPE '' @ replicate 506 (CHR ''A'')) \<lparr>sc_mem = mem @ beyond, sc_pos = p, sc_state = q\<rparr> =
    (Failed TYP [SP, Letter (CHR ''A''), Letter (CHR ''A'')] False, [(500, a1), (500, a2)],
     \<lparr>sc_mem = ''TYPE '' @ replicate 506 (CHR ''A'') @ null # beyond, sc_pos = 512, sc_state = CMD\<rparr>)"
proof -
  define t where "t = replicate 506 (CHR ''A'')"
  have t: "set t \<inter> {null, lf, cr, blank} = {}" "length t = 506" by (auto simp: t_def null_def lf_def cr_def blank_def)
  let ?sc = "\<lparr>sc_mem = mem @ beyond, sc_pos = p, sc_state = q\<rparr>"
  have v: "command_word ''TYPE'' TYP ARGS" by (simp add: command_word_def cmdtab_def upper_char_def)
  have w: "''TYPE '' @ t = ''TYPE'' @ blank # t" by (simp add: blank_def)
  have pl: "null \<notin> set (''TYPE'' @ blank # t)" "cr \<notin> set (''TYPE'' @ blank # t)" "lf \<notin> set (''TYPE'' @ blank # t)"
    using t(1) by (auto simp: null_def cr_def lf_def blank_def)
  have "drop (length (''TYPE'' @ blank # t) + 1) (mem @ beyond) = beyond" using assms t(2) by simp
  with cut_cr_line(2) [OF pl(1,2), of "mem @ beyond"] have
    "cut_cr (put_cstr (''TYPE'' @ blank # t) (mem @ beyond)) = (''TYPE'' @ blank # t) @ null # beyond" by simp
  then have f: "first_word (''TYPE'' @ blank # t) ?sc =
      Token (Cmd TYP) \<lparr>sc_mem = (map upper_char ''TYPE'' @ blank # t) @ null # beyond, sc_pos = length ''TYPE'', sc_state = ARGS\<rparr>"
    using first_word_found [OF v, of blank t "''TYPE'' @ blank # t" ?sc beyond] pl(1) by simp
  have up: "map upper_char ''TYPE'' = ''TYPE''" by (simp add: upper_char_def)
  have "t = replicate (Suc (Suc 504)) (CHR ''A'')" by (simp add: t_def)
  then obtain a1 a2 where "read_rest TYP \<lparr>sc_mem = (''TYPE'' @ blank # t) @ null # beyond, sc_pos = length ''TYPE'', sc_state = ARGS\<rparr> =
      (Failed TYP [SP, Letter (CHR ''A''), Letter (CHR ''A'')] False, [(500, a1), (500, a2)],
       \<lparr>sc_mem = (''TYPE'' @ blank # t) @ null # beyond, sc_pos = length (''TYPE'' @ blank # t) + 1, sc_state = CMD\<rparr>)"
    using parse_letters [OF pl(3,1), of "''TYPE''" 504 beyond] by metis
  moreover have "length (''TYPE'' @ blank # t) + 1 = 512" using t(2) by simp
  ultimately have "read_line (''TYPE'' @ blank # t) ?sc =
    (Failed TYP [SP, Letter (CHR ''A''), Letter (CHR ''A'')] False, [(500, a1), (500, a2)],
     \<lparr>sc_mem = (''TYPE'' @ blank # t) @ null # beyond, sc_pos = 512, sc_state = CMD\<rparr>)"
    using f unfolding up by (simp only: read_line_def lex.case cmd_token.case)
  then show ?thesis unfolding t_def [symmetric] w by (simp add: blank_def)
qed

end
