(* ===== verification/Ftpd_Properties.thy ===== *)
theory Ftpd_Properties
  imports Ftpd_Session Ftpd_Reading Ftpd_Transfer
begin

text \<open>What holds of the file transfer server.\<close>

section \<open>Sessions\<close>

text \<open>The states a process can be in between two lines, whatever lines come; \<open>beyond\<close> is the memory after \<open>cbuf\<close>.\<close>

inductive reach :: "env \<Rightarrow> string \<Rightarrow> scanner \<times> ftpd \<Rightarrow> bool" for E beyond where
  start: "reach E beyond (fresh_scan beyond, fresh_ftpd E)"
| step: "reach E beyond x \<Longrightarrow> \<not> exited (snd x) \<Longrightarrow> reach E beyond (run_line E line x)"

lemma session_reach:
  "reach E b x \<Longrightarrow> reach E b (session E inp x) \<or>
     (\<exists>y. reach E b y \<and> session E inp x = (fst y, dologout E (send_reply 221 ''You could at least say goodbye.'' (snd y))))"
proof (induction E inp x rule: session.induct)
  case (1 E inp x)
  show ?case
  proof (cases "exited (snd x)")
    case True
    with 1(2) show ?thesis by (simp add: session.simps [of E inp x])
  next
    case False
    show ?thesis
    proof (cases "ftpd_getline [] 511 inp")
      case None
      with False have "session E inp x = (fst x, dologout E (send_reply 221 ''You could at least say goodbye.'' (snd x)))"
        by (simp add: session.simps [of E inp x])
      with 1(2) show ?thesis by blast
    next
      case (Some q)
      obtain line r a where q: "q = (line, r, a)" by (cases q)
      have "reach E b (run_line E line x)" using reach.step [OF 1(2) False] .
      with 1(1) [OF False Some q [symmetric] refl] Some q False show ?thesis by (simp add: session.simps [of E inp x])
    qed
  qed
qed

section \<open>One line\<close>

lemma help_same:
  "let s' = help_cmd E b arg s in log s' = log s \<and> logged_in s' = logged_in s \<and> euid s' = euid s \<and> guest s' = guest s \<and> pw s' = pw s"
  "let s' = help_line E arg s in log s' = log s \<and> logged_in s' = logged_in s \<and> euid s' = euid s \<and> guest s' = guest s \<and> pw s' = pw s"
proof -
  show h: "let s' = help_cmd E b arg s in log s' = log s \<and> logged_in s' = logged_in s \<and> euid s' = euid s \<and> guest s' = guest s \<and> pw s' = pw s"
    for b arg by (auto simp: help_cmd_def send_reply_def Let_def split: option.split)
  show "let s' = help_line E arg s in log s' = log s \<and> logged_in s' = logged_in s \<and> euid s' = euid s \<and> guest s' = guest s \<and> pw s' = pw s"
    using h by (simp add: help_line_def Let_def split: option.split)
qed

lemma exec_idle:
  assumes "\<not> logged_in s" "c \<notin> {USER, PASS}"
  shows "let s' = exec_cmd E c ts s in log s' = log s \<and> \<not> logged_in s' \<and> euid s' = euid s \<and> guest s' = guest s \<and> pw s' = pw s"
  using assms help_same
  by (cases c)
    (simp_all add: exec_cmd_def Let_def need_login_def with_path_def rnto_def rnfr_cmd_def site_def send_reply_def dologout_def
      set_dest_def split: option.split)

lemma cmd_done_same: "log (cmd_done s) = log s" "logged_in (cmd_done s) = logged_in s" "euid (cmd_done s) = euid s"
    "guest (cmd_done s) = guest s" "pw (cmd_done s) = pw s" "exited (cmd_done s) = exited s"
  by (simp_all add: cmd_done_def)

lemma partly_idle:
  "\<not> logged_in s \<Longrightarrow> log (partly_done c ts s) = log s \<and> \<not> logged_in (partly_done c ts s) \<and> euid (partly_done c ts s) = euid s \<and>
     guest (partly_done c ts s) = guest s \<and> pw (partly_done c ts s) = pw s"
  by (simp add: partly_done_def Let_def need_login_def send_reply_def set_dest_def split: option.split)

text \<open>What a line that runs no command leaves.\<close>

lemma run_line_cases:
  obtains (run) c ts where "fst (read_line line sc) = Run c ts"
      "snd (run_line E line (sc, s)) = exec_cmd E c ts s \<or> snd (run_line E line (sc, s)) = cmd_done (exec_cmd E c ts s)"
  | (failed) c ts a where
      "snd (run_line E line (sc, s)) = (partly_done c ts s)\<lparr>out := a\<rparr> \<or>
       snd (run_line E line (sc, s)) = cmd_done ((partly_done c ts s)\<lparr>out := a\<rparr>)"
      "\<And>c ts. fst (read_line line sc) \<noteq> Run c ts"
  | (nothing) a where "snd (run_line E line (sc, s)) = s\<lparr>out := a\<rparr>" "\<And>c ts. fst (read_line line sc) \<noteq> Run c ts"
proof -
  obtain r a sc' where r: "read_line line sc = (r, a, sc')" by (cases "read_line line sc")
  show thesis
  proof (cases r)
    case (Run c ts)
    with r show thesis by (intro run [of c ts]) (auto simp: run_line_def)
  next
    case (Failed c ts ok)
    with r show thesis
      by (intro failed [where c = c and ts = ts and a = "out (partly_done c ts s) @ a"]) (auto simp: run_line_def Let_def)
  next
    case No_command
    show thesis
      by (rule nothing [where a1 = "out s @ a"]) (use r No_command in \<open>auto simp: run_line_def\<close>)
  qed
qed

lemma sound_update:
  "sound E (cmd_done s) = sound E s" "sound E (s\<lparr>out := a\<rparr>) = sound E s"
  by (simp_all add: sound_def confined_def cmd_done_def)

lemma line_idle:
  fixes line :: string and sc :: scanner
  assumes E: "seteuid_works E" and s: "sound E s" and idle: "\<not> logged_in s"
  defines "s' \<equiv> snd (run_line E line (sc, s))"
  shows "sound E s' \<and> logging_in s s' \<and>
     ((\<forall>ts. fst (read_line line sc) \<noteq> Run PASS ts) \<longrightarrow> log s' = log s \<and> \<not> logged_in s')"
proof (cases rule: run_line_cases [of line sc E s])
  case (run c ts)
  have s': "log s' = log (exec_cmd E c ts s)" "logged_in s' = logged_in (exec_cmd E c ts s)"
    "sound E s' = sound E (exec_cmd E c ts s)"
    using run(2) unfolding s'_def by (auto simp: cmd_done_same sound_update)
  consider (user) "c = USER" | (pass) "c = PASS" | (other) "c \<notin> {USER, PASS}" by auto
  then show ?thesis
  proof cases
    case user
    then have "exec_cmd E c ts s = s \<or> (\<exists>n. exec_cmd E c ts s = user_cmd E n s)"
      by (auto simp: exec_cmd_def split: option.split)
    then show ?thesis using s' s idle user_idle [OF E s] user_log [of E _ s] by (auto simp: logging_in_def)
  next
    case pass
    then obtain p where p: "exec_cmd E c ts s = pass E p s" by (simp add: exec_cmd_def)
    then show ?thesis using s' pass run(1) pass_result(1,2) [OF E s idle, of p] by (auto simp: logging_in_def)
  next
    case other
    then show ?thesis using s' s idle exec_idle [OF idle other, of E ts] sound_same [of E s "exec_cmd E c ts s" "[]"]
      by (simp add: Let_def logging_in_def)
  qed
next
  case (failed c ts a)
  have "log s' = log (partly_done c ts s)" "logged_in s' = logged_in (partly_done c ts s)" "sound E s' = sound E (partly_done c ts s)"
    using failed(1) unfolding s'_def by (auto simp: cmd_done_same sound_update)
  then show ?thesis using s idle partly_idle [OF idle, of c ts] sound_same [of E s "partly_done c ts s" "[]"]
    by (simp add: logging_in_def)
next
  case (nothing a)
  then show ?thesis using s idle unfolding s'_def by (simp add: sound_update logging_in_def)
qed

lemma line_active:
  fixes line :: string and sc :: scanner
  assumes E: "seteuid_works E" and s: "sound E s" and on: "logged_in s"
  defines "s' \<equiv> snd (run_line E line (sc, s))"
  shows "(exited s' \<or> sound E s') \<and> (\<exists>l. log s' = log s @ l \<and> list_all (call_ok E (uid_of s)) l)"
proof -
  have st: "settled E s" using sound_settled [OF s E on] .
  have u: "euid s = uid_of s" using st by (simp add: settled_def)
  have quiet: "(exited s' \<or> sound E s') \<and> (\<exists>l. log s' = log s @ l \<and> list_all (call_ok E (uid_of s)) l)" if "quiet E s s'"
    using that s u sound_quiet by (auto simp: quiet_def)
  show ?thesis
  proof (cases rule: run_line_cases [of line sc E s])
    case (run c ts)
    consider (user) "c = USER" | (pass) "c = PASS" | (quit) "c = QUIT" | (other) "c \<notin> {USER, PASS, QUIT}" by auto
    then show ?thesis
    proof cases
      case user
      then have "exec_cmd E c ts s = s \<or> (\<exists>n. exec_cmd E c ts s = user_cmd E n s)"
        by (auto simp: exec_cmd_def split: option.split)
      then consider (none) "exec_cmd E c ts s = s" | (name) n where "exec_cmd E c ts s = user_cmd E n s" by blast
      then show ?thesis
      proof cases
        case none
        then have "quiet E s s'" using run(2) unfolding s'_def by (auto intro!: quiet_rules quiet_refl)
        then show ?thesis by (rule quiet)
      next
        case (name n)
        have s': "log s' = log (user_cmd E n s)" "sound E s' = sound E (user_cmd E n s)"
          using run(2) name unfolding s'_def by (auto simp: cmd_done_same sound_update)
        show ?thesis
        proof (cases "guest s \<or> dochroot s")
          case True
          have "quiet E s s'" using run(2) name user_kept [OF on True, of E n] unfolding s'_def by (auto intro!: quiet_rules)
          then show ?thesis by (rule quiet)
        next
          case False
          then show ?thesis using s' user_idle [OF E s, of n] user_log [of E n s] on by (auto simp: call_ok_def)
        qed
      qed
    next
      case pass
      then obtain p where p: "exec_cmd E c ts s = pass E p s" by (simp add: exec_cmd_def)
      then have "quiet E s s'" using run(2) pass_kept [OF on, of E p] unfolding s'_def by (auto intro!: quiet_rules)
      then show ?thesis by (rule quiet)
    next
      case quit
      then have "exited s' \<and> log s' = log s @ [(euid s, Seteuid 0)]"
        using run(2) on seteuid_done [OF E] unfolding s'_def
        by (auto simp: exec_cmd_def dologout_def send_reply_def cmd_done_def)
      then show ?thesis by (auto simp: call_ok_def)
    next
      case other
      then have "quiet E s s'" using run(2) quiet_exec [OF st quiet_refl other, of ts] unfolding s'_def
        by (auto intro!: quiet_rules)
      then show ?thesis by (rule quiet)
    qed
  next
    case (failed c ts a)
    then have "quiet E s s'" using quiet_refl unfolding s'_def by (auto intro!: quiet_rules)
    then show ?thesis by (rule quiet)
  next
    case (nothing a)
    then have "quiet E s s'" using quiet_refl unfolding s'_def by (auto intro!: quiet_rules)
    then show ?thesis by (rule quiet)
  qed
qed

lemma reach_sound: "reach E b x \<Longrightarrow> seteuid_works E \<Longrightarrow> exited (snd x) \<or> sound E (snd x)"
proof (induction rule: reach.induct)
  case start
  then show ?case by (simp split: option.split add: fresh_ftpd_def new_ftpd_def sound_def)
next
  case (step x line)
  obtain sc s where x: "x = (sc, s)" by (cases x)
  with step have "sound E s" by simp
  with step x line_idle [of E s line sc] line_active [of E s line sc] show ?case by (cases "logged_in s") auto
qed

section \<open>Whole sessions\<close>

text \<open>A call of a session is made as a user who may be let in, or it is one of those that the login or a socket for data needs.\<close>

definition session_call_ok :: "env \<Rightarrow> nat \<times> call \<Rightarrow> bool" where
  "session_call_ok E x \<longleftrightarrow>
     (login_call (snd x) \<or> root_call (snd x) \<or> (\<exists>g p. eligible E g p \<and> fst x = pw_uid p)) \<and>
     (case snd x of Connect a \<Rightarrow> peer_ok E a | _ \<Rightarrow> True)"

lemma login_call_ok: "login_call (snd x) \<Longrightarrow> session_call_ok E x"
  by (cases "snd x") (auto simp: session_call_ok_def)

lemma call_ok_session: "sound E s \<Longrightarrow> logged_in s \<Longrightarrow> call_ok E (uid_of s) x \<Longrightarrow> session_call_ok E x"
proof -
  assume s: "sound E s" "logged_in s" and x: "call_ok E (uid_of s) x"
  then obtain p d where "eligible E (guest s) p" "pw s = Some (p\<lparr>pw_dir := d\<rparr>)" by (auto simp: sound_def)
  then have "\<exists>g p. eligible E g p \<and> uid_of s = pw_uid p" by (auto simp: uid_of_def)
  with x show ?thesis unfolding session_call_ok_def call_ok_def by metis
qed

lemma reach_calls: "reach E b x \<Longrightarrow> seteuid_works E \<Longrightarrow> list_all (session_call_ok E) (log (snd x))"
proof (induction rule: reach.induct)
  case start
  then show ?case by (simp split: option.split add: fresh_ftpd_def new_ftpd_def)
next
  case (step x line)
  obtain sc s where x: "x = (sc, s)" by (cases x)
  have s: "sound E s" using reach_sound [OF step(1) step(4)] step(2) x by simp
  have "\<exists>l. log (snd (run_line E line (sc, s))) = log s @ l \<and> list_all (session_call_ok E) l"
  proof (cases "logged_in s")
    case True
    with line_active [OF step(4) s True, of line sc] call_ok_session [OF s True] show ?thesis
      by (auto simp: list_all_iff)
  next
    case False
    then obtain l where l: "log (snd (run_line E line (sc, s))) = log s @ l" "list_all (login_call \<circ> snd) l"
      using line_idle [OF step(4) s, of line sc] by (auto simp: logging_in_def)
    have "list_all (session_call_ok E) l" using l(2) by (rule list.pred_mono_strong) (simp add: login_call_ok)
    with l(1) show ?thesis by blast
  qed
  with step.IH [OF step(4)] x show ?case by auto
qed

text \<open>An account and a system for examples.\<close>

definition ann :: passwd where
  "ann = \<lparr>pw_name = ''ann'', pw_passwd = ''secret'', pw_uid = 7, pw_gid = 7, pw_dir = ''/home/ann'', pw_shell = ''/bin/sh''\<rparr>"

definition plain_env :: env where
  "plain_env =
    \<lparr>getpwnam = (\<lambda>n. if n = ''ann'' then Some ann else None), getspnam = (\<lambda>n. None), crypt = (\<lambda>k salt. k),
     shells = [''/bin/sh''], config = (\<lambda>f. None), today = 0, anon_only = False, multihome = False, portcheck = True,
     high_data_ports = False, stats = False, maxtimeout = 7200, defumask = 23, hostname = ''host'', dhostname = ''host'',
     his_addr = (1, 2000), os = (\<lambda>l c. if c = Receive then Text ''text'' else Done), strerror = (\<lambda>l. ''error''),
     mtime = (\<lambda>l. ''20000101000000''), source_text = ''10.0.0.1,20'', version = ''1''\<rparr>"

lemma plain_fresh: "fresh_ftpd plain_env = (new_ftpd plain_env)\<lparr>out := [(220, ''host FTP server (1) ready.'')]\<rparr>"
  by (simp add: fresh_ftpd_def plain_env_def)

lemma plain_seteuid: "seteuid_works plain_env"
  by (simp add: seteuid_works_def plain_env_def)

text \<open>C7: Whatever bytes a client sends from its connection to its end, every call the server makes of the system is
  made as the user of an account that may be let in (listed with an allowed shell and not refused, or the account of
  the guests), except for the calls of a login and those that set up a socket for data; and the server connects only
  to the host of the client and to no reserved port.\<close>

theorem session_calls:
  assumes "seteuid_works E"
  shows "list_all (session_call_ok E) (log (snd (session E inp (fresh_scan beyond, fresh_ftpd E))))"
proof -
  have out: "list_all (session_call_ok E) (log (dologout E (send_reply n t s))) = list_all (session_call_ok E) (log s)" for n t s
    using seteuid_done [OF assms] by (auto simp: dologout_def send_reply_def session_call_ok_def)
  from session_reach [OF reach.start, of E beyond inp] show ?thesis
  proof
    assume "reach E beyond (session E inp (fresh_scan beyond, fresh_ftpd E))"
    then show ?thesis by (rule reach_calls [OF _ assms])
  next
    assume "\<exists>y. reach E beyond y \<and> session E inp (fresh_scan beyond, fresh_ftpd E) =
        (fst y, dologout E (send_reply 221 ''You could at least say goodbye.'' (snd y)))"
    then obtain y where "reach E beyond y" and
      y: "session E inp (fresh_scan beyond, fresh_ftpd E) = (fst y, dologout E (send_reply 221 ''You could at least say goodbye.'' (snd y)))"
      by blast
    with reach_calls [OF _ assms] show ?thesis by (simp add: out)
  qed
qed

theorem session_calls_witness:
  "list_all (session_call_ok plain_env)
     (log (snd (session plain_env (''USER ann'' @ [cr, lf] @ ''PASS secret'' @ [cr, lf] @ ''RETR file'' @ [cr, lf])
        (fresh_scan [], fresh_ftpd plain_env))))"
  by (rule session_calls [OF plain_seteuid])




section \<open>Data connections\<close>

lemma connect_retry_result:
  "connect_retry E n s = (ok, s1) \<Longrightarrow>
     pdata s1 = pdata s \<and> data_dest s1 = data_dest s \<and> (\<exists>l. log s1 = log s @ l) \<and>
     (ok \<longrightarrow> (\<exists>l r. log s1 = l @ [(euid s, Connect (data_dest s))] \<and> os E (map snd l) (Connect (data_dest s)) = r \<and> r \<noteq> Fails \<and> r \<noteq> Busy))"
proof (induction E n s arbitrary: ok s1 rule: connect_retry.induct)
  case (1 E tries s)
  obtain r s2 where c: "os_call E (Connect (data_dest s)) s = (r, s2)" by fastforce
  then have s2: "log s2 = log s @ [(euid s, Connect (data_dest s))]" "pdata s2 = pdata s" "data_dest s2 = data_dest s" "euid s2 = euid s"
    "r = os E (map snd (log s)) (Connect (data_dest s))"
    by (auto simp: os_call_def)
  show ?case
  proof (cases "r = Busy \<and> 0 < tries")
    case True
    with 1(1) [OF c [symmetric] True, of ok s1] 1(2) c s2 show ?thesis
      by (auto simp: connect_retry.simps [of E tries s])
  next
    case False
    with 1(2) c s2 show ?thesis by (auto simp: connect_retry.simps [of E tries s])
  qed
qed

text \<open>A data connection that is made is one with the client's own host at a port that is not reserved, whether
  the server was waiting for it (PASV) or made it (PORT or the default), and whatever address PORT named.\<close>

theorem data_connection_checked:
  assumes "seteuid_works E" "euid s = uid_of s" "dataconn E name siz s = (True, s')" "pdata s \<or> \<not> data_open s"
  shows "\<exists>a l. fst a = fst (his_addr E) \<and> PORT_RESERVED \<le> snd a \<and>
     (if pdata s then os E (map snd (log s)) Accept = Peer a
      else log s' = l @ [(euid s, Connect a)] \<and> snd a \<noteq> 2049 \<and> os E (map snd l) (Connect a) \<noteq> Fails)"
proof (cases "pdata s")
  case True
  then show ?thesis using assms(3)
    by (auto simp: dataconn_def dataconn_passive_def os_call_def data_fails_def split: result.splits if_splits)
next
  case False
  let ?s1 = "(if usedefault s then s\<lparr>data_dest := his_addr E\<rparr> else s)\<lparr>usedefault := True\<rparr>"
  obtain ok s2 where g: "getdatasock E ?s1 = (ok, s2)" by fastforce
  have u: "euid ?s1 = uid_of ?s1" using assms(2) by (simp add: uid_of_def)
  have s2: "quiet E ?s1 s2" using quiet_getdatasock [OF assms(1) quiet_refl u g] by simp
  have on: "ok" "PORT_RESERVED \<le> snd (data_dest s2)" "snd (data_dest s2) \<noteq> 2049" "fst (data_dest s2) = fst (his_addr E)"
    "\<exists>s3. connect_retry E 18 s2 = (True, s3) \<and> log s' = log s3"
    using assms(3,4) False g
    by (auto simp: dataconn_def data_fails_def opening_data_def send_reply_def Let_def split: bool.splits if_splits prod.splits)
  then obtain s3 where "connect_retry E 18 s2 = (True, s3)" "log s' = log s3" by blast
  then obtain l where "log s' = l @ [(euid s2, Connect (data_dest s2))]" "os E (map snd l) (Connect (data_dest s2)) \<noteq> Fails"
    using connect_retry_result [of E 18 s2 True s3] by auto
  moreover have "euid s2 = euid s" using quiet_euid(1) [OF s2] by simp
  ultimately show ?thesis using on(2-4) False by (intro exI [of _ "data_dest s2"] exI [of _ l]) simp
qed

theorem data_connection_checked_witness:
  "\<exists>s'. dataconn plain_env ''file'' [] ((fresh_ftpd plain_env)\<lparr>data_dest := (5, 80)\<rparr>) = (True, s') \<and>
     (\<exists>a l. fst a = 1 \<and> PORT_RESERVED \<le> snd a \<and> log s' = l @ [(0, Connect a)])"
proof -
  let ?s = "(fresh_ftpd plain_env)\<lparr>data_dest := (5, 80)\<rparr>"
  obtain s' where d: "dataconn plain_env ''file'' [] ?s = (True, s')"
    unfolding plain_fresh by (simp add: dataconn_def getdatasock_def new_ftpd_def seteuid_def os_call_def plain_env_def Let_def
        bind_retry.simps [of _ 10] connect_retry.simps [of _ 18] uid_of_def PORT_RESERVED_def)
  have "euid ?s = uid_of ?s" "pdata ?s \<or> \<not> data_open ?s" by (simp_all add: plain_fresh new_ftpd_def uid_of_def)
  from data_connection_checked [OF plain_seteuid this(1) d this(2)] d show ?thesis
    unfolding plain_fresh by (auto simp: new_ftpd_def plain_env_def)
qed

section \<open>Names in answers\<close>

definition doubled :: "string \<Rightarrow> string" where
  "doubled name = concat (map (\<lambda>c. if c = CHR 0x22 then [c, c] else [c]) name)"

lemma quote_name_result:
  "i \<le> n \<Longrightarrow> quote_name n i name = (x, k) \<Longrightarrow>
     k = i + length x \<and> k \<le> n \<and> prefix x (doubled name) \<and> (i + length (doubled name) < n \<longrightarrow> x = doubled name)"
proof (induction n i name arbitrary: x k rule: quote_name.induct)
  case (2 n i c cs)
  show ?case
  proof (cases "i < n - 1")
    case False
    with 2 show ?thesis by (auto simp: doubled_def)
  next
    case True
    then have i: "i + 2 \<le> n" by linarith
    obtain y l where q: "quote_name n (if c = CHR 0x22 then i + 2 else i + 1) cs = (y, l)" by fastforce
    show ?thesis
    proof (cases "c = CHR 0x22")
      case quote: True
      with 2(1) [OF True quote, of y l] True q 2(4) i show ?thesis by (auto simp: doubled_def)
    next
      case False
      with 2(2) [OF True False, of y l] True q 2(4) i show ?thesis by (auto simp: doubled_def)
    qed
  qed
qed (simp add: doubled_def)

lemma quote_name_plain: "CHR 0x22 \<notin> set p \<Longrightarrow> i + length p < n \<Longrightarrow>
   quote_name n i (p @ q) = (case quote_name n (i + length p) q of (x, k) \<Rightarrow> (p @ x, k))"
  by (induction p arbitrary: i) (auto split: prod.split)

text \<open>The answer with the name of a directory is written into a buffer of \<open>n\<close> bytes: what fits_token is the name with its
  quotes doubled, and the null byte is never further than place \<open>n\<close> --- but it is at place \<open>n\<close>, the first one outside,
  when a quote comes at place \<open>n - 2\<close>.\<close>

theorem quote_name_bounds:
  "(case quote_name n 0 name of (x, k) \<Rightarrow>
      k = length x \<and> k \<le> n \<and> prefix x (doubled name) \<and> (n \<le> length (doubled name) \<or> x = doubled name)) \<and>
   quote_name (m + 2) 0 (replicate m (CHR ''a'') @ [CHR 0x22]) = (replicate m (CHR ''a'') @ [CHR 0x22, CHR 0x22], m + 2)"
proof
  show "case quote_name n 0 name of (x, k) \<Rightarrow>
      k = length x \<and> k \<le> n \<and> prefix x (doubled name) \<and> (n \<le> length (doubled name) \<or> x = doubled name)"
    using quote_name_result [of 0 n name] by (auto split: prod.split)
  show "quote_name (m + 2) 0 (replicate m (CHR ''a'') @ [CHR 0x22]) = (replicate m (CHR ''a'') @ [CHR 0x22, CHR 0x22], m + 2)"
    using quote_name_plain [of "replicate m (CHR ''a'')" 0 "m + 2" "[CHR 0x22]"] by simp
qed

section \<open>Lines that are not understood\<close>

lemma bare_rules: "command_word v c ARGS \<Longrightarrow> rules c = [[KCRLF]] \<Longrightarrow> set arg \<inter> {null, lf, cr} = {} \<Longrightarrow>
   \<exists>a1 a2 sc'. read_line (v @ blank # arg @ [cr, lf]) sc = (Failed c [SP] False, [(500, a1), (500, a2)], sc')"
proof -
  assume v: "command_word v c ARGS" "rules c = [[KCRLF]]" and arg: "set arg \<inter> {null, lf, cr} = {}"
  obtain r where f: "first_word (v @ blank # arg @ [cr, lf]) sc = Token (Cmd c)
       \<lparr>sc_mem = map upper_char v @ blank # arg @ lf # null # r, sc_pos = length v, sc_state = ARGS\<rparr>"
    and l: "line_to (length v + 1 + length arg) (map upper_char v @ blank # arg @ lf # null # r)"
    using first_word_line [OF v(1) arg, of sc] by blast
  let ?m = "map upper_char v @ blank # arg @ lf # null # r"
  let ?sc = "\<lparr>sc_mem = ?m, sc_pos = length v, sc_state = ARGS\<rparr>"
  have b: "byte_at ?m (length v) = blank" using byte_at_skip [of "map upper_char v" blank] by simp
  then have t: "next_token ?sc = Token SP (?sc\<lparr>sc_pos := length v + 1\<rparr>)"
    using chars_apart by (simp add: next_token_def arg_token_def Let_def is_digit_def blank_def lf_def)
  have "parse (rules c) [] ?sc = Error [] SP (?sc\<lparr>sc_pos := length v + 1\<rparr>)"
    by (subst parse.simps) (simp only: t v(2) lex.case Let_def, simp add: after_def)
  from read_rest_twice [OF _ _ this, of "length v + 1 + length arg"] l have
    "\<exists>a1 a2 sc'. read_rest c ?sc = (Failed c [SP] False, [(500, a1), (500, a2)], sc')" by simp
  with f show ?thesis by (auto simp: read_line_def)
qed

text \<open>C40: A command that takes no argument but gets one is answered twice with 500 (after the answer 530 when it needs a
  login and there is none): the text of the error cuts the line before its end is found, so that what is thrown away
  of it ends in a second error.\<close>

theorem argument_answered_twice:
  assumes "command_word v c ARGS" "rules c = [[KCRLF]]" "set arg \<inter> {null, lf, cr} = {}"
  shows "\<exists>a1 a2. out (snd (run_line E (v @ blank # arg @ [cr, lf]) (sc, s))) =
    out s @ (if login_checked c [SP] \<and> \<not> logged_in s then [(530, ''Please login with USER and PASS.'')] else []) @
    [(500, a1), (500, a2)]"
proof -
  obtain a1 a2 sc' where "read_line (v @ blank # arg @ [cr, lf]) sc = (Failed c [SP] False, [(500, a1), (500, a2)], sc')"
    using bare_rules [OF assms, of sc] by blast
  moreover have "c \<noteq> PORT" using assms(2) by (auto simp: rules_def)
  ultimately show ?thesis by (auto simp: run_line_def partly_done_def need_login_def send_reply_def Let_def)
qed

theorem argument_answered_twice_witness:
  "\<exists>a1 a2. out (snd (run_line plain_env (''noop x'' @ [cr, lf]) (fresh_scan [], fresh_ftpd plain_env))) =
     [(220, ''host FTP server (1) ready.''), (500, a1), (500, a2)]"
proof -
  have "command_word ''noop'' NOOP ARGS" by code_simp
  moreover have "rules NOOP = [[KCRLF]]" by (simp add: rules_def)
  moreover have "set ''x'' \<inter> {null, lf, cr} = {}" by (simp add: null_def lf_def cr_def)
  ultimately show ?thesis
    using argument_answered_twice [of "''noop''" NOOP "''x''" plain_env "fresh_scan []" "fresh_ftpd plain_env"]
    by (simp add: login_checked_def plain_fresh new_ftpd_def blank_def)
qed

lemma full_line: "p \<noteq> [] \<Longrightarrow> set p \<inter> {iac, lf} = {} \<Longrightarrow> fill_line (length p) (p @ tail) = (p, tail, [], False)"
proof (induction p)
  case (Cons c p)
  have "c \<noteq> iac" "c \<noteq> lf" using Cons.prems(2) by auto
  then show ?case using Cons by (cases "p = []") (auto simp: fill_line.simps(2) telnet_item_def)
qed simp

text \<open>A line of a full buffer whose letters are thrown away leaves the place of the scanner after the end of
  \<open>cbuf\<close>, and a next line with neither a blank nor a line feed before its first null byte is scanned from there:
  whether the command NOOP is accepted is decided by the byte of the memory that follows the buffer.\<close>

theorem scanner_leaves_buffer:
  "ftpd_getline [] 511 (''TYPE '' @ replicate 506 (CHR ''A'') @ tail) = Some (''TYPE '' @ replicate 506 (CHR ''A''), tail, []) \<and>
   (\<exists>sc. snd (snd (read_line (''TYPE '' @ replicate 506 (CHR ''A'')) (fresh_scan beyond))) = sc \<and> sc_pos sc = 512 \<and>
      (fst (read_line (''NOOP'' @ [null, lf]) sc) = Run NOOP [CRLF] \<longleftrightarrow> take 1 beyond = [lf]))"
proof
  define line where "line = ''TYPE '' @ replicate 506 (CHR ''A'')"
  have line: "length line = 511" "line \<noteq> []" "set line \<inter> {iac, lf} = {}" by (auto simp: line_def iac_def lf_def)
  from full_line [OF line(2,3), of tail] line(1)
  have "ftpd_getline [] 511 (line @ tail) = Some (line, tail, [])" by (simp add: ftpd_getline_def)
  then show "ftpd_getline [] 511 (''TYPE '' @ replicate 506 (CHR ''A'') @ tail) =
      Some (''TYPE '' @ replicate 506 (CHR ''A''), tail, [])"
    unfolding line_def by (simp only: append_assoc)
next
  define line where "line = ''TYPE '' @ replicate 506 (CHR ''A'')"
  let ?sc = "\<lparr>sc_mem = line @ null # beyond, sc_pos = 512, sc_state = CMD\<rparr>"
  have n: "command_word ''NOOP'' NOOP ARGS" by code_simp
  have len: "length line = 511" by (simp add: line_def)
  have ne: "null \<notin> set ''NOOP''" "cr \<notin> set ''NOOP''" by (simp_all add: null_def cr_def)
  let ?r = "lf # null # drop (length (''NOOP'' @ [null, lf]) + 1) (line @ null # beyond)"
  have put: "put_cstr (''NOOP'' @ [null, lf]) (line @ null # beyond) = ''NOOP'' @ null # ?r"
    by (simp add: put_cstr_def)
  have "strpbrk (''NOOP'' @ null # ?r) 0 [cr] = None" using ne by (intro strpbrk_none) auto
  then have "cut_cr (put_cstr (''NOOP'' @ [null, lf]) (sc_mem ?sc)) = ''NOOP'' @ null # ?r" by (simp only: cut_cr_def put scanner.select_convs option.case)
  from first_word_stale [OF n _ this] have
    f: "first_word (''NOOP'' @ [null, lf]) ?sc =
      Token (Cmd NOOP) \<lparr>sc_mem = map upper_char ''NOOP'' @ null # ?r, sc_pos = 512, sc_state = ARGS\<rparr>" by simp
  let ?m = "map upper_char ''NOOP'' @ null # ?r"
  have b: "byte_at ?m 512 = (case beyond of [] \<Rightarrow> null | c # x \<Rightarrow> c)"
    using len by (auto simp: byte_at_def nth_append nth_Cons' split: list.split)
  have rules: "rules NOOP = [[KCRLF]]" by (simp add: rules_def)
  have run: "fst (read_rest NOOP \<lparr>sc_mem = ?m, sc_pos = 512, sc_state = ARGS\<rparr>) = Run NOOP [CRLF] \<longleftrightarrow> byte_at ?m 512 = lf"
    by (subst read_bare [OF rules]) simp_all
  have "fst (read_line (''NOOP'' @ [null, lf]) ?sc) = Run NOOP [CRLF] \<longleftrightarrow> take 1 beyond = [lf]"
    using f run b chars_apart(2) by (cases beyond) (simp_all add: read_line_def)
  moreover have "snd (snd (read_line line (fresh_scan beyond))) = ?sc"
    using read_full_line [of "replicate 512 null" beyond 0 CMD] by (auto simp: fresh_scan_def line_def)
  ultimately show "\<exists>sc. snd (snd (read_line (''TYPE '' @ replicate 506 (CHR ''A'')) (fresh_scan beyond))) = sc \<and> sc_pos sc = 512 \<and>
      (fst (read_line (''NOOP'' @ [null, lf]) sc) = Run NOOP [CRLF] \<longleftrightarrow> take 1 beyond = [lf])"
    unfolding line_def [symmetric] by simp
qed

end
