(* ===== verification/Telc_State.thy ===== *)
theory Telc_State
  imports Telnet_Receive Netkit_Text
begin

text \<open>
  The state of the TELNET client (\<^verbatim>\<open>telnet.cc\<close>, \<^verbatim>\<open>terminal.cc\<close>), its terminal modes, its environment
  (\<^verbatim>\<open>environ.cc\<close>) and its special characters, as the makefile configures it: with
  \<open>KLUDGELINEMODE\<close>, without \<open>TN3270\<close>, and with the printing of options switched off. The codes are
  those of the server's theory. Bytes for the network are appended to \<open>c_net\<close> as if its buffer had
  no end; the buffers themselves are the subject of \<^verbatim>\<open>Telc_Ring\<close>.
\<close>

section \<open>Codes\<close>

definition GA :: u8 where "GA = 249"
definition NOP :: u8 where "NOP = 241"
definition TELOPT_LINEMODE :: u8 where "TELOPT_LINEMODE = 34"

definition LM_MODE :: u8 where "LM_MODE = 1"
definition LM_SLC :: u8 where "LM_SLC = 3"
definition MODE_ACK :: u8 where "MODE_ACK = 4"
definition MODE_MASK :: u8 where "MODE_MASK = 31"

definition MODE_EDIT :: u32 where "MODE_EDIT = 1"
definition MODE_TRAPSIG :: u32 where "MODE_TRAPSIG = 2"
definition MODE_SOFT_TAB :: u32 where "MODE_SOFT_TAB = 8"
definition MODE_LIT_ECHO :: u32 where "MODE_LIT_ECHO = 16"
definition MODE_FLOW :: u32 where "MODE_FLOW = 256"
definition MODE_ECHO :: u32 where "MODE_ECHO = 512"
definition MODE_INBIN :: u32 where "MODE_INBIN = 1024"
definition MODE_OUTBIN :: u32 where "MODE_OUTBIN = 2048"
definition MODE_FORCE :: u32 where "MODE_FORCE = 4096"

lemmas mode_defs = MODE_EDIT_def MODE_TRAPSIG_def MODE_SOFT_TAB_def MODE_LIT_ECHO_def MODE_FLOW_def
  MODE_ECHO_def MODE_INBIN_def MODE_OUTBIN_def MODE_FORCE_def

definition SLC_NOSUPPORT :: u8 where "SLC_NOSUPPORT = 0"
definition SLC_VARIABLE :: u8 where "SLC_VARIABLE = 2"
definition SLC_ACK :: u8 where "SLC_ACK = 128"
definition SLC_FLUSHIN :: u8 where "SLC_FLUSHIN = 64"
definition SLC_FLUSHOUT :: u8 where "SLC_FLUSHOUT = 32"
definition NSLC :: nat where "NSLC = 18"

section \<open>State\<close>

text \<open>The characters of the terminal driver, one place in \<open>c_cc\<close> each.\<close>

datatype cc =
    VINTR | VQUIT | VERASE | VKILL | VEOF | VSTART | VSTOP | VSUSP | VEOL | VREPRINT | VDISCARD
  | VWERASE | VLNEXT | VEOL2

record spc =
  spc_val :: u8
  spc_valp :: "cc option"
  spc_flags :: u8
  spc_mylevel :: u8

datatype slc_mode = SLC_IMPORT | SLC_EXPORT | SLC_RVALUE

record enviro =
  ev_name :: "u8 list option"
  ev_value :: "u8 list"
  ev_export :: bool

datatype c_action = Flush_terminal | Set_terminal u32 | Leave

text \<open>
  \<open>c_overrun\<close> says that the code has written past the end of one of its buffers, or that its
  recursion does not end: from there on the model says nothing.
\<close>

record telc =
  c_options :: "u8 \<Rightarrow> u8"
  c_do_dont_resp :: "u8 \<Rightarrow> u8"
  c_will_wont_resp :: "u8 \<Rightarrow> u8"
  c_net :: "u8 list"
  c_net_mark :: "nat option"
  c_tty :: "u8 list"
  c_screen :: "u8 list"
  c_ts :: ts
  c_subbuffer :: "nat \<Rightarrow> u8"
  c_subpointer :: nat
  c_subend :: nat
  c_system :: nat
  c_echotoggle :: nat
  c_modenegotiated :: nat
  c_gotDM :: nat
  c_connected :: bool
  c_flushout :: bool
  c_flushline :: bool
  c_synching :: bool
  c_localflow :: bool
  c_localchars :: bool
  c_dontlecho :: bool
  c_crmod :: bool
  c_crlf :: bool
  c_autoflush :: bool
  c_autosynch :: bool
  c_donebinarytoggle :: bool
  c_kludgelinemode :: bool
  c_linemode :: u8
  c_globalmode :: u32
  c_prevmode :: u32
  c_bol :: bool
  c_local :: bool
  c_escapechar :: u8
  c_rlogin :: u8
  c_echoc :: u8
  c_spc :: "nat \<Rightarrow> spc"
  c_slc_mode :: slc_mode
  c_cc :: "cc \<Rightarrow> u8"
  c_vars :: "enviro list"
  c_resettermname :: bool
  c_termtypes :: "u8 list list"
  c_next_type :: nat
  c_want_status :: nat
  c_overrun :: bool
  c_actions :: "c_action list"

text \<open>
  The surroundings: whether urgent data is still to come, the size of the window (rows and columns),
  the characters and the speeds the terminal had at the start, the terminal data base, what lies
  behind the buffer of \<open>printf\<close> on the stack, and the command interpreter.
\<close>

record telc_env =
  e_oob :: bool
  e_winsize :: "(u16 \<times> u16) option"
  e_old_cc :: "cc \<Rightarrow> u8"
  e_ispeed :: nat
  e_ospeed :: nat
  e_termcap :: "u8 list \<Rightarrow> u8 list option"
  e_stack :: "u8 list"
  e_command :: "u8 list \<Rightarrow> telc \<Rightarrow> telc"

definition c_opt :: "u8 \<Rightarrow> u8 \<Rightarrow> telc \<Rightarrow> bool" where
  "c_opt flag opt s \<longleftrightarrow> c_options s opt AND flag \<noteq> 0"

definition c_set :: "u8 \<Rightarrow> bool \<Rightarrow> u8 \<Rightarrow> telc \<Rightarrow> telc" where
  "c_set flag on opt s =
     s\<lparr>c_options := (c_options s)(opt :=
         (if on then c_options s opt OR flag else c_options s opt AND NOT flag))\<rparr>"

abbreviation "c_my_state_is_will \<equiv> c_opt MY_STATE_WILL"
abbreviation "c_my_want_state_is_will \<equiv> c_opt MY_WANT_STATE_WILL"
abbreviation "c_my_state_is_do \<equiv> c_opt MY_STATE_DO"
abbreviation "c_my_want_state_is_do \<equiv> c_opt MY_WANT_STATE_DO"

definition c_act :: "c_action \<Rightarrow> telc \<Rightarrow> telc" where
  "c_act a s = s\<lparr>c_actions := c_actions s @ [a]\<rparr>"

definition netadd :: "u8 list \<Rightarrow> telc \<Rightarrow> telc" where
  "netadd bs s = s\<lparr>c_net := c_net s @ bs\<rparr>"

text \<open>\<open>netoring.printf\<close>, see \<^verbatim>\<open>Telc_Ring.rb_printf\<close>.\<close>

definition netprintf :: "telc_env \<Rightarrow> u8 list \<Rightarrow> telc \<Rightarrow> telc" where
  "netprintf E txt s =
     netadd (if length txt < 256 then txt else take (length txt) (take 255 txt @ [0] @ e_stack E)) s"

definition settimer_modenegotiated :: "telc \<Rightarrow> telc" where
  "settimer_modenegotiated s = s\<lparr>c_modenegotiated := c_system s, c_system := c_system s + 1\<rparr>"

definition settimer_echotoggle :: "telc \<Rightarrow> telc" where
  "settimer_echotoggle s = s\<lparr>c_echotoggle := c_system s, c_system := c_system s + 1\<rparr>"

definition settimer_gotDM :: "telc \<Rightarrow> telc" where
  "settimer_gotDM s = s\<lparr>c_gotDM := c_system s, c_system := c_system s + 1\<rparr>"

section \<open>The terminal\<close>

definition TTYRING :: nat where "TTYRING = 16384"

definition tty_room :: "telc \<Rightarrow> nat" where
  "tty_room s = TTYRING - length (c_tty s)"

definition tty_add :: "u8 \<Rightarrow> telc \<Rightarrow> telc" where
  "tty_add c s = (if c_synching s \<or> c_flushout s then s else s\<lparr>c_tty := c_tty s @ [c]\<rparr>)"

definition tty_drop :: "telc \<Rightarrow> telc" where
  "tty_drop s = (c_act Flush_terminal s)\<lparr>c_tty := []\<rparr>"

text \<open>What \<open>TerminalNewMode\<close> does first: it flushes until nothing is left.\<close>

definition tty_drain :: "telc \<Rightarrow> telc" where
  "tty_drain s =
     (if c_synching s \<or> c_flushout s then tty_drop s
      else s\<lparr>c_screen := c_screen s @ c_tty s, c_tty := []\<rparr>)"

definition terminal_new_mode :: "u32 \<Rightarrow> telc \<Rightarrow> telc" where
  "terminal_new_mode f s =
     (let s1 = s\<lparr>c_globalmode := f AND NOT MODE_FORCE\<rparr> in
      if c_prevmode s1 = f then s1
      else let s2 = tty_drain s1
           in c_act (Set_terminal f)
                (s2\<lparr>c_prevmode := f AND NOT MODE_FORCE, c_localchars := has f MODE_TRAPSIG\<rparr>))"

text \<open>What the mode means to the driver, from the modes as they were and the mode asked for.\<close>

record termios =
  t_echo :: bool
  t_onlcr :: bool
  t_icrnl :: bool
  t_ixon :: bool
  t_isig :: bool
  t_icanon :: bool
  t_vmin_vtime :: "nat \<times> nat"
  t_tab3 :: bool
  t_echoctl :: bool
  t_istrip :: bool
  t_csize_parenb :: u8
  t_opost :: bool
  t_cc :: "cc \<Rightarrow> u8"

definition CS8 :: u8 where "CS8 = 48"

definition COMMAND_MODE :: u32 where "COMMAND_MODE = - 1"

definition escape_eol :: "u8 \<Rightarrow> (cc \<Rightarrow> u8) \<Rightarrow> (cc \<Rightarrow> u8)" where
  "escape_eol esc k =
     (if k VEOL \<noteq> esc \<and> k VEOL2 \<noteq> esc
      then if k VEOL = POSIX_VDISABLE then k(VEOL := esc)
           else if k VEOL2 = POSIX_VDISABLE then k(VEOL2 := esc) else k
      else k)"

definition new_termios :: "u32 \<Rightarrow> bool \<Rightarrow> u8 \<Rightarrow> termios \<Rightarrow> termios \<Rightarrow> termios" where
  "new_termios f crlf esc new_tc old_tc =
     (if f = COMMAND_MODE then old_tc
      else let
        t1 = new_tc\<lparr>t_echo := has f MODE_ECHO, t_onlcr := has f MODE_ECHO,
               t_icrnl := (if crlf then has f MODE_ECHO else t_icrnl new_tc)\<rparr>;
        t2 = t1\<lparr>t_ixon := has f MODE_FLOW, t_isig := has f MODE_TRAPSIG\<rparr>;
        t3 = (if has f MODE_EDIT then t2\<lparr>t_icanon := True\<rparr>
              else t2\<lparr>t_icanon := False, t_icrnl := False, t_vmin_vtime := (1, 0)\<rparr>);
        t4 = (if has f (MODE_EDIT OR MODE_TRAPSIG) then t3
              else t3\<lparr>t_cc := (t_cc t3)(VLNEXT := POSIX_VDISABLE)\<rparr>);
        t5 = t4\<lparr>t_tab3 := has f MODE_SOFT_TAB, t_echoctl := \<not> has f MODE_LIT_ECHO,
               t_istrip := \<not> has f MODE_INBIN\<rparr>;
        t6 = (if has f MODE_OUTBIN then t5\<lparr>t_csize_parenb := CS8, t_opost := False\<rparr>
              else t5\<lparr>t_csize_parenb := t_csize_parenb old_tc, t_opost := True\<rparr>)
        in t6\<lparr>t_cc := escape_eol esc (t_cc t6)\<rparr>)"

definition getconnmode :: "telc \<Rightarrow> u32" where
  "getconnmode s =
     (let mode = (if c_my_want_state_is_do TELOPT_ECHO s then 0 else MODE_ECHO)
            OR (if c_localflow s then MODE_FLOW else 0)
            OR (if c_my_want_state_is_will TELOPT_BINARY s then MODE_INBIN else 0)
            OR (if c_my_want_state_is_do TELOPT_BINARY s then MODE_OUTBIN else 0)
      in if c_kludgelinemode s
         then if c_my_want_state_is_do TELOPT_SGA s then mode
              else let m = mode OR MODE_TRAPSIG OR MODE_EDIT
                   in if c_dontlecho s \<and> c_modenegotiated s < c_echotoggle s then m AND NOT MODE_ECHO else m
         else if c_my_want_state_is_will TELOPT_LINEMODE s then mode OR ucast (c_linemode s) else mode)"

definition setconnmode :: "bool \<Rightarrow> telc \<Rightarrow> telc" where
  "setconnmode force s = terminal_new_mode (getconnmode s OR (if force then MODE_FORCE else 0)) s"

definition setcommandmode :: "telc \<Rightarrow> telc" where
  "setcommandmode s = terminal_new_mode COMMAND_MODE s"

definition mode_local_chars :: "u32 \<Rightarrow> bool" where
  "mode_local_chars m \<longleftrightarrow> has m (MODE_EDIT OR MODE_TRAPSIG)"

section \<open>The environment\<close>

fun env_find_in :: "u8 list \<Rightarrow> enviro list \<Rightarrow> nat option" where
  "env_find_in v [] = None"
| "env_find_in v (e # es) = (if ev_name e = Some v then Some 0 else map_option Suc (env_find_in v es))"

definition env_put :: "u8 list \<Rightarrow> u8 list \<Rightarrow> bool \<Rightarrow> enviro list \<Rightarrow> enviro list" where
  "env_put v x ex es =
     (let e = \<lparr>ev_name = Some v, ev_value = x, ev_export = ex\<rparr> in
      case env_find_in v es of Some i \<Rightarrow> es[i := e] | None \<Rightarrow> es @ [e])"

definition env_define :: "u8 list \<Rightarrow> u8 list \<Rightarrow> enviro list \<Rightarrow> enviro list" where
  "env_define v x = env_put v x True"

definition env_undefine :: "u8 list \<Rightarrow> enviro list \<Rightarrow> enviro list" where
  "env_undefine v es =
     (case env_find_in v es of
        Some i \<Rightarrow> es[i := (es ! i)\<lparr>ev_name := None, ev_value := []\<rparr>] | None \<Rightarrow> es)"

definition env_setexport :: "bool \<Rightarrow> u8 list \<Rightarrow> enviro list \<Rightarrow> enviro list" where
  "env_setexport ex v es =
     (case env_find_in v es of Some i \<Rightarrow> es[i := (es ! i)\<lparr>ev_export := ex\<rparr>] | None \<Rightarrow> es)"

definition env_getvalue :: "u8 list \<Rightarrow> bool \<Rightarrow> enviro list \<Rightarrow> u8 list option" where
  "env_getvalue v exported_only es =
     (case env_find_in v es of
        Some i \<Rightarrow> if exported_only \<and> \<not> ev_export (es ! i) then None else Some (ev_value (es ! i))
      | None \<Rightarrow> None)"

text \<open>The names \<open>env_next\<close> gives one after the other.\<close>

definition env_names :: "bool \<Rightarrow> enviro list \<Rightarrow> u8 list list" where
  "env_names exported_only es =
     concat (map (\<lambda>e. case ev_name e of
                        Some n \<Rightarrow> if ev_export e \<or> \<not> exported_only then [n] else [] | None \<Rightarrow> []) es)"

text \<open>
  \<open>env_init\<close>, from the strings of the process: \<open>hostname\<close> and \<open>official\<close> are what \<open>gethostname\<close> and
  the name service say.
\<close>

definition env_copy :: "u8 list list \<Rightarrow> enviro list" where
  "env_copy strings =
     fold (\<lambda>s es. if (61 :: u8) \<in> set s
                  then env_put (takeWhile (\<lambda>c. c \<noteq> 61) s) (tl (dropWhile (\<lambda>c. c \<noteq> 61) s)) False es
                  else es) strings []"

definition env_fix_display :: "u8 list \<Rightarrow> (u8 list \<Rightarrow> u8 list option) \<Rightarrow> enviro list \<Rightarrow> enviro list" where
  "env_fix_display hostname official es0 =
     (case env_find_in (bytes ''DISPLAY'') es0 of
        None \<Rightarrow> es0
      | Some i \<Rightarrow>
          let es = es0[i := (es0 ! i)\<lparr>ev_export := True\<rparr>]; v = ev_value (es0 ! i) in
          if take 1 v \<noteq> bytes '':'' \<and> take 5 v \<noteq> bytes ''unix:'' then es
          else let cp2 = 58 # rev (takeWhile (\<lambda>c. c \<noteq> 58) (rev v));
                   maxlen = 256 - length cp2 - 1;
                   h1 = take maxlen hostname;
                   h2 = (if (46 :: u8) \<in> set h1 then h1
                         else case official h1 of Some n \<Rightarrow> take maxlen n | None \<Rightarrow> h1)
               in es[i := (es ! i)\<lparr>ev_name := Some (bytes ''DISPLAY''), ev_value := h2 @ cp2\<rparr>])"

definition env_init :: "u8 list \<Rightarrow> (u8 list \<Rightarrow> u8 list option) \<Rightarrow> u8 list list \<Rightarrow> enviro list" where
  "env_init hostname official strings =
     (let es1 = env_fix_display hostname official (env_copy strings);
          es2 = (case env_find_in (bytes ''USER'') es1 of
                   Some _ \<Rightarrow> es1
                 | None \<Rightarrow> (case env_find_in (bytes ''LOGNAME'') es1 of
                     Some i \<Rightarrow> env_put (bytes ''USER'') (ev_value (es1 ! i)) False es1 | None \<Rightarrow> es1))
      in env_setexport True (bytes ''PRINTER'') es2)"

end
