(* ===== verification/Telc_Options.thy ===== *)
theory Telc_Options
  imports Telc_State
begin

text \<open>
  The client's requests and its answers to the server's (\<^verbatim>\<open>send_do\<close> to \<^verbatim>\<open>dontoption\<close> of
  \<^verbatim>\<open>telnet.cc\<close>), and the special characters of \<open>LINEMODE\<close> they set up (\<^verbatim>\<open>slc_init\<close> to
  \<^verbatim>\<open>slc_update\<close>, \<^verbatim>\<open>tcval\<close> of \<^verbatim>\<open>sys_bsd.cc\<close>).
\<close>

section \<open>Requests\<close>

definition c_inc_do_dont :: "u8 \<Rightarrow> telc \<Rightarrow> telc" where
  "c_inc_do_dont opt s = s\<lparr>c_do_dont_resp := (c_do_dont_resp s)(opt := c_do_dont_resp s opt + 1)\<rparr>"

definition c_inc_will_wont :: "u8 \<Rightarrow> telc \<Rightarrow> telc" where
  "c_inc_will_wont opt s = s\<lparr>c_will_wont_resp := (c_will_wont_resp s)(opt := c_will_wont_resp s opt + 1)\<rparr>"

definition c_send_do :: "u8 \<Rightarrow> bool \<Rightarrow> telc \<Rightarrow> telc" where
  "c_send_do opt init s =
     (if init \<and> (c_do_dont_resp s opt = 0 \<and> c_my_state_is_do opt s \<or> c_my_want_state_is_do opt s)
      then s
      else netadd [IAC, DO, opt]
        (if init then c_inc_do_dont opt (c_set MY_WANT_STATE_DO True opt s) else s))"

definition c_send_dont :: "u8 \<Rightarrow> bool \<Rightarrow> telc \<Rightarrow> telc" where
  "c_send_dont opt init s =
     (if init \<and> (c_do_dont_resp s opt = 0 \<and> \<not> c_my_state_is_do opt s \<or> \<not> c_my_want_state_is_do opt s)
      then s
      else netadd [IAC, DONT, opt]
        (if init then c_inc_do_dont opt (c_set MY_WANT_STATE_DO False opt s) else s))"

definition c_send_will :: "u8 \<Rightarrow> bool \<Rightarrow> telc \<Rightarrow> telc" where
  "c_send_will opt init s =
     (if init \<and> (c_will_wont_resp s opt = 0 \<and> c_my_state_is_will opt s \<or> c_my_want_state_is_will opt s)
      then s
      else netadd [IAC, WILL, opt]
        (if init then c_inc_will_wont opt (c_set MY_WANT_STATE_WILL True opt s) else s))"

definition c_send_wont :: "u8 \<Rightarrow> bool \<Rightarrow> telc \<Rightarrow> telc" where
  "c_send_wont opt init s =
     (if init \<and> (c_will_wont_resp s opt = 0 \<and> \<not> c_my_state_is_will opt s \<or> \<not> c_my_want_state_is_will opt s)
      then s
      else netadd [IAC, WONT, opt]
        (if init then c_inc_will_wont opt (c_set MY_WANT_STATE_WILL False opt s) else s))"

definition tel_enter_binary :: "bool \<Rightarrow> bool \<Rightarrow> telc \<Rightarrow> telc" where
  "tel_enter_binary inb outb s =
     (let s1 = (if inb then c_send_do TELOPT_BINARY True s else s)
      in if outb then c_send_will TELOPT_BINARY True s1 else s1)"

definition tel_leave_binary :: "bool \<Rightarrow> bool \<Rightarrow> telc \<Rightarrow> telc" where
  "tel_leave_binary inb outb s =
     (let s1 = (if inb then c_send_dont TELOPT_BINARY True s else s)
      in if outb then c_send_wont TELOPT_BINARY True s1 else s1)"

section \<open>Special characters\<close>

text \<open>
  Where the character of a function is kept: the second alternate end of line has the place of the
  first, and the driver has none for AYT.
\<close>

definition tcval :: "nat \<Rightarrow> cc option" where
  "tcval f =
     (if f = 3 then Some VINTR else if f = 7 then Some VQUIT else if f = 8 then Some VEOF
      else if f = 10 then Some VERASE else if f = 11 then Some VKILL
      else if f = 15 then Some VSTART else if f = 16 then Some VSTOP
      else if f = 17 then Some VEOL else if f = 18 then Some VEOL
      else if f = 4 then Some VDISCARD else if f = 9 then Some VSUSP
      else if f = 12 then Some VWERASE else if f = 13 then Some VREPRINT
      else if f = 14 then Some VLNEXT else None)"

definition slc_start_reply :: "u8 list" where
  "slc_start_reply = [IAC, SB, TELOPT_LINEMODE, LM_SLC]"

definition iac_doubled :: "u8 \<Rightarrow> u8 list" where
  "iac_doubled c = (if c = IAC then [c, IAC] else [c])"

definition slc_add_reply :: "u8 \<Rightarrow> u8 \<Rightarrow> u8 \<Rightarrow> u8 list \<Rightarrow> u8 list" where
  "slc_add_reply f fl v r = r @ iac_doubled f @ iac_doubled fl @ iac_doubled v"

text \<open>The reply is built in an array of 128 bytes, which nothing checks.\<close>

definition SLC_REPLY :: nat where "SLC_REPLY = 128"

definition slc_end_reply :: "u8 list \<Rightarrow> telc \<Rightarrow> telc" where
  "slc_end_reply r s =
     (let r1 = r @ [IAC, SE]; s1 = (if SLC_REPLY < length r1 then s\<lparr>c_overrun := True\<rparr> else s)
      in if length r1 \<le> 6 then s1 else netadd r1 s1)"

definition set_spc :: "nat \<Rightarrow> spc \<Rightarrow> telc \<Rightarrow> telc" where
  "set_spc f x s = s\<lparr>c_spc := (c_spc s)(f := x)\<rparr>"

definition initfunc :: "nat \<times> u8 \<Rightarrow> telc \<Rightarrow> telc" where
  "initfunc = (\<lambda>(f, fl) s.
     set_spc f
       (case tcval f of
          Some k \<Rightarrow> (c_spc s f)\<lparr>spc_valp := Some k, spc_val := c_cc s k, spc_mylevel := SLC_VARIABLE OR fl\<rparr>
        | None \<Rightarrow> (c_spc s f)\<lparr>spc_valp := None, spc_val := 0, spc_mylevel := SLC_DEFAULT\<rparr>) s)"

definition slc_funcs :: "(nat \<times> u8) list" where
  "slc_funcs =
     [(1, 0), (4, 0), (5, 0), (7, SLC_FLUSHIN OR SLC_FLUSHOUT), (8, 0), (9, SLC_FLUSHIN), (10, 0),
      (11, 0), (15, 0), (16, 0), (17, 0), (18, 0), (3, SLC_FLUSHIN OR SLC_FLUSHOUT)]"

text \<open>One function of \<open>slc_export\<close>, with the reply so far.\<close>

definition slc_export1 :: "nat \<Rightarrow> u8 list \<times> telc \<Rightarrow> u8 list \<times> telc" where
  "slc_export1 f = (\<lambda>(r, s).
     let x = c_spc s f in
     if spc_mylevel x = SLC_NOSUPPORT then (r, s)
     else let fl = (if spc_val x = POSIX_VDISABLE then SLC_NOSUPPORT else spc_mylevel x);
              v = (case spc_valp x of Some k \<Rightarrow> c_cc s k | None \<Rightarrow> spc_val x)
          in (slc_add_reply (of_nat f) fl v r, set_spc f (x\<lparr>spc_flags := fl, spc_val := v\<rparr>) s))"

definition slc_update1 :: "nat \<Rightarrow> bool \<times> telc \<Rightarrow> bool \<times> telc" where
  "slc_update1 f = (\<lambda>(need, s).
     let x = c_spc s f in
     if spc_flags x AND SLC_ACK = 0 then (need, s)
     else let s1 = set_spc f (x\<lparr>spc_flags := spc_flags x AND NOT SLC_ACK\<rparr>) s
          in case spc_valp x of
               Some k \<Rightarrow> if c_cc s1 k \<noteq> spc_val x
                         then (True, s1\<lparr>c_cc := (c_cc s1)(k := spc_val x)\<rparr>) else (need, s1)
             | None \<Rightarrow> (need, s1))"

definition slc_update :: "telc \<Rightarrow> bool \<times> telc" where
  "slc_update s = fold slc_update1 [1..<NSLC + 1] (False, s)"

definition terminal_default_chars :: "telc_env \<Rightarrow> telc \<Rightarrow> telc" where
  "terminal_default_chars E s = s\<lparr>c_cc := e_old_cc E\<rparr>"

definition slc_export :: "telc_env \<Rightarrow> telc \<Rightarrow> telc" where
  "slc_export E s =
     (let (r, s1) = fold slc_export1 [1..<NSLC + 1] (slc_start_reply, terminal_default_chars E s)
      in setconnmode True (snd (slc_update (slc_end_reply r s1))))"

definition slc_import :: "telc_env \<Rightarrow> bool \<Rightarrow> telc \<Rightarrow> telc" where
  "slc_import E def s =
     netprintf E [IAC, SB, TELOPT_LINEMODE, LM_SLC, 0, if def then SLC_DEFAULT else SLC_VARIABLE, 0, IAC, SE] s"

definition slc_init :: "telc_env \<Rightarrow> telc \<Rightarrow> telc" where
  "slc_init E s =
     (let s1 = s\<lparr>c_localchars := True,
                 c_spc := (\<lambda>f. if f \<le> NSLC then \<lparr>spc_val = 0, spc_valp = None, spc_flags = SLC_NOSUPPORT,
                                                spc_mylevel = SLC_NOSUPPORT\<rparr> else c_spc s f)\<rparr>;
          s2 = fold initfunc slc_funcs s1
      in if c_slc_mode s2 = SLC_EXPORT then slc_export E s2 else slc_import E True s2)"

definition slc_mode_export :: "telc_env \<Rightarrow> telc \<Rightarrow> telc" where
  "slc_mode_export E s0 =
     (let s = s0\<lparr>c_slc_mode := SLC_EXPORT\<rparr>
      in if c_my_state_is_will TELOPT_LINEMODE s then slc_export E s else s)"

definition slc_mode_import :: "telc_env \<Rightarrow> bool \<Rightarrow> telc \<Rightarrow> telc" where
  "slc_mode_import E def s0 =
     (let s = s0\<lparr>c_slc_mode := (if def then SLC_IMPORT else SLC_RVALUE)\<rparr>
      in if c_my_state_is_will TELOPT_LINEMODE s then slc_import E def s else s)"

text \<open>\<open>slc_check\<close>, after the user has changed characters.\<close>

definition slc_check1 :: "nat \<Rightarrow> u8 list \<times> telc \<Rightarrow> u8 list \<times> telc" where
  "slc_check1 f = (\<lambda>(r, s).
     let x = c_spc s f in
     case spc_valp x of
       Some k \<Rightarrow> if spc_val x = c_cc s k then (r, s)
         else let v = c_cc s k; fl = (if v = POSIX_VDISABLE then SLC_NOSUPPORT else spc_mylevel x)
              in (slc_add_reply (of_nat f) fl v r, set_spc f (x\<lparr>spc_val := v, spc_flags := fl\<rparr>) s)
     | None \<Rightarrow> (r, s))"

definition slc_check :: "telc \<Rightarrow> telc" where
  "slc_check s =
     (let (r, s1) = fold slc_check1 [1..<NSLC + 1] (slc_start_reply, s)
      in setconnmode True (slc_end_reply r s1))"

text \<open>One triple of the server's suboption: the function, its flags and the character.\<close>

definition slc_triple :: "u8 \<Rightarrow> u8 \<Rightarrow> u8 \<Rightarrow> u8 list \<times> telc \<Rightarrow> u8 list \<times> telc" where
  "slc_triple f flags v = (\<lambda>(r, s).
     if f = 0 then (r, s)
     else if of_nat NSLC < f
     then (if flags AND SLC_LEVELBITS \<noteq> SLC_NOSUPPORT then slc_add_reply f SLC_NOSUPPORT 0 r else r, s)
     else let x = c_spc s (unat f); level = flags AND (SLC_LEVELBITS OR SLC_ACK) in
       if v = spc_val x \<and> level AND SLC_LEVELBITS = spc_flags x AND SLC_LEVELBITS then (r, s)
       else let fl = (if level = SLC_DEFAULT OR SLC_ACK then flags AND NOT SLC_ACK else flags) in
         if level = (spc_flags x AND SLC_LEVELBITS) OR SLC_ACK
         then (r, set_spc (unat f) (x\<lparr>spc_val := v, spc_flags := fl\<rparr>) s)
         else let lv = level AND NOT SLC_ACK;
                  x1 = (if lv \<le> spc_mylevel x AND SLC_LEVELBITS
                        then x\<lparr>spc_flags := fl OR SLC_ACK, spc_val := v\<rparr> else x);
                  x2 = (if lv = SLC_DEFAULT
                        then x1\<lparr>spc_flags := (if spc_mylevel x1 AND SLC_LEVELBITS \<noteq> SLC_DEFAULT
                                              then spc_mylevel x1 else SLC_NOSUPPORT)\<rparr>
                        else x1)
              in (slc_add_reply f (spc_flags x2) (spc_val x2) r, set_spc (unat f) x2 s))"

fun slc_loop :: "u8 list \<Rightarrow> u8 list \<times> telc \<Rightarrow> u8 list \<times> telc" where
  "slc_loop (f # flags # v # cp) rs = slc_loop cp (slc_triple f flags v rs)"
| "slc_loop _ rs = rs"

definition slc :: "u8 list \<Rightarrow> telc \<Rightarrow> telc" where
  "slc cp s =
     (let (r, s1) = slc_loop cp (slc_start_reply, s);
          (need, s2) = slc_update (slc_end_reply r s1)
      in if need then setconnmode True s2 else s2)"

section \<open>Answers\<close>

definition c_his_answer :: "bool \<Rightarrow> u8 \<Rightarrow> telc \<Rightarrow> telc" where
  "c_his_answer on opt s =
     s\<lparr>c_do_dont_resp := (c_do_dont_resp s)(opt :=
         answered (c_my_state_is_do opt s = on) (c_do_dont_resp s opt))\<rparr>"

definition c_my_answer :: "bool \<Rightarrow> u8 \<Rightarrow> telc \<Rightarrow> telc" where
  "c_my_answer on opt s =
     s\<lparr>c_will_wont_resp := (c_will_wont_resp s)(opt :=
         answered (c_my_state_is_will opt s = on) (c_will_wont_resp s opt))\<rparr>"

definition c_willoption :: "u8 \<Rightarrow> telc \<Rightarrow> telc" where
  "c_willoption opt s0 =
     (let s = c_his_answer True opt s0 in
      if c_do_dont_resp s opt = 0 \<and> \<not> c_my_want_state_is_do opt s then
        (if opt = TELOPT_TM
         then c_set MY_STATE_DO False opt (c_set MY_WANT_STATE_DO False opt (s\<lparr>c_flushout := False\<rparr>))
         else let s1 = (if opt \<in> {TELOPT_ECHO, TELOPT_BINARY, TELOPT_SGA} then settimer_modenegotiated s else s);
                  s2 = (if opt \<in> {TELOPT_ECHO, TELOPT_BINARY, TELOPT_SGA, TELOPT_STATUS}
                        then setconnmode False (c_send_do opt False (c_set MY_WANT_STATE_DO True opt s1))
                        else c_send_dont opt False (c_inc_do_dont opt s1))
              in c_set MY_STATE_DO True opt s2)
      else c_set MY_STATE_DO True opt s)"

definition c_wontoption :: "u8 \<Rightarrow> telc \<Rightarrow> telc" where
  "c_wontoption opt s0 =
     (let s = c_his_answer False opt s0 in
      if c_do_dont_resp s opt = 0 \<and> c_my_want_state_is_do opt s then
        (if opt = TELOPT_TM
         then c_set MY_STATE_DO False opt (c_set MY_WANT_STATE_DO False opt (s\<lparr>c_flushout := False\<rparr>))
         else let s1 = (if opt = TELOPT_ECHO \<or> opt = TELOPT_SGA \<and> c_kludgelinemode s
                        then settimer_modenegotiated s else s);
                  s2 = c_set MY_WANT_STATE_DO False opt s1;
                  s3 = (if c_my_state_is_do opt s2 then c_send_dont opt False s2 else s2)
              in c_set MY_STATE_DO False opt (setconnmode False s3))
      else c_set MY_STATE_DO False opt
        (if opt = TELOPT_TM then c_set MY_WANT_STATE_DO False opt (s\<lparr>c_flushout := False\<rparr>) else s))"

text \<open>The options the client agrees to perform; it needs a display for \<open>XDISPLOC\<close>.\<close>

definition c_performs :: "u8 \<Rightarrow> telc \<Rightarrow> bool" where
  "c_performs opt s \<longleftrightarrow>
     opt \<in> {TELOPT_BINARY, TELOPT_NAWS, TELOPT_TSPEED, TELOPT_LFLOW, TELOPT_TTYPE, TELOPT_SGA,
            TELOPT_ENVIRON} \<or>
     opt = TELOPT_XDISPLOC \<and> env_getvalue (bytes ''DISPLAY'') False (c_vars s) \<noteq> None"

definition c_dooption :: "telc_env \<Rightarrow> u8 \<Rightarrow> telc \<Rightarrow> telc" where
  "c_dooption E opt s0 =
     (let s = c_my_answer True opt s0 in
      if c_will_wont_resp s opt = 0 then
        (if \<not> c_my_want_state_is_will opt s then
          (if opt = TELOPT_TM
           then c_set MY_STATE_WILL False opt (c_set MY_WANT_STATE_WILL False opt (c_send_will opt False s))
           else if opt = TELOPT_LINEMODE
           then slc_init E (c_set MY_STATE_WILL True opt (c_send_will opt False
                  (c_set MY_WANT_STATE_WILL True opt (c_send_do TELOPT_SGA True (s\<lparr>c_kludgelinemode := False\<rparr>)))))
           else let s2 = (if c_performs opt s
                          then setconnmode False (c_send_will opt False (c_set MY_WANT_STATE_WILL True opt s))
                          else c_send_wont opt False (c_inc_will_wont opt s))
                in c_set MY_STATE_WILL True opt s2)
         else if opt = TELOPT_LINEMODE
         then c_send_do TELOPT_SGA False (slc_init E (c_set MY_STATE_WILL True opt
                (c_send_do TELOPT_SGA True (s\<lparr>c_kludgelinemode := False\<rparr>))))
         else c_set MY_STATE_WILL True opt s)
      else c_set MY_STATE_WILL True opt s)"

definition c_dontoption :: "u8 \<Rightarrow> telc \<Rightarrow> telc" where
  "c_dontoption opt s0 =
     (let s = c_my_answer False opt s0 in
      if c_will_wont_resp s opt = 0 \<and> c_my_want_state_is_will opt s then
        (let s1 = (if opt = TELOPT_LINEMODE then s\<lparr>c_linemode := 0\<rparr> else s);
             s2 = c_set MY_WANT_STATE_WILL False opt s1;
             s3 = (if c_my_state_is_will opt s2 then c_send_wont opt False s2 else s2)
         in c_set MY_STATE_WILL False opt (setconnmode False s3))
      else c_set MY_STATE_WILL False opt s)"

end
