(* ===== verification/Telc_Receive.thy ===== *)
theory Telc_Receive
  imports Telc_Options
begin

text \<open>
  The client's input from the server (\<^verbatim>\<open>telrcv\<close>, \<^verbatim>\<open>suboption\<close> and what they call in
  \<^verbatim>\<open>telnet.cc\<close>): the names of the terminal, the environment, the modes of \<open>LINEMODE\<close>, and the
  state machine that sorts the bytes.
\<close>

section \<open>Names of the terminal\<close>

definition u8_upper :: "u8 \<Rightarrow> u8" where
  "u8_upper c = (if 97 \<le> c \<and> c \<le> 122 then c - 32 else c)"

definition upcase :: "u8 list \<Rightarrow> u8 list" where
  "upcase = map u8_upper"

text \<open>\<open>strtok\<close>: the parts that are not empty; the first one is told apart if the text begins with it.\<close>

fun bar_split :: "u8 list \<Rightarrow> u8 list list" where
  "bar_split [] = [[]]"
| "bar_split (c # cs) =
     (if c = 124 then [] # bar_split cs
      else case bar_split cs of [] \<Rightarrow> [[c]] | w # ws \<Rightarrow> (c # w) # ws)"

definition term_tokens :: "u8 list \<Rightarrow> (bool \<times> u8 list) list" where
  "term_tokens buf =
     (case bar_split buf of
        [] \<Rightarrow> []
      | w # ws \<Rightarrow> (if w = [] then [] else [(True, w)]) @ map (Pair False) (filter (\<lambda>x. x \<noteq> []) ws))"

definition term_good :: "u8 list \<Rightarrow> bool" where
  "term_good w \<longleftrightarrow> length w \<le> 40 \<and> (\<forall>c\<in>set w. c < 128 \<and> c \<noteq> 32)"

text \<open>Upper case throughout, so the comparison without case is an equality.\<close>

fun term_unique :: "(bool \<times> u8 list) list \<Rightarrow> (bool \<times> u8 list) list \<Rightarrow> (bool \<times> u8 list) list" where
  "term_unique fill [] = fill"
| "term_unique fill ((b, w) # ws) =
     (if term_good w \<and> upcase w \<notin> set (map snd fill) then term_unique (fill @ [(b, upcase w)]) ws
      else term_unique fill ws)"

definition list_swap :: "nat \<Rightarrow> nat \<Rightarrow> 'a list \<Rightarrow> 'a list" where
  "list_swap i j xs = xs[i := xs ! j, j := xs ! i]"

definition term_to_front :: "u8 list \<Rightarrow> (bool \<times> u8 list) list \<Rightarrow> (bool \<times> u8 list) list" where
  "term_to_front name fill =
     fold (\<lambda>j f. if upcase name = snd (f ! j) then list_swap j 0 f else f) [1..<length fill] fill"

definition term_v6_last :: "(bool \<times> u8 list) list \<Rightarrow> (bool \<times> u8 list) list" where
  "term_v6_last fill =
     fold (\<lambda>k f. if length (snd (f ! k)) = 2 \<and> fst (f ! k) then list_swap (length f - 1) k f else f)
       [1..<length fill - 1] fill"

definition mklist :: "u8 list \<Rightarrow> u8 list \<Rightarrow> u8 list list" where
  "mklist buf name =
     (let toks = term_tokens (takeWhile (\<lambda>c. c \<noteq> 58) buf);
          f1 = map snd (term_v6_last (term_to_front name (term_unique [] toks)));
          f2 = (if f1 = [] then [if length name < 40 then name else bytes ''UNKNOWN''] else f1)
      in f2 @ [last f2])"

text \<open>\<open>gettermname\<close>: with \<open>resettermname\<close> the list is made again from \<open>TERM\<close>.\<close>

definition gettermname :: "telc_env \<Rightarrow> telc \<Rightarrow> u8 list \<times> telc" where
  "gettermname E s0 =
     (let s = (if c_resettermname s0
               then (let tname = env_getvalue (bytes ''TERM'') False (c_vars s0);
                         entry = (case tname of Some n \<Rightarrow> e_termcap E n | None \<Rightarrow> None);
                         types = (case entry of
                                    Some buf \<Rightarrow> mklist (take 1023 buf) (the tname)
                                  | None \<Rightarrow> mklist [] (bytes ''UNKNOWN''))
                     in s0\<lparr>c_resettermname := False, c_termtypes := types, c_next_type := 0\<rparr>)
               else s0);
          i = (if c_next_type s = length (c_termtypes s) then 0 else c_next_type s)
      in (c_termtypes s ! i, s\<lparr>c_next_type := i + 1\<rparr>))"

section \<open>Speeds and window\<close>

text \<open>The codes of the speeds in the system's header, in the order of the table.\<close>

definition termspeeds :: "(int \<times> nat) list" where
  "termspeeds =
     [(0, 0), (50, 1), (75, 2), (110, 3), (134, 4), (150, 5), (200, 6), (300, 7), (600, 8), (1200, 9),
      (1800, 10), (2400, 11), (4800, 12), (9600, 13), (19200, 14), (38400, 15), (57600, 4097),
      (115200, 4098)]"

definition speed_of :: "nat \<Rightarrow> int" where
  "speed_of code = (case find (\<lambda>(sp, v). code \<le> v) termspeeds of Some (sp, _) \<Rightarrow> sp | None \<Rightarrow> -1)"

definition terminal_speeds :: "telc_env \<Rightarrow> int \<times> int" where
  "terminal_speeds E =
     (let inp = (if e_ispeed E = 0 then e_ospeed E else e_ispeed E) in (speed_of inp, speed_of (e_ospeed E)))"

definition dec_bytes :: "int \<Rightarrow> u8 list" where
  "dec_bytes i = (if i < 0 then 45 # bytes (dec (nat (- i))) else bytes (dec (nat i)))"

definition putshort :: "u16 \<Rightarrow> u8 list" where
  "putshort x = iac_doubled (ucast (drop_bit 8 x)) @ iac_doubled (ucast x)"

definition sendnaws :: "telc_env \<Rightarrow> telc \<Rightarrow> telc" where
  "sendnaws E s =
     (if \<not> c_my_state_is_will TELOPT_NAWS s then s
      else case e_winsize E of
          None \<Rightarrow> s
        | Some (rows, cols) \<Rightarrow>
            netadd ([IAC, SB, TELOPT_NAWS] @ putshort cols @ putshort rows @ [IAC, SE]) s)"

section \<open>The environment\<close>

text \<open>The reply and the size of the memory it is built in.\<close>

record env_reply =
  er_bytes :: "u8 list"
  er_end :: nat
  er_overrun :: bool

definition OPT_REPLY_SIZE :: nat where "OPT_REPLY_SIZE = 256"

definition env_opt_start :: "u8 \<Rightarrow> env_reply" where
  "env_opt_start q =
     \<lparr>er_bytes = [IAC, SB, TELOPT_ENVIRON, q], er_end = OPT_REPLY_SIZE, er_overrun = False\<rparr>"

definition env_quote :: "u8 list \<Rightarrow> u8 list" where
  "env_quote xs =
     concat (map (\<lambda>c. if c = IAC then [IAC, c]
                      else if c \<in> {ENV_VALUE, ENV_VAR, ENV_ESC} then [ENV_ESC, c] else [c]) xs)"

text \<open>
  One variable: the memory grows by 256 bytes, once, if the name and the value unquoted do not fit.
\<close>

definition env_opt_put :: "enviro list \<Rightarrow> u8 list \<Rightarrow> env_reply \<Rightarrow> env_reply" where
  "env_opt_put vars ep r =
     (let vp = env_getvalue ep True vars;
          vlen = (case vp of Some v \<Rightarrow> length v | None \<Rightarrow> 0);
          r1 = (if er_end r < length (er_bytes r) + vlen + length ep + 6
                then r\<lparr>er_end := er_end r + OPT_REPLY_SIZE\<rparr> else r);
          bs = er_bytes r1 @ [ENV_VAR] @ env_quote ep @
               (case vp of Some v \<Rightarrow> ENV_VALUE # env_quote v | None \<Rightarrow> [])
      in r1\<lparr>er_bytes := bs, er_overrun := er_overrun r1 \<or> er_end r1 < length bs\<rparr>)"

text \<open>
  \<open>env_opt_add\<close> for the names of a list; the empty name stands for all exported variables, of which
  it may be one.
\<close>

partial_function (option) env_opt_adds :: "enviro list \<Rightarrow> u8 list list \<Rightarrow> env_reply \<Rightarrow> env_reply option" where
  "env_opt_adds vars ns r =
     (case ns of
        [] \<Rightarrow> Some r
      | n # ns' \<Rightarrow> if n = [] then env_opt_adds vars (env_names True vars @ ns') r
                    else env_opt_adds vars ns' (env_opt_put vars n r))"

definition env_opt_end :: "bool \<Rightarrow> env_reply option \<Rightarrow> telc \<Rightarrow> telc" where
  "env_opt_end emptyok ro s =
     (case ro of
        None \<Rightarrow> s\<lparr>c_overrun := True\<rparr>
      | Some r \<Rightarrow>
          let bs = er_bytes r @ [IAC, SE]; sent = (emptyok \<or> 6 < length bs);
              s1 = (if er_overrun r \<or> sent \<and> er_end r < length bs then s\<lparr>c_overrun := True\<rparr> else s)
          in if sent then netadd bs s1 else s1)"

text \<open>
  The request in the suboption buffer, from \<open>p\<close> on: \<open>ep\<close> and \<open>epc\<close> are where a name began and where
  its next byte goes. A name is added after each byte of it, not after its end: the brace that
  closes the \<open>switch\<close> comes too late. The result is the names added.
\<close>

definition name_at :: "(nat \<Rightarrow> u8) \<Rightarrow> nat \<Rightarrow> u8 list" where
  "name_at b p = takeWhile (\<lambda>c. c \<noteq> 0) (map b [p..<258])"

function env_opt_names ::
  "(nat \<Rightarrow> u8) \<Rightarrow> nat \<Rightarrow> nat \<Rightarrow> nat \<Rightarrow> (nat \<times> nat) option \<Rightarrow> u8 list list \<Rightarrow> u8 list list" where
  "env_opt_names b p len i ep ns =
     (if len \<le> i then ns
      else let c = b (p + i);
               (b1, i1, ep1, ns1) =
                 (if c = ENV_VALUE
                  then (case ep of
                          Some (q, e) \<Rightarrow> (b(e := 0), i, Some (p + i + 1, p + i + 1), ns @ [name_at (b(e := 0)) q])
                        | None \<Rightarrow> (b, i, Some (p + i + 1, p + i + 1), ns))
                  else let j = (if c = ENV_ESC then i + 1 else i)
                       in (case ep of Some (q, e) \<Rightarrow> (b(e := b (p + j)), j, Some (q, e + 1), ns)
                           | None \<Rightarrow> (b, j, None, ns)));
               (b2, ns2) = (case ep1 of
                              Some (q, e) \<Rightarrow> (b1(e := 0), ns1 @ [name_at (b1(e := 0)) q]) | None \<Rightarrow> (b1, ns1))
           in env_opt_names b2 p len (i1 + 1) ep1 ns2)"
  by pat_completeness auto
termination
  by (relation "measure (\<lambda>(b, p, len, i, ep, ns). len - i)")
    (auto simp: Let_def split: if_splits option.splits prod.splits)

declare env_opt_names.simps [simp del]

definition env_opt :: "nat \<Rightarrow> nat \<Rightarrow> telc \<Rightarrow> telc" where
  "env_opt p len s =
     (if c_subbuffer s p = TELQUAL_SEND
      then env_opt_end True
        (env_opt_adds (c_vars s)
           (if len = 1 then [[]] else env_opt_names (c_subbuffer s) p len 1 None [])
           (env_opt_start TELQUAL_IS)) s
      else s)"

text \<open>The command \<open>environ send\<close>.\<close>

definition env_send :: "u8 list \<Rightarrow> telc \<Rightarrow> telc" where
  "env_send v s =
     (if \<not> c_my_state_is_will TELOPT_ENVIRON s \<or> env_find_in v (c_vars s) = None then s
      else env_opt_end False (env_opt_adds (c_vars s) [v] (env_opt_start TELQUAL_INFO)) s)"

section \<open>Linemode\<close>

definition lm_will :: "telc_env \<Rightarrow> u8 list \<Rightarrow> telc \<Rightarrow> telc" where
  "lm_will E cmd s =
     (case cmd of [] \<Rightarrow> s | c # _ \<Rightarrow> netprintf E [IAC, SB, TELOPT_LINEMODE, DONT, c, IAC, SE] s)"

definition lm_do :: "telc_env \<Rightarrow> u8 list \<Rightarrow> telc \<Rightarrow> telc" where
  "lm_do E cmd s =
     (case cmd of [] \<Rightarrow> s | c # _ \<Rightarrow> netprintf E [IAC, SB, TELOPT_LINEMODE, WONT, c, IAC, SE] s)"

definition lm_mode :: "telc_env \<Rightarrow> u8 list \<Rightarrow> bool \<Rightarrow> telc \<Rightarrow> telc" where
  "lm_mode E cmd init s =
     (case cmd of
        [c] \<Rightarrow>
          if c_linemode s AND MODE_MASK AND NOT MODE_ACK = c \<or> c AND MODE_ACK \<noteq> 0 then s
          else let lm = c AND (MODE_MASK AND NOT MODE_ACK); k = (if init then lm else lm OR MODE_ACK)
               in setconnmode False
                    (netprintf E [IAC, SB, TELOPT_LINEMODE, LM_MODE, k, IAC, SE] (s\<lparr>c_linemode := lm\<rparr>))
      | _ \<Rightarrow> s)"

section \<open>Suboptions\<close>

definition C_SUBBUFSIZE :: nat where "C_SUBBUFSIZE = 256"

definition c_sb_accum :: "u8 \<Rightarrow> telc \<Rightarrow> telc" where
  "c_sb_accum c s =
     (if c_subpointer s < C_SUBBUFSIZE
      then s\<lparr>c_subbuffer := (c_subbuffer s)(c_subpointer s := c), c_subpointer := c_subpointer s + 1\<rparr>
      else s)"

definition c_sb_get :: "telc \<Rightarrow> u8 \<times> telc" where
  "c_sb_get s = (c_subbuffer s (c_subpointer s), s\<lparr>c_subpointer := c_subpointer s + 1\<rparr>)"

definition c_sb_eof :: "telc \<Rightarrow> bool" where
  "c_sb_eof s \<longleftrightarrow> c_subend s \<le> c_subpointer s"

definition c_sb_rest :: "telc \<Rightarrow> u8 list" where
  "c_sb_rest s = map (c_subbuffer s) [c_subpointer s..<c_subend s]"

definition c_sub_ttype :: "telc_env \<Rightarrow> telc \<Rightarrow> telc" where
  "c_sub_ttype E s =
     (if \<not> c_my_want_state_is_will TELOPT_TTYPE s \<or> c_sb_eof s then s
      else let (q, s1) = c_sb_get s in
        if q \<noteq> TELQUAL_SEND then s1
        else let (name, s2) = gettermname E s1
             in netprintf E ([IAC, SB, TELOPT_TTYPE, TELQUAL_IS] @ name @ [IAC, SE]) s2)"

definition c_sub_tspeed :: "telc_env \<Rightarrow> telc \<Rightarrow> telc" where
  "c_sub_tspeed E s =
     (if \<not> c_my_want_state_is_will TELOPT_TSPEED s \<or> c_sb_eof s then s
      else let (q, s1) = c_sb_get s in
        if q \<noteq> TELQUAL_SEND then s1
        else let (i, ou) = terminal_speeds E
             in netprintf E ([IAC, SB, TELOPT_TSPEED, TELQUAL_IS] @ dec_bytes ou @ [44] @ dec_bytes i @ [IAC, SE]) s1)"

definition c_sub_lflow :: "telc \<Rightarrow> telc" where
  "c_sub_lflow s =
     (if \<not> c_my_want_state_is_will TELOPT_LFLOW s \<or> c_sb_eof s then s
      else let (q, s1) = c_sb_get s in
        if q = 1 \<or> q = 0 then setconnmode False (setcommandmode (s1\<lparr>c_localflow := (q = 1)\<rparr>)) else s1)"

definition c_sub_linemode :: "telc_env \<Rightarrow> telc \<Rightarrow> telc" where
  "c_sub_linemode E s =
     (if \<not> c_my_want_state_is_will TELOPT_LINEMODE s \<or> c_sb_eof s then s
      else let (q, s1) = c_sb_get s; cmd = c_sb_rest s1 in
        if q = WILL then lm_will E cmd s1
        else if q = DO then lm_do E cmd s1
        else if q = LM_SLC then slc cmd s1
        else if q = LM_MODE then lm_mode E cmd False s1
        else s1)"

definition c_sub_environ :: "telc \<Rightarrow> telc" where
  "c_sub_environ s =
     (if c_sb_eof s then s
      else let q = c_subbuffer s (c_subpointer s) in
        if q = TELQUAL_IS \<or> q = TELQUAL_INFO then s
        else if q = TELQUAL_SEND \<and> c_my_want_state_is_will TELOPT_ENVIRON s
        then env_opt (c_subpointer s) (c_subend s - c_subpointer s) s
        else s)"

definition c_sub_xdisploc :: "telc_env \<Rightarrow> telc \<Rightarrow> telc" where
  "c_sub_xdisploc E s =
     (if \<not> c_my_want_state_is_will TELOPT_XDISPLOC s \<or> c_sb_eof s then s
      else let (q, s1) = c_sb_get s in
        if q \<noteq> TELQUAL_SEND then s1
        else case env_getvalue (bytes ''DISPLAY'') False (c_vars s1) of
            None \<Rightarrow> c_send_wont TELOPT_XDISPLOC True s1
          | Some dp \<Rightarrow> netprintf E ([IAC, SB, TELOPT_XDISPLOC, TELQUAL_IS] @ dp @ [IAC, SE]) s1)"

definition c_suboption :: "telc_env \<Rightarrow> telc \<Rightarrow> telc" where
  "c_suboption E s0 =
     (let (c, s) = c_sb_get s0 in
      if c = TELOPT_TTYPE then c_sub_ttype E s
      else if c = TELOPT_TSPEED then c_sub_tspeed E s
      else if c = TELOPT_LFLOW then c_sub_lflow s
      else if c = TELOPT_LINEMODE then c_sub_linemode E s
      else if c = TELOPT_ENVIRON then c_sub_environ s
      else if c = TELOPT_XDISPLOC then c_sub_xdisploc E s
      else s)"

section \<open>The receiver\<close>

definition c_rcv_iac :: "telc_env \<Rightarrow> u8 \<Rightarrow> telc \<Rightarrow> telc" where
  "c_rcv_iac E c s =
     (if c = WILL then s\<lparr>c_ts := TS_WILL\<rparr>
      else if c = WONT then s\<lparr>c_ts := TS_WONT\<rparr>
      else if c = DO then s\<lparr>c_ts := TS_DO\<rparr>
      else if c = DONT then s\<lparr>c_ts := TS_DONT\<rparr>
      else if c = SB then s\<lparr>c_ts := TS_SB, c_subpointer := 0\<rparr>
      else let s1 = (if c = DM then settimer_gotDM ((tty_drop (s\<lparr>c_synching := True\<rparr>))\<lparr>c_synching := e_oob E\<rparr>)
                     else if c = IAC then tty_add IAC s else s)
           in s1\<lparr>c_ts := TS_DATA\<rparr>)"

text \<open>
  A byte of data, with what comes after it: a carriage return looks at the next byte if there is
  one. What is left of the input, and the state.
\<close>

definition c_rcv_data :: "u8 \<Rightarrow> u8 list \<Rightarrow> telc \<Rightarrow> u8 list \<times> telc" where
  "c_rcv_data c cs s =
     (if c = IAC then (cs, s\<lparr>c_ts := TS_IAC\<rparr>)
      else if c = 13 \<and> \<not> c_my_want_state_is_do TELOPT_BINARY s
      then let cr = (\<lambda>s. let s1 = tty_add 13 s in if c_crmod s1 then tty_add 10 s1 else s1) in
        (case cs of
           [] \<Rightarrow> ([], cr (s\<lparr>c_ts := TS_CR\<rparr>))
         | d # ds \<Rightarrow>
             if d = 0 then (ds, tty_add 13 s)
             else if \<not> c_my_want_state_is_do TELOPT_ECHO s \<and> d = 10 then (ds, tty_add 10 s)
             else (cs, cr s))
      else (cs, tty_add c s))"

definition c_sub_end :: "telc_env \<Rightarrow> u8 \<Rightarrow> telc \<Rightarrow> telc" where
  "c_sub_end E c s =
     (let s1 = c_sb_accum c (c_sb_accum IAC s); p = c_subpointer s1 - 2
      in c_suboption E (s1\<lparr>c_subend := p, c_subpointer := 0\<rparr>))"

definition c_rcv_byte :: "telc_env \<Rightarrow> u8 \<Rightarrow> u8 list \<Rightarrow> telc \<Rightarrow> u8 list \<times> telc" where
  "c_rcv_byte E c cs s =
     (case c_ts s of
        TS_CR \<Rightarrow>
          (let s1 = s\<lparr>c_ts := TS_DATA\<rparr> in
           if c = 0 then (cs, s1)
           else if c = 10 \<and> \<not> c_my_want_state_is_do TELOPT_ECHO s1 \<and> \<not> c_crmod s1 then (cs, tty_add c s1)
           else c_rcv_data c cs s1)
      | TS_DATA \<Rightarrow> c_rcv_data c cs s
      | TS_IAC \<Rightarrow> (cs, c_rcv_iac E c s)
      | TS_WILL \<Rightarrow> (cs, (c_willoption c s)\<lparr>c_ts := TS_DATA\<rparr>)
      | TS_WONT \<Rightarrow> (cs, (c_wontoption c s)\<lparr>c_ts := TS_DATA\<rparr>)
      | TS_DO \<Rightarrow>
          (let s1 = c_dooption E c s;
               s2 = (if c = TELOPT_NAWS then sendnaws E s1
                     else if c = TELOPT_LFLOW then setconnmode False (setcommandmode (s1\<lparr>c_localflow := True\<rparr>))
                     else s1)
           in (cs, s2\<lparr>c_ts := TS_DATA\<rparr>))
      | TS_DONT \<Rightarrow> (cs, (setconnmode False ((c_dontoption c s)\<lparr>c_flushline := True\<rparr>))\<lparr>c_ts := TS_DATA\<rparr>)
      | TS_SB \<Rightarrow> (cs, if c = IAC then s\<lparr>c_ts := TS_SE\<rparr> else c_sb_accum c s)
      | TS_SE \<Rightarrow>
          (cs, if c = SE then (c_sub_end E SE s)\<lparr>c_ts := TS_DATA\<rparr>
               else if c = IAC then (c_sb_accum c s)\<lparr>c_ts := TS_SB\<rparr>
               else c_rcv_iac E c ((c_sub_end E c s)\<lparr>c_ts := TS_IAC\<rparr>)))"

lemma c_rcv_data_shorter: "length (fst (c_rcv_data c cs s)) \<le> length cs"
  by (cases cs) (simp_all add: c_rcv_data_def)

lemma c_rcv_shorter: "length (fst (c_rcv_byte E c cs s)) \<le> length cs"
  using c_rcv_data_shorter by (cases "c_ts s") (simp_all add: c_rcv_byte_def Let_def)

function c_telrcv :: "telc_env \<Rightarrow> u8 list \<Rightarrow> telc \<Rightarrow> u8 list \<times> telc" where
  "c_telrcv E [] s = ([], s)"
| "c_telrcv E (c # cs) s =
     (if tty_room s \<le> 2 then (c # cs, s)
      else c_telrcv E (fst (c_rcv_byte E c cs s)) (snd (c_rcv_byte E c cs s)))"
  by pat_completeness auto
termination
  by (relation "measure (\<lambda>(E, inp, s). length inp)") (simp_all add: le_imp_less_Suc c_rcv_shorter split_beta)

end
