(* ===== verification/Telc_Ring.thy ===== *)
theory Telc_Ring
  imports Netkit_Prelude
begin

text \<open>
  The ring buffers of the TELNET client (\<^verbatim>\<open>ring.cc\<close> and \<^verbatim>\<open>ring.h\<close>): the two towards the network and
  the two towards the terminal. The array with its cursors is the model; the queue of bytes it
  holds is what the operations are specified by. The kernel's answers to the writes of \<open>flush\<close> are
  a list of numbers, negative for an error and zero when it would have to wait.
\<close>

section \<open>The buffer\<close>

record ringbuf =
  rb_buf :: "u8 list"
  rb_size :: nat
  rb_head :: nat
  rb_tail :: nat
  rb_count :: nat
  rb_marked :: "nat option"

text \<open>The array comes from \<open>new\<close>, with whatever was there.\<close>

definition rb_init :: "u8 list \<Rightarrow> ringbuf" where
  "rb_init fresh =
     \<lparr>rb_buf = fresh, rb_size = length fresh, rb_head = 0, rb_tail = 0, rb_count = 0, rb_marked = None\<rparr>"

definition rb_full_count :: "ringbuf \<Rightarrow> nat" where
  "rb_full_count r = rb_count r"

definition rb_empty_count :: "ringbuf \<Rightarrow> nat" where
  "rb_empty_count r = rb_size r - rb_count r"

definition rb_set_mark :: "ringbuf \<Rightarrow> ringbuf" where
  "rb_set_mark r = r\<lparr>rb_marked := Some (rb_head r)\<rparr>"

definition rb_clear_mark :: "ringbuf \<Rightarrow> ringbuf" where
  "rb_clear_mark r = r\<lparr>rb_marked := None\<rparr>"

text \<open>A cursor that has passed the end goes back by the size of the array.\<close>

definition rb_wrap :: "ringbuf \<Rightarrow> nat \<Rightarrow> nat" where
  "rb_wrap r i = (if rb_size r \<le> i then i - rb_size r else i)"

section \<open>Taking bytes out\<close>

text \<open>\<open>getch\<close> returns 0 when there is nothing, 2 for the marked byte, 1 for any other.\<close>

definition rb_getch :: "ringbuf \<Rightarrow> nat \<times> u8 option \<times> ringbuf" where
  "rb_getch r =
     (if 0 < rb_count r
      then (if rb_marked r = Some (rb_tail r) then 2 else 1, Some (rb_buf r ! rb_tail r),
            r\<lparr>rb_marked := (if rb_marked r = Some (rb_tail r) then None else rb_marked r),
              rb_tail := rb_wrap r (rb_tail r + 1), rb_count := rb_count r - 1\<rparr>)
      else (0, None, r))"

text \<open>Only the cursor goes back; a byte other than the one that is there is not stored.\<close>

definition rb_ungetch :: "u8 \<Rightarrow> ringbuf \<Rightarrow> ringbuf" where
  "rb_ungetch c r =
     r\<lparr>rb_tail := (if rb_tail r = 0 then rb_size r - 1 else rb_tail r - 1), rb_count := rb_count r + 1\<rparr>"

text \<open>\<open>gets\<close>: the room is tested after the byte has been taken.\<close>

primrec rb_gets_loop :: "nat \<Rightarrow> ringbuf \<Rightarrow> u8 list \<times> ringbuf" where
  "rb_gets_loop 0 r = ([], snd (snd (rb_getch r)))"
| "rb_gets_loop (Suc n) r =
     (case rb_getch r of
        (_, None, r1) \<Rightarrow> ([], r1)
      | (_, Some c, r1) \<Rightarrow> let (cs, r2) = rb_gets_loop n r1 in (c # cs, r2))"

definition rb_gets :: "nat \<Rightarrow> ringbuf \<Rightarrow> u8 list \<times> ringbuf" where
  "rb_gets mx r = rb_gets_loop (mx - 1) r"

text \<open>
  \<open>flush\<close>: one call of \<open>write\<close> (or \<open>writeurg\<close>, at the mark) for each contiguous part. The calls are
  listed with the bytes the kernel took; \<open>Abort\<close> is a failed assertion, \<open>busy\<close> says that a flush is
  already running.
\<close>

datatype flushed = Flushed int | Abort

type_synonym sink_write = "bool \<times> u8 list"

definition rb_assert1 :: "ringbuf \<Rightarrow> bool" where
  "rb_assert1 r \<longleftrightarrow> (int (rb_head r) - int (rb_tail r) - int (rb_count r)) mod int (rb_size r) = 0"

definition rb_assert2 :: "ringbuf \<Rightarrow> bool" where
  "rb_assert2 r \<longleftrightarrow> (int (rb_size r) + int (rb_head r) - int (rb_tail r)) mod int (rb_size r) = int (rb_count r)"

definition rb_top :: "ringbuf \<Rightarrow> nat" where
  "rb_top r =
     (let top = (if rb_head r < rb_tail r then rb_size r else rb_head r) in
      case rb_marked r of Some m \<Rightarrow> if rb_tail r < m then m else top | None \<Rightarrow> top)"

text \<open>
  A full buffer has its head at its tail: \<open>top < bot\<close> does not hold, and the part to be written
  would be empty.
\<close>

definition rb_written :: "nat \<Rightarrow> ringbuf \<Rightarrow> ringbuf" where
  "rb_written n r =
     r\<lparr>rb_marked := (if rb_marked r = Some (rb_tail r) then None else rb_marked r),
       rb_tail := rb_wrap r (rb_tail r + n), rb_count := rb_count r - n\<rparr>"

fun rb_flush_loop :: "int list \<Rightarrow> ringbuf \<Rightarrow> flushed \<times> sink_write list \<times> ringbuf" where
  "rb_flush_loop as r =
     (if rb_count r = 0 then (if rb_assert2 r then Flushed 1 else Abort, [], r)
      else let len = int (rb_top r) - int (rb_tail r) in
        if \<not> (0 < len \<and> len \<le> int (rb_count r)) then (Abort, [], r)
        else case as of
            [] \<Rightarrow> (Flushed (-1), [], r)
          | a # as' \<Rightarrow>
              if a < 0 then (Flushed (-2), [], r)
              else if a = 0 then (Flushed (-1), [], r)
              else let n = min a len;
                       w = (rb_marked r = Some (rb_tail r), take (nat n) (drop (rb_tail r) (rb_buf r)));
                       r1 = rb_written (nat n) r
                   in if \<not> rb_assert2 r1 then (Abort, [w], r1)
                      else if n < len then (Flushed (n + 1), [w], r1)
                      else let (v, ws, r2) = rb_flush_loop as' r1 in (v, w # ws, r2))"

declare rb_flush_loop.simps [simp del]

definition rb_flush :: "bool \<Rightarrow> int list \<Rightarrow> ringbuf \<Rightarrow> flushed \<times> sink_write list \<times> ringbuf" where
  "rb_flush busy as r =
     (if rb_count r = 0 then (Flushed 0, [], r)
      else if busy then (Flushed (-1), [], r)
      else if rb_assert1 r then rb_flush_loop as r else (Abort, [], r))"

section \<open>Putting bytes in\<close>

definition rb_put1 :: "u8 \<Rightarrow> ringbuf \<Rightarrow> ringbuf" where
  "rb_put1 c r =
     r\<lparr>rb_buf := (rb_buf r)[rb_head r := c], rb_head := rb_wrap r (rb_head r + 1),
       rb_count := rb_count r + 1\<rparr>"

text \<open>What does not fit is dropped, with a message.\<close>

definition rb_write :: "u8 list \<Rightarrow> ringbuf \<Rightarrow> ringbuf" where
  "rb_write bs r = fold rb_put1 (take (rb_size r - rb_count r) bs) r"

definition rb_putch :: "u8 \<Rightarrow> ringbuf \<Rightarrow> ringbuf" where
  "rb_putch c r = rb_write [c] r"

text \<open>
  \<open>printf\<close>: the text is cut to 255 bytes in \<open>xbuf\<close>, but as many are written as it would have had,
  from what lies behind \<open>xbuf\<close> on the stack.
\<close>

definition rb_printf :: "u8 list \<Rightarrow> u8 list \<Rightarrow> ringbuf \<Rightarrow> ringbuf" where
  "rb_printf stack txt r =
     rb_write (if length txt < 256 then txt else take (length txt) (take 255 txt @ [0] @ stack)) r"

text \<open>
  \<open>read_source\<close>: where the source may write, and the buffer afterwards. \<open>got\<close> is what the source
  has, or nothing if it fails.
\<close>

definition rb_read_room :: "ringbuf \<Rightarrow> nat" where
  "rb_read_room r =
     (let bot = rb_head r;
          top0 = (if rb_tail r = 0 then rb_size r - 1 else rb_tail r - 1);
          top = (if top0 < bot then rb_size r else top0)
      in top - bot)"

fun list_put :: "nat \<Rightarrow> u8 list \<Rightarrow> u8 list \<Rightarrow> u8 list" where
  "list_put i [] xs = xs"
| "list_put i (c # cs) xs = list_put (Suc i) cs (xs[i := c])"

definition rb_read_source :: "u8 list option \<Rightarrow> ringbuf \<Rightarrow> int \<times> ringbuf" where
  "rb_read_source got r =
     (if rb_read_room r = 0 then (0, r)
      else case got of
          None \<Rightarrow> (-1, r)
        | Some bs \<Rightarrow>
            let l = take (rb_read_room r) bs in
            (if l = [] then -1 else int (length l),
             r\<lparr>rb_buf := list_put (rb_head r) l (rb_buf r), rb_head := rb_wrap r (rb_head r + length l),
               rb_count := rb_count r + length l\<rparr>))"

section \<open>The queue in the ring\<close>

definition rb_bytes :: "ringbuf \<Rightarrow> u8 list" where
  "rb_bytes r = map (\<lambda>i. rb_buf r ! rb_wrap r (rb_tail r + i)) [0..<rb_count r]"

text \<open>The mark is at one of the bytes that wait, or at the place of the next one.\<close>

definition rb_ok :: "ringbuf \<Rightarrow> bool" where
  "rb_ok r \<longleftrightarrow> 0 < rb_size r \<and> length (rb_buf r) = rb_size r \<and> rb_tail r < rb_size r \<and>
     rb_count r \<le> rb_size r \<and> rb_head r = rb_wrap r (rb_tail r + rb_count r) \<and>
     (\<forall>m. rb_marked r = Some m \<longrightarrow> (\<exists>k\<le>rb_count r. m = rb_wrap r (rb_tail r + k)))"

lemma rb_length [simp]: "length (rb_bytes r) = rb_count r"
  by (simp add: rb_bytes_def)

lemma rb_bytes_empty [simp]: "rb_bytes r = [] \<longleftrightarrow> rb_count r = 0"
  by (simp flip: length_0_conv)

lemma rb_bytes_Nil: "rb_count r = 0 \<Longrightarrow> rb_bytes r = []"
  by simp

lemma rb_nth [simp]: "i < rb_count r \<Longrightarrow> rb_bytes r ! i = rb_buf r ! rb_wrap r (rb_tail r + i)"
  by (simp add: rb_bytes_def)

lemma rb_okD:
  assumes "rb_ok r"
  shows "0 < rb_size r" "length (rb_buf r) = rb_size r" "rb_tail r < rb_size r"
    "rb_count r \<le> rb_size r" "rb_head r = rb_wrap r (rb_tail r + rb_count r)"
  using assms by (simp_all add: rb_ok_def)

lemma rb_init_ok: "fresh \<noteq> [] \<Longrightarrow> rb_ok (rb_init fresh) \<and> rb_bytes (rb_init fresh) = []"
  by (simp add: rb_init_def rb_ok_def rb_bytes_def rb_wrap_def)

lemma rb_wrap_upd [simp]:
  "rb_wrap (r\<lparr>rb_marked := a\<rparr>) = rb_wrap r" "rb_wrap (r\<lparr>rb_tail := b\<rparr>) = rb_wrap r"
  "rb_wrap (r\<lparr>rb_head := b\<rparr>) = rb_wrap r" "rb_wrap (r\<lparr>rb_count := b\<rparr>) = rb_wrap r"
  "rb_wrap (r\<lparr>rb_buf := x\<rparr>) = rb_wrap r"
  by (simp_all add: rb_wrap_def fun_eq_iff)

lemma rb_wrap_less: "rb_tail r < rb_size r \<Longrightarrow> i \<le> rb_size r \<Longrightarrow> rb_wrap r (rb_tail r + i) < rb_size r"
  by (auto simp: rb_wrap_def)

lemma rb_wrap_inj:
  "i < rb_size r \<Longrightarrow> j < rb_size r \<Longrightarrow> rb_tail r < rb_size r \<Longrightarrow>
   rb_wrap r (rb_tail r + i) = rb_wrap r (rb_tail r + j) \<longleftrightarrow> i = j"
  by (auto simp: rb_wrap_def)

lemma rb_mark_ok: "rb_ok r \<Longrightarrow> rb_ok (rb_set_mark r) \<and> rb_ok (rb_clear_mark r)"
  by (auto simp: rb_ok_def rb_set_mark_def rb_clear_mark_def rb_wrap_def)

lemma rb_mark_bytes [simp]: "rb_bytes (rb_set_mark r) = rb_bytes r" "rb_bytes (rb_clear_mark r) = rb_bytes r"
  by (simp_all add: rb_bytes_def rb_set_mark_def rb_clear_mark_def rb_wrap_def)

section \<open>Writing\<close>

lemma rb_put1:
  assumes "rb_ok r" "rb_count r < rb_size r"
  shows "rb_ok (rb_put1 c r) \<and> rb_bytes (rb_put1 c r) = rb_bytes r @ [c]"
proof
  note ok = rb_okD[OF assms(1)]
  show "rb_bytes (rb_put1 c r) = rb_bytes r @ [c]"
  proof (rule nth_equalityI)
    fix i assume "i < length (rb_bytes (rb_put1 c r))"
    then have i: "i \<le> rb_count r" by (simp add: rb_put1_def)
    then have "rb_wrap r (rb_tail r + i) = rb_head r \<longleftrightarrow> i = rb_count r"
      using ok assms(2) rb_wrap_inj[of i r "rb_count r"] by simp
    moreover have "rb_head r < rb_size r"
      using ok rb_wrap_less[of r "rb_count r"] by simp
    ultimately show "rb_bytes (rb_put1 c r) ! i = (rb_bytes r @ [c]) ! i"
      using i ok by (auto simp: rb_put1_def nth_append nth_list_update rb_wrap_def)
  qed (simp add: rb_put1_def)
  have "\<forall>m. rb_marked r = Some m \<longrightarrow> (\<exists>k\<le>Suc (rb_count r). m = rb_wrap r (rb_tail r + k))"
    using assms(1) le_SucI unfolding rb_ok_def by blast
  moreover have "rb_wrap r (rb_head r + 1) = rb_wrap r (rb_tail r + Suc (rb_count r))"
    using ok assms(2) by (auto simp: rb_wrap_def)
  ultimately show "rb_ok (rb_put1 c r)"
    using ok assms(2) unfolding rb_ok_def by (simp add: rb_put1_def)
qed

lemma rb_put1_fields [simp]:
  "rb_size (rb_put1 c r) = rb_size r" "rb_count (rb_put1 c r) = Suc (rb_count r)"
  by (simp_all add: rb_put1_def)

lemma rb_fold_put1:
  "rb_ok r \<Longrightarrow> rb_count r + length bs \<le> rb_size r \<Longrightarrow>
   rb_ok (fold rb_put1 bs r) \<and> rb_bytes (fold rb_put1 bs r) = rb_bytes r @ bs \<and>
   rb_size (fold rb_put1 bs r) = rb_size r"
  by (induction bs arbitrary: r) (simp_all add: rb_put1)

lemma rb_write:
  assumes "rb_ok r"
  shows "rb_ok (rb_write bs r)" "rb_bytes (rb_write bs r) = take (rb_size r) (rb_bytes r @ bs)"
    "rb_size (rb_write bs r) = rb_size r"
  using rb_fold_put1[OF assms, of "take (rb_size r - rb_count r) bs"] rb_okD[OF assms]
  by (simp_all add: rb_write_def take_append)

section \<open>Reading\<close>

lemma rb_bytes_Cons:
  "0 < rb_count r \<Longrightarrow> rb_tail r < rb_size r \<Longrightarrow> rb_bytes r = rb_buf r ! rb_tail r # tl (rb_bytes r)"
  by (simp add: rb_bytes_def upt_conv_Cons rb_wrap_def)

lemma rb_written_ok:
  assumes "rb_ok r" "n \<le> rb_count r" "rb_tail r + n \<le> rb_size r"
    "\<And>m. rb_marked r = Some m \<Longrightarrow> rb_tail r < m \<Longrightarrow> rb_tail r + n \<le> m"
  shows "rb_ok (rb_written n r) \<and> rb_bytes (rb_written n r) = drop n (rb_bytes r)"
proof
  note ok = rb_okD[OF assms(1)]
  show "rb_bytes (rb_written n r) = drop n (rb_bytes r)"
    by (rule nth_equalityI) (use ok assms(2,3) in \<open>auto simp: rb_written_def rb_wrap_def add.assoc\<close>)
  have "\<exists>k\<le>rb_count r - n. m = rb_wrap r (rb_wrap r (rb_tail r + n) + k)"
    if m: "rb_marked r = Some m" and other: "m \<noteq> rb_tail r" for m
  proof -
    obtain k where k: "k \<le> rb_count r" "m = rb_wrap r (rb_tail r + k)"
      using assms(1) m by (auto simp: rb_ok_def)
    then have "n \<le> k"
      using assms(3) assms(4)[OF m] other ok by (auto simp: rb_wrap_def split: if_splits)
    then have "k - n \<le> rb_count r - n" "m = rb_wrap r (rb_wrap r (rb_tail r + n) + (k - n))"
      using k ok assms(2,3) by (auto simp: rb_wrap_def)
    then show ?thesis by blast
  qed
  moreover have "rb_wrap r (rb_tail r + n) < rb_size r"
    "rb_head r = rb_wrap r (rb_wrap r (rb_tail r + n) + (rb_count r - n))"
    using ok assms(2,3) by (auto simp: rb_wrap_def)
  ultimately show "rb_ok (rb_written n r)"
    using ok assms(2) unfolding rb_ok_def by (auto simp: rb_written_def)
qed

lemma rb_getch_empty: "rb_count r = 0 \<Longrightarrow> rb_getch r = (0, None, r)"
  by (simp add: rb_getch_def)

lemma rb_getch:
  assumes "rb_ok r" "0 < rb_count r"
  shows "\<exists>v r1. rb_getch r = (v, Some (hd (rb_bytes r)), r1) \<and> v \<noteq> 0 \<and> rb_ok r1 \<and>
    rb_bytes r1 = tl (rb_bytes r) \<and> rb_size r1 = rb_size r"
proof -
  have "rb_getch r = (if rb_marked r = Some (rb_tail r) then 2 else 1, Some (rb_buf r ! rb_tail r), rb_written 1 r)"
    using assms(2) by (simp add: rb_getch_def rb_written_def)
  moreover have "rb_ok (rb_written 1 r) \<and> rb_bytes (rb_written 1 r) = drop 1 (rb_bytes r)"
    by (rule rb_written_ok) (use assms rb_okD[OF assms(1)] in auto)
  moreover have "hd (rb_bytes r) = rb_buf r ! rb_tail r"
    using assms rb_okD[OF assms(1)] by (subst rb_bytes_Cons) auto
  ultimately show ?thesis by (auto simp: drop_Suc rb_written_def)
qed

text \<open>A byte put back is the one that was taken; only the mark is lost.\<close>

lemma rb_ungetch:
  assumes "rb_ok r" "rb_getch r = (v, Some c, r1)"
  shows "rb_ok (rb_ungetch c r1) \<and> rb_bytes (rb_ungetch c r1) = rb_bytes r"
proof -
  note ok = rb_okD[OF assms(1)]
  have "0 < rb_count r" "r1 = r\<lparr>rb_marked := rb_marked r1, rb_tail := rb_wrap r (rb_tail r + 1),
      rb_count := rb_count r - 1\<rparr>" and m: "rb_marked r1 = None \<or> rb_marked r1 = rb_marked r"
    using assms(2) by (auto simp: rb_getch_def split: if_splits)
  then have "rb_ungetch c r1 = r\<lparr>rb_marked := rb_marked r1\<rparr>"
    using ok by (cases r; cases r1) (auto simp: rb_ungetch_def rb_wrap_def)
  moreover have "rb_ok (r\<lparr>rb_marked := rb_marked r1\<rparr>)"
    using assms(1) m by (auto simp: rb_ok_def)
  ultimately show ?thesis by (simp add: rb_bytes_def)
qed

text \<open>A line that is longer than the buffer it is read into loses a byte.\<close>

lemma rb_gets_loop:
  "rb_ok r \<Longrightarrow> fst (rb_gets_loop n r) = take n (rb_bytes r) \<and> rb_ok (snd (rb_gets_loop n r)) \<and>
    rb_bytes (snd (rb_gets_loop n r)) = drop (Suc n) (rb_bytes r)"
proof (induction n arbitrary: r)
  case 0
  show ?case
  proof (cases "rb_count r = 0")
    case False
    then show ?thesis using rb_getch[OF 0] by (auto simp: drop_Suc)
  qed (use 0 in \<open>simp add: rb_getch_empty\<close>)
next
  case (Suc n)
  show ?case
  proof (cases "rb_count r = 0")
    case True
    then show ?thesis using Suc.prems by (simp add: rb_getch_empty rb_bytes_Nil)
  next
    case False
    then obtain v r1 where g: "rb_getch r = (v, Some (hd (rb_bytes r)), r1)" "rb_ok r1" "rb_bytes r1 = tl (rb_bytes r)"
      using rb_getch[OF Suc.prems] by auto
    have "rb_bytes r \<noteq> []" using False by simp
    then show ?thesis
      using g Suc.IH[OF g(2)] by (cases "rb_bytes r") (auto simp: split_beta Let_def)
  qed
qed

lemma rb_gets:
  "rb_ok r \<Longrightarrow> 0 < mx \<Longrightarrow> fst (rb_gets mx r) = take (mx - 1) (rb_bytes r) \<and>
    rb_bytes (snd (rb_gets mx r)) = drop mx (rb_bytes r)"
  using rb_gets_loop[of r "mx - 1"] by (simp add: rb_gets_def)

section \<open>Flushing\<close>

text \<open>How far the mark is from the first byte, and writes of which just the one there is urgent.\<close>

definition rb_mark :: "ringbuf \<Rightarrow> nat option" where
  "rb_mark r = map_option (\<lambda>m. if rb_tail r \<le> m then m - rb_tail r else m + rb_size r - rb_tail r) (rb_marked r)"

fun marks_at :: "nat option \<Rightarrow> sink_write list \<Rightarrow> bool" where
  "marks_at m [] \<longleftrightarrow> True"
| "marks_at m ((u, bs) # ws) \<longleftrightarrow>
     u = (m = Some 0) \<and>
     (case m of Some (Suc k) \<Rightarrow> length bs \<le> Suc k \<and> marks_at (Some (Suc k - length bs)) ws
              | _ \<Rightarrow> marks_at None ws)"

lemma rb_markD:
  assumes "rb_ok r" "rb_count r < rb_size r" "rb_marked r = Some m"
  obtains k where "rb_mark r = Some k" "k \<le> rb_count r" "m = rb_wrap r (rb_tail r + k)"
    "k = 0 \<longleftrightarrow> m = rb_tail r"
proof -
  obtain k where "k \<le> rb_count r" "m = rb_wrap r (rb_tail r + k)"
    using assms(1,3) by (auto simp: rb_ok_def)
  moreover then have "rb_mark r = Some k" "k = 0 \<longleftrightarrow> m = rb_tail r"
    using assms rb_okD[OF assms(1)] by (auto simp: rb_mark_def rb_wrap_def)
  ultimately show ?thesis using that by blast
qed

lemma rb_top_part:
  assumes "rb_ok r" "0 < rb_count r" "rb_count r < rb_size r"
  shows "rb_tail r < rb_top r" "rb_top r \<le> rb_tail r + rb_count r" "rb_top r \<le> rb_size r"
    "\<And>m. rb_marked r = Some m \<Longrightarrow> rb_tail r < m \<Longrightarrow> rb_top r = m"
    "\<And>k. rb_mark r = Some k \<Longrightarrow> 0 < k \<Longrightarrow> rb_top r \<le> rb_tail r + k"
proof -
  note ok = rb_okD[OF assms(1)]
  have head: "rb_head r = (if rb_size r \<le> rb_tail r + rb_count r then rb_tail r + rb_count r - rb_size r
      else rb_tail r + rb_count r)"
    using ok by (simp add: rb_wrap_def)
  define top where "top = (if rb_head r < rb_tail r then rb_size r else rb_head r)"
  have part: "rb_tail r < top" "top \<le> rb_tail r + rb_count r" "top \<le> rb_size r"
    "rb_tail r + rb_count r \<le> rb_size r \<or> top = rb_size r"
    using head ok assms(2,3) by (auto simp: top_def)
  have "rb_tail r < rb_top r \<and> rb_top r \<le> rb_tail r + rb_count r \<and> rb_top r \<le> rb_size r \<and>
    (\<forall>k. rb_mark r = Some k \<longrightarrow> 0 < k \<longrightarrow> rb_top r \<le> rb_tail r + k)"
  proof (cases "rb_marked r")
    case None
    then have "rb_top r = top" "rb_mark r = None" by (simp_all add: rb_top_def top_def rb_mark_def)
    then show ?thesis using part by simp
  next
    case (Some m)
    from assms(1,3) Some obtain k where k: "rb_mark r = Some k" "k \<le> rb_count r"
      "m = rb_wrap r (rb_tail r + k)" "k = 0 \<longleftrightarrow> m = rb_tail r"
      by (rule rb_markD)
    have t: "rb_top r = (if rb_tail r < m then m else top)"
      using Some by (simp add: rb_top_def top_def)
    show ?thesis
    proof (cases "rb_tail r + k < rb_size r")
      case True
      then have "m = rb_tail r + k" using k by (simp add: rb_wrap_def)
      then show ?thesis using t k part True by simp
    next
      case False
      then have "m < rb_tail r" using k ok(3) assms(3) by (simp add: rb_wrap_def)
      then show ?thesis using t k part False by simp
    qed
  qed
  then show "rb_tail r < rb_top r" "rb_top r \<le> rb_tail r + rb_count r" "rb_top r \<le> rb_size r"
    "\<And>k. rb_mark r = Some k \<Longrightarrow> 0 < k \<Longrightarrow> rb_top r \<le> rb_tail r + k" by auto
  show "\<And>m. rb_marked r = Some m \<Longrightarrow> rb_tail r < m \<Longrightarrow> rb_top r = m" by (simp add: rb_top_def)
qed

lemma rb_assert2: "rb_ok r \<Longrightarrow> rb_count r < rb_size r \<Longrightarrow> rb_assert2 r"
proof -
  assume r: "rb_ok r" "rb_count r < rb_size r"
  note ok = rb_okD[OF r(1)]
  have "int (rb_size r) + int (rb_head r) - int (rb_tail r) =
    (if rb_size r \<le> rb_tail r + rb_count r then int (rb_count r) else int (rb_size r) + int (rb_count r))"
    using ok by (auto simp: rb_wrap_def)
  then show ?thesis using r(2) by (simp add: rb_assert2_def)
qed

lemma rb_assert1: "rb_ok r \<Longrightarrow> rb_assert1 r"
proof -
  assume r: "rb_ok r"
  note ok = rb_okD[OF r]
  have "int (rb_head r) - int (rb_tail r) - int (rb_count r) =
    (if rb_size r \<le> rb_tail r + rb_count r then - int (rb_size r) else 0)"
    using ok by (auto simp: rb_wrap_def)
  then show ?thesis by (simp add: rb_assert1_def)
qed

text \<open>One write of a part, or of the beginning of it.\<close>

lemma rb_write_part:
  assumes r: "rb_ok r" "0 < rb_count r" "rb_count r < rb_size r" and n: "0 < n" "rb_tail r + n \<le> rb_top r"
  defines "bs \<equiv> take n (drop (rb_tail r) (rb_buf r))"
  shows "rb_ok (rb_written n r)" "rb_bytes r = bs @ rb_bytes (rb_written n r)" "length bs = n"
    "rb_count (rb_written n r) = rb_count r - n" "rb_size (rb_written n r) = rb_size r"
    "rb_marked r = Some (rb_tail r) \<longleftrightarrow> rb_mark r = Some 0"
    "rb_mark r = Some (Suc k) \<Longrightarrow> n \<le> Suc k \<and> rb_mark (rb_written n r) = Some (Suc k - n)"
    "rb_mark r = None \<or> rb_mark r = Some 0 \<Longrightarrow> rb_mark (rb_written n r) = None"
proof -
  note ok = rb_okD[OF r(1)] and top = rb_top_part[OF r]
  have le: "n \<le> rb_count r" "rb_tail r + n \<le> rb_size r" using n top by auto
  have w: "rb_ok (rb_written n r) \<and> rb_bytes (rb_written n r) = drop n (rb_bytes r)"
    by (rule rb_written_ok[OF r(1) le]) (use n top(4) in auto)
  have "bs = take n (rb_bytes r)"
    by (rule nth_equalityI) (use ok le in \<open>auto simp: bs_def rb_wrap_def\<close>)
  then show "rb_ok (rb_written n r)" "rb_bytes r = bs @ rb_bytes (rb_written n r)" "length bs = n"
    using w le by auto
  show "rb_count (rb_written n r) = rb_count r - n" "rb_size (rb_written n r) = rb_size r"
    by (simp_all add: rb_written_def)
  show m0: "rb_marked r = Some (rb_tail r) \<longleftrightarrow> rb_mark r = Some 0"
  proof (cases "rb_marked r")
    case (Some m)
    from r(1,3) Some obtain k where "rb_mark r = Some k" "k = 0 \<longleftrightarrow> m = rb_tail r"
      by (rule rb_markD)
    then show ?thesis using Some by simp
  qed (simp add: rb_mark_def)
  show "rb_mark (rb_written n r) = None" if "rb_mark r = None \<or> rb_mark r = Some 0"
    using that m0 by (auto simp: rb_mark_def rb_written_def)
  show "n \<le> Suc k \<and> rb_mark (rb_written n r) = Some (Suc k - n)" if k: "rb_mark r = Some (Suc k)"
  proof -
    obtain m where m: "rb_marked r = Some m" using k by (auto simp: rb_mark_def)
    from r(1,3) m obtain k' where "rb_mark r = Some k'" "k' \<le> rb_count r"
      "m = rb_wrap r (rb_tail r + k')" "k' = 0 \<longleftrightarrow> m = rb_tail r"
      by (rule rb_markD)
    then have at: "Suc k \<le> rb_count r" "m = rb_wrap r (rb_tail r + Suc k)" "m \<noteq> rb_tail r"
      using k by auto
    have nk: "n \<le> Suc k" using n(2) top(5)[OF k] by simp
    moreover have "rb_marked (rb_written n r) = Some m" using m at(3) by (simp add: rb_written_def)
    moreover have "m = rb_wrap r (rb_wrap r (rb_tail r + n) + (Suc k - n))"
      using at nk le ok r(3) by (auto simp: rb_wrap_def)
    moreover have "rb_wrap r (rb_tail r + n) < rb_size r" using ok le by (auto simp: rb_wrap_def)
    ultimately show ?thesis
      using at(1) r(3) by (auto simp: rb_mark_def rb_written_def rb_wrap_def)
  qed
qed

lemma rb_flush_loop:
  assumes "rb_ok r" "rb_count r < rb_size r" "rb_flush_loop as r = (v, ws, r1)"
  shows "rb_ok r1 \<and> concat (map snd ws) @ rb_bytes r1 = rb_bytes r \<and> marks_at (rb_mark r) ws \<and>
    (\<exists>k. v = Flushed k \<and> (k = 1 \<longleftrightarrow> rb_bytes r1 = []) \<and>
      (1 < k \<longrightarrow> ws \<noteq> [] \<and> int (length (snd (last ws))) = k - 1))"
  using assms
proof (induction as arbitrary: r v ws r1)
  case Nil
  show ?case
    using Nil rb_assert2[OF Nil(1,2)] rb_top_part[OF Nil(1) _ Nil(2)]
    by (auto simp: rb_flush_loop.simps[of "[]"] Let_def split: if_splits)
next
  case (Cons a as)
  note r = Cons.prems(1,2) and top = rb_top_part[OF Cons.prems(1) _ Cons.prems(2)]
  consider (none) "rb_count r = 0" | (fail) "0 < rb_count r" "a \<le> 0" | (go) "0 < rb_count r" "0 < a" by linarith
  then show ?case
  proof cases
    case none
    then show ?thesis
      using r Cons.prems(3) rb_assert2[OF r] by (auto simp: rb_flush_loop.simps[of "a # as"])
  next
    case fail
    then show ?thesis
      using r Cons.prems(3) top by (auto simp: rb_flush_loop.simps[of "a # as"] Let_def split: if_splits)
  next
    case go
    define n where "n = nat (min a (int (rb_top r) - int (rb_tail r)))"
    have n: "0 < n" "rb_tail r + n \<le> rb_top r" "int n = min a (int (rb_top r) - int (rb_tail r))"
      using go top by (auto simp: n_def)
    note w = rb_write_part[OF r(1) go(1) r(2) n(1,2)]
    define bs where "bs = take n (drop (rb_tail r) (rb_buf r))"
    have a2: "rb_assert2 (rb_written n r)" "rb_count (rb_written n r) < rb_size (rb_written n r)"
      using rb_assert2[OF w(1)] w(4,5) r(2) by auto
    have step: "rb_flush_loop (a # as) r =
      (if int n < int (rb_top r) - int (rb_tail r)
       then (Flushed (int n + 1), [(rb_marked r = Some (rb_tail r), bs)], rb_written n r)
       else let (v, ws, r2) = rb_flush_loop as (rb_written n r)
            in (v, (rb_marked r = Some (rb_tail r), bs) # ws, r2))"
      using go top a2 n(3) by (simp add: rb_flush_loop.simps[of "a # as"] Let_def n_def bs_def)
    have marks: "marks_at (rb_mark r) ((rb_marked r = Some (rb_tail r), bs) # ws') \<longleftrightarrow>
        marks_at (rb_mark (rb_written n r)) ws'" for ws'
      using w(3,6,7,8) by (auto simp: bs_def split: option.split nat.split)
    show ?thesis
    proof (cases "int n < int (rb_top r) - int (rb_tail r)")
      case True
      then have "n < rb_count r" using top(2) go by auto
      then show ?thesis
        using Cons.prems(3) step True w(1,2,3,4) n(1) marks[of "[]"] by (auto simp: bs_def)
    next
      case False
      obtain v2 ws2 r2 where l: "rb_flush_loop as (rb_written n r) = (v2, ws2, r2)"
        by (cases "rb_flush_loop as (rb_written n r)")
      from Cons.IH[OF w(1) a2(2) l] show ?thesis
        using Cons.prems(3) step False l w(2) marks[of ws2] by (auto simp: bs_def)
    qed
  qed
qed

lemma rb_flush:
  assumes "rb_ok r" "rb_count r < rb_size r" "rb_flush False as r = (v, ws, r1)"
  shows "rb_ok r1 \<and> concat (map snd ws) @ rb_bytes r1 = rb_bytes r \<and> marks_at (rb_mark r) ws \<and>
    (\<exists>k. v = Flushed k \<and> (k \<in> {0, 1} \<longleftrightarrow> rb_bytes r1 = []) \<and>
      (1 < k \<longrightarrow> ws \<noteq> [] \<and> int (length (snd (last ws))) = k - 1))"
proof (cases "rb_count r = 0")
  case False
  then have "rb_flush_loop as r = (v, ws, r1)"
    using assms(3) rb_assert1[OF assms(1)] by (simp add: rb_flush_def)
  from rb_flush_loop[OF assms(1,2) this] show ?thesis
  proof (elim conjE exE, intro conjI exI)
    fix k
    assume k: "v = Flushed k" "(k = 1) = (rb_bytes r1 = [])"
    have "k \<noteq> 0"
      using \<open>rb_flush_loop as r = (v, ws, r1)\<close> k(1)
    proof (induction as arbitrary: r v ws r1)
      case (Cons a as)
      then show ?case
        by (fastforce simp: rb_flush_loop.simps[of "a # as"] Let_def split: if_splits prod.splits)
    qed (auto simp: rb_flush_loop.simps[of "[]"] Let_def split: if_splits)
    then show "(k \<in> {0, 1}) = (rb_bytes r1 = [])" using k(2) by simp
  qed (use assms in simp_all)
qed (use assms in \<open>auto simp: rb_flush_def\<close>)

text \<open>A full buffer cannot be flushed: the part to write seems to be empty, and an assertion fails.\<close>

lemma rb_flush_full:
  assumes "rb_ok r" "rb_count r = rb_size r" "rb_marked r = None" "as \<noteq> []"
  shows "rb_flush False as r = (Abort, [], r)"
  using assms rb_okD[OF assms(1)] rb_assert1[OF assms(1)]
  by (cases as) (auto simp: rb_flush_def rb_flush_loop.simps[of "_ # _"] rb_top_def rb_wrap_def)

text \<open>The byte written after the mark was set is the marked one.\<close>

lemma rb_mark_next:
  assumes "rb_ok r" "rb_count r < rb_size r"
  shows "rb_mark (rb_putch c (rb_set_mark r)) = Some (rb_count r)"
  using assms rb_okD[OF assms(1)]
  by (auto simp: rb_mark_def rb_putch_def rb_write_def rb_put1_def rb_set_mark_def rb_wrap_def)

section \<open>Filling from a source\<close>

lemma list_put_length [simp]: "length (list_put i cs xs) = length xs"
  by (induction i cs xs rule: list_put.induct) auto

lemma list_put_nth:
  "i + length cs \<le> length xs \<Longrightarrow> j < length xs \<Longrightarrow>
   list_put i cs xs ! j = (if i \<le> j \<and> j < i + length cs then cs ! (j - i) else xs ! j)"
  by (induction i cs xs rule: list_put.induct) (auto simp: nth_list_update nth_Cons' not_less_eq_eq)

lemma rb_read_room:
  assumes "rb_ok r" "rb_count r < rb_size r"
  shows "rb_count r + rb_read_room r < rb_size r" "rb_head r + rb_read_room r \<le> rb_size r"
  using rb_okD[OF assms(1)] assms(2) by (auto simp: rb_read_room_def rb_wrap_def Let_def)

text \<open>There is always room for a byte to be put back.\<close>

lemma rb_read_source:
  assumes r: "rb_ok r" "rb_count r < rb_size r" and rd: "rb_read_source (Some bs) r = (v, r1)"
  shows "rb_ok r1 \<and> rb_bytes r1 = rb_bytes r @ take (rb_read_room r) bs \<and> rb_count r1 < rb_size r1"
proof -
  note ok = rb_okD[OF r(1)] and room = rb_read_room[OF r]
  define l where "l = take (rb_read_room r) bs"
  define r2 where "r2 = r\<lparr>rb_buf := list_put (rb_head r) l (rb_buf r), rb_head := rb_wrap r (rb_head r + length l),
      rb_count := rb_count r + length l\<rparr>"
  have len: "length l \<le> rb_read_room r" by (simp add: l_def)
  have r1: "r1 = (if rb_read_room r = 0 then r else r2)"
    using rd by (auto simp: rb_read_source_def l_def r2_def Let_def split: if_splits)
  have "rb_head r < rb_size r" using rb_wrap_less[of r "rb_count r"] ok by simp
  have bytes: "rb_bytes r2 = rb_bytes r @ l"
  proof (rule nth_equalityI)
    fix i assume "i < length (rb_bytes r2)"
    then have i: "i < rb_count r + length l" by (simp add: r2_def)
    define j where "j = rb_wrap r (rb_tail r + i)"
    have j: "j < length (rb_buf r)" "rb_head r + length l \<le> length (rb_buf r)"
      using rb_wrap_less[of r i] ok i len room by (auto simp: j_def)
    have "rb_bytes r2 ! i = list_put (rb_head r) l (rb_buf r) ! j"
      using i by (simp add: r2_def j_def)
    moreover have "rb_head r \<le> j \<and> j < rb_head r + length l \<longleftrightarrow> rb_count r \<le> i"
      "rb_count r \<le> i \<Longrightarrow> j - rb_head r = i - rb_count r"
      using i len room ok
      by (cases "rb_size r \<le> rb_tail r + rb_count r"; auto simp: j_def rb_wrap_def)+
    ultimately show "rb_bytes r2 ! i = (rb_bytes r @ l) ! i"
      using i j by (auto simp: list_put_nth nth_append j_def)
  qed (simp add: r2_def)
  have "\<forall>m. rb_marked r = Some m \<longrightarrow> (\<exists>k\<le>rb_count r + length l. m = rb_wrap r (rb_tail r + k))"
    using r(1) trans_le_add1 unfolding rb_ok_def by blast
  moreover have "rb_wrap r (rb_head r + length l) = rb_wrap r (rb_tail r + (rb_count r + length l))"
    using ok len room by (auto simp: rb_wrap_def)
  ultimately have "rb_ok r2"
    using ok len room unfolding rb_ok_def by (simp add: r2_def)
  moreover have "rb_count r2 < rb_size r2" using len room by (simp add: r2_def)
  moreover have "rb_read_room r = 0 \<Longrightarrow> l = []" by (simp add: l_def)
  ultimately show ?thesis using r1 bytes r by (simp add: l_def)
qed

text \<open>Of a full buffer it takes the bytes that wait for room.\<close>

lemma rb_read_full: "rb_ok r \<Longrightarrow> rb_count r = rb_size r \<Longrightarrow> 0 < rb_tail r \<Longrightarrow> rb_read_room r = rb_size r - rb_tail r"
  by (auto simp: rb_ok_def rb_read_room_def rb_wrap_def)

section \<open>The contract of a bounded queue\<close>

datatype queue_op = Put "u8 list" | Get

fun queue_run :: "(u8 list \<Rightarrow> 'q \<Rightarrow> 'q) \<Rightarrow> ('q \<Rightarrow> u8 option \<times> 'q) \<Rightarrow> queue_op list \<Rightarrow> 'q \<Rightarrow> u8 option list \<times> 'q" where
  "queue_run put get [] q = ([], q)"
| "queue_run put get (Put bs # os) q = queue_run put get os (put bs q)"
| "queue_run put get (Get # os) q =
     (let (b, q1) = get q; (res, q2) = queue_run put get os q1 in (b # res, q2))"

text \<open>The specification: a list that keeps what fits.\<close>

definition list_get :: "u8 list \<Rightarrow> u8 option \<times> u8 list" where
  "list_get xs = (case xs of [] \<Rightarrow> (None, []) | x # r \<Rightarrow> (Some x, r))"

definition queue_spec :: "nat \<Rightarrow> queue_op list \<Rightarrow> u8 list \<Rightarrow> u8 option list \<times> u8 list" where
  "queue_spec n = queue_run (\<lambda>bs xs. take n (xs @ bs)) list_get"

locale bounded_queue =
  fixes ok :: "'q \<Rightarrow> bool" and bytes :: "'q \<Rightarrow> u8 list" and cap :: "'q \<Rightarrow> nat"
    and put :: "u8 list \<Rightarrow> 'q \<Rightarrow> 'q" and get :: "'q \<Rightarrow> u8 option \<times> 'q"
  assumes put_ok: "ok q \<Longrightarrow> ok (put bs q)"
    and put_bytes: "ok q \<Longrightarrow> bytes (put bs q) = take (cap q) (bytes q @ bs)"
    and put_cap: "ok q \<Longrightarrow> cap (put bs q) = cap q"
    and get_none: "ok q \<Longrightarrow> bytes q = [] \<Longrightarrow> get q = (None, q)"
    and get_some: "ok q \<Longrightarrow> bytes q = b # bs \<Longrightarrow>
      \<exists>q1. get q = (Some b, q1) \<and> ok q1 \<and> bytes q1 = bs \<and> cap q1 = cap q"
begin

lemma refines:
  "ok q \<Longrightarrow> (case queue_run put get os q of (res, q1) \<Rightarrow>
     ok q1 \<and> cap q1 = cap q \<and> queue_spec (cap q) os (bytes q) = (res, bytes q1))"
proof (induction os arbitrary: q)
  case (Cons x os)
  show ?case
  proof (cases x)
    case (Put bs)
    then show ?thesis
      using Cons.IH[OF put_ok[OF Cons.prems], of bs] put_bytes[OF Cons.prems] put_cap[OF Cons.prems]
      by (simp add: queue_spec_def)
  next
    case Get
    show ?thesis
    proof (cases "bytes q")
      case Nil
      then show ?thesis
        using Cons.IH[OF Cons.prems] get_none[OF Cons.prems] Get
        by (auto simp: queue_spec_def list_get_def split_beta Let_def)
    next
      case (Cons b bs)
      then obtain q1 where "get q = (Some b, q1)" "ok q1" "bytes q1 = bs" "cap q1 = cap q"
        using get_some[OF Cons.prems(1)] by blast
      then show ?thesis
        using Cons.IH[of q1] Get Cons by (auto simp: queue_spec_def list_get_def split_beta Let_def)
    qed
  qed
qed (simp add: queue_spec_def)

end

definition rb_get :: "ringbuf \<Rightarrow> u8 option \<times> ringbuf" where
  "rb_get r = snd (rb_getch r)"

interpretation ring_queue: bounded_queue rb_ok rb_bytes rb_size rb_write rb_get
proof
  fix q b bs
  assume q: "rb_ok q" and b: "rb_bytes q = b # bs"
  then have "0 < rb_count q" by (metis length_greater_0_conv list.discI rb_length)
  from rb_getch[OF q this] b
  show "\<exists>q1. rb_get q = (Some b, q1) \<and> rb_ok q1 \<and> rb_bytes q1 = bs \<and> rb_size q1 = rb_size q"
    by (auto simp: rb_get_def)
qed (simp_all add: rb_write rb_get_def rb_getch_empty)

end
