(* ===== verification/Telc_Send.thy ===== *)
theory Telc_Send
  imports Telc_Receive Telc_Ring
begin

text \<open>
  The client's output: the commands of the protocol (\<^verbatim>\<open>xmitAO\<close> to \<^verbatim>\<open>sendayt\<close>, \<^verbatim>\<open>get_status\<close> of
  \<^verbatim>\<open>telnet.cc\<close>), the characters the terminal's owner reserves (\<^verbatim>\<open>TerminalSpecialChars\<close> of
  \<^verbatim>\<open>sys_bsd.cc\<close>), the keys that are sent (\<^verbatim>\<open>telsnd\<close>), the start of a session (\<^verbatim>\<open>telnet\<close>) and the
  signals.
\<close>

section \<open>Commands\<close>

definition doflush :: "telc \<Rightarrow> telc" where
  "doflush s = tty_drop ((netadd [IAC, DO, TELOPT_TM] s)\<lparr>c_flushline := True, c_flushout := True\<rparr>)"

definition xmitAO :: "telc \<Rightarrow> telc" where
  "xmitAO s = (let s1 = netadd [IAC, AO] s in if c_autoflush s1 then doflush s1 else s1)"

definition xmitEL :: "telc \<Rightarrow> telc" where
  "xmitEL s = netadd [IAC, EL] s"

definition xmitEC :: "telc \<Rightarrow> telc" where
  "xmitEC s = netadd [IAC, EC] s"

text \<open>The mark is at the data mark, the byte that is sent as urgent.\<close>

definition dosynch :: "telc \<Rightarrow> telc" where
  "dosynch s = (let s1 = netadd [IAC] s in netadd [DM] (s1\<lparr>c_net_mark := Some (length (c_net s1))\<rparr>))"

definition get_status :: "telc \<Rightarrow> telc" where
  "get_status s =
     (if \<not> c_my_want_state_is_do TELOPT_STATUS s then s
      else (netadd [IAC, SB, TELOPT_STATUS, TELQUAL_SEND, IAC, SE] s)\<lparr>c_want_status := c_want_status s + 1\<rparr>)"

definition send_signal :: "u8 \<Rightarrow> telc \<Rightarrow> telc" where
  "send_signal c s =
     (let s1 = (netadd [IAC, c] s)\<lparr>c_flushline := True\<rparr>;
          s2 = (if c_autoflush s1 then doflush s1 else s1)
      in if c_autosynch s2 then dosynch s2 else s2)"

definition intp :: "telc \<Rightarrow> telc" where "intp = send_signal IP"
definition c_sendbrk :: "telc \<Rightarrow> telc" where "c_sendbrk = send_signal BREAK"
definition sendabort :: "telc \<Rightarrow> telc" where "sendabort = send_signal ABORT"
definition c_sendsusp :: "telc \<Rightarrow> telc" where "c_sendsusp = send_signal SUSP"

definition sendeof :: "telc \<Rightarrow> telc" where
  "sendeof s = netadd [IAC, xEOF] s"

definition sendayt :: "telc \<Rightarrow> telc" where
  "sendayt s = netadd [IAC, AYT] s"

section \<open>Keys\<close>

text \<open>Whether the byte is to be sent as well, and the state.\<close>

definition terminal_special_chars :: "u8 \<Rightarrow> telc \<Rightarrow> bool \<times> telc" where
  "terminal_special_chars c s =
     (if c = c_cc s VINTR then (False, intp s)
      else if c = c_cc s VQUIT then (False, if c_kludgelinemode s then c_sendbrk s else sendabort s)
      else if c = c_cc s VEOF
      then (if c_my_want_state_is_will TELOPT_LINEMODE s then (False, sendeof s) else (True, s))
      else if c = c_cc s VSUSP then (False, c_sendsusp s)
      else if c = c_cc s VDISCARD then (False, xmitAO s)
      else if \<not> mode_local_chars (c_globalmode s) \<and> c = c_cc s VKILL then (False, xmitEL s)
      else if \<not> mode_local_chars (c_globalmode s) \<and> c = c_cc s VERASE then (False, xmitEC s)
      else (True, s))"

definition strip :: "u8 \<Rightarrow> u8" where
  "strip c = c AND 127"

text \<open>A line for the interpreter: \<open>gets\<close> with 128 bytes, see \<^verbatim>\<open>Telc_Ring.rb_gets\<close>.\<close>

definition key_line :: "telc_env \<Rightarrow> u8 list \<Rightarrow> telc \<Rightarrow> u8 list \<times> telc" where
  "key_line E cs s =
     (drop 128 cs, (e_command E (take 127 cs) s)\<lparr>c_bol := True, c_flushline := True\<rparr>)"

text \<open>
  What is decided about a key: the loop goes on without it, it ends, or the byte is to be sent, as it
  is and without its top bit, with what is left of the input.
\<close>

datatype key =
    Again "u8 list" telc
  | Stop "u8 list" telc
  | Key u8 u8 "u8 list" telc

definition key_rlogin :: "telc_env \<Rightarrow> u8 \<Rightarrow> u8 list \<Rightarrow> telc \<Rightarrow> key" where
  "key_rlogin E c cs s =
     (let sc = strip c;
          out = (\<lambda>c sc cs s. Key c sc cs (if sc = 10 \<or> sc = 13 then s\<lparr>c_bol := True\<rparr> else s)) in
      if c_bol s
      then (let s1 = s\<lparr>c_bol := False\<rparr>
            in if sc = c_rlogin s1 then Again cs (s1\<lparr>c_local := True\<rparr>) else out c sc cs s1)
      else if c_local s
      then (let s1 = s\<lparr>c_local := False\<rparr> in
            if sc = 46 \<or> c = c_cc s1 VEOF
            then Again cs (e_command E (bytes ''close'' @ [10]) (s1\<lparr>c_bol := True\<rparr>))
            else if sc = c_cc s1 VSUSP
            then Again cs (e_command E (bytes ''z'' @ [10]) (s1\<lparr>c_bol := True\<rparr>))
            else if sc = c_escapechar s1 \<and> c_escapechar s1 \<noteq> POSIX_VDISABLE
            then (case key_line E cs s1 of (cs1, s2) \<Rightarrow> Stop cs1 s2)
            else if sc \<noteq> c_rlogin s1 then out (c_rlogin s1) (c_rlogin s1) (c # cs) s1
            else out c sc cs s1)
      else out c sc cs s)"

definition key_escape :: "telc_env \<Rightarrow> u8 \<Rightarrow> u8 list \<Rightarrow> telc \<Rightarrow> key" where
  "key_escape E c cs s =
     (if strip c = c_escapechar s \<and> c_escapechar s \<noteq> POSIX_VDISABLE
      then (case cs of
              d # ds \<Rightarrow> if strip d = c_escapechar s then Key d (strip c) ds (s\<lparr>c_bol := False\<rparr>)
                        else (case key_line E cs s of (cs1, s1) \<Rightarrow> Stop cs1 s1)
            | [] \<Rightarrow> (case key_line E [] s of (cs1, s1) \<Rightarrow> Stop cs1 s1))
      else Key c (strip c) cs (s\<lparr>c_bol := False\<rparr>))"

text \<open>The character that switches the local echo, in the obsolete line mode.\<close>

definition key_echo :: "u8 \<Rightarrow> u8 \<Rightarrow> u8 list \<Rightarrow> telc \<Rightarrow> key" where
  "key_echo c sc cs s =
     (if c_kludgelinemode s \<and> has (c_globalmode s) MODE_EDIT \<and> sc = c_echoc s
      then let toggle = (setconnmode False (settimer_echotoggle (s\<lparr>c_dontlecho := \<not> c_dontlecho s\<rparr>)))
                 \<lparr>c_flushline := True\<rparr> in
        (case cs of
           d # ds \<Rightarrow> if strip d = c_echoc s then Key d sc ds s else Stop cs toggle
         | [] \<Rightarrow> Stop [] toggle)
      else Key c sc cs s)"

text \<open>The bytes for a key.\<close>

definition key_send :: "u8 \<Rightarrow> telc \<Rightarrow> telc" where
  "key_send c s =
     (if \<not> c_my_want_state_is_will TELOPT_BINARY s
      then (if c = 10
            then (netadd ((if mode_local_chars (c_globalmode s) then [13] else []) @ [10]) s)
                   \<lparr>c_bol := True, c_flushline := True\<rparr>
            else if c = 13
            then (netadd [13, if c_crlf s then 10 else 0] s)\<lparr>c_bol := True, c_flushline := True\<rparr>
            else if c = IAC then netadd [IAC, IAC] s
            else netadd [c] s)
      else if c = IAC then netadd [IAC, IAC] s else netadd [c] s)"

definition key_step :: "telc_env \<Rightarrow> u8 \<Rightarrow> u8 list \<Rightarrow> telc \<Rightarrow> key" where
  "key_step E c cs s =
     (case (if c_rlogin s \<noteq> POSIX_VDISABLE then key_rlogin E c cs s else key_escape E c cs s) of
        Key c1 sc1 cs1 s1 \<Rightarrow>
          (case key_echo c1 sc1 cs1 s1 of
             Key c2 sc2 cs2 s2 \<Rightarrow>
               (if mode_local_chars (c_globalmode s2)
                then (case terminal_special_chars sc2 s2 of
                        (True, s3) \<Rightarrow> Again cs2 (key_send c2 s3)
                      | (False, s3) \<Rightarrow> Stop cs2 (s3\<lparr>c_bol := True\<rparr>))
                else Again cs2 (key_send c2 s2))
           | k \<Rightarrow> k)
      | k \<Rightarrow> k)"

text \<open>
  The loop ends: a key of \<open>rlogin\<close>'s that goes back leaves the input as long as it was, but \<open>c_local\<close>
  is off then.
\<close>

definition keys_left :: "u8 list \<Rightarrow> telc \<Rightarrow> nat" where
  "keys_left cs s = 2 * length cs + (if c_local s then 1 else 0)"

lemma local_frame [simp]:
  "c_local (netadd bs s) = c_local s" "c_local (tty_drop s) = c_local s" "c_local (doflush s) = c_local s"
  "c_local (dosynch s) = c_local s" "c_local (send_signal c s) = c_local s" "c_local (key_send c s) = c_local s"
  by (simp_all add: netadd_def tty_drop_def c_act_def doflush_def dosynch_def Let_def send_signal_def key_send_def)

lemma special_local [simp]: "c_local (snd (terminal_special_chars c s)) = c_local s"
  by (simp add: terminal_special_chars_def intp_def c_sendbrk_def sendabort_def sendeof_def c_sendsusp_def
      xmitAO_def xmitEL_def xmitEC_def Let_def)

lemma key_rlogin_left:
  "key_rlogin E c cs s = Again cs1 s1 \<Longrightarrow> keys_left cs1 s1 < keys_left (c # cs) s"
  "key_rlogin E c cs s = Key c1 sc1 cs1 s1 \<Longrightarrow> keys_left cs1 s1 < keys_left (c # cs) s"
  by (auto simp: key_rlogin_def keys_left_def Let_def split: if_splits prod.splits)

lemma key_escape_left:
  "key_escape E c cs s \<noteq> Again cs1 s1"
  "key_escape E c cs s = Key c1 sc1 cs1 s1 \<Longrightarrow> keys_left cs1 s1 < keys_left (c # cs) s"
  by (auto simp: key_escape_def keys_left_def split: if_splits prod.splits list.splits)

lemma key_echo_left:
  "key_echo c sc cs s \<noteq> Again cs1 s1"
  "key_echo c sc cs s = Key c1 sc1 cs1 s1 \<Longrightarrow> keys_left cs1 s1 \<le> keys_left cs s"
  by (auto simp: key_echo_def keys_left_def Let_def split: if_splits list.splits)

lemma key_step_left:
  assumes "key_step E c cs s = Again cs1 s1"
  shows "keys_left cs1 s1 < keys_left (c # cs) s"
proof -
  define k where "k = (if c_rlogin s \<noteq> POSIX_VDISABLE then key_rlogin E c cs s else key_escape E c cs s)"
  show ?thesis
  proof (cases k)
    case (Again x y)
    then show ?thesis
      using assms key_rlogin_left(1) key_escape_left(1)
      by (auto simp: key_step_def k_def split: if_splits)
  next
    case (Key c2 sc2 cs2 s2)
    then have less: "keys_left cs2 s2 < keys_left (c # cs) s"
      using key_rlogin_left(2) key_escape_left(2) by (auto simp: k_def split: if_splits)
    show ?thesis
    proof (cases "key_echo c2 sc2 cs2 s2")
      case (Key c3 sc3 cs3 s3)
      then have "keys_left cs3 s3 \<le> keys_left cs2 s2" by (rule key_echo_left(2))
      moreover have "cs1 = cs3 \<and> c_local s1 = c_local s3"
        using assms Key \<open>k = Key c2 sc2 cs2 s2\<close> special_local[of sc3 s3]
        unfolding key_step_def k_def[symmetric]
        by (cases "terminal_special_chars sc3 s3") (auto split: if_splits bool.splits)
      ultimately show ?thesis using less by (simp add: keys_left_def)
    qed (use assms \<open>k = Key c2 sc2 cs2 s2\<close> key_echo_left(1) in \<open>auto simp: key_step_def k_def[symmetric]\<close>)
  qed (use assms in \<open>auto simp: key_step_def k_def[symmetric]\<close>)
qed

definition NETRING :: nat where "NETRING = 16384"

function telsnd :: "telc_env \<Rightarrow> u8 list \<Rightarrow> telc \<Rightarrow> u8 list \<times> telc" where
  "telsnd E [] s = ([], s)"
| "telsnd E (c # cs) s =
     (if NETRING \<le> length (c_net s) + 2 then (c # cs, s)
      else case key_step E c cs s of
          Again cs1 s1 \<Rightarrow> telsnd E cs1 s1
        | Stop cs1 s1 \<Rightarrow> (cs1, s1)
        | Key _ _ _ _ \<Rightarrow> (c # cs, s))"
  by pat_completeness auto
termination
  by (relation "measure (\<lambda>(E, cs, s). keys_left cs s)") (simp_all add: key_step_left)

section \<open>Signals, and the start of a session\<close>

definition rlogin_susp :: "telc_env \<Rightarrow> telc \<Rightarrow> bool \<times> telc" where
  "rlogin_susp E s =
     (if c_local s
      then (True, e_command E (bytes ''z'' @ [10]) (s\<lparr>c_local := False, c_bol := True\<rparr>)) else (False, s))"

definition susp :: "telc_env \<Rightarrow> telc \<Rightarrow> telc" where
  "susp E s =
     (let (done, s1) = (if c_rlogin s \<noteq> POSIX_VDISABLE then rlogin_susp E s else (False, s))
      in if done then s1 else if c_localchars s1 then c_sendsusp s1 else s1)"

text \<open>An interrupt that is not for the other side leaves the session.\<close>

definition intr :: "telc \<Rightarrow> telc" where
  "intr s = (if c_localchars s then intp s else c_act Leave (setcommandmode s))"

definition intr2 :: "telc \<Rightarrow> telc" where
  "intr2 s = (if c_localchars s then (if c_kludgelinemode s then c_sendbrk s else sendabort s) else s)"

definition sendwin :: "telc_env \<Rightarrow> telc \<Rightarrow> telc" where
  "sendwin E s = (if c_connected s then sendnaws E s else s)"

text \<open>\<open>eight\<close> has two bits: binary input and binary output.\<close>

definition telnet_start :: "bool \<Rightarrow> bool \<times> bool \<Rightarrow> telc \<Rightarrow> telc" where
  "telnet_start telnetport eight s0 =
     (let s = setconnmode False s0 in
      if \<not> telnetport then s
      else let
        s1 = c_send_do TELOPT_SGA True s;
        s2 = fold (\<lambda>o'. c_send_will o' True)
               [TELOPT_TTYPE, TELOPT_NAWS, TELOPT_TSPEED, TELOPT_LFLOW, TELOPT_LINEMODE, TELOPT_ENVIRON] s1;
        s3 = c_send_do TELOPT_STATUS True s2;
        s4 = (if env_getvalue (bytes ''DISPLAY'') False (c_vars s3) \<noteq> None
              then c_send_will TELOPT_XDISPLOC True s3 else s3)
      in tel_enter_binary (fst eight) (snd eight) s4)"

end
