(* ===== verification/Telc_Negotiation.thy ===== *)
theory Telc_Negotiation
  imports Telc_Send Telnet_Options
begin

text \<open>
  The client's side of each option as the machine that the server's theory \<^verbatim>\<open>Telnet_Options\<close>
  describes: the same contract, with the client's operations.
\<close>

section \<open>What the operations leave alone\<close>

lemma c_opt_power: "c_opt (2 ^ k) opt s \<longleftrightarrow> bit (c_options s opt) k"
  by (simp add: c_opt_def and_power_iff)

lemma c_opt_set_power:
  "k < 8 \<Longrightarrow> j < 8 \<Longrightarrow> c_opt (2 ^ k) opt (c_set (2 ^ j) on opt' s)
   \<longleftrightarrow> (if opt = opt' \<and> k = j then on else c_opt (2 ^ k) opt s)"
  by (auto simp: c_opt_power c_set_def bit_simps)

lemma c_opt_c_set [simp]:
  assumes "flag f" "flag g"
  shows "c_opt f opt (c_set g on opt' s) \<longleftrightarrow> (if opt = opt' \<and> f = g then on else c_opt f opt s)"
  using flag_power[OF assms(1)] flag_power[OF assms(2)]
  by (elim exE conjE; hypsubst) (simp add: c_opt_set_power power_inj)

lemma mode_frame [simp]:
  "c_options (setconnmode b s) = c_options s" "c_do_dont_resp (setconnmode b s) = c_do_dont_resp s"
  "c_will_wont_resp (setconnmode b s) = c_will_wont_resp s" "c_net (setconnmode b s) = c_net s"
  "c_vars (setconnmode b s) = c_vars s" "c_ts (setconnmode b s) = c_ts s"
  "c_options (setcommandmode s) = c_options s" "c_do_dont_resp (setcommandmode s) = c_do_dont_resp s"
  "c_will_wont_resp (setcommandmode s) = c_will_wont_resp s" "c_net (setcommandmode s) = c_net s"
  "c_vars (setcommandmode s) = c_vars s" "c_ts (setcommandmode s) = c_ts s"
  by (simp_all add: setconnmode_def setcommandmode_def terminal_new_mode_def tty_drain_def tty_drop_def
      c_act_def Let_def)

lemma c_resp_frame [simp]:
  "c_do_dont_resp (netadd bs s) = c_do_dont_resp s" "c_will_wont_resp (netadd bs s) = c_will_wont_resp s"
  "c_do_dont_resp (c_set f on opt s) = c_do_dont_resp s"
  "c_will_wont_resp (c_set f on opt s) = c_will_wont_resp s"
  "c_do_dont_resp (settimer_modenegotiated s) = c_do_dont_resp s"
  "c_will_wont_resp (settimer_modenegotiated s) = c_will_wont_resp s"
  "c_do_dont_resp (c_inc_will_wont opt s) = c_do_dont_resp s"
  "c_will_wont_resp (c_inc_do_dont opt s) = c_will_wont_resp s"
  "c_do_dont_resp (c_inc_do_dont opt s) = (c_do_dont_resp s)(opt := c_do_dont_resp s opt + 1)"
  "c_will_wont_resp (c_inc_will_wont opt s) = (c_will_wont_resp s)(opt := c_will_wont_resp s opt + 1)"
  "c_do_dont_resp (c_my_answer on opt s) = c_do_dont_resp s"
  "c_will_wont_resp (c_his_answer on opt s) = c_will_wont_resp s"
  "c_do_dont_resp (c_his_answer on opt s) =
     (c_do_dont_resp s)(opt := answered (c_my_state_is_do opt s = on) (c_do_dont_resp s opt))"
  "c_will_wont_resp (c_my_answer on opt s) =
     (c_will_wont_resp s)(opt := answered (c_my_state_is_will opt s = on) (c_will_wont_resp s opt))"
  by (simp_all add: netadd_def c_set_def settimer_modenegotiated_def c_inc_will_wont_def c_inc_do_dont_def
      c_my_answer_def c_his_answer_def)

lemma c_net_frame [simp]:
  "c_net (netadd bs s) = c_net s @ bs" "c_net (c_set f on opt s) = c_net s"
  "c_net (settimer_modenegotiated s) = c_net s" "c_net (c_inc_will_wont opt s) = c_net s"
  "c_net (c_inc_do_dont opt s) = c_net s" "c_net (c_my_answer on opt s) = c_net s"
  "c_net (c_his_answer on opt s) = c_net s"
  by (simp_all add: netadd_def c_set_def settimer_modenegotiated_def c_inc_will_wont_def c_inc_do_dont_def
      c_my_answer_def c_his_answer_def)

lemma c_opt_cong: "c_options s opt = c_options t opt \<Longrightarrow> c_opt f opt s = c_opt f opt t"
  by (simp add: c_opt_def)

lemma c_opt_frame [simp]:
  "c_opt f opt (netadd bs s) = c_opt f opt s" "c_opt f opt (settimer_modenegotiated s) = c_opt f opt s"
  "c_opt f opt (c_inc_do_dont o' s) = c_opt f opt s" "c_opt f opt (c_inc_will_wont o' s) = c_opt f opt s"
  "c_opt f opt (c_my_answer on o' s) = c_opt f opt s" "c_opt f opt (c_his_answer on o' s) = c_opt f opt s"
  "c_opt f opt (setconnmode b s) = c_opt f opt s" "c_opt f opt (setcommandmode s) = c_opt f opt s"
  "c_opt f opt (s\<lparr>c_linemode := lm\<rparr>) = c_opt f opt s" "c_opt f opt (s\<lparr>c_ts := ts\<rparr>) = c_opt f opt s"
  "c_opt f opt (s\<lparr>c_flushout := b\<rparr>) = c_opt f opt s" "c_opt f opt (s\<lparr>c_flushline := b\<rparr>) = c_opt f opt s"
  "c_opt f opt (s\<lparr>c_localflow := b\<rparr>) = c_opt f opt s"
  by (rule c_opt_cong,
      simp add: netadd_def settimer_modenegotiated_def c_inc_do_dont_def c_inc_will_wont_def
        c_my_answer_def c_his_answer_def)+

section \<open>The two sides\<close>

definition c_my_view :: "u8 \<Rightarrow> telc \<Rightarrow> nego" where
  "c_my_view opt s =
     \<lparr>st = c_my_state_is_will opt s, want = c_my_want_state_is_will opt s, resp = c_will_wont_resp s opt\<rparr>"

definition c_his_view :: "u8 \<Rightarrow> telc \<Rightarrow> nego" where
  "c_his_view opt s =
     \<lparr>st = c_my_state_is_do opt s, want = c_my_want_state_is_do opt s, resp = c_do_dont_resp s opt\<rparr>"

definition c_willing :: "u8 set" where
  "c_willing = {TELOPT_BINARY, TELOPT_NAWS, TELOPT_TSPEED, TELOPT_LFLOW, TELOPT_TTYPE, TELOPT_SGA, TELOPT_ENVIRON}"

definition c_accepts :: "u8 set" where
  "c_accepts = {TELOPT_ECHO, TELOPT_BINARY, TELOPT_SGA, TELOPT_STATUS}"

lemma c_performs_plain: "opt \<noteq> TELOPT_XDISPLOC \<Longrightarrow> c_performs opt s \<longleftrightarrow> opt \<in> c_willing"
  by (simp add: c_performs_def c_willing_def)

interpretation client_my_side: negotiating "c_my_view opt" c_net "say_my opt" "opt \<in> c_willing"
    "opt \<notin> {TELOPT_TM, TELOPT_LINEMODE, TELOPT_XDISPLOC}" "c_dooption E opt" "c_dontoption opt" for opt E
  by unfold_locales
    (auto simp: c_my_view_def c_dooption_def c_dontoption_def nego_receive_def say_my_def Let_def
      c_send_will_def c_send_wont_def c_performs_plain)

interpretation client_his_side: negotiating "c_his_view opt" c_net "say_his opt" "opt \<in> c_accepts"
    "opt \<noteq> TELOPT_TM" "c_willoption opt" "c_wontoption opt" for opt
  by unfold_locales
    (auto simp: c_his_view_def c_willoption_def c_wontoption_def nego_receive_def say_his_def Let_def
      c_send_do_def c_send_dont_def c_accepts_def)

end
