(* ===== verification/Telnet_Agreement.thy ===== *)
theory Telnet_Agreement
  imports Telc_Negotiation
begin

text \<open>
  Client and server together: the requests and answers about one option that the server performs,
  on their way through the connection. First the two machines of the negotiation, then the two
  programs that implement them.
\<close>

section \<open>Requests that nobody asked for\<close>

definition nego_request :: "bool \<Rightarrow> nego \<Rightarrow> nego \<times> bool list" where
  "nego_request on n =
     (if resp n = 0 \<and> st n = on \<or> want n = on then (n, [])
      else (n\<lparr>want := on, resp := resp n + 1\<rparr>, [on]))"

lemma server_request:
  "my_view opt (if on then send_will opt True s else send_wont opt True s) = fst (nego_request on (my_view opt s))"
  "net_out (if on then send_will opt True s else send_wont opt True s) =
     net_out s @ concat (map (say_my opt) (snd (nego_request on (my_view opt s))))"
  by (auto simp: my_view_def nego_request_def send_will_def send_wont_def say_my_def)

lemma client_request:
  "c_his_view opt (if on then c_send_do opt True c else c_send_dont opt True c) = fst (nego_request on (c_his_view opt c))"
  "c_net (if on then c_send_do opt True c else c_send_dont opt True c) =
     c_net c @ concat (map (say_his opt) (snd (nego_request on (c_his_view opt c))))"
  by (auto simp: c_his_view_def nego_request_def c_send_do_def c_send_dont_def say_his_def)

section \<open>The two machines\<close>

text \<open>
  What is on its way to a side alternates, starting from the state the side knows, and ends with
  what the other side wants; each message is one open request; a side with an odd number of open
  requests does not have what it wants.
\<close>

fun alternating :: "bool list \<Rightarrow> bool" where
  "alternating (x # y # ys) \<longleftrightarrow> x \<noteq> y \<and> alternating (y # ys)"
| "alternating _ \<longleftrightarrow> True"

lemma alternating_snoc: "alternating ((x # xs) @ [y]) \<longleftrightarrow> alternating (x # xs) \<and> last (x # xs) \<noteq> y"
  by (induction xs arbitrary: x) auto

definition half_agrees :: "nego \<Rightarrow> nego \<Rightarrow> bool list \<Rightarrow> bool" where
  "half_agrees a b ab \<longleftrightarrow> last (st b # ab) = want a \<and> alternating (st b # ab) \<and> (odd (unat (resp a)) \<longleftrightarrow> st a \<noteq> want a)"

definition nego_agrees :: "nego \<Rightarrow> nego \<Rightarrow> bool list \<Rightarrow> bool list \<Rightarrow> bool" where
  "nego_agrees a b ab ba \<longleftrightarrow> half_agrees a b ab \<and> half_agrees b a ba \<and>
     unat (resp a) + unat (resp b) = length ab + length ba"

lemma nego_agrees_sym: "nego_agrees a b ab ba \<longleftrightarrow> nego_agrees b a ba ab"
  by (auto simp: nego_agrees_def)

lemma nego_agrees_receive:
  assumes inv: "nego_agrees a b (c # ab) ba" and rcv: "nego_receive True c b = (b', rs)"
  shows "nego_agrees a b' ab (ba @ rs)"
proof -
  have c: "c = (\<not> st b)" "alternating (c # ab)" "last (c # ab) = want a"
    using inv by (auto simp: nego_agrees_def half_agrees_def)
  have b: "last (st a # ba) = want b" "alternating (st a # ba)" "odd (unat (resp b)) \<longleftrightarrow> st b \<noteq> want b"
    using inv by (auto simp: nego_agrees_def half_agrees_def)
  show ?thesis
  proof (cases "resp b = 0")
    case True
    then have "want b = st b" using b(3) by auto
    then have "b' = b\<lparr>st := c, want := c\<rparr>" "rs = [c]"
      using rcv c(1) True by (auto simp: nego_receive_def answered_def Let_def)
    then show ?thesis
      using inv c b alternating_snoc[of "st a" ba c] \<open>want b = st b\<close> True
      by (auto simp: nego_agrees_def half_agrees_def)
  next
    case False
    then have r: "unat (resp b - 1) = unat (resp b) - 1" "0 < unat (resp b)"
      by (simp_all add: unat_minus_one unat_gt_0)
    have "answered (st b = c) (resp b) = resp b - 1"
      using False c(1) by (simp add: answered_def Let_def)
    moreover have "resp b - 1 = 0 \<Longrightarrow> c = want b"
    proof -
      assume "resp b - 1 = 0"
      then have "unat (resp b) = 1" using r arg_cong[where f=unat] by fastforce
      then show ?thesis using b(3) c(1) by auto
    qed
    ultimately have "b' = b\<lparr>st := c, resp := resp b - 1\<rparr>" "rs = []"
      using rcv by (auto simp: nego_receive_def Let_def split: if_splits)
    then show ?thesis
      using inv c b r by (auto simp: nego_agrees_def half_agrees_def)
  qed
qed

lemma nego_agrees_request:
  assumes inv: "nego_agrees a b ab ba" and req: "nego_request on a = (a', rs)" and "resp a \<noteq> 255"
  shows "nego_agrees a' b (ab @ rs) ba"
proof (cases "resp a = 0 \<and> st a = on \<or> want a = on")
  case True
  then show ?thesis using assms by (auto simp: nego_request_def)
next
  case False
  have "resp a + 1 \<noteq> 0"
  proof
    assume "resp a + 1 = 0"
    then have "resp a = - 1" by (simp add: eq_neg_iff_add_eq_0)
    then show False using assms(3) by simp
  qed
  then have "unat (resp a + 1) = unat (resp a) + 1" using unatSuc[of "resp a"] by (simp add: add.commute)
  moreover have "a' = a\<lparr>want := on, resp := resp a + 1\<rparr>" "rs = [on]" "want a \<noteq> on"
    using req False by (auto simp: nego_request_def)
  moreover have "alternating ((st b # ab) @ [on])"
    using inv \<open>want a \<noteq> on\<close> alternating_snoc[of "st b" ab on] by (simp add: nego_agrees_def half_agrees_def)
  ultimately show ?thesis
    using inv by (cases "want a"; cases on; simp add: nego_agrees_def half_agrees_def)
qed

lemma nego_agrees_quiet:
  "nego_agrees a b [] [] \<Longrightarrow> st a = want a \<and> st b = want b \<and> want a = want b \<and> resp a = 0 \<and> resp b = 0"
  by (auto simp: nego_agrees_def half_agrees_def unat_eq_0)

section \<open>The two programs\<close>

text \<open>
  The server, the client, and what one has said about an option and the other has not heard yet:
  the server's WILL and WONT, the client's DO and DONT. A side receives the oldest message, or asks
  for a change of its own, as long as no counter of open requests is at its end; anything else it
  does leaves its view of the option alone.
\<close>

type_synonym link = "telnetd \<times> telc \<times> bool list \<times> bool list"

inductive link_step :: "u8 \<Rightarrow> link \<Rightarrow> link \<Rightarrow> bool" for opt where
  client_hears:
    "c' = (if x then c_willoption opt c else c_wontoption opt c) \<Longrightarrow>
     c_net c' = c_net c @ concat (map (say_his opt) rs) \<Longrightarrow>
     link_step opt (s, c, x # sc, cs) (s, c', sc, cs @ rs)"
| server_hears:
    "s' = (if x then dooption opt s else dontoption opt s) \<Longrightarrow>
     net_out s' = net_out s @ concat (map (say_my opt) rs) \<Longrightarrow>
     link_step opt (s, c, sc, x # cs) (s', c, sc @ rs, cs)"
| server_asks:
    "s' = (if on then send_will opt True s else send_wont opt True s) \<Longrightarrow> will_wont_resp s opt \<noteq> 255 \<Longrightarrow>
     net_out s' = net_out s @ concat (map (say_my opt) rs) \<Longrightarrow>
     link_step opt (s, c, sc, cs) (s', c, sc @ rs, cs)"
| client_asks:
    "c' = (if on then c_send_do opt True c else c_send_dont opt True c) \<Longrightarrow> c_do_dont_resp c opt \<noteq> 255 \<Longrightarrow>
     c_net c' = c_net c @ concat (map (say_his opt) rs) \<Longrightarrow>
     link_step opt (s, c, sc, cs) (s, c', sc, cs @ rs)"
| elsewhere:
    "my_view opt s' = my_view opt s \<Longrightarrow> c_his_view opt c' = c_his_view opt c \<Longrightarrow>
     link_step opt (s, c, sc, cs) (s', c', sc, cs)"

inductive_cases link_stepE: "link_step opt x y"

lemma say_inj:
  "concat (map (say_my opt) rs) = concat (map (say_my opt) rs') \<Longrightarrow> rs = rs'"
  "concat (map (say_his opt) rs) = concat (map (say_his opt) rs') \<Longrightarrow> rs = rs'"
  by (induction rs arbitrary: rs'; case_tac rs'; auto simp: say_my_def say_his_def telnet_codes split: if_splits)+

definition link_agrees :: "u8 \<Rightarrow> link \<Rightarrow> bool" where
  "link_agrees opt = (\<lambda>(s, c, sc, cs). nego_agrees (my_view opt s) (c_his_view opt c) sc cs)"

lemma link_step_agrees:
  assumes "link_step opt x y" "link_agrees opt x" and opt: "opt \<in> {TELOPT_ECHO, TELOPT_BINARY, TELOPT_STATUS}"
  shows "link_agrees opt y"
  using assms(1,2)
proof (cases rule: link_step.cases)
  case (client_hears c' b c rs s sc cs)
  have plain: "opt \<noteq> TELOPT_TM" "opt \<in> c_accepts" using opt by (auto simp: telnet_opts c_accepts_def)
  have r: "nego_receive True b (c_his_view opt c) = (c_his_view opt c', rs)"
    using client_hears(3,4) plain
      client_his_side.yes_view[of opt c] client_his_side.yes_out[of opt c]
      client_his_side.no_view[of opt c] client_his_side.no_out[of opt c]
    by (cases b) (auto intro!: prod_eqI dest!: say_inj(2))
  show ?thesis
    using nego_agrees_receive[OF _ r] assms(2) client_hears(1,2) by (simp add: link_agrees_def)
next
  case (server_hears s' b s rs c sc cs)
  have plain: "opt \<notin> {TELOPT_TM, TELOPT_LOGOUT, TELOPT_SGA}" "opt \<in> performs"
    using opt by (auto simp: telnet_opts performs_def)
  have r: "nego_receive True b (my_view opt s) = (my_view opt s', rs)"
    using server_hears(3,4) plain my_side.yes_view[of opt s] my_side.yes_out[of opt s]
      my_side.no_view[of opt s] my_side.no_out[of opt s]
    by (cases b) (auto intro!: prod_eqI dest!: say_inj(1))
  show ?thesis
    using nego_agrees_receive[OF _ r] assms(2) server_hears(1,2) nego_agrees_sym
    by (simp add: link_agrees_def)
next
  case (server_asks s' on s rs c sc cs)
  have r: "nego_request on (my_view opt s) = (my_view opt s', rs)"
    using server_asks(3,5) server_request[where opt=opt and on=on and s=s] by (auto intro!: prod_eqI dest!: say_inj(1))
  show ?thesis
    using nego_agrees_request[OF _ r] assms(2) server_asks(1,2,4) by (simp add: link_agrees_def my_view_def)
next
  case (client_asks c' on c rs s sc cs)
  have r: "nego_request on (c_his_view opt c) = (c_his_view opt c', rs)"
    using client_asks(3,5) client_request[where opt=opt and on=on and c=c] by (auto intro!: prod_eqI dest!: say_inj(2))
  show ?thesis
    using nego_agrees_request[OF _ r] assms(2) client_asks(1,2,4) nego_agrees_sym
    by (simp add: link_agrees_def c_his_view_def)
next
  case (elsewhere s' s c' c sc cs)
  then show ?thesis using assms(2) by (simp add: link_agrees_def)
qed

lemma link_reaches:
  "(link_step opt)\<^sup>*\<^sup>* x y \<Longrightarrow> opt \<in> {TELOPT_ECHO, TELOPT_BINARY, TELOPT_STATUS} \<Longrightarrow> link_agrees opt x \<Longrightarrow>
   link_agrees opt y"
  by (induction rule: rtranclp_induct) (auto intro: link_step_agrees)

lemma link_start:
  assumes "my_view opt s = \<lparr>st = False, want = False, resp = 0\<rparr>"
    "c_his_view opt c = \<lparr>st = False, want = False, resp = 0\<rparr>"
  shows "link_agrees opt (s, c, [], [])"
  using assms by (simp add: link_agrees_def nego_agrees_def half_agrees_def)

end
