(* ===== verification/Telc_Session.thy ===== *)
theory Telc_Session
  imports Telnet_Agreement Telnet_Decode
begin

text \<open>
  What client and server make of each other's bytes: keys, the size of the window, the name of the
  terminal and the environment, sent by the client's functions and read by the server's receiver.
  At the end the bounds of the client's own buffers.
\<close>

section \<open>Keys\<close>

text \<open>
  Character at a time: nothing is reserved for the local side but the escape character, and the
  option for binary data is off.
\<close>

definition char_mode :: "telc \<Rightarrow> bool" where
  "char_mode s \<longleftrightarrow> c_rlogin s = POSIX_VDISABLE \<and> \<not> mode_local_chars (c_globalmode s) \<and>
     \<not> c_my_want_state_is_will TELOPT_BINARY s"

definition plain_key :: "telc \<Rightarrow> u8 \<Rightarrow> bool" where
  "plain_key s c \<longleftrightarrow> strip c \<noteq> c_escapechar s \<or> c_escapechar s = POSIX_VDISABLE"

lemma mode_edit: "\<not> mode_local_chars m \<Longrightarrow> \<not> has m MODE_EDIT"
  by (simp add: mode_local_chars_def has_mask_or)

lemma key_step_plain:
  "char_mode s \<Longrightarrow> plain_key s c \<Longrightarrow> key_step E c cs s = Again cs (key_send c (s\<lparr>c_bol := False\<rparr>))"
  by (auto simp: key_step_def key_escape_def key_echo_def char_mode_def plain_key_def dest: mode_edit)

lemma key_send_frame [simp]:
  "c_rlogin (key_send c s) = c_rlogin s" "c_globalmode (key_send c s) = c_globalmode s"
  "c_escapechar (key_send c s) = c_escapechar s" "c_crlf (key_send c s) = c_crlf s"
  "c_options (key_send c s) = c_options s"
  by (simp_all add: key_send_def netadd_def)

lemma char_mode_send: "char_mode s \<Longrightarrow> char_mode (key_send c (s\<lparr>c_bol := b\<rparr>))"
  by (simp add: char_mode_def c_opt_def)

lemma key_send_net:
  "char_mode s \<Longrightarrow> c_net (key_send c (s\<lparr>c_bol := b\<rparr>)) = c_net s @ nvt (c_crlf s) c"
  by (simp add: key_send_def char_mode_def nvt_def netadd_def c_opt_def IAC_def)

lemma nvt_length: "length (nvt lf c) \<le> 2"
  by (simp add: nvt_def)

lemma telsnd_plain:
  assumes "char_mode s" "\<forall>c\<in>set cs. plain_key s c" "length (c_net s) + 2 * length cs + 2 < NETRING"
  shows "\<exists>s1. telsnd E cs s = ([], s1) \<and> c_net s1 = c_net s @ concat (map (nvt (c_crlf s)) cs)"
  using assms
proof (induction cs arbitrary: s)
  case (Cons c cs)
  let ?s = "key_send c (s\<lparr>c_bol := False\<rparr>)"
  have step: "key_step E c cs s = Again cs ?s"
    using Cons.prems by (simp add: key_step_plain)
  have net: "c_net ?s = c_net s @ nvt (c_crlf s) c" "c_crlf ?s = c_crlf s"
    using key_send_net[OF Cons.prems(1)] by auto
  have "\<exists>s1. telsnd E cs ?s = ([], s1) \<and> c_net s1 = c_net ?s @ concat (map (nvt (c_crlf ?s)) cs)"
    by (rule Cons.IH)
      (use Cons.prems net nvt_length[of "c_crlf s" c] char_mode_send in \<open>auto simp: plain_key_def\<close>)
  then show ?case using step net Cons.prems(3) by auto
qed simp

section \<open>The window\<close>

lemma doubled_encode: "iac_doubled a @ sb_encode bs = sb_encode (a # bs)"
  by (simp add: iac_doubled_def sb_encode_def)

lemma sb_encode_append: "sb_encode (xs @ ys) = sb_encode xs @ sb_encode ys"
  by (simp add: sb_encode_def)

lemma sb_encode_plain: "IAC \<notin> set xs \<Longrightarrow> sb_encode xs = xs"
  by (induction xs) (auto simp: sb_encode_def)

lemma sendnaws_bytes:
  assumes "c_my_state_is_will TELOPT_NAWS c" "e_winsize E = Some (rows, cols)"
  shows "c_net (sendnaws E c) = c_net c @ [IAC, SB] @
    sb_encode [TELOPT_NAWS, ucast (drop_bit 8 cols), ucast cols, ucast (drop_bit 8 rows), ucast rows] @ [IAC, SE]"
  using assms
  by (simp add: sendnaws_def putshort_def netadd_def sb_encode_def iac_doubled_def TELOPT_NAWS_def IAC_def)

lemma high_byte: "0 \<le> (y :: int) \<Longrightarrow> y < 65536 \<Longrightarrow> y div 256 mod 256 = y div 256"
proof -
  assume y: "0 \<le> y" "y < 65536"
  have "256 * (y div 256) + y mod 256 = y" "0 \<le> y mod 256" by simp_all
  then have "y div 256 < 256" using y by linarith
  then show ?thesis using y by (simp add: mod_pos_pos_trivial pos_imp_zdiv_nonneg_iff)
qed

lemma short_bytes: "256 * uint (ucast (drop_bit 8 x) :: u8) + uint (ucast x :: u8) = uint (x :: u16)"
proof -
  have x: "0 \<le> uint x" "uint x < 65536" using uint_lt2p[of x] by simp_all
  have "uint (drop_bit 8 x) = uint x div 256" by (simp add: drop_bit_eq_div uint_div_distrib)
  then have "uint (ucast (drop_bit 8 x) :: u8) = uint x div 256"
    using high_byte[OF x] by (simp add: unsigned_ucast_eq take_bit_eq_mod)
  moreover have "uint (ucast x :: u8) = uint x mod 256"
    by (simp add: unsigned_ucast_eq take_bit_eq_mod)
  ultimately show ?thesis by simp
qed

section \<open>The name of the terminal\<close>

lemma upcase_length [simp]: "length (upcase w) = length w"
  by (simp add: upcase_def)

lemma list_swap_simps [simp]:
  "length (list_swap i j xs) = length xs"
  "i < length xs \<Longrightarrow> j < length xs \<Longrightarrow> set (list_swap i j xs) = set xs"
  by (simp_all add: list_swap_def set_swap)

lemma list_swap_map: "i < length xs \<Longrightarrow> j < length xs \<Longrightarrow> map f (list_swap i j xs) = list_swap i j (map f xs)"
  by (simp add: list_swap_def map_update)

lemma distinct_list_swap: "i < length xs \<Longrightarrow> j < length xs \<Longrightarrow> distinct (list_swap i j xs) = distinct xs"
  by (simp add: list_swap_def)

definition reordered :: "(bool \<times> u8 list) list \<Rightarrow> (bool \<times> u8 list) list \<Rightarrow> bool" where
  "reordered f g \<longleftrightarrow> length g = length f \<and> set g = set f \<and> (distinct (map snd g) \<longleftrightarrow> distinct (map snd f))"

lemma reordered_swap:
  assumes "reordered f g" "i < length f" "j < length f"
  shows "reordered f (list_swap i j g)"
proof -
  have "map snd (list_swap i j g) = list_swap i j (map snd g)"
    using assms by (intro list_swap_map) (simp_all add: reordered_def)
  then show ?thesis
    using assms by (simp add: reordered_def distinct_list_swap)
qed

lemma term_to_front:
  assumes "distinct (map snd fill)"
  shows "reordered fill (term_to_front name fill) \<and>
    (upcase name \<in> set (map snd fill) \<longrightarrow> snd (term_to_front name fill ! 0) = upcase name)"
proof -
  define step where "step j f = (if upcase name = snd (f ! j) then list_swap j 0 f else f)"
    for j and f :: "(bool \<times> u8 list) list"
  have run: "m \<le> length fill \<Longrightarrow> 0 < m \<Longrightarrow>
    reordered fill (fold step [1..<m] fill) \<and> (\<forall>i. m \<le> i \<longrightarrow> fold step [1..<m] fill ! i = fill ! i) \<and>
    ((\<exists>i<m. snd (fill ! i) = upcase name) \<longrightarrow> snd (fold step [1..<m] fill ! 0) = upcase name)" for m
  proof (induction m)
    case (Suc m)
    show ?case
    proof (cases "m = 0")
      case True
      then show ?thesis using Suc.prems by (simp add: reordered_def)
    next
      case False
      define g where "g = fold step [1..<m] fill"
      have g: "reordered fill g" "\<forall>i. m \<le> i \<longrightarrow> g ! i = fill ! i"
        "(\<exists>i<m. snd (fill ! i) = upcase name) \<longrightarrow> snd (g ! 0) = upcase name"
        using Suc False by (auto simp: g_def)
      have e: "fold step [1..<Suc m] fill = step m g" using False by (simp add: g_def)
      have "0 < length fill" using Suc.prems by linarith
      have len: "length g = length fill" using g(1) by (simp add: reordered_def)
      have "reordered fill (step m g)"
        using g(1) reordered_swap[of fill g m 0] \<open>0 < length fill\<close> Suc.prems by (auto simp: step_def)
      moreover have "\<forall>i. Suc m \<le> i \<longrightarrow> step m g ! i = fill ! i"
        using g(2) False by (auto simp: step_def list_swap_def)
      moreover have "(\<exists>i<Suc m. snd (fill ! i) = upcase name) \<longrightarrow> snd (step m g ! 0) = upcase name"
        using g(2,3) False Suc.prems len \<open>0 < length fill\<close> by (auto simp: step_def list_swap_def less_Suc_eq)
      ultimately show ?thesis unfolding e by blast
    qed
  qed simp
  have t: "term_to_front name fill = fold step [1..<length fill] fill"
    by (simp add: term_to_front_def step_def[abs_def])
  show ?thesis
  proof (cases "fill = []")
    case True
    then show ?thesis by (simp add: term_to_front_def reordered_def)
  next
    case False
    have "upcase name \<in> set (map snd fill) \<longleftrightarrow> (\<exists>i<length fill. snd (fill ! i) = upcase name)"
      unfolding in_set_conv_nth by auto
    moreover have "0 < length fill" using False by simp
    ultimately show ?thesis
      using run[of "length fill"] unfolding t by blast
  qed
qed

lemma term_v6_last: "reordered fill (term_v6_last fill) \<and> term_v6_last fill ! 0 = fill ! 0"
proof -
  have "\<forall>k\<in>set ks. 0 < k \<and> k < length fill - 1 \<Longrightarrow> reordered fill g \<Longrightarrow> g ! 0 = fill ! 0 \<Longrightarrow>
    reordered fill (fold (\<lambda>k f. if length (snd (f ! k)) = 2 \<and> fst (f ! k) then list_swap (length f - 1) k f else f) ks g) \<and>
    fold (\<lambda>k f. if length (snd (f ! k)) = 2 \<and> fst (f ! k) then list_swap (length f - 1) k f else f) ks g ! 0 = fill ! 0"
    for ks g
  proof (induction ks arbitrary: g)
    case (Cons k ks)
    have k: "0 < k" "k < length fill" "length fill - 1 < length fill" "length g = length fill" "0 < length fill - 1"
      using Cons.prems by (auto simp: reordered_def)
    have "reordered fill (list_swap (length g - 1) k g)" "list_swap (length g - 1) k g ! 0 = fill ! 0"
      using k Cons.prems reordered_swap[of fill g "length fill - 1" k] by (auto simp: list_swap_def)
    then show ?case using Cons by simp
  qed simp
  then show ?thesis
    unfolding term_v6_last_def by (simp add: reordered_def)
qed

lemma term_unique:
  "distinct (map snd fill) \<Longrightarrow> (\<forall>w\<in>set (map snd fill). length w \<le> 40) \<Longrightarrow>
   distinct (map snd (term_unique fill ws)) \<and> (\<forall>w\<in>set (map snd (term_unique fill ws)). length w \<le> 40)"
proof (induction ws arbitrary: fill)
  case (Cons x ws)
  obtain b w where x: "x = (b, w)" by (cases x)
  show ?case
  proof (cases "term_good w \<and> upcase w \<notin> set (map snd fill)")
    case True
    have "distinct (map snd (fill @ [(b, upcase w)]))" "\<forall>w\<in>set (map snd (fill @ [(b, upcase w)])). length w \<le> 40"
      using True Cons.prems by (auto simp: term_good_def)
    from Cons.IH[OF this] True show ?thesis by (simp add: x)
  next
    case False
    then show ?thesis using Cons.IH[OF Cons.prems] by (auto simp: x)
  qed
qed simp

definition term_names :: "u8 list \<Rightarrow> u8 list list" where
  "term_names buf = map snd (term_unique [] (term_tokens (takeWhile (\<lambda>c. c \<noteq> 58) buf)))"

lemma mklist:
  "\<exists>ns. mklist buf name = ns @ [last ns] \<and> ns \<noteq> [] \<and> distinct ns \<and> (\<forall>n\<in>set ns. length n \<le> 40) \<and>
    (upcase name \<in> set (term_names buf) \<longrightarrow> hd ns = upcase name) \<and>
    (term_names buf \<noteq> [] \<longrightarrow> set ns = set (term_names buf))"
proof -
  define f0 where "f0 = term_unique [] (term_tokens (takeWhile (\<lambda>c. c \<noteq> 58) buf))"
  define f1 where "f1 = term_v6_last (term_to_front name f0)"
  define ns where "ns = (if map snd f1 = [] then [if length name < 40 then name else bytes ''UNKNOWN''] else map snd f1)"
  have f0: "distinct (map snd f0)" "\<forall>w\<in>set (map snd f0). length w \<le> 40"
    using term_unique[of "[]" "term_tokens (takeWhile (\<lambda>c. c \<noteq> 58) buf)"] by (simp_all add: f0_def)
  have r: "reordered f0 (term_to_front name f0)" "reordered (term_to_front name f0) f1"
    "f1 ! 0 = term_to_front name f0 ! 0"
    "upcase name \<in> set (map snd f0) \<Longrightarrow> snd (term_to_front name f0 ! 0) = upcase name"
    using term_to_front[OF f0(1), of name] term_v6_last[of "term_to_front name f0"] by (simp_all add: f1_def)
  then have f1: "length f1 = length f0" "set f1 = set f0" "distinct (map snd f1)"
    using f0(1) by (auto simp: reordered_def)
  have e: "mklist buf name = ns @ [last ns]"
    by (simp add: mklist_def Let_def ns_def f1_def f0_def)
  have b: "length (bytes ''UNKNOWN'') \<le> 40" by (simp add: bytes_def)
  have "ns \<noteq> []" "distinct ns" using f1 by (auto simp: ns_def)
  moreover have "\<forall>n\<in>set ns. length n \<le> 40" using f0(2) f1 b by (auto simp: ns_def)
  moreover have "hd ns = upcase name" if "upcase name \<in> set (term_names buf)"
  proof -
    have m: "upcase name \<in> set (map snd f0)" using that by (simp add: term_names_def f0_def)
    then have "f1 \<noteq> []" using f1(1) by auto
    then have "hd ns = snd (f1 ! 0)" by (simp add: ns_def hd_map hd_conv_nth)
    then show ?thesis using r(3) r(4)[OF m] by simp
  qed
  moreover have "set ns = set (term_names buf)" if "term_names buf \<noteq> []"
    using that f1 by (auto simp: ns_def term_names_def f0_def[symmetric])
  ultimately show ?thesis using e by blast
qed

text \<open>What the server hears when it asks again and again.\<close>

fun ttype_asked :: "telc_env \<Rightarrow> nat \<Rightarrow> telc \<Rightarrow> u8 list list" where
  "ttype_asked E 0 s = []"
| "ttype_asked E (Suc k) s = (case gettermname E s of (n, s1) \<Rightarrow> n # ttype_asked E k s1)"

lemma ttype_asked:
  "\<not> c_resettermname s \<Longrightarrow> c_termtypes s \<noteq> [] \<Longrightarrow> c_next_type s \<le> length (c_termtypes s) \<Longrightarrow>
   ttype_asked E k s = map (\<lambda>i. c_termtypes s ! ((c_next_type s + i) mod length (c_termtypes s))) [0..<k]"
proof (induction k arbitrary: s)
  case (Suc k)
  define n where "n = length (c_termtypes s)"
  define i where "i = (if c_next_type s = n then 0 else c_next_type s)"
  have i: "i < n" "i = c_next_type s mod n"
    using Suc.prems by (auto simp: i_def n_def)
  have g: "gettermname E s = (c_termtypes s ! i, s\<lparr>c_next_type := i + 1\<rparr>)"
    using Suc.prems(1) by (simp add: gettermname_def i_def n_def Let_def)
  have "ttype_asked E k (s\<lparr>c_next_type := i + 1\<rparr>) =
    map (\<lambda>j. c_termtypes s ! ((i + 1 + j) mod n)) [0..<k]"
    using Suc.IH[of "s\<lparr>c_next_type := i + 1\<rparr>"] Suc.prems i(1) by (simp add: n_def)
  moreover have "(i + 1 + j) mod n = (c_next_type s + Suc j) mod n" for j
    by (simp add: i(2) mod_simps) (metis add_Suc_right mod_add_left_eq mod_Suc_eq)
  ultimately have "ttype_asked E (Suc k) s =
    c_termtypes s ! (c_next_type s mod n) # map (\<lambda>j. c_termtypes s ! ((c_next_type s + Suc j) mod n)) [0..<k]"
    using g i by simp
  also have "\<dots> = map (\<lambda>j. c_termtypes s ! ((c_next_type s + j) mod n)) [0..<Suc k]"
    by (simp add: upt_conv_Cons map_Suc_upt[symmetric] del: upt_Suc)
  finally show ?case by (simp add: n_def)
qed simp

text \<open>The server's side: what it makes of the client's answer.\<close>

lemma ttype_loop_loaded:
  "length xs \<le> room \<Longrightarrow> subend s = subpointer s + length xs \<Longrightarrow> (\<forall>i<length xs. subbuffer s (subpointer s + i) = xs ! i) \<Longrightarrow>
   ttype_loop room s = (map lower_case xs, s\<lparr>subpointer := subend s\<rparr>)"
proof (induction xs arbitrary: room s)
  case Nil
  then show ?case by (cases room) (simp_all add: sb_eof_def)
next
  case (Cons x xs)
  then obtain r where r: "room = Suc r" by (cases room) auto
  let ?t = "s\<lparr>subpointer := Suc (subpointer s)\<rparr>"
  have "\<forall>i<length xs. subbuffer ?t (subpointer ?t + i) = xs ! i"
    using Cons.prems(3) by (auto dest: spec[of _ "Suc _"])
  then have "ttype_loop r ?t = (map lower_case xs, ?t\<lparr>subpointer := subend ?t\<rparr>)"
    using Cons.prems r by (intro Cons.IH) auto
  moreover have "subbuffer s (subpointer s) = x" using Cons.prems(3) by (auto dest: spec[of _ 0])
  ultimately show ?case
    using Cons.prems(2) by (simp add: r sb_eof_def sb_get_def)
qed

lemma suboption_ttype:
  assumes "his_state_is_will TELOPT_TTYPE s" "length name \<le> 40"
  shows "terminaltype (suboption E (loaded ([TELOPT_TTYPE, TELQUAL_IS] @ name) s)) = map lower_case name"
proof -
  define l where "l = loaded ([TELOPT_TTYPE, TELQUAL_IS] @ name) s"
  have b: "subbuffer l 0 = TELOPT_TTYPE" "subbuffer l 1 = TELQUAL_IS" "subend l = length name + 2"
    "subpointer l = 0" "his_state_is_will TELOPT_TTYPE l"
    using loaded_byte[of _ "[TELOPT_TTYPE, TELQUAL_IS] @ name" s] assms(1)
    by (simp_all add: l_def) (simp_all add: loaded_def opt_is_def)
  have name: "subbuffer l (Suc (Suc i)) = name ! i" if "i < length name" for i
    using loaded_byte[of "i + 2" "[TELOPT_TTYPE, TELQUAL_IS] @ name" s] that by (simp add: l_def nth_append)
  define t where "t = (settimer TtypeSubopt (l\<lparr>subpointer := Suc 0\<rparr>))\<lparr>subpointer := Suc (Suc 0)\<rparr>"
  have t: "subend t = subpointer t + length name" "\<forall>i<length name. subbuffer t (subpointer t + i) = name ! i"
    using b name by (simp_all add: t_def settimer_def Let_def)
  have "suboption E l = (let (n, s2) = ttype_loop 40 t in s2\<lparr>terminaltype := n\<rparr>)"
    using b
    by (simp add: suboption_def sub_ttype_def sb_get_def sb_eof_def telnet_opts opt_is_def t_def settimer_def Let_def)
  then show ?thesis
    unfolding l_def[symmetric] using ttype_loop_loaded[OF assms(2) t] by simp
qed

section \<open>The environment\<close>

lemma env_quote: "env_quote xs = sb_encode (env_esc xs)"
  by (induction xs) (auto simp: env_quote_def env_esc_def sb_encode_def IAC_def ENV_VAR_def ENV_VALUE_def ENV_ESC_def)

lemma env_encode_Cons: "env_encode (nv # nvs) = env_encode [nv] @ env_encode nvs"
  by (cases nv) simp

text \<open>A variable as the client names it: with its value if it is exported.\<close>

definition env_sent :: "enviro list \<Rightarrow> u8 list \<Rightarrow> env_var" where
  "env_sent vars n = (n, env_getvalue n True vars)"

lemma env_opt_put_bytes: "er_bytes (env_opt_put vars n r) = er_bytes r @ sb_encode (env_encode [env_sent vars n])"
  by (simp add: env_opt_put_def Let_def env_sent_def env_quote sb_encode_append ENV_VAR_def ENV_VALUE_def IAC_def
      split: option.split)
    (simp add: sb_encode_def IAC_def)

lemma env_opt_adds_names:
  "[] \<notin> set ns \<Longrightarrow> \<exists>r1. env_opt_adds vars ns r = Some r1 \<and>
     er_bytes r1 = er_bytes r @ sb_encode (env_encode (map (env_sent vars) ns))"
proof (induction ns arbitrary: r)
  case Nil
  show ?case by (subst env_opt_adds.simps) (simp add: sb_encode_def)
next
  case (Cons n ns)
  then obtain r1 where "env_opt_adds vars ns (env_opt_put vars n r) = Some r1"
    "er_bytes r1 = er_bytes (env_opt_put vars n r) @ sb_encode (env_encode (map (env_sent vars) ns))"
    by auto
  moreover have "env_opt_adds vars (n # ns) r = env_opt_adds vars ns (env_opt_put vars n r)"
    using Cons.prems by (subst env_opt_adds.simps) auto
  ultimately show ?case
    by (simp add: env_opt_put_bytes env_encode_Cons[of _ "map _ _"] sb_encode_append)
qed

lemma env_opt_all:
  assumes "[] \<notin> set (env_names True vars)"
  shows "\<exists>r1. env_opt_adds vars [[]] r = Some r1 \<and>
     er_bytes r1 = er_bytes r @ sb_encode (env_encode (map (env_sent vars) (env_names True vars)))"
proof -
  have "env_opt_adds vars [[]] r = env_opt_adds vars (env_names True vars) r"
    by (subst env_opt_adds.simps) simp
  then show ?thesis using env_opt_adds_names[OF assms] by simp
qed

end
