(* ===== verification/Telc_Bounds.thy ===== *)
theory Telc_Bounds
  imports Telc_Send
begin

text \<open>
  The buffers of the client: the receiver keeps its own within their bounds, whatever the server
  sends; the replies about special characters and about the environment do not stay in theirs.
\<close>

section \<open>What keeps the suboption and the terminal's buffer\<close>

definition kept :: "telc \<Rightarrow> telc \<Rightarrow> bool" where
  "kept s t \<longleftrightarrow> c_subpointer t = c_subpointer s \<and> c_subend t = c_subend s \<and> length (c_tty t) \<le> length (c_tty s)"

lemma kept_refl [simp]: "kept s s"
  by (simp add: kept_def)

lemma kept_fields [simp]:
  "kept s (t\<lparr>c_ts := ts\<rparr>) = kept s t" "kept s (t\<lparr>c_flushout := b\<rparr>) = kept s t"
  "kept s (t\<lparr>c_flushline := b\<rparr>) = kept s t" "kept s (t\<lparr>c_localflow := b\<rparr>) = kept s t"
  "kept s (t\<lparr>c_overrun := b\<rparr>) = kept s t" "kept s (t\<lparr>c_kludgelinemode := b\<rparr>) = kept s t"
  "kept s (t\<lparr>c_linemode := lm\<rparr>) = kept s t" "kept s (t\<lparr>c_synching := b\<rparr>) = kept s t"
  "kept s (t\<lparr>c_localchars := b\<rparr>) = kept s t" "kept s (t\<lparr>c_cc := k\<rparr>) = kept s t"
  "kept s (t\<lparr>c_spc := sp\<rparr>) = kept s t" "kept s (t\<lparr>c_next_type := n\<rparr>) = kept s t"
  "kept s (t\<lparr>c_resettermname := b\<rparr>) = kept s t" "kept s (t\<lparr>c_termtypes := ty\<rparr>) = kept s t"
  "kept s (netadd bs t) = kept s t" "kept s (c_set f on opt t) = kept s t"
  "kept s (settimer_modenegotiated t) = kept s t" "kept s (settimer_gotDM t) = kept s t"
  "kept s (c_inc_do_dont opt t) = kept s t" "kept s (c_inc_will_wont opt t) = kept s t"
  "kept s (c_his_answer on opt t) = kept s t" "kept s (c_my_answer on opt t) = kept s t"
  "kept s (set_spc i x t) = kept s t" "kept s (c_act a t) = kept s t" "kept s (netprintf E txt t) = kept s t"
  by (simp_all add: kept_def netadd_def c_set_def settimer_modenegotiated_def settimer_gotDM_def
      c_inc_do_dont_def c_inc_will_wont_def c_his_answer_def c_my_answer_def set_spc_def c_act_def netprintf_def)

lemma kept_fold: "(\<And>x t. kept s t \<Longrightarrow> kept s (f x t)) \<Longrightarrow> kept s t \<Longrightarrow> kept s (fold f xs t)"
  by (induction xs arbitrary: t) auto

lemma kept_fold_snd:
  "(\<And>x p. kept s (snd p) \<Longrightarrow> kept s (snd (f x p))) \<Longrightarrow> kept s (snd p) \<Longrightarrow> kept s (snd (fold f xs p))"
  by (induction xs arbitrary: p) auto

named_theorems keeps \<open>operations that keep the suboption and the terminal's buffer\<close>

lemma kept_drop [keeps]: "kept s t \<Longrightarrow> kept s (tty_drop t)"
  by (simp add: kept_def tty_drop_def c_act_def)

lemma kept_mode [keeps]:
  "kept s t \<Longrightarrow> kept s (setconnmode b t)" "kept s t \<Longrightarrow> kept s (setcommandmode t)"
  by (auto simp: kept_def setconnmode_def setcommandmode_def terminal_new_mode_def tty_drain_def tty_drop_def
      c_act_def Let_def)

lemma kept_send [keeps]:
  "kept s t \<Longrightarrow> kept s (c_send_do opt i t)" "kept s t \<Longrightarrow> kept s (c_send_dont opt i t)"
  "kept s t \<Longrightarrow> kept s (c_send_will opt i t)" "kept s t \<Longrightarrow> kept s (c_send_wont opt i t)"
  by (simp_all add: c_send_do_def c_send_dont_def c_send_will_def c_send_wont_def)

lemma kept_slc_end [keeps]: "kept s t \<Longrightarrow> kept s (slc_end_reply r t)"
  by (simp add: slc_end_reply_def Let_def)

lemma kept_slc_update [keeps]: "kept s t \<Longrightarrow> kept s (snd (slc_update t))"
  unfolding slc_update_def
  by (rule kept_fold_snd) (auto simp: slc_update1_def Let_def split: option.splits prod.splits)

lemma kept_slc_export [keeps]: "kept s t \<Longrightarrow> kept s (slc_export E t)"
proof -
  assume t: "kept s t"
  have "kept s (snd (fold slc_export1 [1..<NSLC + 1] (slc_start_reply, terminal_default_chars E t)))"
    by (rule kept_fold_snd) (use t in \<open>auto simp: slc_export1_def terminal_default_chars_def Let_def split: option.splits\<close>)
  then show ?thesis
    by (auto simp: slc_export_def split_beta intro!: keeps)
qed

lemma kept_slc_init [keeps]: "kept s t \<Longrightarrow> kept s (slc_init E t)"
proof -
  assume t: "kept s t"
  define t1 where "t1 = fold initfunc slc_funcs (t\<lparr>c_localchars := True,
                 c_spc := (\<lambda>f. if f \<le> NSLC then \<lparr>spc_val = 0, spc_valp = None, spc_flags = SLC_NOSUPPORT,
                                                spc_mylevel = SLC_NOSUPPORT\<rparr> else c_spc t f)\<rparr>)"
  have "kept s t1" unfolding t1_def
    by (rule kept_fold) (use t in \<open>auto simp: initfunc_def split: option.splits\<close>)
  moreover have "slc_init E t = (if c_slc_mode t1 = SLC_EXPORT then slc_export E t1 else slc_import E True t1)"
    unfolding slc_init_def Let_def t1_def by (rule refl)
  ultimately show ?thesis by (simp add: slc_import_def keeps)
qed

lemma kept_slc_triple: "kept s (snd p) \<Longrightarrow> kept s (snd (slc_triple f fl v p))"
  by (cases p) (simp add: slc_triple_def Let_def)

lemma kept_slc_loop: "kept s (snd p) \<Longrightarrow> kept s (snd (slc_loop cp p))"
  by (induction cp p rule: slc_loop.induct) (simp_all add: kept_slc_triple)

lemma kept_slc [keeps]: "kept s t \<Longrightarrow> kept s (slc cp t)"
  using kept_slc_loop[of s "(slc_start_reply, t)" cp]
  by (auto simp: slc_def split_beta intro!: keeps)

lemma kept_options [keeps]:
  "kept s t \<Longrightarrow> kept s (c_willoption opt t)" "kept s t \<Longrightarrow> kept s (c_wontoption opt t)"
  "kept s t \<Longrightarrow> kept s (c_dooption E opt t)" "kept s t \<Longrightarrow> kept s (c_dontoption opt t)"
  by (auto simp: c_willoption_def c_wontoption_def c_dooption_def c_dontoption_def Let_def intro!: keeps)

lemma kept_naws [keeps]: "kept s t \<Longrightarrow> kept s (sendnaws E t)"
  by (auto simp: sendnaws_def split: option.split)

lemma kept_env [keeps]: "kept s t \<Longrightarrow> kept s (env_opt p len t)"
  by (auto simp: env_opt_def env_opt_end_def Let_def split: option.split)

lemma kept_lm [keeps]:
  "kept s t \<Longrightarrow> kept s (lm_will E cmd t)" "kept s t \<Longrightarrow> kept s (lm_do E cmd t)"
  "kept s t \<Longrightarrow> kept s (lm_mode E cmd i t)"
  by (auto simp: lm_will_def lm_do_def lm_mode_def Let_def intro!: keeps split: list.split)

lemma kept_ttype: "kept s t \<Longrightarrow> kept s (snd (gettermname E t))"
  by (auto simp: gettermname_def Let_def)

section \<open>The receiver\<close>

definition c_ok :: "telc \<Rightarrow> bool" where
  "c_ok s \<longleftrightarrow> length (c_tty s) \<le> TTYRING \<and> c_subpointer s \<le> C_SUBBUFSIZE \<and> c_subend s \<le> C_SUBBUFSIZE"

lemma kept_ok: "kept s t \<Longrightarrow> c_ok s \<Longrightarrow> c_ok t"
  by (auto simp: kept_def c_ok_def)

lemma kept_after_get:
  "kept (s\<lparr>c_subpointer := Suc (c_subpointer s)\<rparr>) t \<Longrightarrow> c_ok s \<Longrightarrow> c_subpointer s < C_SUBBUFSIZE \<Longrightarrow> c_ok t"
  by (auto simp: kept_def c_ok_def)

lemma not_c_eof: "\<not> c_sb_eof s \<Longrightarrow> c_ok s \<Longrightarrow> c_subpointer s < C_SUBBUFSIZE"
  by (simp add: c_sb_eof_def c_ok_def)

definition sub_kept1 :: "telc \<Rightarrow> telc \<Rightarrow> bool" where
  "sub_kept1 s t \<longleftrightarrow> t = s \<or> \<not> c_sb_eof s \<and> (kept s t \<or> kept (s\<lparr>c_subpointer := Suc (c_subpointer s)\<rparr>) t)"

lemma sub_kept1_ok: "sub_kept1 s t \<Longrightarrow> c_ok s \<Longrightarrow> c_ok t"
  using kept_ok kept_after_get not_c_eof by (auto simp: sub_kept1_def)

lemma sub_kept1I:
  "\<not> c_sb_eof s \<Longrightarrow> kept (s\<lparr>c_subpointer := Suc (c_subpointer s)\<rparr>) t \<Longrightarrow> sub_kept1 s t"
  by (simp add: sub_kept1_def)

lemma c_sub_parts:
  "sub_kept1 s (c_sub_ttype E s)" "sub_kept1 s (c_sub_tspeed E s)" "sub_kept1 s (c_sub_lflow s)"
  "sub_kept1 s (c_sub_linemode E s)" "sub_kept1 s (c_sub_environ s)" "sub_kept1 s (c_sub_xdisploc E s)"
proof -
  have same: "sub_kept1 s s" by (simp add: sub_kept1_def)
  note parts = c_sub_ttype_def c_sub_tspeed_def c_sub_lflow_def c_sub_linemode_def c_sub_environ_def
    c_sub_xdisploc_def c_sb_get_def
  show "sub_kept1 s (c_sub_ttype E s)"
    by (simp add: parts same split_beta Let_def sub_kept1I kept_ttype)
  show "sub_kept1 s (c_sub_tspeed E s)"
    by (simp add: parts same split_beta Let_def sub_kept1I)
  show "sub_kept1 s (c_sub_lflow s)"
    by (simp add: parts same Let_def sub_kept1I keeps)
  show "sub_kept1 s (c_sub_linemode E s)"
    by (simp add: parts same Let_def sub_kept1I keeps)
  show "sub_kept1 s (c_sub_environ s)"
    by (simp add: parts same Let_def) (simp add: sub_kept1_def keeps)
  show "sub_kept1 s (c_sub_xdisploc E s)"
    by (simp add: parts same Let_def sub_kept1I keeps split: option.split)
qed

lemma c_suboption_ok: "c_ok s \<Longrightarrow> c_subpointer s < C_SUBBUFSIZE \<Longrightarrow> c_ok (c_suboption E s)"
proof -
  assume s: "c_ok s" "c_subpointer s < C_SUBBUFSIZE"
  then have "c_ok (s\<lparr>c_subpointer := Suc (c_subpointer s)\<rparr>)" by (simp add: c_ok_def)
  then show ?thesis using c_sub_parts[THEN sub_kept1_ok] by (simp add: c_suboption_def c_sb_get_def)
qed

lemma c_sub_end_ok: "c_ok s \<Longrightarrow> c_ok (c_sub_end E c s)"
  unfolding c_sub_end_def Let_def
  by (rule c_suboption_ok) (auto simp: c_ok_def c_sb_accum_def C_SUBBUFSIZE_def)

lemma c_rcv_iac_ok: "c_ok s \<Longrightarrow> 0 < tty_room s \<Longrightarrow> c_ok (c_rcv_iac E c s)"
  by (auto simp: c_rcv_iac_def c_ok_def tty_room_def tty_add_def tty_drop_def settimer_gotDM_def c_act_def Let_def)

lemma c_rcv_iac_other: "c_ok s \<Longrightarrow> c \<noteq> IAC \<Longrightarrow> c_ok (c_rcv_iac E c s)"
  by (auto simp: c_rcv_iac_def c_ok_def tty_drop_def settimer_gotDM_def c_act_def Let_def)

lemma c_sb_accum_ok: "c_ok s \<Longrightarrow> c_ok (c_sb_accum c s)"
  by (simp add: c_ok_def c_sb_accum_def)

lemma c_ok_ts [simp]: "c_ok (s\<lparr>c_ts := ts\<rparr>) = c_ok s"
  by (simp add: c_ok_def)

lemma c_rcv_data_ok: "c_ok s \<Longrightarrow> 2 < tty_room s \<Longrightarrow> c_ok (snd (c_rcv_data c cs s))"
  by (auto simp: c_rcv_data_def c_ok_def tty_room_def tty_add_def Let_def split: list.split)

lemma c_rcv_byte_ok:
  assumes "c_ok s" "2 < tty_room s"
  shows "c_ok (snd (c_rcv_byte E c cs s))"
proof -
  note k = kept_ok[OF _ assms(1)]
  show ?thesis
  proof (cases "c_ts s")
    case TS_CR
    have "c_ok (s\<lparr>c_ts := TS_DATA\<rparr>)" "2 < tty_room (s\<lparr>c_ts := TS_DATA\<rparr>)"
      using assms by (simp_all add: c_ok_def tty_room_def)
    then show ?thesis
      using c_rcv_data_ok[of "s\<lparr>c_ts := TS_DATA\<rparr>" c cs]
      by (auto simp: TS_CR c_rcv_byte_def Let_def) (auto simp: c_ok_def tty_add_def tty_room_def)
  next
    case TS_SB
    then show ?thesis
      using assms(1) by (simp add: c_rcv_byte_def c_sb_accum_ok)
  next
    case TS_SE
    then show ?thesis
      using assms(1) by (simp add: c_rcv_byte_def c_sub_end_ok c_sb_accum_ok c_rcv_iac_other)
  qed (use assms in \<open>auto simp: c_rcv_byte_def Let_def c_rcv_data_ok c_rcv_iac_ok intro!: keeps k
        kept_ok[OF _ c_rcv_iac_ok]\<close>)
qed

lemma c_telrcv_ok: "c_ok s \<Longrightarrow> c_ok (snd (c_telrcv E inp s))"
  by (induction E inp s rule: c_telrcv.induct) (auto simp: c_rcv_byte_ok)

section \<open>The receiver in pieces\<close>

text \<open>
  A carriage return whose null byte comes in the next piece of the input is treated as one that
  stands alone.
\<close>

lemma cr_split:
  assumes "c_ts s = TS_DATA" "c_crmod s" "\<not> c_my_want_state_is_do TELOPT_BINARY s"
    "\<not> c_synching s" "\<not> c_flushout s" "4 < tty_room s"
  shows "c_tty (snd (c_telrcv E [13, 0] s)) = c_tty s @ [13]"
    "c_tty (snd (c_telrcv E [0] (snd (c_telrcv E [13] s)))) = c_tty s @ [13, 10]"
proof -
  have add: "tty_add c t = t\<lparr>c_tty := c_tty t @ [c]\<rparr>" if "\<not> c_synching t" "\<not> c_flushout t" for c t
    using that by (simp add: tty_add_def)
  have "c_rcv_byte E 13 [0] s = ([], s\<lparr>c_tty := c_tty s @ [13]\<rparr>)"
    using assms by (simp add: c_rcv_byte_def c_rcv_data_def add IAC_def)
  then show "c_tty (snd (c_telrcv E [13, 0] s)) = c_tty s @ [13]" using assms(6) by simp
  define t where "t = s\<lparr>c_ts := TS_CR, c_tty := (c_tty s @ [13]) @ [10]\<rparr>"
  have "c_rcv_byte E 13 [] s = ([], t)"
    using assms by (simp add: c_rcv_byte_def c_rcv_data_def add IAC_def t_def)
  moreover have "c_rcv_byte E 0 [] t = ([], t\<lparr>c_ts := TS_DATA\<rparr>)"
    by (simp add: c_rcv_byte_def t_def)
  moreover have "2 < tty_room t" using assms(6) by (simp add: tty_room_def t_def)
  ultimately show "c_tty (snd (c_telrcv E [0] (snd (c_telrcv E [13] s)))) = c_tty s @ [13, 10]"
    using assms(6) by (simp add: t_def)
qed

section \<open>Replies about special characters\<close>

lemma slc_triple_length: "length (fst (slc_triple f fl v p)) \<le> length (fst p) + 6"
proof -
  have two: "length (iac_doubled c) \<le> 2" for c by (simp add: iac_doubled_def)
  have "length (slc_add_reply f fl v r) \<le> length r + 6" for f fl v r
    using two[of f] two[of fl] two[of v] by (simp add: slc_add_reply_def)
  then show ?thesis
    by (cases p) (simp add: slc_triple_def Let_def)
qed

lemma slc_loop_length: "length (fst (slc_loop cp p)) \<le> length (fst p) + 2 * length cp"
proof (induction cp p rule: slc_loop.induct)
  case (1 f fl v cp p)
  then show ?case using slc_triple_length[of f fl v p] by simp
qed simp_all

lemma c_overrun_simps [simp]:
  "c_overrun (netadd bs s) = c_overrun s" "c_overrun (setconnmode b s) = c_overrun s"
  "c_overrun (set_spc i x s) = c_overrun s"
  by (simp_all add: netadd_def set_spc_def setconnmode_def terminal_new_mode_def tty_drain_def tty_drop_def
      c_act_def Let_def)

lemma slc_triple_overrun [simp]: "c_overrun (snd (slc_triple f fl v p)) = c_overrun (snd p)"
  by (cases p) (simp add: slc_triple_def Let_def)

lemma slc_loop_overrun [simp]: "c_overrun (snd (slc_loop cp p)) = c_overrun (snd p)"
  by (induction cp p rule: slc_loop.induct) simp_all

lemma slc_update_overrun [simp]: "c_overrun (snd (slc_update s)) = c_overrun s"
proof -
  have "c_overrun (snd (fold slc_update1 ks p)) = c_overrun (snd p)" for ks p
    by (induction ks arbitrary: p) (auto simp: slc_update1_def Let_def split: option.split prod.split)
  then show ?thesis by (simp add: slc_update_def)
qed

lemma slc_overrun:
  "c_overrun (slc cp s) \<longleftrightarrow> c_overrun s \<or> SLC_REPLY < length (fst (slc_loop cp (slc_start_reply, s))) + 2"
  by (simp add: slc_def split_beta slc_end_reply_def Let_def)

text \<open>A request of 41 functions that do not exist is answered with 129 bytes.\<close>

lemma slc_unknown:
  "fst (slc_loop (concat (replicate n [19, 1, 0])) p) = fst p @ concat (replicate n [19, 0, 0])"
proof (induction n arbitrary: p)
  case (Suc n)
  obtain r s where p: "p = (r, s)" by (cases p)
  have "slc_triple 19 1 0 (r, s) = (r @ [19, 0, 0], s)"
    by (simp add: slc_triple_def NSLC_def SLC_LEVELBITS_def SLC_NOSUPPORT_def slc_add_reply_def iac_doubled_def IAC_def)
  then show ?case using Suc.IH by (simp add: p)
qed simp

lemma slc_reply_overruns: "c_overrun (slc (concat (replicate 41 [19, 1, 0])) s)"
proof -
  have "length (concat (replicate n [19, 0, 0 :: u8])) = 3 * n" for n
    by (induction n) simp_all
  then have "length (fst (slc_loop (concat (replicate 41 [19, 1, 0])) (slc_start_reply, s))) = 127"
    unfolding slc_unknown by (simp add: slc_start_reply_def)
  then show ?thesis by (simp add: slc_overrun SLC_REPLY_def)
qed

section \<open>Replies about the environment\<close>

text \<open>One variable whose value is all quoted bytes, or longer than the memory grows by.\<close>

lemma env_reply_overruns:
  assumes "length v = 600"
  shows "er_overrun (env_opt_put [\<lparr>ev_name = Some (bytes ''DISPLAY''), ev_value = v, ev_export = True\<rparr>]
           (bytes ''DISPLAY'') (env_opt_start TELQUAL_IS))"
proof -
  have "length v \<le> length (env_quote v)"
    by (induction v) (auto simp: env_quote_def)
  then show ?thesis
    using assms by (simp add: env_opt_put_def env_getvalue_def Let_def env_opt_start_def OPT_REPLY_SIZE_def)
qed

text \<open>
  A request for one variable by name: the name is lost, its first byte is overwritten by the end of
  the name that is not there yet, and all exported variables are added, once for each byte.
\<close>

lemma env_opt_names_empty:
  "env_opt_names (\<lambda>i. [TELQUAL_SEND, ENV_VALUE, 85, 83, 69, 82, IAC, SE] ! i) 0 6 1 None [] = [[], [], [], [], []]"
proof -
  have name: "b q = 0 \<Longrightarrow> q < 258 \<Longrightarrow> name_at b q = []" for b q
    by (simp add: name_at_def upt_conv_Cons)
  show ?thesis
    by (simp add: env_opt_names.simps name ENV_VALUE_def ENV_ESC_def)
qed

end
