(* ===== verification/Telc_Properties.thy ===== *)
theory Telc_Properties
  imports Telc_Session Telc_Bounds Telnet_Properties
begin

text \<open>
  What holds of the TELNET client, by itself and with the server of this collection at the other
  end, and a state each to try it on.
\<close>

definition cenv0 :: telc_env where
  "cenv0 = \<lparr>e_oob = False, e_winsize = Some (24, 80), e_old_cc = (\<lambda>_. 0), e_ispeed = 15, e_ospeed = 15,
     e_termcap = (\<lambda>n. if n = bytes ''vt100'' then Some (bytes ''d0|vt100|vt100-am|dec vt100:co#80'') else None),
     e_stack = [], e_command = (\<lambda>_ s. s)\<rparr>"

definition telc0 :: telc where
  "telc0 = \<lparr>c_options = (\<lambda>_. 0), c_do_dont_resp = (\<lambda>_. 0), c_will_wont_resp = (\<lambda>_. 0), c_net = [],
     c_net_mark = None, c_tty = [], c_screen = [], c_ts = TS_DATA, c_subbuffer = (\<lambda>_. 0), c_subpointer = 0,
     c_subend = 0, c_system = 0, c_echotoggle = 0, c_modenegotiated = 0, c_gotDM = 0, c_connected = True,
     c_flushout = False, c_flushline = True, c_synching = False, c_localflow = False, c_localchars = False,
     c_dontlecho = False, c_crmod = False, c_crlf = False, c_autoflush = True, c_autosynch = False,
     c_donebinarytoggle = False, c_kludgelinemode = True, c_linemode = 0, c_globalmode = 0, c_prevmode = 0,
     c_bol = True, c_local = False, c_escapechar = 29, c_rlogin = 0, c_echoc = 5,
     c_spc = (\<lambda>_. \<lparr>spc_val = 0, spc_valp = None, spc_flags = 0, spc_mylevel = 0\<rparr>), c_slc_mode = SLC_EXPORT,
     c_cc = (\<lambda>_. 0),
     c_vars = [\<lparr>ev_name = Some (bytes ''TERM''), ev_value = bytes ''vt100'', ev_export = False\<rparr>,
               \<lparr>ev_name = Some (bytes ''USER''), ev_value = bytes ''joe'', ev_export = True\<rparr>],
     c_resettermname = True, c_termtypes = [], c_next_type = 0, c_want_status = 0, c_overrun = False,
     c_actions = []\<rparr>"

section \<open>Options\<close>




section \<open>Keys\<close>

text \<open>C9: In character mode, keys other than the escape character are all sent, and the server's receiver,
  reading what was sent, passes exactly these keys on to the process.\<close>

theorem typing_arrives:
  assumes "char_mode c" "\<forall>k\<in>set ks. plain_key c k" "length (c_net c) + 2 * length ks + 2 < NETRING"
    and "ready Es (length ks) s" "\<not> his_state_is_will TELOPT_BINARY s"
    and "telsnd E ks c = (left, c')" "telrcv Es (drop (length (c_net c)) (c_net c')) s = (rest, t)"
  shows "left = [] \<and> rest = [] \<and> ptyobuf t = ptyobuf s @ ks"
proof -
  obtain c1 where "telsnd E ks c = ([], c1)" "c_net c1 = c_net c @ concat (map (nvt (c_crlf c)) ks)"
    using telsnd_plain[OF assms(1-3)] by blast
  moreover have "telrcv Es (concat (map (nvt (c_crlf c)) ks)) s = ([], s\<lparr>ptyobuf := ptyobuf s @ ks\<rparr>)"
    using telrcv_data[of Es "map (Pair (c_crlf c)) ks" s] assms(4,5) by (simp add: comp_def)
  ultimately show ?thesis using assms(6,7) by auto
qed

lemma telsnd_pair: "telsnd E ks c = (fst (telsnd E ks c), snd (telsnd E ks c))"
  by simp

theorem typing_arrives_witness:
  "ptyobuf (snd (telrcv env0 (c_net (snd (telsnd cenv0 [108, 255, 13] telc0))) tel0)) = [108, 255, 13]"
  using typing_arrives[OF _ _ _ _ _ telsnd_pair telrcv_pair, of telc0 "[108, 255, 13]" env0 tel0 cenv0] tel0_ok
  by (simp add: ready_def char_mode_def plain_key_def telc0_def tel0_def opt_is_def c_opt_def strip_def
      POSIX_VDISABLE_def mode_local_chars_def NETRING_def del: telrcv.simps telsnd.simps)

section \<open>Answers to the server's questions\<close>








section \<open>Bounds\<close>



text \<open>C27: The answer to a request about special characters stays in its array of 128 bytes if the request
  has at most 61 bytes; there is one of 123 bytes whose answer does not.\<close>

theorem slc_reply_bounds:
  "(length cp \<le> 61 \<longrightarrow> c_overrun (slc cp c) = c_overrun c) \<and>
   (\<exists>cp'. length cp' = 123 \<and> c_overrun (slc cp' c))"
proof
  have "length (fst (slc_loop cp (slc_start_reply, c))) \<le> 4 + 2 * length cp"
    using slc_loop_length[of cp "(slc_start_reply, c)"] by (simp add: slc_start_reply_def)
  then show "length cp \<le> 61 \<longrightarrow> c_overrun (slc cp c) = c_overrun c"
    by (auto simp: slc_overrun SLC_REPLY_def)
  have "length (concat (replicate n [19, 1, 0 :: u8])) = 3 * n" for n by (induction n) simp_all
  then show "\<exists>cp'. length cp' = 123 \<and> c_overrun (slc cp' c)"
    using slc_reply_overruns by (intro exI[of _ "concat (replicate 41 [19, 1, 0])"]) auto
qed

theorem slc_reply_bounds_witness: "c_overrun (slc [3, 2, 3] telc0) = c_overrun telc0"
  using slc_reply_bounds[of "[3, 2, 3]" telc0] by simp

section \<open>The ring buffers\<close>

text \<open>C24: A new ring buffer, written to and read from in any order, gives the bytes a list would give that
  keeps what fits: the array with its three cursors refines the bounded queue.\<close>

theorem ring_is_queue:
  assumes "fresh \<noteq> []" "queue_run rb_write rb_get os (rb_init fresh) = (res, r)"
  shows "queue_spec (length fresh) os [] = (res, rb_bytes r)"
proof -
  have "rb_size (rb_init fresh) = length fresh" by (simp add: rb_init_def)
  then show ?thesis
    using ring_queue.refines[of "rb_init fresh" os] rb_init_ok[OF assms(1)] assms(2) by simp
qed

theorem ring_is_queue_witness:
  "fst (queue_run rb_write rb_get [Put [1, 2], Get, Put [3, 4, 5], Get, Get, Get, Get] (rb_init [0, 0, 0])) =
   [Some 1, Some 2, Some 3, Some 4, None]"
  using ring_is_queue[of "[0, 0, 0]" "[Put [1, 2], Get, Put [3, 4, 5], Get, Get, Get, Get]", OF _ surjective_pairing]
  by (simp add: queue_spec_def list_get_def prod_eq_iff del: queue_run.simps)
     (simp add: list_get_def Let_def)

text \<open>C23: A ring buffer that is not full is flushed in order: what was written and what is left are the bytes
  it had, a write is urgent exactly if it begins at the mark and none goes past it, no assertion fails, and
  the result is 0 or 1 exactly if nothing is left; more than 1 is one more than the last write took.\<close>

theorem ring_flush:
  assumes "rb_ok r" "rb_full_count r < rb_size r" "rb_flush False as r = (v, ws, r')"
  shows "rb_ok r' \<and> concat (map snd ws) @ rb_bytes r' = rb_bytes r \<and> marks_at (rb_mark r) ws \<and>
    (\<exists>k. v = Flushed k \<and> (k \<in> {0, 1} \<longleftrightarrow> rb_bytes r' = []) \<and>
      (1 < k \<longrightarrow> ws \<noteq> [] \<and> int (length (snd (last ws))) = k - 1))"
  using rb_flush[OF assms(1) _ assms(3)] assms(2) by (simp add: rb_full_count_def)

definition ring0 :: ringbuf where
  "ring0 = rb_putch 242 (rb_set_mark (rb_write [108, 255] (rb_init [0, 0, 0, 0])))"

lemma ring0: "ring0 = \<lparr>rb_buf = [108, 255, 242, 0], rb_size = 4, rb_head = 3, rb_tail = 0, rb_count = 3, rb_marked = Some 2\<rparr>"
  by (simp add: ring0_def rb_putch_def rb_write_def rb_set_mark_def rb_init_def rb_put1_def rb_wrap_def
      take_Cons' eval_nat_numeral)

theorem ring_flush_witness:
  "concat (map snd (fst (snd (rb_flush False [2, 1] ring0)))) @ rb_bytes (snd (snd (rb_flush False [2, 1] ring0))) =
   [108, 255, 242]"
proof -
  have "rb_ok ring0" by (simp add: ring0 rb_ok_def rb_wrap_def exI[of _ 2])
  then show ?thesis
    using ring_flush[of ring0 "[2, 1]" "fst (rb_flush False [2, 1] ring0)" "fst (snd (rb_flush False [2, 1] ring0))"
      "snd (snd (rb_flush False [2, 1] ring0))"]
    by (simp add: rb_full_count_def ring0 rb_bytes_def[of "\<lparr>rb_buf = _, rb_size = _, rb_head = _, rb_tail = _, rb_count = _, rb_marked = _\<rparr>"]
        rb_wrap_def upt_conv_Cons)
qed

end
