(* ===== verification/Spec2Isabelle.thy ===== *)
theory Spec2Isabelle
  imports Rip_Properties Tftp_Properties Telnet_Properties Talk_Properties Inetd_Properties Ftp_Properties
    Rcp_Properties Rcp_Command Ftpd_Transfer Ftpd_Properties Telc_Properties
begin

text \<open>
  Netkit is a collection of network programs for Unix. This development models the state and the
  logic of several of its servers and clients, each by itself as they only share a machine: the super-server
  starts the other servers for the connections that come, and each of those is one process that reads
  packets or bytes and keeps its state in C variables; where both ends of a protocol are modelled, they are also
  put together. Every program is a group of theories with the same prefix. The state of a program is a record, each C function a HOL function on it,
  structures are records, linked lists are lists with their head first, fixed-width integers are
  words, and a C \<open>int\<close> that cannot overflow here is an \<open>int\<close>. What the operating system and
  the libraries answer is an argument of the definitions (a record named \<open>..._env\<close>, or part of the
  event handled), and what the program asks of them is recorded in the state in the order it happens.

  \<^bold>\<open>Prelude.\<close> \<^verbatim>\<open>Netkit_Prelude\<close>: flag words, the C \<open>short\<close>, facts on searching and updating lists by
  key, and the locale \<open>keyed_store\<close>, the contract of a table kept under keys. It is interpreted on the
  routing table (\<^verbatim>\<open>Rip_Vector\<close>) and on the talk daemon's table of requests (\<^verbatim>\<open>Talk_Invariant\<close>).

  \<^bold>\<open>Routing daemon\<close> (\<^verbatim>\<open>netkit-routed/routed\<close>). \<^verbatim>\<open>Rip_Addr\<close> has the addresses and interfaces
  (\<^verbatim>\<open>inet.c\<close>, \<^verbatim>\<open>af.c\<close>, \<^verbatim>\<open>if.c\<close>), \<^verbatim>\<open>Rip_Table\<close> both hash tables and the requests to the kernel
  (\<^verbatim>\<open>tables.c\<close>), \<^verbatim>\<open>Rip_Output\<close> and \<^verbatim>\<open>Rip_Input\<close> the packets sent and received (\<^verbatim>\<open>output.c\<close>,
  \<^verbatim>\<open>input.c\<close>), \<^verbatim>\<open>Rip_Startup\<close> the interface scan and \<^verbatim>\<open>/etc/gateways\<close> (\<^verbatim>\<open>startup.c\<close>),
  \<^verbatim>\<open>Rip_Timer\<close> the clock and the main loop (\<^verbatim>\<open>timer.c\<close>, \<^verbatim>\<open>main.c\<close>). The lemmas of \<^verbatim>\<open>Rip_Invariant\<close>
  show that every operation keeps the table well-formed and so every reachable state is;
  \<^verbatim>\<open>Rip_Vector\<close> reads the table as a map from destinations to gateway, metric and age and shows that
  learning a route is the distance vector step on that map. A chain of a hash table is a list; entries
  have a number for their address, and removal and update go by it.

  \<^bold>\<open>File transfer\<close> (\<^verbatim>\<open>netkit-tftp\<close>). \<^verbatim>\<open>Tftp_Buffers\<close> is the double buffering and the conversion to
  network text that client and server share (\<^verbatim>\<open>tftpsubs.c\<close>), \<^verbatim>\<open>Tftp_Server\<close> the parsing and checking
  of a request and both protocol machines of the server (\<^verbatim>\<open>tftpd.c\<close>), \<^verbatim>\<open>Tftp_Client\<close> those of the
  client (\<^verbatim>\<open>tftp.c\<close>). A protocol machine is a state with a phase and a step for each packet or alarm;
  an alarm every \<open>rexmtval\<close> seconds until \<open>maxtimeout\<close> bounds how long it waits. \<^verbatim>\<open>Tftp_Transfer\<close> has
  the lemmas on the segments of a file and the invariants of the machines under any order, loss and
  repetition of packets.

  \<^bold>\<open>Remote login\<close> (\<^verbatim>\<open>netkit-telnet/telnetd\<close>). \<^verbatim>\<open>Telnet_State\<close> is the option bookkeeping of
  \<^verbatim>\<open>state.c\<close> with its macros and the four negotiation functions; \<^verbatim>\<open>Telnet_Receive\<close> the suboptions and
  the machine \<open>telrcv\<close> that reads the client byte by byte. The buffers are functions from positions, so
  that a write outside them would show as a write at a position past their size. \<^verbatim>\<open>Telnet_Options\<close> has the
  reference negotiation machines and shows that the code's answers are theirs, \<^verbatim>\<open>Telnet_Invariant\<close> the
  bounds and what no input changes, \<^verbatim>\<open>Telnet_Decode\<close> that what a client encodes arrives. The model is
  the program built without LINEMODE, ENCRYPT and AUTHENTICATE and with diagnostics off, on a system
  without TCSIG; calls of the terminal driver are recorded as actions, and clearing the network buffer
  is recorded, not carried out.

  \<^bold>\<open>Talk daemon\<close> (\<^verbatim>\<open>netkit-ntalk/talkd\<close>). \<^verbatim>\<open>Talk_Table\<close> is the table of requests (\<^verbatim>\<open>table.c\<close>),
  \<^verbatim>\<open>Talk_Server\<close> the repairs, checks and handling of a packet and the message on the callee's terminal
  (\<^verbatim>\<open>repairs.c\<close>, \<^verbatim>\<open>talkd.c\<close>, \<^verbatim>\<open>process.c\<close>, \<^verbatim>\<open>announce.c\<close>), for a machine with the low byte first. The
  walk that expires entries reads freed memory: the model goes on with what was there and counts it.
  \<^verbatim>\<open>Talk_Invariant\<close> has the invariant of the table and what each packet keeps of it.

  \<^bold>\<open>Super-server\<close> (\<^verbatim>\<open>netkit-base/inetd\<close>). \<^verbatim>\<open>Inetd_Config\<close> is the scan of the configuration file and the
  entry made of its words, \<^verbatim>\<open>Inetd_Table\<close> the table of services and its sockets (\<^verbatim>\<open>servtab.c\<close>,
  \<^verbatim>\<open>inetd.c\<close>), \<^verbatim>\<open>Inetd_Main\<close> launching, reaping, the main loop, the child's privileges and the services
  inside (\<^verbatim>\<open>inetd.c\<close>, \<^verbatim>\<open>builtins.c\<close>). A pointer to a service is its position in the table. \<^verbatim>\<open>Inetd_Invariant\<close>
  has the bookkeeping of sockets, \<^verbatim>\<open>Inetd_Runs\<close> its preservation by whole runs and the refinement of
  reading a configuration to a specification on keys and data; \<^verbatim>\<open>Inetd_Scan\<close> shows that reading ends
  on every file and inverts writing. The loop over the words is written as a partial function, so that
  not ending would be \<open>None\<close>. When no descriptor is left the program starts itself anew; the model stops
  there, with \<open>restarting\<close> set.

  \<^bold>\<open>File transfer client\<close> (\<^verbatim>\<open>netkit-ftp/ftp\<close>). \<^verbatim>\<open>Ftp_Map\<close> and \<^verbatim>\<open>Ftp_Names\<close> are what the client does with
  file names: the translations, the protection against names a server makes up and the check of the list of names for a
  pattern (\<^verbatim>\<open>cmds.c\<close>); a pointer into a string is the rest of the string. \<^verbatim>\<open>Ftp_Reply\<close> reads replies and converts
  text (\<^verbatim>\<open>ftp.c\<close>), \<^verbatim>\<open>Ftp_Glob\<close> expands local file names (\<^verbatim>\<open>glob.c\<close>) by functions that call each other as the
  code's do, and end as the pattern gets shorter; \<^verbatim>\<open>Ftp_Netrc\<close> searches the file of passwords (\<^verbatim>\<open>ruserpass.c\<close>).
  \<^verbatim>\<open>Ftp_Paths\<close> sees a path as its components, \<^verbatim>\<open>Ftp_Mapping\<close> has the syntax of the manual for name mappings and
  what it stands for, \<^verbatim>\<open>Ftp_Match\<close> and \<^verbatim>\<open>Ftp_Listing\<close> patterns as syntax trees, the language of each and the names found
  for it in a directory, \<^verbatim>\<open>Ftp_Hosts\<close> the file of passwords as a list of entries. The buffers for names are taken to be
  large enough, but for that of the expansion, which is checked; an expansion that would read past the end of a
  pattern sets \<open>g_over\<close>.

  \<^bold>\<open>Remote copying\<close> (\<^verbatim>\<open>netkit-rsh/rcp/rcp.c\<close>). \<^verbatim>\<open>Rcp_Copy\<close> has the side that sends files and the side that
  stores them, each as a function of the bytes that come from the other; a tree of files is what is sent, a map from
  paths to files what is stored, and the calls of \<open>sink\<close> within each other are a stack of their local variables.
  \<^verbatim>\<open>Rcp_Exchange\<close> follows a tree through both sides, record by record; \<^verbatim>\<open>Rcp_Command\<close> is what is run and which
  connections are made for the arguments. Numbers the receiver reads are not cut to an \<open>int\<close>: the properties are for
  sizes below 2 to the 31st.

  \<^bold>\<open>File transfer server\<close> (\<^verbatim>\<open>linux-ftpd/ftpd\<close>). \<^verbatim>\<open>Ftpd_Scan\<close> is the line with its telnet escapes and the
  scanner, on the memory that begins with \<open>cbuf\<close> (what is after it is an argument), \<^verbatim>\<open>Ftpd_Grammar\<close> the parser for the
  rules of the grammar, as lists of sequences of tokens, and what it does after an error (\<^verbatim>\<open>ftpcmd.y\<close>). \<^verbatim>\<open>Ftpd_Login\<close> has
  the state of the process and USER and PASS (\<^verbatim>\<open>ftpd.c\<close>, \<^verbatim>\<open>isexpired.c\<close>), \<^verbatim>\<open>Ftpd_Data\<close> the data connections and the
  conversion of text, \<^verbatim>\<open>Ftpd_Commands\<close> the commands, the actions of the grammar and the session (\<^verbatim>\<open>ftpd.c\<close>, \<^verbatim>\<open>popen.c\<close>).
  The calls of the system are a log, each with the effective user it is made as, and the answer to a call is any
  function of the log; the bytes of one transfer are one call. \<^verbatim>\<open>Ftpd_Rights\<close> shows which calls a command makes and as
  whom, \<^verbatim>\<open>Ftpd_Session\<close> the same for a login, with who may be let in as an abstract predicate and an invariant of the
  process, \<^verbatim>\<open>Ftpd_Reading\<close> how lines are read and what follows an error, \<^verbatim>\<open>Ftpd_Transfer\<close> that client and server convert
  text alike.

  \<^bold>\<open>Remote login client\<close> (\<^verbatim>\<open>netkit-telnet/telnet\<close>). \<^verbatim>\<open>Telc_Ring\<close> is the ring buffer (\<^verbatim>\<open>ring.cc\<close>) as an array with its
  cursors, with the queue of bytes it holds and the locale \<open>bounded_queue\<close>, the contract of a queue that drops what does
  not fit. \<^verbatim>\<open>Telc_State\<close> has the state of the client, the modes of its terminal (\<^verbatim>\<open>terminal.cc\<close>) and its variables
  (\<^verbatim>\<open>environ.cc\<close>), \<^verbatim>\<open>Telc_Options\<close> requests, answers and the special characters, \<^verbatim>\<open>Telc_Receive\<close> suboptions and the
  receiver, \<^verbatim>\<open>Telc_Send\<close> the keys and commands that are sent, the signals and the start (\<^verbatim>\<open>telnet.cc\<close>, \<^verbatim>\<open>sys_bsd.cc\<close>).
  The model is the program built with KLUDGELINEMODE and without TN3270, with the printing of options off; the
  interpreter of commands is an argument. Between its functions the bytes for the network are a list without end, and what
  \<open>telsnd\<close> tests of the room there is its length; from the moment \<open>c_overrun\<close> is set, a buffer has been overrun and the
  model says nothing. \<^verbatim>\<open>Telc_Negotiation\<close> shows that the client's answers are those of the reference machines the server
  is compared with, by two more interpretations of the locale \<open>negotiating\<close>; \<^verbatim>\<open>Telnet_Agreement\<close> puts client
  and server at the ends of a line that keeps the order and shows by an invariant of both machines and the messages on
  their way that they come to agree; \<^verbatim>\<open>Telc_Session\<close> has what the client sends as the server reads it, \<^verbatim>\<open>Telc_Bounds\<close> its
  buffers and where they are overrun.

  The properties of a program are in its theory \<^verbatim>\<open>..._Properties\<close>, numbered in the order of their importance,
  each with a concrete run on which its hypotheses hold.

  \<^bold>\<open>Hypotheses on the surroundings.\<close> A new socket has a descriptor that is not open (\<open>sockets_fresh\<close>); an
  accepted connection too, and a process number below 32768 (\<open>io_ok\<close>), as the code keeps it in a \<open>short\<close>.
  The configuration is read again while no service waits for its server; what happens otherwise is the
  content of \<open>purge_miscounts\<close>. The file transfer server can change its effective
  user (\<open>seteuid_works\<close>). Memory allocation succeeds, but for the routing table, where it may fail.

  \<^bold>\<open>Not modelled.\<close> Log messages, traces and statistics; command lines, signals as such, and the start as a
  daemon; terminal modes and the login process of the remote login server; in the file
  transfer server the time limit, urgent commands during a transfer and the texts of status and of the table of commands;
  in the remote login client the commands, the loop that waits for the network and the terminal, and a DISPLAY whose number
  is longer than the buffer for it; the programs of the
  collection that are not named above. Where the C code leaves memory uninitialised or has freed it, the
  model takes what is read as an argument or counts the reads.
\<close>

end
